(* ===== verification/Prelude.thy ===== *)
theory Prelude
  imports Main "HOL-Library.AList" "HOL-Library.Char_ord" "HOL-Library.List_Lexorder"
begin

text \<open>
  The shared layer of the development: Go byte strings as \<open>char list\<close> (a \<open>char\<close> is one byte),
  the handful of functions of Go's \<open>strings\<close>, \<open>bytes\<close> and \<open>strconv\<close> packages that the components call, Go
  maps as association lists with distinct keys, and Go's error returns as a sum type. It also
  declares the collections the component theories add their facts to:
  \<open>bounds\<close> for facts that bound an index or a length, \<open>progress\<close> for facts that a loop or a
  scanner moves forward, \<open>inv_intros\<close> for preservation of a component invariant.
\<close>

named_theorems bounds "index and length bounds"
named_theorems progress "a step of a loop moves forward"
named_theorems inv_intros "operations preserve the component invariant"

section \<open>Bytes\<close>

abbreviation byte :: "char \<Rightarrow> nat" where
  "byte c \<equiv> of_char c"

definition between :: "char \<Rightarrow> char \<Rightarrow> char \<Rightarrow> bool" where
  "between lo hi c \<longleftrightarrow> byte lo \<le> byte c \<and> byte c \<le> byte hi"

definition is_digit :: "char \<Rightarrow> bool" where
  "is_digit c \<longleftrightarrow> between CHR ''0'' CHR ''9'' c"

definition is_lower :: "char \<Rightarrow> bool" where
  "is_lower c \<longleftrightarrow> between CHR ''a'' CHR ''z'' c"

definition is_upper :: "char \<Rightarrow> bool" where
  "is_upper c \<longleftrightarrow> between CHR ''A'' CHR ''Z'' c"

abbreviation LF :: char where "LF \<equiv> CHR 0x0A"
abbreviation CR :: char where "CR \<equiv> CHR 0x0D"
abbreviation TAB :: char where "TAB \<equiv> CHR 0x09"
abbreviation DQUOTE :: char where "DQUOTE \<equiv> CHR 0x22"
abbreviation SQUOTE :: char where "SQUOTE \<equiv> CHR 0x27"

definition lower_byte :: "char \<Rightarrow> char" where
  "lower_byte c = (if is_upper c then char_of (byte c + 32) else c)"

lemma between_byte [simp]: "between lo hi c \<Longrightarrow> byte lo \<le> byte c"
  by (simp add: between_def)

lemma is_digit_byte: "is_digit c \<longleftrightarrow> 48 \<le> byte c \<and> byte c \<le> 57"
  by (simp add: is_digit_def between_def)

lemma not_upper_lower_byte: "\<not> is_upper (lower_byte c)"
  by (auto simp: lower_byte_def is_upper_def between_def of_char_of)

lemma lower_byte_idem [simp]: "lower_byte (lower_byte c) = lower_byte c"
  using not_upper_lower_byte [of c] by (simp add: lower_byte_def [of "lower_byte c"])

section \<open>Scanning loops\<close>

text \<open>
  The loop \<^verbatim>\<open>for j < len(s) && p(s[j]) { j++ }\<close>, which most hand-written scanners of the
  program share.
\<close>

function scan :: "(char \<Rightarrow> bool) \<Rightarrow> string \<Rightarrow> nat \<Rightarrow> nat" where
  "scan p s j = (if j < length s \<and> p (s ! j) then scan p s (Suc j) else j)"
  by pat_completeness auto
termination
  by (relation "measure (\<lambda>(p, s, j). length s - j)") auto

declare scan.simps [simp del]

lemma scan_ge [bounds]: "j \<le> scan p s j"
proof (induction p s j rule: scan.induct)
  case (1 p s j)
  then show ?case
    by (cases "j < length s \<and> p (s ! j)") (auto simp: scan.simps [of p s j])
qed

lemma scan_le [bounds]: "j \<le> length s \<Longrightarrow> scan p s j \<le> length s"
proof (induction p s j rule: scan.induct)
  case (1 p s j)
  then show ?case
    by (cases "j < length s \<and> p (s ! j)") (auto simp: scan.simps [of p s j])
qed

lemma scan_holds: "j \<le> k \<Longrightarrow> k < scan p s j \<Longrightarrow> p (s ! k)"
proof (induction p s j rule: scan.induct)
  case (1 p s j)
  then show ?case
    by (cases "j < length s \<and> p (s ! j)"; cases "k = j") (auto simp: scan.simps [of p s j])
qed

lemma scan_stops: "scan p s j < length s \<Longrightarrow> \<not> p (s ! scan p s j)"
proof (induction p s j rule: scan.induct)
  case (1 p s j)
  then show ?case
    by (cases "j < length s \<and> p (s ! j)") (auto simp: scan.simps [of p s j])
qed

lemma scan_takeWhile: "j \<le> length s \<Longrightarrow> scan p s j = j + length (takeWhile p (drop j s))"
proof (induction p s j rule: scan.induct)
  case (1 p s j)
  show ?case
  proof (cases "j < length s")
    case True
    then have "drop j s = s ! j # drop (Suc j) s"
      by (simp add: Cons_nth_drop_Suc)
    with 1 True show ?thesis
      by (auto simp: scan.simps [of p s j])
  next
    case False
    then show ?thesis by (simp add: scan.simps [of p s j])
  qed
qed

section \<open>Go's strings package\<close>

text \<open>\<^verbatim>\<open>strings.HasPrefix\<close>, \<^verbatim>\<open>IndexByte\<close>, \<^verbatim>\<open>Index\<close> (a negative result is \<open>None\<close>), \<^verbatim>\<open>Contains\<close>.\<close>

definition has_prefix :: "string \<Rightarrow> string \<Rightarrow> bool" where
  "has_prefix s p \<longleftrightarrow> take (length p) s = p"

definition trim_prefix :: "string \<Rightarrow> string \<Rightarrow> string" where
  "trim_prefix s p = (if has_prefix s p then drop (length p) s else s)"

fun index_byte :: "string \<Rightarrow> char \<Rightarrow> nat option" where
  "index_byte [] c = None"
| "index_byte (x # xs) c = (if x = c then Some 0 else map_option Suc (index_byte xs c))"

fun str_index :: "string \<Rightarrow> string \<Rightarrow> nat option" where
  "str_index [] p = (if p = [] then Some 0 else None)"
| "str_index (x # xs) p =
     (if has_prefix (x # xs) p then Some 0 else map_option Suc (str_index xs p))"

definition contains :: "string \<Rightarrow> string \<Rightarrow> bool" where
  "contains s p \<longleftrightarrow> str_index s p \<noteq> None"

lemma has_prefix_length [bounds]: "has_prefix s p \<Longrightarrow> length p \<le> length s"
  unfolding has_prefix_def by (metis append_take_drop_id le_add1 length_append)

lemma has_prefix_append [simp]: "has_prefix (p @ t) p"
  by (simp add: has_prefix_def)

lemma has_prefix_iff: "has_prefix s p \<longleftrightarrow> (\<exists>t. s = p @ t)"
  unfolding has_prefix_def by (metis append_eq_conv_conj append_take_drop_id)

lemma has_prefix_Cons: "has_prefix s (c # p) \<longleftrightarrow> (\<exists>t. s = c # t \<and> has_prefix t p)"
  by (auto simp: has_prefix_iff)

lemma has_prefix_drop_bound [bounds]:
  "has_prefix (drop i s) p \<Longrightarrow> p \<noteq> [] \<Longrightarrow> i + length p \<le> length s"
  using has_prefix_length [of "drop i s" p] by (cases p) auto

lemma has_prefix_drop_nth: "has_prefix (drop i s) (c # p) \<Longrightarrow> i < length s \<and> s ! i = c"
  by (cases "i < length s") (auto simp: has_prefix_Cons Cons_nth_drop_Suc [symmetric])

lemma index_byte_Some: "index_byte s c = Some k \<Longrightarrow> k < length s \<and> s ! k = c \<and> c \<notin> set (take k s)"
  by (induction s arbitrary: k) (auto split: if_splits)

lemma index_byte_bound [bounds]: "index_byte s c = Some k \<Longrightarrow> k < length s"
  by (simp add: index_byte_Some)

lemma index_byte_None: "index_byte s c = None \<longleftrightarrow> c \<notin> set s"
  by (induction s) auto

lemma str_index_Some:
  "str_index s p = Some k \<Longrightarrow> k + length p \<le> length s \<and> has_prefix (drop k s) p"
proof (induction s arbitrary: k)
  case Nil
  then show ?case by (auto simp: has_prefix_def split: if_splits)
next
  case (Cons x xs)
  then show ?case
    by (cases k) (auto split: if_splits dest: has_prefix_length)
qed

lemma str_index_bound [bounds]: "str_index s p = Some k \<Longrightarrow> k + length p \<le> length s"
  by (simp add: str_index_Some)

lemma contains_iff: "contains s p \<longleftrightarrow> (\<exists>u v. s = u @ p @ v)"
proof (induction s)
  case Nil
  then show ?case by (auto simp: contains_def)
next
  case (Cons x xs)
  have "contains (x # xs) p \<longleftrightarrow> has_prefix (x # xs) p \<or> contains xs p"
    by (auto simp: contains_def)
  also have "\<dots> \<longleftrightarrow> (\<exists>v. x # xs = p @ v) \<or> (\<exists>u v. xs = u @ p @ v)"
    by (simp add: has_prefix_iff Cons.IH)
  also have "\<dots> \<longleftrightarrow> (\<exists>u v. x # xs = u @ p @ v)"
    by (metis append_Cons append_Nil list.exhaust list.inject)
  finally show ?case .
qed

section \<open>Decimal rendering\<close>

text \<open>\<^verbatim>\<open>strconv.Itoa\<close> and the \<^verbatim>\<open>%d\<close> verb: the shortest decimal spelling.\<close>

definition digit_char :: "nat \<Rightarrow> char" where
  "digit_char d = char_of (48 + d)"

fun nat_str :: "nat \<Rightarrow> string" where
  "nat_str n = (if n < 10 then [digit_char n] else nat_str (n div 10) @ [digit_char (n mod 10)])"

declare nat_str.simps [simp del]

definition itoa :: "int \<Rightarrow> string" where
  "itoa i = (if i < 0 then CHR ''-'' # nat_str (nat (- i)) else nat_str (nat i))"

fun str_nat :: "string \<Rightarrow> nat" where
  "str_nat [] = 0"
| "str_nat (c # cs) = (byte c - 48) * 10 ^ length cs + str_nat cs"

lemma byte_digit_char [simp]: "d < 10 \<Longrightarrow> byte (digit_char d) = 48 + d"
  by (simp add: digit_char_def)

lemma is_digit_digit_char [simp]: "d < 10 \<Longrightarrow> is_digit (digit_char d)"
  by (simp add: is_digit_byte)

lemma str_nat_snoc: "str_nat (cs @ [c]) = 10 * str_nat cs + (byte c - 48)"
  by (induction cs) (auto simp: algebra_simps)

lemma str_nat_nat_str [simp]: "str_nat (nat_str n) = n"
proof (induction n rule: nat_str.induct)
  case (1 n)
  then show ?case
    by (cases "n < 10") (simp_all add: nat_str.simps [of n] str_nat_snoc)
qed

lemma nat_str_digits: "\<forall>c \<in> set (nat_str n). is_digit c"
proof (induction n rule: nat_str.induct)
  case (1 n)
  then show ?case
    by (cases "n < 10") (auto simp: nat_str.simps [of n])
qed

lemma nat_str_inj: "nat_str m = nat_str n \<longleftrightarrow> m = n"
  by (metis str_nat_nat_str)

lemma nat_str_not_Nil [simp]: "nat_str n \<noteq> []"
  by (cases "n < 10") (simp_all add: nat_str.simps [of n])

lemma not_digit_minus [simp]: "\<not> is_digit CHR ''-''"
  by (simp add: is_digit_byte)

lemma nat_str_hd_digit: "nat_str n \<noteq> CHR ''-'' # t"
  by (metis list.set_intros(1) nat_str_digits not_digit_minus)

lemma itoa_inj: "itoa i = itoa j \<longleftrightarrow> i = j"
  using nat_str_hd_digit by (auto simp: itoa_def nat_str_inj split: if_splits) metis+

text \<open>Two digit runs closed by the same non-digit separate uniquely: the basis of key injectivity.\<close>

lemma digits_sep_unique:
  assumes "a @ c # u = b @ c # v" and "c \<notin> set a" and "c \<notin> set b"
  shows "a = b \<and> u = v"
  using assms
proof (induction a arbitrary: b)
  case Nil
  then show ?case by (cases b) auto
next
  case (Cons x xs)
  then show ?case by (cases b) auto
qed

lemma itoa_chars: "\<forall>c \<in> set (itoa i). is_digit c \<or> c = CHR ''-''"
  using nat_str_digits by (auto simp: itoa_def)

lemma itoa_sep_unique:
  assumes "itoa i @ CHR '':'' # u = itoa j @ CHR '':'' # v"
  shows "i = j \<and> u = v"
proof -
  have "CHR '':'' \<notin> set (itoa k)" for k
    using itoa_chars [of k] by (auto simp: is_digit_byte)
  with assms digits_sep_unique show ?thesis
    by (metis itoa_inj)
qed

end
