(* ===== verification/Scrub.thy ===== *)
theory Scrub
  imports Prelude
begin

text \<open>
  The secret scrubber, \<^verbatim>\<open>back/internal/ingest/scrub/scrub.go\<close>: thirteen hand-written matchers, the
  table that dispatches a position to the matchers its first byte can begin, and the loop that
  replaces every match by a marker. A matcher takes the line and a position and returns the end
  of its match (\<open>None\<close> is \<^verbatim>\<open>ok = false\<close>). The interface between the loop and the matchers is the
  locale \<open>scanner\<close>; the table of the code interprets it.
\<close>

section \<open>Byte classes\<close>

definition isTokenByte :: "char \<Rightarrow> bool" where
  "isTokenByte c \<longleftrightarrow> is_lower c \<or> is_upper c \<or> is_digit c \<or> c = CHR ''_'' \<or> c = CHR ''-''"

definition isB64 :: "char \<Rightarrow> bool" where
  "isB64 c \<longleftrightarrow> is_lower c \<or> is_upper c \<or> is_digit c \<or> c = CHR ''_'' \<or> c = CHR ''-''"

definition isDigit :: "char \<Rightarrow> bool" where
  "isDigit c \<longleftrightarrow> is_digit c"

definition isEmailLocal :: "char \<Rightarrow> bool" where
  "isEmailLocal c \<longleftrightarrow> is_lower c \<or> is_upper c \<or> is_digit c \<or>
     c = CHR ''.'' \<or> c = CHR ''_'' \<or> c = CHR ''%'' \<or> c = CHR ''+'' \<or> c = CHR ''-''"

section \<open>The matchers\<close>

definition pemMatcher :: "string \<Rightarrow> nat \<Rightarrow> nat option" where
  "pemMatcher s i =
     (let hdr = drop i s in
      if \<not> has_prefix hdr ''-----BEGIN '' then None
      else if \<not> contains hdr ''PRIVATE KEY'' \<and>
        (case index_byte hdr LF of None \<Rightarrow> True
         | Some nl \<Rightarrow> \<not> contains (take nl hdr) ''PRIVATE KEY'') then None
      else case str_index hdr ''-----END '' of
        None \<Rightarrow> None
      | Some e \<Rightarrow>
          (let tail = i + e in
           case index_byte (drop tail s) LF of
             None \<Rightarrow> Some (length s)
           | Some nl \<Rightarrow> Some (tail + nl)))"

definition bearerMatcher :: "string \<Rightarrow> nat \<Rightarrow> nat option" where
  "bearerMatcher s i =
     (let p = ''Bearer '' in
      if \<not> has_prefix (drop i s) p then None
      else
        let j = scan (\<lambda>c. c \<noteq> CHR '' '' \<and> c \<noteq> LF \<and> c \<noteq> CR \<and> c \<noteq> DQUOTE \<and> c \<noteq> SQUOTE \<and> c \<noteq> CHR '','')
                  s (i + length p)
        in if j - i - length p < 12 then None else Some j)"

definition prefixTokenFn :: "string \<Rightarrow> nat \<Rightarrow> string \<Rightarrow> nat \<Rightarrow> nat option" where
  "prefixTokenFn prefix minTail s i =
     (if \<not> has_prefix (drop i s) prefix then None
      else
        let j = scan isTokenByte s (i + length prefix)
        in if j - i - length prefix < minTail then None else Some j)"

text \<open>The loops over alternative prefixes return at the first one that yields a long enough token.\<close>

fun github_prefixes :: "string list \<Rightarrow> string \<Rightarrow> nat \<Rightarrow> nat option" where
  "github_prefixes [] s i = None"
| "github_prefixes (p # ps) s i =
     (if has_prefix (drop i s) p then
        let j = scan isTokenByte s (i + length p)
        in if j - i \<ge> 20 then Some j else github_prefixes ps s i
      else github_prefixes ps s i)"

definition githubAnyMatcher :: "string \<Rightarrow> nat \<Rightarrow> nat option" where
  "githubAnyMatcher s i =
     github_prefixes [''ghp_'', ''gho_'', ''ghu_'', ''ghs_'', ''ghr_'', ''github_pat_''] s i"

fun slack_prefixes :: "string list \<Rightarrow> string \<Rightarrow> nat \<Rightarrow> nat option" where
  "slack_prefixes [] s i = None"
| "slack_prefixes (p # ps) s i =
     (if has_prefix (drop i s) p then
        let j = scan (\<lambda>c. isTokenByte c \<or> c = CHR ''.'') s (i + length p)
        in if j - i - length p \<ge> 10 then Some j else slack_prefixes ps s i
      else slack_prefixes ps s i)"

definition slackAnyMatcher :: "string \<Rightarrow> nat \<Rightarrow> nat option" where
  "slackAnyMatcher s i = slack_prefixes [''xoxp-'', ''xoxb-'', ''xoxa-'', ''xoxs-''] s i"

definition substr :: "string \<Rightarrow> nat \<Rightarrow> nat \<Rightarrow> string" where
  "substr s a b = take (b - a) (drop a s)"

definition jwtMatcher :: "string \<Rightarrow> nat \<Rightarrow> nat option" where
  "jwtMatcher s i =
     (if \<not> isB64 (s ! i) then None
      else if i > 0 \<and> isB64 (s ! (i - 1)) then None
      else
        let j = scan (\<lambda>c. isB64 c \<or> c = CHR ''.'') s i;
            dots = length (filter (\<lambda>c. c = CHR ''.'') (substr s i j))
        in if dots \<noteq> 2 then None
           else case index_byte (substr s i j) CHR ''.'' of
             None \<Rightarrow> None
           | Some k1 \<Rightarrow>
               (let d1 = i + k1 in
                case index_byte (substr s (d1 + 1) j) CHR ''.'' of
                  None \<Rightarrow> None
                | Some k2 \<Rightarrow>
                    (let d2 = k2 + d1 + 1 in
                     if d1 - i < 8 \<or> d2 - d1 - 1 < 8 \<or> j - d2 - 1 < 8 then None else Some j)))"

fun conn_schemes :: "string list \<Rightarrow> string \<Rightarrow> nat \<Rightarrow> nat option" where
  "conn_schemes [] s i = None"
| "conn_schemes (sch # schs) s i =
     (if has_prefix (drop i s) sch then
        let rest = drop (i + length sch) s in
        case index_byte rest CHR '':'' of
          None \<Rightarrow> conn_schemes schs s i
        | Some colon \<Rightarrow>
            (case index_byte (drop colon rest) CHR ''@'' of
               None \<Rightarrow> conn_schemes schs s i
             | Some at \<Rightarrow> Some (i + length sch + colon + at))
      else conn_schemes schs s i)"

definition connStrMatcher :: "string \<Rightarrow> nat \<Rightarrow> nat option" where
  "connStrMatcher s i =
     conn_schemes [''postgres://'', ''postgresql://'', ''mysql://'', ''mongodb://'', ''redis://''] s i"

definition sessionEqMatcher :: "string \<Rightarrow> nat \<Rightarrow> nat option" where
  "sessionEqMatcher s i =
     (let p = ''session='' in
      if \<not> has_prefix (drop i s) p then None
      else
        let j = scan (\<lambda>c. c \<noteq> CHR '' '' \<and> c \<noteq> CHR '';'' \<and> c \<noteq> CHR ''&'' \<and> c \<noteq> LF \<and> c \<noteq> DQUOTE \<and> c \<noteq> SQUOTE)
                  s (i + length p)
        in if j - i - length p < 8 then None else Some j)"

definition cookieSetMatcher :: "string \<Rightarrow> nat \<Rightarrow> nat option" where
  "cookieSetMatcher s i =
     (let p = ''Set-Cookie: '' in
      if \<not> has_prefix (drop i s) p then None
      else
        let j = i + length p in
        case index_byte (drop j s) CHR ''='' of
          None \<Rightarrow> None
        | Some eq \<Rightarrow>
            (let v = scan (\<lambda>c. c \<noteq> CHR '';'' \<and> c \<noteq> LF \<and> c \<noteq> CR \<and> c \<noteq> DQUOTE) s (j + eq + 1)
             in if v - j - eq - 1 < 8 then None else Some v))"

text \<open>\<^verbatim>\<open>luhn\<close> walks the digits from the last one, doubling every second one.\<close>

definition luhn_double :: "nat \<Rightarrow> nat" where
  "luhn_double d = (if d * 2 > 9 then d * 2 - 9 else d * 2)"

fun luhn_sum :: "bool \<Rightarrow> char list \<Rightarrow> nat" where
  "luhn_sum alt [] = 0"
| "luhn_sum alt (c # cs) =
     (let d = byte c - 48
      in (if alt then luhn_double d else d) + luhn_sum (\<not> alt) cs)"

definition luhn :: "char list \<Rightarrow> bool" where
  "luhn digits \<longleftrightarrow> luhn_sum False (rev digits) mod 10 = 0"

text \<open>
  The card loop scans digits, blanks and dashes, and keeps the first twenty digits it meets.
\<close>

function card_scan :: "string \<Rightarrow> nat \<Rightarrow> char list \<Rightarrow> nat \<times> char list" where
  "card_scan s j digits =
     (if j < length s \<and> (isDigit (s ! j) \<or> s ! j = CHR '' '' \<or> s ! j = CHR ''-'') then
        card_scan s (Suc j)
          (if isDigit (s ! j) \<and> length digits < 20 then digits @ [s ! j] else digits)
      else (j, digits))"
  by pat_completeness auto
termination
  by (relation "measure (\<lambda>(s, j, digits). length s - j)") auto

declare card_scan.simps [simp del]

definition cardLuhnMatcher :: "string \<Rightarrow> nat \<Rightarrow> nat option" where
  "cardLuhnMatcher s i =
     (if \<not> isDigit (s ! i) then None
      else if i > 0 \<and> isDigit (s ! (i - 1)) then None
      else case card_scan s i [] of (j, digits) \<Rightarrow>
        let n = length digits in
        if n < 13 \<or> n > 19 then None
        else if \<not> luhn digits then None
        else Some j)"

definition emailMatcher :: "string \<Rightarrow> nat \<Rightarrow> nat option" where
  "emailMatcher s i =
     (if \<not> isEmailLocal (s ! i) then None
      else if i > 0 \<and> isEmailLocal (s ! (i - 1)) then None
      else
        let j = scan isEmailLocal s i in
        if j \<ge> length s \<or> s ! j \<noteq> CHR ''@'' then None
        else
          let hostStart = j + 1;
              k = scan (\<lambda>c. isEmailLocal c \<or> c = CHR ''.'') s hostStart
          in if k - hostStart < 5 \<or> \<not> contains (substr s hostStart k) ''.'' then None
             else Some k)"

section \<open>The table and its dispatch\<close>

record matcher_entry =
  m_name :: string
  m_fn :: "string \<Rightarrow> nat \<Rightarrow> nat option"
  m_starts :: "char \<Rightarrow> bool"

definition matchers :: "matcher_entry list" where
  "matchers =
    [\<lparr>m_name = ''pem'', m_fn = pemMatcher, m_starts = (\<lambda>c. c = CHR ''-'')\<rparr>,
     \<lparr>m_name = ''bearer'', m_fn = bearerMatcher, m_starts = (\<lambda>c. c = CHR ''B'')\<rparr>,
     \<lparr>m_name = ''stripe'', m_fn = prefixTokenFn ''sk_live_'' 16, m_starts = (\<lambda>c. c = CHR ''s'')\<rparr>,
     \<lparr>m_name = ''github'', m_fn = githubAnyMatcher, m_starts = (\<lambda>c. c = CHR ''g'')\<rparr>,
     \<lparr>m_name = ''slack'', m_fn = slackAnyMatcher, m_starts = (\<lambda>c. c = CHR ''x'')\<rparr>,
     \<lparr>m_name = ''aws'', m_fn = prefixTokenFn ''AKIA'' 16, m_starts = (\<lambda>c. c = CHR ''A'')\<rparr>,
     \<lparr>m_name = ''google'', m_fn = prefixTokenFn ''AIza'' 32, m_starts = (\<lambda>c. c = CHR ''A'')\<rparr>,
     \<lparr>m_name = ''jwt'', m_fn = jwtMatcher, m_starts = isB64\<rparr>,
     \<lparr>m_name = ''conn'', m_fn = connStrMatcher,
       m_starts = (\<lambda>c. c = CHR ''p'' \<or> c = CHR ''m'' \<or> c = CHR ''r'')\<rparr>,
     \<lparr>m_name = ''cookie'', m_fn = cookieSetMatcher, m_starts = (\<lambda>c. c = CHR ''S'')\<rparr>,
     \<lparr>m_name = ''session'', m_fn = sessionEqMatcher, m_starts = (\<lambda>c. c = CHR ''s'')\<rparr>,
     \<lparr>m_name = ''card'', m_fn = cardLuhnMatcher, m_starts = isDigit\<rparr>,
     \<lparr>m_name = ''email'', m_fn = emailMatcher, m_starts = isEmailLocal\<rparr>]"

text \<open>\<^verbatim>\<open>init\<close> fills the 256-entry table: for each matcher, for each byte it could begin on, append its index.\<close>

definition init_entry :: "nat \<Rightarrow> (char \<Rightarrow> bool) \<Rightarrow> (char \<Rightarrow> nat list) \<Rightarrow> char \<Rightarrow> nat list" where
  "init_entry idx st d =
     fold (\<lambda>b d. if st (char_of b) then d(char_of b := d (char_of b) @ [idx]) else d) [0..<256] d"

definition init_dispatch :: "matcher_entry list \<Rightarrow> char \<Rightarrow> nat list" where
  "init_dispatch tbl =
     fold (\<lambda>(idx, m) d. init_entry idx (m_starts m) d) (enumerate 0 tbl) (\<lambda>_. [])"

definition dispatch :: "char \<Rightarrow> nat list" where
  "dispatch = init_dispatch matchers"

fun try_matchers :: "matcher_entry list \<Rightarrow> nat list \<Rightarrow> string \<Rightarrow> nat \<Rightarrow> (nat \<times> string) option" where
  "try_matchers tbl [] s i = None"
| "try_matchers tbl (idx # idxs) s i =
     (case m_fn (tbl ! idx) s i of
        Some e \<Rightarrow> Some (e, m_name (tbl ! idx))
      | None \<Rightarrow> try_matchers tbl idxs s i)"

definition matchAt :: "string \<Rightarrow> nat \<Rightarrow> (nat \<times> string) option" where
  "matchAt s i = try_matchers matchers (dispatch (s ! i)) s i"

text \<open>The reference: try every matcher of the table, in its order.\<close>

fun first_match :: "matcher_entry list \<Rightarrow> string \<Rightarrow> nat \<Rightarrow> (nat \<times> string) option" where
  "first_match [] s i = None"
| "first_match (m # ms) s i =
     (case m_fn m s i of Some e \<Rightarrow> Some (e, m_name m) | None \<Rightarrow> first_match ms s i)"

lemma fold_char_table:
  assumes "distinct xs" and "\<forall>b \<in> set xs. b < 256"
  shows "fold (\<lambda>b d. if st (char_of b) then d(char_of b := d (char_of b) @ [idx]) else d) xs d c =
    (if byte c \<in> set xs \<and> st c then d c @ [idx] else d c)"
  using assms
proof (induction xs arbitrary: d)
  case Nil
  then show ?case by simp
next
  case (Cons b xs)
  from Cons.prems have b: "b < 256" "b \<notin> set xs" by auto
  then have ne: "c = char_of b \<longleftrightarrow> byte c = b"
    by (auto simp: of_char_of)
  from Cons show ?case
    by (cases "byte c = b") (use b ne in auto)
qed

lemma init_entry_eq: "init_entry idx st d c = (if st c then d c @ [idx] else d c)"
  unfolding init_entry_def
  by (subst fold_char_table) simp_all

lemma init_dispatch_aux:
  "fold (\<lambda>(idx, m) d. init_entry idx (m_starts m) d) xs d c =
     d c @ map fst (filter (\<lambda>(idx, m). m_starts m c) xs)"
  by (induction xs arbitrary: d) (auto simp: init_entry_eq)

lemma init_dispatch_eq [code]:
  "init_dispatch tbl c = map fst (filter (\<lambda>(idx, m). m_starts m c) (enumerate 0 tbl))"
  by (simp add: init_dispatch_def init_dispatch_aux)

section \<open>The interface between the scanner and its matchers\<close>

text \<open>What the table relies on: a match moves forward, stays inside the line, and begins on a byte the
  matcher declared.\<close>

locale matcher =
  fixes fn :: "string \<Rightarrow> nat \<Rightarrow> nat option" and starts :: "char \<Rightarrow> bool"
  assumes fwd: "i < length s \<Longrightarrow> fn s i = Some e \<Longrightarrow> i < e"
    and inside: "i < length s \<Longrightarrow> fn s i = Some e \<Longrightarrow> e \<le> length s"
    and begins: "i < length s \<Longrightarrow> fn s i = Some e \<Longrightarrow> starts (s ! i)"
begin

lemma dispatch_skips: "i < length s \<Longrightarrow> \<not> starts (s ! i) \<Longrightarrow> fn s i = None"
  using begins by (cases "fn s i") auto

lemma span_nonempty: "i < length s \<Longrightarrow> fn s i = Some e \<Longrightarrow> drop i (take e s) \<noteq> []"
  using fwd inside by fastforce

end

locale matcher_table =
  fixes tbl :: "matcher_entry list"
  assumes entries: "m \<in> set tbl \<Longrightarrow> matcher (m_fn m) (m_starts m)"
begin

lemma try_filtered:
  assumes "i < length s" and "\<forall>(idx, m) \<in> set xs. idx < length tbl \<and> tbl ! idx = m"
  shows "try_matchers tbl (map fst (filter (\<lambda>(idx, m). m_starts m (s ! i)) xs)) s i =
    first_match (map snd xs) s i"
  using assms(2)
proof (induction xs)
  case Nil
  then show ?case by simp
next
  case (Cons x xs)
  obtain idx m where x: "x = (idx, m)" by (cases x)
  with Cons.prems have m: "tbl ! idx = m" "m \<in> set tbl" by auto
  have skip: "\<not> m_starts m (s ! i) \<Longrightarrow> m_fn m s i = None"
    by (rule matcher.dispatch_skips [OF entries [OF m(2)] assms(1)])
  have IH: "try_matchers tbl (map fst (filter (\<lambda>(idx, m). m_starts m (s ! i)) xs)) s i =
      first_match (map snd xs) s i"
    by (rule Cons.IH) (use Cons.prems in simp)
  show ?case
    by (cases "m_starts m (s ! i)") (simp_all add: x m(1) skip IH cong: option.case_cong)
qed

lemma dispatch_is_first_match:
  assumes "i < length s"
  shows "try_matchers tbl (init_dispatch tbl (s ! i)) s i = first_match tbl s i"
proof -
  have "\<forall>(idx, m) \<in> set (enumerate 0 tbl). idx < length tbl \<and> tbl ! idx = m"
    by (auto simp: in_set_enumerate_eq)
  from try_filtered [OF assms this] show ?thesis
    by (simp add: init_dispatch_eq)
qed

lemma first_match_from:
  assumes "set ms \<subseteq> set tbl" and "first_match ms s i = Some (e, k)"
  shows "\<exists>m \<in> set tbl. m_fn m s i = Some e \<and> m_name m = k"
  using assms by (induction ms) (auto split: option.splits)

lemma first_match_span:
  assumes "i < length s" and "first_match tbl s i = Some (e, k)"
  shows "i < e \<and> e \<le> length s"
proof -
  from first_match_from [OF order_refl assms(2)]
  obtain m where m: "m \<in> set tbl" "m_fn m s i = Some e" by blast
  then have "matcher (m_fn m) (m_starts m)" by (simp add: entries)
  from matcher.fwd [OF this assms(1) m(2)] matcher.inside [OF this assms(1) m(2)]
  show ?thesis by simp
qed

lemma first_match_complete:
  assumes "m \<in> set ms" and "m_fn m s i \<noteq> None"
  shows "first_match ms s i \<noteq> None"
  using assms by (induction ms) (auto split: option.splits)

end

section \<open>The code's matchers satisfy the interface\<close>

lemma scan_after_prefix:
  assumes "has_prefix (drop i s) p" and "p \<noteq> []"
  shows "i + length p \<le> scan q s (i + length p) \<and> scan q s (i + length p) \<le> length s"
  using has_prefix_drop_bound [OF assms] scan_ge [of "i + length p" q s] scan_le [of "i + length p" s q]
  by simp

text \<open>Most matchers begin with one of a few literal prefixes and end at or after it.\<close>

lemma matcher_of_prefixes:
  assumes "\<And>s i e. fn s i = Some e \<Longrightarrow>
      \<exists>p \<in> set ps. has_prefix (drop i s) p \<and> i + length p \<le> e \<and> e \<le> length s"
    and "\<forall>p \<in> set ps. p \<noteq> [] \<and> starts (hd p)"
  shows "matcher fn starts"
proof
  fix s i e
  assume "fn s i = Some e"
  with assms obtain p where p: "has_prefix (drop i s) p" "i + length p \<le> e" "e \<le> length s"
    and ne: "p \<noteq> []" "starts (hd p)" by blast
  then obtain c q where cq: "p = c # q" by (cases p) auto
  show "i < e" "e \<le> length s" using p cq by auto
  show "starts (s ! i)" using has_prefix_drop_nth [of i s c q] p(1) ne cq by simp
qed

lemma scan_first:
  assumes "i < length s" and "p (s ! i)"
  shows "i < scan p s i" and "scan p s i \<le> length s"
proof -
  from assms have "scan p s i = scan p s (Suc i)" by (simp add: scan.simps [of p s i])
  with scan_ge [of "Suc i" p s] show "i < scan p s i" by simp
  from assms show "scan p s i \<le> length s" by (simp add: scan_le)
qed

lemma pem_span:
  assumes m: "pemMatcher s i = Some e"
  shows "has_prefix (drop i s) ''-----BEGIN '' \<and> i < e \<and> e \<le> length s"
proof -
  from m have p: "has_prefix (drop i s) ''-----BEGIN ''"
    by (auto simp: pemMatcher_def Let_def split: if_splits)
  then have lt: "i < length s" by (rule has_prefix_drop_nth [THEN conjunct1])
  from m obtain k where k: "str_index (drop i s) ''-----END '' = Some k"
    by (auto simp: pemMatcher_def Let_def split: if_splits option.splits)
  have k0: "k \<noteq> 0"
  proof
    assume "k = 0"
    with str_index_Some [OF k] p show False by (auto simp: has_prefix_iff)
  qed
  have kb: "i + k \<le> length s" using str_index_bound [OF k] lt by simp
  have nl: "index_byte (drop (i + k) s) LF = Some nl \<Longrightarrow> i + k + nl \<le> length s" for nl
    using index_byte_bound [of "drop (i + k) s" LF nl] by simp
  have "e = length s \<or> (\<exists>nl. index_byte (drop (i + k) s) LF = Some nl \<and> e = i + k + nl)"
    using m k by (auto simp: pemMatcher_def Let_def split: if_splits option.splits)
  with p lt k0 kb nl show ?thesis by auto
qed

lemma pem_matcher: "matcher pemMatcher (\<lambda>c. c = CHR ''-'')"
proof
  fix s i e
  assume "pemMatcher s i = Some e"
  from pem_span [OF this] show "i < e" "e \<le> length s" "s ! i = CHR ''-''"
    by (auto dest: has_prefix_drop_nth)
qed

lemma bearer_matcher: "matcher bearerMatcher (\<lambda>c. c = CHR ''B'')"
  by (rule matcher_of_prefixes [where ps = "[''Bearer '']"])
    (use scan_after_prefix [where p = "''Bearer ''"] in
      \<open>auto simp: bearerMatcher_def Let_def split: if_splits\<close>)

lemma prefixToken_matcher: "matcher (prefixTokenFn (c # p) n) (\<lambda>x. x = c)"
  by (rule matcher_of_prefixes [where ps = "[c # p]"])
    (use scan_after_prefix [where p = "c # p"] in
      \<open>auto simp: prefixTokenFn_def Let_def split: if_splits\<close>)

lemma github_prefixes_span:
  "github_prefixes ps s i = Some e \<Longrightarrow> [] \<notin> set ps \<Longrightarrow>
     \<exists>p \<in> set ps. has_prefix (drop i s) p \<and> i + length p \<le> e \<and> e \<le> length s"
  by (induction ps) (use scan_after_prefix in \<open>auto simp: Let_def split: if_splits\<close>)

lemma github_matcher: "matcher githubAnyMatcher (\<lambda>c. c = CHR ''g'')"
  by (rule matcher_of_prefixes, unfold githubAnyMatcher_def, erule github_prefixes_span) auto

lemma slack_prefixes_span:
  "slack_prefixes ps s i = Some e \<Longrightarrow> [] \<notin> set ps \<Longrightarrow>
     \<exists>p \<in> set ps. has_prefix (drop i s) p \<and> i + length p \<le> e \<and> e \<le> length s"
  by (induction ps) (use scan_after_prefix in \<open>auto simp: Let_def split: if_splits\<close>)

lemma slack_matcher: "matcher slackAnyMatcher (\<lambda>c. c = CHR ''x'')"
  by (rule matcher_of_prefixes, unfold slackAnyMatcher_def, erule slack_prefixes_span) auto

lemma jwt_matcher: "matcher jwtMatcher isB64"
proof
  fix s i e
  assume lt: "i < length s" and m: "jwtMatcher s i = Some e"
  then show b: "isB64 (s ! i)" by (auto simp: jwtMatcher_def split: if_splits)
  have "e = scan (\<lambda>c. isB64 c \<or> c = CHR ''.'') s i"
    using m by (auto simp: jwtMatcher_def Let_def split: if_splits option.splits)
  with scan_first [OF lt, of "\<lambda>c. isB64 c \<or> c = CHR ''.''"] b
  show "i < e" "e \<le> length s" by auto
qed

lemma conn_schemes_span:
  "conn_schemes ps s i = Some e \<Longrightarrow> [] \<notin> set ps \<Longrightarrow>
     \<exists>p \<in> set ps. has_prefix (drop i s) p \<and> i + length p \<le> e \<and> e \<le> length s"
proof (induction ps)
  case Nil
  then show ?case by simp
next
  case (Cons p ps)
  show ?case
  proof (cases "has_prefix (drop i s) p")
    case True
    let ?rest = "drop (i + length p) s"
    consider (later) "conn_schemes ps s i = Some e"
      | (here) co at where "index_byte ?rest CHR '':'' = Some co"
          "index_byte (drop co ?rest) CHR ''@'' = Some at" "e = i + length p + co + at"
      using Cons.prems True by (auto simp: Let_def split: option.splits)
    then show ?thesis
    proof cases
      case later
      with Cons show ?thesis by auto
    next
      case here
      from index_byte_bound [OF here(1)] index_byte_bound [OF here(2)] have "e \<le> length s"
        unfolding here(3) length_drop by linarith
      with True here(3) show ?thesis by auto
    qed
  next
    case False
    with Cons show ?thesis by auto
  qed
qed

lemma conn_matcher:
  "matcher connStrMatcher (\<lambda>c. c = CHR ''p'' \<or> c = CHR ''m'' \<or> c = CHR ''r'')"
  by (rule matcher_of_prefixes, unfold connStrMatcher_def, erule conn_schemes_span) auto

lemma session_matcher: "matcher sessionEqMatcher (\<lambda>c. c = CHR ''s'')"
  by (rule matcher_of_prefixes [where ps = "[''session='']"])
    (use scan_after_prefix [where p = "''session=''"] in
      \<open>auto simp: sessionEqMatcher_def Let_def split: if_splits\<close>)

lemma cookie_span:
  assumes "cookieSetMatcher s i = Some e"
  shows "has_prefix (drop i s) ''Set-Cookie: '' \<and> i + length ''Set-Cookie: '' \<le> e \<and> e \<le> length s"
proof -
  let ?p = "''Set-Cookie: ''" and ?q = "\<lambda>c. c \<noteq> CHR '';'' \<and> c \<noteq> LF \<and> c \<noteq> CR \<and> c \<noteq> DQUOTE"
  from assms have p: "has_prefix (drop i s) ?p"
    by (simp add: cookieSetMatcher_def Let_def split: if_splits)
  from assms p obtain eq where eq: "index_byte (drop (i + length ?p) s) CHR ''='' = Some eq"
    and e: "e = scan ?q s (i + length ?p + eq + 1)"
    unfolding cookieSetMatcher_def Let_def by (simp split: option.splits if_splits)
  from index_byte_bound [OF eq] have "i + length ?p + eq + 1 \<le> length s"
    unfolding length_drop by linarith
  with e p show ?thesis
    using scan_ge [of "i + length ?p + eq + 1" ?q s] scan_le [of "i + length ?p + eq + 1" s ?q]
    by simp
qed

lemma cookie_matcher: "matcher cookieSetMatcher (\<lambda>c. c = CHR ''S'')"
  by (rule matcher_of_prefixes [where ps = "[''Set-Cookie: '']"])
    (use cookie_span in \<open>auto simp del: length_Cons\<close>)

lemma card_scan_fst:
  "fst (card_scan s j ds) = scan (\<lambda>c. isDigit c \<or> c = CHR '' '' \<or> c = CHR ''-'') s j"
proof (induction s j ds rule: card_scan.induct)
  case (1 s j ds)
  then show ?case
    by (cases "j < length s \<and> (isDigit (s ! j) \<or> s ! j = CHR '' '' \<or> s ! j = CHR ''-'')")
      (auto simp: card_scan.simps [of s j] scan.simps [of _ s j])
qed

lemma card_matcher: "matcher cardLuhnMatcher isDigit"
proof
  fix s i e
  assume lt: "i < length s" and m: "cardLuhnMatcher s i = Some e"
  then show d: "isDigit (s ! i)" by (auto simp: cardLuhnMatcher_def split: if_splits)
  have "e = fst (card_scan s i [])"
    using m by (auto simp: cardLuhnMatcher_def Let_def split: if_splits prod.splits)
  with scan_first [OF lt, of "\<lambda>c. isDigit c \<or> c = CHR '' '' \<or> c = CHR ''-''"] d
  show "i < e" "e \<le> length s" by (auto simp: card_scan_fst)
qed

lemma email_matcher: "matcher emailMatcher isEmailLocal"
proof
  fix s i e
  let ?j = "scan isEmailLocal s i" and ?q = "\<lambda>c. isEmailLocal c \<or> c = CHR ''.''"
  assume lt: "i < length s" and m: "emailMatcher s i = Some e"
  then show "isEmailLocal (s ! i)" by (auto simp: emailMatcher_def split: if_splits)
  from m have "?j < length s" "e = scan ?q s (?j + 1)"
    by (auto simp: emailMatcher_def Let_def split: if_splits)
  with scan_ge [of i isEmailLocal s] scan_ge [of "?j + 1" ?q s] scan_le [of "?j + 1" s ?q]
  show "i < e" "e \<le> length s" by auto
qed

lemmas matcher_contracts =
  pem_matcher bearer_matcher prefixToken_matcher github_matcher slack_matcher jwt_matcher
  conn_matcher cookie_matcher session_matcher card_matcher email_matcher

interpretation scrubber: matcher_table matchers
  by (rule matcher_table.intro) (auto simp: matchers_def matcher_contracts)

section \<open>The scrubbing loop\<close>

lemma matchAt_first_match: "i < length s \<Longrightarrow> matchAt s i = first_match matchers s i"
  by (simp add: matchAt_def dispatch_def scrubber.dispatch_is_first_match)

lemma matchAt_span [progress]: "i < length s \<Longrightarrow> matchAt s i = Some (e, k) \<Longrightarrow> i < e \<and> e \<le> length s"
  by (simp add: matchAt_first_match scrubber.first_match_span)

text \<open>The marker written for a match of \<open>n\<close> bytes; the counts map is an association list.\<close>

definition marker :: "string \<Rightarrow> nat \<Rightarrow> string" where
  "marker kind n = ''[redacted:'' @ kind @ '':'' @ itoa (int n) @ '']''"

definition count_of :: "(string \<times> int) list \<Rightarrow> string \<Rightarrow> int" where
  "count_of m k = (case map_of m k of None \<Rightarrow> 0 | Some n \<Rightarrow> n)"

definition count_add :: "string \<Rightarrow> int \<Rightarrow> (string \<times> int) list \<Rightarrow> (string \<times> int) list" where
  "count_add k n m = AList.update k (count_of m k + n) m"

function scrub_loop :: "string \<Rightarrow> nat \<Rightarrow> string \<Rightarrow> (string \<times> int) list \<Rightarrow> string \<times> (string \<times> int) list" where
  "scrub_loop s i b counts =
     (if i < length s then
        (case matchAt s i of
           Some (e, kind) \<Rightarrow> scrub_loop s e (b @ marker kind (e - i)) (count_add kind 1 counts)
         | None \<Rightarrow> scrub_loop s (i + 1) (b @ [s ! i]) counts)
      else (b, counts))"
  by pat_completeness auto
termination
  by (relation "measure (\<lambda>(s, i, b, counts). length s - i)") (auto dest: matchAt_span)

declare scrub_loop.simps [simp del]

record scrub_result =
  Cleaned :: string
  Counts :: "(string \<times> int) list"

definition Scrub :: "string \<Rightarrow> scrub_result" where
  "Scrub s = (case scrub_loop s 0 [] [] of (b, counts) \<Rightarrow> \<lparr>Cleaned = b, Counts = counts\<rparr>)"

section \<open>What the scrubber promises\<close>

text \<open>
  The abstract view of a scrubbed line: a sequence of kept bytes and redacted spans that tile the
  line from left to right.
\<close>

datatype seg = Keep nat | Redact nat nat string

function segs :: "string \<Rightarrow> nat \<Rightarrow> seg list" where
  "segs s i =
     (if i < length s then
        (case matchAt s i of
           Some (e, kind) \<Rightarrow> Redact i e kind # segs s e
         | None \<Rightarrow> Keep i # segs s (i + 1))
      else [])"
  by pat_completeness auto
termination
  by (relation "measure (\<lambda>(s, i). length s - i)") (auto dest: matchAt_span)

declare segs.simps [simp del]

fun render_seg :: "string \<Rightarrow> seg \<Rightarrow> string" where
  "render_seg s (Keep i) = [s ! i]"
| "render_seg s (Redact i e kind) = marker kind (e - i)"

fun raw_seg :: "string \<Rightarrow> seg \<Rightarrow> string" where
  "raw_seg s (Keep i) = [s ! i]"
| "raw_seg s (Redact i e kind) = substr s i e"

fun seg_ok :: "string \<Rightarrow> seg \<Rightarrow> bool" where
  "seg_ok s (Keep i) \<longleftrightarrow> i < length s \<and> matchAt s i = None"
| "seg_ok s (Redact i e kind) \<longleftrightarrow> i < e \<and> e \<le> length s \<and> matchAt s i = Some (e, kind)"

definition redactions :: "string \<Rightarrow> seg list \<Rightarrow> nat" where
  "redactions kind gs = length (filter (\<lambda>g. case g of Redact _ _ k \<Rightarrow> k = kind | Keep _ \<Rightarrow> False) gs)"

lemma segs_end [simp]: "\<not> i < length s \<Longrightarrow> segs s i = []"
  by (simp add: segs.simps [of s i])

lemma segs_keep: "i < length s \<Longrightarrow> matchAt s i = None \<Longrightarrow> segs s i = Keep i # segs s (i + 1)"
  by (simp add: segs.simps [of s i])

lemma segs_redact:
  "i < length s \<Longrightarrow> matchAt s i = Some (e, kind) \<Longrightarrow> segs s i = Redact i e kind # segs s e"
  by (simp add: segs.simps [of s i])

text \<open>Induction along the loop: the end of the line, a kept byte, a redacted span.\<close>

lemma scan_induct [case_names fin keep redact]:
  assumes "\<And>i. \<not> i < length s \<Longrightarrow> P i"
    and "\<And>i. i < length s \<Longrightarrow> matchAt s i = None \<Longrightarrow> P (i + 1) \<Longrightarrow> P i"
    and "\<And>i e kind. i < length s \<Longrightarrow> matchAt s i = Some (e, kind) \<Longrightarrow> i < e \<Longrightarrow> e \<le> length s
      \<Longrightarrow> P e \<Longrightarrow> P i"
  shows "P i"
proof (induction "length s - i" arbitrary: i rule: less_induct)
  case less
  show ?case
  proof (cases "i < length s")
    case lt: True
    show ?thesis
    proof (cases "matchAt s i")
      case None
      with lt less assms(2) show ?thesis by simp
    next
      case (Some p)
      then obtain e kind where p: "matchAt s i = Some (e, kind)" by (cases p) auto
      with matchAt_span [OF lt p] lt less assms(3) [OF lt p] show ?thesis by auto
    qed
  qed (rule assms(1))
qed

lemma count_of_add: "count_of (count_add k n m) k' = count_of m k' + (if k' = k then n else 0)"
  by (simp add: count_of_def count_add_def update_conv)

lemma scrub_loop_segs:
  "fst (scrub_loop s i b counts) = b @ concat (map (render_seg s) (segs s i)) \<and>
   count_of (snd (scrub_loop s i b counts)) kind =
     count_of counts kind + int (redactions kind (segs s i))"
proof (induction i arbitrary: b counts rule: scan_induct [of s])
  case (fin i)
  then show ?case by (simp add: scrub_loop.simps [of s i] redactions_def)
next
  case (keep i)
  then show ?case
    by (simp add: scrub_loop.simps [of s i] segs_keep redactions_def)
next
  case (redact i e k)
  then show ?case
    by (simp add: scrub_loop.simps [of s i] segs_redact redactions_def count_of_add)
qed

lemma Scrub_Cleaned: "Cleaned (Scrub s) = concat (map (render_seg s) (segs s 0))"
  using scrub_loop_segs [of s 0 "[]" "[]" "[]"] by (auto simp: Scrub_def split: prod.split)

lemma Scrub_Counts: "count_of (Counts (Scrub s)) kind = int (redactions kind (segs s 0))"
  using scrub_loop_segs [of s 0 "[]" "[]" kind] by (auto simp: Scrub_def count_of_def split: prod.split)

lemma segs_ok: "g \<in> set (segs s i) \<Longrightarrow> seg_ok s g"
proof (induction i rule: scan_induct [of s])
  case (fin i)
  then show ?case by simp
next
  case (keep i)
  then show ?case by (auto simp: segs_keep)
next
  case (redact i e kind)
  then show ?case by (auto simp: segs_redact)
qed

lemma segs_raw: "concat (map (raw_seg s) (segs s i)) = drop i s"
proof (induction i rule: scan_induct [of s])
  case (fin i)
  then show ?case by simp
next
  case (keep i)
  then show ?case by (simp add: segs_keep Cons_nth_drop_Suc)
next
  case (redact i e kind)
  have "substr s i e @ drop e s = drop i s"
    using redact(3) unfolding substr_def
    by (metis append_take_drop_id drop_drop le_add_diff_inverse2 less_imp_le)
  with redact show ?case by (simp add: segs_redact)
qed

lemma segs_cover:
  "i \<le> j \<Longrightarrow> j < length s \<Longrightarrow> matchAt s j \<noteq> None \<Longrightarrow>
     \<exists>a e kind. Redact a e kind \<in> set (segs s i) \<and> a \<le> j \<and> j < e"
proof (induction i rule: scan_induct [of s])
  case (fin i)
  then show ?case by simp
next
  case (keep i)
  then have "i \<noteq> j" by auto
  with keep have "\<exists>a e kind. Redact a e kind \<in> set (segs s (i + 1)) \<and> a \<le> j \<and> j < e" by simp
  with keep show ?case by (auto simp: segs_keep)
next
  case (redact i e kind)
  show ?case
  proof (cases "j < e")
    case True
    with redact show ?thesis by (auto simp: segs_redact)
  next
    case False
    with redact have "\<exists>a e' kind. Redact a e' kind \<in> set (segs s e) \<and> a \<le> j \<and> j < e'" by simp
    moreover have "set (segs s e) \<subseteq> set (segs s i)" using redact by (auto simp: segs_redact)
    ultimately show ?thesis by blast
  qed
qed

subsection \<open>No prefixed token survives\<close>

text \<open>
  A run of token bytes of the output that starts like the line continues like the line: markers
  begin with a bracket, which is no token byte.
\<close>

lemma not_token_bracket: "\<not> isTokenByte CHR ''[''" "\<not> isTokenByte CHR '']''"
  by (simp_all add: isTokenByte_def is_lower_def is_upper_def is_digit_def between_def)

abbreviation out_from :: "string \<Rightarrow> nat \<Rightarrow> string" where
  "out_from s i \<equiv> concat (map (render_seg s) (segs s i))"

lemma marker_split: "\<exists>m. marker kind n = CHR ''['' # m @ '']''"
  by (simp add: marker_def)

lemma marker_Cons: "\<exists>m. marker kind n = CHR ''['' # m"
  by (simp add: marker_def)

lemma token_run_copied:
  "out_from s i = w @ v \<Longrightarrow> list_all isTokenByte w \<Longrightarrow> take (length w) (drop i s) = w"
proof (induction w arbitrary: i)
  case Nil
  then show ?case by simp
next
  case (Cons c w)
  have lt: "i < length s" using Cons.prems(1) by (cases "i < length s") auto
  show ?case
  proof (cases "matchAt s i")
    case None
    with lt Cons.prems have "c = s ! i" "out_from s (i + 1) = w @ v"
      by (simp_all add: segs_keep)
    moreover from this(2) Cons have "take (length w) (drop (i + 1) s) = w" by simp
    ultimately show ?thesis
      using lt by (metis Cons_nth_drop_Suc Suc_eq_plus1 length_Cons take_Suc_Cons)
  next
    case (Some p)
    then obtain e kind where "matchAt s i = Some (e, kind)" by (cases p) auto
    with lt Cons.prems have "marker kind (e - i) @ out_from s e = c # w @ v"
      by (simp add: segs_redact)
    with marker_Cons [of kind "e - i"] have "c = CHR ''[''" by auto
    with Cons.prems(2) not_token_bracket show ?thesis by simp
  qed
qed

lemma infix_of_prefix_or_rest:
  assumes "m @ [x] @ r = u @ w @ v" and "x \<notin> set w"
  shows "set w \<subseteq> set m \<or> (\<exists>u'. r = u' @ w @ v)"
proof -
  have inside: "set w \<subseteq> set m'" if eq: "m' @ x # r = w @ v" for m'
  proof -
    from eq obtain us where "m' = w @ us \<or> (w = m' @ us \<and> x # r = us @ v)"
      by (auto simp: append_eq_append_conv2)
    with assms(2) show ?thesis by (cases us) auto
  qed
  from assms(1) obtain us
    where "m = u @ us \<and> us @ x # r = w @ v \<or> u = m @ us \<and> x # r = us @ w @ v"
    by (auto simp: append_eq_append_conv2)
  then consider "m = u @ us" "us @ x # r = w @ v" | "us = []" "x # r = w @ v"
    | us' where "r = us' @ w @ v"
    by (cases us) auto
  then show ?thesis
  proof cases
    case 1
    with inside [of us] show ?thesis by auto
  next
    case 2
    with inside [of "[]"] show ?thesis by auto
  qed auto
qed

definition marker_byte :: "char \<Rightarrow> bool" where
  "marker_byte c \<longleftrightarrow> is_lower c \<or> is_digit c \<or> c = CHR ''['' \<or> c = CHR '']'' \<or> c = CHR '':'' \<or> c = CHR ''-''"

lemma marker_bytes: "list_all marker_byte kind \<Longrightarrow> list_all marker_byte (marker kind n)"
  using itoa_chars [of "int n"]
  by (auto simp: marker_def list_all_iff marker_byte_def is_lower_def between_def)

lemma matchAt_kind:
  assumes "i < length s" and "matchAt s i = Some (e, kind)"
  shows "list_all marker_byte kind"
proof -
  from assms have "first_match matchers s i = Some (e, kind)" by (simp add: matchAt_first_match)
  from scrubber.first_match_from [OF order_refl this] have "kind \<in> m_name ` set matchers" by auto
  then show ?thesis
    by (auto simp: matchers_def marker_byte_def is_lower_def between_def)
qed

lemma infix_copied:
  assumes "list_all isTokenByte w" and "c \<in> set w" and "\<not> marker_byte c"
  shows "out_from s i = u @ w @ v \<Longrightarrow>
    \<exists>j < length s. matchAt s j = None \<and> take (length w) (drop j s) = w"
proof (induction i arbitrary: u rule: scan_induct [of s])
  case (fin i)
  with assms(2) show ?case by auto
next
  case (keep i)
  show ?case
  proof (cases u)
    case Nil
    with keep(4) have "out_from s i = w @ v" by simp
    from token_run_copied [OF this assms(1)] keep(1,2) show ?thesis by blast
  next
    case (Cons x u')
    with keep have "out_from s (i + 1) = u' @ w @ v" by (simp add: segs_keep)
    then show ?thesis by (rule keep(3))
  qed
next
  case (redact i e kind)
  obtain m where m: "marker kind (e - i) = m @ [CHR '']'']"
    using marker_split [of kind "e - i"] by auto
  from redact(6) redact(1,2) have eq: "m @ [CHR '']''] @ out_from s e = u @ w @ v"
    by (simp add: segs_redact m)
  have "CHR '']'' \<notin> set w" using assms(1) not_token_bracket by (auto simp: list_all_iff)
  moreover have "\<not> set w \<subseteq> set m"
  proof
    assume "set w \<subseteq> set m"
    with assms(2) have "c \<in> set (marker kind (e - i))" by (auto simp: m)
    with marker_bytes [OF matchAt_kind [OF redact(1,2)], of "e - i"] assms(3)
    show False by (auto simp: list_all_iff)
  qed
  ultimately obtain u' where "out_from s e = u' @ w @ v"
    using infix_of_prefix_or_rest [OF eq] by blast
  then show ?case by (rule redact(5))
qed

lemma prefixToken_fires:
  assumes "take (length (p @ t)) (drop j s) = p @ t" and "p \<noteq> []"
    and "list_all isTokenByte t" and "n \<le> length t"
  shows "prefixTokenFn p n s j \<noteq> None"
proof -
  obtain r where d: "drop j s = (p @ t) @ r" using assms(1) by (metis append_take_drop_id)
  then have pre: "has_prefix (drop j s) p" by (simp add: has_prefix_def)
  from has_prefix_drop_bound [OF this assms(2)] have b: "j + length p \<le> length s" .
  have "drop (j + length p) s = t @ r" using d by (metis add.commute append_assoc append_eq_conv_conj drop_drop)
  then have "length t \<le> length (takeWhile isTokenByte (drop (j + length p) s))"
    using assms(3) by (simp add: takeWhile_append2 list_all_iff)
  with assms(4) have "n \<le> scan isTokenByte s (j + length p) - j - length p"
    by (simp add: scan_takeWhile [OF b])
  with pre show ?thesis by (simp add: prefixTokenFn_def Let_def)
qed

lemma token_prefix_redacted:
  assumes entry: "m \<in> set matchers" "m_fn m = prefixTokenFn p n"
    and p: "p \<noteq> []" "list_all isTokenByte p" "c \<in> set p" "\<not> marker_byte c"
    and t: "list_all isTokenByte t" "n \<le> length t"
  shows "Cleaned (Scrub s) \<noteq> u @ (p @ t) @ v"
proof
  assume "Cleaned (Scrub s) = u @ (p @ t) @ v"
  then have "out_from s 0 = u @ (p @ t) @ v" by (simp add: Scrub_Cleaned)
  from infix_copied [OF _ _ p(4) this] p t obtain j
    where j: "j < length s" "matchAt s j = None" "take (length (p @ t)) (drop j s) = p @ t"
    by auto
  from prefixToken_fires [OF j(3) p(1) t] entry have "m_fn m s j \<noteq> None" by simp
  from scrubber.first_match_complete [OF entry(1) this] j(1,2) show False
    by (simp add: matchAt_first_match)
qed

subsection \<open>The Luhn checksum\<close>

lemma luhn_sum_append:
  "luhn_sum alt (xs @ ys) = luhn_sum alt xs + luhn_sum (alt \<noteq> odd (length xs)) ys"
proof (induction xs arbitrary: alt)
  case (Cons x xs)
  then show ?case by (cases alt; cases "even (length xs)") (simp_all add: Let_def)
qed simp

lemma luhn_double_bound: "d \<le> 9 \<Longrightarrow> luhn_double d \<le> 9"
  by (auto simp: luhn_double_def)

lemma luhn_double_inj: "d \<le> 9 \<Longrightarrow> d' \<le> 9 \<Longrightarrow> luhn_double d = luhn_double d' \<Longrightarrow> d = d'"
  unfolding luhn_double_def by (simp split: if_splits; presburger)

lemma small_mod_eq: "(x + a) mod 10 = (x + b) mod 10 \<Longrightarrow> a \<le> 9 \<Longrightarrow> b \<le> 9 \<Longrightarrow> a = (b::nat)"
proof (induction a b rule: linorder_wlog)
  case (le a b)
  then have "10 dvd (x + b) - (x + a)"
    using mod_eq_dvd_iff_nat [of "x + a" "x + b" 10] by simp
  with le show ?case by (auto dest!: dvd_imp_le)
qed (simp add: eq_commute)

lemma luhn_weight_differs:
  assumes "is_digit a" and "is_digit b" and "a \<noteq> b"
    and "(x + luhn_sum alt [a]) mod 10 = (x + luhn_sum alt [b]) mod 10"
  shows False
proof -
  from assms(1,2) have d: "byte a - 48 \<le> 9" "byte b - 48 \<le> 9" "48 \<le> byte a" "48 \<le> byte b"
    by (auto simp: is_digit_byte)
  have "luhn_sum alt [c] \<le> 9" if "byte c - 48 \<le> 9" for c
    using that luhn_double_bound by (simp add: Let_def)
  with small_mod_eq [OF assms(4)] d have "luhn_sum alt [a] = luhn_sum alt [b]" by blast
  with d luhn_double_inj have "byte a - 48 = byte b - 48"
    by (auto simp: Let_def split: if_splits)
  with d have "byte a = byte b" by linarith
  then have "a = b" by (simp only: of_char_eq_iff)
  with assms(3) show False by simp
qed

section \<open>Properties\<close>

text \<open>C28. Dispatch is sound: looking a position up in the 256-entry table that \<^verbatim>\<open>init\<close> builds gives
  exactly the first matcher of the whole table that fires there, so the table never hides a match
  and never reorders two of them.\<close>

theorem dispatch_equals_linear_search:
  assumes "i < length s"
  shows "matchAt s i = first_match matchers s i"
  using assms by (rule matchAt_first_match)

theorem dispatch_equals_linear_search_witness:
  "matchAt ''AKIA0123456789ABCDEF'' 0 = first_match matchers ''AKIA0123456789ABCDEF'' 0"
  by (rule dispatch_equals_linear_search) simp

text \<open>The scrubber's output, branch by branch: the line is tiled by kept bytes, none of which starts
  a match, and by redacted spans, each of which is the span the matcher found; the tiles spell the
  line, \<open>Cleaned\<close> is the same tiles with every span replaced by its marker, and \<open>Counts\<close> is the
  number of spans of each kind.\<close>

theorem Scrub_functional:
  "concat (map (raw_seg s) (segs s 0)) = s \<and> list_all (seg_ok s) (segs s 0) \<and>
   Cleaned (Scrub s) = concat (map (render_seg s) (segs s 0)) \<and>
   count_of (Counts (Scrub s)) kind = int (redactions kind (segs s 0))"
  using segs_raw [of s 0] segs_ok by (simp add: list_all_iff Scrub_Cleaned Scrub_Counts)

text \<open>Completeness: every position of the line where any matcher of the table fires lies inside a
  span that the scrubber replaced; an earlier match can swallow a later one but never skip it.\<close>

theorem Scrub_covers_every_match:
  assumes "j < length s" and "m \<in> set matchers" and "m_fn m s j \<noteq> None"
  shows "\<exists>a e kind. Redact a e kind \<in> set (segs s 0) \<and> a \<le> j \<and> j < e"
proof -
  from scrubber.first_match_complete [OF assms(2,3)] assms(1) have "matchAt s j \<noteq> None"
    by (simp add: matchAt_first_match)
  with assms(1) segs_cover [of 0 j s] show ?thesis by simp
qed

theorem Scrub_covers_every_match_witness:
  "\<exists>a e kind. Redact a e kind \<in> set (segs ''k=AKIA0123456789ABCDEF'' 0) \<and> a \<le> 2 \<and> 2 < e"
  by (rule Scrub_covers_every_match
      [where m = "\<lparr>m_name = ''aws'', m_fn = prefixTokenFn ''AKIA'' 16, m_starts = (\<lambda>c. c = CHR ''A'')\<rparr>"])
    (simp, simp add: matchers_def, code_simp)

text \<open>C4. No prefixed credential reaches storage: the cleaned text contains no Stripe live key
  (\<open>sk_live_\<close> and 16 token bytes), no AWS access key id (\<open>AKIA\<close> and 16) and no Google API key
  (\<open>AIza\<close> and 32), whatever surrounds it in the line.\<close>

theorem Scrub_no_prefixed_credential:
  assumes "list_all isTokenByte t"
    and "(p, n) \<in> {(''sk_live_'', 16), (''AKIA'', 16), (''AIza'', 32)}" and "n \<le> length t"
  shows "Cleaned (Scrub s) \<noteq> u @ p @ t @ v"
proof -
  have *: "Cleaned (Scrub s) \<noteq> u @ (p @ t) @ v"
    if "m \<in> set matchers" "m_fn m = prefixTokenFn p n" "p \<noteq> []" "list_all isTokenByte p"
      "c \<in> set p" "\<not> marker_byte c" for m c
    using token_prefix_redacted [OF that assms(1,3)] .
  from assms(2) consider "p = ''sk_live_''" "n = 16" | "p = ''AKIA''" "n = 16" | "p = ''AIza''" "n = 32"
    by auto
  then show ?thesis
  proof cases
    case 1
    with * [of "matchers ! 2" "CHR ''_''"] show ?thesis
      by (simp add: matchers_def isTokenByte_def marker_byte_def is_lower_def is_digit_def between_def)
  next
    case 2
    with * [of "matchers ! 5" "CHR ''K''"] show ?thesis
      by (simp add: matchers_def isTokenByte_def marker_byte_def is_lower_def is_upper_def is_digit_def between_def)
  next
    case 3
    with * [of "matchers ! 6" "CHR ''A''"] show ?thesis
      by (simp add: matchers_def isTokenByte_def marker_byte_def is_lower_def is_upper_def is_digit_def between_def)
  qed
qed

theorem Scrub_no_prefixed_credential_witness:
  "Cleaned (Scrub ''key sk_live_0123456789abcdef.'') \<noteq> ''key '' @ ''sk_live_'' @ ''0123456789abcdef'' @ ''.''"
  by (rule Scrub_no_prefixed_credential [where n = 16])
    (simp_all add: isTokenByte_def is_lower_def is_upper_def is_digit_def between_def)

text \<open>The card matcher's checksum does what Luhn is for: replacing any single digit of a number that
  passes by a different digit gives a number that fails, at every position and every length.\<close>

theorem luhn_detects_single_error:
  assumes "luhn (xs @ a # ys)" and "is_digit a" and "is_digit b" and "a \<noteq> b"
  shows "\<not> luhn (xs @ b # ys)"
proof
  assume l: "luhn (xs @ b # ys)"
  define alt where "alt = odd (length ys)"
  define x where "x = luhn_sum False (rev ys) + luhn_sum (\<not> alt) (rev xs)"
  have sum: "luhn_sum False (rev (xs @ c # ys)) = x + luhn_sum alt [c]" for c
    by (simp add: luhn_sum_append x_def alt_def Let_def)
  from assms(1) l have "(x + luhn_sum alt [a]) mod 10 = (x + luhn_sum alt [b]) mod 10"
    unfolding luhn_def sum by simp
  from luhn_weight_differs [OF assms(2-4) this] show False .
qed

theorem luhn_detects_single_error_witness: "\<not> luhn (''41111'' @ CHR ''2'' # ''1111111111'')"
proof -
  have "luhn (''41111'' @ CHR ''1'' # ''1111111111'')"
    by (simp add: luhn_def luhn_double_def)
  then show ?thesis
    by (rule luhn_detects_single_error) (simp_all add: is_digit_byte)
qed

end
