(* ===== verification/GoTime.thy ===== *)
theory GoTime
  imports Prelude
begin

text \<open>
  Go's \<^verbatim>\<open>time\<close> package as the program uses it. A \<open>time\<close> is the number of nanoseconds since Go's
  zero time (1 January of year 1, UTC), so \<^verbatim>\<open>time.Time{}\<close> is \<open>0\<close> and \<^verbatim>\<open>IsZero\<close> is equality with it. A
  \<open>duration\<close> is a signed 64-bit count of nanoseconds: \<^verbatim>\<open>Sub\<close> saturates at its bounds, 64-bit
  arithmetic wraps (\<open>wrap64\<close>).
\<close>

type_synonym time = int
type_synonym duration = int

definition zero_time :: time where "zero_time = 0"

definition IsZero :: "time \<Rightarrow> bool" where
  "IsZero t \<longleftrightarrow> t = zero_time"

definition nanosecond :: duration where "nanosecond = 1"
definition millisecond :: duration where "millisecond = 1000000"
definition second :: duration where "second = 1000000000"
definition minute :: duration where "minute = 60 * second"
definition hour :: duration where "hour = 60 * minute"

definition max_int64 :: int where "max_int64 = 2 ^ 63 - 1"
definition min_int64 :: int where "min_int64 = - (2 ^ 63)"

text \<open>The value of a 64-bit signed result: two's complement wrap-around.\<close>

definition wrap64 :: "int \<Rightarrow> int" where
  "wrap64 i = (i + 2 ^ 63) mod 2 ^ 64 - 2 ^ 63"

text \<open>\<^verbatim>\<open>t.Sub(u)\<close>, \<^verbatim>\<open>t.Add(d)\<close>, \<^verbatim>\<open>t.Truncate(d)\<close> (for a positive \<open>d\<close>) and \<^verbatim>\<open>t.After(u)\<close>.\<close>

definition Sub :: "time \<Rightarrow> time \<Rightarrow> duration" where
  "Sub t u = max min_int64 (min max_int64 (t - u))"

definition Add :: "time \<Rightarrow> duration \<Rightarrow> time" where
  "Add t d = t + d"

definition Truncate :: "time \<Rightarrow> duration \<Rightarrow> time" where
  "Truncate t d = t - t mod d"

text \<open>\<^verbatim>\<open>time.Unix(sec, nsec)\<close>: the Unix epoch lies 62135596800 seconds after the zero time.\<close>

definition unix_epoch :: time where
  "unix_epoch = 62135596800 * second"

definition Unix :: "int \<Rightarrow> int \<Rightarrow> time" where
  "Unix sec nsec = unix_epoch + sec * second + nsec"

definition UnixSeconds :: "time \<Rightarrow> int" where
  "UnixSeconds t = (t - unix_epoch) div second"

lemmas duration_defs = nanosecond_def millisecond_def second_def minute_def hour_def

lemmas time_defs = duration_defs zero_time_def IsZero_def max_int64_def min_int64_def
  Sub_def Add_def Truncate_def

lemma wrap64_id: "min_int64 \<le> i \<Longrightarrow> i \<le> max_int64 \<Longrightarrow> wrap64 i = i"
  by (simp add: wrap64_def min_int64_def max_int64_def)

lemma wrap64_range [bounds]: "min_int64 \<le> wrap64 i \<and> wrap64 i \<le> max_int64"
  by (simp add: wrap64_def min_int64_def max_int64_def)

lemma Sub_le_iff: "min_int64 \<le> d \<Longrightarrow> d < max_int64 \<Longrightarrow> Sub t u \<le> d \<longleftrightarrow> t - u \<le> d"
  by (auto simp: Sub_def max_def min_def)

lemma Sub_ge_iff: "min_int64 < d \<Longrightarrow> d \<le> max_int64 \<Longrightarrow> d \<le> Sub t u \<longleftrightarrow> d \<le> t - u"
  by (auto simp: Sub_def max_def min_def)

lemma Sub_exact: "min_int64 \<le> t - u \<Longrightarrow> t - u \<le> max_int64 \<Longrightarrow> Sub t u = t - u"
  by (simp add: Sub_def)

lemma Truncate_le: "0 < d \<Longrightarrow> Truncate t d \<le> t \<and> t < Truncate t d + d"
  using pos_mod_bound [of d t] by (simp add: Truncate_def)

lemma Truncate_idem [simp]: "Truncate (Truncate t d) d = Truncate t d"
  by (simp add: Truncate_def minus_mod_eq_mult_div)

section \<open>Formatting\<close>

text \<open>
  \<^verbatim>\<open>t.UTC().Format("15:04")\<close> and \<^verbatim>\<open>Format("2 Jan 2006, 15:04")\<close>. Day 0 is 1 January of year 1; the
  civil date is found in the 400-year cycle that starts on 1 March of year 0, 306 days earlier.
\<close>

definition two_digits :: "int \<Rightarrow> string" where
  "two_digits n = (if n < 10 then ''0'' @ itoa n else itoa n)"

definition fmt_clock :: "time \<Rightarrow> string" where
  "fmt_clock t = two_digits (t div hour mod 24) @ '':'' @ two_digits (t div minute mod 60)"

definition civil :: "int \<Rightarrow> int \<times> int \<times> int" where
  "civil day =
     (let z = day + 306;
          era = z div 146097;
          doe = z mod 146097;
          yoe = (doe - doe div 1460 + doe div 36524 - doe div 146096) div 365;
          doy = doe - (365 * yoe + yoe div 4 - yoe div 100);
          mp = (5 * doy + 2) div 153;
          d = doy - (153 * mp + 2) div 5 + 1;
          m = (if mp < 10 then mp + 3 else mp - 9);
          y = yoe + era * 400 + (if m \<le> 2 then 1 else 0)
      in (y, m, d))"

definition month_names :: "string list" where
  "month_names = [''Jan'', ''Feb'', ''Mar'', ''Apr'', ''May'', ''Jun'', ''Jul'', ''Aug'', ''Sep'', ''Oct'',
     ''Nov'', ''Dec'']"

definition fmt_stamp :: "time \<Rightarrow> string" where
  "fmt_stamp t =
     (case civil (t div (24 * hour)) of (y, m, d) \<Rightarrow>
        itoa d @ '' '' @ month_names ! nat (m - 1) @ '' '' @ itoa y @ '', '' @ fmt_clock t)"

text \<open>Known dates: the zero time, the Unix epoch, a leap day.\<close>

lemma civil_examples:
  "civil 0 = (1, 1, 1)" "civil (62135596800 div 86400) = (1970, 1, 1)" "civil 738944 = (2024, 2, 29)"
  by code_simp+

end
