(* ===== verification/Availability.thy ===== *)
theory Availability
  imports GoTime
begin

text \<open>
  The availability detector, \<^verbatim>\<open>back/internal/detect/availability/availability.go\<close>: the per-target
  state machine that turns check outcomes into incident transitions, and its specification over the
  history of outcomes. The interface the incident side relies on is the locale \<open>transition_system\<close>.
\<close>

section \<open>The detector\<close>

abbreviation StatusNoData :: string where "StatusNoData \<equiv> ''nodata''"
abbreviation StatusOK :: string where "StatusOK \<equiv> ''ok''"
abbreviation StatusCheck :: string where "StatusCheck \<equiv> ''check''"
abbreviation StatusDown :: string where "StatusDown \<equiv> ''down''"
abbreviation StatusCouldNotMeasure :: string where
  "StatusCouldNotMeasure \<equiv> ''could_not_measure''"

definition DefaultThreshold :: int where "DefaultThreshold = 3"
definition unmeasuredThreshold :: int where "unmeasuredThreshold = 3"

definition Unmeasured :: "string \<Rightarrow> int \<Rightarrow> bool" where
  "Unmeasured errorClass statusCode \<longleftrightarrow>
     errorClass = ''challenge'' \<or>
     (errorClass = ''status'' \<and> (statusCode = 401 \<or> statusCode = 403 \<or> statusCode = 429))"

record avail_state =
  Status :: string
  ConsecutiveFailures :: int
  ConsecutiveUnmeasured :: int
  LastCheckAt :: time

datatype outcome = OutcomeOK | OutcomeFail | OutcomeUnmeasured

record transition =
  Open :: bool
  Close :: bool
  CloseReason :: string

definition no_transition :: transition where
  "no_transition = \<lparr>Open = False, Close = False, CloseReason = ''''\<rparr>"

record detector = threshold :: int

definition New_detector :: "int \<Rightarrow> detector" where
  "New_detector th = \<lparr>threshold = (if th \<le> 0 then DefaultThreshold else th)\<rparr>"

definition processOK :: "detector \<Rightarrow> avail_state \<Rightarrow> avail_state \<times> transition" where
  "processOK d s =
     (let wasDown = (Status s = StatusDown);
          s = s\<lparr>ConsecutiveFailures := 0, ConsecutiveUnmeasured := 0\<rparr>
      in if wasDown then
           (s\<lparr>Status := StatusOK\<rparr>, \<lparr>Open = False, Close = True, CloseReason = ''recovered''\<rparr>)
         else (s\<lparr>Status := StatusOK\<rparr>, no_transition))"

definition processFail :: "detector \<Rightarrow> avail_state \<Rightarrow> avail_state \<times> transition" where
  "processFail d s =
     (let s = s\<lparr>ConsecutiveFailures := ConsecutiveFailures s + 1, ConsecutiveUnmeasured := 0\<rparr>
      in if Status s = StatusDown then (s, no_transition)
         else if ConsecutiveFailures s \<ge> threshold d then
           (s\<lparr>Status := StatusDown\<rparr>, \<lparr>Open = True, Close = False, CloseReason = ''''\<rparr>)
         else (s\<lparr>Status := StatusCheck\<rparr>, no_transition))"

definition processUnmeasured :: "detector \<Rightarrow> avail_state \<Rightarrow> avail_state \<times> transition" where
  "processUnmeasured d s =
     (let s = s\<lparr>ConsecutiveUnmeasured := ConsecutiveUnmeasured s + 1\<rparr>
      in if ConsecutiveUnmeasured s \<ge> unmeasuredThreshold \<and> Status s \<noteq> StatusDown then
           (s\<lparr>Status := StatusCouldNotMeasure\<rparr>, no_transition)
         else (s, no_transition))"

definition Process :: "detector \<Rightarrow> avail_state \<Rightarrow> outcome \<Rightarrow> time \<Rightarrow> avail_state \<times> transition" where
  "Process d s oc at =
     (let s = s\<lparr>LastCheckAt := at\<rparr>
      in case oc of
           OutcomeOK \<Rightarrow> processOK d s
         | OutcomeFail \<Rightarrow> processFail d s
         | OutcomeUnmeasured \<Rightarrow> processUnmeasured d s)"

text \<open>A run over timed outcomes: the final state and the transitions in order.\<close>

fun process_all :: "detector \<Rightarrow> avail_state \<Rightarrow> (outcome \<times> time) list \<Rightarrow> avail_state \<times> transition list" where
  "process_all d s [] = (s, [])"
| "process_all d s ((oc, at) # rest) =
     (case Process d s oc at of (s', t) \<Rightarrow>
       (case process_all d s' rest of (s'', ts) \<Rightarrow> (s'', t # ts)))"

definition fresh_state :: avail_state where
  "fresh_state = \<lparr>Status = StatusNoData, ConsecutiveFailures = 0, ConsecutiveUnmeasured = 0,
     LastCheckAt = zero_time\<rparr>"

lemmas process_defs = Process_def processOK_def processFail_def processUnmeasured_def
  no_transition_def Let_def

section \<open>The invariant\<close>

definition avail_inv :: "detector \<Rightarrow> avail_state \<Rightarrow> bool" where
  "avail_inv d s \<longleftrightarrow>
     0 \<le> ConsecutiveFailures s \<and> 0 \<le> ConsecutiveUnmeasured s \<and>
     (Status s = StatusDown \<longleftrightarrow> threshold d \<le> ConsecutiveFailures s) \<and>
     (Status s = StatusCouldNotMeasure \<longleftrightarrow>
        unmeasuredThreshold \<le> ConsecutiveUnmeasured s \<and> ConsecutiveFailures s < threshold d) \<and>
     (Status s = StatusOK \<longrightarrow> ConsecutiveFailures s = 0) \<and>
     (Status s = StatusCheck \<longrightarrow> 0 < ConsecutiveFailures s) \<and>
     (Status s = StatusNoData \<longrightarrow> ConsecutiveFailures s = 0) \<and>
     Status s \<in> {StatusNoData, StatusOK, StatusCheck, StatusDown, StatusCouldNotMeasure}"

lemma threshold_pos [simp]: "0 < threshold (New_detector th)"
  by (simp add: New_detector_def DefaultThreshold_def)

lemma avail_inv_fresh [inv_intros]: "0 < threshold d \<Longrightarrow> avail_inv d fresh_state"
  by (simp add: avail_inv_def fresh_state_def unmeasuredThreshold_def)

lemma Process_inv [inv_intros]:
  "0 < threshold d \<Longrightarrow> avail_inv d s \<Longrightarrow> avail_inv d (fst (Process d s oc at))"
  by (cases oc) (auto simp: avail_inv_def process_defs unmeasuredThreshold_def)

lemma process_all_inv [inv_intros]:
  "0 < threshold d \<Longrightarrow> avail_inv d s \<Longrightarrow> avail_inv d (fst (process_all d s h))"
proof (induction h arbitrary: s)
  case (Cons x h)
  obtain oc at where x: "x = (oc, at)" by (cases x)
  obtain s' t where p: "Process d s oc at = (s', t)" by (cases "Process d s oc at")
  from Process_inv [OF Cons.prems, of oc at] p have "avail_inv d s'" by simp
  with Cons.IH [of s'] Cons.prems(1) show ?case by (auto simp: x p split: prod.split)
qed simp

section \<open>The specification over the history\<close>

text \<open>
  Read a history newest first: \<open>fails\<close> counts the failures since the last success, reading through
  unmeasured results; \<open>blind\<close> counts the unmeasured results at the very end.
\<close>

fun fails :: "outcome list \<Rightarrow> int" where
  "fails [] = 0"
| "fails (OutcomeOK # h) = 0"
| "fails (OutcomeFail # h) = 1 + fails h"
| "fails (OutcomeUnmeasured # h) = fails h"

fun blind :: "outcome list \<Rightarrow> int" where
  "blind [] = 0"
| "blind (OutcomeUnmeasured # h) = 1 + blind h"
| "blind (oc # h) = 0"

definition measured :: "outcome list \<Rightarrow> outcome list" where
  "measured h = filter (\<lambda>oc. oc \<noteq> OutcomeUnmeasured) h"

definition spec_status :: "int \<Rightarrow> outcome list \<Rightarrow> string" where
  "spec_status th h =
     (if th \<le> fails h then StatusDown
      else if unmeasuredThreshold \<le> blind h then StatusCouldNotMeasure
      else if 0 < fails h then StatusCheck
      else if measured h \<noteq> [] then StatusOK
      else StatusNoData)"

lemma fails_nonneg [simp]: "0 \<le> fails h"
  by (induction h rule: fails.induct) auto

lemma blind_nonneg [simp]: "0 \<le> blind h"
  by (induction h rule: blind.induct) auto

text \<open>The newest-first history of a run, and the state the specification assigns to it.\<close>

definition history :: "(outcome \<times> time) list \<Rightarrow> outcome list" where
  "history h = rev (map fst h)"

definition spec_state :: "detector \<Rightarrow> (outcome \<times> time) list \<Rightarrow> avail_state" where
  "spec_state d h =
     \<lparr>Status = spec_status (threshold d) (history h),
      ConsecutiveFailures = fails (history h),
      ConsecutiveUnmeasured = blind (history h),
      LastCheckAt = (if h = [] then zero_time else snd (last h))\<rparr>"

lemma process_all_snoc:
  "process_all d s (h @ [(oc, at)]) =
     (let (s', ts) = process_all d s h; (s'', t) = Process d s' oc at in (s'', ts @ [t]))"
  by (induction h arbitrary: s) (auto split: prod.splits)

lemma history_snoc [simp]: "history (h @ [(oc, at)]) = oc # history h"
  by (simp add: history_def)

lemma history_Nil [simp]: "history [] = []"
  by (simp add: history_def)

lemma Process_spec:
  assumes "0 < threshold d"
  shows "fst (Process d (spec_state d h) oc at) = spec_state d (h @ [(oc, at)])"
proof (cases oc)
  case OutcomeOK
  with assms show ?thesis
    by (simp add: process_defs spec_state_def spec_status_def measured_def unmeasuredThreshold_def)
next
  case OutcomeFail
  have "0 < 1 + fails (history h)" using fails_nonneg [of "history h"] by linarith
  with OutcomeFail assms show ?thesis
    by (auto simp: process_defs spec_state_def spec_status_def measured_def unmeasuredThreshold_def)
next
  case OutcomeUnmeasured
  with assms show ?thesis
    by (auto simp: process_defs spec_state_def spec_status_def measured_def unmeasuredThreshold_def)
qed

lemma process_all_spec:
  assumes "0 < threshold d"
  shows "fst (process_all d fresh_state h) = spec_state d h"
proof (induction h rule: rev_induct)
  case Nil
  from assms show ?case
    by (simp add: fresh_state_def spec_state_def spec_status_def measured_def unmeasuredThreshold_def)
next
  case (snoc x h)
  obtain oc at where x: "x = (oc, at)" by (cases x)
  from snoc Process_spec [OF assms, of h oc at] show ?case
    by (auto simp: x process_all_snoc Let_def split: prod.splits)
qed

section \<open>What the incident side relies on\<close>

text \<open>
  An opener that keeps at most one outage per target: it opens only while up, closes only while
  down, and otherwise leaves the verdict alone.
\<close>

locale transition_system =
  fixes step :: "'s \<Rightarrow> 'e \<Rightarrow> 's \<times> transition"
    and inv :: "'s \<Rightarrow> bool"
    and down :: "'s \<Rightarrow> bool"
  assumes step_inv: "inv s \<Longrightarrow> step s e = (s', t) \<Longrightarrow> inv s'"
    and opens: "inv s \<Longrightarrow> step s e = (s', t) \<Longrightarrow> Open t \<longleftrightarrow> \<not> down s \<and> down s'"
    and closes: "inv s \<Longrightarrow> step s e = (s', t) \<Longrightarrow> Close t \<longleftrightarrow> down s \<and> \<not> down s'"
begin

fun run :: "'s \<Rightarrow> 'e list \<Rightarrow> 's \<times> transition list" where
  "run s [] = (s, [])"
| "run s (e # es) = (case step s e of (s', t) \<Rightarrow> (case run s' es of (s'', ts) \<Rightarrow> (s'', t # ts)))"

lemma run_balance:
  "inv s \<Longrightarrow> run s es = (s', ts) \<Longrightarrow>
     int (length (filter Open ts)) + of_bool (down s) =
     int (length (filter Close ts)) + of_bool (down s')"
proof (induction es arbitrary: s s' ts)
  case Nil
  then show ?case by simp
next
  case (Cons e es)
  obtain s1 t where s1: "step s e = (s1, t)" by (cases "step s e")
  obtain s2 ts2 where s2: "run s1 es = (s2, ts2)" by (cases "run s1 es")
  from Cons.prems(2) s1 s2 have eq: "s' = s2" "ts = t # ts2" by auto
  from Cons.IH [OF step_inv [OF Cons.prems(1) s1] s2]
    opens [OF Cons.prems(1) s1] closes [OF Cons.prems(1) s1]
  show ?case unfolding eq by (cases "down s"; cases "down s1") auto
qed

lemma never_both: "inv s \<Longrightarrow> step s e = (s', t) \<Longrightarrow> \<not> (Open t \<and> Close t)"
  using opens closes by blast

end

lemma Process_opens:
  assumes "0 < threshold d" and "avail_inv d s" and "Process d s oc at = (s', t)"
  shows "Open t \<longleftrightarrow> Status s \<noteq> StatusDown \<and> Status s' = StatusDown"
  using assms by (cases oc) (auto simp: process_defs avail_inv_def split: if_splits)

lemma Process_closes:
  assumes "0 < threshold d" and "avail_inv d s" and "Process d s oc at = (s', t)"
  shows "Close t \<longleftrightarrow> Status s = StatusDown \<and> Status s' \<noteq> StatusDown"
  using assms by (cases oc) (auto simp: process_defs avail_inv_def split: if_splits)

text \<open>The detector built by \<^verbatim>\<open>New\<close>, for every threshold argument, is such an opener.\<close>

interpretation avail: transition_system
  "\<lambda>s (oc, at). Process (New_detector th) s oc at" "avail_inv (New_detector th)"
  "\<lambda>s. Status s = StatusDown" for th
proof
  fix s e s' t
  assume i: "avail_inv (New_detector th) s"
    and p: "(case e of (oc, at) \<Rightarrow> Process (New_detector th) s oc at) = (s', t)"
  obtain oc at where e: "e = (oc, at)" by (cases e)
  from p e have p': "Process (New_detector th) s oc at = (s', t)" by simp
  show "avail_inv (New_detector th) s'"
    using Process_inv [OF threshold_pos i, of oc at] p' by simp
  show "Open t \<longleftrightarrow> Status s \<noteq> StatusDown \<and> Status s' = StatusDown"
    by (rule Process_opens [OF threshold_pos i p'])
  show "Close t \<longleftrightarrow> Status s = StatusDown \<and> Status s' \<noteq> StatusDown"
    by (rule Process_closes [OF threshold_pos i p'])
qed

lemma process_all_run: "process_all (New_detector th) s h = avail.run th s h"
  by (induction h arbitrary: s) (auto split: prod.splits)

section \<open>Properties\<close>

text \<open>C14. The detector's state is a function of the outcome history: after any sequence of outcomes from
  a fresh target, whatever threshold it was built with, the status and both streaks are the ones
  the history specification assigns (down from the threshold-th failure since the last success,
  reading through unmeasured results; \<open>could_not_measure\<close> after three unmeasured results in a row
  on a target that is not down; never a guess in between).\<close>

theorem availability_refines_history:
  "fst (process_all (New_detector th) fresh_state h) = spec_state (New_detector th) h"
  by (rule process_all_spec) simp

text \<open>Outages are balanced: over any run from a fresh target the opens exceed the closes by one
  exactly when the target is down, and are equal otherwise; so every close ends an outage that was
  opened and no outage is opened twice.\<close>

theorem availability_opens_balance_closes:
  assumes "process_all (New_detector th) fresh_state h = (s, ts)"
  shows "int (length (filter Open ts)) = int (length (filter Close ts)) + of_bool (Status s = StatusDown)"
  using avail.run_balance [of th fresh_state h s ts] assms avail_inv_fresh [of "New_detector th"]
  by (simp add: process_all_run fresh_state_def)

theorem availability_opens_balance_closes_witness:
  "let (s, ts) = process_all (New_detector 0) fresh_state
      [(OutcomeFail, 1), (OutcomeFail, 2), (OutcomeUnmeasured, 3), (OutcomeFail, 4)]
   in int (length (filter Open ts)) = int (length (filter Close ts)) + of_bool (Status s = StatusDown)"
  by (cases "process_all (New_detector 0) fresh_state
      [(OutcomeFail, 1), (OutcomeFail, 2), (OutcomeUnmeasured, 3), (OutcomeFail, 4)]")
    (simp only: Let_def prod.case availability_opens_balance_closes)

end
