(* ===== verification/Suppression.thy ===== *)
theory Suppression
  imports GoTime
begin

text \<open>
  The four noise rules of \<^verbatim>\<open>back/internal/detect/suppression/suppression.go\<close> and the incident verdict
  of \<^verbatim>\<open>back/internal/incident/triage/triage.go\<close>.
\<close>

section \<open>Suppression\<close>

record SuppressionDecision =
  Suppress :: bool
  Reason :: string

definition allow_decision :: SuppressionDecision where
  "allow_decision = \<lparr>Suppress = False, Reason = ''''\<rparr>"

definition suppress_decision :: "string \<Rightarrow> SuppressionDecision" where
  "suppress_decision reason = \<lparr>Suppress = True, Reason = reason\<rparr>"

record suppression_input =
  in_Fingerprint :: int
  LastFireAt :: time
  HasOpenIncident :: bool
  InMaintenance :: bool
  LastDeployAt :: time
  in_Now :: time

definition CooldownPeriod :: duration where "CooldownPeriod = 30 * minute"
definition PostDeployWindow :: duration where "PostDeployWindow = 90 * second"

definition Evaluate :: "suppression_input \<Rightarrow> SuppressionDecision" where
  "Evaluate i =
     (if \<not> IsZero (LastDeployAt i) \<and> Sub (in_Now i) (LastDeployAt i) \<le> PostDeployWindow
      then suppress_decision ''post_deploy_blip''
      else if InMaintenance i then suppress_decision ''maintenance_window''
      else if HasOpenIncident i then suppress_decision ''duplicate_open_incident''
      else if \<not> IsZero (LastFireAt i) \<and> Sub (in_Now i) (LastFireAt i) \<le> CooldownPeriod
      then suppress_decision ''cooldown''
      else allow_decision)"

lemmas suppression_defs = Evaluate_def allow_decision_def suppress_decision_def
  CooldownPeriod_def PostDeployWindow_def

lemma window_bounds:
  "Sub t u \<le> PostDeployWindow \<longleftrightarrow> t - u \<le> 90000000000"
  "Sub t u \<le> CooldownPeriod \<longleftrightarrow> t - u \<le> 1800000000000"
  by (auto simp: PostDeployWindow_def CooldownPeriod_def duration_defs Sub_le_iff min_int64_def max_int64_def)

section \<open>Triage\<close>

record fact = fact_Kind :: string fact_Detail :: string

record verdict =
  v_Title :: string
  v_Facts :: "fact list"
  v_Status :: string

definition errorLabel :: "string \<Rightarrow> int \<Rightarrow> string" where
  "errorLabel errorClass statusCode =
     (if errorClass = ''status'' then ''HTTP '' @ itoa statusCode
      else if errorClass = ''timeout'' then ''timed out''
      else if errorClass = ''connect'' then ''connection refused''
      else if errorClass = ''dns'' then ''DNS resolution failed''
      else if errorClass = ''keyword_missing'' then ''keyword assertion failed''
      else ''unreachable'')"

definition buildTitle :: "string \<Rightarrow> string \<Rightarrow> int \<Rightarrow> string" where
  "buildTitle monitorName errorClass statusCode =
     (if errorClass = ''status'' then monitorName @ '' returning '' @ itoa statusCode
      else if errorClass = ''timeout'' then monitorName @ '' timed out''
      else if errorClass = ''connect'' then monitorName @ '' connection refused''
      else if errorClass = ''dns'' then monitorName @ '' DNS error''
      else if errorClass = ''keyword_missing'' then monitorName @ '' keyword not found''
      else monitorName @ '' is down'')"

definition Build :: "string \<Rightarrow> string \<Rightarrow> int \<Rightarrow> verdict" where
  "Build monitorName errorClass statusCode =
     (let v = \<lparr>v_Title = '''', v_Facts = [], v_Status = ''unknown''\<rparr>;
          v = v\<lparr>v_Title := buildTitle monitorName errorClass statusCode\<rparr>
      in v\<lparr>v_Facts := v_Facts v @
             [\<lparr>fact_Kind = ''check_failure'',
               fact_Detail = monitorName @ '': '' @ errorLabel errorClass statusCode\<rparr>]\<rparr>)"

section \<open>Properties\<close>

text \<open>Suppression is exactly the four rules, in the pinned order: a fire is let through iff the last
  deploy (if any) is more than 90 seconds old, no maintenance window is open, no incident is open
  for the fingerprint and the last fire (if any) is more than 30 minutes old; and a suppressed fire
  carries the reason of the first rule that holds. The clock differences are Go's saturating ones.\<close>

theorem Evaluate_allows_iff:
  "\<not> Suppress (Evaluate i) \<longleftrightarrow>
     (LastDeployAt i = zero_time \<or> in_Now i - LastDeployAt i > 90 * 1000000000) \<and>
     \<not> InMaintenance i \<and> \<not> HasOpenIncident i \<and>
     (LastFireAt i = zero_time \<or> in_Now i - LastFireAt i > 30 * 60 * 1000000000)"
  by (auto simp: Evaluate_def allow_decision_def suppress_decision_def IsZero_def window_bounds)

text \<open>A deploy stamped in the future silences detection until that time has passed: every fire before it
  is suppressed as a post-deploy blip, however far ahead the stamp lies. (The stamp is the
  provider's: the webhook route stores the payload's own time.)\<close>

theorem future_deploy_suppresses:
  assumes "in_Now i \<le> LastDeployAt i" and "LastDeployAt i \<noteq> zero_time"
  shows "Evaluate i = suppress_decision ''post_deploy_blip''"
  using assms by (simp add: Evaluate_def IsZero_def window_bounds)

theorem future_deploy_suppresses_witness:
  "Evaluate \<lparr>in_Fingerprint = 1, LastFireAt = 0, HasOpenIncident = False, InMaintenance = False,
     LastDeployAt = 10 ^ 18 + 31536000 * 10 ^ 9, in_Now = 10 ^ 18\<rparr> = suppress_decision ''post_deploy_blip''"
  by (rule future_deploy_suppresses) (simp_all add: zero_time_def)

end
