(* ===== verification/NotifySettings.thy ===== *)
theory NotifySettings
  imports GoTime
begin

text \<open>
  Per-channel notification settings, \<^verbatim>\<open>back/internal/channel/notify/notify.go\<close>: the defaults, the
  clamp every reader goes through, and the sparse patch. \<^verbatim>\<open>json.Unmarshal\<close> of the stored column onto
  the defaults is the parameter \<open>unmarshal\<close> of \<open>Resolve\<close>.
\<close>

record Settings =
  WebsiteDown :: bool
  ErrorLogs :: bool
  RepeatingErrorLogs :: bool
  RepeatWindowMin :: int
  ResolveFollowUp :: bool

definition FollowUpDelay :: duration where "FollowUpDelay = 15 * minute"

definition defaults :: Settings where
  "defaults = \<lparr>WebsiteDown = True, ErrorLogs = False, RepeatingErrorLogs = False,
     RepeatWindowMin = 5, ResolveFollowUp = False\<rparr>"

definition clamp :: "Settings \<Rightarrow> Settings" where
  "clamp s =
     (let s = (if RepeatWindowMin s < 1 then s\<lparr>RepeatWindowMin := 1\<rparr> else s);
          s = (if RepeatWindowMin s > 120 then s\<lparr>RepeatWindowMin := 120\<rparr> else s)
      in if ErrorLogs s \<and> RepeatingErrorLogs s then s\<lparr>ErrorLogs := False\<rparr> else s)"

definition Resolve :: "(string \<Rightarrow> Settings \<Rightarrow> Settings) \<Rightarrow> string \<Rightarrow> Settings" where
  "Resolve unmarshal raw =
     (let s = defaults;
          s = (if length raw > 0 then unmarshal raw s else s)
      in clamp s)"

record Patch =
  p_WebsiteDown :: "bool option"
  p_ErrorLogs :: "bool option"
  p_RepeatingErrorLogs :: "bool option"
  p_RepeatWindowMin :: "int option"
  p_ResolveFollowUp :: "bool option"

definition Apply :: "Patch \<Rightarrow> Settings \<Rightarrow> Settings" where
  "Apply p cur =
     (let cur = (case p_WebsiteDown p of None \<Rightarrow> cur | Some b \<Rightarrow> cur\<lparr>WebsiteDown := b\<rparr>);
          cur = (case p_ErrorLogs p of None \<Rightarrow> cur
                 | Some b \<Rightarrow>
                     let cur = cur\<lparr>ErrorLogs := b\<rparr>
                     in if ErrorLogs cur then cur\<lparr>RepeatingErrorLogs := False\<rparr> else cur);
          cur = (case p_RepeatingErrorLogs p of None \<Rightarrow> cur
                 | Some b \<Rightarrow>
                     let cur = cur\<lparr>RepeatingErrorLogs := b\<rparr>
                     in if RepeatingErrorLogs cur then cur\<lparr>ErrorLogs := False\<rparr> else cur);
          cur = (case p_RepeatWindowMin p of None \<Rightarrow> cur | Some n \<Rightarrow> cur\<lparr>RepeatWindowMin := n\<rparr>);
          cur = (case p_ResolveFollowUp p of None \<Rightarrow> cur | Some b \<Rightarrow> cur\<lparr>ResolveFollowUp := b\<rparr>)
      in clamp cur)"

lemma clamp_fields [simp]:
  "WebsiteDown (clamp s) = WebsiteDown s"
  "ErrorLogs (clamp s) = (ErrorLogs s \<and> \<not> RepeatingErrorLogs s)"
  "RepeatingErrorLogs (clamp s) = RepeatingErrorLogs s"
  "RepeatWindowMin (clamp s) = max 1 (min 120 (RepeatWindowMin s))"
  "ResolveFollowUp (clamp s) = ResolveFollowUp s"
  by (auto simp: clamp_def Let_def)

text \<open>What a patch does to each field.\<close>

definition patched :: "'a option \<Rightarrow> 'a \<Rightarrow> 'a" where
  "patched po v = (case po of None \<Rightarrow> v | Some x \<Rightarrow> x)"

lemma patched_simps [simp]: "patched None v = v" "patched (Some x) v = x"
  "patched po (patched po v) = patched po v"
  by (auto simp: patched_def split: option.split)

lemma Apply_WebsiteDown: "WebsiteDown (Apply p s) = patched (p_WebsiteDown p) (WebsiteDown s)"
  by (cases "p_WebsiteDown p"; cases "p_ErrorLogs p"; cases "p_RepeatingErrorLogs p";
      simp add: Apply_def Let_def split: option.split)

lemma Apply_RepeatWindowMin:
  "RepeatWindowMin (Apply p s) = max 1 (min 120 (patched (p_RepeatWindowMin p) (RepeatWindowMin s)))"
  by (cases "p_RepeatWindowMin p"; cases "p_ErrorLogs p"; cases "p_RepeatingErrorLogs p";
      simp add: Apply_def Let_def split: option.split)

lemma Apply_ResolveFollowUp:
  "ResolveFollowUp (Apply p s) = patched (p_ResolveFollowUp p) (ResolveFollowUp s)"
  by (cases "p_ResolveFollowUp p"; cases "p_ErrorLogs p"; cases "p_RepeatingErrorLogs p";
      simp add: Apply_def Let_def split: option.split)

lemma Apply_RepeatingErrorLogs:
  "RepeatingErrorLogs (Apply p s) =
     patched (p_RepeatingErrorLogs p) (RepeatingErrorLogs s \<and> p_ErrorLogs p \<noteq> Some True)"
  by (cases "p_ErrorLogs p"; cases "p_RepeatingErrorLogs p";
      simp add: Apply_def Let_def split: option.split)

lemma Apply_ErrorLogs:
  "ErrorLogs (Apply p s) =
     (patched (p_ErrorLogs p) (ErrorLogs s) \<and> \<not> RepeatingErrorLogs (Apply p s))"
  unfolding Apply_RepeatingErrorLogs
  by (cases "p_ErrorLogs p"; cases "p_RepeatingErrorLogs p";
      auto simp add: Apply_def Let_def split: option.split)

lemmas Apply_fields = Apply_WebsiteDown Apply_RepeatWindowMin Apply_ResolveFollowUp
  Apply_RepeatingErrorLogs Apply_ErrorLogs

section \<open>The invariant every reader relies on\<close>

definition settings_ok :: "Settings \<Rightarrow> bool" where
  "settings_ok s \<longleftrightarrow>
     1 \<le> RepeatWindowMin s \<and> RepeatWindowMin s \<le> 120 \<and> \<not> (ErrorLogs s \<and> RepeatingErrorLogs s)"

lemma clamp_ok [inv_intros]: "settings_ok (clamp s)"
  by (auto simp: settings_ok_def clamp_def Let_def)

lemma clamp_id: "settings_ok s \<Longrightarrow> clamp s = s"
  by (auto simp: settings_ok_def clamp_def Let_def)

lemma Resolve_ok [inv_intros]: "settings_ok (Resolve u raw)"
  by (simp add: Resolve_def Let_def clamp_ok)

lemma Apply_ok [inv_intros]: "settings_ok (Apply p s)"
  by (simp add: Apply_def Let_def clamp_ok)

section \<open>Properties\<close>

text \<open>Settings are always well formed: whatever the stored column decodes to and whatever patches are
  applied after, the repeat window is between 1 and 120 minutes and the two error axes are never
  both on.\<close>

theorem settings_always_well_formed:
  "settings_ok (fold Apply ps (Resolve unmarshal raw))"
  by (induction ps rule: rev_induct) (simp_all add: Resolve_ok Apply_ok)

text \<open>A patch can be replayed: applying it a second time changes nothing, and after it every field it
  sends has the value it sent, the window clamped into its range and "every error" yielding to
  "repeating only" when both are sent.\<close>

theorem Apply_idempotent:
  "Apply p (Apply p s) = Apply p s \<and>
   WebsiteDown (Apply p s) = patched (p_WebsiteDown p) (WebsiteDown s) \<and>
   ResolveFollowUp (Apply p s) = patched (p_ResolveFollowUp p) (ResolveFollowUp s) \<and>
   RepeatWindowMin (Apply p s) = max 1 (min 120 (patched (p_RepeatWindowMin p) (RepeatWindowMin s))) \<and>
   RepeatingErrorLogs (Apply p s) =
     patched (p_RepeatingErrorLogs p) (RepeatingErrorLogs s \<and> p_ErrorLogs p \<noteq> Some True) \<and>
   ErrorLogs (Apply p s) =
     (patched (p_ErrorLogs p) (ErrorLogs s) \<and> \<not> RepeatingErrorLogs (Apply p s))"
proof -
  have R: "RepeatingErrorLogs (Apply p (Apply p s)) = RepeatingErrorLogs (Apply p s)"
    by (cases "p_RepeatingErrorLogs p") (simp_all add: Apply_RepeatingErrorLogs)
  have E: "ErrorLogs (Apply p (Apply p s)) = ErrorLogs (Apply p s)"
    by (cases "p_ErrorLogs p") (auto simp add: Apply_ErrorLogs R)
  have W: "RepeatWindowMin (Apply p (Apply p s)) = RepeatWindowMin (Apply p s)"
    by (cases "p_RepeatWindowMin p") (simp_all add: Apply_RepeatWindowMin max_def min_def)
  have "Apply p (Apply p s) = Apply p s"
    by (rule Settings.equality) (simp_all add: R E W Apply_WebsiteDown Apply_ResolveFollowUp)
  then show ?thesis
    by (simp add: Apply_WebsiteDown Apply_RepeatWindowMin Apply_ResolveFollowUp
        Apply_RepeatingErrorLogs Apply_ErrorLogs)
qed

end
