(* ===== verification/Json.thy ===== *)
theory Json
  imports GoTime
begin

text \<open>
  JSON values as Go's \<^verbatim>\<open>encoding/json\<close> hands them to the program: \<^verbatim>\<open>map[string]any\<close> is \<open>JObj\<close> over an
  association list with distinct keys (its order is the order in which one particular map
  iteration visits the keys, which Go leaves open), a \<^verbatim>\<open>float64\<close> is its canonical rendering, the text
  \<^verbatim>\<open>json.Marshal\<close> writes for it, which determines the number.
\<close>

datatype json =
    JNull
  | JBool bool
  | JNum string
  | JStr string
  | JArr "json list"
  | JObj "(string \<times> json) list"

type_synonym jobj = "(string \<times> json) list"

text \<open>Field access by key, as the struct tags do it: a missing or mistyped field keeps its zero value.\<close>

definition get_str :: "jobj \<Rightarrow> string \<Rightarrow> string" where
  "get_str ob k = (case map_of ob k of Some (JStr s) \<Rightarrow> s | _ \<Rightarrow> '''')"

definition get_bool :: "jobj \<Rightarrow> string \<Rightarrow> bool" where
  "get_bool ob k = (case map_of ob k of Some (JBool b) \<Rightarrow> b | _ \<Rightarrow> False)"

definition get_arr :: "jobj \<Rightarrow> string \<Rightarrow> json list" where
  "get_arr ob k = (case map_of ob k of Some (JArr xs) \<Rightarrow> xs | _ \<Rightarrow> [])"

lemmas get_defs = get_str_def get_bool_def get_arr_def

end
