(* ===== verification/Payload.thy ===== *)
theory Payload
  imports Json
begin

text \<open>
  What an alert carries and how each channel renders and sends it:
  \<^verbatim>\<open>back/internal/deliver/channels.go\<close>. The network is a parameter: \<open>post url bearer body\<close> is the
  answer of \<^verbatim>\<open>doPost\<close>, a status code or an error text. String constants of the source that hold
  UTF-8 are written as their bytes.
\<close>

section \<open>The payload\<close>

record field =
  f_Label :: string
  f_Value :: string
  f_Mono :: bool

record actionButton =
  a_Label :: string
  a_URL :: string

record AlertPayload =
  Title :: string
  ap_Status :: string
  IncidentID :: string
  MonitorName :: string
  Actions :: "actionButton list"
  Fields :: "field list"
  Summary :: string
  Lines :: "string list"
  LinesLabel :: string
  Class :: string
  Detector :: string
  Buttons :: bool
  Group :: bool

definition DetectorProductAlert :: string where
  "DetectorProductAlert = ''product_alert''"

text \<open>\<^verbatim>\<open>json.Unmarshal\<close> into \<^verbatim>\<open>AlertPayload\<close>: each field by its json tag.\<close>

fun field_of_json :: "json \<Rightarrow> field" where
  "field_of_json (JObj ob) =
     \<lparr>f_Label = get_str ob ''label'', f_Value = get_str ob ''value'', f_Mono = get_bool ob ''mono''\<rparr>"
| "field_of_json _ = \<lparr>f_Label = '''', f_Value = '''', f_Mono = False\<rparr>"

fun action_of_json :: "json \<Rightarrow> actionButton" where
  "action_of_json (JObj ob) = \<lparr>a_Label = get_str ob ''label'', a_URL = get_str ob ''url''\<rparr>"
| "action_of_json _ = \<lparr>a_Label = '''', a_URL = ''''\<rparr>"

fun string_of_json :: "json \<Rightarrow> string" where
  "string_of_json (JStr s) = s"
| "string_of_json _ = ''''"

definition payload_of_obj :: "jobj \<Rightarrow> AlertPayload" where
  "payload_of_obj ob =
     \<lparr>Title = get_str ob ''title'', ap_Status = get_str ob ''status'',
      IncidentID = get_str ob ''incident_id'', MonitorName = get_str ob ''monitor_name'',
      Actions = map action_of_json (get_arr ob ''actions''),
      Fields = map field_of_json (get_arr ob ''fields''),
      Summary = get_str ob ''summary'',
      Lines = map string_of_json (get_arr ob ''lines''), LinesLabel = get_str ob ''lines_label'',
      Class = get_str ob ''class'', Detector = get_str ob ''detector'',
      Buttons = get_bool ob ''buttons'', Group = get_bool ob ''group''\<rparr>"

text \<open>\<^verbatim>\<open>json.Marshal\<close> of a \<^verbatim>\<open>Field\<close>: \<^verbatim>\<open>mono\<close> is omitted when false.\<close>

definition json_of_field :: "field \<Rightarrow> json" where
  "json_of_field f =
     JObj ([(''label'', JStr (f_Label f)), (''value'', JStr (f_Value f))] @
           (if f_Mono f then [(''mono'', JBool True)] else []))"

lemma field_roundtrip [simp]: "field_of_json (json_of_field f) = f"
  by (cases f) (simp add: json_of_field_def get_defs)

section \<open>Escaping\<close>

text \<open>\<^verbatim>\<open>html.EscapeString\<close> and \<^verbatim>\<open>url.QueryEscape\<close>.\<close>

definition esc_byte :: "char \<Rightarrow> string" where
  "esc_byte c =
     (if c = CHR ''&'' then ''&amp;''
      else if c = SQUOTE then ''&#39;''
      else if c = CHR ''<'' then ''&lt;''
      else if c = CHR ''>'' then ''&gt;''
      else if c = DQUOTE then ''&#34;''
      else [c])"

definition EscapeString :: "string \<Rightarrow> string" where
  "EscapeString s = concat (map esc_byte s)"

definition hex_upper :: "nat \<Rightarrow> char" where
  "hex_upper n = ''0123456789ABCDEF'' ! n"

definition query_byte :: "char \<Rightarrow> string" where
  "query_byte c =
     (if is_lower c \<or> is_upper c \<or> is_digit c \<or> c \<in> {CHR ''-'', CHR ''_'', CHR ''.'', CHR ''~''} then [c]
      else if c = CHR '' '' then ''+''
      else [CHR ''%'', hex_upper (byte c div 16), hex_upper (byte c mod 16)])"

definition QueryEscape :: "string \<Rightarrow> string" where
  "QueryEscape s = concat (map query_byte s)"

section \<open>Rendering\<close>

definition statusEmoji :: "string \<Rightarrow> string" where
  "statusEmoji status =
     (if status = ''down'' then [CHR 0xF0, CHR 0x9F, CHR 0x94, CHR 0xB4]
      else if status = ''check'' then [CHR 0xF0, CHR 0x9F, CHR 0x9F, CHR 0xA0]
      else [CHR 0xF0, CHR 0x9F, CHR 0x9F, CHR 0xA2])"

definition statusColor :: "string \<Rightarrow> int" where
  "statusColor status =
     (if status = ''down'' then 0xFF0000 else if status = ''check'' then 0xFFA500 else 0x00FF00)"

definition alertLink :: "AlertPayload \<Rightarrow> string \<Rightarrow> string \<times> string" where
  "alertLink p appURL =
     (if appURL = '''' then ('''', '''')
      else if Class p = ''test'' then (appURL @ ''/alerts'', ''Alert settings'')
      else if Class p = ''ticket'' then
        (if Detector p = DetectorProductAlert then (appURL @ ''/dashboard'', ''Open the dashboard'')
         else (appURL, ''Open this log group''))
      else if IncidentID p = '''' then (appURL, ''Open the dashboard'')
      else
        let href = appURL @ ''?incident='' @ QueryEscape (IncidentID p)
        in if Class p = ''followup'' \<and> ap_Status p = ''ok''
           then (href, ''The incident and its timeline are on the dashboard'')
           else (href, ''Open the incident''))"

definition field_row :: "field \<Rightarrow> string" where
  "field_row f =
     (let v = EscapeString (f_Value f);
          v = (if f_Mono f then ''<code>'' @ v @ ''</code>'' else v)
      in EscapeString (f_Label f) @ '': '' @ v @ [LF])"

fun join :: "string \<Rightarrow> string list \<Rightarrow> string" where
  "join sep [] = ''''"
| "join sep [x] = x"
| "join sep (x # y # xs) = x @ sep @ join sep (y # xs)"

definition link_row :: "actionButton \<Rightarrow> string" where
  "link_row a =
     (if a_URL a \<noteq> '''' then
        [LF] @ ''<a href='' @ [DQUOTE] @ EscapeString (a_URL a) @ [DQUOTE] @ ''>'' @
        EscapeString (a_Label a) @ ''</a>''
      else '''')"

definition message_links :: "AlertPayload \<Rightarrow> string \<Rightarrow> actionButton list" where
  "message_links p appURL =
     Actions p @
     (case alertLink p appURL of (href, label) \<Rightarrow>
        if href \<noteq> '''' then [\<lparr>a_Label = label, a_URL = href\<rparr>] else [])"

definition formatTelegram :: "AlertPayload \<Rightarrow> string \<Rightarrow> string" where
  "formatTelegram p appURL =
     (let s = statusEmoji (ap_Status p) @ '' <b>'' @ EscapeString (Title p) @ ''</b>'' @ [LF];
          s = (if Summary p \<noteq> '''' then s @ [LF] @ EscapeString (Summary p) @ [LF] else s);
          s = (if length (Fields p) > 0 then s @ [LF] @ concat (map field_row (Fields p)) else s);
          s = (if length (Lines p) > 0
               then s @ [LF] @ ''<pre>'' @ join [LF] (map EscapeString (Lines p)) @ ''</pre>'' @ [LF]
               else s)
      in s @ concat (map link_row (message_links p appURL)))"

definition formatEmail :: "AlertPayload \<Rightarrow> string" where
  "formatEmail p =
     (let s = Title p @ [LF];
          s = (if Summary p \<noteq> '''' then s @ Summary p @ [LF] else s);
          s = (if MonitorName p \<noteq> '''' then s @ ''Monitor: '' @ MonitorName p @ [LF] else s);
          s = s @ concat (map (\<lambda>f. f_Label f @ '': '' @ f_Value f @ [LF]) (Fields p))
      in if length (Lines p) > 0 then
           let label = (if LinesLabel p = '''' then ''Detail'' else LinesLabel p)
           in s @ [LF] @ label @ '':'' @ [LF] @ concat (map (\<lambda>l. ''  '' @ l @ [LF]) (Lines p))
         else s)"

definition telegramKeyboard :: "AlertPayload \<Rightarrow> string \<Rightarrow> json list" where
  "telegramKeyboard p appURL =
     (if \<not> Buttons p \<or> IncidentID p = '''' then []
      else
        [JArr [JObj [(''text'', JStr ''Acknowledge''), (''callback_data'', JStr (''ack:'' @ IncidentID p))]]] @
        (if Detector p = '''' then
           [JArr [JObj [(''text'', JStr ''Resolve''), (''callback_data'', JStr (''resolve:'' @ IncidentID p))]]]
         else []) @
        (if \<not> Group p \<and> has_prefix appURL ''https://'' then
           [JArr [JObj [(''text'', JStr ''Open''),
              (''web_app'', JObj [(''url'', JStr (appURL @ ''?incident='' @ QueryEscape (IncidentID p)))])]]]
         else []))"

definition alertFields :: "AlertPayload \<Rightarrow> json list" where
  "alertFields p =
     (if MonitorName p \<noteq> '''' then [JArr [JStr ''Monitor'', JStr (MonitorName p), JBool False]] else []) @
     map (\<lambda>f. JArr [JStr (f_Label f), JStr (f_Value f), JBool (f_Mono f)]) (Fields p) @
     (if IncidentID p \<noteq> '''' then [JArr [JStr ''Incident'', JStr (IncidentID p), JBool True]] else [])"

section \<open>Sending\<close>

datatype send_result = Sent int | SendErr string

type_synonym poster = "string \<Rightarrow> string \<Rightarrow> json \<Rightarrow> send_result"

definition telegram_Send :: "poster \<Rightarrow> string \<Rightarrow> string \<Rightarrow> string \<Rightarrow> AlertPayload \<Rightarrow> send_result" where
  "telegram_Send post token appURL target p =
     (if token = ''''
      then SendErr ''telegram: no bot token configured (Settings, or UC_TELEGRAM_BOT_TOKEN)''
      else
        let text = formatTelegram p appURL;
            body = [(''chat_id'', JStr target), (''text'', JStr text), (''parse_mode'', JStr ''HTML'')];
            kb = telegramKeyboard p appURL;
            body = (if kb \<noteq> [] then body @ [(''reply_markup'', JObj [(''inline_keyboard'', JArr kb)])]
                    else body)
        in post (''https://api.telegram.org/bot'' @ token @ ''/sendMessage'') '''' (JObj body))"

definition trim_right_byte :: "char \<Rightarrow> string \<Rightarrow> string" where
  "trim_right_byte c s = rev (dropWhile (\<lambda>x. x = c) (rev s))"

definition json_of_action :: "actionButton \<Rightarrow> json" where
  "json_of_action a =
     JObj ([(''label'', JStr (a_Label a))] @ (if a_URL a \<noteq> '''' then [(''url'', JStr (a_URL a))] else []))"

definition email_Send :: "poster \<Rightarrow> string \<Rightarrow> string \<Rightarrow> string \<Rightarrow> string \<Rightarrow> AlertPayload \<Rightarrow> send_result" where
  "email_Send post apiURL apiKey appURL target p =
     (let vars =
            [(''class'', JStr (Class p)), (''status'', JStr (ap_Status p)), (''title'', JStr (Title p)),
             (''to'', JStr target), (''app_url'', JStr appURL), (''incident_id'', JStr (IncidentID p))] @
            (if Summary p \<noteq> '''' then [(''summary'', JStr (Summary p))] else []) @
            (if Detector p \<noteq> '''' then [(''detector'', JStr (Detector p))] else []) @
            (if length (alertFields p) > 0 then [(''fields'', JArr (alertFields p))] else []) @
            (if length (Lines p) > 0
             then [(''lines'', JArr (map JStr (Lines p))), (''lines_label'', JStr (LinesLabel p))] else []) @
            (if length (Actions p) > 0 then [(''actions'', JArr (map json_of_action (Actions p)))] else []);
          body = JObj [(''kind'', JStr ''notification''), (''to'', JStr target), (''template'', JStr ''alert''),
                       (''vars'', JObj vars)]
      in post (trim_right_byte CHR ''/'' apiURL @ ''/send'') apiKey body)"

definition discord_Send :: "poster \<Rightarrow> string \<Rightarrow> AlertPayload \<Rightarrow> send_result" where
  "discord_Send post target p =
     post target ''''
       (JObj [(''embeds'', JArr [JObj
          [(''title'', JStr (''['' @ ap_Status p @ ''] '' @ Title p)),
           (''description'', JStr (formatEmail p)),
           (''color'', JNum (itoa (statusColor (ap_Status p))))]])])"

definition slack_Send :: "poster \<Rightarrow> string \<Rightarrow> AlertPayload \<Rightarrow> send_result" where
  "slack_Send post target p =
     post target ''''
       (JObj [(''text'', JStr (formatEmail p)),
              (''blocks'', JArr [JObj [(''type'', JStr ''header''),
                 (''text'', JObj [(''type'', JStr ''plain_text''),
                                  (''text'', JStr (''['' @ ap_Status p @ ''] '' @ Title p))])]])])"

section \<open>Markup safety\<close>

abbreviation count_byte :: "char \<Rightarrow> string \<Rightarrow> nat" where
  "count_byte c s \<equiv> length (filter (\<lambda>x. x = c) s)"

lemma esc_byte_clean: "x \<in> set (esc_byte c) \<Longrightarrow> x \<noteq> CHR ''<'' \<and> x \<noteq> CHR ''>'' \<and> x \<noteq> DQUOTE"
  by (auto simp: esc_byte_def split: if_splits)

lemma EscapeString_clean: "x \<in> set (EscapeString s) \<Longrightarrow> x \<noteq> CHR ''<'' \<and> x \<noteq> CHR ''>'' \<and> x \<noteq> DQUOTE"
  using esc_byte_clean by (auto simp: EscapeString_def)

lemma EscapeString_count [simp]:
  "count_byte CHR ''<'' (EscapeString s) = 0" "count_byte CHR ''>'' (EscapeString s) = 0"
  "count_byte DQUOTE (EscapeString s) = 0"
  using EscapeString_clean by (auto simp: filter_empty_conv)

lemma count_join:
  "count_byte c (join [LF] xs) = sum_list (map (count_byte c) xs)" if "c \<noteq> LF"
  using that by (induction "[LF]" xs rule: join.induct) auto

lemma sum_list_const: "\<forall>x \<in> set xs. f x = 0 \<Longrightarrow> sum_list (map f xs) = (0::nat)"
  by (induction xs) auto

lemma count_lines [simp]: "count_byte CHR ''<'' (join [LF] (map EscapeString ls)) = 0"
  by (subst count_join) (simp, simp add: comp_def)

lemma count_field_rows:
  "count_byte CHR ''<'' (concat (map field_row fs)) = 2 * length (filter f_Mono fs)"
  by (induction fs) (auto simp: field_row_def Let_def)

lemma count_link_rows:
  "count_byte CHR ''<'' (concat (map link_row ls)) = 2 * length (filter (\<lambda>a. a_URL a \<noteq> '''') ls)"
  by (induction ls) (auto simp: link_row_def)

section \<open>Properties\<close>

text \<open>C29. No text of a payload can open a tag in the Telegram message: the number of opening brackets in the
  rendered HTML is the number the layout itself writes (the title's bold pair, a code pair per
  monospaced field, a pre pair when there are lines, an anchor pair per link with a target),
  whatever the title, summary, field, line and action texts contain.\<close>

theorem formatTelegram_only_layout_tags:
  "count_byte CHR ''<'' (formatTelegram p appURL) =
     2 + 2 * length (filter f_Mono (Fields p)) + (if Lines p = [] then 0 else 2) +
     2 * length (filter (\<lambda>a. a_URL a \<noteq> '''') (message_links p appURL))"
proof -
  have e: "count_byte CHR ''<'' (statusEmoji x) = 0" for x by (simp add: statusEmoji_def)
  show ?thesis
    by (simp add: formatTelegram_def Let_def count_field_rows count_link_rows e)
qed

end
