(* ===== verification/Store.thy ===== *)
theory Store
  imports Payload NotifySettings "HOL-Library.Product_Lexorder"
begin

text \<open>
  The Postgres side the incident lifecycle, the delivery worker and the heartbeat share: the rows
  of the tables they touch and one definition per query of
  \<^verbatim>\<open>back/internal/storage/pg/queries/\<close> (\<^verbatim>\<open>incident.sql\<close>, \<^verbatim>\<open>delivery.sql\<close>, \<^verbatim>\<open>detect.sql\<close>, \<^verbatim>\<open>errorlog.sql\<close>,
  \<^verbatim>\<open>monitor.sql\<close>, \<^verbatim>\<open>schedule.sql\<close>, \<^verbatim>\<open>read_api.sql\<close>). A table is the list of its rows in insertion
  order. Any query may fail: the environment's \<open>fl\<close> says which calls do, by query name and key, and
  every result is a row, no row (\<^verbatim>\<open>pgx.ErrNoRows\<close>) or a fault.
\<close>

section \<open>Rows\<close>

record incident_row =
  i_id :: int
  i_public :: string
  i_tenant :: int
  i_project :: int
  i_monitor :: "int option"
  i_detector :: string
  i_fp :: int
  i_title :: string
  i_status :: string
  i_detected :: time
  i_notified :: "time option"
  i_resolved :: "time option"
  i_reason :: "string option"

record update_row =
  u_incident :: int
  u_kind :: string
  u_text :: string

record slice_row =
  s_incident :: int
  s_seq :: int
  s_ts :: time
  s_level :: string
  s_service :: string
  s_message :: string

record queue_row =
  q_id :: int
  q_tenant :: int
  q_incident :: "int option"
  q_channel :: int
  q_key :: string
  q_class :: string
  q_payload :: jobj
  q_attempts :: int
  q_next :: time
  q_state :: string
  q_dead :: "string option"
  q_leased :: "string option"
  q_lease_until :: "time option"

record channel_row =
  c_id :: int
  c_tenant :: int
  c_project :: int
  c_kind :: string
  c_target :: string
  c_notify :: string
  c_muted :: "time option"
  c_person :: "int option"

record monitor_row =
  m_id :: int
  m_tenant :: int
  m_project :: int
  m_kind :: string
  m_monitor_name :: string
  m_target :: string
  m_paused :: bool
  m_paused_by :: string
  m_target_id :: int
  m_interval :: int
  m_grace :: "int option"
  m_ping_token :: "string option"

record facts_row =
  tf_target :: int
  tf_status :: string
  tf_failures :: int
  tf_unmeasured :: int

record check_row =
  ck_target :: int
  ck_interval :: int
  ck_ts :: time
  ck_region :: string
  ck_ok :: bool
  ck_error :: string

record db =
  incidents :: "incident_row list"
  next_incident :: int
  updates :: "update_row list"
  slices :: "slice_row list"
  intervals :: "(int \<times> int) list"
  queue :: "queue_row list"
  next_queue :: int
  attempt_log :: "(int \<times> string \<times> string) list"
  channels :: "channel_row list"
  monitors :: "monitor_row list"
  frozen_projects :: "int list"
  plans :: "(int \<times> string) list"
  entitlements :: "(string \<times> int \<times> bool) list"
  facts :: "facts_row list"
  due :: "(int \<times> time) list"
  checks :: "check_row list"
  alert_state :: "((int \<times> int \<times> int \<times> string) \<times> time) list"

section \<open>Environment and results\<close>

text \<open>
  \<open>fl\<close>: which database calls fail; \<open>now\<close>: the clock, one reading per operation; \<open>uid\<close>: the fresh
  UUID of this operation; \<open>has_pgs\<close>: whether the telemetry store is configured; \<open>evidence\<close>: what
  the ring's evidence query returns for a project and a line budget (\<open>None\<close> when it fails, a \<open>None\<close> element for a row
  that does not scan); \<open>unmarshal\<close>: \<^verbatim>\<open>json.Unmarshal\<close> of a \<open>notify\<close> column.
\<close>

record evidence_line =
  e_seq :: int
  e_ts :: time
  e_level :: string
  e_service :: string
  e_message :: string

record env =
  fl :: "string \<Rightarrow> int list \<Rightarrow> bool"
  now :: time
  uid :: string
  has_pgs :: bool
  evidence :: "int \<Rightarrow> int \<Rightarrow> nat \<Rightarrow> evidence_line option list option"
  unmarshal :: "string \<Rightarrow> Settings \<Rightarrow> Settings"

datatype 'a res = Row 'a | NoRows | Fault

fun one_row :: "'a list \<Rightarrow> 'a res" where
  "one_row [] = NoRows"
| "one_row (x # xs) = Row x"

section \<open>incident.sql and detect.sql\<close>

definition open_for :: "int \<Rightarrow> incident_row \<Rightarrow> bool" where
  "open_for mid r \<longleftrightarrow> i_monitor r = Some mid \<and> i_resolved r = None"

definition open_fp :: "int \<Rightarrow> int \<Rightarrow> incident_row \<Rightarrow> bool" where
  "open_fp t f r \<longleftrightarrow> i_tenant r = t \<and> i_fp r = f \<and> i_resolved r = None"

definition q_GetOpenIncident :: "env \<Rightarrow> db \<Rightarrow> int \<Rightarrow> incident_row res" where
  "q_GetOpenIncident e d mid =
     (if fl e ''GetOpenIncident'' [mid] then Fault
      else one_row (filter (open_for mid) (incidents d)))"

definition q_GetOpenIncidentByFingerprint :: "env \<Rightarrow> db \<Rightarrow> int \<Rightarrow> int \<Rightarrow> incident_row res" where
  "q_GetOpenIncidentByFingerprint e d t f =
     (if fl e ''GetOpenIncidentByFingerprint'' [t, f] then Fault
      else one_row (filter (open_fp t f) (incidents d)))"

definition q_GetMonitorForIncident :: "env \<Rightarrow> db \<Rightarrow> int \<Rightarrow> monitor_row res" where
  "q_GetMonitorForIncident e d mid =
     (if fl e ''GetMonitorForIncident'' [mid] then Fault
      else one_row (filter (\<lambda>m. m_id m = mid) (monitors d)))"

text \<open>\<^verbatim>\<open>OpenIncident\<close> returns the new row; a failed insert changes nothing.\<close>

definition q_OpenIncident ::
  "env \<Rightarrow> db \<Rightarrow> int \<Rightarrow> int \<Rightarrow> int option \<Rightarrow> string \<Rightarrow> int \<Rightarrow> string \<Rightarrow> string \<Rightarrow> (incident_row \<times> db) option" where
  "q_OpenIncident e d t pid mid det f title status =
     (if fl e ''OpenIncident'' [t, f] then None
      else
        let r = \<lparr>i_id = next_incident d, i_public = uid e, i_tenant = t, i_project = pid,
                 i_monitor = mid, i_detector = det, i_fp = f, i_title = title, i_status = status,
                 i_detected = now e, i_notified = None, i_resolved = None, i_reason = None\<rparr>
        in Some (r, d\<lparr>incidents := incidents d @ [r], next_incident := next_incident d + 1\<rparr>))"

definition close_row :: "env \<Rightarrow> string \<Rightarrow> incident_row \<Rightarrow> incident_row" where
  "close_row e reason r =
     r\<lparr>i_resolved := Some (now e), i_status := ''ok'', i_reason := Some reason\<rparr>"

definition q_CloseIncident :: "env \<Rightarrow> db \<Rightarrow> string \<Rightarrow> int \<Rightarrow> db option" where
  "q_CloseIncident e d reason mid =
     (if fl e ''CloseIncident'' [mid] then None
      else Some (d\<lparr>incidents :=
        map (\<lambda>r. if open_for mid r then close_row e reason r else r) (incidents d)\<rparr>))"

definition q_CloseIncidentByFingerprint :: "env \<Rightarrow> db \<Rightarrow> string \<Rightarrow> int \<Rightarrow> int \<Rightarrow> db option" where
  "q_CloseIncidentByFingerprint e d reason t f =
     (if fl e ''CloseIncidentByFingerprint'' [t, f] then None
      else Some (d\<lparr>incidents :=
        map (\<lambda>r. if open_fp t f r then close_row e reason r else r) (incidents d)\<rparr>))"

text \<open>The writes whose error the code drops (\<^verbatim>\<open>_ = q...\<close>) return the database alone.\<close>

definition q_SetIncidentEffectiveInterval :: "env \<Rightarrow> db \<Rightarrow> int \<Rightarrow> int \<Rightarrow> db" where
  "q_SetIncidentEffectiveInterval e d iid sec =
     (if fl e ''SetIncidentEffectiveInterval'' [iid] then d
      else d\<lparr>intervals := intervals d @ [(iid, sec)]\<rparr>)"

definition q_AddIncidentUpdate :: "env \<Rightarrow> db \<Rightarrow> int \<Rightarrow> string \<Rightarrow> string \<Rightarrow> db" where
  "q_AddIncidentUpdate e d iid kind text =
     (if fl e ''AddIncidentUpdate'' [iid] then d
      else d\<lparr>updates := updates d @ [\<lparr>u_incident = iid, u_kind = kind, u_text = text\<rparr>]\<rparr>)"

definition q_TouchIncidentNotified :: "env \<Rightarrow> db \<Rightarrow> int \<Rightarrow> db" where
  "q_TouchIncidentNotified e d iid =
     (if fl e ''TouchIncidentNotified'' [iid] then d
      else d\<lparr>incidents := map (\<lambda>r. if i_id r = iid \<and> i_notified r = None
                                   then r\<lparr>i_notified := Some (now e)\<rparr> else r) (incidents d)\<rparr>)"

definition q_AddIncidentSliceLine :: "env \<Rightarrow> db \<Rightarrow> int \<Rightarrow> evidence_line \<Rightarrow> db" where
  "q_AddIncidentSliceLine e d iid l =
     (if fl e ''AddIncidentSliceLine'' [iid, e_seq l] \<or>
         (\<exists>s \<in> set (slices d). s_incident s = iid \<and> s_seq s = e_seq l) then d
      else d\<lparr>slices := slices d @ [\<lparr>s_incident = iid, s_seq = e_seq l, s_ts = e_ts l,
               s_level = e_level l, s_service = e_service l, s_message = e_message l\<rparr>]\<rparr>)"

definition q_ListIncidentSlice :: "env \<Rightarrow> db \<Rightarrow> int \<Rightarrow> slice_row list res" where
  "q_ListIncidentSlice e d iid =
     (if fl e ''ListIncidentSlice'' [iid] then Fault
      else Row (sort_key s_seq (filter (\<lambda>s. s_incident s = iid) (slices d))))"

definition q_ListPlanPausedWithOpenIncident :: "env \<Rightarrow> db \<Rightarrow> int list res" where
  "q_ListPlanPausedWithOpenIncident e d =
     (if fl e ''ListPlanPausedWithOpenIncident'' [] then Fault
      else Row (concat (map (\<lambda>m. map (\<lambda>_. m_id m) (filter (open_for (m_id m)) (incidents d)))
                  (filter (\<lambda>m. m_paused m \<and> m_paused_by m = ''plan'') (monitors d)))))"

definition q_ListUndeliveredOpenIncidents :: "env \<Rightarrow> db \<Rightarrow> int \<Rightarrow> (incident_row \<times> monitor_row) list res" where
  "q_ListUndeliveredOpenIncidents e d pid =
     (if fl e ''ListUndeliveredOpenIncidents'' [pid] then Fault
      else Row (filter (\<lambda>(r, m). i_project r = pid \<and> i_resolved r = None \<and> i_notified r = None \<and>
                         i_detector r = ''availability'' \<and> i_monitor r = Some (m_id m))
                  (List.product (incidents d) (monitors d))))"

section \<open>Channels and plans\<close>

definition q_IsProjectFrozen :: "env \<Rightarrow> db \<Rightarrow> int \<Rightarrow> bool res" where
  "q_IsProjectFrozen e d pid =
     (if fl e ''IsProjectFrozen'' [pid] then Fault else Row (pid \<in> set (frozen_projects d)))"

definition q_ListChannelsByProject :: "env \<Rightarrow> db \<Rightarrow> int \<Rightarrow> channel_row list res" where
  "q_ListChannelsByProject e d pid =
     (if fl e ''ListChannelsByProject'' [pid] then Fault
      else Row (filter (\<lambda>c. c_project c = pid) (channels d)))"

definition q_GetTenantPlan :: "env \<Rightarrow> db \<Rightarrow> int \<Rightarrow> string res" where
  "q_GetTenantPlan e d t =
     (if fl e ''GetTenantPlan'' [t] then Fault
      else case map_of (plans d) t of None \<Rightarrow> NoRows | Some p \<Rightarrow> Row p)"

definition q_GetPlanEntitlement :: "env \<Rightarrow> db \<Rightarrow> string \<Rightarrow> (int \<times> bool) res" where
  "q_GetPlanEntitlement e d plan =
     (if fl e ''GetPlanEntitlement'' [] then Fault
      else case map_of (entitlements d) plan of None \<Rightarrow> NoRows | Some p \<Rightarrow> Row p)"

section \<open>delivery.sql\<close>

definition queue_has :: "db \<Rightarrow> string \<Rightarrow> bool" where
  "queue_has d key \<longleftrightarrow> (\<exists>r \<in> set (queue d). q_key r = key)"

text \<open>
  \<^verbatim>\<open>EnqueueDelivery\<close> and \<^verbatim>\<open>EnqueueDeliveryAt\<close>: \<^verbatim>\<open>ON CONFLICT (idem_key) DO NOTHING\<close> reports success
  for a duplicate. \<open>None\<close> is a database error.
\<close>

definition q_EnqueueDeliveryAt ::
  "env \<Rightarrow> db \<Rightarrow> int \<Rightarrow> int option \<Rightarrow> int \<Rightarrow> string \<Rightarrow> string \<Rightarrow> jobj \<Rightarrow> time \<Rightarrow> db option" where
  "q_EnqueueDeliveryAt e d t iid ch key cls pay next =
     (if fl e ''EnqueueDelivery'' [ch] then None
      else if queue_has d key then Some d
      else Some (d\<lparr>queue := queue d @
             [\<lparr>q_id = next_queue d, q_tenant = t, q_incident = iid, q_channel = ch, q_key = key,
               q_class = cls, q_payload = pay, q_attempts = 0, q_next = next, q_state = ''pending'',
               q_dead = None, q_leased = None, q_lease_until = None\<rparr>],
             next_queue := next_queue d + 1\<rparr>))"

definition q_EnqueueDelivery ::
  "env \<Rightarrow> db \<Rightarrow> int \<Rightarrow> int option \<Rightarrow> int \<Rightarrow> string \<Rightarrow> string \<Rightarrow> jobj \<Rightarrow> db option" where
  "q_EnqueueDelivery e d t iid ch key cls pay =
     q_EnqueueDeliveryAt e d t iid ch key cls pay (now e)"

section \<open>errorlog.sql\<close>

text \<open>
  \<^verbatim>\<open>ListErrorSubscribedChannels\<close>: \<open>axis col key\<close> is \<^verbatim>\<open>(notify->>'key')::boolean IS TRUE\<close> of a column.
\<close>

definition q_ListErrorSubscribedChannels ::
  "env \<Rightarrow> db \<Rightarrow> (string \<Rightarrow> string \<Rightarrow> bool) \<Rightarrow> channel_row list res" where
  "q_ListErrorSubscribedChannels e d axis =
     (if fl e ''ListErrorSubscribedChannels'' [] then Fault
      else Row (sort_key (\<lambda>c. (c_tenant c, c_project c))
        (filter (\<lambda>c. (axis (c_notify c) ''errorLogs'' \<or> axis (c_notify c) ''repeatingErrorLogs'') \<and>
                     c_project c \<notin> set (frozen_projects d)) (channels d))))"

definition q_ListErrorAlertState :: "env \<Rightarrow> db \<Rightarrow> int \<Rightarrow> int \<Rightarrow> (int \<times> string \<times> time) list res" where
  "q_ListErrorAlertState e d t pid =
     (if fl e ''ListErrorAlertState'' [t, pid] then Fault
      else Row (map (\<lambda>((t', p', fp, kind), last). (fp, kind, last))
                 (filter (\<lambda>((t', p', fp, kind), last). t' = t \<and> p' = pid) (alert_state d))))"

definition q_UpsertErrorAlertState :: "env \<Rightarrow> db \<Rightarrow> int \<Rightarrow> int \<Rightarrow> int \<Rightarrow> string \<Rightarrow> db" where
  "q_UpsertErrorAlertState e d t pid fp kind =
     (if fl e ''UpsertErrorAlertState'' [t, pid, fp] then d
      else d\<lparr>alert_state := AList.update (t, pid, fp, kind) (now e) (alert_state d)\<rparr>)"

section \<open>Facts about the tables\<close>

lemma one_row_simps [simp]:
  "one_row xs = NoRows \<longleftrightarrow> xs = []" "one_row xs = Row x \<longleftrightarrow> (\<exists>ys. xs = x # ys)" "one_row xs \<noteq> Fault"
  by (cases xs; auto)+

lemma filter_open_close [simp]:
  "filter (open_for mid) (map (\<lambda>r. if open_for mid r then close_row e reason r else r) rs) = []"
  by (induction rs) (auto simp: open_for_def close_row_def)

lemma filter_fp_close [simp]:
  "filter (open_fp t f) (map (\<lambda>r. if open_fp t f r then close_row e reason r else r) rs) = []"
  by (induction rs) (auto simp: open_fp_def close_row_def)

text \<open>Closing only ever removes rows from a set of open rows.\<close>

lemma filter_open_map_close_le:
  "length (filter (\<lambda>r. P r \<and> i_resolved r = None)
      (map (\<lambda>r. if Q r then close_row e reason r else r) rs)) \<le>
   length (filter (\<lambda>r. P r \<and> i_resolved r = None) rs)"
  by (induction rs) (auto simp: close_row_def)

lemma filter_touch:
  assumes "\<And>r t. P (r\<lparr>i_notified := t\<rparr>) = P r"
  shows "length (filter P (map (\<lambda>r. if Q r then r\<lparr>i_notified := t\<rparr> else r) rs)) = length (filter P rs)"
  by (induction rs) (auto simp: assms)

end
