(* ===== verification/Fnv.thy ===== *)
theory Fnv
  imports Prelude "HOL-Library.Word"
begin

unbundle bit_operations_syntax

text \<open>
  FNV-1a over 64 bits, the \<^verbatim>\<open>hash/fnv\<close> function behind every fingerprint of the program
  (\<^verbatim>\<open>incident.KeyFingerprint\<close>, \<^verbatim>\<open>incident.fingerprint\<close>, \<^verbatim>\<open>ingest.Fingerprint\<close>): an unsigned 64-bit
  multiply-xor fold over the bytes, wrapping. A fingerprint stored in a bigint is the same bits
  read as a signed number.
\<close>

type_synonym u64 = "64 word"

definition fnv_offset :: u64 where "fnv_offset = 14695981039346656037"
definition fnv_prime :: u64 where "fnv_prime = 1099511628211"

definition fnv_step :: "u64 \<Rightarrow> char \<Rightarrow> u64" where
  "fnv_step h c = (h XOR word_of_nat (byte c)) * fnv_prime"

definition fnv64a :: "string \<Rightarrow> u64" where
  "fnv64a s = foldl fnv_step fnv_offset s"

lemma fnv64a_append: "fnv64a (s @ t) = foldl fnv_step (fnv64a s) t"
  by (simp add: fnv64a_def)

text \<open>The prime is odd, hence invertible: one step never merges two hash states.\<close>

definition fnv_prime_inv :: u64 where "fnv_prime_inv = 14886173955864302971"

lemma fnv_prime_inverse: "fnv_prime * fnv_prime_inv = 1"
  by (simp add: fnv_prime_def fnv_prime_inv_def)

lemma word_xor_cancel: "(a XOR c :: 'a::len word) = b XOR c \<longleftrightarrow> a = b"
  by (metis xor.assoc xor.right_neutral xor_self_eq)

lemma fnv_step_inj: "fnv_step h c = fnv_step h' c \<longleftrightarrow> h = h'"
proof
  assume "fnv_step h c = fnv_step h' c"
  then have "(h XOR word_of_nat (byte c)) * fnv_prime * fnv_prime_inv =
      (h' XOR word_of_nat (byte c)) * fnv_prime * fnv_prime_inv"
    by (simp add: fnv_step_def)
  then show "h = h'"
    by (simp add: mult.assoc fnv_prime_inverse word_xor_cancel)
qed simp

lemma unat_byte: "unat (word_of_nat (byte c) :: u64) = byte c"
proof -
  have "byte c < 2 ^ 64" by (rule less_trans [OF nat_of_char_less_256]) simp
  then have "byte c mod 2 ^ 64 = byte c" by (rule mod_less)
  then show ?thesis by (simp add: unsigned_of_nat take_bit_eq_mod)
qed

text \<open>Two messages that differ only in one byte never share a hash.\<close>

lemma fnv_step_byte_inj: "fnv_step h c = fnv_step h d \<longleftrightarrow> c = d"
proof
  assume "fnv_step h c = fnv_step h d"
  then have "(h XOR word_of_nat (byte c)) * fnv_prime * fnv_prime_inv =
      (h XOR word_of_nat (byte d)) * fnv_prime * fnv_prime_inv"
    by (simp add: fnv_step_def)
  then have "(word_of_nat (byte c) :: u64) = word_of_nat (byte d)"
    by (simp add: mult.assoc fnv_prime_inverse) (metis word_xor_cancel xor.commute)
  then have "unat (word_of_nat (byte c) :: u64) = unat (word_of_nat (byte d) :: u64)" by simp
  then have "byte c = byte d" by (simp only: unat_byte)
  then show "c = d" by simp
qed simp

lemma foldl_fnv_inj: "foldl fnv_step h s = foldl fnv_step h' s \<longleftrightarrow> h = h'"
  by (induction s arbitrary: h h') (simp_all add: fnv_step_inj)

lemma fnv64a_one_byte: "fnv64a (s @ c # t) = fnv64a (s @ d # t) \<longleftrightarrow> c = d"
  by (simp add: fnv64a_append foldl_fnv_inj fnv_step_byte_inj)

end
