(* ===== verification/Incident.thy ===== *)
theory Incident
  imports Store Fnv
begin

text \<open>
  The incident lifecycle, \<^verbatim>\<open>back/internal/incident/incident.go\<close>: opening and closing against the
  incident table, the frozen evidence slice, and the one notification path every opener goes
  through. Errors are values; the database calls may fail one by one.
\<close>

section \<open>Constants and payloads\<close>

definition detectStatus :: string where "detectStatus = ''check''"
definition ReasonRecovered :: string where "ReasonRecovered = ''recovered''"
definition ReasonMonitorDelete :: string where "ReasonMonitorDelete = ''monitor_deleted''"
definition ReasonByHuman :: string where "ReasonByHuman = ''by_human''"
definition ReasonPlanPaused :: string where "ReasonPlanPaused = ''plan_paused''"

datatype inc_error =
    EMonitor int | EOpen | EClose | EDetectLookup | EDetectOpen | EDetectClose
  | EThawed int | EPlanPausedRead | ESlice

definition KeyFingerprint :: "string \<Rightarrow> int" where
  "KeyFingerprint key = sint (fnv64a key)"

definition fingerprint :: "int \<Rightarrow> string \<Rightarrow> u64" where
  "fingerprint monitorID det = fnv64a (itoa monitorID @ '':'' @ det)"

record notifySpec =
  n_incident :: int
  n_payload :: jobj
  n_wants :: "Settings \<Rightarrow> bool"
  n_followup :: "jobj option"

definition downSpec :: "int \<Rightarrow> string \<Rightarrow> string \<Rightarrow> string \<Rightarrow> string \<Rightarrow> time \<Rightarrow> notifySpec" where
  "downSpec incidentID publicID title monitorName target since =
     (let fields = (if target \<noteq> ''''
                    then [\<lparr>f_Label = ''Target'', f_Value = target, f_Mono = True\<rparr>] else []);
          fields = fields @ [\<lparr>f_Label = ''Down since'', f_Value = fmt_stamp since @ '' UTC'', f_Mono = False\<rparr>]
      in \<lparr>n_incident = incidentID,
          n_payload =
            [(''title'', JStr title), (''status'', JStr ''down''), (''incident_id'', JStr publicID),
             (''monitor_name'', JStr monitorName), (''fields'', JArr (map json_of_field fields))],
          n_wants = WebsiteDown,
          n_followup = Some [(''incident_id'', JStr publicID), (''monitor_name'', JStr monitorName)]\<rparr>)"

record DetectOpen =
  d_Tenant :: int
  d_Project :: int
  d_Monitor :: "int option"
  d_Detector :: string
  d_Fingerprint :: int
  d_Title :: string
  d_OpenedText :: string
  d_Summary :: string
  d_Fields :: "field list"

definition detectAlertPayload :: "DetectOpen \<Rightarrow> string \<Rightarrow> slice_row list \<Rightarrow> jobj" where
  "detectAlertPayload p publicID sl =
     [(''title'', JStr (d_Title p)), (''status'', JStr detectStatus), (''incident_id'', JStr publicID),
      (''detector'', JStr (d_Detector p)), (''summary'', JStr (d_Summary p)),
      (''fields'', JArr (map json_of_field (d_Fields p)))] @
     (if length sl > 0
      then [(''lines'', JArr [JStr (s_message (last sl))]),
            (''lines_label'', JStr ''From the logs when it fired'')]
      else [])"

section \<open>Who a plan silences\<close>

definition seat_of :: "channel_row \<Rightarrow> int" where
  "seat_of ch = (case c_person ch of Some p \<Rightarrow> p | None \<Rightarrow> - c_id ch)"

fun muted_loop :: "int \<Rightarrow> bool \<Rightarrow> channel_row list \<Rightarrow> int list \<Rightarrow> int list \<Rightarrow> int list" where
  "muted_loop seats rooms [] muted held = muted"
| "muted_loop seats rooms (ch # chans) muted held =
     (if c_kind ch \<noteq> ''telegram'' then muted_loop seats rooms chans muted held
      else if c_person ch = None \<and> \<not> rooms then muted_loop seats rooms chans (c_id ch # muted) held
      else
        let seat = seat_of ch in
        if seat \<in> set held then muted_loop seats rooms chans muted held
        else if int (length held) \<ge> seats then muted_loop seats rooms chans (c_id ch # muted) held
        else muted_loop seats rooms chans muted (seat # held))"

definition mutedTelegram :: "channel_row list \<Rightarrow> int \<Rightarrow> bool \<Rightarrow> int list" where
  "mutedTelegram chans seats rooms = muted_loop seats rooms chans [] []"

definition MutedByPlan :: "env \<Rightarrow> db \<Rightarrow> int \<Rightarrow> channel_row list \<Rightarrow> int list" where
  "MutedByPlan e d tenantID chans =
     (if \<not> (\<exists>ch \<in> set chans. c_kind ch = ''telegram'') then []
      else case q_GetTenantPlan e d tenantID of
        Row plan \<Rightarrow>
          (case q_GetPlanEntitlement e d plan of
             Row (recipients, rooms) \<Rightarrow> mutedTelegram chans recipients rooms
           | _ \<Rightarrow> [])
      | _ \<Rightarrow> [])"

section \<open>The notification path\<close>

definition opened_key :: "int \<Rightarrow> int \<Rightarrow> string" where
  "opened_key iid ch = ''incident:'' @ itoa iid @ '':channel:'' @ itoa ch @ '':opened''"

definition followup_key :: "int \<Rightarrow> int \<Rightarrow> string" where
  "followup_key iid ch = ''incident:'' @ itoa iid @ '':channel:'' @ itoa ch @ '':followup''"

definition notify_one ::
  "env \<Rightarrow> int \<Rightarrow> notifySpec \<Rightarrow> string \<Rightarrow> channel_row \<Rightarrow> db \<times> nat \<Rightarrow> db \<times> nat" where
  "notify_one e tenantID n plan ch ds =
     (case ds of (d, sent) \<Rightarrow>
        let settings = Resolve (unmarshal e) (c_notify ch) in
        if \<not> n_wants n settings then (d, sent)
        else
          let (d, sent) =
                (case q_EnqueueDelivery e d tenantID (Some (n_incident n)) (c_id ch)
                        (opened_key (n_incident n) (c_id ch)) ''page'' (n_payload n) of
                   Some d' \<Rightarrow> (d', sent + 1)
                 | None \<Rightarrow> (d, sent))
          in case n_followup n of
               Some fu \<Rightarrow>
                 if ResolveFollowUp settings \<and> plan \<noteq> '''' \<and> plan \<noteq> ''Free'' then
                   (case q_EnqueueDeliveryAt e d tenantID (Some (n_incident n)) (c_id ch)
                           (followup_key (n_incident n) (c_id ch)) ''followup'' fu
                           (Add (now e) FollowUpDelay) of
                      Some d' \<Rightarrow> (d', sent)
                    | None \<Rightarrow> (d, sent))
                 else (d, sent)
             | None \<Rightarrow> (d, sent))"

fun notify_loop ::
  "env \<Rightarrow> int \<Rightarrow> notifySpec \<Rightarrow> string \<Rightarrow> int list \<Rightarrow> channel_row list \<Rightarrow> db \<times> nat \<Rightarrow> db \<times> nat" where
  "notify_loop e t n plan muted [] ds = ds"
| "notify_loop e t n plan muted (ch # chans) ds =
     (if c_id ch \<in> set muted then notify_loop e t n plan muted chans ds
      else notify_loop e t n plan muted chans (notify_one e t n plan ch ds))"

definition notifyChannels :: "env \<Rightarrow> db \<Rightarrow> int \<Rightarrow> int \<Rightarrow> notifySpec \<Rightarrow> db" where
  "notifyChannels e d tenantID projectID n =
     (if q_IsProjectFrozen e d projectID = Row True then d
      else case q_ListChannelsByProject e d projectID of
        Row chans \<Rightarrow>
          (let plan = (case n_followup n of
                         None \<Rightarrow> ''''
                       | Some _ \<Rightarrow> (case q_GetTenantPlan e d tenantID of Row p \<Rightarrow> p | _ \<Rightarrow> ''''));
               muted = MutedByPlan e d tenantID chans;
               (d', sent) = notify_loop e tenantID n plan muted chans (d, 0)
           in if sent > 0 then q_TouchIncidentNotified e d' (n_incident n) else d')
      | _ \<Rightarrow> d)"

section \<open>The frozen slice\<close>

definition sliceLines :: nat where "sliceLines = 12"

fun slice_rows :: "env \<Rightarrow> db \<Rightarrow> int \<Rightarrow> evidence_line option list \<Rightarrow> db \<times> inc_error option" where
  "slice_rows e d iid [] = (d, None)"
| "slice_rows e d iid (None # ls) = (d, Some ESlice)"
| "slice_rows e d iid (Some l # ls) = slice_rows e (q_AddIncidentSliceLine e d iid l) iid ls"

definition freezeSlice :: "env \<Rightarrow> db \<Rightarrow> int \<Rightarrow> int \<Rightarrow> int \<Rightarrow> db \<times> inc_error option" where
  "freezeSlice e d iid tenantID projectID =
     (if \<not> has_pgs e then (d, None)
      else case evidence e tenantID projectID sliceLines of
        None \<Rightarrow> (d, Some ESlice)
      | Some ls \<Rightarrow> slice_rows e d iid ls)"

section \<open>Opening and closing\<close>

definition open_incident ::
  "env \<Rightarrow> db \<Rightarrow> int \<Rightarrow> string \<Rightarrow> int \<Rightarrow> bool \<Rightarrow> (inc_error + int \<times> bool) \<times> db" where
  "open_incident e d monitorID title sec freeze =
     (case q_GetOpenIncident e d monitorID of
        Row existing \<Rightarrow> (Inr (i_id existing, False), d)
      | _ \<Rightarrow>
        (case q_GetMonitorForIncident e d monitorID of
           Row mon \<Rightarrow>
             (let fp = sint (fingerprint monitorID ''availability'') in
              case q_OpenIncident e d (m_tenant mon) (m_project mon) (Some monitorID)
                     ''availability'' fp title ''down'' of
                None \<Rightarrow> (Inl EOpen, d)
              | Some (row, d) \<Rightarrow>
                  (let d = (if sec > 0 then q_SetIncidentEffectiveInterval e d (i_id row) sec else d);
                       text = (if m_kind mon = ''heartbeat''
                               then m_monitor_name mon @ '' has not checked in''
                               else m_target mon @ '' stopped responding'');
                       d = q_AddIncidentUpdate e d (i_id row) ''opened'' text;
                       d = (if freeze then fst (freezeSlice e d (i_id row) (m_tenant mon) (m_project mon))
                            else d);
                       d = notifyChannels e d (m_tenant mon) (m_project mon)
                             (downSpec (i_id row) (i_public row) title (m_monitor_name mon)
                                (m_target mon) (now e))
                   in (Inr (i_id row, True), d)))
         | _ \<Rightarrow> (Inl (EMonitor monitorID), d)))"

definition Open_incident :: "env \<Rightarrow> db \<Rightarrow> int \<Rightarrow> string \<Rightarrow> int \<Rightarrow> (inc_error + int \<times> bool) \<times> db" where
  "Open_incident e d monitorID title sec = open_incident e d monitorID title sec True"

definition OpenOnTx :: "env \<Rightarrow> db \<Rightarrow> int \<Rightarrow> string \<Rightarrow> int \<Rightarrow> (inc_error + int \<times> bool) \<times> db" where
  "OpenOnTx e d monitorID title sec = open_incident e d monitorID title sec False"

definition FreezeOpenIncident :: "env \<Rightarrow> db \<Rightarrow> int \<Rightarrow> db" where
  "FreezeOpenIncident e d monitorID =
     (if \<not> has_pgs e then d
      else case q_GetOpenIncident e d monitorID of
        Row existing \<Rightarrow>
          (case q_GetMonitorForIncident e d monitorID of
             Row mon \<Rightarrow> fst (freezeSlice e d (i_id existing) (m_tenant mon) (m_project mon))
           | _ \<Rightarrow> d)
      | _ \<Rightarrow> d)"

fun thaw_loop :: "env \<Rightarrow> int \<Rightarrow> (incident_row \<times> monitor_row) list \<Rightarrow> db \<Rightarrow> db" where
  "thaw_loop e pid [] d = d"
| "thaw_loop e pid ((r, m) # rows) d =
     thaw_loop e pid rows
       (notifyChannels e d (i_tenant r) pid
          (downSpec (i_id r) (i_public r) (i_title r) (m_monitor_name m) (m_target m) (i_detected r)))"

definition NotifyThawed :: "env \<Rightarrow> db \<Rightarrow> int \<Rightarrow> inc_error option \<times> db" where
  "NotifyThawed e d projectID =
     (case q_ListUndeliveredOpenIncidents e d projectID of
        Row rows \<Rightarrow> (None, thaw_loop e projectID rows d)
      | _ \<Rightarrow> (Some (EThawed projectID), d))"

definition close_text :: "string \<Rightarrow> string" where
  "close_text reason =
     (if reason = ReasonRecovered then ''Checks are passing again''
      else if reason = ReasonMonitorDelete then ''Monitor deleted''
      else if reason = ReasonPlanPaused then ''Paused by the plan'' @ [SQUOTE] @ ''s check limit''
      else ''Closed: '' @ reason)"

definition Close_incident :: "env \<Rightarrow> db \<Rightarrow> int \<Rightarrow> string \<Rightarrow> inc_error option \<times> db" where
  "Close_incident e d monitorID reason =
     (case q_GetOpenIncident e d monitorID of
        Row existing \<Rightarrow>
          (case q_CloseIncident e d reason monitorID of
             None \<Rightarrow> (Some EClose, d)
           | Some d \<Rightarrow> (None, q_AddIncidentUpdate e d (i_id existing) ''resolved'' (close_text reason)))
      | _ \<Rightarrow> (None, d))"

fun close_all :: "env \<Rightarrow> int list \<Rightarrow> db \<Rightarrow> inc_error list \<times> db" where
  "close_all e [] d = ([], d)"
| "close_all e (mid # ids) d =
     (case Close_incident e d mid ReasonPlanPaused of (err, d) \<Rightarrow>
        (case close_all e ids d of (errs, d) \<Rightarrow>
           ((case err of None \<Rightarrow> errs | Some x \<Rightarrow> x # errs), d)))"

definition ClosePlanPaused :: "env \<Rightarrow> db \<Rightarrow> inc_error list \<times> db" where
  "ClosePlanPaused e d =
     (case q_ListPlanPausedWithOpenIncident e d of
        Row ids \<Rightarrow> close_all e ids d
      | _ \<Rightarrow> ([EPlanPausedRead], d))"

definition OpenDetect :: "env \<Rightarrow> db \<Rightarrow> DetectOpen \<Rightarrow> (inc_error + int \<times> bool) \<times> db" where
  "OpenDetect e d p =
     (case q_GetOpenIncidentByFingerprint e d (d_Tenant p) (d_Fingerprint p) of
        Row existing \<Rightarrow> (Inr (i_id existing, False), d)
      | Fault \<Rightarrow> (Inl EDetectLookup, d)
      | NoRows \<Rightarrow>
        (case q_OpenIncident e d (d_Tenant p) (d_Project p) (d_Monitor p) (d_Detector p)
                (d_Fingerprint p) (d_Title p) detectStatus of
           None \<Rightarrow> (Inl EDetectOpen, d)
         | Some (row, d) \<Rightarrow>
             (let d = q_AddIncidentUpdate e d (i_id row) ''opened'' (d_OpenedText p);
                  d = fst (freezeSlice e d (i_id row) (d_Tenant p) (d_Project p));
                  sl = (case q_ListIncidentSlice e d (i_id row) of Row s \<Rightarrow> s | _ \<Rightarrow> []);
                  d = notifyChannels e d (d_Tenant p) (d_Project p)
                        \<lparr>n_incident = i_id row,
                         n_payload = detectAlertPayload p (i_public row) sl,
                         n_wants = (\<lambda>s. ErrorLogs s \<or> RepeatingErrorLogs s),
                         n_followup = None\<rparr>
              in (Inr (i_id row, True), d))))"

definition CloseByFingerprint :: "env \<Rightarrow> db \<Rightarrow> int \<Rightarrow> int \<Rightarrow> string \<Rightarrow> string \<Rightarrow> inc_error option \<times> db" where
  "CloseByFingerprint e d tenantID fp reason resolvedText =
     (case q_GetOpenIncidentByFingerprint e d tenantID fp of
        NoRows \<Rightarrow> (None, d)
      | Fault \<Rightarrow> (Some EDetectLookup, d)
      | Row existing \<Rightarrow>
          (case q_CloseIncidentByFingerprint e d reason tenantID fp of
             None \<Rightarrow> (Some EDetectClose, d)
           | Some d \<Rightarrow> (None, q_AddIncidentUpdate e d (i_id existing) ''resolved'' resolvedText)))"

section \<open>Frames\<close>

text \<open>
  Everything but an insert or a close leaves the incident table alone, up to the notified mark.
\<close>

definition unmark :: "incident_row \<Rightarrow> incident_row" where
  "unmark r = r\<lparr>i_notified := None\<rparr>"

definition same_incidents :: "db \<Rightarrow> db \<Rightarrow> bool" where
  "same_incidents d d' \<longleftrightarrow>
     map unmark (incidents d') = map unmark (incidents d) \<and> next_incident d' = next_incident d"

named_theorems frames "operations that leave the incident table alone"

lemma same_refl [frames]: "same_incidents d d"
  by (simp add: same_incidents_def)

lemma same_trans: "same_incidents d1 d2 \<Longrightarrow> same_incidents d2 d3 \<Longrightarrow> same_incidents d1 d3"
  by (simp add: same_incidents_def)

lemma same_SetInterval [frames]: "same_incidents d (q_SetIncidentEffectiveInterval e d i sec)"
  by (simp add: q_SetIncidentEffectiveInterval_def same_incidents_def)

lemma same_AddUpdate [frames]: "same_incidents d (q_AddIncidentUpdate e d i k t)"
  by (simp add: q_AddIncidentUpdate_def same_incidents_def)

lemma same_AddSlice [frames]: "same_incidents d (q_AddIncidentSliceLine e d i l)"
  by (simp add: q_AddIncidentSliceLine_def same_incidents_def)

lemma same_Touch [frames]: "same_incidents d (q_TouchIncidentNotified e d i)"
  by (simp add: q_TouchIncidentNotified_def same_incidents_def unmark_def)

lemma same_EnqueueAt [frames]:
  "q_EnqueueDeliveryAt e d t iid ch key cls pay next = Some d' \<Longrightarrow> same_incidents d d'"
  by (auto simp: q_EnqueueDeliveryAt_def same_incidents_def split: if_splits)

lemma same_Enqueue [frames]:
  "q_EnqueueDelivery e d t iid ch key cls pay = Some d' \<Longrightarrow> same_incidents d d'"
  by (simp add: q_EnqueueDelivery_def same_EnqueueAt)

lemma same_notify_one: "same_incidents d (fst (notify_one e t n plan ch (d, sent)))"
proof (cases "n_wants n (Resolve (unmarshal e) (c_notify ch))")
  case True
  obtain d1 s1 where d1: "(case q_EnqueueDelivery e d t (Some (n_incident n)) (c_id ch)
        (opened_key (n_incident n) (c_id ch)) ''page'' (n_payload n) of
      Some d' \<Rightarrow> (d', sent + 1) | None \<Rightarrow> (d, sent)) = (d1, s1)"
    by (metis surj_pair)
  then have "same_incidents d d1"
    by (auto split: option.splits intro: frames)
  with True d1 show ?thesis
    by (auto simp: notify_one_def Let_def split: option.splits if_splits intro: same_trans same_EnqueueAt frames)
qed (simp add: notify_one_def frames)

lemma same_notify_loop: "same_incidents d (fst (notify_loop e t n plan muted chs (d, sent)))"
proof (induction chs arbitrary: d sent)
  case (Cons ch chs)
  obtain d1 s1 where d1: "notify_one e t n plan ch (d, sent) = (d1, s1)" by (metis surj_pair)
  from same_notify_one [of d e t n plan ch sent] d1 have "same_incidents d d1" by simp
  with Cons [of d1 s1] Cons [of d sent] d1 show ?case by (auto intro: same_trans)
qed (simp add: frames)

lemma same_notifyChannels [frames]: "same_incidents d (notifyChannels e d t pid n)"
proof -
  have "same_incidents d (fst (notify_loop e t n plan muted chs (d, 0)))" for plan muted chs
    by (rule same_notify_loop)
  then show ?thesis
    by (auto simp: notifyChannels_def Let_def split: res.splits prod.splits intro: frames same_trans)
      (metis fst_conv same_Touch same_trans)+
qed

lemma same_slice_rows: "same_incidents d (fst (slice_rows e d i ls))"
proof (induction ls arbitrary: d)
  case (Cons l ls)
  then show ?case by (cases l) (auto intro: frames same_trans [OF same_AddSlice])
qed (simp add: frames)

lemma same_freezeSlice [frames]: "same_incidents d (fst (freezeSlice e d i t pid))"
  by (auto simp: freezeSlice_def intro: frames same_slice_rows split: option.split)

lemma same_FreezeOpen [frames]: "same_incidents d (FreezeOpenIncident e d mid)"
  by (auto simp: FreezeOpenIncident_def intro: frames split: res.split)

lemma same_thaw_loop: "same_incidents d (thaw_loop e pid rows d)"
proof (induction e pid rows d rule: thaw_loop.induct)
  case (2 e pid r m rows d)
  show ?case
    unfolding thaw_loop.simps by (rule same_trans [OF same_notifyChannels 2])
qed (simp add: frames)

lemma same_NotifyThawed [frames]: "same_incidents d (snd (NotifyThawed e d pid))"
  by (auto simp: NotifyThawed_def intro: frames same_thaw_loop split: res.split)

text \<open>The same facts as steps that grow a frame from the right.\<close>

lemmas frame_steps =
  same_SetInterval [THEN same_trans [rotated]] same_AddUpdate [THEN same_trans [rotated]]
  same_AddSlice [THEN same_trans [rotated]] same_Touch [THEN same_trans [rotated]]
  same_notifyChannels [THEN same_trans [rotated]] same_freezeSlice [THEN same_trans [rotated]]

end
