(* ===== verification/IncidentLife.thy ===== *)
theory IncidentLife
  imports Incident
begin

text \<open>
  What the incident table promises: ids are fresh, and at most one open incident per monitor and
  per tenant and fingerprint. Every operation of \<^verbatim>\<open>incident.go\<close> keeps it, with the hypotheses its
  error handling needs.
\<close>

section \<open>One open incident\<close>

definition open_count :: "int \<Rightarrow> db \<Rightarrow> nat" where
  "open_count mid d = length (filter (open_for mid) (incidents d))"

definition open_key_count :: "int \<Rightarrow> int \<Rightarrow> db \<Rightarrow> nat" where
  "open_key_count t f d =
     length (filter (\<lambda>r. (i_tenant r = t \<and> i_fp r = f \<and> i_monitor r = None) \<and> i_resolved r = None) (incidents d))"

text \<open>The invariant allows a monitor \<open>k\<close> extra open incidents, one per open whose duplicate check failed.\<close>

definition inc_inv :: "(int \<Rightarrow> nat) \<Rightarrow> db \<Rightarrow> bool" where
  "inc_inv k d \<longleftrightarrow>
     (\<forall>mid. open_count mid d \<le> 1 + k mid) \<and> (\<forall>t f. open_key_count t f d \<le> 1) \<and>
     distinct (map i_id (incidents d)) \<and> (\<forall>r \<in> set (incidents d). i_id r < next_incident d)"

lemma filter_unmark:
  assumes "\<And>r. P (unmark r) = P r" and "map unmark rs = map unmark rs'"
  shows "length (filter P rs) = length (filter P rs')"
proof -
  have "length (filter P rs) = length (filter P (map unmark rs))" for rs
    by (simp add: filter_map comp_def assms(1))
  with assms(2) show ?thesis by metis
qed

lemma unmark_fields [simp]:
  "i_id (unmark r) = i_id r" "i_tenant (unmark r) = i_tenant r" "i_fp (unmark r) = i_fp r"
  "i_monitor (unmark r) = i_monitor r" "i_resolved (unmark r) = i_resolved r"
  by (simp_all add: unmark_def)

lemma inc_inv_same:
  assumes "same_incidents d d'" and "inc_inv k d"
  shows "inc_inv k d'"
proof -
  from assms(1) have eq: "map unmark (incidents d') = map unmark (incidents d)"
    and nx: "next_incident d' = next_incident d"
    by (simp_all add: same_incidents_def)
  have oc: "open_count mid d' = open_count mid d" for mid
    unfolding open_count_def by (rule filter_unmark) (simp_all add: open_for_def eq)
  have kc: "open_key_count t f d' = open_key_count t f d" for t f
    unfolding open_key_count_def by (rule filter_unmark) (simp_all add: eq)
  have ids: "map i_id (incidents x) = map i_id (map unmark (incidents x))" for x
    by simp
  have same: "map i_id (incidents d') = map i_id (incidents d)"
    unfolding ids [of d'] ids [of d] eq ..
  have bound: "(\<forall>r \<in> set (incidents x). i_id r < n) \<longleftrightarrow> (\<forall>i \<in> set (map i_id (incidents x)). i < n)" for x n
    by simp
  show ?thesis
    using assms(2) unfolding inc_inv_def oc kc nx bound same .
qed

lemma insert_shape:
  assumes "q_OpenIncident e d t pid mid det f title status = Some (row, d1)"
  shows "incidents d1 = incidents d @ [row]" and "next_incident d1 = next_incident d + 1"
    and "i_id row = next_incident d" and "i_monitor row = mid" and "i_tenant row = t"
    and "i_fp row = f" and "i_resolved row = None"
  using assms by (auto simp: q_OpenIncident_def Let_def split: if_splits)

lemma open_count_insert:
  assumes "q_OpenIncident e d t pid mid det f title status = Some (row, d1)"
  shows "open_count m d1 = open_count m d + (if mid = Some m then 1 else 0)"
    and "open_key_count t' f' d1 =
           open_key_count t' f' d + (if mid = None \<and> t' = t \<and> f' = f then 1 else 0)"
  using insert_shape [OF assms]
  by (auto simp: open_count_def open_key_count_def open_for_def)

lemma ids_insert:
  assumes "inc_inv k d" and "q_OpenIncident e d t pid mid det f title status = Some (row, d1)"
  shows "distinct (map i_id (incidents d1))" and "\<forall>r \<in> set (incidents d1). i_id r < next_incident d1"
  using assms(1) insert_shape [OF assms(2)]
  by (force simp: inc_inv_def)+

definition bump :: "int option \<Rightarrow> (int \<Rightarrow> nat) \<Rightarrow> int \<Rightarrow> nat" where
  "bump f k = (case f of None \<Rightarrow> k | Some m \<Rightarrow> k(m := k m + 1))"

lemma inc_inv_bump: "inc_inv k d \<Longrightarrow> inc_inv (bump f k) d"
  by (auto simp: inc_inv_def bump_def le_Suc_eq split: option.split)

lemma inc_inv_insert_faulted:
  assumes "inc_inv k d"
    and "q_OpenIncident e d t pid (Some m) det f title status = Some (row, d1)"
  shows "inc_inv (bump (Some m) k) d1"
  unfolding inc_inv_def
  using assms(1) open_count_insert [OF assms(2)] ids_insert [OF assms]
  by (auto simp: inc_inv_def bump_def)

lemma inc_inv_insert_monitor:
  assumes "inc_inv k d" and "open_count m d = 0"
    and "q_OpenIncident e d t pid (Some m) det f title status = Some (row, d1)"
  shows "inc_inv k d1"
  unfolding inc_inv_def
  using assms(1,2) open_count_insert [OF assms(3)] ids_insert [OF assms(1,3)]
  by (simp add: inc_inv_def)

lemma inc_inv_insert_key:
  assumes "inc_inv k d" and "open_key_count t f d = 0"
    and "q_OpenIncident e d t pid None det f title status = Some (row, d1)"
  shows "inc_inv k d1"
  unfolding inc_inv_def
  using assms(1,2) open_count_insert [OF assms(3)] ids_insert [OF assms(1,3)]
  by (simp add: inc_inv_def)

lemma open_for_eq: "open_for m = (\<lambda>r. i_monitor r = Some m \<and> i_resolved r = None)"
  by (simp add: open_for_def fun_eq_iff)

lemma inc_inv_close:
  assumes "inc_inv k d"
  shows "inc_inv k (d\<lparr>incidents := map (\<lambda>r. if Q r then close_row e reason r else r) (incidents d)\<rparr>)"
    (is "inc_inv k ?d")
proof -
  have oc: "open_count m ?d \<le> open_count m d" for m
    unfolding open_count_def open_for_eq
    using filter_open_map_close_le [of "\<lambda>r. i_monitor r = Some m"] by simp
  have kc: "open_key_count t f ?d \<le> open_key_count t f d" for t f
    unfolding open_key_count_def
    using filter_open_map_close_le [of "\<lambda>r. i_tenant r = t \<and> i_fp r = f \<and> i_monitor r = None"] by simp
  have ids: "map i_id (incidents ?d) = map i_id (incidents d)"
    by (simp add: close_row_def)
  have bound: "\<forall>r \<in> set (incidents ?d). i_id r < next_incident ?d"
    using assms by (auto simp: inc_inv_def close_row_def)
  show ?thesis
    unfolding inc_inv_def ids
    using bound oc [THEN order_trans] kc [THEN order_trans] assms by (simp add: inc_inv_def)
qed

lemma GetOpen_NoRows: "q_GetOpenIncident e d mid = NoRows \<Longrightarrow> open_count mid d = 0"
  by (simp add: q_GetOpenIncident_def open_count_def split: if_splits)

lemma GetOpenFp_NoRows: "q_GetOpenIncidentByFingerprint e d t f = NoRows \<Longrightarrow> open_key_count t f d = 0"
  by (auto simp: q_GetOpenIncidentByFingerprint_def open_key_count_def open_fp_def filter_empty_conv
      split: if_splits)

definition open_fault :: "env \<Rightarrow> int \<Rightarrow> int option" where
  "open_fault e mid = (if fl e ''GetOpenIncident'' [mid] then Some mid else None)"

lemma open_incident_missed:
  assumes "inc_inv k d" and miss: "q_GetOpenIncident e d mid = NoRows \<or> q_GetOpenIncident e d mid = Fault"
    and ins: "\<And>t p f row d1. q_OpenIncident e d t p (Some mid) ''availability'' f title ''down'' = Some (row, d1)
      \<Longrightarrow> inc_inv k d1"
  shows "inc_inv k (snd (open_incident e d mid title sec freeze))"
proof (cases "q_GetMonitorForIncident e d mid")
  case (Row mon)
  show ?thesis
  proof (cases "q_OpenIncident e d (m_tenant mon) (m_project mon) (Some mid) ''availability''
      (sint (fingerprint mid ''availability'')) title ''down''")
    case (Some p)
    obtain row d1 where p: "p = (row, d1)" by (cases p)
    have i1: "inc_inv k d1" using ins Some p by blast
    have "same_incidents d1 (snd (open_incident e d mid title sec freeze))"
      using miss Row Some p by (auto simp: open_incident_def Let_def intro!: frame_steps same_refl)
    then show ?thesis using i1 by (rule inc_inv_same)
  qed (use miss Row assms(1) in \<open>auto simp: open_incident_def Let_def\<close>)
qed (use miss assms(1) in \<open>auto simp: open_incident_def\<close>)

lemma open_incident_inv [inv_intros]:
  assumes "inc_inv k d"
  shows "inc_inv (bump (open_fault e mid) k) (snd (open_incident e d mid title sec freeze))"
    (is "inc_inv ?k _")
proof (cases "q_GetOpenIncident e d mid")
  case (Row r)
  with assms show ?thesis by (simp add: open_incident_def inc_inv_bump)
next
  case NoRows
  then have k: "?k = k"
    by (simp add: q_GetOpenIncident_def open_fault_def bump_def split: if_splits)
  show ?thesis
    unfolding k using inc_inv_insert_monitor [OF assms GetOpen_NoRows [OF NoRows]]
    by (rule open_incident_missed [OF assms disjI1 [OF NoRows]])
next
  case Fault
  then have k: "?k = bump (Some mid) k"
    by (simp add: q_GetOpenIncident_def open_fault_def split: if_splits)
  show ?thesis
    unfolding k using inc_inv_insert_faulted [OF assms]
    by (rule open_incident_missed [OF inc_inv_bump [OF assms] disjI2 [OF Fault]])
qed

lemma OpenDetect_inv [inv_intros]:
  assumes "inc_inv k d" and "d_Monitor p = None"
  shows "inc_inv k (snd (OpenDetect e d p))"
proof (cases "q_GetOpenIncidentByFingerprint e d (d_Tenant p) (d_Fingerprint p)")
  case NoRows
  note zero = GetOpenFp_NoRows [OF NoRows]
  show ?thesis
  proof (cases "q_OpenIncident e d (d_Tenant p) (d_Project p) (d_Monitor p) (d_Detector p)
      (d_Fingerprint p) (d_Title p) detectStatus")
    case (Some q)
    obtain row d1 where q: "q = (row, d1)" by (cases q)
    have i1: "inc_inv k d1" using inc_inv_insert_key [OF assms(1) zero] Some q assms(2) by simp
    show ?thesis
      using NoRows Some q
      by (auto simp: OpenDetect_def Let_def intro!: inc_inv_same [OF _ i1] frame_steps same_refl)
  qed (simp add: OpenDetect_def NoRows assms)
qed (simp_all add: OpenDetect_def assms)

lemma Close_incident_inv [inv_intros]: "inc_inv k d \<Longrightarrow> inc_inv k (snd (Close_incident e d mid reason))"
  by (auto simp: Close_incident_def q_CloseIncident_def split: res.split if_splits
      intro: inc_inv_same [OF same_AddUpdate] inc_inv_close)

lemma CloseByFingerprint_inv [inv_intros]:
  "inc_inv k d \<Longrightarrow> inc_inv k (snd (CloseByFingerprint e d t f reason text))"
  by (auto simp: CloseByFingerprint_def q_CloseIncidentByFingerprint_def split: res.split if_splits
      intro: inc_inv_same [OF same_AddUpdate] inc_inv_close)

lemma close_all_inv: "inc_inv k d \<Longrightarrow> inc_inv k (snd (close_all e ids d))"
proof (induction ids arbitrary: d)
  case (Cons mid ids)
  obtain x d1 where "Close_incident e d mid ReasonPlanPaused = (x, d1)" by (metis surj_pair)
  with Close_incident_inv [OF Cons.prems, of e mid ReasonPlanPaused] Cons.IH [of d1]
  show ?case by (auto split: prod.split)
qed simp

lemma ClosePlanPaused_inv [inv_intros]: "inc_inv k d \<Longrightarrow> inc_inv k (snd (ClosePlanPaused e d))"
  by (auto simp: ClosePlanPaused_def close_all_inv split: res.split)

section \<open>The lifecycle as a step relation\<close>

text \<open>
  One step is one call on the lifecycle, in an environment of its own: any database call may fail in
  it. A step is labelled with the monitor whose duplicate check failed inside it, if one did: the code
  reads that failure as "none open" (\<open>faulted_lookup_duplicates\<close> below). A run counts the labels per monitor.
  \<open>OpenDetect\<close> is called without a monitor, as its one caller does (\<^verbatim>\<open>detect.go\<close>, the error-rate scan).
\<close>

inductive lifecycle_step :: "db \<Rightarrow> int option \<Rightarrow> db \<Rightarrow> bool" where
  Open_step: "lifecycle_step d (open_fault e mid) (snd (open_incident e d mid title sec frz))"
| Detect_step: "d_Monitor p = None \<Longrightarrow> lifecycle_step d None (snd (OpenDetect e d p))"
| Freeze_step: "lifecycle_step d None (FreezeOpenIncident e d mid)"
| Thaw_step: "lifecycle_step d None (snd (NotifyThawed e d pid))"
| Close_step: "lifecycle_step d None (snd (Close_incident e d mid reason))"
| Close_fp_step: "lifecycle_step d None (snd (CloseByFingerprint e d t f reason text))"
| Sweep_step: "lifecycle_step d None (snd (ClosePlanPaused e d))"

inductive lifecycle :: "db \<Rightarrow> (int \<Rightarrow> nat) \<Rightarrow> db \<Rightarrow> bool" where
  start: "lifecycle d (\<lambda>_. 0) d"
| more: "lifecycle d k d1 \<Longrightarrow> lifecycle_step d1 f d2 \<Longrightarrow> lifecycle d (bump f k) d2"

lemma bump_None [simp]: "bump None k = k"
  by (simp add: bump_def)

lemma lifecycle_step_inv: "lifecycle_step d f d' \<Longrightarrow> inc_inv k d \<Longrightarrow> inc_inv (bump f k) d'"
  by (induction rule: lifecycle_step.induct)
    (auto intro: inv_intros inc_inv_same [OF same_FreezeOpen] inc_inv_same [OF same_NotifyThawed])

lemma lifecycle_inv: "lifecycle d k d' \<Longrightarrow> inc_inv (\<lambda>_. 0) d \<Longrightarrow> inc_inv k d'"
  by (induction rule: lifecycle.induct) (auto intro: lifecycle_step_inv)

definition empty_db :: db where
  "empty_db = \<lparr>incidents = [], next_incident = 1, updates = [], slices = [], intervals = [], queue = [],
     next_queue = 1, attempt_log = [], channels = [], monitors = [], frozen_projects = [], plans = [],
     entitlements = [], facts = [], due = [], checks = [], alert_state = []\<rparr>"

definition quiet_env :: env where
  "quiet_env = \<lparr>fl = (\<lambda>_ _. False), now = 0, uid = ''u'', has_pgs = False, evidence = (\<lambda>_ _ _. None),
     unmarshal = (\<lambda>_ s. s)\<rparr>"

definition shop_monitor :: monitor_row where
  "shop_monitor = \<lparr>m_id = 7, m_tenant = 3, m_project = 4, m_kind = ''http'', m_monitor_name = ''shop'',
     m_target = ''https://shop'', m_paused = False, m_paused_by = '''', m_target_id = 9, m_interval = 60,
     m_grace = None, m_ping_token = None\<rparr>"

definition shop_channel :: channel_row where
  "shop_channel = \<lparr>c_id = 5, c_tenant = 3, c_project = 4, c_kind = ''email'', c_target = ''a@b'', c_notify = '''',
     c_muted = None, c_person = None\<rparr>"

definition shop_db :: db where
  "shop_db = empty_db\<lparr>monitors := [shop_monitor], channels := [shop_channel], plans := [(3, ''Pro'')]\<rparr>"

lemma inc_inv_fresh: "incidents d = [] \<Longrightarrow> inc_inv k d"
  by (simp add: inc_inv_def open_count_def open_key_count_def)

text \<open>C2. Open incidents stay unique, up to failed duplicate checks.

  Starting from a database with no incident, after any sequence of lifecycle calls in any order and
  with any database calls failing, a monitor has at most one open incident more than there were opens of it whose
  duplicate check (\<^verbatim>\<open>GetOpenIncident\<close>) failed, so at most one when none failed; a tenant
  has at most one open detector incident per fingerprint, whatever failed (a failed fingerprint check aborts the open);
  and incident ids are distinct.\<close>

theorem lifecycle_open_unique:
  assumes "incidents d = []" and "lifecycle d failed_checks d'"
  shows "length (filter (open_for mid) (incidents d')) \<le> 1 + failed_checks mid \<and>
         length (filter (\<lambda>r. i_monitor r = None \<and> open_fp t f r) (incidents d')) \<le> 1 \<and>
         distinct (map i_id (incidents d'))"
proof -
  have inv: "inc_inv failed_checks d'"
    by (rule lifecycle_inv [OF assms(2) inc_inv_fresh [OF assms(1)]])
  have "(\<lambda>r. i_monitor r = None \<and> open_fp t f r) =
      (\<lambda>r. (i_tenant r = t \<and> i_fp r = f \<and> i_monitor r = None) \<and> i_resolved r = None)"
    by (auto simp: open_fp_def)
  with inv show ?thesis
    by (simp add: inc_inv_def open_key_count_def open_count_def)
qed

definition flaky_env :: env where
  "flaky_env = quiet_env\<lparr>fl := (\<lambda>q _. q = ''GetOpenIncident'')\<rparr>"

text \<open>
  Two opens that succeed leave one open incident, and one whose duplicate check fails in between makes them two: the
  bound is reached.
\<close>

theorem lifecycle_open_unique_witness:
  "let d1 = snd (open_incident quiet_env shop_db 7 ''down'' 60 True);
       d2 = snd (open_incident flaky_env d1 7 ''down'' 60 True)
   in length (filter (open_for 7) (incidents d2)) = 2 \<and>
      length (filter (open_for 7) (incidents d2)) \<le> 1 + (bump (Some 7) (\<lambda>_. 0)) 7 \<and>
      length (filter (\<lambda>r. i_monitor r = None \<and> open_fp 3 0 r) (incidents d2)) \<le> 1 \<and>
      distinct (map i_id (incidents d2))"
  unfolding Let_def
proof (rule conjI)
  let ?d1 = "snd (open_incident quiet_env shop_db 7 ''down'' 60 True)"
  let ?d2 = "snd (open_incident flaky_env ?d1 7 ''down'' 60 True)"
  show "length (filter (open_for 7) (incidents ?d2)) = 2"
    by code_simp
  have one: "lifecycle_step shop_db None ?d1"
    using Open_step [of shop_db quiet_env 7] by (simp add: open_fault_def quiet_env_def)
  have two: "lifecycle_step ?d1 (Some 7) ?d2"
    using Open_step [of ?d1 flaky_env 7] by (simp add: open_fault_def flaky_env_def)
  show "length (filter (open_for 7) (incidents ?d2)) \<le> 1 + (bump (Some 7) (\<lambda>_. 0)) 7 \<and>
      length (filter (\<lambda>r. i_monitor r = None \<and> open_fp 3 0 r) (incidents ?d2)) \<le> 1 \<and>
      distinct (map i_id (incidents ?d2))"
  proof (rule lifecycle_open_unique [of shop_db "bump (Some 7) (\<lambda>_. 0)"])
    show "incidents shop_db = []" by (simp add: shop_db_def empty_db_def)
    show "lifecycle shop_db (bump (Some 7) (\<lambda>_. 0)) ?d2"
      using lifecycle.more [OF lifecycle.more [OF lifecycle.start one] two] unfolding bump_None .
  qed
qed

section \<open>Replays, faults and the sweep\<close>

lemma filter_unmark_hd:
  assumes "map unmark rs = map unmark rs'" and "\<And>r. P (unmark r) = P r"
  shows "map i_id (filter P rs) = map i_id (filter P rs')"
  using assms(1)
proof (induction rs arbitrary: rs')
  case (Cons r rs)
  then obtain r' rs2 where rs': "rs' = r' # rs2" "unmark r = unmark r'" "map unmark rs = map unmark rs2"
    by (auto simp: Cons_eq_map_conv)
  then have "P r = P r'" "i_id r = i_id r'"
    by (metis assms(2), metis unmark_fields(1))
  with Cons.IH [OF rs'(3)] rs'(1) show ?case by simp
qed simp

lemma open_ids_same:
  assumes "same_incidents d d'"
  shows "map i_id (filter (open_for m) (incidents d')) = map i_id (filter (open_for m) (incidents d))"
  using assms by (intro filter_unmark_hd) (auto simp: same_incidents_def open_for_def)

lemma GetOpen_Row_ids:
  assumes "\<not> fl e ''GetOpenIncident'' [m]" and "map i_id (filter (open_for m) (incidents d)) = i # is"
  shows "\<exists>r. q_GetOpenIncident e d m = Row r \<and> i_id r = i"
  using assms by (auto simp: q_GetOpenIncident_def Cons_eq_map_conv map_eq_Cons_conv)

lemma open_incident_created:
  assumes "open_incident e d m title sec frz = (Inr (i, True), d')"
  obtains mon row d1 where "q_GetMonitorForIncident e d m = Row mon"
    and "q_OpenIncident e d (m_tenant mon) (m_project mon) (Some m) ''availability''
           (sint (fingerprint m ''availability'')) title ''down'' = Some (row, d1)"
    and "i = i_id row" and "same_incidents d1 d'"
    and "q_GetOpenIncident e d m = NoRows \<or> q_GetOpenIncident e d m = Fault"
proof -
  have miss: "q_GetOpenIncident e d m = NoRows \<or> q_GetOpenIncident e d m = Fault"
    using assms by (cases "q_GetOpenIncident e d m") (auto simp: open_incident_def)
  obtain mon where mon: "q_GetMonitorForIncident e d m = Row mon"
    using assms miss by (cases "q_GetMonitorForIncident e d m") (auto simp: open_incident_def)
  obtain row d1 where ins: "q_OpenIncident e d (m_tenant mon) (m_project mon) (Some m) ''availability''
           (sint (fingerprint m ''availability'')) title ''down'' = Some (row, d1)"
    using assms miss mon by (auto simp: open_incident_def Let_def split: option.splits)
  have "i = i_id row" and "same_incidents d1 d'"
    using assms miss mon ins
    by (auto simp: open_incident_def Let_def intro!: frame_steps same_refl)
  with mon ins miss show ?thesis using that by blast
qed

text \<open>Replaying an open changes nothing.

  When an open created incident i while the duplicate check answered, every later open of the same
  monitor whose duplicate check answers, whatever its title, cadence and clock, returns (i, not created) and leaves the
  database exactly as it is: no second row, no timeline entry, no notification.\<close>

theorem open_replay_no_op:
  assumes "open_incident e d m title sec frz = (Inr (i, True), d')"
    and "\<not> fl e ''GetOpenIncident'' [m]" and "\<not> fl e' ''GetOpenIncident'' [m]"
  shows "open_incident e' d' m title' sec' frz' = (Inr (i, False), d')"
proof -
  from assms(1) obtain mon :: monitor_row and row d1 where ins: "q_OpenIncident e d (m_tenant mon) (m_project mon) (Some m)
      ''availability'' (sint (fingerprint m ''availability'')) title ''down'' = Some (row, d1)"
    and i: "i = i_id row" and same: "same_incidents d1 d'"
    and miss: "q_GetOpenIncident e d m = NoRows \<or> q_GetOpenIncident e d m = Fault"
    by (rule open_incident_created)
  from miss assms(2) have "filter (open_for m) (incidents d) = []"
    by (auto simp: q_GetOpenIncident_def)
  then have "filter (open_for m) (incidents d1) = [row]"
    using insert_shape [OF ins] by (simp add: open_for_def)
  then have "map i_id (filter (open_for m) (incidents d')) = [i]"
    using open_ids_same [OF same] i by simp
  from GetOpen_Row_ids [OF assms(3) this] show ?thesis
    by (auto simp: open_incident_def)
qed

theorem open_replay_no_op_witness:
  "open_incident quiet_env (snd (open_incident quiet_env shop_db 7 ''down'' 60 True)) 7 ''again'' 0 False =
     (Inr (1, False), snd (open_incident quiet_env shop_db 7 ''down'' 60 True))"
proof (rule open_replay_no_op)
  have "fst (open_incident quiet_env shop_db 7 ''down'' 60 True) = Inr (1, True)"
    by code_simp
  then show "open_incident quiet_env shop_db 7 ''down'' 60 True =
      (Inr (1, True), snd (open_incident quiet_env shop_db 7 ''down'' 60 True))"
    by (metis prod.collapse)
qed (simp_all add: quiet_env_def)

text \<open>A faulted duplicate check opens a second incident.

  The code treats any error of the duplicate check as "none open": whenever that one call faults
  while the monitor lookup and the insert succeed, the open creates a fresh incident for a monitor that already has one open.\<close>

theorem faulted_lookup_duplicates:
  assumes "fl e ''GetOpenIncident'' [m]"
    and "q_GetMonitorForIncident e d m = Row mon"
    and "\<not> fl e ''OpenIncident'' [m_tenant mon, sint (fingerprint m ''availability'')]"
  shows "fst (open_incident e d m title sec frz) = Inr (next_incident d, True) \<and>
         length (filter (open_for m) (incidents (snd (open_incident e d m title sec frz)))) =
           length (filter (open_for m) (incidents d)) + 1"
proof -
  obtain row d1 where ins: "q_OpenIncident e d (m_tenant mon) (m_project mon) (Some m)
      ''availability'' (sint (fingerprint m ''availability'')) title ''down'' = Some (row, d1)"
    using assms(3) by (simp add: q_OpenIncident_def Let_def)
  have miss: "q_GetOpenIncident e d m = Fault"
    using assms(1) by (simp add: q_GetOpenIncident_def)
  have res: "fst (open_incident e d m title sec frz) = Inr (i_id row, True)"
    by (simp add: open_incident_def miss assms(2) ins Let_def)
  have "same_incidents d1 (snd (open_incident e d m title sec frz))"
    by (auto simp: open_incident_def miss assms(2) ins Let_def intro!: frame_steps same_refl)
  from open_ids_same [OF this, of m]
  have "length (filter (open_for m) (incidents (snd (open_incident e d m title sec frz)))) =
      length (filter (open_for m) (incidents d1))"
    by (metis length_map)
  with res show ?thesis
    using insert_shape [OF ins] by (simp add: open_for_def)
qed

theorem faulted_lookup_duplicates_witness:
  "let d1 = snd (open_incident quiet_env shop_db 7 ''down'' 60 True)
   in fst (open_incident flaky_env d1 7 ''down'' 60 True) = Inr (next_incident d1, True) \<and>
      length (filter (open_for 7) (incidents (snd (open_incident flaky_env d1 7 ''down'' 60 True)))) =
        length (filter (open_for 7) (incidents d1)) + 1"
  unfolding Let_def
proof (rule faulted_lookup_duplicates [of _ _ _ shop_monitor])
  show "q_GetMonitorForIncident flaky_env (snd (open_incident quiet_env shop_db 7 ''down'' 60 True)) 7 =
      Row shop_monitor"
    by code_simp
qed (simp_all add: flaky_env_def)

section \<open>Closing\<close>

definition close_fails :: "env \<Rightarrow> int \<Rightarrow> bool" where
  "close_fails e mid \<longleftrightarrow> fl e ''GetOpenIncident'' [mid] \<or> fl e ''CloseIncident'' [mid]"

lemma AddUpdate_incidents [simp]: "incidents (q_AddIncidentUpdate e d i k t) = incidents d"
  by (simp add: q_AddIncidentUpdate_def)

lemma AddUpdate_monitors [simp]: "monitors (q_AddIncidentUpdate e d i k t) = monitors d"
  by (simp add: q_AddIncidentUpdate_def)

lemma close_nothing:
  "filter (open_for mid) rs = [] \<Longrightarrow> map (\<lambda>r. if open_for mid r then close_row e reason r else r) rs = rs"
  by (induction rs) (auto split: if_splits)

lemma Close_incident_rows:
  "incidents (snd (Close_incident e d mid reason)) =
     (if close_fails e mid then incidents d
      else map (\<lambda>r. if open_for mid r then close_row e reason r else r) (incidents d))"
proof (cases "q_GetOpenIncident e d mid")
  case NoRows
  then have "filter (open_for mid) (incidents d) = []" by (simp add: q_GetOpenIncident_def split: if_splits)
  with NoRows show ?thesis by (simp add: Close_incident_def close_nothing)
next
  case Fault
  then show ?thesis by (auto simp: Close_incident_def close_fails_def q_GetOpenIncident_def split: if_splits)
next
  case (Row r)
  then have "\<not> fl e ''GetOpenIncident'' [mid]" by (auto simp: q_GetOpenIncident_def)
  with Row show ?thesis by (simp add: Close_incident_def close_fails_def q_CloseIncident_def)
qed

lemma filter_close_other:
  "m \<noteq> mid \<Longrightarrow> filter (open_for m) (map (\<lambda>r. if open_for mid r then close_row e reason r else r) rs) =
     filter (open_for m) rs"
  by (induction rs) (auto simp: open_for_def close_row_def)

lemma Close_incident_open:
  "filter (open_for m) (incidents (snd (Close_incident e d mid reason))) =
     (if m = mid \<and> \<not> close_fails e mid then [] else filter (open_for m) (incidents d))"
  by (simp add: Close_incident_rows filter_close_other)

lemma close_all_open:
  "filter (open_for m) (incidents (snd (close_all e ids d))) =
     (if m \<in> set ids \<and> \<not> close_fails e m then [] else filter (open_for m) (incidents d))"
proof (induction ids arbitrary: d)
  case (Cons mid ids)
  obtain x d1 where 1: "Close_incident e d mid ReasonPlanPaused = (x, d1)" by (metis surj_pair)
  then have "snd (close_all e (mid # ids) d) = snd (close_all e ids d1)" by (simp split: prod.split)
  with Cons [of d1] Close_incident_open [of m e d mid ReasonPlanPaused] 1 show ?case
    by (cases "m = mid") auto
qed simp

text \<open>The plan sweep closes exactly what it must.

  After the sweep a monitor has no open incident left if it is paused by the plan and neither of its
  two calls failed, and keeps exactly the open incidents it had otherwise; a failing monitor never keeps the others from being closed.\<close>

theorem ClosePlanPaused_sweeps:
  assumes "\<not> fl e ''ListPlanPausedWithOpenIncident'' []"
  shows "filter (open_for m) (incidents (snd (ClosePlanPaused e d))) =
     (if (\<exists>mon \<in> set (monitors d). m_id mon = m \<and> m_paused mon \<and> m_paused_by mon = ''plan'') \<and>
         \<not> close_fails e m
      then [] else filter (open_for m) (incidents d))"
proof -
  obtain ids where ids: "q_ListPlanPausedWithOpenIncident e d = Row ids"
    and mem: "m \<in> set ids \<longleftrightarrow>
      (\<exists>mon \<in> set (monitors d). m_id mon = m \<and> m_paused mon \<and> m_paused_by mon = ''plan'') \<and>
      filter (open_for m) (incidents d) \<noteq> []"
    using assms by (force simp: q_ListPlanPausedWithOpenIncident_def filter_empty_conv)
  show ?thesis
    unfolding ClosePlanPaused_def ids using mem by (auto simp: close_all_open)
qed

theorem ClosePlanPaused_sweeps_witness:
  "let d = (snd (open_incident quiet_env shop_db 7 ''down'' 60 True))
             \<lparr>monitors := [shop_monitor\<lparr>m_paused := True, m_paused_by := ''plan''\<rparr>]\<rparr>
   in filter (open_for 7) (incidents (snd (ClosePlanPaused quiet_env d))) = []"
  unfolding Let_def
  by (subst ClosePlanPaused_sweeps) (simp_all add: quiet_env_def close_fails_def shop_monitor_def)

end
