(* ===== verification/IncidentNotify.thy ===== *)
theory IncidentNotify
  imports IncidentLife
begin

text \<open>
  What the one notification path of \<^verbatim>\<open>incident.go\<close> promises: the messages it enqueues, as a list computed
  from the project's channels and the plan, and that replaying it is a no-op. The interface it relies on, a queue
  that ignores a key it already holds, is the locale \<open>idem_queue\<close>, interpreted on
  \<^verbatim>\<open>delivery.sql\<close>'s enqueue.
\<close>

section \<open>A queue with idempotency keys\<close>

locale idem_queue =
  fixes enq :: "'s \<Rightarrow> 'm \<Rightarrow> 's"
    and has :: "'s \<Rightarrow> 'k \<Rightarrow> bool"
    and key :: "'m \<Rightarrow> 'k"
    and ok :: "'m \<Rightarrow> bool"
  assumes has_enq: "has (enq s m) k \<longleftrightarrow> has s k \<or> (ok m \<and> key m = k)"
    and dup: "has s (key m) \<Longrightarrow> enq s m = s"
    and lost: "\<not> ok m \<Longrightarrow> enq s m = s"
begin

definition enq_all :: "'s \<Rightarrow> 'm list \<Rightarrow> 's" where
  "enq_all s ms = foldl enq s ms"

lemma enq_all_simps [simp]: "enq_all s [] = s" "enq_all s (m # ms) = enq_all (enq s m) ms"
  by (simp_all add: enq_all_def)

lemma enq_all_append: "enq_all s (ms @ ns) = enq_all (enq_all s ms) ns"
  by (simp add: enq_all_def)

lemma has_enq_all: "has (enq_all s ms) k \<longleftrightarrow> has s k \<or> (\<exists>m \<in> set ms. ok m \<and> key m = k)"
  by (induction ms arbitrary: s) (auto simp: has_enq)

lemma enq_all_settled:
  "(\<And>m. m \<in> set ms \<Longrightarrow> has s (key m) \<or> \<not> ok m) \<Longrightarrow> enq_all s ms = s"
proof (induction ms)
  case (Cons m ms)
  then have "enq s m = s" using dup lost by (metis list.set_intros(1))
  with Cons show ?case by simp
qed simp

lemma replay: "set ns \<subseteq> set ms \<Longrightarrow> enq_all (enq_all s ms) ns = enq_all s ms"
  by (rule enq_all_settled) (auto simp: has_enq_all)

end

record delivery_msg =
  dm_incident :: int
  dm_channel :: int
  dm_key :: string
  dm_class :: string
  dm_payload :: jobj
  dm_next :: time

definition enq_msg :: "env \<Rightarrow> int \<Rightarrow> db \<Rightarrow> delivery_msg \<Rightarrow> db" where
  "enq_msg e t d m =
     (case q_EnqueueDeliveryAt e d t (Some (dm_incident m)) (dm_channel m) (dm_key m) (dm_class m)
             (dm_payload m) (dm_next m) of
        Some d' \<Rightarrow> d' | None \<Rightarrow> d)"

definition takes :: "env \<Rightarrow> delivery_msg \<Rightarrow> bool" where
  "takes e m \<longleftrightarrow> \<not> fl e ''EnqueueDelivery'' [dm_channel m]"

interpretation dq: idem_queue "enq_msg e t" queue_has dm_key "takes e" for e t
  by unfold_locales
    (auto simp: enq_msg_def takes_def q_EnqueueDeliveryAt_def queue_has_def)

section \<open>The messages of one incident\<close>

definition opened_msg :: "env \<Rightarrow> notifySpec \<Rightarrow> channel_row \<Rightarrow> delivery_msg" where
  "opened_msg e n ch =
     \<lparr>dm_incident = n_incident n, dm_channel = c_id ch, dm_key = opened_key (n_incident n) (c_id ch),
      dm_class = ''page'', dm_payload = n_payload n, dm_next = now e\<rparr>"

definition followup_msg :: "env \<Rightarrow> notifySpec \<Rightarrow> jobj \<Rightarrow> channel_row \<Rightarrow> delivery_msg" where
  "followup_msg e n fu ch =
     \<lparr>dm_incident = n_incident n, dm_channel = c_id ch, dm_key = followup_key (n_incident n) (c_id ch),
      dm_class = ''followup'', dm_payload = fu, dm_next = Add (now e) FollowUpDelay\<rparr>"

definition paid :: "string \<Rightarrow> bool" where
  "paid plan \<longleftrightarrow> plan \<noteq> '''' \<and> plan \<noteq> ''Free''"

definition channel_msgs :: "env \<Rightarrow> notifySpec \<Rightarrow> string \<Rightarrow> channel_row \<Rightarrow> delivery_msg list" where
  "channel_msgs e n plan ch =
     (let s = Resolve (unmarshal e) (c_notify ch)
      in if \<not> n_wants n s then []
         else opened_msg e n ch #
           (case n_followup n of
              Some fu \<Rightarrow> if ResolveFollowUp s \<and> paid plan then [followup_msg e n fu ch] else []
            | None \<Rightarrow> []))"

definition incident_msgs :: "env \<Rightarrow> notifySpec \<Rightarrow> string \<Rightarrow> int list \<Rightarrow> channel_row list \<Rightarrow> delivery_msg list" where
  "incident_msgs e n plan muted chs =
     concat (map (channel_msgs e n plan) (filter (\<lambda>ch. c_id ch \<notin> set muted) chs))"

lemma notify_one_msgs:
  "notify_one e t n plan ch (d, sent) =
     (dq.enq_all e t d (channel_msgs e n plan ch),
      sent + (if n_wants n (Resolve (unmarshal e) (c_notify ch)) \<and> takes e (opened_msg e n ch) then 1 else 0))"
proof (cases "fl e ''EnqueueDelivery'' [c_id ch]")
  case True
  then have none: "q_EnqueueDelivery e d' t' i (c_id ch) k c p = None"
    "q_EnqueueDeliveryAt e d' t' i (c_id ch) k c p nx = None" for d' t' i k c p nx
    by (simp_all add: q_EnqueueDelivery_def q_EnqueueDeliveryAt_def)
  then show ?thesis
    using True
    by (simp add: notify_one_def channel_msgs_def opened_msg_def followup_msg_def enq_msg_def takes_def
        paid_def Let_def split: option.split)
next
  case False
  then obtain d1 where d1: "q_EnqueueDeliveryAt e d t (Some (n_incident n)) (c_id ch)
      (opened_key (n_incident n) (c_id ch)) ''page'' (n_payload n) (now e) = Some d1"
    by (cases "queue_has d (opened_key (n_incident n) (c_id ch))") (simp_all add: q_EnqueueDeliveryAt_def)
  have fu: "(case q_EnqueueDeliveryAt e d' t i c k cl p nx of None \<Rightarrow> (d', x) | Some d'' \<Rightarrow> (d'', x)) =
      ((case q_EnqueueDeliveryAt e d' t i c k cl p nx of None \<Rightarrow> d' | Some d'' \<Rightarrow> d''), x)"
    for d' i c k cl p nx and x :: nat
    by (simp split: option.split)
  show ?thesis
    using d1 False
    by (auto simp: notify_one_def channel_msgs_def opened_msg_def followup_msg_def enq_msg_def takes_def
        paid_def Let_def q_EnqueueDelivery_def fu split: option.split)
qed

lemma notify_loop_msgs:
  "fst (notify_loop e t n plan muted chs (d, sent)) = dq.enq_all e t d (incident_msgs e n plan muted chs)"
  by (induction chs arbitrary: d sent)
    (simp_all add: incident_msgs_def notify_one_msgs dq.enq_all_append)

lemma notify_loop_sent:
  "snd (notify_loop e t n plan muted chs (d, sent)) =
     sent + length (filter (\<lambda>ch. c_id ch \<notin> set muted \<and> n_wants n (Resolve (unmarshal e) (c_notify ch)) \<and>
                               takes e (opened_msg e n ch)) chs)"
  by (induction chs arbitrary: d sent) (simp_all add: notify_one_msgs)

text \<open>The plan and the muted set \<open>notifyChannels\<close> works with.\<close>

definition notify_plan :: "env \<Rightarrow> db \<Rightarrow> int \<Rightarrow> notifySpec \<Rightarrow> string" where
  "notify_plan e d t n =
     (case n_followup n of None \<Rightarrow> ''''
      | Some _ \<Rightarrow> (case q_GetTenantPlan e d t of Row p \<Rightarrow> p | _ \<Rightarrow> ''''))"

definition notify_msgs :: "env \<Rightarrow> db \<Rightarrow> int \<Rightarrow> int \<Rightarrow> notifySpec \<Rightarrow> delivery_msg list" where
  "notify_msgs e d t pid n =
     (if q_IsProjectFrozen e d pid = Row True then []
      else case q_ListChannelsByProject e d pid of
        Row chs \<Rightarrow> incident_msgs e n (notify_plan e d t n) (MutedByPlan e d t chs) chs
      | _ \<Rightarrow> [])"

lemma Touch_queue [simp]: "queue (q_TouchIncidentNotified e d i) = queue d"
  by (simp add: q_TouchIncidentNotified_def)

lemma notifyChannels_queue:
  "queue (notifyChannels e d t pid n) = queue (dq.enq_all e t d (notify_msgs e d t pid n))"
proof -
  have "fst (notify_loop e t n plan muted chs (d, 0)) = dq.enq_all e t d (incident_msgs e n plan muted chs)"
    for plan muted chs by (rule notify_loop_msgs)
  then show ?thesis
    by (auto simp: notifyChannels_def notify_msgs_def notify_plan_def Let_def split: res.split prod.split)
      (metis fst_conv)+
qed

section \<open>Keys\<close>

lemma opened_key_inj [simp]: "opened_key i c = opened_key j c' \<longleftrightarrow> i = j \<and> c = c'"
proof
  assume "opened_key i c = opened_key j c'"
  then have 1: "itoa i @ CHR '':'' # ''channel:'' @ itoa c @ '':opened'' =
      itoa j @ CHR '':'' # ''channel:'' @ itoa c' @ '':opened''"
    by (simp add: opened_key_def)
  from itoa_sep_unique [OF this] have "i = j" and "itoa c @ CHR '':'' # ''opened'' = itoa c' @ CHR '':'' # ''opened''"
    by simp_all
  with itoa_sep_unique [OF this(2)] show "i = j \<and> c = c'" by simp
qed simp

lemma followup_key_inj [simp]: "followup_key i c = followup_key j c' \<longleftrightarrow> i = j \<and> c = c'"
proof
  assume "followup_key i c = followup_key j c'"
  then have 1: "itoa i @ CHR '':'' # ''channel:'' @ itoa c @ '':followup'' =
      itoa j @ CHR '':'' # ''channel:'' @ itoa c' @ '':followup''"
    by (simp add: followup_key_def)
  from itoa_sep_unique [OF this]
  have "i = j" and "itoa c @ CHR '':'' # ''followup'' = itoa c' @ CHR '':'' # ''followup''"
    by simp_all
  with itoa_sep_unique [OF this(2)] show "i = j \<and> c = c'" by simp
qed simp

lemma opened_not_followup [simp]: "opened_key i c \<noteq> followup_key j c'" "followup_key j c' \<noteq> opened_key i c"
proof -
  show "opened_key i c \<noteq> followup_key j c'"
  proof
    assume "opened_key i c = followup_key j c'"
    then have "last (opened_key i c) = last (followup_key j c')" by simp
    then show False by (simp add: opened_key_def followup_key_def)
  qed
  then show "followup_key j c' \<noteq> opened_key i c" by metis
qed

section \<open>Who is told\<close>

lemma mem_incident_msgs:
  "m \<in> set (incident_msgs e n plan muted chs) \<longleftrightarrow>
     (\<exists>ch \<in> set chs. c_id ch \<notin> set muted \<and> m \<in> set (channel_msgs e n plan ch))"
  by (auto simp: incident_msgs_def)

lemma keys_of_channel:
  "m \<in> set (channel_msgs e n plan ch) \<Longrightarrow>
     dm_key m = opened_key (n_incident n) (c_id ch) \<or> dm_key m = followup_key (n_incident n) (c_id ch)"
  by (auto simp: channel_msgs_def opened_msg_def followup_msg_def Let_def split: if_splits option.splits)

lemma channel_msgs_page:
  "m \<in> set (channel_msgs e n plan c') \<and> dm_key m = opened_key (n_incident n) i \<longleftrightarrow>
     m = opened_msg e n c' \<and> c_id c' = i \<and> n_wants n (Resolve (unmarshal e) (c_notify c'))"
  by (auto simp: channel_msgs_def opened_msg_def followup_msg_def Let_def split: option.splits)

lemma incident_msgs_pages:
  "(\<exists>m \<in> set (incident_msgs e n plan muted chs). takes e m \<and> dm_key m = opened_key (n_incident n) i) \<longleftrightarrow>
     (\<exists>c' \<in> set chs. c_id c' \<notin> set muted \<and> takes e (opened_msg e n c') \<and> c_id c' = i \<and>
        n_wants n (Resolve (unmarshal e) (c_notify c')))"
  unfolding mem_incident_msgs Bex_def using channel_msgs_page by metis

text \<open>C15. Exactly the interested, unmuted channels of the project are told.

  Notifying an incident none of whose keys is queued yet puts a page for a channel of the project
  on the queue exactly when the project is not known to be frozen, the channel list and that channel's enqueue did not fail, the channel
  is not muted by the plan, and its own settings ask for this kind of alert.\<close>

theorem notify_pages_exactly:
  assumes "\<not> queue_has d (opened_key (n_incident n) (c_id ch))"
    and "ch \<in> set (channels d)" and "c_project ch = pid"
    and "\<forall>c' \<in> set (channels d). c_id c' = c_id ch \<longrightarrow> c' = ch"
  shows "queue_has (notifyChannels e d t pid n) (opened_key (n_incident n) (c_id ch)) \<longleftrightarrow>
     q_IsProjectFrozen e d pid \<noteq> Row True \<and> \<not> fl e ''ListChannelsByProject'' [pid] \<and>
     \<not> fl e ''EnqueueDelivery'' [c_id ch] \<and>
     c_id ch \<notin> set (MutedByPlan e d t (filter (\<lambda>c. c_project c = pid) (channels d))) \<and>
     n_wants n (Resolve (unmarshal e) (c_notify ch))"
proof -
  let ?k = "opened_key (n_incident n) (c_id ch)"
  have hq: "queue_has (notifyChannels e d t pid n) k \<longleftrightarrow> queue_has (dq.enq_all e t d (notify_msgs e d t pid n)) k" for k
    by (simp add: queue_has_def notifyChannels_queue)
  have "queue_has (notifyChannels e d t pid n) ?k \<longleftrightarrow>
      (\<exists>m \<in> set (notify_msgs e d t pid n). takes e m \<and> dm_key m = ?k)"
    using assms(1) by (simp add: hq dq.has_enq_all)
  also have "\<dots> \<longleftrightarrow> q_IsProjectFrozen e d pid \<noteq> Row True \<and> \<not> fl e ''ListChannelsByProject'' [pid] \<and>
      (\<exists>c' \<in> set (channels d). c_project c' = pid \<and>
         c_id c' \<notin> set (MutedByPlan e d t (filter (\<lambda>c. c_project c = pid) (channels d))) \<and>
         takes e (opened_msg e n c') \<and> c_id c' = c_id ch \<and> n_wants n (Resolve (unmarshal e) (c_notify c')))"
    by (cases "q_IsProjectFrozen e d pid = Row True"; cases "fl e ''ListChannelsByProject'' [pid]")
      (simp_all add: notify_msgs_def q_ListChannelsByProject_def incident_msgs_pages, blast)
  finally show ?thesis
    using assms(2,3,4) by (auto simp: takes_def opened_msg_def)
qed

definition shop_spec :: notifySpec where
  "shop_spec = downSpec 1 ''u'' ''down'' ''shop'' ''https://shop'' 0"

theorem notify_pages_exactly_witness:
  "queue_has (notifyChannels quiet_env shop_db 3 4 shop_spec) (opened_key 1 5)"
proof -
  have "queue_has (notifyChannels quiet_env shop_db 3 4 shop_spec)
      (opened_key (n_incident shop_spec) (c_id shop_channel))"
  proof (subst notify_pages_exactly)
    show "\<not> queue_has shop_db (opened_key (n_incident shop_spec) (c_id shop_channel))"
      by (simp add: queue_has_def shop_db_def empty_db_def)
    show "q_IsProjectFrozen quiet_env shop_db 4 \<noteq> Row True \<and> \<not> fl quiet_env ''ListChannelsByProject'' [4] \<and>
      \<not> fl quiet_env ''EnqueueDelivery'' [c_id shop_channel] \<and>
      c_id shop_channel \<notin> set (MutedByPlan quiet_env shop_db 3 (filter (\<lambda>c. c_project c = 4) (channels shop_db))) \<and>
      n_wants shop_spec (Resolve (unmarshal quiet_env) (c_notify shop_channel))"
      by code_simp
  qed (simp_all add: shop_db_def shop_channel_def)
  then show ?thesis by (simp add: shop_spec_def downSpec_def shop_channel_def Let_def)
qed

text \<open>A frozen project is told nothing.

  While the project reads as frozen, notifying changes nothing at all: nothing is queued and the
  incident is not marked notified, so the thaw finds it.\<close>

theorem frozen_delivers_nothing:
  assumes "pid \<in> set (frozen_projects d)" and "\<not> fl e ''IsProjectFrozen'' [pid]"
  shows "notifyChannels e d t pid n = d"
  using assms by (simp add: notifyChannels_def q_IsProjectFrozen_def)

theorem frozen_delivers_nothing_witness:
  "notifyChannels quiet_env (shop_db\<lparr>frozen_projects := [4]\<rparr>) 3 4 shop_spec = shop_db\<lparr>frozen_projects := [4]\<rparr>"
  by (rule frozen_delivers_nothing) (simp_all add: quiet_env_def)

section \<open>Replays\<close>

definition same_audience :: "db \<Rightarrow> db \<Rightarrow> bool" where
  "same_audience d d' \<longleftrightarrow>
     channels d' = channels d \<and> plans d' = plans d \<and> entitlements d' = entitlements d \<and>
     frozen_projects d' = frozen_projects d"

lemma aud_refl [simp]: "same_audience d d"
  by (simp add: same_audience_def)

lemma aud_enq: "same_audience d (enq_msg e t d m)"
  by (simp add: enq_msg_def q_EnqueueDeliveryAt_def same_audience_def)

lemma aud_enq_all: "same_audience d (dq.enq_all e t d ms)"
proof (induction ms arbitrary: d)
  case (Cons m ms)
  from Cons [of "enq_msg e t d m"] aud_enq [of d e t m] show ?case by (simp add: same_audience_def)
qed simp

lemma aud_notify: "same_audience d (notifyChannels e d t pid n)"
proof -
  have "same_audience d (fst (notify_loop e t n plan muted chs (d, 0)))" for plan muted chs
    by (simp add: notify_loop_msgs aud_enq_all)
  moreover have "same_audience d d' \<Longrightarrow> same_audience d (q_TouchIncidentNotified e d' i)" for d' i
    by (simp add: q_TouchIncidentNotified_def same_audience_def)
  ultimately show ?thesis
    by (auto simp: notifyChannels_def Let_def split: res.split prod.split) (metis fst_conv)+
qed

lemma MutedByPlan_audience:
  assumes "same_audience d d'"
  shows "MutedByPlan e d' t chs = MutedByPlan e d t chs"
proof -
  have "q_GetTenantPlan e d' = q_GetTenantPlan e d" "q_GetPlanEntitlement e d' = q_GetPlanEntitlement e d"
    using assms by (simp_all add: fun_eq_iff q_GetTenantPlan_def q_GetPlanEntitlement_def same_audience_def)
  then show ?thesis unfolding MutedByPlan_def by presburger
qed

lemma notify_msgs_audience:
  assumes "same_audience d d'"
  shows "notify_msgs e d' t pid n = notify_msgs e d t pid n"
proof -
  have "q_IsProjectFrozen e d' pid = q_IsProjectFrozen e d pid"
    "q_ListChannelsByProject e d' pid = q_ListChannelsByProject e d pid"
    "notify_plan e d' t n = notify_plan e d t n"
    using assms
    by (simp_all add: q_IsProjectFrozen_def q_ListChannelsByProject_def notify_plan_def q_GetTenantPlan_def
        same_audience_def split: option.split)
  moreover note MutedByPlan_audience [OF assms]
  ultimately show ?thesis unfolding notify_msgs_def by presburger
qed

text \<open>Neither the clock nor the fresh id decides whether a message is queued.\<close>

definition later :: "env \<Rightarrow> time \<Rightarrow> string \<Rightarrow> env" where
  "later e t u = e\<lparr>now := t, uid := u\<rparr>"

lemma later_simps [simp]: "fl (later e x u) = fl e" "unmarshal (later e x u) = unmarshal e"
  by (simp_all add: later_def)

lemma later_channel_keys:
  "map (\<lambda>m. (dm_key m, dm_channel m)) (channel_msgs (later e x u) n plan ch) =
   map (\<lambda>m. (dm_key m, dm_channel m)) (channel_msgs e n plan ch)"
  by (auto simp: channel_msgs_def opened_msg_def followup_msg_def Let_def split: option.split)

lemma later_incident_keys:
  "map (\<lambda>m. (dm_key m, dm_channel m)) (incident_msgs (later e x u) n plan muted chs) =
   map (\<lambda>m. (dm_key m, dm_channel m)) (incident_msgs e n plan muted chs)"
  unfolding incident_msgs_def map_concat map_map comp_def by (simp add: later_channel_keys)

lemma later_msgs:
  "map (\<lambda>m. (dm_key m, dm_channel m)) (notify_msgs (later e x u) d t pid n) =
   map (\<lambda>m. (dm_key m, dm_channel m)) (notify_msgs e d t pid n)"
proof -
  have "q_IsProjectFrozen (later e x u) d pid = q_IsProjectFrozen e d pid"
    and "q_ListChannelsByProject (later e x u) d pid = q_ListChannelsByProject e d pid"
    and tp: "q_GetTenantPlan (later e x u) = q_GetTenantPlan e"
    and pe: "q_GetPlanEntitlement (later e x u) = q_GetPlanEntitlement e"
    by (simp_all add: fun_eq_iff q_IsProjectFrozen_def q_ListChannelsByProject_def q_GetTenantPlan_def
        q_GetPlanEntitlement_def)
  moreover have "notify_plan (later e x u) d t n = notify_plan e d t n"
    unfolding notify_plan_def tp ..
  moreover have "MutedByPlan (later e x u) d t chs = MutedByPlan e d t chs" for chs
    unfolding MutedByPlan_def tp pe ..
  ultimately show ?thesis
    by (simp add: notify_msgs_def later_incident_keys split: res.split)
qed

text \<open>Replaying a notification is a no-op.

  Notifying the same incident again, at any later clock reading, leaves the delivery queue exactly as the first call left
  it, whatever the channels' settings, the plan, the mute list, and whichever calls failed the first time and still fail.\<close>

theorem notify_replay_no_op:
  "queue (notifyChannels (later e x u) (notifyChannels e d t pid n) t pid n) =
     queue (notifyChannels e d t pid n)"
proof -
  let ?d = "notifyChannels e d t pid n" and ?e = "later e x u"
  let ?ms = "notify_msgs e d t pid n" and ?ns = "notify_msgs ?e ?d t pid n"
  have "map (\<lambda>m. (dm_key m, dm_channel m)) ?ns = map (\<lambda>m. (dm_key m, dm_channel m)) ?ms"
    unfolding later_msgs notify_msgs_audience [OF aud_notify] ..
  then have sub: "set (map (\<lambda>m. (dm_key m, dm_channel m)) ?ns) = set (map (\<lambda>m. (dm_key m, dm_channel m)) ?ms)"
    by (rule arg_cong)
  have has: "queue_has ?d k \<longleftrightarrow> queue_has (dq.enq_all e t d ?ms) k" for k
    by (simp add: queue_has_def notifyChannels_queue)
  have "dq.enq_all ?e t ?d ?ns = ?d"
  proof (rule dq.enq_all_settled)
    fix m assume "m \<in> set ?ns"
    then have "(dm_key m, dm_channel m) \<in> set (map (\<lambda>m. (dm_key m, dm_channel m)) ?ns)"
      unfolding set_map by (rule imageI)
    then obtain m' where "m' \<in> set ?ms" "dm_key m' = dm_key m" "dm_channel m' = dm_channel m"
      unfolding sub by auto
    then show "queue_has ?d (dm_key m) \<or> \<not> takes ?e m"
      unfolding has dq.has_enq_all takes_def later_simps by metis
  qed
  then show ?thesis by (simp add: notifyChannels_queue [of ?e])
qed

section \<open>The telegram seats\<close>

text \<open>The first occurrences of a list, in order: who connected first.\<close>

primrec firsts :: "'a list \<Rightarrow> 'a list" where
  "firsts [] = []"
| "firsts (x # xs) = x # removeAll x (firsts xs)"

lemma set_firsts [simp]: "set (firsts xs) = set xs"
  by (induction xs) auto

lemma distinct_firsts [simp]: "distinct (firsts xs)"
  by (induction xs) (auto simp: distinct_removeAll)

definition roomless :: "bool \<Rightarrow> channel_row \<Rightarrow> bool" where
  "roomless rooms ch \<longleftrightarrow> c_person ch = None \<and> \<not> rooms"

definition seated :: "bool \<Rightarrow> channel_row list \<Rightarrow> int list" where
  "seated rooms chs = firsts (map seat_of (filter (\<lambda>ch. c_kind ch = ''telegram'' \<and> \<not> roomless rooms ch) chs))"

definition mute_rule :: "bool \<Rightarrow> int set \<Rightarrow> channel_row \<Rightarrow> bool" where
  "mute_rule rooms kept ch \<longleftrightarrow> c_kind ch = ''telegram'' \<and> (roomless rooms ch \<or> seat_of ch \<notin> kept)"

lemma muted_loop_set:
  assumes "length held \<le> nat seats"
  shows "set (muted_loop seats rooms chs muted held) = set muted \<union>
     c_id ` {ch \<in> set chs. mute_rule rooms (set held \<union>
        set (take (nat seats - length held) (filter (\<lambda>s. s \<notin> set held) (seated rooms chs)))) ch}"
  using assms
proof (induction chs arbitrary: muted held)
  case (Cons ch chs)
  consider (other) "c_kind ch \<noteq> ''telegram''" | (room) "c_kind ch = ''telegram''" "roomless rooms ch"
    | (known) "c_kind ch = ''telegram''" "\<not> roomless rooms ch" "seat_of ch \<in> set held"
    | (full) "c_kind ch = ''telegram''" "\<not> roomless rooms ch" "seat_of ch \<notin> set held" "seats \<le> int (length held)"
    | (fresh) "c_kind ch = ''telegram''" "\<not> roomless rooms ch" "seat_of ch \<notin> set held" "int (length held) < seats"
    by linarith
  then show ?case
  proof cases
    case other
    then have "seated rooms (ch # chs) = seated rooms chs" by (simp add: seated_def)
    with other Cons.IH [OF Cons.prems] show ?thesis by (auto simp: mute_rule_def)
  next
    case room
    then have "seated rooms (ch # chs) = seated rooms chs" by (simp add: seated_def)
    with room Cons.IH [OF Cons.prems, of "c_id ch # muted"] show ?thesis
      by (auto simp: mute_rule_def roomless_def)
  next
    case known
    then have eq: "filter (\<lambda>s. s \<notin> set held) (seated rooms (ch # chs)) = filter (\<lambda>s. s \<notin> set held) (seated rooms chs)"
      by (auto simp: seated_def removeAll_filter_not_eq intro: filter_cong)
    show ?thesis
      unfolding eq using known Cons.IH [OF Cons.prems] by (auto simp: mute_rule_def roomless_def Let_def)
  next
    case full
    then have zero: "nat seats - length held = 0" by linarith
    show ?thesis
      using full Cons.IH [OF Cons.prems, of "c_id ch # muted"] unfolding zero
      by (auto simp: mute_rule_def roomless_def Let_def)
  next
    case fresh
    have le: "length (seat_of ch # held) \<le> nat seats" using fresh by simp
    have eq: "filter (\<lambda>s. s \<notin> set held) (seated rooms (ch # chs)) =
        seat_of ch # filter (\<lambda>s. s \<notin> set (seat_of ch # held)) (seated rooms chs)"
      using fresh by (auto simp: seated_def removeAll_filter_not_eq intro: filter_cong)
    obtain k where k: "nat seats - length held = Suc k" "nat seats - length (seat_of ch # held) = k"
      using le by (metis Suc_diff_Suc Suc_le_lessD length_Cons)
    show ?thesis
      unfolding eq k(1)
      using fresh Cons.IH [OF le, of muted, unfolded k(2)] by (auto simp: mute_rule_def roomless_def Let_def)
  qed
qed simp

text \<open>The plan keeps the first seats connected.

  With channel ids distinct, the plan mutes a channel exactly when it is a Telegram channel that is a
  room the plan does not carry, or whose seat is not among the first \<open>seats\<close> distinct seats in
  connection order (a person is one seat however many channels they hold); at most \<open>seats\<close> seats are kept.\<close>

theorem mutedTelegram_keeps_first_seats:
  assumes "distinct (map c_id chs)" and "ch \<in> set chs"
  shows "c_id ch \<in> set (mutedTelegram chs seats rooms) \<longleftrightarrow>
     c_kind ch = ''telegram'' \<and>
     (c_person ch = None \<and> \<not> rooms \<or> seat_of ch \<notin> set (take (nat seats) (seated rooms chs)))"
proof -
  have "c_id ch \<in> set (mutedTelegram chs seats rooms) \<longleftrightarrow>
      c_id ch \<in> c_id ` {c \<in> set chs. mute_rule rooms (set (take (nat seats) (seated rooms chs))) c}"
    using muted_loop_set [of "[]" seats rooms chs "[]"] by (simp add: mutedTelegram_def)
  also have "\<dots> \<longleftrightarrow> mute_rule rooms (set (take (nat seats) (seated rooms chs))) ch"
    using assms by (auto simp: distinct_map inj_on_def)
  finally show ?thesis by (simp add: mute_rule_def roomless_def)
qed

theorem mutedTelegram_keeps_first_seats_witness:
  "let tg = (\<lambda>i p. shop_channel\<lparr>c_id := i, c_kind := ''telegram'', c_person := p\<rparr>);
       chs = [tg 1 (Some 10), tg 2 None, tg 3 (Some 10), tg 4 (Some 11)]
   in 4 \<in> set (mutedTelegram chs 1 False)"
  unfolding Let_def
  using mutedTelegram_keeps_first_seats [of
      "[shop_channel\<lparr>c_id := 1, c_kind := ''telegram'', c_person := Some 10\<rparr>,
        shop_channel\<lparr>c_id := 2, c_kind := ''telegram'', c_person := None\<rparr>,
        shop_channel\<lparr>c_id := 3, c_kind := ''telegram'', c_person := Some 10\<rparr>,
        shop_channel\<lparr>c_id := 4, c_kind := ''telegram'', c_person := Some 11\<rparr>]"
      "shop_channel\<lparr>c_id := 4, c_kind := ''telegram'', c_person := Some 11\<rparr>" 1 False]
  by (simp add: seated_def seat_of_def roomless_def)

end
