(* ===== verification/Deliver.thy ===== *)
theory Deliver
  imports Payload
begin

text \<open>
  The pure half of the delivery pipeline, \<^verbatim>\<open>back/internal/deliver/deliver.go\<close>: the retry delay, the
  classification of a send, the next attempt and the circuit breaker. The random source
  \<^verbatim>\<open>rand.Int64N\<close> is a parameter.
\<close>

definition maxAttempts :: int where "maxAttempts = 5"

type_synonym random = "int \<Rightarrow> int"

definition backoff :: "random \<Rightarrow> int \<Rightarrow> duration" where
  "backoff rnd attempt =
     (let attempt = (if attempt < 0 then 0 else attempt);
          attempt = (if attempt > 4 then 4 else attempt);
          base = push_bit (nat attempt) 1 * second;
          jitter = rnd (base div 2)
      in base + jitter)"

datatype send_outcome = OOK | ORetryable | OFatal

definition outcome_text :: "send_outcome \<Rightarrow> string" where
  "outcome_text oc = (case oc of OOK \<Rightarrow> ''ok'' | ORetryable \<Rightarrow> ''retriable'' | OFatal \<Rightarrow> ''fatal'')"

definition classifyError :: "int \<Rightarrow> send_outcome" where
  "classifyError statusCode =
     (if statusCode = 0 then ORetryable
      else if statusCode = 429 then ORetryable
      else if statusCode \<ge> 500 then ORetryable
      else if statusCode = 403 then OFatal
      else if statusCode \<ge> 400 then OFatal
      else OOK)"

definition nextTryAt :: "random \<Rightarrow> int \<Rightarrow> send_outcome \<Rightarrow> time \<Rightarrow> time" where
  "nextTryAt rnd attempt oc now =
     (if oc = OFatal \<or> attempt \<ge> maxAttempts then zero_time
      else if oc = OOK then zero_time
      else Add now (backoff rnd attempt))"

section \<open>The circuit breaker\<close>

definition breakerTimeout :: duration where "breakerTimeout = 5 * minute"

record breaker = failuresSince :: time

definition healthy :: breaker where "healthy = \<lparr>failuresSince = zero_time\<rparr>"

definition IsOpen :: "breaker \<Rightarrow> time \<Rightarrow> bool" where
  "IsOpen b now \<longleftrightarrow> \<not> IsZero (failuresSince b) \<and> Sub now (failuresSince b) \<ge> breakerTimeout"

definition RecordSuccess :: "breaker \<Rightarrow> breaker" where
  "RecordSuccess b = b\<lparr>failuresSince := zero_time\<rparr>"

definition RecordFailure :: "breaker \<Rightarrow> time \<Rightarrow> breaker" where
  "RecordFailure b now = (if IsZero (failuresSince b) then b\<lparr>failuresSince := now\<rparr> else b)"

section \<open>The retry delay\<close>

text \<open>What \<^verbatim>\<open>math/rand/v2\<close> documents of \<^verbatim>\<open>Int64N\<close>: a value of the half-open interval from 0.\<close>

definition fair_random :: "random \<Rightarrow> bool" where
  "fair_random rnd \<longleftrightarrow> (\<forall>n > 0. 0 \<le> rnd n \<and> rnd n < n)"

lemma fair_randomD: "fair_random rnd \<Longrightarrow> 0 < n \<Longrightarrow> 0 \<le> rnd n \<and> rnd n < n"
  by (simp add: fair_random_def)

definition retry_base :: "int \<Rightarrow> duration" where
  "retry_base attempt = 2 ^ nat (max 0 (min 4 attempt)) * second"

lemma retry_base_bounds: "second \<le> retry_base a" "retry_base a \<le> 16 * second"
proof -
  have "nat (max 0 (min 4 a)) \<le> 4" by linarith
  then have "(2::int) ^ nat (max 0 (min 4 a)) \<le> 2 ^ 4" by (intro power_increasing) auto
  then show "second \<le> retry_base a" "retry_base a \<le> 16 * second"
    by (simp_all add: retry_base_def second_def)
qed

lemma backoff_eq: "backoff rnd a = retry_base a + rnd (retry_base a div 2)"
proof -
  have "nat (if (if a < 0 then 0 else a) > 4 then 4 else (if a < 0 then 0 else a)) = nat (max 0 (min 4 a))"
    by auto
  then show ?thesis by (simp add: backoff_def Let_def push_bit_eq_mult retry_base_def)
qed

lemma jitter_bounds:
  assumes "fair_random rnd"
  shows "0 \<le> rnd (retry_base k div 2)" and "2 * rnd (retry_base k div 2) < retry_base k"
proof -
  have pos: "0 < retry_base k div 2" using retry_base_bounds(1) [of k] by (simp add: second_def)
  from fair_randomD [OF assms pos] show "0 \<le> rnd (retry_base k div 2)" by simp
  have "rnd (retry_base k div 2) < retry_base k div 2" using fair_randomD [OF assms pos] by simp
  then show "2 * rnd (retry_base k div 2) < retry_base k" by linarith
qed

text \<open>The retry delay is the doubled second with less than half of it again as jitter.

  For a random source that keeps its documented range, the delay after attempt n is at least 2^n seconds (n clipped to 0..4) and less than one and a half times that, so
  consecutive attempts up to the cap never swap order and the delay never reaches 24 seconds.\<close>

theorem backoff_window:
  assumes "fair_random rnd"
  shows "2 ^ nat (max 0 (min 4 a)) * second \<le> backoff rnd a \<and>
         2 * backoff rnd a < 3 * (2 ^ nat (max 0 (min 4 a)) * second) \<and>
         backoff rnd a < 24 * second \<and>
         (0 \<le> a \<and> a < 4 \<longrightarrow> backoff rnd a < backoff rnd (a + 1))"
proof -
  have base: "2 ^ nat (max 0 (min 4 a)) * second = retry_base a" by (simp add: retry_base_def)
  have lo: "retry_base k \<le> backoff rnd k" and hi: "2 * backoff rnd k < 3 * retry_base k" for k
    using jitter_bounds [OF assms, of k] by (simp_all add: backoff_eq)
  have next_base: "retry_base (a + 1) = 2 * retry_base a" if "0 \<le> a" "a < 4"
  proof -
    have "nat (max 0 (min 4 (a + 1))) = Suc (nat (max 0 (min 4 a)))" using that by auto
    then show ?thesis unfolding retry_base_def by (simp only: power_Suc mult.assoc)
  qed
  show ?thesis
    unfolding base using lo [of a] hi [of a] lo [of "a + 1"] next_base retry_base_bounds [of a] by force
qed

theorem backoff_window_witness:
  "2 ^ nat (max 0 (min 4 2)) * second \<le> backoff (\<lambda>n. n - 1) 2 \<and>
   2 * backoff (\<lambda>n. n - 1) 2 < 3 * (2 ^ nat (max 0 (min 4 2)) * second) \<and>
   backoff (\<lambda>n. n - 1) 2 < 24 * second \<and>
   backoff (\<lambda>n. n - 1) 2 < backoff (\<lambda>n. n - 1) (2 + 1)"
  using backoff_window [of "\<lambda>n. n - 1" 2] by (simp add: fair_random_def)

lemma nextTryAt_dead: "nextTryAt rnd attempt OFatal now = zero_time"
  by (simp add: nextTryAt_def)

lemma nextTryAt_future:
  assumes "fair_random rnd" and "attempt < maxAttempts"
  shows "now < nextTryAt rnd attempt ORetryable now"
proof -
  have "0 < backoff rnd attempt"
    using jitter_bounds(1) [OF assms(1), of attempt] retry_base_bounds(1) [of attempt]
    by (simp add: backoff_eq second_def)
  with assms(2) show ?thesis by (simp add: nextTryAt_def Add_def)
qed

lemma nextTryAt_exhausted: "maxAttempts \<le> attempt \<Longrightarrow> nextTryAt rnd attempt oc now = zero_time"
  by (simp add: nextTryAt_def)

section \<open>The breaker is its failure streak\<close>

datatype breaker_event = Succeeded | Failed time

fun breaker_step :: "breaker \<Rightarrow> breaker_event \<Rightarrow> breaker" where
  "breaker_step b Succeeded = RecordSuccess b"
| "breaker_step b (Failed t) = RecordFailure b t"

text \<open>The specification: the time of the first failure after the last success.\<close>

definition streak_start :: "breaker_event list \<Rightarrow> time option" where
  "streak_start h =
     (case takeWhile (\<lambda>ev. ev \<noteq> Succeeded) (rev h) of
        [] \<Rightarrow> None
      | fs \<Rightarrow> (case last fs of Failed t \<Rightarrow> Some t | Succeeded \<Rightarrow> None))"

lemma streak_start_snoc:
  "streak_start (h @ [Succeeded]) = None"
  "streak_start (h @ [Failed t]) = (case streak_start h of None \<Rightarrow> Some t | Some t0 \<Rightarrow> Some t0)"
proof -
  have no_succ: "last fs \<noteq> Succeeded" if "takeWhile (\<lambda>ev. ev \<noteq> Succeeded) xs = fs" "fs \<noteq> []" for fs xs
    using that set_takeWhileD [of "last fs" "\<lambda>ev. ev \<noteq> Succeeded" xs] by (metis last_in_set)
  show "streak_start (h @ [Succeeded]) = None" by (simp add: streak_start_def)
  show "streak_start (h @ [Failed t]) = (case streak_start h of None \<Rightarrow> Some t | Some t0 \<Rightarrow> Some t0)"
    using no_succ [OF refl, of "rev h"]
    by (auto simp: streak_start_def split: list.split breaker_event.split)
qed

lemma breaker_streak:
  assumes "\<forall>t. Failed t \<in> set h \<longrightarrow> t \<noteq> zero_time"
  shows "failuresSince (foldl breaker_step healthy h) = (case streak_start h of None \<Rightarrow> zero_time | Some t \<Rightarrow> t) \<and>
     (\<forall>t. streak_start h = Some t \<longrightarrow> t \<noteq> zero_time)"
  using assms
proof (induction h rule: rev_induct)
  case Nil
  then show ?case by (simp add: healthy_def streak_start_def)
next
  case (snoc ev h)
  then show ?case
    by (cases ev) (auto simp: streak_start_snoc RecordSuccess_def RecordFailure_def IsZero_def split: option.splits)
qed

text \<open>The breaker is open exactly when the running failure streak is five minutes old.

  After any history of sends at proper clock readings the breaker's state is the start of the
  current streak, the first failure since the last success, so it is open at a time exactly when
  such a streak exists and began at least five minutes before.\<close>

theorem breaker_is_streak:
  assumes "\<forall>t. Failed t \<in> set h \<longrightarrow> t \<noteq> zero_time"
  shows "IsOpen (foldl breaker_step healthy h) now \<longleftrightarrow>
     (\<exists>t0. streak_start h = Some t0 \<and> now - t0 \<ge> 5 * 60 * 1000000000)"
  using breaker_streak [OF assms]
  by (auto simp: IsOpen_def IsZero_def Sub_def breakerTimeout_def duration_defs max_int64_def min_int64_def
      split: option.splits)

theorem breaker_is_streak_witness:
  "IsOpen (foldl breaker_step healthy [Failed 1, Succeeded, Failed 5, Failed 9]) 300000000005 \<longleftrightarrow>
     (\<exists>t0. streak_start [Failed 1, Succeeded, Failed 5, Failed 9] = Some t0 \<and>
           300000000005 - t0 \<ge> 5 * 60 * 1000000000)"
  by (rule breaker_is_streak) (simp add: zero_time_def)

end
