(* ===== verification/Worker.thy ===== *)
theory Worker
  imports IncidentNotify Deliver
begin

text \<open>
  The delivery worker, \<^verbatim>\<open>back/internal/deliver/worker.go\<close>: one tick leases a batch of due queue rows and
  processes each: mutes, the freeze, the breaker's failover to email, the follow-up composed at
  send time, the send, and the row's fate. The registered channel senders are a parameter.
\<close>

section \<open>delivery.sql, the worker's side\<close>

definition upd_queue :: "int \<Rightarrow> (queue_row \<Rightarrow> queue_row) \<Rightarrow> db \<Rightarrow> db" where
  "upd_queue i f d = d\<lparr>queue := map (\<lambda>r. if q_id r = i then f r else r) (queue d)\<rparr>"

definition leasable :: "time \<Rightarrow> queue_row \<Rightarrow> bool" where
  "leasable t r \<longleftrightarrow> q_state r = ''pending'' \<and> q_leased r = None \<and> q_next r \<le> t"

definition lease_ids :: "time \<Rightarrow> nat \<Rightarrow> db \<Rightarrow> int list" where
  "lease_ids t limit d = map q_id (take limit (sort_key q_next (filter (leasable t) (queue d))))"

text \<open>
  The leased rows come back in table order; the statement promises none. No concurrent transaction
  holds a row lock while the worker's own statement runs.
\<close>

definition q_LeasePendingDeliveries ::
  "env \<Rightarrow> db \<Rightarrow> string \<Rightarrow> time \<Rightarrow> nat \<Rightarrow> (queue_row list \<times> db) option" where
  "q_LeasePendingDeliveries e d by until limit =
     (if fl e ''LeasePendingDeliveries'' [] then None
      else
        let ids = lease_ids (now e) limit d;
            lease = (\<lambda>r. r\<lparr>q_leased := Some by, q_lease_until := Some until\<rparr>)
        in Some (map lease (filter (\<lambda>r. q_id r \<in> set ids) (queue d)),
                 d\<lparr>queue := map (\<lambda>r. if q_id r \<in> set ids then lease r else r) (queue d)\<rparr>))"

definition q_GetChannelForDelivery :: "env \<Rightarrow> db \<Rightarrow> int \<Rightarrow> (channel_row \<times> bool) res" where
  "q_GetChannelForDelivery e d cid =
     (if fl e ''GetChannelForDelivery'' [cid] then Fault
      else one_row (map (\<lambda>c. (c, c_project c \<in> set (frozen_projects d)))
                      (filter (\<lambda>c. c_id c = cid) (channels d))))"

definition q_GetEmailChannelTarget :: "env \<Rightarrow> db \<Rightarrow> int \<Rightarrow> string res" where
  "q_GetEmailChannelTarget e d pid =
     (if fl e ''GetEmailChannelTarget'' [pid] then Fault
      else one_row (map c_target (filter (\<lambda>c. c_project c = pid \<and> c_kind c = ''email'') (channels d))))"

definition q_RecordDeliveryAttempt :: "env \<Rightarrow> db \<Rightarrow> int \<Rightarrow> string \<Rightarrow> string \<Rightarrow> db" where
  "q_RecordDeliveryAttempt e d i oc detail =
     (if fl e ''RecordDeliveryAttempt'' [i] then d
      else d\<lparr>attempt_log := attempt_log d @ [(i, oc, detail)]\<rparr>)"

definition sent_row :: "queue_row \<Rightarrow> queue_row" where
  "sent_row r = r\<lparr>q_state := ''sent'', q_leased := None, q_lease_until := None, q_attempts := q_attempts r + 1\<rparr>"

definition dead_row :: "string \<Rightarrow> queue_row \<Rightarrow> queue_row" where
  "dead_row reason r =
     r\<lparr>q_state := ''dead'', q_dead := Some reason, q_leased := None, q_lease_until := None,
       q_attempts := q_attempts r + 1\<rparr>"

definition retry_row :: "time \<Rightarrow> queue_row \<Rightarrow> queue_row" where
  "retry_row t r = r\<lparr>q_leased := None, q_lease_until := None, q_attempts := q_attempts r + 1, q_next := t\<rparr>"

definition q_MarkDelivered :: "env \<Rightarrow> db \<Rightarrow> int \<Rightarrow> db" where
  "q_MarkDelivered e d i = (if fl e ''MarkDelivered'' [i] then d else upd_queue i sent_row d)"

definition q_MarkDead :: "env \<Rightarrow> db \<Rightarrow> string \<Rightarrow> int \<Rightarrow> db" where
  "q_MarkDead e d reason i = (if fl e ''MarkDead'' [i] then d else upd_queue i (dead_row reason) d)"

definition q_Reschedule :: "env \<Rightarrow> db \<Rightarrow> time \<Rightarrow> int \<Rightarrow> db" where
  "q_Reschedule e d t i = (if fl e ''Reschedule'' [i] then d else upd_queue i (retry_row t) d)"

definition monitor_name_of :: "db \<Rightarrow> incident_row \<Rightarrow> string" where
  "monitor_name_of d r =
     (case i_monitor r of None \<Rightarrow> ''''
      | Some mid \<Rightarrow> (case filter (\<lambda>m. m_id m = mid) (monitors d) of [] \<Rightarrow> '''' | m # _ \<Rightarrow> m_monitor_name m))"

definition q_GetIncidentForFollowUp :: "env \<Rightarrow> db \<Rightarrow> int \<Rightarrow> (incident_row \<times> string) res" where
  "q_GetIncidentForFollowUp e d i =
     (if fl e ''GetIncidentForFollowUp'' [i] then Fault
      else one_row (map (\<lambda>r. (r, monitor_name_of d r)) (filter (\<lambda>r. i_id r = i) (incidents d))))"

section \<open>The worker\<close>

text \<open>
  What the worker is built with and what a send answers: the registered senders by kind, its node id,
  the random source, and the clock after a send.
\<close>

record worker =
  senders :: "string \<Rightarrow> (string \<Rightarrow> AlertPayload \<Rightarrow> send_result) option"
  nodeID :: string
  rnd :: random
  sent_at :: time

type_synonym breakers = "int \<rightharpoonup> breaker"

definition getBreaker :: "breakers \<Rightarrow> int \<Rightarrow> breaker \<times> breakers" where
  "getBreaker bs cid =
     (case bs cid of Some b \<Rightarrow> (b, bs) | None \<Rightarrow> (healthy, bs(cid \<mapsto> healthy)))"

text \<open>
  \<^verbatim>\<open>int(d.Minutes())\<close>: truncated towards zero. (The float64 of \<^verbatim>\<open>Minutes\<close> is exact enough for every
  outage under 2^17 minutes.)
\<close>

definition whole_minutes :: "duration \<Rightarrow> int" where
  "whole_minutes d = (if d < 0 then - ((- d) div minute) else d div minute)"

definition downForLine :: "time \<Rightarrow> time \<Rightarrow> string" where
  "downForLine since to =
     (let mins = whole_minutes (Sub to since);
          span = fmt_clock since @ '' to '' @ fmt_clock to @ '' UTC''
      in if mins < 1 then ''Down for under a minute, '' @ span @ ''.''
         else if mins = 1 then ''Down for 1 minute, '' @ span @ ''.''
         else ''Down for '' @ itoa mins @ '' minutes, '' @ span @ ''.'')"

definition em_dash :: string where "em_dash = [CHR 0xE2, CHR 0x80, CHR 0x94]"

text \<open>The follow-up, composed at send time: the reason it goes dead, or its payload.\<close>

definition compose_followup :: "env \<Rightarrow> db \<Rightarrow> queue_row \<Rightarrow> AlertPayload \<Rightarrow> string + AlertPayload" where
  "compose_followup e d item payload =
     (case q_incident item of
        None \<Rightarrow> Inl ''followup without incident''
      | Some iid \<Rightarrow>
          (case q_GetIncidentForFollowUp e d iid of
             Row (inc, mname) \<Rightarrow>
               if i_reason inc = Some ''plan_paused'' then Inl ''closed_unmeasured''
               else
                 let name = MonitorName payload;
                     name = (if name = '''' then mname else name)
                 in if i_status inc = ''ok'' then
                      let payload = payload\<lparr>Title := name @ '' recovered '' @ em_dash @ '' it is back up'',
                                            ap_Status := ''ok'', Buttons := False\<rparr>
                      in Inr (case i_resolved inc of
                                Some r \<Rightarrow> payload\<lparr>Summary := downForLine (i_detected inc) r\<rparr>
                              | None \<Rightarrow> payload)
                    else Inr (payload\<lparr>Title := name @ '' is still down after 15 minutes'', ap_Status := ''down''\<rparr>)
           | _ \<Rightarrow> Inl ''followup: incident not found''))"

definition payload_for :: "queue_row \<Rightarrow> channel_row \<Rightarrow> string \<Rightarrow> AlertPayload" where
  "payload_for item ch kind =
     (let payload = (payload_of_obj (q_payload item))\<lparr>Class := q_class item\<rparr>
      in if kind = ''telegram''
         then payload\<lparr>Buttons := True, Group := (c_person ch = None)\<rparr> else payload)"

text \<open>The end of \<^verbatim>\<open>processItem\<close>: what a send's answer does to the row and the breaker.\<close>

definition settle ::
  "env \<Rightarrow> worker \<Rightarrow> queue_row \<Rightarrow> send_result \<Rightarrow> breaker \<Rightarrow> db \<Rightarrow> breaker \<times> db" where
  "settle e w item answer b d =
     (let (oc, detail) =
            (case answer of
               SendErr err \<Rightarrow> (ORetryable, err)
             | Sent code \<Rightarrow> (classifyError code, ''HTTP '' @ itoa code));
          d = q_RecordDeliveryAttempt e d (q_id item) (outcome_text oc) detail;
          attempt = q_attempts item + 1
      in case oc of
           OOK \<Rightarrow> (RecordSuccess b, q_MarkDelivered e d (q_id item))
         | OFatal \<Rightarrow> (RecordFailure b (sent_at w), q_MarkDead e d detail (q_id item))
         | ORetryable \<Rightarrow>
             (let b = RecordFailure b (sent_at w);
                  nextTry = nextTryAt (rnd w) attempt oc (sent_at w)
              in if IsZero nextTry then (b, q_MarkDead e d ''max retries exceeded'' (q_id item))
                 else (b, q_Reschedule e d nextTry (q_id item))))"

text \<open>The route a delivery takes: the kind and target, or the reason it goes dead.\<close>

definition route :: "env \<Rightarrow> db \<Rightarrow> channel_row \<Rightarrow> breaker \<Rightarrow> string + string \<times> string" where
  "route e d ch b =
     (if IsOpen b (now e) \<and> c_kind ch \<noteq> ''email'' then
        (case q_GetEmailChannelTarget e d (c_project ch) of
           Row t \<Rightarrow> if t \<noteq> '''' then Inr (''email'', t) else Inl ''no email channel to fail over to''
         | _ \<Rightarrow> Inl ''no email channel to fail over to'')
      else Inr (c_kind ch, c_target ch))"

definition muted_now :: "env \<Rightarrow> channel_row \<Rightarrow> bool" where
  "muted_now e ch = (case c_muted ch of Some u \<Rightarrow> now e < u | None \<Rightarrow> False)"

definition processItem :: "env \<Rightarrow> worker \<Rightarrow> queue_row \<Rightarrow> breakers \<times> db \<Rightarrow> breakers \<times> db" where
  "processItem e w item st =
     (case st of (bs, d) \<Rightarrow>
      let dead = (\<lambda>reason. q_MarkDead e d reason (q_id item)) in
      case q_GetChannelForDelivery e d (q_channel item) of
        Row (ch, frozen) \<Rightarrow>
          if frozen \<and> q_class item \<noteq> ''test'' then (bs, dead ''project_frozen'')
          else
            let (b, bs) = getBreaker bs (q_channel item) in
            (case route e d ch b of
               Inl reason \<Rightarrow> (bs, dead reason)
             | Inr (kind, target) \<Rightarrow>
                 (case senders w kind of
                    None \<Rightarrow> (bs, dead (''no sender for kind '' @ kind))
                  | Some send \<Rightarrow>
                      if muted_now e ch
                      then (bs, q_Reschedule e d (the (c_muted ch)) (q_id item))
                      else
                        (case (if q_class item = ''followup''
                               then compose_followup e d item (payload_for item ch kind)
                               else Inr (payload_for item ch kind)) of
                           Inl reason \<Rightarrow> (bs, dead reason)
                         | Inr payload \<Rightarrow>
                             (let (b, d) = settle e w item (send target payload) b d
                              in (bs(q_channel item \<mapsto> b), d)))))
      | _ \<Rightarrow> (bs, dead ''channel not found''))"

definition Tick :: "env \<Rightarrow> worker \<Rightarrow> breakers \<times> db \<Rightarrow> breakers \<times> db" where
  "Tick e w st =
     (case st of (bs, d) \<Rightarrow>
      case q_LeasePendingDeliveries e d (nodeID w) (Add (now e) minute) 20 of
        None \<Rightarrow> st
      | Some (items, d) \<Rightarrow> fold (processItem e w) items (bs, d))"

end
