(* ===== verification/WorkerLife.thy ===== *)
theory WorkerLife
  imports Worker
begin

text \<open>
  What the delivery worker promises: every leased row gets exactly one fate, no row is ever sent more
  than \<open>maxAttempts\<close> times, two leases never hand out the same row; and what it does not: a row
  whose worker died while holding it is never handed out again.
\<close>

section \<open>The fate of one item\<close>

text \<open>
  What one call of \<open>processItem\<close> may do to its row; the flag says whether a send happened.
\<close>

inductive fate :: "env \<Rightarrow> worker \<Rightarrow> queue_row \<Rightarrow> bool \<Rightarrow> (queue_row \<Rightarrow> queue_row) \<Rightarrow> bool" where
  fate_dead: "fate e w item s (dead_row reason)"
| fate_sent: "fate e w item True sent_row"
| fate_retry: "q_attempts item + 1 < maxAttempts \<Longrightarrow>
     t = Add (sent_at w) (backoff (rnd w) (q_attempts item + 1)) \<Longrightarrow> fate e w item True (retry_row t)"
| fate_defer: "now e < u \<Longrightarrow> fate e w item False (retry_row u)"

inductive_cases fate_cases: "fate e w item s f"

definition writes_ok :: "env \<Rightarrow> int \<Rightarrow> bool" where
  "writes_ok e i \<longleftrightarrow>
     \<not> fl e ''MarkDelivered'' [i] \<and> \<not> fl e ''MarkDead'' [i] \<and> \<not> fl e ''Reschedule'' [i]"

text \<open>The part of the database an item's processing may change, and how.\<close>

definition touched :: "env \<Rightarrow> queue_row \<Rightarrow> (queue_row \<Rightarrow> queue_row) \<Rightarrow> bool \<Rightarrow> db \<Rightarrow> db \<Rightarrow> bool" where
  "touched e item f sent d d' \<longleftrightarrow>
     (queue d' = queue (upd_queue (q_id item) f d) \<or> \<not> writes_ok e (q_id item) \<and> queue d' = queue d) \<and>
     (if sent \<and> \<not> fl e ''RecordDeliveryAttempt'' [q_id item]
      then (\<exists>oc detail. attempt_log d' = attempt_log d @ [(q_id item, oc, detail)])
      else attempt_log d' = attempt_log d) \<and>
     next_queue d' = next_queue d"

lemma touched_dead: "touched e item (dead_row reason) False d (q_MarkDead e d reason (q_id item))"
  by (simp add: touched_def q_MarkDead_def writes_ok_def upd_queue_def)

lemma touched_defer: "touched e item (retry_row t) False d (q_Reschedule e d t (q_id item))"
  by (simp add: touched_def q_Reschedule_def writes_ok_def upd_queue_def)

lemmas write_defs = q_MarkDelivered_def q_MarkDead_def q_Reschedule_def q_RecordDeliveryAttempt_def
  upd_queue_def writes_ok_def

lemma touched_after_send:
  "touched e item sent_row True d (q_MarkDelivered e (q_RecordDeliveryAttempt e d (q_id item) oc detail) (q_id item))"
  "touched e item (dead_row reason) True d
     (q_MarkDead e (q_RecordDeliveryAttempt e d (q_id item) oc detail) reason (q_id item))"
  "touched e item (retry_row t) True d
     (q_Reschedule e (q_RecordDeliveryAttempt e d (q_id item) oc detail) t (q_id item))"
  by (simp_all add: touched_def write_defs)

lemma settle_fate:
  "\<exists>f. fate e w item True f \<and> touched e item f True d (snd (settle e w item answer b d))"
proof -
  obtain oc detail where od: "(case answer of SendErr err \<Rightarrow> (ORetryable, err)
      | Sent code \<Rightarrow> (classifyError code, ''HTTP '' @ itoa code)) = (oc, detail)"
    by (metis surj_pair)
  let ?t = "nextTryAt (rnd w) (q_attempts item + 1) ORetryable (sent_at w)"
  show ?thesis
  proof (cases oc)
    case OOK
    then show ?thesis
      using fate_sent touched_after_send(1) by (fastforce simp: settle_def od Let_def)
  next
    case OFatal
    then show ?thesis
      using fate_dead touched_after_send(2) by (fastforce simp: settle_def od Let_def)
  next
    case ORetryable
    show ?thesis
    proof (cases "IsZero ?t")
      case True
      with ORetryable show ?thesis
        using fate_dead touched_after_send(2) by (fastforce simp: settle_def od Let_def)
    next
      case False
      then have "q_attempts item + 1 < maxAttempts"
        and "?t = Add (sent_at w) (backoff (rnd w) (q_attempts item + 1))"
        by (auto simp: nextTryAt_def IsZero_def split: if_splits)
      from fate_retry [OF this] show ?thesis
        using ORetryable False touched_after_send(3) by (fastforce simp: settle_def od Let_def)
    qed
  qed
qed

lemma processItem_fate:
  "\<exists>s f. fate e w item s f \<and> touched e item f s d (snd (processItem e w item (bs, d)))"
proof -
  have dead: "\<exists>s f. fate e w item s f \<and> touched e item f s d (q_MarkDead e d reason (q_id item))" for reason
    using fate_dead touched_dead by blast
  show ?thesis
  proof (cases "q_GetChannelForDelivery e d (q_channel item)")
    case (Row p)
    obtain ch frozen where p: "p = (ch, frozen)" by (cases p)
    obtain b bs1 where gb: "getBreaker bs (q_channel item) = (b, bs1)" by (metis surj_pair)
    note base = processItem_def Let_def Row p gb
    show ?thesis
    proof (cases "frozen \<and> q_class item \<noteq> ''test''")
      case False
      show ?thesis
      proof (cases "route e d ch b")
        case (Inr kt)
        obtain kind target where kt: "kt = (kind, target)" by (cases kt)
        show ?thesis
        proof (cases "senders w kind")
          case (Some send)
          show ?thesis
          proof (cases "muted_now e ch")
            case True
            then have "fate e w item False (retry_row (the (c_muted ch)))"
              by (auto simp: muted_now_def split: option.splits intro: fate_defer)
            then show ?thesis
              using False Inr kt Some True touched_defer by (fastforce simp: base)
          next
            case unmuted: False
            let ?p = "if q_class item = ''followup'' then compose_followup e d item (payload_for item ch kind)
                      else Inr (payload_for item ch kind)"
            show ?thesis
            proof (cases ?p)
              case (Inl reason)
              then show ?thesis using False Inr kt Some unmuted dead by (simp add: base)
            next
              case pay: (Inr payload)
              have "snd (processItem e w item (bs, d)) = snd (settle e w item (send target payload) b d)"
                using False Inr kt Some unmuted pay by (auto simp: base split: prod.split)
              then show ?thesis using settle_fate by metis
            qed
          qed
        qed (use False Inr kt dead in \<open>simp add: base\<close>)
      qed (use False dead in \<open>simp add: base\<close>)
    qed (use dead in \<open>simp add: base\<close>)
  qed (use dead in \<open>simp_all add: processItem_def\<close>)
qed

text \<open>A fate keeps a row's identity and ends or hands back the lease.\<close>

lemma fate_row:
  assumes "fate e w item s f"
  shows "q_id (f r) = q_id r" and "q_leased (f r) = None" and "q_attempts (f r) = q_attempts r + 1"
    and "q_key (f r) = q_key r"
  using assms by (auto elim!: fate_cases simp: sent_row_def dead_row_def retry_row_def)

lemma fate_outcome:
  assumes "fate e w item s f" and "fair_random (rnd w)" and "now e \<le> sent_at w" and "q_state r = ''pending''"
  shows "q_state (f r) = ''sent'' \<or> q_state (f r) = ''dead'' \<and> q_dead (f r) \<noteq> None \<or>
         q_state (f r) = ''pending'' \<and> now e < q_next (f r)"
proof -
  have "now e < Add (sent_at w) (backoff (rnd w) (q_attempts item + 1))" if "q_attempts item + 1 < maxAttempts"
    using nextTryAt_future [OF assms(2) that, of "sent_at w"] that assms(3) by (simp add: nextTryAt_def)
  with assms(1,4) show ?thesis
    by (auto elim!: fate_cases simp: sent_row_def dead_row_def retry_row_def)
qed

text \<open>C17. A leased delivery is settled exactly once and never lost.

  Processing a leased pending row, when the final write of its row succeeds, leaves it unleased with one attempt more, and
  either sent, or dead with a reason, or pending with its next try in the future. Whatever the
  channel, the mutes, the breaker and the sender's answer, every other row is untouched.\<close>

theorem processItem_settles_the_row:
  assumes "fair_random (rnd w)" and "now e \<le> sent_at w" and "writes_ok e (q_id item)"
    and "item \<in> set (queue d)" and "q_state item = ''pending''" and "distinct (map q_id (queue d))"
    and "d' = snd (processItem e w item (bs, d))"
  shows "(\<exists>r \<in> set (queue d'). q_id r = q_id item \<and> q_leased r = None \<and> q_attempts r = q_attempts item + 1 \<and>
           (q_state r = ''sent'' \<or> q_state r = ''dead'' \<and> q_dead r \<noteq> None \<or>
            q_state r = ''pending'' \<and> now e < q_next r)) \<and>
         filter (\<lambda>r. q_id r \<noteq> q_id item) (queue d') = filter (\<lambda>r. q_id r \<noteq> q_id item) (queue d)"
proof -
  from processItem_fate [of e w item d bs] obtain s f where
    f: "fate e w item s f" and t: "touched e item f s d d'"
    unfolding assms(7) by blast
  from t assms(3) have q: "queue d' = map (\<lambda>r. if q_id r = q_id item then f r else r) (queue d)"
    by (simp add: touched_def upd_queue_def)
  have "f item \<in> set (queue d')" using assms(4) by (force simp: q)
  moreover note fate_row [OF f, of item] fate_outcome [OF f assms(1,2,5)]
  moreover have "filter (\<lambda>r. q_id r \<noteq> i) (map (\<lambda>r. if q_id r = i then f r else r) rs) =
      filter (\<lambda>r. q_id r \<noteq> i) rs" for i rs
    by (induction rs) (auto simp: fate_row(1) [OF f])
  ultimately show ?thesis unfolding q by blast
qed

definition page_row :: queue_row where
  "page_row = \<lparr>q_id = 1, q_tenant = 3, q_incident = Some 1, q_channel = 5, q_key = ''k'', q_class = ''page'',
     q_payload = [(''title'', JStr ''shop is down'')], q_attempts = 0, q_next = 10, q_state = ''pending'',
     q_dead = None, q_leased = None, q_lease_until = None\<rparr>"

definition clock_env :: env where "clock_env = quiet_env\<lparr>now := 100\<rparr>"

definition failing_worker :: worker where
  "failing_worker = \<lparr>senders = (\<lambda>_. Some (\<lambda>_ _. Sent 500)), nodeID = ''n'', rnd = (\<lambda>_. 0), sent_at = 101\<rparr>"

definition queued_db :: db where
  "queued_db = shop_db\<lparr>queue := [page_row], next_queue := 2\<rparr>"

lemma fair_failing: "fair_random (rnd failing_worker)"
  by (simp add: fair_random_def failing_worker_def)

theorem processItem_settles_the_row_witness:
  "let d' = snd (processItem clock_env failing_worker page_row (Map.empty, queued_db))
   in (\<exists>r \<in> set (queue d'). q_id r = 1 \<and> q_leased r = None \<and> q_attempts r = 1 \<and>
           (q_state r = ''sent'' \<or> q_state r = ''dead'' \<and> q_dead r \<noteq> None \<or>
            q_state r = ''pending'' \<and> 100 < q_next r))"
  using processItem_settles_the_row [OF fair_failing, of clock_env page_row queued_db
      "snd (processItem clock_env failing_worker page_row (Map.empty, queued_db))" Map.empty]
  by (simp add: clock_env_def quiet_env_def failing_worker_def page_row_def queued_db_def writes_ok_def Let_def)

section \<open>Leases\<close>

lemma lease_ids_sub: "i \<in> set (lease_ids t n d) \<Longrightarrow> \<exists>r \<in> set (queue d). q_id r = i \<and> leasable t r"
  by (auto simp: lease_ids_def dest!: in_set_takeD)

lemma distinct_ids_row: "distinct (map q_id rs) \<Longrightarrow> r \<in> set rs \<Longrightarrow> r' \<in> set rs \<Longrightarrow> q_id r = q_id r' \<Longrightarrow> r = r'"
  by (auto simp: distinct_map dest: inj_onD)

lemma leased_row_due:
  assumes "distinct (map q_id (queue d))" and "r \<in> set (queue d)" and "q_id r \<in> set (lease_ids t n d)"
  shows "leasable t r"
  using lease_ids_sub [OF assms(3)] distinct_ids_row [OF assms(1) _ assms(2)] by metis

text \<open>C30. No delivery is handed to two workers.

  Two leases taken one after the other, by any workers at any times, with no processing in between,
  return disjoint sets of rows; each lease returns at most its limit of rows, each pending and due.\<close>

theorem leases_are_exclusive:
  assumes "distinct (map q_id (queue d))"
    and "q_LeasePendingDeliveries e d by1 u1 n1 = Some (items1, d1)"
    and "q_LeasePendingDeliveries e2 d1 by2 u2 n2 = Some (items2, d2)"
  shows "q_id ` set items1 \<inter> q_id ` set items2 = {} \<and> length items1 \<le> n1 \<and>
         (\<forall>r \<in> set items1. q_state r = ''pending'' \<and> q_next r \<le> now e \<and> q_leased r = Some by1)"
proof -
  let ?ids = "lease_ids (now e) n1 d" and ?ids2 = "lease_ids (now e2) n2 d1"
  let ?lease = "\<lambda>r. r\<lparr>q_leased := Some by1, q_lease_until := Some u1\<rparr>"
  from assms(2) have i1: "items1 = map ?lease (filter (\<lambda>r. q_id r \<in> set ?ids) (queue d))"
    and q1: "queue d1 = map (\<lambda>r. if q_id r \<in> set ?ids then ?lease r else r) (queue d)"
    by (auto simp: q_LeasePendingDeliveries_def Let_def split: if_splits)
  from assms(3) have i2: "q_id ` set items2 \<subseteq> set ?ids2"
    by (auto simp: q_LeasePendingDeliveries_def Let_def split: if_splits)
  have "set ?ids \<inter> set ?ids2 = {}"
    by (auto dest!: lease_ids_sub [of _ "now e2"] simp: q1 leasable_def split: if_splits)
  then have disj: "q_id ` set items1 \<inter> q_id ` set items2 = {}" using i2 i1 by fastforce
  have "length (filter (\<lambda>r. q_id r \<in> set ?ids) (queue d)) \<le> length ?ids"
  proof -
    have "length (filter (\<lambda>r. q_id r \<in> set ?ids) (queue d)) =
        card (q_id ` set (filter (\<lambda>r. q_id r \<in> set ?ids) (queue d)))"
      using assms(1) by (metis (no_types) distinct_card distinct_map_filter length_map list.set_map)
    also have "\<dots> \<le> card (set ?ids)" by (rule card_mono) auto
    finally show ?thesis using card_length le_trans by blast
  qed
  moreover have "length ?ids \<le> n1" by (simp add: lease_ids_def)
  ultimately have "length items1 \<le> n1" by (simp add: i1)
  moreover have "\<forall>r \<in> set items1. q_state r = ''pending'' \<and> q_next r \<le> now e \<and> q_leased r = Some by1"
    using leased_row_due [OF assms(1)] by (auto simp: i1 leasable_def)
  ultimately show ?thesis using disj by blast
qed

theorem leases_are_exclusive_witness:
  "q_id ` set (fst (the (q_LeasePendingDeliveries clock_env queued_db ''a'' 200 20))) \<inter>
   q_id ` set (fst (the (q_LeasePendingDeliveries clock_env
     (snd (the (q_LeasePendingDeliveries clock_env queued_db ''a'' 200 20))) ''b'' 200 20))) = {}"
proof -
  have ok: "q_LeasePendingDeliveries clock_env d nd u n =
      Some (fst (the (q_LeasePendingDeliveries clock_env d nd u n)), snd (the (q_LeasePendingDeliveries clock_env d nd u n)))"
    for d nd u n by (simp add: q_LeasePendingDeliveries_def clock_env_def quiet_env_def Let_def)
  have "distinct (map q_id (queue queued_db))" by (simp add: queued_db_def)
  from leases_are_exclusive [OF this ok ok] show ?thesis by blast
qed

section \<open>Any number of ticks\<close>

text \<open>
  A run of the pipeline: ticks of any workers in any environments, and enqueues in between (of any
  message, from any component).
\<close>

inductive pipeline :: "db \<Rightarrow> db \<Rightarrow> bool" where
  pipe_start: "pipeline d d"
| pipe_tick: "pipeline d d1 \<Longrightarrow> pipeline d (snd (Tick e w (bs, d1)))"
| pipe_enqueue: "pipeline d d1 \<Longrightarrow> pipeline d (enq_msg e t d1 m)"

definition sends :: "int \<Rightarrow> db \<Rightarrow> int" where
  "sends i d = int (length (filter (\<lambda>a. fst a = i) (attempt_log d)))"

text \<open>
  The invariant while the rows \<open>P\<close> of a lease wait for processing: a row that may still be sent has
  fewer than five sends behind it, each counted in its attempts.
\<close>

definition sendable :: "int set \<Rightarrow> queue_row \<Rightarrow> bool" where
  "sendable P r \<longleftrightarrow> q_state r = ''pending'' \<and> q_leased r = None \<or> q_id r \<in> P"

definition pipe_inv :: "int set \<Rightarrow> db \<Rightarrow> bool" where
  "pipe_inv P d \<longleftrightarrow>
     distinct (map q_id (queue d)) \<and>
     (\<forall>r \<in> set (queue d). q_id r < next_queue d \<and> sends (q_id r) d \<le> maxAttempts \<and>
        (sendable P r \<longrightarrow> sends (q_id r) d \<le> q_attempts r \<and> sends (q_id r) d < maxAttempts)) \<and>
     (\<forall>a \<in> set (attempt_log d). fst a < next_queue d)"

lemma sends_touched:
  assumes "touched e item f s d d'"
  shows "sends i d' = sends i d + (if i = q_id item \<and> s \<and> \<not> fl e ''RecordDeliveryAttempt'' [q_id item] then 1 else 0)"
  using assms by (auto simp: touched_def sends_def split: if_splits)

lemma touched_log:
  assumes "touched e item f s d d'" and "a \<in> set (attempt_log d')"
  shows "a \<in> set (attempt_log d) \<or> fst a = q_id item"
  using assms by (auto simp: touched_def split: if_splits)

lemma touched_row:
  assumes "touched e item f s d d'" and "r' \<in> set (queue d')"
  obtains r where "r \<in> set (queue d)" and "q_id r \<noteq> q_id item \<longrightarrow> r' = r"
    and "q_id r = q_id item \<longrightarrow> r' = f r \<or> \<not> writes_ok e (q_id item) \<and> r' = r"
  using assms by (auto simp: touched_def upd_queue_def split: if_splits)

lemma touched_ids:
  assumes "touched e item f s d d'" and "fate e w item s f"
  shows "map q_id (queue d') = map q_id (queue d)"
  using assms(1) fate_row(1) [OF assms(2)] by (auto simp: touched_def upd_queue_def)

lemma touched_keeps:
  assumes "touched e item f s d d'" and "r \<in> set (queue d)" and "q_id r \<noteq> q_id item"
  shows "r \<in> set (queue d')"
  using assms by (auto simp: touched_def upd_queue_def image_iff)

lemma pipe_inv_item:
  assumes inv: "pipe_inv (insert (q_id item) P) d" and "item \<in> set (queue d)"
    and held: "q_leased item \<noteq> None" and "q_id item \<notin> P"
    and f: "fate e w item s f" and t: "touched e item f s d d'"
  shows "pipe_inv P d'"
proof -
  have ids: "map q_id (queue d') = map q_id (queue d)" by (rule touched_ids [OF t f])
  have nx: "next_queue d' = next_queue d" using t by (simp add: touched_def)
  from inv have dist: "distinct (map q_id (queue d))" by (simp add: pipe_inv_def)
  have row: "q_id r' < next_queue d \<and> sends (q_id r') d' \<le> maxAttempts \<and>
      (sendable P r' \<longrightarrow> sends (q_id r') d' \<le> q_attempts r' \<and> sends (q_id r') d' < maxAttempts)"
    if "r' \<in> set (queue d')" for r'
  proof -
    from touched_row [OF t that] obtain r where r: "r \<in> set (queue d)"
      "q_id r \<noteq> q_id item \<longrightarrow> r' = r" "q_id r = q_id item \<longrightarrow> r' = f r \<or> r' = r" by metis
    have ir: "q_id r < next_queue d \<and> sends (q_id r) d \<le> maxAttempts \<and>
        (sendable (insert (q_id item) P) r \<longrightarrow> sends (q_id r) d \<le> q_attempts r \<and> sends (q_id r) d < maxAttempts)"
      using inv r(1) by (simp add: pipe_inv_def)
    show ?thesis
    proof (cases "q_id r = q_id item")
      case False
      with r(2) ir show ?thesis by (auto simp: sends_touched [OF t] sendable_def)
    next
      case True
      with dist r(1) assms(2) have "r = item" by (rule distinct_ids_row)
      with ir have before: "q_id item < next_queue d" "sends (q_id item) d \<le> q_attempts item"
        "sends (q_id item) d < maxAttempts"
        by (simp_all add: sendable_def)
      from r(3) True \<open>r = item\<close> consider "r' = item" | "r' = f item" by blast
      then show ?thesis
      proof cases
        case 1
        with before held assms(4) show ?thesis by (auto simp: sends_touched [OF t] sendable_def)
      next
        case 2
        from f show ?thesis unfolding 2
          by (rule fate_cases) (use before assms(4) in
            \<open>auto simp: sends_touched [OF t] sendable_def sent_row_def dead_row_def retry_row_def\<close>)
      qed
    qed
  qed
  have "\<forall>a \<in> set (attempt_log d'). fst a < next_queue d"
    using touched_log [OF t] inv assms(2) by (fastforce simp: pipe_inv_def)
  then show ?thesis using row dist by (simp add: pipe_inv_def ids nx)
qed

lemma pipe_inv_items:
  assumes "pipe_inv (q_id ` set items) d" and "set items \<subseteq> set (queue d)" and "distinct (map q_id items)"
    and "\<forall>r \<in> set items. q_leased r \<noteq> None"
  shows "pipe_inv {} (snd (fold (processItem e w) items (bs, d)))"
  using assms
proof (induction items arbitrary: bs d)
  case (Cons item items)
  obtain bs1 d1 where p: "processItem e w item (bs, d) = (bs1, d1)" by (metis surj_pair)
  obtain s f where f: "fate e w item s f" and t: "touched e item f s d d1"
    using processItem_fate [of e w item d bs] p by (metis snd_conv)
  have "pipe_inv (q_id ` set items) d1"
    by (rule pipe_inv_item [OF _ _ _ _ f t]) (use Cons.prems in auto)
  moreover have "set items \<subseteq> set (queue d1)"
  proof
    fix r assume r: "r \<in> set items"
    then have "q_id r \<in> set (map q_id items)" by simp
    then have "q_id r \<noteq> q_id item" using Cons.prems(3) by (metis distinct.simps(2) list.simps(9))
    with r Cons.prems(2) show "r \<in> set (queue d1)"
      by (intro touched_keeps [OF t]) auto
  qed
  ultimately show ?case
    using Cons.IH [of d1 bs1] Cons.prems(3,4) p by simp
qed simp

lemma pipe_inv_lease:
  assumes "pipe_inv {} d" and "q_LeasePendingDeliveries e d nd u n = Some (items, d1)"
  shows "pipe_inv (q_id ` set items) d1" and "set items \<subseteq> set (queue d1)"
    and "distinct (map q_id items)" and "\<forall>r \<in> set items. q_leased r \<noteq> None"
proof -
  let ?ids = "lease_ids (now e) n d"
  let ?lease = "\<lambda>r. r\<lparr>q_leased := Some nd, q_lease_until := Some u\<rparr>"
  from assms(2) have i: "items = map ?lease (filter (\<lambda>r. q_id r \<in> set ?ids) (queue d))"
    and d1: "d1 = d\<lparr>queue := map (\<lambda>r. if q_id r \<in> set ?ids then ?lease r else r) (queue d)\<rparr>"
    by (auto simp: q_LeasePendingDeliveries_def Let_def split: if_splits)
  have dist: "distinct (map q_id (queue d))" using assms(1) by (simp add: pipe_inv_def)
  show "set items \<subseteq> set (queue d1)" "\<forall>r \<in> set items. q_leased r \<noteq> None"
    by (auto simp: i d1 image_iff)
  have "map q_id items = map q_id (filter (\<lambda>r. q_id r \<in> set ?ids) (queue d))" by (simp add: i)
  then show "distinct (map q_id items)" using dist by (metis distinct_map_filter)
  have ids: "map q_id (queue d1) = map q_id (queue d)" by (simp add: d1)
  have was: "sendable (q_id ` set items) (if q_id r \<in> set ?ids then ?lease r else r) \<Longrightarrow> sendable {} r"
    if "r \<in> set (queue d)" for r
    using leased_row_due [OF dist that, of "now e" n] by (auto simp: sendable_def i leasable_def split: if_splits)
  show "pipe_inv (q_id ` set items) d1"
    using assms(1) was unfolding pipe_inv_def ids
    by (auto simp: d1 sends_def)
qed

lemma pipe_inv_enqueue:
  assumes "pipe_inv {} d" shows "pipe_inv {} (enq_msg e t d m)"
proof -
  have "filter (\<lambda>a. fst a = next_queue d) (attempt_log d) = []"
    using assms by (auto simp: pipe_inv_def filter_empty_conv)
  then show ?thesis
    using assms
    by (auto simp: enq_msg_def q_EnqueueDeliveryAt_def pipe_inv_def sends_def maxAttempts_def)
qed

lemma pipe_inv_tick:
  assumes "pipe_inv {} d" shows "pipe_inv {} (snd (Tick e w (bs, d)))"
proof (cases "q_LeasePendingDeliveries e d (nodeID w) (Add (now e) minute) 20")
  case (Some p)
  obtain items d1 where p: "p = (items, d1)" by (cases p)
  from pipe_inv_lease [OF assms Some [unfolded p]]
  have "pipe_inv {} (snd (fold (processItem e w) items (bs, d1)))" by (intro pipe_inv_items)
  then show ?thesis by (simp add: Tick_def Some p)
qed (simp add: Tick_def assms)

lemma pipeline_inv: "pipeline d d' \<Longrightarrow> pipe_inv {} d \<Longrightarrow> pipe_inv {} d'"
  by (induction rule: pipeline.induct) (auto intro: pipe_inv_tick pipe_inv_enqueue)

text \<open>C13. No delivery is sent more than five times.

  From an empty queue, after any interleaving of enqueues and ticks of any workers, with any calls
  failing, any settings, mutes and sender answers, no row has more than \<open>maxAttempts\<close> recorded
  sends, and a row that can still be picked up has fewer.\<close>

theorem at_most_five_sends:
  assumes "queue d = []" and "attempt_log d = []" and "pipeline d d'" and "r \<in> set (queue d')"
  shows "sends (q_id r) d' \<le> 5 \<and> (q_state r = ''pending'' \<and> q_leased r = None \<longrightarrow> sends (q_id r) d' < 5)"
proof -
  have "pipe_inv {} d" using assms(1,2) by (simp add: pipe_inv_def)
  with assms(3,4) pipeline_inv show ?thesis by (fastforce simp: pipe_inv_def sendable_def maxAttempts_def)
qed

definition page_msg :: delivery_msg where
  "page_msg = \<lparr>dm_incident = 1, dm_channel = 5, dm_key = ''k'', dm_class = ''page'', dm_payload = [], dm_next = 10\<rparr>"

lemma page_ticked:
  "map (\<lambda>r. (q_id r, q_state r, q_attempts r)) (queue (snd (Tick clock_env failing_worker
     (Map.empty, enq_msg quiet_env 3 shop_db page_msg)))) = [(1, ''pending'', 1)]"
  by code_simp

theorem at_most_five_sends_witness:
  "sends 1 (snd (Tick clock_env failing_worker (Map.empty, enq_msg quiet_env 3 shop_db page_msg))) \<le> 5"
proof -
  let ?d = "snd (Tick clock_env failing_worker (Map.empty, enq_msg quiet_env 3 shop_db page_msg))"
  have pipe: "pipeline shop_db ?d" by (intro pipeline.intros)
  obtain r where r: "r \<in> set (queue ?d)" "q_id r = 1"
  proof -
    have "(1, ''pending'', 1) \<in> set (map (\<lambda>r. (q_id r, q_state r, q_attempts r)) (queue ?d))"
      unfolding page_ticked by simp
    then obtain r where "r \<in> set (queue ?d)" "(1, ''pending'', 1) = (q_id r, q_state r, q_attempts r)"
      unfolding set_map by (rule imageE) simp
    then show ?thesis using that [of r] by simp
  qed
  have "queue shop_db = []" "attempt_log shop_db = []" by (simp_all add: shop_db_def empty_db_def)
  from at_most_five_sends [OF this pipe r(1)] r(2) show ?thesis by simp
qed

section \<open>What is stranded, spent and closed by mistake\<close>

lemma Tick_keeps_leased:
  assumes "r \<in> set (queue d)" and "q_leased r \<noteq> None" and "distinct (map q_id (queue d))"
  shows "r \<in> set (queue (snd (Tick e w (bs, d))))"
proof (cases "q_LeasePendingDeliveries e d (nodeID w) (Add (now e) minute) 20")
  case (Some p)
  obtain items d1 where p: "p = (items, d1)" by (cases p)
  let ?ids = "lease_ids (now e) 20 d"
  have out: "q_id r \<notin> set ?ids"
    using leased_row_due [OF assms(3,1)] assms(2) by (auto simp: leasable_def)
  with assms(1) Some p have r1: "r \<in> set (queue d1)"
    by (auto simp: q_LeasePendingDeliveries_def Let_def image_iff split: if_splits)
  have "\<forall>i \<in> set items. q_id i \<noteq> q_id r"
    using out Some p by (auto simp: q_LeasePendingDeliveries_def Let_def split: if_splits)
  then have "r \<in> set (queue d1) \<Longrightarrow> r \<in> set (queue (snd (fold (processItem e w) items (bs, d1))))" for bs d1
  proof (induction items arbitrary: bs d1)
    case (Cons item items)
    obtain bs2 d2 where pi: "processItem e w item (bs, d1) = (bs2, d2)" by (metis surj_pair)
    obtain s f where "touched e item f s d1 d2"
      using processItem_fate [of e w item d1 bs] pi by (metis snd_conv)
    then have "r \<in> set (queue d2)" using touched_keeps Cons.prems by (metis list.set_intros(1))
    with Cons pi show ?case by simp
  qed simp
  from this [OF r1, of bs] show ?thesis by (simp add: Tick_def Some p)
qed (simp add: Tick_def assms(1))

lemma Tick_ids: "map q_id (queue (snd (Tick e w (bs, d)))) = map q_id (queue d)"
proof (cases "q_LeasePendingDeliveries e d (nodeID w) (Add (now e) minute) 20")
  case (Some p)
  obtain items d1 where p: "p = (items, d1)" by (cases p)
  have ids: "map q_id (queue (snd (fold (processItem e w) items (bs, d1)))) = map q_id (queue d1)" for items bs d1
  proof (induction items arbitrary: bs d1)
    case (Cons item items)
    obtain bs2 d2 where pi: "processItem e w item (bs, d1) = (bs2, d2)" by (metis surj_pair)
    obtain s f where "fate e w item s f" "touched e item f s d1 d2"
      using processItem_fate [of e w item d1 bs] pi by (metis snd_conv)
    then have "map q_id (queue d2) = map q_id (queue d1)" by (metis touched_ids)
    with Cons pi show ?case by simp
  qed simp
  have "map q_id (queue d1) = map q_id (queue d)"
    using Some p by (auto simp: q_LeasePendingDeliveries_def Let_def split: if_splits)
  then show ?thesis by (simp add: Tick_def Some p ids)
qed (simp add: Tick_def)

text \<open>C31. A row leased by a worker that died is never delivered.

  A pending row that is still leased (the process holding it stopped between the lease and the row's
  final write) stays exactly as it is through any number of ticks of any workers at any later times, even
  long past its \<open>lease_until\<close>: it is never handed out, sent, retried or declared dead.\<close>

theorem crashed_lease_is_stranded:
  assumes "r \<in> set (queue d)" and "q_leased r \<noteq> None" and "distinct (map q_id (queue d))"
  shows "r \<in> set (queue (foldl (\<lambda>d (e, w, bs). snd (Tick e w (bs, d))) d ticks))"
  using assms
proof (induction ticks arbitrary: d)
  case (Cons tick ticks)
  obtain e w bs where t: "tick = (e, w, bs)" by (cases tick)
  have "distinct (map q_id (queue (snd (Tick e w (bs, d)))))"
    using Cons.prems(3) by (simp add: Tick_ids)
  with Cons.IH [OF Tick_keeps_leased [OF Cons.prems]] Cons.prems(2) t show ?case by simp
qed simp

theorem crashed_lease_is_stranded_witness:
  "let held = page_row\<lparr>q_leased := Some ''n'', q_lease_until := Some 60\<rparr>;
       d = shop_db\<lparr>queue := [held]\<rparr>;
       late = clock_env\<lparr>now := 10 ^ 15\<rparr>
   in held \<in> set (queue (foldl (\<lambda>d (e, w, bs). snd (Tick e w (bs, d))) d
        [(clock_env, failing_worker, Map.empty), (late, failing_worker, Map.empty)]))"
  unfolding Let_def by (rule crashed_lease_is_stranded) simp_all

text \<open>Deferring a muted delivery spends one of its attempts.

  A due delivery on a muted channel is not sent, and still comes back with its attempt count raised by one, so
  five deferrals leave a delivery whose first real failure is final.\<close>

theorem mute_spends_an_attempt:
  assumes "q_GetChannelForDelivery e d (q_channel item) = Row (ch, False)"
    and "c_muted ch = Some u" and "now e < u" and "\<not> fl e ''Reschedule'' [q_id item]"
    and "bs (q_channel item) = None" and "senders w (c_kind ch) = Some send"
  shows "snd (processItem e w item (bs, d)) = upd_queue (q_id item) (retry_row u) d \<and>
         attempt_log (snd (processItem e w item (bs, d))) = attempt_log d \<and>
         q_attempts (retry_row u item) = q_attempts item + 1"
proof -
  have "route e d ch healthy = Inr (c_kind ch, c_target ch)"
    by (simp add: route_def IsOpen_def healthy_def IsZero_def)
  moreover have "muted_now e ch" using assms(2,3) by (simp add: muted_now_def)
  ultimately show ?thesis
    using assms by (simp add: processItem_def getBreaker_def Let_def q_Reschedule_def upd_queue_def retry_row_def)
qed

theorem mute_spends_an_attempt_witness:
  "let d = queued_db\<lparr>channels := [shop_channel\<lparr>c_muted := Some 500\<rparr>]\<rparr>
   in snd (processItem clock_env failing_worker page_row (Map.empty, d)) = upd_queue 1 (retry_row 500) d"
  unfolding Let_def
  using mute_spends_an_attempt [of clock_env "queued_db\<lparr>channels := [shop_channel\<lparr>c_muted := Some 500\<rparr>]\<rparr>"
      page_row "shop_channel\<lparr>c_muted := Some 500\<rparr>" 500 Map.empty failing_worker "\<lambda>_ _. Sent 500"]
  by (simp add: q_GetChannelForDelivery_def clock_env_def quiet_env_def page_row_def shop_channel_def
      queued_db_def shop_db_def empty_db_def failing_worker_def)

text \<open>A failed-over success closes the breaker of the channel that is down.

  When the breaker of a non-email channel is open and the delivery goes to the project's email
  address instead, an accepted email records a success on the original channel's breaker: it is closed though that channel was never tried.\<close>

theorem failover_success_closes_breaker:
  assumes "q_GetChannelForDelivery e d (q_channel item) = Row (ch, False)" and "q_class item \<noteq> ''followup''"
    and "bs (q_channel item) = Some b" and "IsOpen b (now e)" and "c_kind ch \<noteq> ''email''"
    and "q_GetEmailChannelTarget e d (c_project ch) = Row t" and "t \<noteq> ''''"
    and "senders w ''email'' = Some send" and "\<not> muted_now e ch"
    and "send t (payload_for item ch ''email'') = Sent 200"
  shows "\<not> IsOpen (the (fst (processItem e w item (bs, d)) (q_channel item))) later_time"
proof -
  have "route e d ch b = Inr (''email'', t)" using assms(4-7) by (simp add: route_def)
  then show ?thesis
    using assms
    by (simp add: processItem_def getBreaker_def Let_def settle_def classifyError_def RecordSuccess_def
        IsOpen_def IsZero_def split: prod.split)
qed

definition chat_channel :: channel_row where
  "chat_channel = shop_channel\<lparr>c_id := 6, c_kind := ''discord''\<rparr>"

theorem failover_success_closes_breaker_witness:
  "let d = queued_db\<lparr>channels := [shop_channel, chat_channel]\<rparr>;
       w = failing_worker\<lparr>senders := (\<lambda>k. Some (\<lambda>_ _. if k = ''email'' then Sent 200 else Sent 500))\<rparr>;
       e = clock_env\<lparr>now := 10 ^ 12\<rparr>
   in \<not> IsOpen (the (fst (processItem e w (page_row\<lparr>q_channel := 6\<rparr>) ([6 \<mapsto> \<lparr>failuresSince = 1\<rparr>], d)) 6))
        (10 ^ 13)"
  unfolding Let_def
  using failover_success_closes_breaker [of "clock_env\<lparr>now := 10 ^ 12\<rparr>"
      "queued_db\<lparr>channels := [shop_channel, chat_channel]\<rparr>" "page_row\<lparr>q_channel := 6\<rparr>" chat_channel
      "[6 \<mapsto> \<lparr>failuresSince = 1\<rparr>]" "\<lparr>failuresSince = 1\<rparr>" "''a@b''"
      "failing_worker\<lparr>senders := (\<lambda>k. Some (\<lambda>_ _. if k = ''email'' then Sent 200 else Sent 500))\<rparr>"
      "\<lambda>_ _. Sent 200" "10 ^ 13"]
  by (simp add: q_GetChannelForDelivery_def q_GetEmailChannelTarget_def clock_env_def quiet_env_def page_row_def
      shop_channel_def chat_channel_def queued_db_def shop_db_def empty_db_def IsOpen_def IsZero_def Sub_def
      breakerTimeout_def duration_defs zero_time_def muted_now_def max_int64_def min_int64_def)

end
