(* ===== verification/Heartbeat.thy ===== *)
theory Heartbeat
  imports IncidentNotify Availability
begin

text \<open>
  Heartbeat monitors, \<^verbatim>\<open>back/internal/heartbeat/heartbeat.go\<close>: a ping is a passing check, a closed window
  a failed one, both through the availability detector of threshold 1 and the incident lifecycle.
  The facts row keeps the columns the detector uses; the refusal backoff a heartbeat never raises is not modelled.
\<close>

section \<open>Queries\<close>

definition q_GetMonitorByPingToken :: "env \<Rightarrow> db \<Rightarrow> string \<Rightarrow> monitor_row res" where
  "q_GetMonitorByPingToken e d token =
     (if fl e ''GetMonitorByPingToken'' [] then Fault
      else one_row (filter (\<lambda>m. m_ping_token m = Some token \<and> m_kind m = ''heartbeat'') (monitors d)))"

definition grace_sec :: "monitor_row \<Rightarrow> int" where
  "grace_sec m = (case m_grace m of Some g \<Rightarrow> g | None \<Rightarrow> min (m_interval m) 3600)"

definition q_GetTargetFacts :: "env \<Rightarrow> db \<Rightarrow> int \<Rightarrow> facts_row res" where
  "q_GetTargetFacts e d tid =
     (if fl e ''GetTargetFacts'' [tid] then Fault
      else one_row (filter (\<lambda>f. tf_target f = tid) (facts d)))"

definition upsert_facts :: "facts_row \<Rightarrow> facts_row list \<Rightarrow> facts_row list" where
  "upsert_facts f fs =
     (if \<exists>x \<in> set fs. tf_target x = tf_target f
      then map (\<lambda>x. if tf_target x = tf_target f then f else x) fs else fs @ [f])"

definition q_UpsertTargetFacts :: "env \<Rightarrow> db \<Rightarrow> int \<Rightarrow> avail_state \<Rightarrow> db option" where
  "q_UpsertTargetFacts e d tid st =
     (if fl e ''UpsertTargetFacts'' [tid] then None
      else Some (d\<lparr>facts := upsert_facts
             \<lparr>tf_target = tid, tf_status = Status st, tf_failures = ConsecutiveFailures st,
              tf_unmeasured = ConsecutiveUnmeasured st\<rparr> (facts d)\<rparr>))"

definition facts_of :: "db \<Rightarrow> int \<Rightarrow> facts_row option" where
  "facts_of d tid = (case filter (\<lambda>f. tf_target f = tid) (facts d) of [] \<Rightarrow> None | f # _ \<Rightarrow> Some f)"

definition due_of :: "db \<Rightarrow> int \<Rightarrow> time option" where
  "due_of d tid = map_of (due d) tid"

definition missed :: "env \<Rightarrow> db \<Rightarrow> monitor_row \<Rightarrow> bool" where
  "missed e d m \<longleftrightarrow>
     m_kind m = ''heartbeat'' \<and> \<not> m_paused m \<and> m_project m \<notin> set (frozen_projects d) \<and>
     (case due_of d (m_target_id m) of Some t \<Rightarrow> t \<le> now e | None \<Rightarrow> False)"

definition q_ListMissedHeartbeats :: "env \<Rightarrow> db \<Rightarrow> (monitor_row \<times> string \<times> int) list res" where
  "q_ListMissedHeartbeats e d =
     (if fl e ''ListMissedHeartbeats'' [] then Fault
      else Row (map (\<lambda>m. (m, case facts_of d (m_target_id m) of
                               None \<Rightarrow> (''nodata'', 0)
                             | Some f \<Rightarrow> (tf_status f, tf_failures f)))
             (take 500 (sort_key (\<lambda>m. the (due_of d (m_target_id m))) (filter (missed e d) (monitors d))))))"

definition q_SetHeartbeatDue :: "env \<Rightarrow> db \<Rightarrow> int \<Rightarrow> int \<Rightarrow> db option" where
  "q_SetHeartbeatDue e d secs mid =
     (if fl e ''SetHeartbeatDue'' [mid] then None
      else
        let tids = map m_target_id (filter (\<lambda>m. m_id m = mid) (monitors d))
        in Some (d\<lparr>due := map (\<lambda>(t, x). if t \<in> set tids then (t, Add (now e) (secs * second)) else (t, x)) (due d)\<rparr>))"

definition insert_checks :: "env \<Rightarrow> db \<Rightarrow> check_row list \<Rightarrow> db" where
  "insert_checks e d rows = (if fl e ''InsertChecks'' [] then d else d\<lparr>checks := checks d @ rows\<rparr>)"

section \<open>The service\<close>

definition hb_region :: string where "hb_region = ''heartbeat''"

definition hb_detector :: detector where "hb_detector = New_detector 1"

datatype hb_error = EPingToken | EFactsRead | EFactsWrite | EDueWrite | EMissedRead

definition hb_apply ::
  "env \<Rightarrow> db \<Rightarrow> int \<Rightarrow> int \<Rightarrow> int \<Rightarrow> string \<Rightarrow> avail_state \<Rightarrow> outcome \<Rightarrow> hb_error option \<times> db" where
  "hb_apply e d targetID monitorID intervalSec name st oc =
     (let (st, out) = Process hb_detector st oc (now e) in
      case q_UpsertTargetFacts e d targetID st of
        None \<Rightarrow> (Some EFactsWrite, d)
      | Some d \<Rightarrow>
          (let errClass = (if oc = OutcomeFail then ''missed'' else '''');
               d = (if has_pgs e
                    then insert_checks e d
                      [\<lparr>ck_target = targetID, ck_interval = intervalSec, ck_ts = now e, ck_region = hb_region,
                        ck_ok = (oc = OutcomeOK), ck_error = errClass\<rparr>]
                    else d);
               d = (if Open out then snd (Open_incident e d monitorID (name @ '' has not checked in'') intervalSec) else d);
               d = (if Close out then snd (Close_incident e d monitorID ReasonRecovered) else d)
           in (None, d)))"

definition Ping :: "env \<Rightarrow> db \<Rightarrow> string \<Rightarrow> bool \<times> hb_error option \<times> db" where
  "Ping e d token =
     (case q_GetMonitorByPingToken e d token of
        NoRows \<Rightarrow> (False, None, d)
      | Fault \<Rightarrow> (False, Some EPingToken, d)
      | Row row \<Rightarrow>
          if m_paused row then (True, None, d)
          else
            let st = \<lparr>Status = StatusNoData, ConsecutiveFailures = 0, ConsecutiveUnmeasured = 0, LastCheckAt = zero_time\<rparr> in
            (case (case q_GetTargetFacts e d (m_target_id row) of
                     Row f \<Rightarrow> Inr (st\<lparr>Status := tf_status f, ConsecutiveFailures := tf_failures f,
                                    ConsecutiveUnmeasured := tf_unmeasured f\<rparr>)
                   | NoRows \<Rightarrow> Inr st
                   | Fault \<Rightarrow> Inl EFactsRead) of
               Inl err \<Rightarrow> (True, Some err, d)
             | Inr st \<Rightarrow>
                 (case hb_apply e d (m_target_id row) (m_id row) (m_interval row) (m_monitor_name row) st OutcomeOK of
                    (Some err, d) \<Rightarrow> (True, Some err, d)
                  | (None, d) \<Rightarrow>
                      (case q_SetHeartbeatDue e d (m_interval row + grace_sec row) (m_id row) of
                         None \<Rightarrow> (True, Some EDueWrite, d)
                       | Some d \<Rightarrow> (True, None, d)))))"

definition miss_one :: "env \<Rightarrow> monitor_row \<times> string \<times> int \<Rightarrow> db \<Rightarrow> db" where
  "miss_one e row d =
     (case row of (m, status, failures) \<Rightarrow>
        let st = \<lparr>Status = status, ConsecutiveFailures = failures, ConsecutiveUnmeasured = 0, LastCheckAt = zero_time\<rparr> in
        (case hb_apply e d (m_target_id m) (m_id m) (m_interval m) (m_monitor_name m) st OutcomeFail of
           (Some err, d) \<Rightarrow> d
         | (None, d) \<Rightarrow>
             (case q_SetHeartbeatDue e d (m_interval m) (m_id m) of None \<Rightarrow> d | Some d \<Rightarrow> d)))"

definition hb_Tick :: "env \<Rightarrow> db \<Rightarrow> hb_error option \<times> db" where
  "hb_Tick e d =
     (case q_ListMissedHeartbeats e d of
        Row rows \<Rightarrow> (None, fold (miss_one e) rows d)
      | _ \<Rightarrow> (Some EMissedRead, d))"

text \<open>\<^verbatim>\<open>ServeHTTP\<close>: the status code a ping is answered with.\<close>

definition ping_status :: "env \<Rightarrow> db \<Rightarrow> string \<Rightarrow> int \<times> db" where
  "ping_status e d token =
     (case Ping e d token of (found, err, d) \<Rightarrow>
        ((if err \<noteq> None then 500 else if \<not> found then 404 else 200), d))"

section \<open>What the lifecycle leaves alone\<close>

definition outside :: "db \<Rightarrow> db" where
  "outside d = d\<lparr>incidents := [], next_incident := 0, updates := [], slices := [], intervals := [],
     queue := [], next_queue := 0\<rparr>"

lemma outside_ops [simp]:
  "outside (q_SetIncidentEffectiveInterval e d i sec) = outside d"
  "outside (q_AddIncidentUpdate e d i k t) = outside d"
  "outside (q_AddIncidentSliceLine e d i l) = outside d"
  "outside (q_TouchIncidentNotified e d i) = outside d"
  "outside (enq_msg e tn d m) = outside d"
  by (simp_all add: outside_def q_SetIncidentEffectiveInterval_def q_AddIncidentUpdate_def
      q_AddIncidentSliceLine_def q_TouchIncidentNotified_def enq_msg_def q_EnqueueDeliveryAt_def)

lemma outside_enq_all [simp]: "outside (dq.enq_all e t d ms) = outside d"
  by (induction ms arbitrary: d) simp_all

lemma outside_notify [simp]: "outside (notifyChannels e d t pid n) = outside d"
proof -
  have "outside (fst (notify_loop e t n plan muted chs (d, 0))) = outside d" for plan muted chs
    by (simp add: notify_loop_msgs)
  then show ?thesis
    by (auto simp: notifyChannels_def Let_def split: res.split prod.split) (metis fst_conv)+
qed

lemma outside_slice [simp]: "outside (fst (slice_rows e d i ls)) = outside d"
  by (induction e d i ls rule: slice_rows.induct) simp_all

lemma outside_freeze [simp]: "outside (fst (freezeSlice e d i t pid)) = outside d"
  by (simp add: freezeSlice_def split: option.split)

lemma outside_insert: "q_OpenIncident e d t pid mid det f title status = Some (row, d1) \<Longrightarrow> outside d1 = outside d"
  by (auto simp: q_OpenIncident_def Let_def outside_def split: if_splits)

lemma outside_open [simp]: "outside (snd (open_incident e d m title sec frz)) = outside d"
  by (auto simp: open_incident_def Let_def outside_insert split: res.split option.split)

lemma outside_close [simp]: "outside (snd (Close_incident e d m reason)) = outside d"
  by (auto simp: Close_incident_def q_CloseIncident_def outside_def split: res.split)
    (simp_all add: q_AddIncidentUpdate_def)

lemma outside_fields:
  assumes "outside d' = outside d"
  shows "monitors d' = monitors d" "facts d' = facts d" "due d' = due d" "checks d' = checks d"
    "frozen_projects d' = frozen_projects d"
proof -
  have "monitors (outside x) = monitors x" "facts (outside x) = facts x" "due (outside x) = due x"
    "checks (outside x) = checks x" "frozen_projects (outside x) = frozen_projects x" for x
    by (simp_all add: outside_def)
  with assms show "monitors d' = monitors d" "facts d' = facts d" "due d' = due d" "checks d' = checks d"
    "frozen_projects d' = frozen_projects d" by metis+
qed

lemmas outside_open_fields [simp] = outside_fields [OF outside_open]
lemmas outside_close_fields [simp] = outside_fields [OF outside_close]

end
