(* ===== verification/HeartbeatLife.thy ===== *)
theory HeartbeatLife
  imports Heartbeat
begin

text \<open>
  What a heartbeat promises: as long as the lifecycle's own calls succeed, its target is down exactly
  when it has an open incident, through any pings and sweeps; and what happens when one such call
  fails: the detector has moved on and nothing opens the incident again.
\<close>

section \<open>Open incidents of one monitor\<close>

definition open_ids :: "db \<Rightarrow> int \<Rightarrow> int list" where
  "open_ids d m = map i_id (filter (open_for m) (incidents d))"

lemma open_incident_shape:
  obtains "snd (open_incident e d m title sec frz) = d" | mon :: monitor_row and row d1 where
    "q_OpenIncident e d (m_tenant mon) (m_project mon) (Some m) ''availability''
       (sint (fingerprint m ''availability'')) title ''down'' = Some (row, d1)"
    "same_incidents d1 (snd (open_incident e d m title sec frz))"
proof (cases "fst (open_incident e d m title sec frz)")
  case (Inr ib)
  obtain i b where ib: "ib = (i, b)" by (cases ib)
  show thesis
  proof (cases b)
    case True
    then have "open_incident e d m title sec frz = (Inr (i, True), snd (open_incident e d m title sec frz))"
      using Inr ib by (metis prod.collapse)
    then show thesis by (rule open_incident_created) (use that(2) in blast)
  next
    case False
    then have "snd (open_incident e d m title sec frz) = d"
      using Inr ib by (auto simp: open_incident_def Let_def split: res.splits option.splits)
    then show thesis by (rule that(1))
  qed
next
  case (Inl x)
  then have "snd (open_incident e d m title sec frz) = d"
    by (auto simp: open_incident_def Let_def split: res.splits option.splits)
  then show thesis by (rule that(1))
qed

lemma open_ids_open_other:
  assumes "m' \<noteq> m"
  shows "open_ids (snd (open_incident e d m title sec frz)) m' = open_ids d m'"
proof (rule open_incident_shape [of e d m title sec frz])
  fix mon :: monitor_row and row d1
  assume ins: "q_OpenIncident e d (m_tenant mon) (m_project mon) (Some m) ''availability''
       (sint (fingerprint m ''availability'')) title ''down'' = Some (row, d1)"
    and same: "same_incidents d1 (snd (open_incident e d m title sec frz))"
  show ?thesis
    using open_ids_same [OF same, of m'] insert_shape [OF ins] assms by (simp add: open_ids_def open_for_def)
qed simp

definition steady :: "env \<Rightarrow> bool" where
  "steady e \<longleftrightarrow> (\<forall>k. \<not> fl e ''GetOpenIncident'' k \<and> \<not> fl e ''GetMonitorForIncident'' k \<and>
     \<not> fl e ''OpenIncident'' k \<and> \<not> fl e ''CloseIncident'' k)"

lemma open_ids_open_same:
  assumes "steady e" and "mon \<in> set (monitors d)" and "m_id mon = m"
  shows "open_ids (snd (open_incident e d m title sec frz)) m \<noteq> []"
proof (cases "filter (open_for m) (incidents d)")
  case (Cons r rs)
  then have "snd (open_incident e d m title sec frz) = d"
    using assms(1) by (simp add: open_incident_def q_GetOpenIncident_def steady_def)
  with Cons show ?thesis by (simp add: open_ids_def)
next
  case Nil
  then have no: "q_GetOpenIncident e d m = NoRows"
    using assms(1) by (simp add: q_GetOpenIncident_def steady_def)
  have "filter (\<lambda>x. m_id x = m) (monitors d) \<noteq> []"
    using assms(2,3) by (auto simp: filter_empty_conv)
  then obtain x xs where "filter (\<lambda>x. m_id x = m) (monitors d) = x # xs" by (cases "filter (\<lambda>x. m_id x = m) (monitors d)") auto
  then have row: "q_GetMonitorForIncident e d m = Row x"
    using assms(1) by (simp add: q_GetMonitorForIncident_def steady_def)
  obtain r d1 where ins: "q_OpenIncident e d (m_tenant x) (m_project x) (Some m) ''availability''
       (sint (fingerprint m ''availability'')) title ''down'' = Some (r, d1)"
    using assms(1) by (simp add: q_OpenIncident_def Let_def steady_def)
  have same: "same_incidents d1 (snd (open_incident e d m title sec frz))"
    by (auto simp: open_incident_def no row ins Let_def intro!: frame_steps same_refl)
  show ?thesis
    using open_ids_same [OF same, of m] insert_shape [OF ins] by (simp add: open_ids_def open_for_def)
qed

lemma open_ids_close:
  "open_ids (snd (Close_incident e d m reason)) m' =
     (if m' = m \<and> \<not> close_fails e m then [] else open_ids d m')"
  by (simp add: open_ids_def Close_incident_open)

section \<open>Facts\<close>

definition status_of :: "db \<Rightarrow> int \<Rightarrow> string" where
  "status_of d tid = (case facts_of d tid of None \<Rightarrow> ''nodata'' | Some f \<Rightarrow> tf_status f)"

definition failures_of :: "db \<Rightarrow> int \<Rightarrow> int" where
  "failures_of d tid = (case facts_of d tid of None \<Rightarrow> 0 | Some f \<Rightarrow> tf_failures f)"

lemma filter_upsert:
  "filter (\<lambda>x. tf_target x = tid) (upsert_facts f fs) =
     (if tid = tf_target f
      then (if \<exists>x \<in> set fs. tf_target x = tid then map (\<lambda>_. f) (filter (\<lambda>x. tf_target x = tid) fs) else [f])
      else filter (\<lambda>x. tf_target x = tid) fs)"
proof -
  have "filter (\<lambda>x. tf_target x = t) (map (\<lambda>x. if tf_target x = tf_target f then f else x) fs) =
      (if t = tf_target f then map (\<lambda>_. f) (filter (\<lambda>x. tf_target x = t) fs)
       else filter (\<lambda>x. tf_target x = t) fs)" for t
    by (induction fs) auto
  then show ?thesis by (auto simp: upsert_facts_def filter_empty_conv)
qed

lemma facts_of_upsert:
  "facts_of (d\<lparr>facts := upsert_facts f (facts d)\<rparr>) tid = (if tid = tf_target f then Some f else facts_of d tid)"
  by (auto simp: facts_of_def filter_upsert filter_empty_conv split: list.split)

lemma facts_of_cong: "facts d' = facts d \<Longrightarrow> facts_of d' = facts_of d"
  by (simp add: facts_of_def fun_eq_iff)

text \<open>One result through \<open>hb_apply\<close>, for the detector's two heartbeat outcomes.\<close>

lemma hb_process:
  "Process hb_detector st OutcomeOK at =
     (st\<lparr>LastCheckAt := at, ConsecutiveFailures := 0, ConsecutiveUnmeasured := 0, Status := ''ok''\<rparr>,
      \<lparr>Open = False, Close = (Status st = ''down''), CloseReason = (if Status st = ''down'' then ''recovered'' else '''')\<rparr>)"
  "0 \<le> ConsecutiveFailures st \<Longrightarrow> Process hb_detector st OutcomeFail at =
     (st\<lparr>LastCheckAt := at, ConsecutiveFailures := ConsecutiveFailures st + 1, ConsecutiveUnmeasured := 0, Status := ''down''\<rparr>,
      \<lparr>Open = (Status st \<noteq> ''down''), Close = False, CloseReason = ''''\<rparr>)"
  by (simp_all add: process_defs hb_detector_def New_detector_def)

definition moved :: "db \<Rightarrow> db \<Rightarrow> int \<Rightarrow> int \<Rightarrow> bool" where
  "moved d d' tid mid \<longleftrightarrow>
     monitors d' = monitors d \<and> (\<forall>t. t \<noteq> tid \<longrightarrow> facts_of d' t = facts_of d t) \<and>
     (\<forall>m. m \<noteq> mid \<longrightarrow> open_ids d' m = open_ids d m)"

lemma insert_checks_simps [simp]:
  "monitors (insert_checks e d cs) = monitors d" "facts (insert_checks e d cs) = facts d"
  "incidents (insert_checks e d cs) = incidents d"
  by (simp_all add: insert_checks_def)

lemma hb_apply_effect:
  assumes "hb_apply e d tid mid sec name st oc = (err, d')" and "oc = OutcomeOK \<or> oc = OutcomeFail"
    and "0 \<le> ConsecutiveFailures st"
  shows "moved d d' tid mid"
    and "err \<noteq> None \<Longrightarrow> d' = d"
    and "err = None \<Longrightarrow> status_of d' tid = (if oc = OutcomeOK then ''ok'' else ''down'') \<and> 0 \<le> failures_of d' tid"
    and "err = None \<Longrightarrow> open_ids d' mid =
        (if oc = OutcomeFail \<and> Status st = ''down'' \<or> oc = OutcomeOK \<and> Status st \<noteq> ''down'' then open_ids d mid
         else open_ids d' mid)"
    and "err = None \<Longrightarrow> steady e \<Longrightarrow> \<exists>mon \<in> set (monitors d). m_id mon = mid \<Longrightarrow>
        open_ids d mid \<noteq> [] \<longleftrightarrow> Status st = ''down'' \<Longrightarrow> open_ids d' mid \<noteq> [] \<longleftrightarrow> oc = OutcomeFail"
proof -
  obtain st1 out where po: "Process hb_detector st oc (now e) = (st1, out)" by (metis surj_pair)
  let ?f = "\<lparr>tf_target = tid, tf_status = Status st1, tf_failures = ConsecutiveFailures st1,
              tf_unmeasured = ConsecutiveUnmeasured st1\<rparr>"
  let ?d1 = "d\<lparr>facts := upsert_facts ?f (facts d)\<rparr>"
  let ?d2 = "if has_pgs e then insert_checks e ?d1
      [\<lparr>ck_target = tid, ck_interval = sec, ck_ts = now e, ck_region = hb_region,
        ck_ok = (oc = OutcomeOK), ck_error = (if oc = OutcomeFail then ''missed'' else '''')\<rparr>] else ?d1"
  obtain d2 d3 d4 where
    d2: "d2 = ?d2" and
    d3: "d3 = (if Open out then snd (Open_incident e d2 mid (name @ '' has not checked in'') sec) else d2)" and
    d4: "d4 = (if Close out then snd (Close_incident e d3 mid ReasonRecovered) else d3)" by blast
  have d': "if fl e ''UpsertTargetFacts'' [tid] then err \<noteq> None \<and> d' = d else err = None \<and> d' = d4"
    using assms(1) unfolding d4 d3 d2
    by (auto simp: hb_apply_def po q_UpsertTargetFacts_def Let_def)
  have m2: "monitors d2 = monitors d" "facts d2 = facts ?d1" by (simp_all add: d2)
  then have mons: "monitors d4 = monitors d" and f4: "facts d4 = facts ?d1"
    by (simp_all add: d4 d3 Open_incident_def)
  have facts: "facts_of d4 t = (if t = tid then Some ?f else facts_of d t)" for t
    unfolding facts_of_cong [OF f4] facts_of_upsert by simp
  have ids2: "open_ids d2 m = open_ids d m" for m by (simp add: d2 open_ids_def)
  have other: "open_ids d4 m = open_ids d m" if "m \<noteq> mid" for m
    using that ids2 [of m] by (simp add: d4 d3 Open_incident_def open_ids_open_other open_ids_close)
  show "moved d d' tid mid"
    using d' mons facts other unfolding moved_def by (metis (no_types, lifting))
  show "d' = d" if "err \<noteq> None" using d' that by (simp split: if_splits)
  have st1: "Status st1 = (if oc = OutcomeOK then ''ok'' else ''down'')" "0 \<le> ConsecutiveFailures st1"
    "Open out \<longleftrightarrow> oc = OutcomeFail \<and> Status st \<noteq> ''down''" "Close out \<longleftrightarrow> oc = OutcomeOK \<and> Status st = ''down''"
    using po assms(2,3) hb_process(1) [of st "now e"] hb_process(2) [OF assms(3), of "now e"] by auto
  show "status_of d' tid = (if oc = OutcomeOK then ''ok'' else ''down'') \<and> 0 \<le> failures_of d' tid" if "err = None"
    using d' that facts [of tid] st1(1,2) by (simp add: status_of_def failures_of_def split: if_splits)
  have eq4: "d' = d4" if "err = None" using d' that by (metis option.distinct(1))
  show "open_ids d' mid =
        (if oc = OutcomeFail \<and> Status st = ''down'' \<or> oc = OutcomeOK \<and> Status st \<noteq> ''down'' then open_ids d mid
         else open_ids d' mid)" if "err = None"
    using eq4 [OF that] st1(3,4) ids2 [of mid] by (simp add: d4 d3)
  show "open_ids d' mid \<noteq> [] \<longleftrightarrow> oc = OutcomeFail"
    if as: "err = None" "steady e" "\<exists>mon \<in> set (monitors d). m_id mon = mid"
      "open_ids d mid \<noteq> [] \<longleftrightarrow> Status st = ''down''"
  proof -
    obtain mon where mon: "mon \<in> set (monitors d2)" "m_id mon = mid" using as(3) m2 by auto
    have "open_ids (snd (Open_incident e d2 mid (name @ '' has not checked in'') sec)) mid \<noteq> []"
      unfolding Open_incident_def by (rule open_ids_open_same [OF as(2) mon])
    moreover have "\<not> close_fails e mid" using as(2) by (simp add: steady_def close_fails_def)
    ultimately show ?thesis
      using eq4 [OF as(1)] st1(3,4) as(4) ids2 [of mid] assms(2)
      by (auto simp: d4 d3 open_ids_close)
  qed
qed

section \<open>Down exactly while open\<close>

text \<open>Ids and private targets are not shared (the schema's unique keys).\<close>

definition hb_wf :: "db \<Rightarrow> bool" where
  "hb_wf d \<longleftrightarrow> distinct (map m_id (monitors d)) \<and> distinct (map m_target_id (monitors d))"

definition hb_coupled :: "db \<Rightarrow> bool" where
  "hb_coupled d \<longleftrightarrow> (\<forall>m \<in> set (monitors d). m_kind m = ''heartbeat'' \<longrightarrow>
     (status_of d (m_target_id m) = ''down'' \<longleftrightarrow> open_ids d (m_id m) \<noteq> []) \<and> 0 \<le> failures_of d (m_target_id m))"

lemma distinct_keys:
  assumes "hb_wf d" and "m \<in> set (monitors d)" and "m' \<in> set (monitors d)" and "m' \<noteq> m"
  shows "m_id m' \<noteq> m_id m" and "m_target_id m' \<noteq> m_target_id m"
  using assms by (auto simp: hb_wf_def distinct_map dest: inj_onD)

lemma hb_apply_coupled:
  assumes "hb_apply e d (m_target_id mon) (m_id mon) sec name st oc = (err, d')"
    and "oc = OutcomeOK \<or> oc = OutcomeFail" and "steady e" and "hb_wf d" and "hb_coupled d"
    and "mon \<in> set (monitors d)" and "m_kind mon = ''heartbeat''"
    and "Status st = status_of d (m_target_id mon)" and "0 \<le> ConsecutiveFailures st"
  shows "hb_coupled d' \<and> monitors d' = monitors d \<and>
     (\<forall>m \<in> set (monitors d). m \<noteq> mon \<longrightarrow> facts_of d' (m_target_id m) = facts_of d (m_target_id m))"
proof (cases "err = None")
  case False
  with hb_apply_effect(2) [OF assms(1,2,9)] have "d' = d" by simp
  with assms(5) show ?thesis by simp
next
  case True
  note eff = hb_apply_effect [OF assms(1,2,9)]
  have mv: "monitors d' = monitors d" and fo: "t \<noteq> m_target_id mon \<Longrightarrow> facts_of d' t = facts_of d t"
    and oo: "m \<noteq> m_id mon \<Longrightarrow> open_ids d' m = open_ids d m" for t m
    using eff(1) by (simp_all add: moved_def)
  have "open_ids d (m_id mon) \<noteq> [] \<longleftrightarrow> Status st = ''down''"
    using assms(5,6,7,8) by (simp add: hb_coupled_def)
  with eff(5) [OF True assms(3)] assms(6) have op: "open_ids d' (m_id mon) \<noteq> [] \<longleftrightarrow> oc = OutcomeFail" by blast
  have "(status_of d' (m_target_id m) = ''down'' \<longleftrightarrow> open_ids d' (m_id m) \<noteq> []) \<and> 0 \<le> failures_of d' (m_target_id m)"
    if m: "m \<in> set (monitors d)" "m_kind m = ''heartbeat''" for m
  proof (cases "m = mon")
    case True
    with eff(3) [OF \<open>err = None\<close>] op assms(2) show ?thesis by auto
  next
    case False
    with distinct_keys [OF assms(4,6) m(1)] fo oo assms(5) m show ?thesis
      by (simp add: hb_coupled_def status_of_def failures_of_def)
  qed
  then show ?thesis
    using mv fo distinct_keys(2) [OF assms(4,6)] by (simp add: hb_coupled_def)
qed

lemma SetDue_same:
  assumes "q_SetHeartbeatDue e d secs mid = Some d'"
  shows "monitors d' = monitors d" "facts_of d' = facts_of d" "open_ids d' = open_ids d"
  using assms by (auto simp: q_SetHeartbeatDue_def Let_def facts_of_def open_ids_def fun_eq_iff split: if_splits)

lemma coupled_cong:
  assumes "monitors d' = monitors d" "facts_of d' = facts_of d" "open_ids d' = open_ids d"
  shows "hb_coupled d' = hb_coupled d"
  by (simp add: hb_coupled_def status_of_def failures_of_def assms)

lemma GetFacts_Row:
  "q_GetTargetFacts e d t = Row f \<Longrightarrow> facts_of d t = Some f"
  "q_GetTargetFacts e d t = NoRows \<Longrightarrow> facts_of d t = None"
  by (auto simp: q_GetTargetFacts_def facts_of_def split: if_splits)

lemma Ping_coupled:
  assumes "steady e" and "hb_wf d" and "hb_coupled d"
  shows "hb_coupled (snd (snd (Ping e d token))) \<and> monitors (snd (snd (Ping e d token))) = monitors d"
proof (cases "q_GetMonitorByPingToken e d token")
  case (Row mon)
  have "\<exists>xs. filter (\<lambda>m. m_ping_token m = Some token \<and> m_kind m = ''heartbeat'') (monitors d) = mon # xs"
    using Row by (simp add: q_GetMonitorByPingToken_def split: if_splits)
  then have "mon \<in> set (filter (\<lambda>m. m_ping_token m = Some token \<and> m_kind m = ''heartbeat'') (monitors d))"
    by (metis list.set_intros(1))
  then have mon: "mon \<in> set (monitors d)" "m_kind mon = ''heartbeat''"
    by simp_all
  let ?st0 = "\<lparr>Status = StatusNoData, ConsecutiveFailures = 0, ConsecutiveUnmeasured = 0, LastCheckAt = zero_time\<rparr>"
  let ?rd = "case q_GetTargetFacts e d (m_target_id mon) of
        Row f \<Rightarrow> Inr (?st0\<lparr>Status := tf_status f, ConsecutiveFailures := tf_failures f,
                         ConsecutiveUnmeasured := tf_unmeasured f\<rparr>)
      | NoRows \<Rightarrow> Inr ?st0 | Fault \<Rightarrow> Inl EFactsRead"
  show ?thesis
  proof (cases "m_paused mon \<or> (\<exists>err. ?rd = Inl err)")
    case True
    then show ?thesis using Row assms(3) by (auto simp: Ping_def Let_def)
  next
    case False
    then obtain st where st: "?rd = Inr st" by (cases ?rd) auto
    have agree: "Status st = status_of d (m_target_id mon)" "0 \<le> ConsecutiveFailures st"
      using st assms(3) mon GetFacts_Row [of e d "m_target_id mon"]
      by (auto simp: status_of_def failures_of_def hb_coupled_def split: res.splits)
    obtain err d1 where ap: "hb_apply e d (m_target_id mon) (m_id mon) (m_interval mon) (m_monitor_name mon) st OutcomeOK
        = (err, d1)" by (metis surj_pair)
    have c1: "hb_coupled d1" "monitors d1 = monitors d"
      using hb_apply_coupled [OF ap _ assms mon agree] by simp_all
    have step: "snd (snd (Ping e d token)) =
        (case err of Some _ \<Rightarrow> d1
         | None \<Rightarrow> (case q_SetHeartbeatDue e d1 (m_interval mon + grace_sec mon) (m_id mon) of None \<Rightarrow> d1 | Some d2 \<Rightarrow> d2))"
      using False st by (simp add: Ping_def Row ap Let_def split: option.split)
    show ?thesis
    proof (cases "err = None \<and> q_SetHeartbeatDue e d1 (m_interval mon + grace_sec mon) (m_id mon) \<noteq> None")
      case True
      then obtain d2 where d2: "q_SetHeartbeatDue e d1 (m_interval mon + grace_sec mon) (m_id mon) = Some d2" by auto
      with True step SetDue_same [OF d2] coupled_cong [OF SetDue_same [OF d2]] c1 show ?thesis by simp
    next
      case False
      then have "snd (snd (Ping e d token)) = d1" using step by (auto split: option.splits)
      with c1 show ?thesis by simp
    qed
  qed
qed (simp_all add: Ping_def assms(3))

lemma miss_one_shape:
  assumes "hb_apply e d (m_target_id m) (m_id m) (m_interval m) (m_monitor_name m)
     \<lparr>Status = s, ConsecutiveFailures = f, ConsecutiveUnmeasured = 0, LastCheckAt = zero_time\<rparr> OutcomeFail = (err, d1)"
  shows "monitors (miss_one e (m, s, f) d) = monitors d1 \<and> facts_of (miss_one e (m, s, f) d) = facts_of d1 \<and>
     open_ids (miss_one e (m, s, f) d) = open_ids d1"
  using assms SetDue_same by (auto simp: miss_one_def Let_def split: option.split)

lemma miss_fold_coupled:
  assumes "steady e" and "hb_wf d" and "hb_coupled d"
    and "distinct (map fst rows)"
    and "\<forall>(m, s, f) \<in> set rows. m \<in> set (monitors d) \<and> m_kind m = ''heartbeat'' \<and>
           s = status_of d (m_target_id m) \<and> f = failures_of d (m_target_id m)"
  shows "hb_coupled (fold (miss_one e) rows d) \<and> monitors (fold (miss_one e) rows d) = monitors d"
  using assms(2-)
proof (induction rows arbitrary: d)
  case (Cons row rows)
  obtain m s f where row: "row = (m, s, f)" by (cases row)
  with Cons.prems have m: "m \<in> set (monitors d)" "m_kind m = ''heartbeat''" "s = status_of d (m_target_id m)"
    "f = failures_of d (m_target_id m)" by auto
  let ?st = "\<lparr>Status = s, ConsecutiveFailures = f, ConsecutiveUnmeasured = 0, LastCheckAt = zero_time\<rparr>"
  obtain err d1 where ap: "hb_apply e d (m_target_id m) (m_id m) (m_interval m) (m_monitor_name m) ?st OutcomeFail
      = (err, d1)" by (metis surj_pair)
  have pos: "0 \<le> ConsecutiveFailures ?st" using Cons.prems(2) m by (simp add: hb_coupled_def)
  have c1: "hb_coupled d1" "monitors d1 = monitors d"
    "\<And>m'. m' \<in> set (monitors d) \<Longrightarrow> m' \<noteq> m \<Longrightarrow> facts_of d1 (m_target_id m') = facts_of d (m_target_id m')"
    using hb_apply_coupled [OF ap _ assms(1) Cons.prems(1,2) m(1,2) _ pos] m(3) by simp_all
  let ?d2 = "miss_one e row d"
  have d2: "monitors ?d2 = monitors d1" "facts_of ?d2 = facts_of d1" "open_ids ?d2 = open_ids d1"
    using miss_one_shape [OF ap] row by simp_all
  have "hb_coupled (fold (miss_one e) rows ?d2) \<and> monitors (fold (miss_one e) rows ?d2) = monitors ?d2"
  proof (rule Cons.IH)
    show "hb_wf ?d2" using Cons.prems(1) c1(2) d2(1) by (simp add: hb_wf_def)
    show "hb_coupled ?d2" using c1(1) coupled_cong [OF d2] by simp
    show "distinct (map fst rows)" using Cons.prems(3) by simp
    have "m' \<noteq> m" if "(m', s', f') \<in> set rows" for m' s' f'
    proof -
      have "m' \<in> set (map fst rows)" using that by force
      then show ?thesis using Cons.prems(3) row by auto
    qed
    then show "\<forall>(m', s', f') \<in> set rows. m' \<in> set (monitors ?d2) \<and> m_kind m' = ''heartbeat'' \<and>
        s' = status_of ?d2 (m_target_id m') \<and> f' = failures_of ?d2 (m_target_id m')"
      using Cons.prems(4) c1(2,3) d2(1,2) by (fastforce simp: status_of_def failures_of_def)
  qed
  with c1(2) d2(1) show ?case by simp
qed simp

lemma listed_rows:
  assumes "q_ListMissedHeartbeats e d = Row rows" and "hb_wf d"
  shows "distinct (map fst rows)"
    and "\<forall>(m, s, f) \<in> set rows. m \<in> set (monitors d) \<and> m_kind m = ''heartbeat'' \<and>
           s = status_of d (m_target_id m) \<and> f = failures_of d (m_target_id m)"
proof -
  let ?ms = "take 500 (sort_key (\<lambda>m. the (due_of d (m_target_id m))) (filter (missed e d) (monitors d)))"
  let ?g = "\<lambda>m. (m, case facts_of d (m_target_id m) of None \<Rightarrow> (''nodata'', 0)
                    | Some f \<Rightarrow> (tf_status f, tf_failures f))"
  have rows: "rows = map ?g ?ms"
    using assms(1) by (auto simp: q_ListMissedHeartbeats_def split: if_splits)
  have "distinct (monitors d)" using assms(2) by (simp add: hb_wf_def distinct_map)
  then show "distinct (map fst rows)" by (simp add: rows comp_def)
  show "\<forall>(m, s, f) \<in> set rows. m \<in> set (monitors d) \<and> m_kind m = ''heartbeat'' \<and>
           s = status_of d (m_target_id m) \<and> f = failures_of d (m_target_id m)"
    by (auto simp: rows status_of_def failures_of_def missed_def dest!: in_set_takeD split: option.split)
qed

lemma hb_Tick_coupled:
  assumes "steady e" and "hb_wf d" and "hb_coupled d"
  shows "hb_coupled (snd (hb_Tick e d)) \<and> monitors (snd (hb_Tick e d)) = monitors d"
  using miss_fold_coupled [OF assms listed_rows [OF _ assms(2)]] assms(3)
  by (auto simp: hb_Tick_def split: res.split)

text \<open>A history of the service: pings with any token and sweeps, each in an environment of its own.\<close>

inductive hb_run :: "db \<Rightarrow> db \<Rightarrow> bool" where
  hb_start: "hb_run d d"
| hb_ping: "hb_run d d1 \<Longrightarrow> steady e \<Longrightarrow> hb_run d (snd (snd (Ping e d1 token)))"
| hb_tick: "hb_run d d1 \<Longrightarrow> steady e \<Longrightarrow> hb_run d (snd (hb_Tick e d1))"

lemma hb_run_coupled:
  "hb_run d d' \<Longrightarrow> hb_wf d \<Longrightarrow> hb_coupled d \<Longrightarrow> hb_coupled d' \<and> monitors d' = monitors d"
proof (induction rule: hb_run.induct)
  case (hb_ping d d1 e token)
  then have "hb_wf d1" by (simp add: hb_wf_def)
  with hb_ping Ping_coupled [of e d1 token] show ?case by simp
next
  case (hb_tick d d1 e)
  then have "hb_wf d1" by (simp add: hb_wf_def)
  with hb_tick hb_Tick_coupled [of e d1] show ?case by simp
qed simp

text \<open>C32. A heartbeat is down exactly while its incident is open.

  Through any pings and sweeps whose lifecycle calls succeed (every other call may fail), the facts of a heartbeat's
  target say down exactly when its monitor has an open incident.\<close>

theorem heartbeat_down_iff_open:
  assumes "hb_run d d'" and "hb_wf d" and "hb_coupled d"
    and "m \<in> set (monitors d)" and "m_kind m = ''heartbeat''"
  shows "status_of d' (m_target_id m) = ''down'' \<longleftrightarrow> (\<exists>r \<in> set (incidents d'). open_for (m_id m) r)"
  using hb_run_coupled [OF assms(1,2,3)] assms(4,5)
  by (auto simp: hb_coupled_def open_ids_def filter_empty_conv)

definition cron_monitor :: monitor_row where
  "cron_monitor = \<lparr>m_id = 8, m_tenant = 3, m_project = 4, m_kind = ''heartbeat'', m_monitor_name = ''backup'',
     m_target = '''', m_paused = False, m_paused_by = '''', m_target_id = 11, m_interval = 60,
     m_grace = None, m_ping_token = Some ''tok''\<rparr>"

definition cron_db :: db where
  "cron_db = empty_db\<lparr>monitors := [cron_monitor], due := [(11, 0)]\<rparr>"

theorem heartbeat_down_iff_open_witness:
  "let d' = snd (hb_Tick quiet_env cron_db)
   in status_of d' 11 = ''down'' \<longleftrightarrow> (\<exists>r \<in> set (incidents d'). open_for 8 r)"
proof -
  have "hb_run cron_db (snd (hb_Tick quiet_env cron_db))"
    by (intro hb_run.intros) (simp add: quiet_env_def steady_def)
  moreover have "hb_wf cron_db" by (simp add: hb_wf_def cron_db_def)
  moreover have "hb_coupled cron_db"
    by (simp add: hb_coupled_def cron_db_def empty_db_def status_of_def failures_of_def facts_of_def open_ids_def)
  ultimately show ?thesis
    using heartbeat_down_iff_open [of cron_db "snd (hb_Tick quiet_env cron_db)" cron_monitor]
    by (simp add: cron_db_def cron_monitor_def)
qed

section \<open>An open that failed is not retried\<close>

lemma miss_keeps_lost:
  assumes "hb_wf d" and "mon \<in> set (monitors d)"
    and "status_of d (m_target_id mon) = ''down''" and "0 \<le> failures_of d (m_target_id mon)"
    and "m \<in> set (monitors d)" and "m = mon \<longrightarrow> s = ''down''" and "0 \<le> f"
  shows "monitors (miss_one e (m, s, f) d) = monitors d \<and>
     status_of (miss_one e (m, s, f) d) (m_target_id mon) = ''down'' \<and>
     0 \<le> failures_of (miss_one e (m, s, f) d) (m_target_id mon) \<and>
     open_ids (miss_one e (m, s, f) d) (m_id mon) = open_ids d (m_id mon)"
proof -
  let ?st = "\<lparr>Status = s, ConsecutiveFailures = f, ConsecutiveUnmeasured = 0, LastCheckAt = zero_time\<rparr>"
  obtain err d1 where ap: "hb_apply e d (m_target_id m) (m_id m) (m_interval m) (m_monitor_name m) ?st OutcomeFail
      = (err, d1)" by (metis surj_pair)
  have pos: "0 \<le> ConsecutiveFailures ?st" using assms(7) by simp
  note eff = hb_apply_effect [OF ap _ pos]
  have "monitors d1 = monitors d \<and> status_of d1 (m_target_id mon) = ''down'' \<and>
      0 \<le> failures_of d1 (m_target_id mon) \<and> open_ids d1 (m_id mon) = open_ids d (m_id mon)"
  proof (cases "err = None")
    case False
    with eff(2) assms(3,4) show ?thesis by simp
  next
    case True
    have mv: "moved d d1 (m_target_id m) (m_id m)" using eff(1) by simp
    show ?thesis
    proof (cases "m = mon")
      case True
      with eff(3,4) [OF disjI2] \<open>err = None\<close> mv assms(3,6) show ?thesis by (simp add: moved_def)
    next
      case False
      with distinct_keys [OF assms(1,5,2)] mv assms(3,4) show ?thesis
        by (simp add: moved_def status_of_def failures_of_def)
    qed
  qed
  with miss_one_shape [OF ap] show ?thesis by (simp add: status_of_def failures_of_def)
qed

definition lost_open :: "monitor_row \<Rightarrow> db \<Rightarrow> bool" where
  "lost_open mon d \<longleftrightarrow> hb_wf d \<and> mon \<in> set (monitors d) \<and> status_of d (m_target_id mon) = ''down'' \<and>
     open_ids d (m_id mon) = [] \<and> (\<forall>m \<in> set (monitors d). 0 \<le> failures_of d (m_target_id m))"

lemma miss_fold_lost:
  assumes "hb_wf d" and "mon \<in> set (monitors d)" and "status_of d (m_target_id mon) = ''down''"
    and "0 \<le> failures_of d (m_target_id mon)" and "open_ids d (m_id mon) = []"
    and "\<forall>(m, s, f) \<in> set rows. m \<in> set (monitors d) \<and> 0 \<le> f \<and> (m = mon \<longrightarrow> s = ''down'')"
  shows "open_ids (fold (miss_one e) rows d) (m_id mon) = [] \<and>
     status_of (fold (miss_one e) rows d) (m_target_id mon) = ''down'' \<and>
     monitors (fold (miss_one e) rows d) = monitors d"
  using assms
proof (induction rows arbitrary: d)
  case (Cons row rows)
  obtain m s f where row: "row = (m, s, f)" by (cases row)
  have keep: "monitors (miss_one e row d) = monitors d" "status_of (miss_one e row d) (m_target_id mon) = ''down''"
    "0 \<le> failures_of (miss_one e row d) (m_target_id mon)" "open_ids (miss_one e row d) (m_id mon) = []"
    using miss_keeps_lost [OF Cons.prems(1-4), of m s f e] Cons.prems(5,6) row by auto
  have "hb_wf (miss_one e row d)" using Cons.prems(1) keep(1) by (simp add: hb_wf_def)
  from Cons.IH [OF this _ keep(2,3,4)] keep(1) Cons.prems(2,6) show ?case by simp
qed simp

text \<open>An outage whose open failed never gets its incident.

  Once a heartbeat's target is recorded as down while its monitor has no open incident, which is what one failed
  \<^verbatim>\<open>Open\<close> leaves behind (its error is dropped after the facts are written), the next sweep, with every call
  succeeding or not, opens none and leaves the target down: the detector opens only on the transition, which has passed.\<close>

theorem failed_open_is_never_retried:
  assumes "hb_wf d" and "mon \<in> set (monitors d)" and "status_of d (m_target_id mon) = ''down''"
    and "\<not> (\<exists>r \<in> set (incidents d). open_for (m_id mon) r)"
    and "\<forall>m \<in> set (monitors d). 0 \<le> failures_of d (m_target_id m)"
    and "d' = snd (hb_Tick e d)"
  shows "\<not> (\<exists>r \<in> set (incidents d'). open_for (m_id mon) r) \<and> status_of d' (m_target_id mon) = ''down'' \<and>
     monitors d' = monitors d"
proof -
  have none: "open_ids d (m_id mon) = []" using assms(4) by (auto simp: open_ids_def filter_empty_conv)
  have "open_ids d' (m_id mon) = [] \<and> status_of d' (m_target_id mon) = ''down'' \<and> monitors d' = monitors d"
  proof (cases "q_ListMissedHeartbeats e d")
    case (Row rows)
    have "\<forall>(m, s, f) \<in> set rows. m \<in> set (monitors d) \<and> 0 \<le> f \<and> (m = mon \<longrightarrow> s = ''down'')"
      using listed_rows(2) [OF Row assms(1)] assms(3,5) by fastforce
    from miss_fold_lost [OF assms(1-3) _ none this, of e] assms(2,5) Row show ?thesis
      by (simp add: assms(6) hb_Tick_def)
  qed (use none assms(3) in \<open>simp_all add: assms(6) hb_Tick_def\<close>)
  then show ?thesis by (auto simp: open_ids_def filter_empty_conv)
qed

definition closed_env :: env where
  "closed_env = quiet_env\<lparr>fl := (\<lambda>q _. q = ''OpenIncident'')\<rparr>"

lemma cron_lost:
  "let d = snd (hb_Tick closed_env cron_db)
   in monitors d = [cron_monitor] \<and> status_of d 11 = ''down'' \<and> incidents d = [] \<and> failures_of d 11 = 1"
  by code_simp

theorem failed_open_is_never_retried_witness:
  "\<not> (\<exists>r \<in> set (incidents (snd (hb_Tick (quiet_env\<lparr>now := 10 ^ 12\<rparr>) (snd (hb_Tick closed_env cron_db))))).
        open_for 8 r)"
  using failed_open_is_never_retried [of "snd (hb_Tick closed_env cron_db)" cron_monitor
      "snd (hb_Tick (quiet_env\<lparr>now := 10 ^ 12\<rparr>) (snd (hb_Tick closed_env cron_db)))" "quiet_env\<lparr>now := 10 ^ 12\<rparr>"]
    cron_lost [unfolded Let_def]
  by (simp add: hb_wf_def cron_monitor_def)

end
