(* ===== verification/Fingerprint.thy ===== *)
theory Fingerprint
  imports Fnv
begin

text \<open>
  The shape hash of a log message, \<^verbatim>\<open>back/internal/ingest/fingerprint.go\<close>: the masked template and its
  FNV-64a hash. The index loop is recursion on the rest of the message.
\<close>

definition isHex :: "char \<Rightarrow> bool" where
  "isHex c \<longleftrightarrow> between CHR ''0'' CHR ''9'' c \<or> between CHR ''a'' CHR ''f'' c \<or> between CHR ''A'' CHR ''F'' c"

definition is_quote :: "char \<Rightarrow> bool" where
  "is_quote c \<longleftrightarrow> c = DQUOTE \<or> c = SQUOTE"

text \<open>The rest after the quote that closes \<open>c\<close> on this line, if one does.\<close>

definition close_quote :: "char \<Rightarrow> string \<Rightarrow> string option" where
  "close_quote c s =
     (case dropWhile (\<lambda>x. x \<noteq> LF \<and> x \<noteq> c) s of
        [] \<Rightarrow> None
      | x # rest \<Rightarrow> if x = c then Some rest else None)"

lemma close_quote_length: "close_quote c s = Some r \<Longrightarrow> length r < length s"
  using length_dropWhile_le [of "\<lambda>x. x \<noteq> LF \<and> x \<noteq> c" s]
  by (auto simp: close_quote_def split: list.splits if_splits)

definition hex_template :: "string \<Rightarrow> string" where
  "hex_template run = (if length run \<ge> 8 \<or> (\<exists>c \<in> set run. is_digit c) then ''#'' else run)"

function mask :: "string \<Rightarrow> string" where
  "mask [] = []"
| "mask (c # s) =
     (if is_quote c then
        (case close_quote c s of
           Some rest \<Rightarrow> c # CHR ''?'' # c # mask rest
         | None \<Rightarrow> c # mask s)
      else if isHex c then hex_template (takeWhile isHex (c # s)) @ mask (dropWhile isHex (c # s))
      else c # mask s)"
  by pat_completeness auto
termination
  by (relation "measure length") (auto simp: close_quote_length less_SucI le_imp_less_Suc length_dropWhile_le)

declare mask.simps(2) [simp del]

definition Fingerprint :: "string \<Rightarrow> u64" where
  "Fingerprint msg = (if msg = '''' then 0 else fnv64a (mask msg))"

section \<open>The template is stable\<close>

lemma hex_not_quote: "is_quote c \<Longrightarrow> \<not> isHex c"
  by (auto simp: is_quote_def isHex_def between_def)

lemma hex_not_special: "isHex c \<Longrightarrow> c \<noteq> LF \<and> c \<noteq> CHR ''#'' \<and> c \<noteq> CHR ''?''"
  by (auto simp: isHex_def between_def)

lemma mask_quote:
  "is_quote c \<Longrightarrow> mask (c # s) = (case close_quote c s of Some r \<Rightarrow> c # CHR ''?'' # c # mask r | None \<Rightarrow> c # mask s)"
  by (simp add: mask.simps(2))

lemma mask_other: "\<not> is_quote c \<Longrightarrow> \<not> isHex c \<Longrightarrow> mask (c # s) = c # mask s"
  by (simp add: mask.simps(2))

lemma takeWhile_run: "\<forall>c \<in> set r. P c \<Longrightarrow> s = [] \<or> \<not> P (hd s) \<Longrightarrow> takeWhile P (r @ s) = r"
  by (cases s) (auto simp: takeWhile_append)

lemma dropWhile_run: "\<forall>c \<in> set r. P c \<Longrightarrow> s = [] \<or> \<not> P (hd s) \<Longrightarrow> dropWhile P (r @ s) = s"
  by (cases s) (auto simp: dropWhile_append)

text \<open>A maximal run of hex bytes is one step of the loop.\<close>

lemma mask_run:
  assumes "r \<noteq> []" and "\<forall>c \<in> set r. isHex c" and "s = [] \<or> \<not> isHex (hd s)"
  shows "mask (r @ s) = hex_template r @ mask s"
proof -
  obtain c r' where r: "r = c # r'" using assms(1) by (cases r) auto
  then have "isHex c" "\<not> is_quote c" using assms(2) hex_not_quote by auto
  moreover have "takeWhile isHex (c # r' @ s) = r" "dropWhile isHex (c # r' @ s) = s"
    using takeWhile_run [OF assms(2,3)] dropWhile_run [OF assms(2,3)] r by simp_all
  ultimately show ?thesis by (simp add: r mask.simps(2))
qed

lemma hex_split:
  assumes "isHex c"
  obtains r t where "c # s = r @ t" "r \<noteq> []" "\<forall>x \<in> set r. isHex x" "t = [] \<or> \<not> isHex (hd t)" "length t < length (c # s)"
proof (rule that)
  show "c # s = takeWhile isHex (c # s) @ dropWhile isHex (c # s)" by simp
  show "takeWhile isHex (c # s) \<noteq> []" using assms by simp
  show "\<forall>x \<in> set (takeWhile isHex (c # s)). isHex x" by (auto dest: set_takeWhileD)
  show "dropWhile isHex (c # s) = [] \<or> \<not> isHex (hd (dropWhile isHex (c # s)))" using hd_dropWhile by blast
  show "length (dropWhile isHex (c # s)) < length (c # s)"
    using assms by (simp add: le_imp_less_Suc length_dropWhile_le)
qed

text \<open>An induction that follows the loop: by quoted strings, lone quotes, hex runs and other bytes.\<close>

lemma mask_cases_induct [case_names Nil quoted lone run other]:
  assumes "P []"
    and "\<And>c s r. is_quote c \<Longrightarrow> close_quote c s = Some r \<Longrightarrow> P r \<Longrightarrow> P (c # s)"
    and "\<And>c s. is_quote c \<Longrightarrow> close_quote c s = None \<Longrightarrow> P s \<Longrightarrow> P (c # s)"
    and "\<And>r s. r \<noteq> [] \<Longrightarrow> \<forall>c \<in> set r. isHex c \<Longrightarrow> s = [] \<or> \<not> isHex (hd s) \<Longrightarrow> P s \<Longrightarrow> P (r @ s)"
    and "\<And>c s. \<not> is_quote c \<Longrightarrow> \<not> isHex c \<Longrightarrow> P s \<Longrightarrow> P (c # s)"
  shows "P s"
proof (induction s rule: length_induct)
  case (1 s)
  show ?case
  proof (cases s)
    case (Cons c t)
    show ?thesis
    proof (cases "is_quote c")
      case True
      show ?thesis
      proof (cases "close_quote c t")
        case None
        with assms(3) [OF True None] 1 Cons show ?thesis by simp
      next
        case (Some r)
        with assms(2) [OF True Some] 1 Cons close_quote_length [OF Some] show ?thesis by simp
      qed
    next
      case nq: False
      show ?thesis
      proof (cases "isHex c")
        case True
        then obtain r u where "c # t = r @ u" "r \<noteq> []" "\<forall>x \<in> set r. isHex x" "u = [] \<or> \<not> isHex (hd u)"
          "length u < length (c # t)" by (rule hex_split)
        with assms(4) 1 Cons show ?thesis by metis
      next
        case False
        with assms(5) [OF nq False] 1 Cons show ?thesis by simp
      qed
    qed
  qed (simp add: assms(1))
qed

lemma hd_mask: "s = [] \<or> \<not> isHex (hd s) \<Longrightarrow> mask s = [] \<or> \<not> isHex (hd (mask s))"
  by (cases s) (auto simp: mask.simps(2) hex_not_quote split: option.split)

lemma close_quote_None: "close_quote c s = None \<longleftrightarrow> c \<notin> set (takeWhile (\<lambda>x. x \<noteq> LF) s)" if "c \<noteq> LF"
  using that by (induction s) (auto simp: close_quote_def)

lemma close_quote_line:
  assumes "close_quote c s = Some r" and "c \<noteq> LF"
  obtains u where "s = u @ c # r" "LF \<notin> set u"
proof -
  let ?u = "takeWhile (\<lambda>x. x \<noteq> LF \<and> x \<noteq> c) s"
  have "dropWhile (\<lambda>x. x \<noteq> LF \<and> x \<noteq> c) s = c # r"
    using assms(1) by (auto simp: close_quote_def split: list.splits if_splits)
  then have "s = ?u @ c # r" by (metis takeWhile_dropWhile_id)
  moreover have "LF \<notin> set ?u" by (auto dest: set_takeWhileD)
  ultimately show ?thesis by (rule that)
qed

lemma line_append: "LF \<notin> set u \<Longrightarrow> set (takeWhile (\<lambda>x. x \<noteq> LF) (u @ v)) = set u \<union> set (takeWhile (\<lambda>x. x \<noteq> LF) v)"
  by (subst takeWhile_append) auto

lemma quote_not_LF: "is_quote c \<Longrightarrow> c \<noteq> LF"
  by (auto simp: is_quote_def)

text \<open>Masking a line brings no quote into it that was not there.\<close>

lemma mask_line_quotes:
  "is_quote q \<Longrightarrow> q \<in> set (takeWhile (\<lambda>x. x \<noteq> LF) (mask s)) \<Longrightarrow> q \<in> set (takeWhile (\<lambda>x. x \<noteq> LF) s)"
proof (induction s rule: mask_cases_induct)
  case (quoted c s r)
  obtain u where "s = u @ c # r" "LF \<notin> set u"
    by (rule close_quote_line [OF quoted(2) quote_not_LF [OF quoted(1)]])
  with quoted show ?case
    using quote_not_LF [OF quoted(1)] by (auto simp: mask_quote line_append is_quote_def split: if_splits)
next
  case (lone c s)
  with quote_not_LF [OF lone(1)] show ?case by (auto simp: mask_quote)
next
  case (run r s)
  have "LF \<notin> set r" "q \<notin> set r" using run(2,5) hex_not_special hex_not_quote by blast+
  moreover have "q \<noteq> CHR ''#''" using run(5) by (auto simp: is_quote_def)
  ultimately have nl: "LF \<notin> set r" "LF \<notin> set (hex_template r)" "q \<notin> set (hex_template r)"
    by (simp_all add: hex_template_def)
  with run show ?case by (simp add: mask_run line_append)
next
  case (other c s)
  then show ?case by (auto simp: mask_other split: if_splits)
qed simp

text \<open>The template of a message is its own template.

  Masking a masked message changes nothing, so a message that is already a template (a line the ingest
  path masked once, or one that carries the placeholders) lands in the same error group.\<close>

theorem mask_idempotent: "mask (mask msg) = mask msg"
proof (induction msg rule: mask_cases_induct)
  case (quoted c s r)
  have "close_quote c (CHR ''?'' # c # mask r) = Some (mask r)"
    using quoted(1) by (auto simp: close_quote_def is_quote_def)
  with quoted show ?case by (simp add: mask_quote)
next
  case (lone c s)
  have "close_quote c (mask s) = None"
    using lone mask_line_quotes [OF lone(1)] close_quote_None [OF quote_not_LF [OF lone(1)]] by blast
  with lone show ?case by (simp add: mask_quote)
next
  case (run r s)
  have hash: "\<not> is_quote CHR ''#''" "\<not> isHex CHR ''#''"
    by (simp_all add: is_quote_def isHex_def between_def)
  show ?case
  proof (cases "hex_template r = r")
    case True
    with run hd_mask [OF run(3)] show ?thesis by (simp add: mask_run)
  next
    case False
    then have "hex_template r = ''#''" by (auto simp: hex_template_def)
    with run hash show ?thesis by (simp add: mask_run mask_other)
  qed
qed (simp_all add: mask_other)

section \<open>Numbers do not tell messages apart\<close>

lemma numbers_same_template:
  assumes "d1 \<noteq> []" "d2 \<noteq> []" "\<forall>c \<in> set d1 \<union> set d2. is_digit c"
  shows "hex_template d1 = hex_template d2"
  using assms by (cases d1; cases d2) (auto simp: hex_template_def)

lemma digit_hex: "is_digit c \<Longrightarrow> isHex c"
  by (simp add: is_digit_def isHex_def)

text \<open>Two messages that differ in a number have one fingerprint.

  Replacing a number of a message by any other number leaves its fingerprint unchanged, wherever it
  stands as a token of its own outside quoted strings: after text without quotes that does not end in a hex byte, before
  anything that does not start with one.\<close>

theorem Fingerprint_ignores_numbers:
  assumes "d1 \<noteq> []" and "d2 \<noteq> []" and "\<forall>c \<in> set d1 \<union> set d2. is_digit c"
    and "\<forall>c \<in> set u. \<not> is_quote c" and "u = [] \<or> \<not> isHex (last u)" and "v = [] \<or> \<not> isHex (hd v)"
  shows "Fingerprint (u @ d1 @ v) = Fingerprint (u @ d2 @ v)"
proof -
  have step: "mask (d @ v) = hex_template d @ mask v" if "d \<noteq> []" "\<forall>c \<in> set d. is_digit c" for d
    by (rule mask_run) (use that assms(6) digit_hex in auto)
  have "mask (u @ d1 @ v) = mask (u @ d2 @ v)"
    using assms(4,5)
  proof (induction u rule: mask_cases_induct)
    case Nil
    with step [of d1] step [of d2] numbers_same_template [OF assms(1-3)] assms(1-3) show ?case by simp
  next
    case (run r s)
    have s: "s \<noteq> []" using run(1,2,6) by auto
    then have hd: "s @ d @ v = [] \<or> \<not> isHex (hd (s @ d @ v))" for d using run(3) by simp
    from run s have "mask (s @ d1 @ v) = mask (s @ d2 @ v)" by simp
    then show ?case using mask_run [OF run(1,2) hd] by simp
  next
    case (other c s)
    then have "mask (s @ d1 @ v) = mask (s @ d2 @ v)" by (cases s) auto
    with other show ?case by (simp add: mask_other)
  qed auto
  then show ?thesis using assms(1,2) by (simp add: Fingerprint_def)
qed

theorem Fingerprint_ignores_numbers_witness:
  "Fingerprint (''user '' @ ''42'' @ '' not found'') = Fingerprint (''user '' @ ''7'' @ '' not found'')"
  by (rule Fingerprint_ignores_numbers) (simp_all add: is_digit_def between_def is_quote_def isHex_def)

end
