(* ===== verification/Normalize.thy ===== *)
theory Normalize
  imports Prelude
begin

text \<open>
  Named events, \<^verbatim>\<open>back/internal/ingest/normalize/normalize.go\<close>: which line is stored under a name, and
  which names belong to the service.
\<close>

definition ReservedPrefix :: string where "ReservedPrefix = ''uc.''"

record event =
  ev_Name :: string
  ev_Reserved :: bool

definition is_trimmed :: "char \<Rightarrow> bool" where
  "is_trimmed c \<longleftrightarrow> c = CHR '' '' \<or> c = TAB \<or> c = LF \<or> c = CR"

definition trimLower :: "string \<Rightarrow> string" where
  "trimLower s =
     (let start = scan is_trimmed s 0;
          kept = drop start s;
          kept = rev (dropWhile is_trimmed (rev kept))
      in map lower_byte kept)"

definition Classify :: "string \<Rightarrow> bool \<Rightarrow> event" where
  "Classify name named =
     (let n = trimLower name
      in if has_prefix n ReservedPrefix then \<lparr>ev_Name = '''', ev_Reserved = True\<rparr>
         else if named then \<lparr>ev_Name = n, ev_Reserved = False\<rparr>
         else if has_prefix n ''deploy'' \<or> contains n ''deployment'' \<or> n = ''install_verified''
         then \<lparr>ev_Name = n, ev_Reserved = False\<rparr>
         else \<lparr>ev_Name = '''', ev_Reserved = False\<rparr>)"

lemma trimLower_eq:
  "trimLower s = map lower_byte (rev (dropWhile is_trimmed (rev (dropWhile is_trimmed s))))"
proof -
  have "drop (length (takeWhile is_trimmed s)) s = dropWhile is_trimmed s"
    by (simp add: dropWhile_eq_drop)
  then show ?thesis by (simp add: trimLower_def scan_takeWhile Let_def)
qed

lemma lower_trimmed [simp]: "is_trimmed (lower_byte c) \<longleftrightarrow> is_trimmed c"
proof (cases "is_upper c")
  case True
  then have c: "65 \<le> byte c" "byte c \<le> 90" by (simp_all add: is_upper_def between_def)
  then have b: "byte (lower_byte c) = byte c + 32" using True by (simp add: lower_byte_def of_char_of)
  have "\<not> is_trimmed x" if "65 \<le> byte x" for x using that by (auto simp: is_trimmed_def)
  with b c show ?thesis by simp
qed (simp add: lower_byte_def)

lemma dropWhile_lower: "dropWhile is_trimmed (map lower_byte s) = map lower_byte (dropWhile is_trimmed s)"
  by (simp add: dropWhile_map comp_def)

lemma dropWhile_idem: "dropWhile P (dropWhile P s) = dropWhile P s"
  by (induction s) auto

lemma trim_both_idem:
  assumes "t = rev (dropWhile P (rev (dropWhile P s)))"
  shows "rev (dropWhile P (rev (dropWhile P t))) = t"
proof -
  have "dropWhile P t = t"
  proof (cases t)
    case (Cons c u)
    have "dropWhile P s = t @ rev (takeWhile P (rev (dropWhile P s)))"
      unfolding assms by (metis rev_append rev_rev_ident takeWhile_dropWhile_id)
    then have "hd (dropWhile P s) = c" "dropWhile P s \<noteq> []" using Cons by (metis append_Cons list.sel(1) list.distinct(1))+
    then have "\<not> P c" using hd_dropWhile by metis
    with Cons show ?thesis by simp
  qed simp
  then show ?thesis by (simp add: assms dropWhile_idem)
qed

lemma trimLower_idem: "trimLower (trimLower s) = trimLower s"
  using trim_both_idem [OF refl, of is_trimmed s]
  by (simp add: trimLower_eq dropWhile_lower rev_map comp_def)

text \<open>A stored event name is its own name, and never one of the service's.

  Whatever the sender declares, the name an event is stored under is trimmed and lower-cased already, does not start with
  \<^verbatim>\<open>uc.\<close>, and classifying it again as a declared name gives the same name; a line that uses the reserved prefix, in any case
  and with any blanks around it, is reserved and has no name, marked or not.\<close>

theorem Classify_names_are_canonical:
  "(let ev = Classify name named
    in trimLower (ev_Name ev) = ev_Name ev \<and> \<not> has_prefix (ev_Name ev) ''uc.'' \<and>
       Classify (ev_Name ev) True = \<lparr>ev_Name = ev_Name ev, ev_Reserved = False\<rparr> \<and>
       ev_Reserved ev = has_prefix (trimLower name) ''uc.'' \<and> (ev_Reserved ev \<longrightarrow> ev_Name ev = ''''))"
proof -
  have "trimLower '''' = ''''" by (simp add: trimLower_eq)
  moreover have "\<not> has_prefix '''' ''uc.''" by (simp add: has_prefix_def)
  ultimately show ?thesis
    by (simp add: Classify_def Let_def ReservedPrefix_def trimLower_idem)
qed

theorem Classify_names_are_canonical_witness:
  "trimLower (ev_Name (Classify '' UC.pay '' True)) = ev_Name (Classify '' UC.pay '' True) \<and>
   Classify (ev_Name (Classify '' UC.pay '' True)) True = \<lparr>ev_Name = ev_Name (Classify '' UC.pay '' True), ev_Reserved = False\<rparr> \<and>
   ev_Reserved (Classify '' UC.pay '' True) \<and> ev_Name (Classify '' UC.pay '' True) = ''''"
proof -
  have "has_prefix (trimLower '' UC.pay '') ''uc.''"
    by code_simp
  with Classify_names_are_canonical [of "'' UC.pay ''" True] show ?thesis unfolding Let_def by blast
qed

end
