(* ===== verification/CardLimit.thy ===== *)
theory CardLimit
  imports Prelude
begin

text \<open>
  The distinct-value cap, \<^verbatim>\<open>back/internal/ingest/cardinality/cardinality.go\<close>. A Go map is a map, a set of strings the list of
  its elements; every call holds the mutex, so calls are a sequence.
\<close>

definition Sentinel :: string where "Sentinel = ''__over__''"
definition DefaultCeiling :: int where "DefaultCeiling = 1000"

record fieldTracker =
  ft_seen :: "string list"
  ft_full :: bool

record Limiter =
  ceiling_of :: int
  fields_of :: "string \<rightharpoonup> fieldTracker"

definition New_limiter :: "int \<Rightarrow> Limiter" where
  "New_limiter c = \<lparr>ceiling_of = (if c \<le> 0 then DefaultCeiling else c), fields_of = Map.empty\<rparr>"

definition Add_value :: "Limiter \<Rightarrow> string \<Rightarrow> string \<Rightarrow> (string \<times> bool) \<times> Limiter" where
  "Add_value l field value =
     (let ft = (case fields_of l field of Some ft \<Rightarrow> ft | None \<Rightarrow> \<lparr>ft_seen = [], ft_full = False\<rparr>);
          put = (\<lambda>ft. l\<lparr>fields_of := (fields_of l)(field \<mapsto> ft)\<rparr>)
      in if value \<in> set (ft_seen ft) then ((value, False), put ft)
         else if \<not> ft_full ft then
           (if int (length (ft_seen ft)) \<ge> ceiling_of l
            then ((Sentinel, True), put (ft\<lparr>ft_full := True\<rparr>))
            else ((value, False), put (ft\<lparr>ft_seen := value # ft_seen ft\<rparr>)))
         else ((Sentinel, False), put ft))"

fun add_values :: "Limiter \<Rightarrow> (string \<times> string) list \<Rightarrow> (string \<times> bool) list \<times> Limiter" where
  "add_values l [] = ([], l)"
| "add_values l ((f, v) # rest) =
     (case Add_value l f v of (r, l) \<Rightarrow> (case add_values l rest of (rs, l) \<Rightarrow> (r # rs, l)))"

section \<open>The cap\<close>

definition tracker :: "Limiter \<Rightarrow> string \<Rightarrow> fieldTracker" where
  "tracker l f = (case fields_of l f of Some ft \<Rightarrow> ft | None \<Rightarrow> \<lparr>ft_seen = [], ft_full = False\<rparr>)"

text \<open>
  What a tracker knows after the answers \<open>h\<close> of its field (value, stored, warned): the seen values are the
  values let through, and the field is full once it has warned.
\<close>

type_synonym answer = "string \<times> string \<times> bool"

definition field_inv :: "int \<Rightarrow> fieldTracker \<Rightarrow> answer list \<Rightarrow> bool" where
  "field_inv c ft h \<longleftrightarrow> int (length (ft_seen ft)) \<le> c \<and>
     (\<forall>(v, s, w) \<in> set h. s = v \<and> v \<in> set (ft_seen ft) \<or> s = Sentinel) \<and>
     length (filter (\<lambda>(v, s, w). w) h) = of_bool (ft_full ft)"

definition answers :: "string \<Rightarrow> (string \<times> string) list \<Rightarrow> (string \<times> bool) list \<Rightarrow> answer list" where
  "answers f calls rs = map (\<lambda>((g, v), s, w). (v, s, w)) (filter (\<lambda>((g, v), s, w). g = f) (zip calls rs))"

lemma answers_simps [simp]:
  "answers f [] rs = []"
  "answers f ((g, v) # calls) ((s, w) # rs) = (if g = f then [(v, s, w)] else []) @ answers f calls rs"
  by (simp_all add: answers_def)

lemma tracker_upd: "tracker (l\<lparr>fields_of := (fields_of l)(f \<mapsto> ft)\<rparr>) g = (if g = f then ft else tracker l g)"
  by (simp add: tracker_def)

lemma Add_value_cases:
  obtains (known) "v \<in> set (ft_seen (tracker l f))"
      "Add_value l f v = ((v, False), l\<lparr>fields_of := (fields_of l)(f \<mapsto> tracker l f)\<rparr>)"
  | (tips) "v \<notin> set (ft_seen (tracker l f))" "\<not> ft_full (tracker l f)" "ceiling_of l \<le> int (length (ft_seen (tracker l f)))"
      "Add_value l f v = ((Sentinel, True), l\<lparr>fields_of := (fields_of l)(f \<mapsto> (tracker l f)\<lparr>ft_full := True\<rparr>)\<rparr>)"
  | (earns) "v \<notin> set (ft_seen (tracker l f))" "\<not> ft_full (tracker l f)" "int (length (ft_seen (tracker l f))) < ceiling_of l"
      "Add_value l f v = ((v, False), l\<lparr>fields_of := (fields_of l)(f \<mapsto> (tracker l f)\<lparr>ft_seen := v # ft_seen (tracker l f)\<rparr>)\<rparr>)"
  | (over) "v \<notin> set (ft_seen (tracker l f))" "ft_full (tracker l f)"
      "Add_value l f v = ((Sentinel, False), l\<lparr>fields_of := (fields_of l)(f \<mapsto> tracker l f)\<rparr>)"
  by (cases "v \<in> set (ft_seen (tracker l f))"; cases "ft_full (tracker l f)";
      cases "ceiling_of l \<le> int (length (ft_seen (tracker l f)))")
    (simp_all add: Add_value_def Let_def tracker_def [symmetric])

lemma field_inv_step:
  assumes "field_inv (ceiling_of l) (tracker l g) h" and "Add_value l f v = ((s, w), l')"
  shows "field_inv (ceiling_of l') (tracker l' g) (h @ (if f = g then [(v, s, w)] else []))"
  using assms
  by (cases "f = g"; cases rule: Add_value_cases [of v l f]) (auto simp: field_inv_def tracker_upd)

lemma Add_value_ceiling: "Add_value l f v = (r, l') \<Longrightarrow> ceiling_of l' = ceiling_of l"
  by (cases rule: Add_value_cases [of v l f]) auto

lemma field_inv_run:
  assumes "field_inv (ceiling_of l) (tracker l g) h" and "add_values l calls = (rs, l')"
  shows "field_inv (ceiling_of l') (tracker l' g) (h @ answers g calls rs) \<and> ceiling_of l' = ceiling_of l"
  using assms
proof (induction calls arbitrary: l h rs)
  case (Cons call calls)
  obtain f v where call: "call = (f, v)" by (cases call)
  obtain s w l1 where a: "Add_value l f v = ((s, w), l1)" by (metis surj_pair)
  obtain rs1 l2 where r: "add_values l1 calls = (rs1, l2)" by (metis surj_pair)
  from Cons.prems(2) a r call have eq: "rs = (s, w) # rs1" "l' = l2" by auto
  from Cons.IH [OF field_inv_step [OF Cons.prems(1) a], of rs1] r Add_value_ceiling [OF a]
  show ?case by (cases "f = g") (auto simp: call eq)
qed simp

text \<open>A field never grows past its ceiling, and warns once.

  After any sequence of calls on a new limiter, the values stored under a field other than the sentinel are among at most
  \<open>ceiling\<close> distinct ones, every answer is the value given or the sentinel, and the field has warned at most once.\<close>

theorem cardinality_is_capped:
  assumes "add_values (New_limiter c) calls = (rs, l')"
  shows "card {s. \<exists>v w. (v, s, w) \<in> set (answers f calls rs) \<and> s \<noteq> Sentinel} \<le> nat (if c \<le> 0 then 1000 else c) \<and>
     (\<forall>(v, s, w) \<in> set (answers f calls rs). s = v \<or> s = Sentinel) \<and>
     length (filter (\<lambda>(v, s, w). w) (answers f calls rs)) \<le> 1"
proof -
  have "field_inv (ceiling_of (New_limiter c)) (tracker (New_limiter c) f) []"
    by (simp add: field_inv_def New_limiter_def tracker_def DefaultCeiling_def)
  from field_inv_run [OF this assms]
  have inv: "field_inv (if c \<le> 0 then 1000 else c) (tracker l' f) (answers f calls rs)"
    by (auto simp: New_limiter_def DefaultCeiling_def split: if_splits)
  let ?seen = "ft_seen (tracker l' f)"
  have "{s. \<exists>v w. (v, s, w) \<in> set (answers f calls rs) \<and> s \<noteq> Sentinel} \<subseteq> set ?seen"
    using inv by (auto simp: field_inv_def)
  from card_mono [OF _ this] have "card {s. \<exists>v w. (v, s, w) \<in> set (answers f calls rs) \<and> s \<noteq> Sentinel} \<le> length ?seen"
    using card_length le_trans by blast
  moreover have "length ?seen \<le> nat (if c \<le> 0 then 1000 else c)"
    using inv unfolding field_inv_def by (metis nat_int nat_mono)
  moreover have "\<forall>(v, s, w) \<in> set (answers f calls rs). s = v \<or> s = Sentinel"
    using inv by (auto simp: field_inv_def)
  moreover have "length (filter (\<lambda>(v, s, w). w) (answers f calls rs)) \<le> 1"
    using inv by (simp add: field_inv_def)
  ultimately show ?thesis by linarith
qed

definition host_calls :: "(string \<times> string) list" where
  "host_calls = [(''host'', ''a''), (''host'', ''b''), (''host'', ''c''), (''host'', ''a'')]"

theorem cardinality_is_capped_witness:
  "let rs = fst (add_values (New_limiter 1) host_calls)
   in rs = [(''a'', False), (Sentinel, True), (Sentinel, False), (''a'', False)] \<and>
      length (filter (\<lambda>(v, s, w). w) (answers ''host'' host_calls rs)) \<le> 1"
proof -
  have "fst (add_values (New_limiter 1) host_calls) =
      [(''a'', False), (Sentinel, True), (Sentinel, False), (''a'', False)]"
    by (simp add: host_calls_def New_limiter_def Add_value_def Let_def)
  moreover have "length (filter (\<lambda>(v, s, w). w) (answers ''host'' host_calls (fst (add_values (New_limiter 1) host_calls)))) \<le> 1"
    using cardinality_is_capped [OF prod.collapse [symmetric]] by blast
  ultimately show ?thesis by (simp add: Let_def)
qed

end
