(* ===== verification/GoBytes.thy ===== *)
theory GoBytes
  imports Prelude
begin

text \<open>
  The parts of Go's \<^verbatim>\<open>bytes\<close> and \<^verbatim>\<open>strings\<close> packages the ingest path splits and trims bodies with. White
  space is the six ASCII bytes; the Unicode spaces \<^verbatim>\<open>TrimSpace\<close> also knows, and case folding outside ASCII, are
  left out.
\<close>

definition is_space :: "char \<Rightarrow> bool" where
  "is_space c \<longleftrightarrow> c = CHR '' '' \<or> between (CHR 0x09) (CHR 0x0D) c"

definition trim_left :: "(char \<Rightarrow> bool) \<Rightarrow> string \<Rightarrow> string" where
  "trim_left p s = dropWhile p s"

definition trim_right :: "(char \<Rightarrow> bool) \<Rightarrow> string \<Rightarrow> string" where
  "trim_right p s = rev (dropWhile p (rev s))"

definition TrimSpace :: "string \<Rightarrow> string" where
  "TrimSpace s = trim_right is_space (trim_left is_space s)"

definition ToLower :: "string \<Rightarrow> string" where
  "ToLower s = map lower_byte s"

definition upper_byte :: "char \<Rightarrow> char" where
  "upper_byte c = (if is_lower c then char_of (byte c - 32) else c)"

definition ToUpper :: "string \<Rightarrow> string" where
  "ToUpper s = map upper_byte s"

text \<open>\<^verbatim>\<open>bytes.Split(b, {'\n'})\<close>: never empty.\<close>

fun split_lines :: "string \<Rightarrow> string list" where
  "split_lines [] = [[]]"
| "split_lines (c # s) =
     (if c = LF then [] # split_lines s
      else case split_lines s of l # ls \<Rightarrow> (c # l) # ls | [] \<Rightarrow> [[c]])"

lemma split_lines_not_Nil [simp]: "split_lines s \<noteq> []"
  by (induction s) (auto split: list.split)

lemma split_lines_no_LF: "l \<in> set (split_lines s) \<Longrightarrow> LF \<notin> set l"
proof (induction s arbitrary: l)
  case (Cons c s)
  then show ?case by (cases "split_lines s") (auto split: if_splits)
qed simp

text \<open>Putting the lines back together with the newline gives the body.\<close>

fun unlines :: "string list \<Rightarrow> string" where
  "unlines [] = []"
| "unlines [l] = l"
| "unlines (l # ls) = l @ LF # unlines ls"

lemma unlines_Cons: "ls \<noteq> [] \<Longrightarrow> unlines (l # ls) = l @ LF # unlines ls"
  by (cases ls) auto

lemma unlines_split [simp]: "unlines (split_lines s) = s"
proof (induction s)
  case (Cons c s)
  obtain l ls where l: "split_lines s = l # ls" by (cases "split_lines s") auto
  show ?case
  proof (cases "c = LF")
    case True
    with Cons show ?thesis by (simp add: unlines_Cons)
  next
    case False
    have "unlines ((c # l) # ls) = c # unlines (l # ls)" by (cases ls) auto
    with False Cons l show ?thesis by simp
  qed
qed simp

lemma TrimSpace_Nil [simp]: "TrimSpace [] = []"
  by (simp add: TrimSpace_def trim_left_def trim_right_def)

lemma TrimSpace_empty: "TrimSpace s = [] \<longleftrightarrow> (\<forall>c \<in> set s. is_space c)"
  by (auto simp: TrimSpace_def trim_left_def trim_right_def dest: set_dropWhileD)
    (metis dropWhile_eq_Nil_conv hd_dropWhile hd_in_set)

end
