(* ===== verification/Decode.thy ===== *)
theory Decode
  imports Json GoBytes
begin

text \<open>
  The wire decoders, \<^verbatim>\<open>back/internal/ingest/decode/decode.go\<close>: sniffing a body's form and turning it into
  records. JSON parsing, JSON rendering and \<^verbatim>\<open>time.Parse\<close> are the fields of a \<open>codec\<close>; a decoded object is its
  list of members in the order one map iteration visits them.
\<close>

record codec =
  parse :: "string \<Rightarrow> json option"
  marshal :: "json \<Rightarrow> string"
  tparse :: "string \<Rightarrow> string \<Rightarrow> time option"

datatype Format =
    FormatUnknown | FormatNDJSON | FormatJSONArray | FormatJSONObject | FormatPlain | FormatSyslog
  | FormatOTLP | FormatSentry | FormatAlertmanager | FormatLoki

datatype WarningCode = WarnTimestampAbsent | WarnLevelUnknown | WarnUnparseable

text \<open>The tally of warnings, one entry per warning raised; \<open>warn_count\<close> is what the receipt shows.\<close>

type_synonym warningSet = "WarningCode list"

definition warn_count :: "warningSet \<Rightarrow> WarningCode \<Rightarrow> nat" where
  "warn_count ws c = count_list ws c"

record Record =
  r_Time :: time
  r_Level :: string
  r_LevelRaw :: string
  r_Service :: string
  r_Host :: string
  r_Message :: string
  r_Attrs :: "(string \<times> string) list"
  r_Raw :: string
  r_Named :: bool

definition empty_record :: Record where
  "empty_record = \<lparr>r_Time = zero_time, r_Level = '''', r_LevelRaw = '''', r_Service = '''', r_Host = '''',
     r_Message = '''', r_Attrs = [], r_Raw = '''', r_Named = False\<rparr>"

definition set_attr :: "string \<Rightarrow> string \<Rightarrow> Record \<Rightarrow> Record" where
  "set_attr k v r = r\<lparr>r_Attrs := AList.update k v (r_Attrs r)\<rparr>"

section \<open>Values, times\<close>

fun toString :: "codec \<Rightarrow> json \<Rightarrow> string" where
  "toString cd (JStr s) = s"
| "toString cd (JNum s) = s"
| "toString cd (JBool b) = (if b then ''true'' else ''false'')"
| "toString cd JNull = ''''"
| "toString cd v = marshal cd v"

definition layouts :: "string list" where
  "layouts = [''2006-01-02T15:04:05.999999999Z07:00'', ''2006-01-02T15:04:05Z07:00'',
     ''2006-01-02T15:04:05Z07:00'', ''2006-01-02 15:04:05'', ''2006/01/02 15:04:05'']"

fun parse_layouts :: "codec \<Rightarrow> string list \<Rightarrow> string \<Rightarrow> time" where
  "parse_layouts cd [] s = zero_time"
| "parse_layouts cd (l # ls) s = (case tparse cd l s of Some t \<Rightarrow> t | None \<Rightarrow> parse_layouts cd ls s)"

definition parseTime :: "codec \<Rightarrow> string \<Rightarrow> time" where
  "parseTime cd s = (if s = '''' then zero_time else parse_layouts cd layouts s)"

text \<open>The digit loop \<^verbatim>\<open>ns = ns*10 + int64(s[i]-'0')\<close>, in 64-bit arithmetic; \<open>None\<close> at the first non-digit.\<close>

fun digits64 :: "int \<Rightarrow> string \<Rightarrow> int option" where
  "digits64 ns [] = Some ns"
| "digits64 ns (c # s) =
     (if is_digit c then digits64 (wrap64 (ns * 10 + int (byte c - 48))) s else None)"

definition parseLokiTS :: "codec \<Rightarrow> string \<Rightarrow> time" where
  "parseLokiTS cd s =
     (if s = '''' then zero_time
      else case digits64 0 s of
        None \<Rightarrow> parseTime cd s
      | Some ns \<Rightarrow>
          if ns > 10 ^ 18 then Unix 0 ns
          else if ns > 10 ^ 15 then Unix 0 (wrap64 (ns * 10 ^ 6))
          else if ns > 10 ^ 12 then Unix 0 (wrap64 (ns * 10 ^ 9))
          else Unix ns 0)"

definition parseUnixNano :: "string \<Rightarrow> time" where
  "parseUnixNano s =
     (if s = '''' then zero_time
      else case digits64 0 s of None \<Rightarrow> zero_time | Some ns \<Rightarrow> Unix 0 ns)"

section \<open>Sniffing\<close>

text \<open>\<^verbatim>\<open>json.Unmarshal\<close> into \<^verbatim>\<open>map[string]any\<close> and \<^verbatim>\<open>[]map[string]any\<close>: \<^verbatim>\<open>null\<close> is the nil map or slice.\<close>

fun as_obj :: "json \<Rightarrow> jobj option" where
  "as_obj (JObj ob) = Some ob"
| "as_obj JNull = Some []"
| "as_obj _ = None"

fun as_objs :: "json list \<Rightarrow> (json \<times> jobj) list option" where
  "as_objs [] = Some []"
| "as_objs (v # vs) =
     (case as_obj v of
        None \<Rightarrow> None
      | Some ob \<Rightarrow> (case as_objs vs of None \<Rightarrow> None | Some obs \<Rightarrow> Some ((v, ob) # obs)))"

fun as_arr :: "json \<Rightarrow> (json \<times> jobj) list option" where
  "as_arr (JArr vs) = as_objs vs"
| "as_arr JNull = Some []"
| "as_arr _ = None"

definition parse_obj :: "codec \<Rightarrow> string \<Rightarrow> (json \<times> jobj) option" where
  "parse_obj cd b =
     (case parse cd b of None \<Rightarrow> None
      | Some v \<Rightarrow> (case as_obj v of None \<Rightarrow> None | Some ob \<Rightarrow> Some (v, ob)))"

definition parse_arr :: "codec \<Rightarrow> string \<Rightarrow> (json \<times> jobj) list option" where
  "parse_arr cd b = (case parse cd b of None \<Rightarrow> None | Some v \<Rightarrow> as_arr v)"

definition has_key :: "jobj \<Rightarrow> string \<Rightarrow> bool" where
  "has_key ob k \<longleftrightarrow> map_of ob k \<noteq> None"

definition firstLine :: "string \<Rightarrow> string" where
  "firstLine b =
     (case index_byte b LF of Some i \<Rightarrow> trim_right (\<lambda>c. c = CR) (take i b) | None \<Rightarrow> b)"

definition hasManyLines :: "string \<Rightarrow> bool" where
  "hasManyLines b \<longleftrightarrow> length (filter (\<lambda>ln. length (TrimSpace ln) > 0) (split_lines b)) > 1"

definition looksLikeAlertmanager :: "codec \<Rightarrow> string \<Rightarrow> bool" where
  "looksLikeAlertmanager cd b =
     (case parse_arr cd b of
        None \<Rightarrow> False
      | Some [] \<Rightarrow> False
      | Some ((_, ob) # _) \<Rightarrow> has_key ob ''status'' \<and> has_key ob ''labels'' \<and> has_key ob ''startsAt'')"

text \<open>The digit loop of the priority: at most four digits, then \<^verbatim>\<open>'>'\<close>.\<close>

fun pri_loop :: "string \<Rightarrow> nat \<Rightarrow> int \<Rightarrow> int option" where
  "pri_loop [] i n = None"
| "pri_loop (c # s) i n =
     (if is_digit c then
        (if i + 1 > 4 then None else pri_loop s (i + 1) (n * 10 + int (byte c - 48)))
      else if c = CHR ''>'' then Some n else None)"

definition parseSyslogPri :: "string \<Rightarrow> int option" where
  "parseSyslogPri b =
     (if length b < 3 \<or> b ! 0 \<noteq> CHR ''<'' then None else pri_loop (tl b) 1 0)"

definition blank_left :: "char \<Rightarrow> bool" where
  "blank_left c \<longleftrightarrow> c = CHR '' '' \<or> c = TAB \<or> c = CR \<or> c = LF"

definition sniff :: "codec \<Rightarrow> string \<Rightarrow> string \<Rightarrow> Format" where
  "sniff cd body contentType =
     (let ct = ToLower (TrimSpace contentType);
          trimmed = trim_left blank_left body
      in if length trimmed = 0 then FormatUnknown
         else if contains ct ''sentry'' then FormatSentry
         else if contains ct ''loki'' then FormatLoki
         else
           let fl = firstLine trimmed in
           if length fl > 0 \<and> fl ! 0 = CHR ''{'' then
             (case parse_obj cd fl of
                Some (_, head) \<Rightarrow>
                  if has_key head ''event_id'' \<and> hasManyLines trimmed then FormatSentry
                  else if has_key head ''resourceLogs'' then FormatOTLP
                  else if has_key head ''streams'' then FormatLoki
                  else if hasManyLines trimmed then FormatNDJSON
                  else FormatJSONObject
              | None \<Rightarrow> if hasManyLines trimmed then FormatNDJSON else FormatJSONObject)
           else if trimmed ! 0 = CHR ''['' then
             (if looksLikeAlertmanager cd trimmed then FormatAlertmanager else FormatJSONArray)
           else if trimmed ! 0 = CHR ''<'' \<and> parseSyslogPri trimmed \<noteq> None then FormatSyslog
           else FormatPlain)"

section \<open>Levels\<close>

definition canonical :: "string \<Rightarrow> string option" where
  "canonical l =
     (if l \<in> set ['''', ''info'', ''notice''] then Some ''info''
      else if l \<in> set [''warn'', ''warning''] then Some ''warn''
      else if l \<in> set [''error'', ''err'', ''fatal'', ''critical'', ''crit'', ''panic'', ''emerg'',
                       ''emergency'', ''alert''] then Some ''error''
      else if l = ''debug'' then Some ''debug''
      else if l = ''trace'' then Some ''trace''
      else None)"

definition normalizeLevel :: "Record \<Rightarrow> warningSet \<Rightarrow> Record \<times> warningSet" where
  "normalizeLevel r ws =
     (let raw = (if length (r_Level r) > 32 then take 32 (r_Level r) else r_Level r);
          r' = r\<lparr>r_LevelRaw := raw\<rparr>
      in case canonical (ToLower (TrimSpace (r_Level r))) of
           Some l \<Rightarrow> (r'\<lparr>r_Level := l\<rparr>, ws)
         | None \<Rightarrow> (r'\<lparr>r_Level := ''info''\<rparr>, ws @ [WarnLevelUnknown]))"

section \<open>The decoders\<close>

definition member_step :: "codec \<Rightarrow> string \<times> json \<Rightarrow> Record \<Rightarrow> Record" where
  "member_step cd kv r =
     (case kv of (k, v) \<Rightarrow>
        if k \<in> set [''ts'', ''time'', ''timestamp'', ''@timestamp''] then r\<lparr>r_Time := parseTime cd (toString cd v)\<rparr>
        else if k \<in> set [''level'', ''severity''] then r\<lparr>r_Level := toString cd v\<rparr>
        else if k \<in> set [''service'', ''svc''] then r\<lparr>r_Service := toString cd v\<rparr>
        else if k \<in> set [''host'', ''hostname''] then r\<lparr>r_Host := toString cd v\<rparr>
        else if k \<in> set [''msg'', ''message''] then r\<lparr>r_Message := toString cd v\<rparr>
        else if k = ''uc.event'' then r\<lparr>r_Named := (v = JBool True)\<rparr>
        else set_attr k (toString cd v) r)"

definition recordsFromObject :: "codec \<Rightarrow> json \<times> jobj \<Rightarrow> Record list" where
  "recordsFromObject cd vo =
     (case vo of (v, ob) \<Rightarrow>
        let r = empty_record\<lparr>r_Raw := marshal cd v\<rparr>;
            r = fold (member_step cd) ob r;
            r = (if r_Message r = '''' then r\<lparr>r_Message := r_Raw r\<rparr> else r)
        in [r])"

fun ndjson_loop :: "codec \<Rightarrow> string list \<Rightarrow> warningSet \<Rightarrow> Record list \<times> warningSet" where
  "ndjson_loop cd [] ws = ([], ws)"
| "ndjson_loop cd (ln # lns) ws =
     (let ln = TrimSpace ln in
      if length ln = 0 then ndjson_loop cd lns ws
      else case parse_obj cd ln of
             None \<Rightarrow> ndjson_loop cd lns (ws @ [WarnUnparseable])
           | Some vo \<Rightarrow>
               (case ndjson_loop cd lns ws of (rs, ws) \<Rightarrow> (recordsFromObject cd vo @ rs, ws)))"

definition decodeNDJSON :: "codec \<Rightarrow> string \<Rightarrow> warningSet \<Rightarrow> Record list \<times> warningSet" where
  "decodeNDJSON cd body ws = ndjson_loop cd (split_lines body) ws"

definition decodeJSONArray :: "codec \<Rightarrow> string \<Rightarrow> warningSet \<Rightarrow> Record list \<times> warningSet" where
  "decodeJSONArray cd body ws =
     (case parse_arr cd body of
        None \<Rightarrow> ([], ws @ [WarnUnparseable])
      | Some arr \<Rightarrow> (concat (map (recordsFromObject cd) arr), ws))"

definition decodeJSONObject :: "codec \<Rightarrow> string \<Rightarrow> warningSet \<Rightarrow> Record list \<times> warningSet" where
  "decodeJSONObject cd body ws =
     (case parse_obj cd body of
        None \<Rightarrow> ([], ws @ [WarnUnparseable])
      | Some (v, ob) \<Rightarrow>
          (case map_of ob ''event'' of
             Some ev \<Rightarrow>
               if length ob \<le> 4 then
                 let r = empty_record\<lparr>r_Message := toString cd ev, r_Named := True\<rparr>;
                     r = (case map_of ob ''name'' of Some n \<Rightarrow> set_attr ''name'' (toString cd n) r | None \<Rightarrow> r)
                 in ([r], ws)
               else (recordsFromObject cd (v, ob), ws)
           | None \<Rightarrow> (recordsFromObject cd (v, ob), ws)))"

definition decodePlain :: "string \<Rightarrow> Record list" where
  "decodePlain body =
     map (\<lambda>ln. empty_record\<lparr>r_Message := ln\<rparr>)
       (filter (\<lambda>ln. length (TrimSpace ln) \<noteq> 0) (map (trim_right (\<lambda>c. c = CR)) (split_lines body)))"

definition syslogSeverity :: "int \<Rightarrow> string" where
  "syslogSeverity sev =
     (if sev = 0 \<or> sev = 1 \<or> sev = 2 then ''error''
      else if sev = 3 then ''error''
      else if sev = 4 then ''warn''
      else if sev = 5 then ''info''
      else if sev = 6 then ''info''
      else if sev = 7 then ''debug''
      else ''info'')"

fun syslog_loop :: "string list \<Rightarrow> warningSet \<Rightarrow> Record list \<times> warningSet" where
  "syslog_loop [] ws = ([], ws)"
| "syslog_loop (ln # lns) ws =
     (let ln = TrimSpace ln in
      if length ln = 0 then syslog_loop lns ws
      else case parseSyslogPri ln of
             None \<Rightarrow> syslog_loop lns (ws @ [WarnUnparseable])
           | Some pri \<Rightarrow>
               (case syslog_loop lns ws of (rs, ws) \<Rightarrow>
                  (empty_record\<lparr>r_Message := ln, r_Level := syslogSeverity (pri mod 8)\<rparr> # rs, ws)))"

definition decodeSyslog :: "string \<Rightarrow> warningSet \<Rightarrow> Record list \<times> warningSet" where
  "decodeSyslog body ws = syslog_loop (split_lines body) ws"

section \<open>Typed documents\<close>

text \<open>
  \<^verbatim>\<open>encoding/json\<close> into structs: a member fills the field whose name (or tag) it equals up to case, the last one
  winning; \<^verbatim>\<open>null\<close> leaves the zero value; a value of another type is an error, and the decoders drop the body on it.
\<close>

definition struct_field :: "jobj \<Rightarrow> string \<Rightarrow> json" where
  "struct_field ob name =
     (case filter (\<lambda>(k, v). ToLower k = name) ob of [] \<Rightarrow> JNull | xs \<Rightarrow> snd (last xs))"

fun as_str :: "json \<Rightarrow> string option" where
  "as_str (JStr s) = Some s"
| "as_str JNull = Some ''''"
| "as_str _ = None"

fun all_some :: "('a \<Rightarrow> 'b option) \<Rightarrow> 'a list \<Rightarrow> 'b list option" where
  "all_some f [] = Some []"
| "all_some f (x # xs) =
     (case f x of None \<Rightarrow> None
      | Some y \<Rightarrow> (case all_some f xs of None \<Rightarrow> None | Some ys \<Rightarrow> Some (y # ys)))"

fun as_list :: "(json \<Rightarrow> 'b option) \<Rightarrow> json \<Rightarrow> 'b list option" where
  "as_list f (JArr vs) = all_some f vs"
| "as_list f JNull = Some []"
| "as_list f _ = None"

definition as_str_map :: "json \<Rightarrow> (string \<times> string) list option" where
  "as_str_map v =
     (case as_obj v of None \<Rightarrow> None
      | Some ob \<Rightarrow> all_some (\<lambda>(k, v). map_option (Pair k) (as_str v)) ob)"

type_synonym loki_stream = "(string \<times> string) list \<times> string list list"

definition as_loki_stream :: "json \<Rightarrow> loki_stream option" where
  "as_loki_stream v =
     (case as_obj v of None \<Rightarrow> None
      | Some ob \<Rightarrow>
          (case as_str_map (struct_field ob ''stream'') of None \<Rightarrow> None
           | Some labels \<Rightarrow>
               (case as_list (as_list as_str) (struct_field ob ''values'') of None \<Rightarrow> None
                | Some vals \<Rightarrow> Some (labels, vals))))"

definition as_loki_push :: "json \<Rightarrow> loki_stream list option" where
  "as_loki_push v =
     (case as_obj v of None \<Rightarrow> None | Some ob \<Rightarrow> as_list as_loki_stream (struct_field ob ''streams''))"

record otlp_record =
  TimeUnixNano :: string
  SeverityText :: string
  otlp_Body :: "jobj option"
  otlp_Attributes :: "(string \<times> jobj) list"

text \<open>A \<^verbatim>\<open>map[string]any\<close> field that may stay nil.\<close>

fun as_any_map :: "json \<Rightarrow> jobj option option" where
  "as_any_map (JObj ob) = Some (Some ob)"
| "as_any_map JNull = Some None"
| "as_any_map _ = None"

definition as_otlp_attr :: "json \<Rightarrow> (string \<times> jobj) option" where
  "as_otlp_attr v =
     (case as_obj v of None \<Rightarrow> None
      | Some ob \<Rightarrow>
          (case as_str (struct_field ob ''key'') of None \<Rightarrow> None
           | Some k \<Rightarrow> map_option (\<lambda>m. (k, case m of None \<Rightarrow> [] | Some x \<Rightarrow> x)) (as_any_map (struct_field ob ''value''))))"

definition as_otlp_record :: "json \<Rightarrow> otlp_record option" where
  "as_otlp_record v =
     (case as_obj v of None \<Rightarrow> None
      | Some ob \<Rightarrow>
          (case as_str (struct_field ob ''timeunixnano'') of None \<Rightarrow> None
           | Some ts \<Rightarrow>
               (case as_str (struct_field ob ''severitytext'') of None \<Rightarrow> None
                | Some sev \<Rightarrow>
                    (case as_any_map (struct_field ob ''body'') of None \<Rightarrow> None
                     | Some body \<Rightarrow>
                         map_option (\<lambda>attrs. \<lparr>TimeUnixNano = ts, SeverityText = sev, otlp_Body = body,
                                       otlp_Attributes = attrs\<rparr>)
                           (as_list as_otlp_attr (struct_field ob ''attributes''))))))"

text \<open>The struct tags as written: the field \<^verbatim>\<open>ScopeLogs\<close> is tagged \<^verbatim>\<open>logRecords\<close>.\<close>

definition as_otlp_scope :: "json \<Rightarrow> otlp_record list option" where
  "as_otlp_scope v =
     (case as_obj v of None \<Rightarrow> None | Some ob \<Rightarrow> as_list as_otlp_record (struct_field ob ''logrecords''))"

definition as_otlp_resource :: "json \<Rightarrow> otlp_record list list option" where
  "as_otlp_resource v =
     (case as_obj v of None \<Rightarrow> None | Some ob \<Rightarrow> as_list as_otlp_scope (struct_field ob ''logrecords''))"

definition as_otlp_doc :: "json \<Rightarrow> otlp_record list list list option" where
  "as_otlp_doc v =
     (case as_obj v of None \<Rightarrow> None | Some ob \<Rightarrow> as_list as_otlp_resource (struct_field ob ''resourcelogs''))"

section \<open>Loki, Alertmanager, OTLP, Sentry\<close>

definition label_step :: "string \<times> string \<Rightarrow> Record \<Rightarrow> Record" where
  "label_step kv r =
     (case kv of (k, v) \<Rightarrow>
        if k = ''level'' then r\<lparr>r_Level := v\<rparr>
        else if k = ''service'' \<or> k = ''job'' then r\<lparr>r_Service := v\<rparr>
        else if k = ''host'' \<or> k = ''instance'' then r\<lparr>r_Host := v\<rparr>
        else set_attr k v r)"

definition loki_pair :: "codec \<Rightarrow> (string \<times> string) list \<Rightarrow> string list \<Rightarrow> Record list" where
  "loki_pair cd labels pair =
     (case pair of
        [] \<Rightarrow> []
      | [line] \<Rightarrow> [fold label_step labels (empty_record\<lparr>r_Message := line\<rparr>)]
      | ts # line # _ \<Rightarrow>
          [fold label_step labels (empty_record\<lparr>r_Message := line, r_Time := parseLokiTS cd ts\<rparr>)])"

definition decodeLoki :: "codec \<Rightarrow> string \<Rightarrow> warningSet \<Rightarrow> Record list \<times> warningSet" where
  "decodeLoki cd body ws =
     (case (case parse cd body of None \<Rightarrow> None | Some v \<Rightarrow> as_loki_push v) of
        None \<Rightarrow> ([], ws @ [WarnUnparseable])
      | Some streams \<Rightarrow>
          (concat (map (\<lambda>(labels, vals). concat (map (loki_pair cd labels) vals)) streams), ws))"

definition alert_label :: "codec \<Rightarrow> string \<times> json \<Rightarrow> Record \<Rightarrow> Record" where
  "alert_label cd kv r =
     (case kv of (k, v) \<Rightarrow>
        let val = toString cd v;
            r = set_attr k val r;
            r = (if k = ''alertname'' then r\<lparr>r_Message := val\<rparr> else r)
        in if k = ''severity'' then r\<lparr>r_Level := val\<rparr> else r)"

definition alert_record :: "codec \<Rightarrow> jobj \<Rightarrow> Record" where
  "alert_record cd a =
     (let r = empty_record;
          r = (case map_of a ''labels'' of Some (JObj labels) \<Rightarrow> fold (alert_label cd) labels r | _ \<Rightarrow> r);
          r = (if r_Message r = ''''
               then r\<lparr>r_Message := (case map_of a ''status'' of Some v \<Rightarrow> toString cd v | None \<Rightarrow> '''')\<rparr> else r)
      in case map_of a ''startsAt'' of Some (JStr s) \<Rightarrow> r\<lparr>r_Time := parseTime cd s\<rparr> | _ \<Rightarrow> r)"

definition decodeAlertmanager :: "codec \<Rightarrow> string \<Rightarrow> Record list" where
  "decodeAlertmanager cd body =
     (case parse_arr cd body of None \<Rightarrow> [] | Some alerts \<Rightarrow> map (\<lambda>(v, a). alert_record cd a) alerts)"

definition otlp_attr :: "codec \<Rightarrow> string \<times> jobj \<Rightarrow> Record \<Rightarrow> Record" where
  "otlp_attr cd kv r =
     (case kv of (k, m) \<Rightarrow> case map_of m ''stringValue'' of Some v \<Rightarrow> set_attr k (toString cd v) r | None \<Rightarrow> r)"

definition otlp_log :: "codec \<Rightarrow> otlp_record \<Rightarrow> Record" where
  "otlp_log cd lr =
     (let r = empty_record\<lparr>r_Level := SeverityText lr\<rparr>;
          r = (case otlp_Body lr of
                 Some b \<Rightarrow> r\<lparr>r_Message := (case map_of b ''stringValue'' of Some v \<Rightarrow> toString cd v | None \<Rightarrow> '''')\<rparr>
               | None \<Rightarrow> r);
          r = r\<lparr>r_Time := parseUnixNano (TimeUnixNano lr)\<rparr>
      in fold (otlp_attr cd) (otlp_Attributes lr) r)"

definition decodeOTLP :: "codec \<Rightarrow> string \<Rightarrow> warningSet \<Rightarrow> Record list \<times> warningSet" where
  "decodeOTLP cd body ws =
     (case (case parse cd body of None \<Rightarrow> None | Some v \<Rightarrow> as_otlp_doc v) of
        None \<Rightarrow> ([], ws @ [WarnUnparseable])
      | Some doc \<Rightarrow> (map (otlp_log cd) (concat (concat doc)), ws))"

definition sentry_item :: "codec \<Rightarrow> jobj \<Rightarrow> Record" where
  "sentry_item cd item =
     (let r = empty_record;
          r = (case map_of item ''message'' of Some m \<Rightarrow> r\<lparr>r_Message := toString cd m\<rparr> | None \<Rightarrow> r);
          r = (if has_key item ''exception'' then r\<lparr>r_Level := ''error''\<rparr> else r)
      in case map_of item ''level'' of Some l \<Rightarrow> r\<lparr>r_Level := toString cd l\<rparr> | None \<Rightarrow> r)"

fun sentry_loop :: "codec \<Rightarrow> string list \<Rightarrow> Record list" where
  "sentry_loop cd [] = []"
| "sentry_loop cd (ln # lns) =
     (let ln = TrimSpace ln in
      if length ln = 0 \<or> ln ! 0 \<noteq> CHR ''{'' then sentry_loop cd lns
      else case parse_obj cd ln of
             None \<Rightarrow> sentry_loop cd lns
           | Some (_, item) \<Rightarrow>
               (let r = sentry_item cd item
                in if r_Message r \<noteq> '''' then r # sentry_loop cd lns else sentry_loop cd lns))"

definition decodeSentry :: "codec \<Rightarrow> string \<Rightarrow> Record list" where
  "decodeSentry cd body = sentry_loop cd (split_lines body)"

section \<open>Decode\<close>

record DecodeResult =
  Records :: "Record list"
  dr_Format :: Format
  dr_Warnings :: warningSet

fun finish_records :: "Record list \<Rightarrow> warningSet \<Rightarrow> Record list \<times> warningSet" where
  "finish_records [] ws = ([], ws)"
| "finish_records (r # rs) ws =
     (let (r, ws) = normalizeLevel r ws;
          ws = (if IsZero (r_Time r) then ws @ [WarnTimestampAbsent] else ws)
      in case finish_records rs ws of (rs, ws) \<Rightarrow> (r # rs, ws))"

definition decode_body :: "codec \<Rightarrow> Format \<Rightarrow> string \<Rightarrow> Record list \<times> warningSet" where
  "decode_body cd fmt body =
     (case fmt of
        FormatNDJSON \<Rightarrow> decodeNDJSON cd body []
      | FormatJSONArray \<Rightarrow> decodeJSONArray cd body []
      | FormatJSONObject \<Rightarrow> decodeJSONObject cd body []
      | FormatPlain \<Rightarrow> (decodePlain body, [])
      | FormatSyslog \<Rightarrow> decodeSyslog body []
      | FormatLoki \<Rightarrow> decodeLoki cd body []
      | FormatAlertmanager \<Rightarrow> (decodeAlertmanager cd body, [])
      | FormatOTLP \<Rightarrow> decodeOTLP cd body []
      | FormatSentry \<Rightarrow> (decodeSentry cd body, [])
      | FormatUnknown \<Rightarrow> ([], []))"

definition Decode :: "codec \<Rightarrow> string \<Rightarrow> string \<Rightarrow> DecodeResult" where
  "Decode cd body contentType =
     (let fmt = sniff cd body contentType;
          (recs, ws) = decode_body cd fmt body;
          (recs, ws) = finish_records recs ws
      in \<lparr>Records = recs, dr_Format = fmt, dr_Warnings = ws\<rparr>)"

end
