(* ===== verification/DecodeFacts.thy ===== *)
theory DecodeFacts
  imports Decode "HOL-Library.Multiset"
begin

text \<open>
  What the decoders promise: canonical levels and honest tallies on every record, every NDJSON line
  accounted for, and where they do not keep to the formats: member order, Loki's epochs, OTLP's scopes.
\<close>

section \<open>Levels and tallies\<close>

definition levels :: "string list" where
  "levels = [''info'', ''warn'', ''error'', ''debug'', ''trace'']"

lemma canonical_levels: "canonical l = Some c \<Longrightarrow> c \<in> set levels"
  by (auto simp: canonical_def levels_def split: if_splits)

lemma normalizeLevel_facts:
  assumes "normalizeLevel r ws = (r', ws')"
  shows "r_Level r' \<in> set levels" and "length (r_LevelRaw r') \<le> 32" and "r_Time r' = r_Time r"
    and "r_Message r' = r_Message r" and "r_LevelRaw r' = take 32 (r_Level r)"
    and "ws' = ws @ (if canonical (ToLower (TrimSpace (r_Level r))) = None then [WarnLevelUnknown] else [])"
proof -
  have "''info'' \<in> set levels" by (simp add: levels_def)
  with assms canonical_levels show "r_Level r' \<in> set levels"
    unfolding normalizeLevel_def Let_def by (fastforce split: option.splits)
qed (use assms in \<open>auto simp: normalizeLevel_def Let_def split: option.splits\<close>)

definition unknown_level :: "Record \<Rightarrow> bool" where
  "unknown_level r \<longleftrightarrow> canonical (ToLower (TrimSpace (r_Level r))) = None"

lemma finish_records_facts:
  "finish_records rs ws = (rs', ws') \<Longrightarrow>
     (\<forall>r \<in> set rs'. r_Level r \<in> set levels \<and> length (r_LevelRaw r) \<le> 32) \<and>
     map r_Message rs' = map r_Message rs \<and>
     count_list ws' WarnTimestampAbsent = count_list ws WarnTimestampAbsent + length (filter (\<lambda>r. r_Time r = zero_time) rs') \<and>
     count_list ws' WarnLevelUnknown = count_list ws WarnLevelUnknown + length (filter unknown_level rs)"
proof (induction rs arbitrary: ws rs' ws')
  case (Cons r rs)
  obtain r1 ws1 where n: "normalizeLevel r ws = (r1, ws1)" by (metis surj_pair)
  obtain rs2 ws2 where f: "finish_records rs (if IsZero (r_Time r1) then ws1 @ [WarnTimestampAbsent] else ws1) = (rs2, ws2)"
    by (metis surj_pair)
  note nf = normalizeLevel_facts [OF n]
  have "finish_records (r # rs) ws = (r1 # rs2, ws2)"
    unfolding finish_records.simps n Let_def split f by simp
  with Cons.prems have out: "rs' = r1 # rs2" "ws' = ws2" by (metis Pair_inject)+
  show ?case using Cons.IH [OF f] nf unfolding out by (auto simp: IsZero_def unknown_level_def)
qed simp

text \<open>The decoders themselves raise only the unparseable-line warning.\<close>

lemma ndjson_warns: "ndjson_loop cd lns ws = (rs, ws') \<Longrightarrow>
    count_list ws' WarnTimestampAbsent = count_list ws WarnTimestampAbsent"
  by (induction lns arbitrary: ws rs) (auto simp: Let_def split: if_splits option.splits prod.splits)

lemma syslog_warns: "syslog_loop lns ws = (rs, ws') \<Longrightarrow>
    count_list ws' WarnTimestampAbsent = count_list ws WarnTimestampAbsent"
  by (induction lns arbitrary: ws rs) (auto simp: Let_def split: if_splits option.splits prod.splits)

lemma decode_body_warns: "decode_body cd fmt body = (rs, ws) \<Longrightarrow> count_list ws WarnTimestampAbsent = 0"
  using ndjson_warns syslog_warns
  by (cases fmt) (auto simp: decode_body_def decodeNDJSON_def decodeSyslog_def decodeJSONArray_def
      decodeJSONObject_def decodeLoki_def decodeOTLP_def Let_def split: option.splits if_splits dest: ndjson_warns syslog_warns)

lemma Decode_facts:
  "(\<forall>r \<in> set (Records (Decode cd body ct)). r_Level r \<in> set levels \<and> length (r_LevelRaw r) \<le> 32) \<and>
   warn_count (dr_Warnings (Decode cd body ct)) WarnTimestampAbsent =
     length (filter (\<lambda>r. IsZero (r_Time r)) (Records (Decode cd body ct)))"
proof -
  obtain rs ws where b: "decode_body cd (sniff cd body ct) body = (rs, ws)" by (metis surj_pair)
  obtain rs' ws' where f: "finish_records rs ws = (rs', ws')" by (metis surj_pair)
  from finish_records_facts [OF f] decode_body_warns [OF b] show ?thesis
    by (simp add: Decode_def Let_def b f warn_count_def IsZero_def)
qed

lemma Decode_levels: "r \<in> set (Records (Decode cd body ct)) \<Longrightarrow> r_Level r \<in> set levels"
  using Decode_facts by blast

text \<open>C33. Every record comes out with a canonical level, and the missing timestamps are counted.

  Whatever the body, the content type and the JSON library answer, each decoded record's level is one of the five, its
  raw spelling is at most 32 bytes, and the tally of absent timestamps is the number of records without one.\<close>

theorem Decode_records_are_canonical:
  "(\<forall>r \<in> set (Records (Decode cd body ct)).
      r_Level r \<in> set [''info'', ''warn'', ''error'', ''debug'', ''trace''] \<and> length (r_LevelRaw r) \<le> 32) \<and>
   warn_count (dr_Warnings (Decode cd body ct)) WarnTimestampAbsent =
     length (filter (\<lambda>r. IsZero (r_Time r)) (Records (Decode cd body ct)))"
  using Decode_facts [of cd body ct] unfolding levels_def .

section \<open>Lines\<close>

definition content_lines :: "string \<Rightarrow> string list" where
  "content_lines body = filter (\<lambda>ln. ln \<noteq> '''') (map TrimSpace (split_lines body))"

fun parsed :: "codec \<Rightarrow> string list \<Rightarrow> (json \<times> jobj) list" where
  "parsed cd [] = []"
| "parsed cd (l # ls) = (case parse_obj cd l of None \<Rightarrow> parsed cd ls | Some vo \<Rightarrow> vo # parsed cd ls)"

lemma recordsFromObject_one: "\<exists>r. recordsFromObject cd vo = [r]"
  by (cases vo) (simp add: recordsFromObject_def Let_def)

lemma ndjson_loop_lines:
  "ndjson_loop cd lns ws =
     (concat (map (recordsFromObject cd) (parsed cd (filter (\<lambda>ln. ln \<noteq> '''') (map TrimSpace lns)))),
      ws @ replicate (length (filter (\<lambda>ln. parse_obj cd ln = None) (filter (\<lambda>ln. ln \<noteq> '''') (map TrimSpace lns))))
             WarnUnparseable)"
  by (induction lns arbitrary: ws) (auto simp: Let_def replicate_append_same split: option.split)

text \<open>Every line of an NDJSON body is a record or a warning.

  The records are those of the lines that parse as objects, in the order of the lines, one each; the other non-blank
  lines are exactly the unparseable ones counted; one bad line never costs a good one.\<close>

theorem ndjson_accounts_for_every_line:
  "decodeNDJSON cd body [] = (rs, ws) \<Longrightarrow>
     rs = concat (map (recordsFromObject cd) (parsed cd (content_lines body))) \<and>
     length rs + warn_count ws WarnUnparseable = length (content_lines body)"
proof -
  assume d: "decodeNDJSON cd body [] = (rs, ws)"
  have one: "length (concat (map (recordsFromObject cd) vs)) = length vs" for vs
    by (induction vs) (use recordsFromObject_one in \<open>auto, metis length_Cons list.size(3) add_Suc add_0\<close>)
  have part: "length (parsed cd ls) + length (filter (\<lambda>ln. parse_obj cd ln = None) ls) = length ls" for ls
  proof (induction ls)
    case (Cons l ls)
    then show ?case by (cases "parse_obj cd l") simp_all
  qed simp
  have count: "count_list (replicate n WarnUnparseable) WarnUnparseable = n" for n
    by (induction n) auto
  show ?thesis
    using d part [of "content_lines body"] one count
    by (auto simp: decodeNDJSON_def ndjson_loop_lines content_lines_def warn_count_def)
qed

definition toy_codec :: codec where
  "toy_codec = \<lparr>parse = (\<lambda>s. if s = ''{}'' then Some (JObj []) else None), marshal = (\<lambda>_. ''{}''),
     tparse = (\<lambda>_ _. None)\<rparr>"

theorem Decode_records_are_canonical_witness:
  "set (map r_Level (Records (Decode toy_codec ''ERROR: boom'' ''text/plain''))) \<subseteq>
     set [''info'', ''warn'', ''error'', ''debug'', ''trace''] \<and>
   warn_count (dr_Warnings (Decode toy_codec ''ERROR: boom'' ''text/plain'')) WarnTimestampAbsent =
     length (filter (\<lambda>r. IsZero (r_Time r)) (Records (Decode toy_codec ''ERROR: boom'' ''text/plain'')))"
  using Decode_records_are_canonical [of toy_codec "''ERROR: boom''" "''text/plain''"] by auto

theorem ndjson_accounts_for_every_line_witness:
  "length (fst (decodeNDJSON toy_codec (''{}'' @ [LF] @ ''{oops'' @ [LF]) [])) +
   warn_count (snd (decodeNDJSON toy_codec (''{}'' @ [LF] @ ''{oops'' @ [LF]) [])) WarnUnparseable =
   length (content_lines (''{}'' @ [LF] @ ''{oops'' @ [LF]))"
  using ndjson_accounts_for_every_line [of toy_codec "''{}'' @ [LF] @ ''{oops'' @ [LF]", OF prod.collapse [symmetric]]
  by blast

section \<open>Member order\<close>

text \<open>The field a member fills; the others are attributes of their own name.\<close>

datatype slot = STime | SLevel | SService | SHost | SMessage | SEvent | SAttr string

definition slot :: "string \<Rightarrow> slot" where
  "slot k =
     (if k \<in> set [''ts'', ''time'', ''timestamp'', ''@timestamp''] then STime
      else if k \<in> set [''level'', ''severity''] then SLevel
      else if k \<in> set [''service'', ''svc''] then SService
      else if k \<in> set [''host'', ''hostname''] then SHost
      else if k \<in> set [''msg'', ''message''] then SMessage
      else if k = ''uc.event'' then SEvent else SAttr k)"

fun fill :: "codec \<Rightarrow> slot \<Rightarrow> json \<Rightarrow> Record \<Rightarrow> Record" where
  "fill cd STime v r = r\<lparr>r_Time := parseTime cd (toString cd v)\<rparr>"
| "fill cd SLevel v r = r\<lparr>r_Level := toString cd v\<rparr>"
| "fill cd SService v r = r\<lparr>r_Service := toString cd v\<rparr>"
| "fill cd SHost v r = r\<lparr>r_Host := toString cd v\<rparr>"
| "fill cd SMessage v r = r\<lparr>r_Message := toString cd v\<rparr>"
| "fill cd SEvent v r = r\<lparr>r_Named := (v = JBool True)\<rparr>"
| "fill cd (SAttr k) v r = set_attr k (toString cd v) r"

lemma member_step_fill: "member_step cd (k, v) r = fill cd (slot k) v r"
  unfolding member_step_def slot_def by (simp split del: if_split) (simp split: if_split)

lemma slot_attr: "slot k = SAttr k' \<Longrightarrow> k' = k"
  by (auto simp: slot_def split: if_splits)

text \<open>A record up to the order of its attributes, and a member's effect on it.\<close>

definition view :: "Record \<Rightarrow> Record \<times> (string \<rightharpoonup> string)" where
  "view r = (r\<lparr>r_Attrs := []\<rparr>, map_of (r_Attrs r))"

fun view_step :: "codec \<Rightarrow> string \<times> json \<Rightarrow> Record \<times> (string \<rightharpoonup> string) \<Rightarrow> Record \<times> (string \<rightharpoonup> string)" where
  "view_step cd (k, v) (r, m) =
     (case slot k of SAttr k' \<Rightarrow> (r, m(k' \<mapsto> toString cd v)) | s \<Rightarrow> (fill cd s v r, m))"

lemma view_member: "view (member_step cd kv r) = view_step cd kv (view r)"
  by (cases kv; cases "slot (fst kv)") (simp_all add: member_step_fill view_def set_attr_def update_conv')

lemma view_fold: "view (fold (member_step cd) ob r) = fold (view_step cd) ob (view r)"
  by (induction ob arbitrary: r) (simp_all add: view_member)

lemma view_commute:
  assumes "slot k \<noteq> slot k'"
  shows "view_step cd (k, v) (view_step cd (k', v') rm) = view_step cd (k', v') (view_step cd (k, v) rm)"
  using assms by (cases rm; cases "slot k"; cases "slot k'") (simp_all add: fun_upd_twist)

definition with_message :: "Record \<Rightarrow> Record" where
  "with_message r = (if r_Message r = [] then r\<lparr>r_Message := r_Raw r\<rparr> else r)"

lemma records_eq:
  "recordsFromObject cd (v, ob) = [with_message (fold (member_step cd) ob (empty_record\<lparr>r_Raw := marshal cd v\<rparr>))]"
  by (simp add: recordsFromObject_def with_message_def Let_def)

text \<open>The order of an object's members does not matter unless two name one field.

  Two visiting orders of one object in which no two members name the same record field decode to records with the
  same time, level, service, host, message, event mark and raw text, and the same attributes.\<close>

theorem member_order_is_irrelevant:
  assumes "mset ob' = mset ob" and "distinct (map (slot \<circ> fst) ob)"
    and "recordsFromObject cd (v, ob) = [r]" and "recordsFromObject cd (v, ob') = [r']"
  shows "r_Time r' = r_Time r \<and> r_Level r' = r_Level r \<and> r_Service r' = r_Service r \<and> r_Host r' = r_Host r \<and>
     r_Message r' = r_Message r \<and> r_Named r' = r_Named r \<and> r_Raw r' = r_Raw r \<and>
     map_of (r_Attrs r') = map_of (r_Attrs r)"
proof -
  let ?r0 = "empty_record\<lparr>r_Raw := marshal cd v\<rparr>"
  let ?f = "fold (member_step cd) ob ?r0" and ?f' = "fold (member_step cd) ob' ?r0"
  have "view_step cd x \<circ> view_step cd y = view_step cd y \<circ> view_step cd x" if "x \<in> set ob" "y \<in> set ob" for x y
  proof (cases "x = y")
    case False
    obtain k w k' w' where xy: "x = (k, w)" "y = (k', w')" by (cases x; cases y)
    have "inj_on (slot \<circ> fst) (set ob)" using assms(2) by (simp add: distinct_map)
    with that False xy have "slot k \<noteq> slot k'" by (metis comp_apply fst_conv inj_onD)
    then show ?thesis by (simp add: xy fun_eq_iff view_commute)
  qed simp
  then have "fold (view_step cd) ob = fold (view_step cd) ob'"
    using assms(1) by (intro fold_multiset_equiv) auto
  then have "view ?f' = view ?f" by (simp add: view_fold)
  then have eq: "?f'\<lparr>r_Attrs := []\<rparr> = ?f\<lparr>r_Attrs := []\<rparr>" and at: "map_of (r_Attrs ?f') = map_of (r_Attrs ?f)"
    by (simp_all add: view_def)
  have "r_Time ?f' = r_Time ?f \<and> r_Level ?f' = r_Level ?f \<and> r_Service ?f' = r_Service ?f \<and> r_Host ?f' = r_Host ?f \<and>
     r_Message ?f' = r_Message ?f \<and> r_Named ?f' = r_Named ?f \<and> r_Raw ?f' = r_Raw ?f"
    using arg_cong [OF eq, of r_Time] arg_cong [OF eq, of r_Level] arg_cong [OF eq, of r_Service]
      arg_cong [OF eq, of r_Host] arg_cong [OF eq, of r_Message] arg_cong [OF eq, of r_Named]
      arg_cong [OF eq, of r_Raw] by simp
  moreover have "r = (if r_Message ?f = [] then ?f\<lparr>r_Message := r_Raw ?f\<rparr> else ?f)"
    and "r' = (if r_Message ?f' = [] then ?f'\<lparr>r_Message := r_Raw ?f'\<rparr> else ?f')"
    using assms(3,4) unfolding records_eq with_message_def by simp_all
  ultimately show ?thesis using at by (cases "r_Message ?f = []") simp_all
qed

theorem member_order_is_irrelevant_witness:
  "r_Message (hd (recordsFromObject toy_codec (JNull, [(''level'', JStr ''warn''), (''msg'', JStr ''hi'')]))) =
   r_Message (hd (recordsFromObject toy_codec (JNull, [(''msg'', JStr ''hi''), (''level'', JStr ''warn'')])))"
proof -
  have one: "recordsFromObject toy_codec vo = [hd (recordsFromObject toy_codec vo)]" for vo
    using recordsFromObject_one [of toy_codec vo] by auto
  have "mset [(''level'', JStr ''warn''), (''msg'', JStr ''hi'')] = mset [(''msg'', JStr ''hi''), (''level'', JStr ''warn'')]"
    by simp
  from member_order_is_irrelevant [OF this _ one one] show ?thesis by (simp add: slot_def)
qed

text \<open>With two names for one field the message depends on the visiting order.

  An object carrying both \<^verbatim>\<open>msg\<close> and \<^verbatim>\<open>message\<close> decodes to the one visited last, and Go visits a map in random
  order: the same body yields one message or the other.\<close>

theorem aliased_message_depends_on_order:
  assumes "a \<noteq> ''''" and "b \<noteq> ''''"
  shows "map r_Message (recordsFromObject cd (v, [(''msg'', JStr a), (''message'', JStr b)])) = [b] \<and>
         map r_Message (recordsFromObject cd (v, [(''message'', JStr b), (''msg'', JStr a)])) = [a]"
  using assms by (simp add: recordsFromObject_def Let_def member_step_def)

theorem aliased_message_depends_on_order_witness:
  "map r_Message (recordsFromObject toy_codec (JNull, [(''msg'', JStr ''a''), (''message'', JStr ''b'')])) = [''b''] \<and>
   map r_Message (recordsFromObject toy_codec (JNull, [(''message'', JStr ''b''), (''msg'', JStr ''a'')])) = [''a'']"
  by (rule aliased_message_depends_on_order) simp_all

section \<open>Epochs\<close>

lemma digits64_value:
  assumes "0 \<le> n" and "\<forall>c \<in> set s. is_digit c" and "n * 10 ^ length s + int (str_nat s) < 2 ^ 63"
  shows "digits64 n s = Some (n * 10 ^ length s + int (str_nat s))"
  using assms
proof (induction s arbitrary: n)
  case (Cons c s)
  let ?d = "int (byte c - 48)"
  have eq: "n * 10 ^ length (c # s) + int (str_nat (c # s)) = (n * 10 + ?d) * 10 ^ length s + int (str_nat s)"
    by (simp only: str_nat.simps of_nat_add of_nat_mult of_nat_power of_nat_numeral list.size(4) power_add power_one_right)
      (simp add: algebra_simps)
  have "n * 10 + ?d \<le> (n * 10 + ?d) * 10 ^ length s"
    using Cons.prems(1) mult_left_mono [of 1 "10 ^ length s" "n * 10 + ?d"] by simp
  then have "n * 10 + ?d < 2 ^ 63" using Cons.prems(3) eq by linarith
  then have "wrap64 (n * 10 + ?d) = n * 10 + ?d"
    using Cons.prems(1) by (intro wrap64_id) (simp_all add: min_int64_def max_int64_def)
  then show ?case
    using Cons.IH [of "n * 10 + ?d"] Cons.prems unfolding eq by simp
qed simp

lemma digits64_itoa: "0 \<le> n \<Longrightarrow> n < 2 ^ 63 \<Longrightarrow> digits64 0 (itoa n) = Some n"
  using digits64_value [of 0 "nat_str (nat n)"] nat_str_digits by (simp add: itoa_def)

lemma itoa_not_Nil: "itoa n \<noteq> ''''"
  by (simp add: itoa_def)

text \<open>Loki's own timestamps and plain seconds are read right.

  A nanosecond epoch from September 2001 on, and a second epoch, decode to the instant they denote.\<close>

theorem loki_nanos_and_seconds:
  assumes "0 \<le> n" and "n < 2 ^ 63"
  shows "(n > 10 ^ 18 \<longrightarrow> parseLokiTS cd (itoa n) = unix_epoch + n) \<and>
         (n \<le> 10 ^ 12 \<longrightarrow> parseLokiTS cd (itoa n) = unix_epoch + n * 10 ^ 9)"
  using assms by (simp add: parseLokiTS_def digits64_itoa itoa_not_Nil Unix_def second_def)

theorem loki_nanos_and_seconds_witness:
  "parseLokiTS toy_codec (itoa 1700000000123456789) = unix_epoch + 1700000000123456789"
  using loki_nanos_and_seconds [of 1700000000123456789 toy_codec] by simp

lemma wrap64_cong: "wrap64 x = y \<Longrightarrow> (2 ^ 64 :: int) dvd x - y"
proof -
  assume "wrap64 x = y"
  then have "y + 2 ^ 63 = (x + 2 ^ 63) mod 2 ^ 64" by (simp add: wrap64_def)
  then have "x - y = (x + 2 ^ 63) - (x + 2 ^ 63) mod 2 ^ 64" by simp
  then show "(2 ^ 64 :: int) dvd x - y" by (metis dvd_minus_mod)
qed

text \<open>No millisecond epoch is read right.

  Every millisecond timestamp from September 2001 to the year 2286 (13 digits), which the code means to recognise, is scaled by the wrong factor
  and overflows: it never decodes to the instant it denotes.\<close>

theorem loki_millis_are_wrong:
  assumes "10 ^ 12 < n" and "n < 10 ^ 13"
  shows "parseLokiTS cd (itoa n) \<noteq> unix_epoch + n * 10 ^ 6"
proof
  assume "parseLokiTS cd (itoa n) = unix_epoch + n * 10 ^ 6"
  then have "wrap64 (n * 10 ^ 9) = n * 10 ^ 6"
    using assms by (simp add: parseLokiTS_def digits64_itoa itoa_not_Nil Unix_def)
  from wrap64_cong [OF this] have "(2 ^ 6 :: int) * 2 ^ 58 dvd 2 ^ 6 * (15609375 * n)" by (simp add: algebra_simps)
  then have "(2 ^ 58 :: int) dvd 15609375 * n" by (subst (asm) dvd_times_left_cancel_iff) simp_all
  moreover have "coprime (2 ^ 58 :: int) 15609375"
    unfolding coprime_power_left_iff coprime_left_2_iff_odd by simp
  ultimately have "(2 ^ 58 :: int) dvd n" by (simp add: coprime_dvd_mult_right_iff)
  then have "(2 ^ 58 :: int) \<le> n" using assms by (intro zdvd_imp_le) auto
  with assms show False by simp
qed

theorem loki_millis_are_wrong_witness:
  "parseLokiTS toy_codec (itoa 1700000000123) \<noteq> unix_epoch + 1700000000123 * 10 ^ 6"
  by (rule loki_millis_are_wrong) simp_all

section \<open>OTLP\<close>

text \<open>The standard OTLP document is read as empty.

  A body in the shape OTLP sends, \<^verbatim>\<open>resourceLogs[].scopeLogs[].logRecords[]\<close>, decodes to no record and no warning, whatever the scopes hold: the struct looks for the
  scopes under the name of the records.\<close>

theorem otlp_scopes_are_not_read:
  assumes "parse cd body = Some (JObj [(''resourceLogs'', JArr [JObj [(''scopeLogs'', JArr scopes)]])])"
  shows "decodeOTLP cd body [] = ([], [])"
  using assms
  by (simp add: decodeOTLP_def as_otlp_doc_def as_otlp_resource_def struct_field_def ToLower_def
      lower_byte_def is_upper_def between_def)

theorem otlp_scopes_are_not_read_witness:
  "decodeOTLP (toy_codec\<lparr>parse := (\<lambda>_. Some (JObj [(''resourceLogs'', JArr [JObj [(''scopeLogs'',
      JArr [JObj [(''logRecords'', JArr [JObj [(''body'', JObj [(''stringValue'', JStr ''hi'')])]])]])]])]))\<rparr>)
     ''otlp'' [] = ([], [])"
  by (rule otlp_scopes_are_not_read) simp

end
