(* ===== verification/Public.thy ===== *)
theory Public
  imports GoTime GoBytes
begin

text \<open>
  The gates of a public key, \<^verbatim>\<open>back/internal/ingest/public.go\<close>: the origin match, the client address and the
  fixed-window rate limiter. \<^verbatim>\<open>net.SplitHostPort\<close> is a parameter.
\<close>

section \<open>Origin and address\<close>

definition matchOrigin :: "string \<Rightarrow> string list \<Rightarrow> string" where
  "matchOrigin presented origins =
     (if presented = '''' \<or> presented = ''null'' then ''''
      else if presented \<in> set origins then presented else '''')"

definition clientIP :: "(string \<Rightarrow> string option) \<Rightarrow> string \<Rightarrow> string \<Rightarrow> string" where
  "clientIP splitHost xff remoteAddr =
     (if xff \<noteq> '''' then
        (case index_byte xff CHR '','' of
           Some i \<Rightarrow> TrimSpace (take i xff)
         | None \<Rightarrow> TrimSpace xff)
      else case splitHost remoteAddr of Some host \<Rightarrow> host | None \<Rightarrow> remoteAddr)"

section \<open>The rate limiter\<close>

definition publicRateWindow :: duration where "publicRateWindow = minute"
definition publicRateMax :: int where "publicRateMax = 120"
definition sweepAt :: nat where "sweepAt = 10000"

record rateWindow =
  rw_window :: time
  rw_count :: int

type_synonym hits = "(string \<times> rateWindow) list"

definition limiter_key :: "string \<Rightarrow> string \<Rightarrow> string" where
  "limiter_key key ip = key @ CHR 0x00 # ip"

definition sweep :: "time \<Rightarrow> hits \<Rightarrow> hits" where
  "sweep win hs = filter (\<lambda>(k, h). rw_window h = win) hs"

definition allow :: "hits \<Rightarrow> string \<Rightarrow> string \<Rightarrow> time \<Rightarrow> bool \<times> hits" where
  "allow hs key ip now =
     (let k = limiter_key key ip;
          win = Truncate now publicRateWindow;
          hs = (if length hs \<ge> sweepAt then sweep win hs else hs);
          h = (case map_of hs k of Some h \<Rightarrow> h | None \<Rightarrow> \<lparr>rw_window = zero_time, rw_count = 0\<rparr>);
          h = (if rw_window h \<noteq> win then \<lparr>rw_window = win, rw_count = 0\<rparr> else h)
      in if rw_count h \<ge> publicRateMax then (False, AList.update k h hs)
         else (True, AList.update k (h\<lparr>rw_count := rw_count h + 1\<rparr>) hs))"

fun allow_all :: "hits \<Rightarrow> (string \<times> string \<times> time) list \<Rightarrow> bool list \<times> hits" where
  "allow_all hs [] = ([], hs)"
| "allow_all hs ((key, ip, t) # rest) =
     (case allow hs key ip t of (ok, hs) \<Rightarrow> (case allow_all hs rest of (oks, hs) \<Rightarrow> (ok # oks, hs)))"

section \<open>The budget\<close>

text \<open>
  What a limiter knows of one limiter key after the requests \<open>seen\<close> of the current window were granted: its
  entry, or the absence of one, stands for the number of hits granted in that window.
\<close>

definition granted :: "hits \<Rightarrow> string \<Rightarrow> time \<Rightarrow> int" where
  "granted hs k win =
     (case map_of hs k of Some h \<Rightarrow> if rw_window h = win then rw_count h else 0 | None \<Rightarrow> 0)"

definition hits_inv :: "hits \<Rightarrow> bool" where
  "hits_inv hs \<longleftrightarrow> distinct (map fst hs) \<and> (\<forall>(k, h) \<in> set hs. 0 \<le> rw_count h \<and> rw_count h \<le> publicRateMax)"

lemma map_of_sweep: "distinct (map fst hs) \<Longrightarrow>
    map_of (sweep win hs) k = (case map_of hs k of Some h \<Rightarrow> if rw_window h = win then Some h else None | None \<Rightarrow> None)"
  by (induction hs) (auto simp: sweep_def map_of_eq_None_iff image_iff split: option.splits)

lemma granted_sweep: "distinct (map fst hs) \<Longrightarrow> granted (sweep win hs) k win = granted hs k win"
  by (simp add: granted_def map_of_sweep split: option.split)

lemma sweep_inv: "hits_inv hs \<Longrightarrow> hits_inv (sweep win hs)"
  by (auto simp: hits_inv_def sweep_def distinct_map_filter)

lemma update_inv:
  assumes "hits_inv hs" and "0 \<le> rw_count h" and "rw_count h \<le> publicRateMax"
  shows "hits_inv (AList.update k h hs)"
proof -
  have "set (AList.update k h hs) \<subseteq> insert (k, h) (set hs)"
    by (induction hs) auto
  moreover have "distinct (map fst (AList.update k h hs))"
    using assms(1) by (simp add: hits_inv_def distinct_update)
  ultimately show ?thesis using assms by (fastforce simp: hits_inv_def)
qed

lemma granted_bounds: "hits_inv hs \<Longrightarrow> 0 \<le> granted hs k win \<and> granted hs k win \<le> publicRateMax"
  by (auto simp: granted_def hits_inv_def publicRateMax_def split: option.split dest!: map_of_SomeD)

text \<open>One call, as a function of the hits granted so far.\<close>

lemma allow_step:
  assumes "hits_inv hs" and "allow hs key ip t = (ok, hs')"
  shows "hits_inv hs'"
    and "ok \<longleftrightarrow> granted hs (limiter_key key ip) (Truncate t publicRateWindow) < publicRateMax"
    and "granted hs' (limiter_key key ip) (Truncate t publicRateWindow) =
           granted hs (limiter_key key ip) (Truncate t publicRateWindow) + (if ok then 1 else 0)"
    and "k' \<noteq> limiter_key key ip \<Longrightarrow> granted hs' k' (Truncate t publicRateWindow) = granted hs k' (Truncate t publicRateWindow)"
proof -
  let ?k = "limiter_key key ip" and ?win = "Truncate t publicRateWindow"
  obtain hs1 where hs1: "hs1 = (if length hs \<ge> sweepAt then sweep ?win hs else hs)" by blast
  have inv1: "hits_inv hs1" using assms(1) by (simp add: hs1 sweep_inv)
  have g1: "granted hs1 k ?win = granted hs k ?win" for k
    using assms(1) by (simp add: hs1 granted_sweep hits_inv_def)
  obtain h where h: "h = (case map_of hs1 ?k of Some h \<Rightarrow> h | None \<Rightarrow> \<lparr>rw_window = zero_time, rw_count = 0\<rparr>)" by blast
  obtain h' where h': "h' = (if rw_window h \<noteq> ?win then \<lparr>rw_window = ?win, rw_count = 0\<rparr> else h)" by blast
  have cnt: "rw_window h' = ?win" "rw_count h' = granted hs1 ?k ?win"
    by (simp_all add: h' h granted_def split: option.split)
  have res: "(ok, hs') = (if rw_count h' \<ge> publicRateMax then (False, AList.update ?k h' hs1)
      else (True, AList.update ?k (h'\<lparr>rw_count := rw_count h' + 1\<rparr>) hs1))"
    using assms(2) unfolding allow_def Let_def hs1 [symmetric] h [symmetric] h' [symmetric] by simp
  note b = granted_bounds [OF inv1, of ?k ?win]
  show "hits_inv hs'" using res b cnt inv1 by (auto simp: update_inv split: if_splits)
  show "ok \<longleftrightarrow> granted hs ?k ?win < publicRateMax" using res cnt g1 by (auto split: if_splits)
  show "granted hs' ?k ?win = granted hs ?k ?win + (if ok then 1 else 0)"
    using res cnt g1 [of ?k] by (auto simp: granted_def [of "AList.update _ _ _"] update_conv' split: if_splits)
  show "granted hs' k' ?win = granted hs k' ?win" if "k' \<noteq> ?k"
    using res that g1 [of k'] by (auto simp: granted_def update_conv' split: if_splits)
qed

text \<open>A public key is held to its budget per address and minute, and no one else's traffic counts against it.

  Over any requests of one minute, from any keys and addresses and across sweeps, exactly the first 120 of each key and address pair
  are let through.\<close>

theorem rate_limit_is_exact:
  assumes "hits_inv hs" and "\<forall>(key, ip, t) \<in> set reqs. Truncate t publicRateWindow = win"
    and "granted hs k win = 0" and "allow_all hs reqs = (oks, hs')"
  shows "int (length (filter (\<lambda>((key, ip, t), ok). ok \<and> limiter_key key ip = k) (zip reqs oks))) =
         min 120 (int (length (filter (\<lambda>(key, ip, t). limiter_key key ip = k) reqs)))"
proof -
  have "int (length (filter (\<lambda>((key, ip, t), ok). ok \<and> limiter_key key ip = k) (zip reqs oks))) + granted hs k win =
      min 120 (granted hs k win + int (length (filter (\<lambda>(key, ip, t). limiter_key key ip = k) reqs)))"
    using assms(1,2,4)
  proof (induction reqs arbitrary: hs oks)
    case Nil
    with granted_bounds [OF Nil(1), of k win] show ?case by (simp add: publicRateMax_def)
  next
    case (Cons req reqs)
    obtain key ip t where req: "req = (key, ip, t)" by (cases req)
    then have t: "Truncate t publicRateWindow = win" using Cons.prems(2) by simp
    obtain ok hs1 where a: "allow hs key ip t = (ok, hs1)" by (metis surj_pair)
    obtain oks1 where r: "allow_all hs1 reqs = (oks1, hs')" and oks: "oks = ok # oks1"
      using Cons.prems(3) a req by (auto split: prod.splits)
    note st = allow_step [OF Cons.prems(1) a, unfolded t]
    have IH: "int (length (filter (\<lambda>((key, ip, t), ok). ok \<and> limiter_key key ip = k) (zip reqs oks1))) + granted hs1 k win =
        min 120 (granted hs1 k win + int (length (filter (\<lambda>(key, ip, t). limiter_key key ip = k) reqs)))"
      by (rule Cons.IH [OF st(1) _ r]) (use Cons.prems(2) in auto)
    show ?case
    proof (cases "limiter_key key ip = k")
      case True
      show ?thesis
        using IH st(2,3) granted_bounds [OF Cons.prems(1), of k win]
        unfolding True by (cases ok) (simp_all add: req oks True publicRateMax_def)
    next
      case False
      with IH st(4) [of k] show ?thesis by (simp add: req oks)
    qed
  qed
  with assms(3) show ?thesis by simp
qed

theorem rate_limit_is_exact_witness:
  "int (length (filter (\<lambda>((key, ip, t), ok). ok \<and> limiter_key key ip = limiter_key ''pk'' ''1.2.3.4'')
     (zip (replicate 200 (''pk'', ''1.2.3.4'', 5 :: int)) (fst (allow_all [] (replicate 200 (''pk'', ''1.2.3.4'', 5 :: int))))))) = 120"
proof -
  have "allow_all [] (replicate 200 (''pk'', ''1.2.3.4'', 5 :: int)) =
      (fst (allow_all [] (replicate 200 (''pk'', ''1.2.3.4'', 5 :: int))), snd (allow_all [] (replicate 200 (''pk'', ''1.2.3.4'', 5 :: int))))"
    by simp
  from rate_limit_is_exact [OF _ _ _ this, of 0 "limiter_key ''pk'' ''1.2.3.4''"] show ?thesis
    by (simp add: hits_inv_def granted_def Truncate_def publicRateWindow_def duration_defs)
qed

end
