(* ===== verification/Ingest.thy ===== *)
theory Ingest
  imports Scrub Fingerprint Normalize CardLimit Decode Public
begin

text \<open>
  The POST /i coordinator, \<^verbatim>\<open>back/internal/ingest/ingest.go\<close> and \<^verbatim>\<open>metrics.go\<close>, with the request side of
  \<^verbatim>\<open>public.go\<close>. Attributes are association lists with distinct keys; a row is its envelope (what \<^verbatim>\<open>json.Marshal\<close> keeps of it is in \<open>Marshal\<close>). The
  dependencies of \<^verbatim>\<open>Deps\<close> are the record \<open>deps\<close>, what they and the handler remember the record \<open>ing_state\<close>.
\<close>

type_synonym attrs = "(string \<times> string) list"

definition attr_get :: "attrs \<Rightarrow> string \<Rightarrow> string" where
  "attr_get a k = (case map_of a k of Some v \<Rightarrow> v | None \<Rightarrow> '''')"

section \<open>Attribute caps and the reserved attributes\<close>

definition MaxAttrKeys :: nat where "MaxAttrKeys = 64"
definition MaxAttrKeyBytes :: nat where "MaxAttrKeyBytes = 256"
definition MaxAttrValBytes :: nat where "MaxAttrValBytes = 8192"
definition ActorAttr :: string where "ActorAttr = ''uc.actor''"
definition MaxActorBytes :: nat where "MaxActorBytes = 200"
definition AmountAttr :: string where "AmountAttr = ''uc.amount''"
definition CurrencyAttr :: string where "CurrencyAttr = ''uc.currency''"

fun cap_loop :: "attrs \<Rightarrow> nat \<Rightarrow> string list \<Rightarrow> attrs \<times> int \<times> int \<Rightarrow> attrs \<times> int \<times> int" where
  "cap_loop attrs i [] res = res"
| "cap_loop attrs i (key # keys) (out, kc, vc) =
     (if i \<ge> MaxAttrKeys then cap_loop attrs (i + 1) keys (out, kc + 1, vc)
      else
        let (k, kc) = (if length key > MaxAttrKeyBytes then (take MaxAttrKeyBytes key, kc + 1) else (key, kc));
            v = attr_get attrs key;
            (v, vc) = (if length v > MaxAttrValBytes then (take MaxAttrValBytes v, vc + 1) else (v, vc))
        in cap_loop attrs (i + 1) keys (AList.update k v out, kc, vc))"

definition attrs_over :: "attrs \<Rightarrow> bool" where
  "attrs_over attrs \<longleftrightarrow> length attrs > MaxAttrKeys \<or>
     (\<exists>(k, v) \<in> set attrs. length k > MaxAttrKeyBytes \<or> length v > MaxAttrValBytes)"

definition capAttrs :: "attrs \<Rightarrow> attrs \<times> int \<times> int" where
  "capAttrs attrs =
     (if length attrs = 0 then (attrs, 0, 0)
      else if \<not> attrs_over attrs then (attrs, 0, 0)
      else cap_loop attrs 0 (sort (map fst attrs)) ([], 0, 0))"

definition liftActor :: "attrs \<Rightarrow> string \<times> attrs" where
  "liftActor attrs =
     (let v = attr_get attrs ActorAttr;
          attrs = AList.delete ActorAttr attrs;
          v = TrimSpace v;
          v = (if length v > MaxActorBytes then take MaxActorBytes v else v)
      in (v, attrs))"

definition is_letter :: "char \<Rightarrow> bool" where
  "is_letter c \<longleftrightarrow> is_lower c \<or> is_upper c"

text \<open>\<^verbatim>\<open>strconv.ParseInt(a, 10, 64)\<close>: an optional sign and digits, within 64 bits.\<close>

definition ParseInt :: "string \<Rightarrow> int option" where
  "ParseInt a =
     (let (neg, d) = (case a of c # r \<Rightarrow> if c = CHR ''-'' then (True, r) else if c = CHR ''+'' then (False, r) else (False, a)
                      | [] \<Rightarrow> (False, []))
      in if d = '''' \<or> (\<exists>c \<in> set d. \<not> is_digit c) then None
         else let n = (if neg then - int (str_nat d) else int (str_nat d))
              in if min_int64 \<le> n \<and> n \<le> max_int64 then Some n else None)"

definition liftAmount :: "attrs \<Rightarrow> (int \<times> string \<times> bool) \<times> attrs" where
  "liftAmount attrs =
     (let a = attr_get attrs AmountAttr;
          c = attr_get attrs CurrencyAttr;
          attrs = AList.delete CurrencyAttr (AList.delete AmountAttr attrs);
          digits = trim_prefix a ''-''
      in if digits = '''' \<or> length digits > 15 \<or> (\<exists>x \<in> set digits. \<not> is_digit x) then ((0, '''', False), attrs)
         else if length c \<noteq> 3 \<or> (\<exists>x \<in> set c. \<not> is_letter x) then ((0, '''', False), attrs)
         else case ParseInt a of
                None \<Rightarrow> ((0, '''', False), attrs)
              | Some amount \<Rightarrow> ((amount, ToUpper c, True), attrs))"

section \<open>Overload\<close>

text \<open>\<open>Keep\<close> in tenths; the code writes 0.0 and 0.1.\<close>

record Sampling =
  sm_Level :: string
  sm_Keep_tenths :: int

record overloadDecision =
  shed :: "string list"
  sampling :: "Sampling option"
  rejectAll :: bool

definition computeOverload :: "int \<Rightarrow> overloadDecision" where
  "computeOverload fillPct =
     (if fillPct \<ge> 100 then \<lparr>shed = [], sampling = None, rejectAll = True\<rparr>
      else if fillPct \<ge> 90 then
        \<lparr>shed = [''debug'', ''info'', ''warn''], sampling = Some \<lparr>sm_Level = ''warn'', sm_Keep_tenths = 0\<rparr>, rejectAll = False\<rparr>
      else if fillPct \<ge> 75 then
        \<lparr>shed = [''debug'', ''info''], sampling = Some \<lparr>sm_Level = ''info'', sm_Keep_tenths = 1\<rparr>, rejectAll = False\<rparr>
      else if fillPct \<ge> 60 then
        \<lparr>shed = [''debug''], sampling = Some \<lparr>sm_Level = ''debug'', sm_Keep_tenths = 1\<rparr>, rejectAll = False\<rparr>
      else \<lparr>shed = [], sampling = None, rejectAll = False\<rparr>)"

section \<open>Warnings\<close>

type_synonym warnings = "(string \<times> int) list"

definition add_warning :: "string \<Rightarrow> int \<Rightarrow> warnings \<Rightarrow> warnings" where
  "add_warning code n ws = count_add code n ws"

definition code_text :: "WarningCode \<Rightarrow> string" where
  "code_text c = (case c of WarnTimestampAbsent \<Rightarrow> ''ts_absent'' | WarnLevelUnknown \<Rightarrow> ''level_unknown''
     | WarnUnparseable \<Rightarrow> ''unparseable_line'')"

definition merge_warnings :: "warningSet \<Rightarrow> warnings \<Rightarrow> warnings" where
  "merge_warnings cs ws = fold (\<lambda>c. add_warning (code_text c) 1) cs ws"

definition sumCounts :: "(string \<times> int) list \<Rightarrow> int" where
  "sumCounts m = sum_list (map snd m)"

section \<open>Tenants, rows\<close>

definition KeyKindPublic :: string where "KeyKindPublic = ''public''"

record Tenant =
  t_TenantID :: int
  t_ProjectID :: int
  t_Kind :: string
  t_Origins :: "string list"

record RowEnvelope =
  e_TenantID :: int
  e_ProjectID :: int
  e_Seq :: int
  e_TS :: string
  e_Level :: string
  e_LevelRaw :: string
  e_Service :: string
  e_Host :: string
  e_Message :: string
  e_Fingerprint :: u64
  e_Attrs :: attrs
  e_Event :: string
  e_Actor :: string
  e_AmountMinor :: int
  e_Currency :: string

record MetricEnvelope =
  me_TenantID :: int
  me_ProjectID :: int
  me_TS :: string
  me_Name :: string
  me_Value :: string
  me_Labels :: attrs

definition pad :: "nat \<Rightarrow> int \<Rightarrow> string" where
  "pad n i = replicate (n - length (itoa i)) CHR ''0'' @ itoa i"

text \<open>\<^verbatim>\<open>UTC().Format("2006-01-02T15:04:05.000Z07:00")\<close>, for the years 0 to 9999.\<close>

definition fmt_ts :: "time \<Rightarrow> string" where
  "fmt_ts t =
     (case civil (t div (24 * hour)) of (y, m, d) \<Rightarrow>
        pad 4 y @ ''-'' @ pad 2 m @ ''-'' @ pad 2 d @ ''T'' @ pad 2 (t div hour mod 24) @ '':'' @
        pad 2 (t div minute mod 60) @ '':'' @ pad 2 (t div second mod 60) @ ''.'' @
        pad 3 (t div millisecond mod 1000) @ ''Z'')"

text \<open>
  The dependencies: keys, the sequence allocator (over a state of its own), the spool's fill, the bot check, the JSON
  codec, the body hash. \<open>d_Claim_fails\<close> says that the idempotency table does not answer.
\<close>

record 's deps =
  d_Keys :: "(string \<Rightarrow> Tenant option) option"
  d_Seq :: "('s \<Rightarrow> int \<Rightarrow> int option \<times> 's) option"
  d_Fill :: int
  d_Idem :: bool
  d_Claim_fails :: bool
  d_IsBot :: "(string \<Rightarrow> bool) option"
  d_ScrubOff :: bool
  d_codec :: codec
  d_sha :: "string \<Rightarrow> string"
  d_splitHost :: "string \<Rightarrow> string option"
  d_now :: time

record batch_row =
  br_accepted :: int
  br_expires_at :: time

datatype sink_row = LogRow RowEnvelope | MetricRow MetricEnvelope

record 's ing_state =
  st_card :: "Limiter option"
  st_seq :: 's
  st_hits :: hits
  st_batches :: "(string \<times> batch_row) list"
  st_sink :: "sink_row list"

section \<open>buildRows\<close>

definition scrub_attrs :: "attrs \<Rightarrow> warnings \<Rightarrow> attrs \<times> warnings" where
  "scrub_attrs attrs ws =
     fold (\<lambda>(k, v) (as, ws).
        let s = Scrub v
        in if length (Counts s) > 0 then (AList.update k (Cleaned s) as, add_warning ''scrubbed'' (sumCounts (Counts s)) ws)
           else (as, ws)) attrs (attrs, ws)"

text \<open>The reserved attributes of a record that names an event: actor, amount, currency, and what is left.\<close>

definition lift_reserved :: "Tenant \<Rightarrow> event \<Rightarrow> attrs \<Rightarrow> string \<times> int \<times> string \<times> attrs" where
  "lift_reserved t ev attrs =
     (if ev_Name ev \<noteq> '''' then
        (let (actor, attrs) = liftActor attrs;
             ((amount, currency, ok), attrs) = liftAmount attrs;
             (amount, currency) = (if \<not> ok \<or> t_Kind t = KeyKindPublic then (0, '''') else (amount, currency))
         in (actor, amount, currency, attrs))
      else ('''', 0, '''', attrs))"

text \<open>Message and attributes after the scrubber, when it is on.\<close>

definition scrub_record :: "bool \<Rightarrow> string \<Rightarrow> attrs \<Rightarrow> warnings \<Rightarrow> string \<times> attrs \<times> warnings" where
  "scrub_record off msg attrs ws =
     (if off then (msg, attrs, ws)
      else
        let s = Scrub msg;
            ws = (if length (Counts s) > 0 then add_warning ''scrubbed'' (sumCounts (Counts s)) ws else ws);
            (attrs, ws) = scrub_attrs attrs ws
        in (Cleaned s, attrs, ws))"

definition envelope ::
  "Tenant \<Rightarrow> Record \<Rightarrow> event \<Rightarrow> string \<times> int \<times> string \<Rightarrow> string \<Rightarrow> attrs \<Rightarrow> RowEnvelope" where
  "envelope t rec ev lifted message cappedAttrs =
     (case lifted of (actor, amount, currency) \<Rightarrow>
        \<lparr>e_TenantID = t_TenantID t, e_ProjectID = t_ProjectID t, e_Seq = 0,
         e_TS = (if \<not> IsZero (r_Time rec) then fmt_ts (r_Time rec) else ''''),
         e_Level = r_Level rec, e_LevelRaw = r_LevelRaw rec, e_Service = r_Service rec, e_Host = r_Host rec,
         e_Message = message, e_Fingerprint = Fingerprint message, e_Attrs = cappedAttrs,
         e_Event = ev_Name ev,
         e_Actor = (if ev_Name ev \<noteq> '''' then actor else ''''),
         e_AmountMinor = (if ev_Name ev \<noteq> '''' then amount else 0),
         e_Currency = (if ev_Name ev \<noteq> '''' then currency else '''')\<rparr>)"

definition cap_fields :: "Limiter option \<Rightarrow> RowEnvelope \<Rightarrow> warnings \<Rightarrow> RowEnvelope \<times> Limiter option \<times> warnings" where
  "cap_fields lim env ws =
     (case lim of
        None \<Rightarrow> (env, None, ws)
      | Some l \<Rightarrow>
          let ((host, _), l) = Add_value l ''host'' (e_Host env);
              ws = (if host = Sentinel then add_warning ''cardinality_capped'' 1 ws else ws);
              ((service, _), l) = Add_value l ''service'' (e_Service env)
          in (env\<lparr>e_Host := host, e_Service := service\<rparr>, Some l, ws))"

definition stamp_seq :: "'s deps \<Rightarrow> int \<Rightarrow> 's \<Rightarrow> RowEnvelope \<Rightarrow> RowEnvelope \<times> 's" where
  "stamp_seq D pid s env =
     (case d_Seq D of
        None \<Rightarrow> (env, s)
      | Some Next \<Rightarrow>
          (case Next s pid of (Some n, s) \<Rightarrow> (env\<lparr>e_Seq := n\<rparr>, s) | (None, s) \<Rightarrow> (env, s)))"

definition build_row ::
  "'s deps \<Rightarrow> Tenant \<Rightarrow> overloadDecision \<Rightarrow> Record \<Rightarrow> Limiter option \<times> 's \<times> warnings \<Rightarrow>
   RowEnvelope option \<times> Limiter option \<times> 's \<times> warnings" where
  "build_row D t d rec st =
     (case st of (lim, s, ws) \<Rightarrow>
        let ev = Classify (r_Message rec) (r_Named rec);
            ws = (if ev_Reserved ev then add_warning ''reserved_prefix'' 1 ws else ws);
            (actor, amount, currency, attrs) = lift_reserved t ev (r_Attrs rec);
            (message, attrs, ws) = scrub_record (d_ScrubOff D) (r_Message rec) attrs ws;
            (cappedAttrs, keysCapped, valsCapped) = capAttrs attrs;
            ws = (if keysCapped > 0 then add_warning ''attr_key_capped'' keysCapped ws else ws);
            ws = (if valsCapped > 0 then add_warning ''field_cap_exceeded'' valsCapped ws else ws);
            env = envelope t rec ev (actor, amount, currency) message cappedAttrs;
            (env, lim, ws) = cap_fields lim env ws
        in if e_Level env \<in> set (shed d) then (None, lim, s, add_warning ''class_shed'' 1 ws)
           else (case stamp_seq D (t_ProjectID t) s env of (env, s) \<Rightarrow> (Some env, lim, s, ws)))"

fun buildRows ::
  "'s deps \<Rightarrow> Tenant \<Rightarrow> overloadDecision \<Rightarrow> Record list \<Rightarrow> Limiter option \<times> 's \<times> warnings \<Rightarrow>
   RowEnvelope list \<times> Limiter option \<times> 's \<times> warnings" where
  "buildRows D t d [] st = ([], st)"
| "buildRows D t d (rec # recs) st =
     (case build_row D t d rec st of (row, st) \<Rightarrow>
        (case buildRows D t d recs st of (rows, st) \<Rightarrow>
           ((case row of Some r \<Rightarrow> r # rows | None \<Rightarrow> rows), st)))"

end
