(* ===== verification/Utf8.thy ===== *)
theory Utf8
  imports Prelude
begin

text \<open>
  Go's conversions between a byte string and its runes, \<^verbatim>\<open>[]rune(s)\<close> and \<^verbatim>\<open>string(rs)\<close>, as the
  language specifies them: a byte that does not start a well-formed sequence is the replacement
  rune, one byte wide, and a rune that is not a scalar value is written as the replacement.
\<close>

definition RuneError :: nat where "RuneError = 0xFFFD"

definition cont :: "nat \<Rightarrow> bool" where
  "cont b \<longleftrightarrow> 0x80 \<le> b \<and> b < 0xC0"

text \<open>The range the second byte must lie in, by the first.\<close>

definition second_lo :: "nat \<Rightarrow> nat" where
  "second_lo b = (if b = 0xE0 then 0xA0 else if b = 0xF0 then 0x90 else 0x80)"

definition second_hi :: "nat \<Rightarrow> nat" where
  "second_hi b = (if b = 0xED then 0x9F else if b = 0xF4 then 0x8F else 0xBF)"

definition rune2 :: "nat \<Rightarrow> nat \<Rightarrow> nat" where
  "rune2 a b = (a - 0xC0) * 64 + (b - 0x80)"

definition rune3 :: "nat \<Rightarrow> nat \<Rightarrow> nat \<Rightarrow> nat" where
  "rune3 a b c = (a - 0xE0) * 4096 + (b - 0x80) * 64 + (c - 0x80)"

definition rune4 :: "nat \<Rightarrow> nat \<Rightarrow> nat \<Rightarrow> nat \<Rightarrow> nat" where
  "rune4 a b c d = (a - 0xF0) * 262144 + (b - 0x80) * 4096 + (c - 0x80) * 64 + (d - 0x80)"

text \<open>\<^verbatim>\<open>utf8.DecodeRune\<close>: the rune and its width.\<close>

definition DecodeRune :: "nat list \<Rightarrow> nat \<times> nat" where
  "DecodeRune bs =
     (case bs of
        [] \<Rightarrow> (RuneError, 0)
      | a # rest \<Rightarrow>
          if a < 0x80 then (a, 1)
          else if 0xC2 \<le> a \<and> a \<le> 0xDF then
            (case rest of b # _ \<Rightarrow> if cont b then (rune2 a b, 2) else (RuneError, 1) | _ \<Rightarrow> (RuneError, 1))
          else if 0xE0 \<le> a \<and> a \<le> 0xEF then
            (case rest of b # c # _ \<Rightarrow>
               if second_lo a \<le> b \<and> b \<le> second_hi a \<and> cont c then (rune3 a b c, 3) else (RuneError, 1)
             | _ \<Rightarrow> (RuneError, 1))
          else if 0xF0 \<le> a \<and> a \<le> 0xF4 then
            (case rest of b # c # d # _ \<Rightarrow>
               if second_lo a \<le> b \<and> b \<le> second_hi a \<and> cont c \<and> cont d then (rune4 a b c d, 4)
               else (RuneError, 1)
             | _ \<Rightarrow> (RuneError, 1))
          else (RuneError, 1))"

lemma DecodeRune_width [progress]: "bs \<noteq> [] \<Longrightarrow> 1 \<le> snd (DecodeRune bs)"
  by (auto simp: DecodeRune_def split: list.split)

function decode_runes :: "nat list \<Rightarrow> nat list" where
  "decode_runes bs =
     (if bs = [] then []
      else case DecodeRune bs of (r, w) \<Rightarrow> r # decode_runes (drop w bs))"
  by pat_completeness auto
termination
proof (relation "measure length")
  fix bs r w assume "bs \<noteq> ([] :: nat list)" and "(r, w) = DecodeRune bs"
  with DecodeRune_width [of bs] have "1 \<le> w" by (metis snd_conv)
  with \<open>bs \<noteq> []\<close> show "(drop w bs, bs) \<in> measure length" by (cases bs) auto
qed simp

declare decode_runes.simps [simp del]

definition runes :: "string \<Rightarrow> nat list" where
  "runes s = decode_runes (map byte s)"

definition scalar :: "nat \<Rightarrow> bool" where
  "scalar r \<longleftrightarrow> r \<le> 0x10FFFF \<and> \<not> (0xD800 \<le> r \<and> r \<le> 0xDFFF)"

text \<open>\<^verbatim>\<open>utf8.AppendRune\<close>.\<close>

definition EncodeRune :: "nat \<Rightarrow> nat list" where
  "EncodeRune r =
     (if r < 0x80 then [r]
      else if r < 0x800 then [0xC0 + r div 64, 0x80 + r mod 64]
      else if \<not> scalar r then [0xEF, 0xBF, 0xBD]
      else if r < 0x10000 then [0xE0 + r div 4096, 0x80 + r div 64 mod 64, 0x80 + r mod 64]
      else [0xF0 + r div 262144, 0x80 + r div 4096 mod 64, 0x80 + r div 64 mod 64, 0x80 + r mod 64])"

definition string_of_runes :: "nat list \<Rightarrow> string" where
  "string_of_runes rs = map char_of (concat (map EncodeRune rs))"

section \<open>Decoding what was encoded\<close>

lemma runes_Nil [simp]: "runes [] = []"
  by (simp add: runes_def decode_runes.simps)

lemma EncodeRune_bytes: "b \<in> set (EncodeRune r) \<Longrightarrow> b < 256"
  by (auto simp: EncodeRune_def scalar_def split: if_splits)

lemma byte_encoded: "map byte (string_of_runes rs) = concat (map EncodeRune rs)"
proof -
  have "map (byte \<circ> char_of) bs = bs" if "\<forall>b \<in> set bs. b < 256" for bs :: "nat list"
    using that by (induction bs) (simp_all add: of_char_of)
  moreover have "\<forall>b \<in> set (concat (map EncodeRune rs)). b < 256"
    by (auto dest: EncodeRune_bytes)
  ultimately show ?thesis by (simp add: string_of_runes_def)
qed

text \<open>The base-64 digits of a rune.\<close>

lemma digits64: "r div 64 * 64 + r mod 64 = (r::nat)"
  by simp

lemma digits64_3: "r div 4096 * 4096 + r div 64 mod 64 * 64 + r mod 64 = (r::nat)"
proof -
  have "r div 64 div 64 * 64 + r div 64 mod 64 = r div 64" by simp
  moreover have "r div 64 div 64 = r div 4096" by (simp add: div_mult2_eq [symmetric])
  ultimately show ?thesis using digits64 [of r] by linarith
qed

lemma digits64_4:
  "r div 262144 * 262144 + r div 4096 mod 64 * 4096 + r div 64 mod 64 * 64 + r mod 64 = (r::nat)"
proof -
  have "r div 4096 div 64 * 64 + r div 4096 mod 64 = r div 4096" by simp
  moreover have "r div 4096 div 64 = r div 262144" by (simp add: div_mult2_eq [symmetric])
  ultimately show ?thesis using digits64_3 [of r] by linarith
qed

lemma mod64 [simp]: "(r::nat) mod 64 < 64"
  by simp

lemma decode_2:
  assumes "0x80 \<le> r" "r < 0x800"
  shows "DecodeRune (EncodeRune r @ t) = (r, 2)"
proof -
  obtain q m where q: "q = r div 64" and m: "m = r mod 64" by simp
  have r: "r = q * 64 + m" "m < 64" using digits64 [of r] by (simp_all add: q m)
  have e: "EncodeRune r = [0xC0 + q, 0x80 + m]" using assms by (simp add: EncodeRune_def q m)
  have "2 \<le> q" "q \<le> 31" using assms r by linarith+
  then show ?thesis unfolding e using r by (simp add: DecodeRune_def cont_def rune2_def)
qed

lemma decode_3:
  assumes "0x800 \<le> r" "r < 0x10000" "scalar r"
  shows "DecodeRune (EncodeRune r @ t) = (r, 3)"
proof -
  obtain a b c where a: "a = r div 4096" and b: "b = r div 64 mod 64" and c: "c = r mod 64" by simp
  have r: "r = a * 4096 + b * 64 + c" "b < 64" "c < 64"
    using digits64_3 [of r] by (simp_all add: a b c)
  have e: "EncodeRune r = [0xE0 + a, 0x80 + b, 0x80 + c]"
    using assms by (simp add: EncodeRune_def a b c)
  have "a \<le> 15" "a = 0 \<Longrightarrow> 0x20 \<le> b" using assms r by linarith+
  moreover have "b \<le> 0x1F" if "a = 13" using assms r that unfolding scalar_def by linarith
  ultimately show ?thesis
    unfolding e using r by (simp add: DecodeRune_def cont_def rune3_def second_lo_def second_hi_def)
qed

lemma decode_4:
  assumes "0x10000 \<le> r" "scalar r"
  shows "DecodeRune (EncodeRune r @ t) = (r, 4)"
proof -
  obtain a b c d where a: "a = r div 262144" and b: "b = r div 4096 mod 64"
    and c: "c = r div 64 mod 64" and d: "d = r mod 64" by simp
  have r: "r = a * 262144 + b * 4096 + c * 64 + d" "b < 64" "c < 64" "d < 64"
    using digits64_4 [of r] by (simp_all add: a b c d)
  have e: "EncodeRune r = [0xF0 + a, 0x80 + b, 0x80 + c, 0x80 + d]"
    using assms by (simp add: EncodeRune_def a b c d)
  have "r \<le> 0x10FFFF" using assms by (simp add: scalar_def)
  then have "a \<le> 4" "a = 0 \<Longrightarrow> 0x10 \<le> b" "a = 4 \<Longrightarrow> b \<le> 0xF" using assms r by linarith+
  then show ?thesis
    unfolding e using r by (simp add: DecodeRune_def cont_def rune4_def second_lo_def second_hi_def)
qed

lemma length_EncodeRune:
  "scalar r \<Longrightarrow> length (EncodeRune r) =
     (if r < 0x80 then 1 else if r < 0x800 then 2 else if r < 0x10000 then 3 else 4)"
  by (simp add: EncodeRune_def)

lemma decode_encode: "scalar r \<Longrightarrow> DecodeRune (EncodeRune r @ t) = (r, length (EncodeRune r))"
proof -
  assume "scalar r"
  consider "r < 0x80" | "0x80 \<le> r" "r < 0x800" | "0x800 \<le> r" "r < 0x10000" | "0x10000 \<le> r" by linarith
  then show ?thesis
    by cases (use \<open>scalar r\<close> in \<open>simp_all add: length_EncodeRune decode_2 decode_3 decode_4\<close>,
      simp add: EncodeRune_def DecodeRune_def)
qed

lemma EncodeRune_not_Nil [simp]: "EncodeRune r \<noteq> []"
  by (simp add: EncodeRune_def)

lemma decode_runes_encoded:
  "\<forall>r \<in> set rs. scalar r \<Longrightarrow> decode_runes (concat (map EncodeRune rs)) = rs"
proof (induction rs)
  case (Cons r rs)
  then have "DecodeRune (EncodeRune r @ concat (map EncodeRune rs)) = (r, length (EncodeRune r))"
    by (intro decode_encode) simp
  with Cons show ?case by (simp add: decode_runes.simps [of "EncodeRune r @ _"])
qed (simp add: decode_runes.simps)

theorem runes_of_string: "\<forall>r \<in> set rs. scalar r \<Longrightarrow> runes (string_of_runes rs) = rs"
  by (simp add: runes_def byte_encoded decode_runes_encoded)

section \<open>What decoding yields\<close>

lemma scalar_2:
  assumes "a \<le> 0xDF" "cont b"
  shows "scalar (rune2 a b)"
proof -
  obtain x y where x: "x = a - 0xC0" and y: "y = b - 0x80" by simp
  have "x \<le> 31" "y < 64" using assms by (auto simp: x y cont_def)
  moreover have "rune2 a b = x * 64 + y" by (simp add: rune2_def x y)
  ultimately show ?thesis unfolding scalar_def by simp
qed

lemma scalar_3:
  assumes "a \<le> 0xEF" "0xE0 \<le> a" "b \<le> second_hi a" "cont c"
  shows "scalar (rune3 a b c)"
proof -
  obtain x where x: "x = a - 0xE0" "x \<le> 15" using assms by simp
  obtain y z where y: "y = b - 0x80" and z: "z = c - 0x80" by simp
  have "y < 64" "z < 64" "x = 13 \<Longrightarrow> y \<le> 0x1F"
    using assms x by (auto simp: second_hi_def cont_def y z split: if_splits)
  moreover have "rune3 a b c = x * 4096 + y * 64 + z" by (simp add: rune3_def x y z)
  ultimately show ?thesis using x unfolding scalar_def by (cases "x \<le> 12"; cases "x = 13") (simp; linarith)+
qed

lemma scalar_4:
  assumes "a \<le> 0xF4" "0xF0 \<le> a" "second_lo a \<le> b" "b \<le> second_hi a" "cont c" "cont d"
  shows "scalar (rune4 a b c d)"
proof -
  obtain x where x: "x = a - 0xF0" "x \<le> 4" using assms by simp
  obtain y z w where y: "y = b - 0x80" and z: "z = c - 0x80" and w: "w = d - 0x80" by simp
  have "y < 64" "z < 64" "w < 64" "x = 4 \<Longrightarrow> y \<le> 0xF" "x = 0 \<Longrightarrow> 0x10 \<le> y"
    using assms x by (auto simp: second_hi_def second_lo_def cont_def y z w split: if_splits)
  moreover have "rune4 a b c d = x * 262144 + y * 4096 + z * 64 + w"
    by (simp add: rune4_def x y z w)
  ultimately show ?thesis using x unfolding scalar_def by (cases "x \<le> 3"; cases "x = 0") (simp; linarith)+
qed

lemma scalar_small: "r < 0x80 \<Longrightarrow> scalar r"
  by (simp add: scalar_def)

lemma scalar_RuneError [simp]: "scalar RuneError"
  by (simp add: scalar_def RuneError_def)

lemma DecodeRune_scalar: "scalar (fst (DecodeRune bs))"
  unfolding DecodeRune_def
  by (auto simp: scalar_small scalar_2 scalar_3 scalar_4 split: list.split)

lemma decode_runes_scalar: "\<forall>r \<in> set (decode_runes bs). scalar r"
proof (induction bs rule: decode_runes.induct)
  case (1 bs)
  show ?case
  proof (cases "bs = []")
    case False
    obtain r w where rw: "DecodeRune bs = (r, w)" by (metis surj_pair)
    with 1 False have "\<forall>r \<in> set (decode_runes (drop w bs)). scalar r" by simp
    with False rw DecodeRune_scalar [of bs] show ?thesis by (simp add: decode_runes.simps [of bs])
  qed (simp add: decode_runes.simps)
qed

lemma runes_scalar: "\<forall>r \<in> set (runes s). scalar r"
  unfolding runes_def by (rule decode_runes_scalar)

lemma length_runes [bounds]: "length (runes s) \<le> length s"
proof -
  have "length (decode_runes bs) \<le> length bs" for bs
  proof (induction bs rule: decode_runes.induct)
    case (1 bs)
    show ?case
    proof (cases "bs = []")
      case False
      obtain r w where rw: "DecodeRune bs = (r, w)" by (metis surj_pair)
      with DecodeRune_width [OF False] have "1 \<le> w" by simp
      moreover have "length (decode_runes (drop w bs)) \<le> length bs - w" using 1 [OF False] rw by simp
      moreover have "length bs \<noteq> 0" using False by simp
      ultimately have "Suc (length (decode_runes (drop w bs))) \<le> length bs" by linarith
      then show ?thesis using False rw by (simp add: decode_runes.simps [of bs])
    qed (simp add: decode_runes.simps)
  qed
  then show ?thesis by (metis length_map runes_def)
qed

end
