(* ===== verification/Marshal.thy ===== *)
theory Marshal
  imports Ingest Utf8
begin

text \<open>
  What \<^verbatim>\<open>json.Marshal\<close> keeps of a row. A row leaves the handler as JSON text and is read back by the
  writer; on the way every string goes through \<^verbatim>\<open>encoding/json\<close>'s coercion to valid UTF-8, which writes the replacement
  rune (three bytes) for each byte that is not part of a well-formed sequence. The row here is the row read back.
\<close>

section \<open>The coercion of a string\<close>

definition to_valid :: "string \<Rightarrow> string" where
  "to_valid s = string_of_runes (runes s)"

definition ascii :: "string \<Rightarrow> bool" where
  "ascii s \<longleftrightarrow> (\<forall>c \<in> set s. byte c < 0x80)"

definition encode_all :: "nat list \<Rightarrow> nat list" where
  "encode_all bs = concat (map EncodeRune (decode_runes bs))"

lemma to_valid_bytes: "map byte (to_valid s) = encode_all (map byte s)"
  by (simp add: to_valid_def byte_encoded encode_all_def runes_def)

lemma byte_eqI: "map byte s = map byte s' \<Longrightarrow> s = s'"
  by (induction s arbitrary: s') (auto simp: Cons_eq_map_conv)

lemma encode_all_Nil [simp]: "encode_all [] = []"
  by (simp add: encode_all_def decode_runes.simps)

lemma encode_all_step:
  "bs \<noteq> [] \<Longrightarrow> DecodeRune bs = (r, w) \<Longrightarrow> encode_all bs = EncodeRune r @ encode_all (drop w bs)"
  by (simp add: encode_all_def decode_runes.simps [of bs])

lemma EncodeRune_width:
  assumes "DecodeRune bs = (r, w)" and "bs \<noteq> []"
  shows "length (EncodeRune r) \<le> 3 * w"
proof -
  have "length (EncodeRune r) \<le> 4" by (simp add: EncodeRune_def)
  moreover have "r < 0x80 \<or> r = RuneError" if "w = 1"
    using assms that by (auto simp: DecodeRune_def split: list.splits if_splits)
  moreover have "1 \<le> w" using DecodeRune_width [OF assms(2)] assms(1) by simp
  ultimately show ?thesis
    by (cases "w = 1") (auto simp: EncodeRune_def RuneError_def)
qed

lemma DecodeRune_within: "bs \<noteq> [] \<Longrightarrow> snd (DecodeRune bs) \<le> length bs"
  by (auto simp: DecodeRune_def split: list.splits)

lemma encode_all_length: "length (encode_all bs) \<le> 3 * length bs"
proof (induction bs rule: decode_runes.induct)
  case (1 bs)
  show ?case
  proof (cases "bs = []")
    case False
    obtain r w where rw: "DecodeRune bs = (r, w)" by (metis surj_pair)
    have "length (encode_all (drop w bs)) \<le> 3 * length (drop w bs)" using 1 False rw by simp
    moreover have "w \<le> length bs" using DecodeRune_within [OF False] rw by simp
    ultimately show ?thesis using EncodeRune_width [OF rw False] encode_all_step [OF False rw] by simp
  qed simp
qed

lemma encode_all_ascii_append: "\<forall>b \<in> set as. b < 0x80 \<Longrightarrow> encode_all (as @ bs) = as @ encode_all bs"
proof (induction as)
  case (Cons a as)
  have "DecodeRune (a # as @ bs) = (a, 1)" using Cons.prems by (simp add: DecodeRune_def)
  from encode_all_step [OF _ this] Cons show ?case by (simp add: EncodeRune_def)
qed simp

lemma DecodeRune_small:
  assumes "DecodeRune bs = (r, w)" and "r < 0x80" and "bs \<noteq> []"
  shows "\<exists>rest. bs = r # rest \<and> w = 1"
proof (cases bs)
  case (Cons a rest)
  have "\<not> rune3 a b c < 0x80" if "0xE0 \<le> a" "second_lo a \<le> b" for b c
    using that by (cases "a = 0xE0") (auto simp: rune3_def second_lo_def)
  moreover have "\<not> rune4 a b c d < 0x80" if "0xF0 \<le> a" "second_lo a \<le> b" for b c d
    using that by (cases "a = 0xF0") (auto simp: rune4_def second_lo_def)
  ultimately show ?thesis
    using assms Cons by (auto simp: DecodeRune_def RuneError_def rune2_def split: list.splits if_splits)
qed (use assms in simp)

lemma EncodeRune_small: "\<forall>b \<in> set (EncodeRune r). b < 0x80 \<Longrightarrow> r < 0x80"
  by (rule ccontr) (simp add: EncodeRune_def split: if_splits)

lemma encode_all_ascii_inv: "\<forall>b \<in> set (encode_all bs). b < 0x80 \<Longrightarrow> encode_all bs = bs"
proof (induction bs rule: decode_runes.induct)
  case (1 bs)
  show ?case
  proof (cases "bs = []")
    case False
    obtain r w where rw: "DecodeRune bs = (r, w)" by (metis surj_pair)
    note e = encode_all_step [OF False rw]
    have r: "r < 0x80" by (rule EncodeRune_small) (use "1.prems" e in simp)
    obtain rest where bs: "bs = r # rest" "w = 1" using DecodeRune_small [OF rw r False] by blast
    then have "encode_all rest = rest" using "1.IH" [OF False rw [symmetric]] "1.prems" e by simp
    with e r bs show ?thesis by (simp add: EncodeRune_def)
  qed simp
qed

text \<open>An ASCII text is kept, only an ASCII text becomes one, and a text grows to at most three times its length.\<close>

lemma to_valid_ascii [simp]: "ascii s \<Longrightarrow> to_valid s = s"
  using encode_all_ascii_append [of "map byte s" "[]"]
  by (intro byte_eqI) (simp add: to_valid_bytes ascii_def)

lemma to_valid_ascii_inv: "ascii (to_valid s) \<Longrightarrow> to_valid s = s"
proof (intro byte_eqI)
  assume "ascii (to_valid s)"
  then have "\<forall>b \<in> set (map byte (to_valid s)). b < 0x80" by (simp add: ascii_def)
  then show "map byte (to_valid s) = map byte s"
    unfolding to_valid_bytes by (rule encode_all_ascii_inv)
qed

lemma to_valid_length: "length (to_valid s) \<le> 3 * length s"
  using encode_all_length [of "map byte s"] by (metis length_map to_valid_bytes)

lemma to_valid_Nil [simp]: "to_valid s = [] \<longleftrightarrow> s = []"
proof
  assume "to_valid s = []"
  with to_valid_ascii_inv [of s] show "s = []" by (simp add: ascii_def)
qed (simp add: to_valid_def string_of_runes_def)

lemma to_valid_idem [simp]: "to_valid (to_valid s) = to_valid s"
  by (simp add: to_valid_def runes_of_string runes_scalar)

section \<open>A row, marshalled and read back\<close>

text \<open>
  Map members are written in the order of their keys; of two keys that become one the reader keeps the later.
\<close>

definition marshal_attrs :: "attrs \<Rightarrow> attrs" where
  "marshal_attrs a = fold (\<lambda>(k, v). AList.update (to_valid k) (to_valid v)) (sort_key fst a) []"

definition marshal_row :: "RowEnvelope \<Rightarrow> RowEnvelope" where
  "marshal_row e = e\<lparr>e_TS := to_valid (e_TS e), e_Level := to_valid (e_Level e), e_LevelRaw := to_valid (e_LevelRaw e),
     e_Service := to_valid (e_Service e), e_Host := to_valid (e_Host e), e_Message := to_valid (e_Message e),
     e_Attrs := marshal_attrs (e_Attrs e), e_Event := to_valid (e_Event e), e_Actor := to_valid (e_Actor e),
     e_Currency := to_valid (e_Currency e)\<rparr>"

definition marshal_metric :: "MetricEnvelope \<Rightarrow> MetricEnvelope" where
  "marshal_metric m = m\<lparr>me_TS := to_valid (me_TS m), me_Name := to_valid (me_Name m), me_Labels := marshal_attrs (me_Labels m)\<rparr>"

lemma fold_update_facts:
  assumes "fold (\<lambda>(k, v). AList.update (to_valid k) (to_valid v)) xs a0 = out" and "distinct (map fst a0)"
  shows "distinct (map fst out) \<and> length out \<le> length a0 + length xs \<and>
     set out \<subseteq> set a0 \<union> (\<lambda>(k, v). (to_valid k, to_valid v)) ` set xs"
  using assms
proof (induction xs arbitrary: a0)
  case (Cons x xs)
  obtain k v where x: "x = (k, v)" by (cases x)
  let ?a = "AList.update (to_valid k) (to_valid v) a0"
  have "distinct (map fst ?a)" using Cons.prems(2) by (rule AList.distinct_update)
  moreover have "length ?a \<le> Suc (length a0)" by (induction a0) auto
  moreover have "set ?a \<subseteq> insert (to_valid k, to_valid v) (set a0)" by (induction a0) auto
  ultimately show ?case using Cons.IH [of ?a] Cons.prems(1) x by (fastforce simp: image_iff)
qed simp

lemma marshal_attrs_facts:
  "distinct (map fst (marshal_attrs a))" "length (marshal_attrs a) \<le> length a"
  "set (marshal_attrs a) \<subseteq> (\<lambda>(k, v). (to_valid k, to_valid v)) ` set a"
  using fold_update_facts [OF refl, of "[]" "sort_key fst a"] by (auto simp: marshal_attrs_def)

end
