(* ===== verification/IngestHandle.thy ===== *)
theory IngestHandle
  imports Marshal
begin

text \<open>
  The request side of POST /i and OPTIONS /i: \<^verbatim>\<open>Handle\<close>, \<^verbatim>\<open>authenticate\<close> and \<^verbatim>\<open>keyFromBody\<close> of
  \<^verbatim>\<open>ingest.go\<close>, \<^verbatim>\<open>ParseMetric\<close> and \<^verbatim>\<open>splitMetrics\<close> of \<^verbatim>\<open>metrics.go\<close>, \<^verbatim>\<open>GatePublic\<close>, \<^verbatim>\<open>ResolveKey\<close>, \<^verbatim>\<open>onlyEvents\<close> and
  \<^verbatim>\<open>HandlePreflight\<close> of \<^verbatim>\<open>public.go\<close>, and the claim of \<^verbatim>\<open>storage/pg/idempotency.go\<close> with its query. A handler maps a
  request and the state to a response and the state after it.
\<close>

section \<open>Metric lines\<close>

record metricWire =
  mw_TS :: "string option"
  mw_Metric :: string
  mw_Value :: "string option"
  mw_Labels :: attrs

text \<open>
  \<^verbatim>\<open>encoding/json\<close> into \<^verbatim>\<open>metricWire\<close>, member by member: null clears a pointer or a map and leaves a string alone, a map is
  filled on top of what it holds, a value of another type fails the whole line.
\<close>

fun put_labels :: "jobj \<Rightarrow> attrs \<Rightarrow> attrs option" where
  "put_labels [] m = Some m"
| "put_labels ((k, v) # ob) m =
     (case as_str v of None \<Rightarrow> None | Some s \<Rightarrow> put_labels ob (AList.update k s m))"

datatype wire_field = FTS | FMetric | FValue | FLabels | FOther

definition wire_field_of :: "string \<Rightarrow> wire_field" where
  "wire_field_of k =
     (let k = ToLower k
      in if k = ''ts'' then FTS else if k = ''metric'' then FMetric else if k = ''value'' then FValue
         else if k = ''labels'' then FLabels else FOther)"

definition wire_member :: "string \<times> json \<Rightarrow> metricWire \<Rightarrow> metricWire option" where
  "wire_member kv w =
     (case kv of (k, v) \<Rightarrow>
        (case wire_field_of k of
           FTS \<Rightarrow> (case v of JNull \<Rightarrow> Some (w\<lparr>mw_TS := None\<rparr>) | JStr s \<Rightarrow> Some (w\<lparr>mw_TS := Some s\<rparr>) | _ \<Rightarrow> None)
         | FMetric \<Rightarrow> (case v of JNull \<Rightarrow> Some w | JStr s \<Rightarrow> Some (w\<lparr>mw_Metric := s\<rparr>) | _ \<Rightarrow> None)
         | FValue \<Rightarrow> (case v of JNull \<Rightarrow> Some (w\<lparr>mw_Value := None\<rparr>) | JNum x \<Rightarrow> Some (w\<lparr>mw_Value := Some x\<rparr>) | _ \<Rightarrow> None)
         | FLabels \<Rightarrow>
             (case v of JNull \<Rightarrow> Some (w\<lparr>mw_Labels := []\<rparr>)
              | JObj ob \<Rightarrow> map_option (\<lambda>m. w\<lparr>mw_Labels := m\<rparr>) (put_labels ob (mw_Labels w))
              | _ \<Rightarrow> None)
         | FOther \<Rightarrow> Some w))"

fun wire_members :: "jobj \<Rightarrow> metricWire \<Rightarrow> metricWire option" where
  "wire_members [] w = Some w"
| "wire_members (kv # ob) w = (case wire_member kv w of None \<Rightarrow> None | Some w \<Rightarrow> wire_members ob w)"

record MetricLine =
  ml_TS :: time
  ml_Name :: string
  ml_Value :: string
  ml_Labels :: attrs

definition RFC3339Nano :: string where "RFC3339Nano = ''2006-01-02T15:04:05.999999999Z07:00''"

definition ParseMetric :: "codec \<Rightarrow> string \<Rightarrow> MetricLine option" where
  "ParseMetric C raw =
     (let trimmed = TrimSpace raw
      in if trimmed = '''' \<or> hd trimmed \<noteq> CHR 0x7B then None
         else case parse C trimmed of
                Some (JObj ob) \<Rightarrow>
                  (case wire_members ob \<lparr>mw_TS = None, mw_Metric = '''', mw_Value = None, mw_Labels = []\<rparr> of
                     None \<Rightarrow> None
                   | Some w \<Rightarrow>
                       (case mw_Value w of
                          None \<Rightarrow> None
                        | Some v \<Rightarrow>
                            if mw_Metric w = '''' then None
                            else Some \<lparr>ml_TS = (case mw_TS w of None \<Rightarrow> zero_time
                                          | Some s \<Rightarrow> (case tparse C RFC3339Nano s of Some t \<Rightarrow> t | None \<Rightarrow> zero_time)),
                                   ml_Name = mw_Metric w, ml_Value = v, ml_Labels = mw_Labels w\<rparr>))
              | _ \<Rightarrow> None)"

definition metric_row :: "'s deps \<Rightarrow> Tenant \<Rightarrow> Record \<Rightarrow> MetricLine \<Rightarrow> MetricEnvelope" where
  "metric_row D t rec m =
     (let ts = r_Time rec;
          ts = (if IsZero ts then ml_TS m else ts);
          ts = (if IsZero ts then d_now D else ts)
      in \<lparr>me_TenantID = t_TenantID t, me_ProjectID = t_ProjectID t, me_TS = fmt_ts ts,
          me_Name = ml_Name m, me_Value = ml_Value m, me_Labels = ml_Labels m\<rparr>)"

definition metric_of :: "'s deps \<Rightarrow> Record \<Rightarrow> MetricLine option" where
  "metric_of D rec = (if length (r_Raw rec) > 0 then ParseMetric (d_codec D) (r_Raw rec) else None)"

fun splitMetrics :: "'s deps \<Rightarrow> Tenant \<Rightarrow> Record list \<Rightarrow> Record list \<times> MetricEnvelope list" where
  "splitMetrics D t [] = ([], [])"
| "splitMetrics D t (rec # recs) =
     (case splitMetrics D t recs of (logs, metrics) \<Rightarrow>
        (case metric_of D rec of
           Some m \<Rightarrow> (logs, metric_row D t rec m # metrics)
         | None \<Rightarrow> (rec # logs, metrics)))"

section \<open>Requests and answers\<close>

definition MaxBodyBytes :: nat where "MaxBodyBytes = 16777216"

record request =
  rq_body :: string
  rq_read_fails :: bool
  rq_key_header :: string
  rq_auth :: string
  rq_query_key :: string
  rq_ctype :: string
  rq_origin :: string
  rq_agent :: string
  rq_xff :: string
  rq_remote :: string

record Receipt =
  rc_Accepted :: int
  rc_Metrics :: int
  rc_Warnings :: warnings
  rc_Sampling :: "Sampling option"

datatype payload = ErrCode string | Ack Receipt | NoBody

record response =
  rs_status :: int
  rs_headers :: "(string \<times> string) list"
  rs_body :: payload

definition answer :: "(string \<times> string) list \<Rightarrow> int \<Rightarrow> payload \<Rightarrow> response" where
  "answer hdrs code v = \<lparr>rs_status = code, rs_headers = hdrs, rs_body = v\<rparr>"

section \<open>Keys\<close>

record keyFound =
  kf_key :: string
  kf_inBody :: bool

definition keyFromBody :: "codec \<Rightarrow> string \<Rightarrow> string" where
  "keyFromBody C body = (case parse C body of Some (JObj probe) \<Rightarrow> get_str probe ''key'' | _ \<Rightarrow> '''')"

definition find_key :: "codec \<Rightarrow> request \<Rightarrow> keyFound" where
  "find_key C rq =
     (if rq_key_header rq \<noteq> '''' then \<lparr>kf_key = TrimSpace (rq_key_header rq), kf_inBody = False\<rparr>
      else if has_prefix (rq_auth rq) ''Bearer '' then \<lparr>kf_key = TrimSpace (trim_prefix (rq_auth rq) ''Bearer ''), kf_inBody = False\<rparr>
      else if rq_query_key rq \<noteq> '''' then \<lparr>kf_key = rq_query_key rq, kf_inBody = False\<rparr>
      else let k = keyFromBody C (rq_body rq) in \<lparr>kf_key = k, kf_inBody = (k \<noteq> '''')\<rparr>)"

definition ResolveKey :: "'s deps \<Rightarrow> string \<Rightarrow> Tenant option" where
  "ResolveKey D key =
     (if key = '''' then None else case d_Keys D of None \<Rightarrow> None | Some Resolve \<Rightarrow> Resolve key)"

definition authenticate :: "'s deps \<Rightarrow> request \<Rightarrow> Tenant option \<times> keyFound" where
  "authenticate D rq = (let kf = find_key (d_codec D) rq in (ResolveKey D (kf_key kf), kf))"

section \<open>The gates of a public key\<close>

text \<open>\<open>Inl\<close>: the request is answered; \<open>Inr\<close>: it goes on, with the headers set so far.\<close>

definition GatePublic ::
  "'s deps \<Rightarrow> request \<Rightarrow> Tenant \<Rightarrow> string \<Rightarrow> hits \<Rightarrow> (response + (string \<times> string) list) \<times> hits" where
  "GatePublic D rq t key hs =
     (let origin = matchOrigin (rq_origin rq) (t_Origins t)
      in if origin = '''' then (Inl (answer [] 401 (ErrCode ''bad_key'')), hs)
         else
           let hdrs = [(''Access-Control-Allow-Origin'', origin), (''Vary'', ''Origin''),
                       (''Access-Control-Allow-Credentials'', ''true'')]
           in if (case d_IsBot D of None \<Rightarrow> False | Some f \<Rightarrow> f (rq_agent rq)) then
                (Inl (answer hdrs 200 (Ack \<lparr>rc_Accepted = 0, rc_Metrics = 0, rc_Warnings = [(''bot_dropped'', 1)], rc_Sampling = None\<rparr>)), hs)
              else
                case allow hs key (clientIP (d_splitHost D) (rq_xff rq) (rq_remote rq)) (d_now D) of
                  (ok, hs) \<Rightarrow>
                    if \<not> ok then (Inl (answer (hdrs @ [(''Retry-After'', ''60'')]) 429 (ErrCode ''rate_limited'')), hs)
                    else (Inr hdrs, hs))"

fun onlyEvents :: "Record list \<Rightarrow> warnings \<Rightarrow> Record list \<times> warnings" where
  "onlyEvents [] ws = ([], ws)"
| "onlyEvents (rec # recs) ws =
     (if ev_Name (Classify (r_Message rec) (r_Named rec)) \<noteq> ''''
      then (case onlyEvents recs ws of (out, ws) \<Rightarrow> (rec # out, ws))
      else onlyEvents recs (add_warning ''public_key_logs_refused'' 1 ws))"

section \<open>The batch table\<close>

definition int32 :: "int \<Rightarrow> int" where
  "int32 n = (n + 2 ^ 31) mod 2 ^ 32 - 2 ^ 31"

text \<open>\<^verbatim>\<open>ClaimIngestBatch\<close>: insert unless the key is there, return the stored count and whether it was inserted.\<close>

type_synonym batches = "(string \<times> batch_row) list"

definition Claim :: "time \<Rightarrow> batches \<Rightarrow> string \<Rightarrow> int \<Rightarrow> (bool \<times> int) \<times> batches" where
  "Claim now bs key accepted =
     (case map_of bs key of
        Some b \<Rightarrow> ((True, br_accepted b), bs)
      | None \<Rightarrow> ((False, int32 accepted), (key, \<lparr>br_accepted = int32 accepted, br_expires_at = now + 24 * hour\<rparr>) # bs))"

definition PurgeExpiredBatches :: "time \<Rightarrow> batches \<Rightarrow> batches" where
  "PurgeExpiredBatches now bs = filter (\<lambda>(k, b). \<not> br_expires_at b < now) bs"

section \<open>Handle\<close>

text \<open>From the decoded body to the receipt: everything after the gates and the overload refusal.\<close>

definition accept ::
  "'s deps \<Rightarrow> request \<Rightarrow> Tenant \<Rightarrow> keyFound \<Rightarrow> (string \<times> string) list \<Rightarrow> overloadDecision \<Rightarrow> 's ing_state \<Rightarrow>
   response \<times> 's ing_state" where
  "accept D rq t kf hdrs d st =
     (let dec = Decode (d_codec D) (rq_body rq) (rq_ctype rq);
          ws = (if kf_inBody kf then add_warning ''key_in_body'' 1 [] else []);
          ws = merge_warnings (dr_Warnings dec) ws;
          (recs, ws) = (if t_Kind t = KeyKindPublic then onlyEvents (Records dec) ws else (Records dec, ws));
          (logRecs, metricRows) = splitMetrics D t recs;
          (rows, lim, seq, ws) = buildRows D t d logRecs (st_card st, st_seq st, ws);
          n = int (length rows + length metricRows);
          st = st\<lparr>st_card := lim, st_seq := seq\<rparr>;
          ((replay, stored), batches) =
            (if d_Idem D \<and> \<not> d_Claim_fails D then Claim (d_now D) (st_batches st) (d_sha D (rq_body rq)) n
             else ((False, 0), st_batches st));
          st = st\<lparr>st_batches := batches\<rparr>
      in if replay then (answer hdrs 200 (Ack \<lparr>rc_Accepted = stored, rc_Metrics = 0, rc_Warnings = [], rc_Sampling = None\<rparr>), st)
         else (answer hdrs 200 (Ack \<lparr>rc_Accepted = n, rc_Metrics = int (length metricRows), rc_Warnings = ws,
                 rc_Sampling = sampling d\<rparr>),
               st\<lparr>st_sink := st_sink st @ map (\<lambda>e. LogRow (marshal_row e)) rows @
                 map (\<lambda>m. MetricRow (marshal_metric m)) metricRows\<rparr>))"

definition Handle :: "'s deps \<Rightarrow> request \<Rightarrow> 's ing_state \<Rightarrow> response \<times> 's ing_state" where
  "Handle D rq st =
     (if rq_read_fails rq \<or> length (rq_body rq) > MaxBodyBytes then (answer [] 413 (ErrCode ''body_too_large''), st)
      else
        case authenticate D rq of
          (None, kf) \<Rightarrow> (answer [] 401 (ErrCode ''bad_key''), st)
        | (Some t, kf) \<Rightarrow>
            (case (if t_Kind t = KeyKindPublic then GatePublic D rq t (kf_key kf) (st_hits st) else (Inr [], st_hits st)) of
               (Inl resp, hs) \<Rightarrow> (resp, st\<lparr>st_hits := hs\<rparr>)
             | (Inr hdrs, hs) \<Rightarrow>
                 (let st = st\<lparr>st_hits := hs\<rparr>;
                      decision = computeOverload (d_Fill D)
                  in if rejectAll decision
                     then (answer (hdrs @ [(''Retry-After'', ''30'')]) 503 (ErrCode ''spool_full''), st)
                     else accept D rq t kf hdrs decision st)))"

section \<open>HandlePreflight\<close>

definition HandlePreflight :: "'s deps \<Rightarrow> request \<Rightarrow> response" where
  "HandlePreflight D rq =
     (let key = rq_query_key rq
      in if key = '''' then answer [] 204 NoBody
         else case d_Keys D of
                None \<Rightarrow> answer [] 204 NoBody
              | Some Resolve \<Rightarrow>
                  (case Resolve key of
                     None \<Rightarrow> answer [] 204 NoBody
                   | Some tenant \<Rightarrow>
                       if t_Kind tenant \<noteq> KeyKindPublic then answer [] 204 NoBody
                       else
                         let origin = matchOrigin (rq_origin rq) (t_Origins tenant)
                         in if origin = '''' then answer [] 204 NoBody
                            else answer [(''Access-Control-Allow-Origin'', origin), (''Vary'', ''Origin''),
                                   (''Access-Control-Allow-Credentials'', ''true''), (''Access-Control-Allow-Methods'', ''POST''),
                                   (''Access-Control-Allow-Headers'', ''Content-Type, X-Upcontrol-Key, Authorization''),
                                   (''Access-Control-Max-Age'', ''600'')] 204 NoBody))"

end
