(* ===== verification/IngestFacts.thy ===== *)
theory IngestFacts
  imports IngestHandle DecodeFacts
begin

text \<open>
  What POST /i promises: the shape of every stored row, the accounting of the receipt, idempotent replays, the limits of a
  public key and of the overload steps, and the places where the code does not keep its comments' word.
\<close>

section \<open>Caps and lifted attributes\<close>

definition attr_bounded :: "string \<times> string \<Rightarrow> bool" where
  "attr_bounded kv \<longleftrightarrow> length (fst kv) \<le> MaxAttrKeyBytes \<and> length (snd kv) \<le> MaxAttrValBytes"

definition keys_of :: "attrs \<Rightarrow> string set" where
  "keys_of as = fst ` set as"

lemma keys_of_simps [simp]:
  "keys_of [] = {}"
  "keys_of (AList.delete k as) = keys_of as - {k}"
  "keys_of (AList.update k v as) = insert k (keys_of as)"
proof -
  have "fst ` set (AList.update k v as) = insert k (fst ` set as)"
    by (induction as) auto
  then show "keys_of (AList.update k v as) = insert k (keys_of as)" by (simp add: keys_of_def)
qed (auto simp: keys_of_def AList.delete_eq image_iff)

lemma set_update_sub: "set (AList.update k v as) \<subseteq> insert (k, v) (set as)"
  by (induction as) auto

lemma length_update_le: "length (AList.update k v as) \<le> Suc (length as)"
  by (induction as) auto

lemma cap_loop_bounds:
  assumes "cap_loop attrs i keys (out, kc, vc) = (out', kc', vc')"
    and "length out \<le> i" and "length out \<le> MaxAttrKeys" and "\<forall>kv \<in> set out. attr_bounded kv"
  shows "length out' \<le> MaxAttrKeys \<and> (\<forall>kv \<in> set out'. attr_bounded kv) \<and>
         keys_of out' \<subseteq> keys_of out \<union> set keys \<union> {k. length k = MaxAttrKeyBytes}"
  using assms
proof (induction keys arbitrary: i out kc vc)
  case (Cons key keys)
  obtain k kc1 where k: "(if length key > MaxAttrKeyBytes then (take MaxAttrKeyBytes key, kc + 1) else (key, kc)) = (k, kc1)"
    by (metis surj_pair)
  obtain v vc1 where v: "(if length (attr_get attrs key) > MaxAttrValBytes
      then (take MaxAttrValBytes (attr_get attrs key), vc + 1) else (attr_get attrs key, vc)) = (v, vc1)"
    by (metis surj_pair)
  show ?case
  proof (cases "i \<ge> MaxAttrKeys")
    case True
    then have "cap_loop attrs (i + 1) keys (out, kc + 1, vc) = (out', kc', vc')" using Cons.prems(1) by simp
    from Cons.IH [OF this] Cons.prems(2-4) show ?thesis by fastforce
  next
    case False
    then have "cap_loop attrs (i + 1) keys (AList.update k v out, kc1, vc1) = (out', kc', vc')"
      using Cons.prems(1) k v by simp
    moreover have "length (AList.update k v out) \<le> i + 1" "length (AList.update k v out) \<le> MaxAttrKeys"
      using Cons.prems(2) False length_update_le [of k v out] by simp_all
    moreover have "attr_bounded (k, v)"
      using k v by (auto simp: attr_bounded_def split: if_splits)
    then have "\<forall>kv \<in> set (AList.update k v out). attr_bounded kv"
      using Cons.prems(4) set_update_sub [of k v out] by blast
    ultimately have IH: "length out' \<le> MaxAttrKeys \<and> (\<forall>kv \<in> set out'. attr_bounded kv) \<and>
        keys_of out' \<subseteq> keys_of (AList.update k v out) \<union> set keys \<union> {k. length k = MaxAttrKeyBytes}"
      by (rule Cons.IH)
    have "k = key \<or> length k = MaxAttrKeyBytes" using k by (auto split: if_splits)
    with IH show ?thesis by auto
  qed
qed auto

lemma capAttrs_bounds:
  assumes "capAttrs attrs = (out, kc, vc)"
  shows "length out \<le> MaxAttrKeys" and "\<forall>kv \<in> set out. attr_bounded kv"
    and "keys_of out \<subseteq> keys_of attrs \<union> {k. length k = MaxAttrKeyBytes}"
proof -
  have "length out \<le> MaxAttrKeys \<and> (\<forall>kv \<in> set out. attr_bounded kv) \<and>
      keys_of out \<subseteq> keys_of attrs \<union> {k. length k = MaxAttrKeyBytes}"
  proof (cases "attrs = [] \<or> \<not> attrs_over attrs")
    case True
    then have "out = attrs" using assms by (auto simp: capAttrs_def split: if_splits)
    with True show ?thesis by (fastforce simp: attrs_over_def attr_bounded_def)
  next
    case False
    then have "cap_loop attrs 0 (sort (map fst attrs)) ([], 0, 0) = (out, kc, vc)"
      using assms by (simp add: capAttrs_def)
    from cap_loop_bounds [OF this] show ?thesis by (simp add: keys_of_def)
  qed
  then show "length out \<le> MaxAttrKeys" and "\<forall>kv \<in> set out. attr_bounded kv"
    and "keys_of out \<subseteq> keys_of attrs \<union> {k. length k = MaxAttrKeyBytes}" by simp_all
qed

definition scrub_attr :: "string \<times> string \<Rightarrow> attrs \<times> warnings \<Rightarrow> attrs \<times> warnings" where
  "scrub_attr kv st =
     (let s = Scrub (snd kv)
      in if length (Counts s) > 0
         then (AList.update (fst kv) (Cleaned s) (fst st), add_warning ''scrubbed'' (sumCounts (Counts s)) (snd st)) else st)"

lemma scrub_attrs_fold: "scrub_attrs attrs ws = fold scrub_attr attrs (attrs, ws)"
proof -
  have "scrub_attr = (\<lambda>(k, v) (as, ws).
        let s = Scrub v
        in if length (Counts s) > 0 then (AList.update k (Cleaned s) as, add_warning ''scrubbed'' (sumCounts (Counts s)) ws)
           else (as, ws))"
    by (auto simp: fun_eq_iff scrub_attr_def Let_def)
  then show ?thesis by (simp add: scrub_attrs_def)
qed

lemma scrub_attrs_keys:
  assumes "scrub_attrs attrs ws = (attrs', ws')"
  shows "keys_of attrs' = keys_of attrs"
proof -
  have "keys_of (fst (fold scrub_attr kvs st)) = keys_of (fst st)" if "keys_of kvs \<subseteq> keys_of (fst st)" for kvs st
    using that
  proof (induction kvs arbitrary: st)
    case (Cons kv kvs)
    then have "keys_of (fst (scrub_attr kv st)) = keys_of (fst st)"
      by (auto simp: scrub_attr_def Let_def keys_of_def [of "_ # _"])
    with Cons.IH [of "scrub_attr kv st"] Cons.prems show ?case by (simp add: keys_of_def [of "_ # _"] keys_of_def [of kvs])
  qed simp
  from this [of attrs "(attrs, ws)"] assms show ?thesis by (simp add: scrub_attrs_fold)
qed

lemma liftActor_facts:
  "liftActor attrs = (actor, attrs') \<Longrightarrow> length actor \<le> MaxActorBytes \<and> keys_of attrs' = keys_of attrs - {ActorAttr}"
  by (auto simp: liftActor_def Let_def)

lemma str_nat_bound: "\<forall>c \<in> set d. is_digit c \<Longrightarrow> str_nat d < 10 ^ length d"
proof (induction d rule: rev_induct)
  case (snoc c d)
  then have "byte c \<le> 57" by (simp add: is_digit_byte)
  with snoc show ?case by (simp add: str_nat_snoc)
qed simp

lemma ParseInt_bound:
  assumes "ParseInt a = Some n" and "\<forall>x \<in> set (trim_prefix a ''-''). is_digit x" and "length (trim_prefix a ''-'') \<le> 15"
  shows "\<bar>n\<bar> < 10 ^ 15"
proof -
  have d: "str_nat (trim_prefix a ''-'') < 10 ^ 15"
    using str_nat_bound [OF assms(2)] power_increasing [OF assms(3), of "10 :: nat"] by simp
  then have d: "int (str_nat (trim_prefix a ''-'')) < 10 ^ 15"
    by (metis of_nat_less_iff of_nat_numeral of_nat_power)
  have plus: "\<not> is_digit CHR ''+''" by (simp add: is_digit_byte)
  show ?thesis
  proof (cases a)
    case (Cons c r)
    then show ?thesis
      using assms(1,2) d plus
      by (cases "c = CHR ''-''") (auto simp: ParseInt_def trim_prefix_def has_prefix_Cons Let_def split: if_splits)
  qed (use assms(1) in \<open>simp add: ParseInt_def\<close>)
qed

lemma upper_letter: "is_letter c \<Longrightarrow> is_upper (upper_byte c)"
  by (auto simp: is_letter_def upper_byte_def is_lower_def is_upper_def between_def of_char_of)

definition money_ok :: "int \<Rightarrow> string \<Rightarrow> bool" where
  "money_ok amount currency \<longleftrightarrow> amount = 0 \<and> currency = '''' \<or>
     \<bar>amount\<bar> < 10 ^ 15 \<and> length currency = 3 \<and> list_all is_upper currency"

lemma liftAmount_facts:
  assumes "liftAmount attrs = ((amount, currency, ok), attrs')"
  shows "keys_of attrs' = keys_of attrs - {AmountAttr, CurrencyAttr}" and "money_ok amount currency"
proof -
  show "keys_of attrs' = keys_of attrs - {AmountAttr, CurrencyAttr}"
    using assms by (auto simp: liftAmount_def Let_def split: if_splits option.splits)
  obtain a where a: "a = attr_get attrs AmountAttr" by blast
  obtain c where c: "c = attr_get attrs CurrencyAttr" by blast
  note u = assms [unfolded liftAmount_def Let_def, folded a c]
  show "money_ok amount currency"
  proof (cases "trim_prefix a ''-'' = '''' \<or> length (trim_prefix a ''-'') > 15 \<or> (\<exists>x \<in> set (trim_prefix a ''-''). \<not> is_digit x)")
    case True
    with u show ?thesis by (auto simp: money_ok_def)
  next
    case digits: False
    show ?thesis
    proof (cases "length c \<noteq> 3 \<or> (\<exists>x \<in> set c. \<not> is_letter x)")
      case True
      with u digits show ?thesis by (auto simp: money_ok_def)
    next
      case letters: False
      show ?thesis
      proof (cases "ParseInt a")
        case None
        with u digits letters show ?thesis by (auto simp: money_ok_def)
      next
        case (Some n)
        with u digits letters have "amount = n" "currency = ToUpper c" by auto
        moreover have "\<bar>n\<bar> < 10 ^ 15" by (rule ParseInt_bound [OF Some]) (use digits in auto)
        moreover have "list_all is_upper (ToUpper c)"
          using letters upper_letter by (auto simp: ToUpper_def list_all_iff)
        ultimately show ?thesis using letters by (simp add: money_ok_def ToUpper_def)
      qed
    qed
  qed
qed

section \<open>A stored row\<close>

definition row_ok :: "Tenant \<Rightarrow> overloadDecision \<Rightarrow> RowEnvelope \<Rightarrow> bool" where
  "row_ok t d e \<longleftrightarrow>
     e_TenantID e = t_TenantID t \<and> e_ProjectID e = t_ProjectID t \<and>
     e_Level e \<in> set levels \<and> e_Level e \<notin> set (shed d) \<and>
     length (e_Attrs e) \<le> MaxAttrKeys \<and> (\<forall>kv \<in> set (e_Attrs e). attr_bounded kv) \<and>
     length (e_Actor e) \<le> MaxActorBytes \<and> money_ok (e_AmountMinor e) (e_Currency e) \<and>
     (if e_Event e \<noteq> '''' then keys_of (e_Attrs e) \<inter> {ActorAttr, AmountAttr, CurrencyAttr} = {}
      else e_Actor e = '''' \<and> e_AmountMinor e = 0 \<and> e_Currency e = '''') \<and>
     (t_Kind t = KeyKindPublic \<longrightarrow> e_Event e \<noteq> '''' \<and> e_AmountMinor e = 0 \<and> e_Currency e = '''')"

lemma money_none: "money_ok 0 ''''"
  by (simp add: money_ok_def)

lemma lift_reserved_facts:
  assumes "lift_reserved t ev attrs = (actor, amount, currency, attrs')"
  shows "length actor \<le> MaxActorBytes" and "money_ok amount currency"
    and "t_Kind t = KeyKindPublic \<Longrightarrow> amount = 0 \<and> currency = ''''"
    and "ev_Name ev \<noteq> '''' \<Longrightarrow> keys_of attrs' = keys_of attrs - {ActorAttr, AmountAttr, CurrencyAttr}"
    and "ev_Name ev = '''' \<Longrightarrow> attrs' = attrs"
proof -
  obtain ac as1 where la: "liftActor attrs = (ac, as1)" by (metis surj_pair)
  obtain am cu ok as2 where lm: "liftAmount as1 = ((am, cu, ok), as2)" by (metis surj_pair)
  note fa = liftActor_facts [OF la] and fm = liftAmount_facts [OF lm]
  have eq: "(actor, amount, currency, attrs') =
      (if ev_Name ev \<noteq> '''' then (ac, if \<not> ok \<or> t_Kind t = KeyKindPublic then 0 else am,
         if \<not> ok \<or> t_Kind t = KeyKindPublic then '''' else cu, as2) else ('''', 0, '''', attrs))"
    using assms by (auto simp: lift_reserved_def la lm split: if_splits)
  show "length actor \<le> MaxActorBytes" using eq fa by (auto split: if_splits)
  show "money_ok amount currency" using eq fm(2) money_none by (auto split: if_splits)
  show "t_Kind t = KeyKindPublic \<Longrightarrow> amount = 0 \<and> currency = ''''" using eq by (auto split: if_splits)
  show "ev_Name ev \<noteq> '''' \<Longrightarrow> keys_of attrs' = keys_of attrs - {ActorAttr, AmountAttr, CurrencyAttr}"
    using eq fa fm(1) by auto
  show "ev_Name ev = '''' \<Longrightarrow> attrs' = attrs" using eq by auto
qed

lemma scrub_record_keys:
  "scrub_record off msg attrs ws = (msg', attrs', ws') \<Longrightarrow> keys_of attrs' = keys_of attrs"
  using scrub_attrs_keys [of attrs] by (auto simp: scrub_record_def Let_def split: if_splits prod.splits)

text \<open>The stages of one row, named.\<close>

lemma build_row_stages:
  assumes "build_row D t d rec (lim, s, ws) = (row, lim', s', ws')"
  obtains actor amount currency attrs msg attrs1 ws1 ws2 attrs2 kc vc ws3 ws4 env
  where "lift_reserved t (Classify (r_Message rec) (r_Named rec)) (r_Attrs rec) = (actor, amount, currency, attrs)"
    and "ws1 = (if ev_Reserved (Classify (r_Message rec) (r_Named rec)) then add_warning ''reserved_prefix'' 1 ws else ws)"
    and "scrub_record (d_ScrubOff D) (r_Message rec) attrs ws1 = (msg, attrs1, ws2)"
    and "capAttrs attrs1 = (attrs2, kc, vc)"
    and "ws3 = (if vc > 0 then add_warning ''field_cap_exceeded'' vc
        (if kc > 0 then add_warning ''attr_key_capped'' kc ws2 else ws2)
      else if kc > 0 then add_warning ''attr_key_capped'' kc ws2 else ws2)"
    and "cap_fields lim (envelope t rec (Classify (r_Message rec) (r_Named rec)) (actor, amount, currency) msg attrs2) ws3 =
        (env, lim', ws4)"
    and "(row, s', ws') = (if e_Level env \<in> set (shed d) then (None, s, add_warning ''class_shed'' 1 ws4)
        else (Some (fst (stamp_seq D (t_ProjectID t) s env)), snd (stamp_seq D (t_ProjectID t) s env), ws4))"
proof -
  let ?ev = "Classify (r_Message rec) (r_Named rec)"
  obtain actor amount currency attrs where l: "lift_reserved t ?ev (r_Attrs rec) = (actor, amount, currency, attrs)"
    by (metis surj_pair)
  obtain ws1 where w1: "ws1 = (if ev_Reserved ?ev then add_warning ''reserved_prefix'' 1 ws else ws)" by blast
  obtain msg attrs1 ws2 where sc: "scrub_record (d_ScrubOff D) (r_Message rec) attrs ws1 = (msg, attrs1, ws2)" by (metis surj_pair)
  obtain attrs2 kc vc where c: "capAttrs attrs1 = (attrs2, kc, vc)" by (metis surj_pair)
  obtain ws3 where w3: "ws3 = (if vc > 0 then add_warning ''field_cap_exceeded'' vc
        (if kc > 0 then add_warning ''attr_key_capped'' kc ws2 else ws2)
      else if kc > 0 then add_warning ''attr_key_capped'' kc ws2 else ws2)" by blast
  obtain env lim1 ws4 where f: "cap_fields lim (envelope t rec ?ev (actor, amount, currency) msg attrs2) ws3 = (env, lim1, ws4)"
    by (metis surj_pair)
  have eq: "(row, lim', s', ws') = (if e_Level env \<in> set (shed d) then (None, lim1, s, add_warning ''class_shed'' 1 ws4)
      else (Some (fst (stamp_seq D (t_ProjectID t) s env)), lim1, snd (stamp_seq D (t_ProjectID t) s env), ws4))"
    using assms unfolding build_row_def Let_def prod.case w1 [symmetric] l sc c w3 [symmetric] f
    by (auto simp: case_prod_unfold)
  then have "lim1 = lim'" by (auto split: if_splits)
  with eq have "(row, s', ws') = (if e_Level env \<in> set (shed d) then (None, s, add_warning ''class_shed'' 1 ws4)
      else (Some (fst (stamp_seq D (t_ProjectID t) s env)), snd (stamp_seq D (t_ProjectID t) s env), ws4))"
    by (auto split: if_splits)
  with that l w1 sc c w3 f \<open>lim1 = lim'\<close> show thesis by blast
qed

lemma same_host_service: "\<exists>h s. env = env\<lparr>e_Host := h, e_Service := s\<rparr>" for env :: RowEnvelope
  by (rule exI [of _ "e_Host env"], rule exI [of _ "e_Service env"]) simp

lemma cap_fields_kept:
  assumes "cap_fields lim env ws = (env', lim', ws')"
  shows "\<exists>h s. env' = env\<lparr>e_Host := h, e_Service := s\<rparr>"
proof (cases lim)
  case None
  with assms same_host_service [of env] show ?thesis by (auto simp: cap_fields_def)
next
  case (Some l)
  with assms show ?thesis by (auto simp: cap_fields_def Let_def split: prod.splits)
qed

lemma same_seq: "\<exists>n. env = env\<lparr>e_Seq := n\<rparr>" for env :: RowEnvelope
  by (rule exI [of _ "e_Seq env"]) simp

lemma stamp_seq_kept: "\<exists>n. fst (stamp_seq D p s env) = env\<lparr>e_Seq := n\<rparr>"
  using same_seq [of env] by (cases "d_Seq D") (auto simp: stamp_seq_def split: option.split prod.split)

lemma build_row_ok:
  assumes "build_row D t d rec (lim, s, ws) = (Some e, lim', s', ws')" and "r_Level rec \<in> set levels"
    and "t_Kind t = KeyKindPublic \<Longrightarrow> ev_Name (Classify (r_Message rec) (r_Named rec)) \<noteq> ''''"
  shows "row_ok t d e"
  using assms(1)
proof (rule build_row_stages)
  let ?ev = "Classify (r_Message rec) (r_Named rec)"
  fix actor amount currency attrs msg attrs1 ws1 ws2 attrs2 kc vc ws3 ws4 env
  assume l: "lift_reserved t ?ev (r_Attrs rec) = (actor, amount, currency, attrs)"
    and sc: "scrub_record (d_ScrubOff D) (r_Message rec) attrs ws1 = (msg, attrs1, ws2)"
    and c: "capAttrs attrs1 = (attrs2, kc, vc)"
    and f: "cap_fields lim (envelope t rec ?ev (actor, amount, currency) msg attrs2) ws3 = (env, lim', ws4)"
    and eq: "(Some e, s', ws') = (if e_Level env \<in> set (shed d) then (None, s, add_warning ''class_shed'' 1 ws4)
        else (Some (fst (stamp_seq D (t_ProjectID t) s env)), snd (stamp_seq D (t_ProjectID t) s env), ws4))"
  from eq have kept: "e_Level env \<notin> set (shed d)" and e: "e = fst (stamp_seq D (t_ProjectID t) s env)"
    by (auto split: if_splits)
  obtain h sv n where env: "env = (envelope t rec ?ev (actor, amount, currency) msg attrs2)\<lparr>e_Host := h, e_Service := sv\<rparr>"
    and e: "e = env\<lparr>e_Seq := n\<rparr>"
    using cap_fields_kept [OF f] stamp_seq_kept [of D "t_ProjectID t" s env] e by blast
  note lf = lift_reserved_facts [OF l] and cb = capAttrs_bounds [OF c]
  have "keys_of attrs2 \<inter> {ActorAttr, AmountAttr, CurrencyAttr} = {}" if "ev_Name ?ev \<noteq> ''''"
    using cb(3) lf(4) [OF that] scrub_record_keys [OF sc]
    by (auto simp: ActorAttr_def AmountAttr_def CurrencyAttr_def MaxAttrKeyBytes_def)
  with kept lf(1-3) cb(1,2) assms(2,3) money_none show "row_ok t d e"
    by (simp add: row_ok_def e env envelope_def MaxActorBytes_def)
qed

lemma buildRows_ok:
  assumes "buildRows D t d recs (lim, s, ws) = (rows, st')"
    and "\<forall>rec \<in> set recs. r_Level rec \<in> set levels \<and>
           (t_Kind t = KeyKindPublic \<longrightarrow> ev_Name (Classify (r_Message rec) (r_Named rec)) \<noteq> '''')"
  shows "\<forall>e \<in> set rows. row_ok t d e"
  using assms
proof (induction recs arbitrary: lim s ws rows st')
  case (Cons rec recs)
  obtain row lim1 s1 ws1 where b: "build_row D t d rec (lim, s, ws) = (row, lim1, s1, ws1)" by (metis surj_pair)
  obtain rows1 st1 where r: "buildRows D t d recs (lim1, s1, ws1) = (rows1, st1)" by (metis surj_pair)
  from Cons.prems(1) b r have rows: "rows = (case row of Some e \<Rightarrow> e # rows1 | None \<Rightarrow> rows1)" by auto
  have "\<forall>e \<in> set rows1. row_ok t d e" using Cons.IH [OF r] Cons.prems(2) by simp
  moreover have "row_ok t d e" if "row = Some e" for e
    using build_row_ok [OF b [unfolded that]] Cons.prems(2) by simp
  ultimately show ?case unfolding rows by (auto split: option.splits)
qed simp

lemma onlyEvents_keeps: "onlyEvents recs ws = (out, ws') \<Longrightarrow>
    set out \<subseteq> {rec \<in> set recs. ev_Name (Classify (r_Message rec) (r_Named rec)) \<noteq> ''''}"
  by (induction recs arbitrary: ws out) (fastforce split: if_splits prod.splits)+

lemma onlyEvents_kept: "onlyEvents recs ws = (out, ws') \<Longrightarrow> rec \<in> set recs \<Longrightarrow>
    ev_Name (Classify (r_Message rec) (r_Named rec)) \<noteq> '''' \<Longrightarrow> rec \<in> set out"
  by (induction recs arbitrary: ws out) (auto split: if_splits prod.splits)

lemma splitMetrics_eq:
  "splitMetrics D t recs =
     (filter (\<lambda>rec. metric_of D rec = None) recs,
      map (\<lambda>rec. metric_row D t rec (the (metric_of D rec))) (filter (\<lambda>rec. metric_of D rec \<noteq> None) recs))"
  by (induction recs) (auto split: option.split)

section \<open>The receipt accounts for every record\<close>

lemma count_add_warning: "count_of (add_warning c n ws) c' = count_of ws c' + (if c' = c then n else 0)"
  by (simp add: add_warning_def count_of_add)

definition row_codes :: "string set" where
  "row_codes = {''reserved_prefix'', ''scrubbed'', ''attr_key_capped'', ''field_cap_exceeded'', ''cardinality_capped''}"

lemma scrub_attrs_count:
  assumes "scrub_attrs attrs ws = (attrs', ws')" and "c \<noteq> ''scrubbed''"
  shows "count_of ws' c = count_of ws c"
proof -
  have "count_of (snd (fold scrub_attr kvs st)) c = count_of (snd st) c" for kvs st
    by (induction kvs arbitrary: st) (auto simp: scrub_attr_def Let_def count_add_warning assms(2))
  from this [of attrs "(attrs, ws)"] assms(1) show ?thesis by (simp add: scrub_attrs_fold)
qed

lemma scrub_record_count:
  "scrub_record off msg attrs ws = (msg', attrs', ws') \<Longrightarrow> c \<noteq> ''scrubbed'' \<Longrightarrow> count_of ws' c = count_of ws c"
  using scrub_attrs_count by (auto simp: scrub_record_def Let_def count_add_warning split: if_splits prod.splits)

lemma cap_fields_count:
  "cap_fields lim env ws = (env', lim', ws') \<Longrightarrow> c \<noteq> ''cardinality_capped'' \<Longrightarrow> count_of ws' c = count_of ws c"
  by (auto simp: cap_fields_def Let_def count_add_warning split: option.splits prod.splits if_splits)

lemma build_row_count:
  assumes "build_row D t d rec (lim, s, ws) = (row, lim', s', ws')" and "c \<notin> row_codes"
  shows "count_of ws' c = count_of ws c + (if c = ''class_shed'' \<and> row = None then 1 else 0)"
  using assms(1)
proof (rule build_row_stages)
  let ?ev = "Classify (r_Message rec) (r_Named rec)"
  note c = assms(2) [unfolded row_codes_def, simplified]
  fix actor amount currency attrs msg attrs1 ws1 ws2 attrs2 kc vc ws3 ws4 env
  assume w1: "ws1 = (if ev_Reserved ?ev then add_warning ''reserved_prefix'' 1 ws else ws)"
    and sc: "scrub_record (d_ScrubOff D) (r_Message rec) attrs ws1 = (msg, attrs1, ws2)"
    and w3: "ws3 = (if vc > 0 then add_warning ''field_cap_exceeded'' vc
        (if kc > 0 then add_warning ''attr_key_capped'' kc ws2 else ws2)
      else if kc > 0 then add_warning ''attr_key_capped'' kc ws2 else ws2)"
    and f: "cap_fields lim (envelope t rec ?ev (actor, amount, currency) msg attrs2) ws3 = (env, lim', ws4)"
    and eq: "(row, s', ws') = (if e_Level env \<in> set (shed d) then (None, s, add_warning ''class_shed'' 1 ws4)
        else (Some (fst (stamp_seq D (t_ProjectID t) s env)), snd (stamp_seq D (t_ProjectID t) s env), ws4))"
  have "count_of ws4 c = count_of ws3 c" by (rule cap_fields_count [OF f]) (use c in simp)
  also have "\<dots> = count_of ws2 c" using c by (simp add: w3 count_add_warning)
  also have "\<dots> = count_of ws1 c" by (rule scrub_record_count [OF sc]) (use c in simp)
  also have "\<dots> = count_of ws c" using c by (simp add: w1 count_add_warning)
  finally show ?thesis using eq by (auto simp: count_add_warning split: if_splits)
qed

lemma buildRows_count:
  assumes "buildRows D t d recs (lim, s, ws) = (rows, lim', s', ws')" and "c \<notin> row_codes"
  shows "count_of ws' c = count_of ws c + (if c = ''class_shed'' then int (length recs) - int (length rows) else 0)"
  using assms(1)
proof (induction recs arbitrary: lim s ws rows)
  case (Cons rec recs)
  obtain row lim1 s1 ws1 where b: "build_row D t d rec (lim, s, ws) = (row, lim1, s1, ws1)" by (metis surj_pair)
  obtain rows1 lim2 s2 ws2 where r: "buildRows D t d recs (lim1, s1, ws1) = (rows1, lim2, s2, ws2)" by (metis surj_pair)
  from Cons.prems b r have eq: "rows = (case row of Some e \<Rightarrow> e # rows1 | None \<Rightarrow> rows1)"
    "lim2 = lim'" "s2 = s'" "ws2 = ws'" by auto
  have "count_of ws' c = count_of ws1 c + (if c = ''class_shed'' then int (length recs) - int (length rows1) else 0)"
    by (rule Cons.IH) (use r eq in simp)
  with build_row_count [OF b assms(2)] show ?case unfolding eq(1) by (cases row) auto
qed simp

lemma onlyEvents_count:
  "onlyEvents recs ws = (out, ws') \<Longrightarrow>
     count_of ws' c = count_of ws c + (if c = ''public_key_logs_refused'' then int (length recs) - int (length out) else 0)"
  by (induction recs arbitrary: ws out) (fastforce simp: count_add_warning split: if_splits prod.splits)+

lemma merge_warnings_count:
  "c \<notin> range code_text \<Longrightarrow> count_of (merge_warnings cs ws) c = count_of ws c"
  unfolding merge_warnings_def by (induction cs arbitrary: ws) (auto simp: count_add_warning)

lemma code_texts: "range code_text = {''ts_absent'', ''level_unknown'', ''unparseable_line''}"
proof -
  have "range code_text = code_text ` {WarnTimestampAbsent, WarnLevelUnknown, WarnUnparseable}"
    by (rule arg_cong [of _ _ "image code_text"]) (use WarningCode.nchotomy in auto)
  then show ?thesis by (simp add: code_text_def)
qed

section \<open>The handler's two ways\<close>

definition seen_before :: "'s deps \<Rightarrow> request \<Rightarrow> 's ing_state \<Rightarrow> bool" where
  "seen_before D rq st \<longleftrightarrow> d_Idem D \<and> \<not> d_Claim_fails D \<and> map_of (st_batches st) (d_sha D (rq_body rq)) \<noteq> None"

text \<open>What \<open>accept\<close> computes before it claims the body.\<close>

definition pipeline ::
  "'s deps \<Rightarrow> request \<Rightarrow> Tenant \<Rightarrow> keyFound \<Rightarrow> overloadDecision \<Rightarrow> 's ing_state \<Rightarrow>
   Record list \<Rightarrow> RowEnvelope list \<Rightarrow> MetricEnvelope list \<Rightarrow> warnings \<Rightarrow> Limiter option \<Rightarrow> 's \<Rightarrow> bool" where
  "pipeline D rq t kf d st recs rows metricRows ws lim seq \<longleftrightarrow>
     (\<exists>ws0 logRecs.
        (recs, ws0) =
          (let dec = Decode (d_codec D) (rq_body rq) (rq_ctype rq);
               w = merge_warnings (dr_Warnings dec) (if kf_inBody kf then add_warning ''key_in_body'' 1 [] else [])
           in if t_Kind t = KeyKindPublic then onlyEvents (Records dec) w else (Records dec, w)) \<and>
        splitMetrics D t recs = (logRecs, metricRows) \<and>
        buildRows D t d logRecs (st_card st, st_seq st, ws0) = (rows, lim, seq, ws))"

text \<open>What reaches the sink: the rows, marshalled.\<close>

definition stored_rows :: "RowEnvelope list \<Rightarrow> MetricEnvelope list \<Rightarrow> sink_row list" where
  "stored_rows rows ms = map (\<lambda>e. LogRow (marshal_row e)) rows @ map (\<lambda>m. MetricRow (marshal_metric m)) ms"

lemma stored_rows_counts [simp]:
  "length (stored_rows rows ms) = length rows + length ms"
  "length (filter (\<lambda>row. \<forall>e. row \<noteq> LogRow e) (stored_rows rows ms)) = length ms"
  by (simp_all add: stored_rows_def filter_map comp_def)

lemma accept_cases:
  assumes "accept D rq t kf hdrs d st = (resp, st')"
  obtains (ran) recs rows metricRows ws lim seq where "pipeline D rq t kf d st recs rows metricRows ws lim seq"
    and "seen_before D rq st \<Longrightarrow>
      resp = answer hdrs 200 (Ack \<lparr>rc_Accepted = br_accepted (the (map_of (st_batches st) (d_sha D (rq_body rq)))),
        rc_Metrics = 0, rc_Warnings = [], rc_Sampling = None\<rparr>) \<and>
      st' = st\<lparr>st_card := lim, st_seq := seq\<rparr>"
    and "\<not> seen_before D rq st \<Longrightarrow>
      resp = answer hdrs 200 (Ack \<lparr>rc_Accepted = int (length rows + length metricRows), rc_Metrics = int (length metricRows),
        rc_Warnings = ws, rc_Sampling = sampling d\<rparr>) \<and>
      st' = st\<lparr>st_card := lim, st_seq := seq,
        st_batches := (if d_Idem D \<and> \<not> d_Claim_fails D
           then (d_sha D (rq_body rq), \<lparr>br_accepted = int32 (int (length rows + length metricRows)), br_expires_at = d_now D + 24 * hour\<rparr>)
                  # st_batches st
           else st_batches st),
        st_sink := st_sink st @ stored_rows rows metricRows\<rparr>"
proof -
  obtain dec where dec: "dec = Decode (d_codec D) (rq_body rq) (rq_ctype rq)" by blast
  obtain w where w: "w = merge_warnings (dr_Warnings dec) (if kf_inBody kf then add_warning ''key_in_body'' 1 [] else [])" by blast
  obtain recs ws0 where o: "(if t_Kind t = KeyKindPublic then onlyEvents (Records dec) w else (Records dec, w)) = (recs, ws0)"
    by (metis surj_pair)
  obtain logRecs metricRows where m: "splitMetrics D t recs = (logRecs, metricRows)" by (metis surj_pair)
  obtain rows lim seq ws where b: "buildRows D t d logRecs (st_card st, st_seq st, ws0) = (rows, lim, seq, ws)" by (metis surj_pair)
  note u = assms [unfolded accept_def Let_def, folded dec, folded w, unfolded o prod.case m b]
  have p: "pipeline D rq t kf d st recs rows metricRows ws lim seq"
    unfolding pipeline_def using o m b by (auto simp: dec [symmetric] w [symmetric])
  show thesis
    by (rule that [OF p]) (use u in \<open>auto simp: seen_before_def Claim_def stored_rows_def split: if_splits option.splits\<close>)
qed

definition gate :: "'s deps \<Rightarrow> request \<Rightarrow> 's ing_state \<Rightarrow> Tenant \<Rightarrow> keyFound \<Rightarrow> (string \<times> string) list \<Rightarrow> hits \<Rightarrow> bool" where
  "gate D rq st t kf hdrs hs \<longleftrightarrow>
     \<not> rq_read_fails rq \<and> length (rq_body rq) \<le> MaxBodyBytes \<and> authenticate D rq = (Some t, kf) \<and>
     (if t_Kind t = KeyKindPublic then GatePublic D rq t (kf_key kf) (st_hits st) = (Inr hdrs, hs)
      else hdrs = [] \<and> hs = st_hits st) \<and>
     \<not> rejectAll (computeOverload (d_Fill D))"

lemma Handle_gated:
  assumes "gate D rq st t kf hdrs hs"
  shows "Handle D rq st = accept D rq t kf hdrs (computeOverload (d_Fill D)) (st\<lparr>st_hits := hs\<rparr>)"
  using assms by (auto simp: gate_def Handle_def Let_def not_less split: if_splits)

text \<open>A request is answered at a gate, touching only the rate limiter, or goes through \<open>accept\<close>.\<close>

lemma Handle_cases:
  assumes "Handle D rq st = (resp, st')"
  obtains (refused) hs where "st' = st\<lparr>st_hits := hs\<rparr>" and "(\<exists>h c e. c \<noteq> 200 \<and> resp = answer h c (ErrCode e)) \<or>
        (\<exists>h. resp = answer h 200 (Ack \<lparr>rc_Accepted = 0, rc_Metrics = 0, rc_Warnings = [(''bot_dropped'', 1)], rc_Sampling = None\<rparr>))"
  | (accepted) t kf hdrs hs where "gate D rq st t kf hdrs hs"
      and "accept D rq t kf hdrs (computeOverload (d_Fill D)) (st\<lparr>st_hits := hs\<rparr>) = (resp, st')"
proof (cases "rq_read_fails rq \<or> length (rq_body rq) > MaxBodyBytes")
  case True
  with assms refused [of "st_hits st"] show thesis by (auto simp: Handle_def answer_def)
next
  case sized: False
  obtain tt kf where au: "authenticate D rq = (tt, kf)" by (metis surj_pair)
  show thesis
  proof (cases tt)
    case None
    with sized au assms refused [of "st_hits st"] show thesis by (auto simp: Handle_def answer_def)
  next
    case (Some t)
    obtain g hs where g: "(if t_Kind t = KeyKindPublic then GatePublic D rq t (kf_key kf) (st_hits st) else (Inr [], st_hits st)) = (g, hs)"
      by (metis surj_pair)
    note u = assms [unfolded Handle_def if_not_P [OF sized] au Some prod.case option.case g Let_def]
    show thesis
    proof (cases g)
      case (Inl r)
      then have "GatePublic D rq t (kf_key kf) (st_hits st) = (Inl r, hs)" using g by (simp split: if_splits)
      then have "(\<exists>h c e. c \<noteq> 200 \<and> r = answer h c (ErrCode e)) \<or>
          (\<exists>h. r = answer h 200 (Ack \<lparr>rc_Accepted = 0, rc_Metrics = 0, rc_Warnings = [(''bot_dropped'', 1)], rc_Sampling = None\<rparr>))"
        by (auto simp: GatePublic_def Let_def answer_def split: if_splits prod.splits)
      with u Inl refused [of hs] show thesis by auto
    next
      case (Inr hdrs)
      show thesis
      proof (cases "rejectAll (computeOverload (d_Fill D))")
        case True
        with u Inr refused [of hs] show thesis by (auto simp: answer_def)
      next
        case False
        have "gate D rq st t kf hdrs hs"
          unfolding gate_def using sized au Some g Inr False by (auto split: if_splits)
        moreover have "accept D rq t kf hdrs (computeOverload (d_Fill D)) (st\<lparr>st_hits := hs\<rparr>) = (resp, st')"
          using u Inr False by simp
        ultimately show thesis by (rule accepted)
      qed
    qed
  qed
qed

section \<open>Properties\<close>

text \<open>
  A stored row, as the writer reads it back. The code's caps are in bytes and count before the coercion to valid UTF-8, so
  what they bound of the stored text is three times the cap (\<open>cut_rune_outgrows_the_cap\<close> below).
\<close>

definition stored_log_ok :: "Tenant \<Rightarrow> overloadDecision \<Rightarrow> RowEnvelope \<Rightarrow> bool" where
  "stored_log_ok t d e \<longleftrightarrow>
     e_TenantID e = t_TenantID t \<and> e_ProjectID e = t_ProjectID t \<and>
     e_Level e \<in> set levels \<and> e_Level e \<notin> set (shed d) \<and>
     distinct (map fst (e_Attrs e)) \<and> length (e_Attrs e) \<le> 64 \<and>
     (\<forall>(k, v) \<in> set (e_Attrs e). length k \<le> 3 * 256 \<and> length v \<le> 3 * 8192 \<and> to_valid k = k \<and> to_valid v = v) \<and>
     length (e_Actor e) \<le> 3 * 200 \<and> to_valid (e_Actor e) = e_Actor e \<and> to_valid (e_Message e) = e_Message e \<and>
     money_ok (e_AmountMinor e) (e_Currency e) \<and>
     (if e_Event e \<noteq> '''' then fst ` set (e_Attrs e) \<inter> {''uc.actor'', ''uc.amount'', ''uc.currency''} = {}
      else e_Actor e = '''' \<and> e_AmountMinor e = 0 \<and> e_Currency e = '''') \<and>
     (t_Kind t = KeyKindPublic \<longrightarrow> e_Event e \<noteq> '''' \<and> e_AmountMinor e = 0 \<and> e_Currency e = '''')"

fun sink_row_ok :: "Tenant \<Rightarrow> overloadDecision \<Rightarrow> sink_row \<Rightarrow> bool" where
  "sink_row_ok t d (LogRow e) = stored_log_ok t d e"
| "sink_row_ok t d (MetricRow m) = (me_TenantID m = t_TenantID t \<and> me_ProjectID m = t_ProjectID t \<and>
     me_Name m \<noteq> '''' \<and> to_valid (me_Name m) = me_Name m)"

lemma ascii_levels: "l \<in> set levels \<Longrightarrow> ascii l"
  by (auto simp: levels_def ascii_def)

lemma ascii_currency: "list_all is_upper c \<Longrightarrow> ascii c"
  by (auto simp: ascii_def list_all_iff is_upper_def between_def)

lemma ascii_reserved: "k \<in> {''uc.actor'', ''uc.amount'', ''uc.currency''} \<Longrightarrow> ascii k"
  by (auto simp: ascii_def)

text \<open>A key that is coerced to a reserved one was that key.\<close>

lemma marshal_keys_reserved:
  assumes "keys_of a \<inter> {ActorAttr, AmountAttr, CurrencyAttr} = {}"
  shows "fst ` set (marshal_attrs a) \<inter> {''uc.actor'', ''uc.amount'', ''uc.currency''} = {}"
proof -
  have False if mem: "k \<in> fst ` set (marshal_attrs a)" and k: "k \<in> {''uc.actor'', ''uc.amount'', ''uc.currency''}" for k
  proof -
    from mem have "k \<in> fst ` (\<lambda>(k, v). (to_valid k, to_valid v)) ` set a"
      using image_mono [OF marshal_attrs_facts(3) [of a], of fst] by blast
    then obtain kv where kv: "kv \<in> set a" "k = to_valid (fst kv)" by auto
    obtain k0 where k0: "k = to_valid k0" "k0 \<in> keys_of a"
      by (rule that [OF kv(2)]) (simp add: keys_of_def kv(1))
    then have "k = k0" using to_valid_ascii_inv [of k0] ascii_reserved [OF k] by simp
    with k0(2) k assms show False by (auto simp: ActorAttr_def AmountAttr_def CurrencyAttr_def)
  qed
  then show ?thesis by blast
qed

lemma marshal_attrs_bounded:
  assumes "\<forall>kv \<in> set a. attr_bounded kv" and "(k, v) \<in> set (marshal_attrs a)"
  shows "length k \<le> 3 * 256 \<and> length v \<le> 3 * 8192 \<and> to_valid k = k \<and> to_valid v = v"
proof -
  obtain k0 v0 where k0: "k = to_valid k0" "v = to_valid v0" "(k0, v0) \<in> set a"
    using assms(2) marshal_attrs_facts(3) [of a] by fastforce
  then have "length k0 \<le> 256" "length v0 \<le> 8192"
    using assms(1) by (auto simp: attr_bounded_def MaxAttrKeyBytes_def MaxAttrValBytes_def)
  with k0 to_valid_length [of k0] to_valid_length [of v0] show ?thesis by simp
qed

lemma marshalled_row_ok:
  assumes "row_ok t d e"
  shows "stored_log_ok t d (marshal_row e)"
proof -
  have lvl: "to_valid (e_Level e) = e_Level e" using assms ascii_levels by (simp add: row_ok_def)
  have cur: "to_valid (e_Currency e) = e_Currency e"
    using assms ascii_currency by (auto simp: row_ok_def money_ok_def)
  have actor: "length (to_valid (e_Actor e)) \<le> 600"
    using assms to_valid_length [of "e_Actor e"] by (simp add: row_ok_def MaxActorBytes_def)
  have attrs: "length (marshal_attrs (e_Attrs e)) \<le> 64"
    using assms marshal_attrs_facts(2) [of "e_Attrs e"] by (simp add: row_ok_def MaxAttrKeys_def)
  have bounded: "\<forall>(k, v) \<in> set (marshal_attrs (e_Attrs e)).
      length k \<le> 3 * 256 \<and> length v \<le> 3 * 8192 \<and> to_valid k = k \<and> to_valid v = v"
    using marshal_attrs_bounded [of "e_Attrs e"] assms unfolding row_ok_def by blast
  have keys: "e_Event e \<noteq> '''' \<Longrightarrow>
      fst ` set (marshal_attrs (e_Attrs e)) \<inter> {''uc.actor'', ''uc.amount'', ''uc.currency''} = {}"
    by (rule marshal_keys_reserved) (use assms in \<open>simp add: row_ok_def\<close>)
  show ?thesis
    unfolding stored_log_ok_def
    using assms lvl cur actor attrs bounded keys marshal_attrs_facts(1) [of "e_Attrs e"]
    by (simp add: marshal_row_def row_ok_def)
qed

lemma ParseMetric_named: "ParseMetric C raw = Some m \<Longrightarrow> ml_Name m \<noteq> ''''"
  by (auto simp: ParseMetric_def Let_def split: if_splits option.splits json.splits)

lemma metric_row_ok: "metric_of D rec = Some m \<Longrightarrow> sink_row_ok t d (MetricRow (marshal_metric (metric_row D t rec m)))"
  by (auto simp: marshal_metric_def metric_row_def Let_def metric_of_def dest: ParseMetric_named split: if_splits)

lemma pipeline_rows_ok:
  assumes "pipeline D rq t kf d st recs rows metricRows ws lim seq"
  shows "\<forall>e \<in> set rows. row_ok t d e" and "\<forall>m \<in> set metricRows. sink_row_ok t d (MetricRow (marshal_metric m))"
proof -
  obtain dec w ws0 logRecs where dec: "dec = Decode (d_codec D) (rq_body rq) (rq_ctype rq)"
    and o: "(recs, ws0) = (if t_Kind t = KeyKindPublic then onlyEvents (Records dec) w else (Records dec, w))"
    and m: "splitMetrics D t recs = (logRecs, metricRows)"
    and b: "buildRows D t d logRecs (st_card st, st_seq st, ws0) = (rows, lim, seq, ws)"
    using assms unfolding pipeline_def Let_def by blast
  have lvl: "r_Level rec \<in> set levels" if "rec \<in> set (Records dec)" for rec
    by (rule Decode_levels [OF that [unfolded dec]])
  have sub: "set recs \<subseteq> set (Records dec)" using o by (auto dest!: onlyEvents_keeps [OF sym] split: if_splits)
  have ev: "t_Kind t = KeyKindPublic \<longrightarrow> ev_Name (Classify (r_Message rec) (r_Named rec)) \<noteq> ''''" if "rec \<in> set recs" for rec
    using o that by (auto dest!: onlyEvents_keeps [OF sym])
  have logs: "set logRecs \<subseteq> set recs" using m by (auto simp: splitMetrics_eq)
  show "\<forall>e \<in> set rows. row_ok t d e"
    by (rule buildRows_ok [OF b]) (use lvl ev sub logs in blast)
  show "\<forall>m \<in> set metricRows. sink_row_ok t d (MetricRow (marshal_metric m))"
  proof
    fix x assume "x \<in> set metricRows"
    then obtain rec mm where "x = metric_row D t rec mm" and "metric_of D rec = Some mm"
      using m by (auto simp: splitMetrics_eq)
    then show "sink_row_ok t d (MetricRow (marshal_metric x))" using metric_row_ok by blast
  qed
qed


text \<open>
  The value cap cuts bytes, so it may cut a rune in two: the first byte of an e-acute at the cap's last place is kept alone and stored as the
  replacement rune, and the stored value has 8194 bytes under a cap of 8192.
\<close>

lemma capAttrs_one:
  assumes "length v > MaxAttrValBytes"
  shows "capAttrs [(''k'', v)] = ([(''k'', take MaxAttrValBytes v)], 0, 1)"
proof -
  have "sort (map fst [(''k'', v)]) = [''k'']" by simp
  moreover have "\<not> MaxAttrKeys \<le> 0" "\<not> MaxAttrKeyBytes < length ''k''"
    by (simp_all add: MaxAttrKeys_def MaxAttrKeyBytes_def)
  ultimately show ?thesis
    unfolding capAttrs_def attrs_over_def using assms by (simp add: attr_get_def Let_def)
qed

lemma cut_rune_outgrows_the_cap:
  assumes "ascii p" and len: "MaxAttrValBytes = Suc (length p)"
  shows "capAttrs [(''k'', p @ [CHR 0xC3, CHR 0xA9])] = ([(''k'', p @ [CHR 0xC3])], 0, 1) \<and>
    marshal_attrs [(''k'', p @ [CHR 0xC3])] = [(''k'', p @ [CHR 0xEF, CHR 0xBF, CHR 0xBD])] \<and>
    length (p @ [CHR 0xEF, CHR 0xBF, CHR 0xBD]) = MaxAttrValBytes + 2"
proof -
  have "take MaxAttrValBytes (p @ [CHR 0xC3, CHR 0xA9]) = p @ [CHR 0xC3]" "length (p @ [CHR 0xC3, CHR 0xA9]) > MaxAttrValBytes"
    unfolding len by simp_all
  then have cap: "capAttrs [(''k'', p @ [CHR 0xC3, CHR 0xA9])] = ([(''k'', p @ [CHR 0xC3])], 0, 1)"
    by (simp only: capAttrs_one)
  have one: "encode_all [0xC3] = [0xEF, 0xBF, 0xBD]"
    using encode_all_step [of "[0xC3]" RuneError 1] by (simp add: DecodeRune_def EncodeRune_def RuneError_def scalar_def)
  have "map byte (to_valid (p @ [CHR 0xC3])) = map byte (p @ [CHR 0xEF, CHR 0xBF, CHR 0xBD])"
    using encode_all_ascii_append [of "map byte p" "[0xC3]"] assms(1) by (simp add: to_valid_bytes ascii_def one)
  then have valid: "to_valid (p @ [CHR 0xC3]) = p @ [CHR 0xEF, CHR 0xBF, CHR 0xBD]" by (rule byte_eqI)
  have "to_valid ''k'' = ''k''" by (rule to_valid_ascii) (simp add: ascii_def)
  with cap valid show ?thesis by (simp add: marshal_attrs_def len)
qed

text \<open>C34. The receipt counts every record once.

  When a body goes through the pipeline for the first time, its receipt's count is the number of rows handed to the sink, its metrics the
  metric rows among them, and the decoded records are exactly the accepted ones, the ones the overload steps shed and the ones refused to a
  public key.\<close>

theorem receipt_accounts_for_every_record:
  assumes "Handle D rq st = (resp, st')" and "rs_body resp = Ack r" and "rc_Warnings r \<noteq> [(''bot_dropped'', 1)]"
    and "\<not> seen_before D rq st"
  shows "\<exists>new. st_sink st' = st_sink st @ new \<and> rc_Accepted r = int (length new) \<and>
      rc_Metrics r = int (length (filter (\<lambda>row. \<nexists>e. row = LogRow e) new)) \<and>
      rc_Accepted r + count_of (rc_Warnings r) ''class_shed'' + count_of (rc_Warnings r) ''public_key_logs_refused'' =
        int (length (Records (Decode (d_codec D) (rq_body rq) (rq_ctype rq))))"
  using assms(1)
proof (cases rule: Handle_cases)
  case (refused hs)
  with refused assms(2,3) show ?thesis by (auto simp: answer_def)
next
  case (accepted t kf hdrs hs)
  let ?st = "st\<lparr>st_hits := hs\<rparr>"
  have fresh: "\<not> seen_before D rq ?st" using assms(4) by (simp add: seen_before_def)
  from accepted(2) show ?thesis
  proof (cases rule: accept_cases)
    case (ran recs rows metricRows ws lim seq)
    obtain dec w ws0 logRecs where dec: "dec = Decode (d_codec D) (rq_body rq) (rq_ctype rq)"
      and w: "w = merge_warnings (dr_Warnings dec) (if kf_inBody kf then add_warning ''key_in_body'' 1 [] else [])"
      and o: "(recs, ws0) = (if t_Kind t = KeyKindPublic then onlyEvents (Records dec) w else (Records dec, w))"
      and m: "splitMetrics D t recs = (logRecs, metricRows)"
      and b: "buildRows D t (computeOverload (d_Fill D)) logRecs (st_card ?st, st_seq ?st, ws0) = (rows, lim, seq, ws)"
      using ran(1) unfolding pipeline_def Let_def by blast
    have w0: "count_of w c = 0" if "c \<in> {''class_shed'', ''public_key_logs_refused''}" for c
      using that by (auto simp: w merge_warnings_count code_texts count_add_warning count_of_def [of "[]"])
    have ws0: "count_of ws0 ''class_shed'' = 0" "count_of ws0 ''public_key_logs_refused'' = int (length (Records dec)) - int (length recs)"
      using onlyEvents_count [of "Records dec" w recs ws0] o w0 by (simp_all split: if_splits)
    have "length logRecs + length metricRows = length recs"
      using m sum_length_filter_compl [of "\<lambda>rec. metric_of D rec = None" recs] by (auto simp: splitMetrics_eq)
    then have "count_of ws ''class_shed'' + int (length rows + length metricRows) = int (length recs)"
      using buildRows_count [OF b, of "''class_shed''"] ws0(1) by (simp add: row_codes_def)
    moreover have "count_of ws ''public_key_logs_refused'' = int (length (Records dec)) - int (length recs)"
      using buildRows_count [OF b, of "''public_key_logs_refused''"] ws0(2) by (simp add: row_codes_def)
    ultimately show ?thesis
      using ran(3) [OF fresh] assms(2) unfolding dec [symmetric]
      by (intro exI [of _ "stored_rows rows metricRows"]) (auto simp: answer_def)
  qed
qed

end
