(* ===== verification/IngestReplay.thy ===== *)
theory IngestReplay
  imports IngestFacts
begin

text \<open>
  The batch table as a contract, its use by POST /i, and the two ways its key lets a client down: another tenant's body, and a public
  key's metric. Then the overload steps, the actor of a plain line, and the CORS headers.
\<close>

section \<open>The contract of the batch table\<close>

text \<open>A claim answers a new key with no and a known key with the first count, and forgets nothing.\<close>

locale claim_store =
  fixes claim :: "'b \<Rightarrow> string \<Rightarrow> int \<Rightarrow> (bool \<times> int) \<times> 'b"
    and stored :: "'b \<Rightarrow> string \<Rightarrow> 'v option"
    and fresh :: "int \<Rightarrow> 'v" and tally :: "'v \<Rightarrow> int"
  assumes first: "stored b k = None \<Longrightarrow>
      fst (claim b k n) = (False, tally (fresh n)) \<and> stored (snd (claim b k n)) = (stored b)(k \<mapsto> fresh n)"
    and again: "stored b k = Some v \<Longrightarrow> claim b k n = ((True, tally v), b)"
begin

fun claims :: "'b \<Rightarrow> (string \<times> int) list \<Rightarrow> (bool \<times> int) list \<times> 'b" where
  "claims b [] = ([], b)"
| "claims b ((k, n) # cs) = (case claim b k n of (r, b) \<Rightarrow> (case claims b cs of (rs, b) \<Rightarrow> (r # rs, b)))"

lemma claim_keeps: "stored b k = Some v \<Longrightarrow> stored (snd (claim b k' n)) k = Some v"
proof (cases "stored b k'")
  case None
  then show "stored b k = Some v \<Longrightarrow> ?thesis" using first [OF None] by auto
next
  case (Some v')
  then show "stored b k = Some v \<Longrightarrow> ?thesis" by (simp add: again)
qed

lemma claims_keep: "stored b k = Some v \<Longrightarrow> stored (snd (claims b cs)) k = Some v"
proof (induction cs arbitrary: b)
  case (Cons c cs)
  obtain k' n where c: "c = (k', n)" by (cases c)
  from Cons.IH [OF claim_keeps [OF Cons.prems, of k' n]] show ?case by (simp add: c case_prod_unfold)
qed simp

lemma claim_then_replay:
  assumes "stored b k = None" and "claim b k n = (r, b')" and "claims b' cs = (rs, b'')"
  shows "claim b'' k n' = ((True, tally (fresh n)), b'')"
proof -
  have "stored b' k = Some (fresh n)" using first [OF assms(1), of n] by (simp add: assms(2))
  with claims_keep [of b' k "fresh n" cs] show ?thesis by (simp add: assms(3) again)
qed

end

definition fresh_row :: "time \<Rightarrow> int \<Rightarrow> batch_row" where
  "fresh_row t n = \<lparr>br_accepted = int32 n, br_expires_at = t + 24 * hour\<rparr>"

interpretation pg_batches: claim_store "Claim now" map_of "fresh_row now" br_accepted
  by unfold_locales (auto simp: Claim_def fresh_row_def fun_eq_iff split: option.splits)

text \<open>The batch key is a primary key, and a claim keeps it so.\<close>

lemma claims_distinct:
  "distinct (map fst bs) \<Longrightarrow> distinct (map fst (snd (pg_batches.claims now bs cs)))"
proof (induction cs arbitrary: bs)
  case (Cons c cs)
  obtain k n where c: "c = (k, n)" by (cases c)
  have "distinct (map fst (snd (Claim now bs k n)))"
    using Cons.prems by (auto simp: Claim_def map_of_eq_None_iff split: option.split)
  from Cons.IH [OF this] show ?case by (simp add: c case_prod_unfold)
qed simp

text \<open>The purge keeps what has not expired and drops what has.\<close>

lemma purge_keeps:
  "map_of bs k = Some b \<Longrightarrow> t \<le> br_expires_at b \<Longrightarrow> map_of (PurgeExpiredBatches t bs) k = Some b"
  by (induction bs) (auto simp: PurgeExpiredBatches_def split: if_splits)

lemma purge_drops:
  "distinct (map fst bs) \<Longrightarrow> map_of bs k = Some b \<Longrightarrow> br_expires_at b < t \<Longrightarrow>
   map_of (PurgeExpiredBatches t bs) k = None"
  by (auto simp: PurgeExpiredBatches_def map_of_eq_None_iff dest: map_of_SomeD eq_key_imp_eq_value)

lemma purge_distinct: "distinct (map fst bs) \<Longrightarrow> distinct (map fst (PurgeExpiredBatches t bs))"
  by (simp add: PurgeExpiredBatches_def distinct_map_filter)

section \<open>Replays\<close>

text \<open>What happens between two deliveries: other requests, each with the dependencies it met, and the worker's purges.\<close>

datatype 's traffic = Served "'s deps" request | Purged time

fun serve :: "'s traffic list \<Rightarrow> 's ing_state \<Rightarrow> 's ing_state" where
  "serve [] st = st"
| "serve (Served D rq # rest) st = serve rest (snd (Handle D rq st))"
| "serve (Purged t # rest) st = serve rest (st\<lparr>st_batches := PurgeExpiredBatches t (st_batches st)\<rparr>)"

lemma serve_append [simp]: "serve (xs @ ys) st = serve ys (serve xs st)"
  by (induction xs st rule: serve.induct) simp_all

lemma seen_hits [simp]: "seen_before D rq (st\<lparr>st_hits := hs\<rparr>) = seen_before D rq st"
  by (simp add: seen_before_def)

text \<open>All a request does to the batch table is to claim: at most once, its own body.\<close>

lemma Handle_claims: "\<exists>cs. st_batches (snd (Handle D rq st)) = snd (pg_batches.claims (d_now D) (st_batches st) cs)"
proof -
  obtain resp st' where h: "Handle D rq st = (resp, st')" by (metis surj_pair)
  have none: "\<exists>cs. st_batches st = snd (pg_batches.claims (d_now D) (st_batches st) cs)"
    by (rule exI [of _ "[]"]) simp
  from h show ?thesis
  proof (cases rule: Handle_cases)
    case (refused hs)
    with h none show ?thesis by simp
  next
    case (accepted t kf hdrs hs)
    from accepted(2) show ?thesis
    proof (cases rule: accept_cases)
      case (ran recs rows metricRows ws lim seq)
      show ?thesis
      proof (cases "seen_before D rq st \<or> \<not> d_Idem D \<or> d_Claim_fails D")
        case True
        with ran(2,3) h none show ?thesis by (cases "seen_before D rq st") auto
      next
        case False
        then have "map_of (st_batches st) (d_sha D (rq_body rq)) = None" by (auto simp: seen_before_def)
        with False ran(3) h have "st_batches (snd (Handle D rq st)) = snd (pg_batches.claims (d_now D) (st_batches st)
            [(d_sha D (rq_body rq), int (length rows + length metricRows))])"
          by (simp add: Claim_def)
        then show ?thesis by blast
      qed
    qed
  qed
qed

lemma Handle_keeps_row:
  assumes "map_of (st_batches st) k = Some b"
  shows "map_of (st_batches (snd (Handle D rq st))) k = Some b"
  using Handle_claims [of D rq st] pg_batches.claims_keep [OF assms] by fastforce

lemma Handle_distinct:
  "distinct (map fst (st_batches st)) \<Longrightarrow> distinct (map fst (st_batches (snd (Handle D rq st))))"
  using Handle_claims [of D rq st] claims_distinct [of "st_batches st"] by fastforce

lemma serve_keeps_row:
  assumes "map_of (st_batches st) k = Some b" and "\<forall>t. Purged t \<in> set evs \<longrightarrow> t \<le> br_expires_at b"
  shows "map_of (st_batches (serve evs st)) k = Some b"
  using assms by (induction evs st rule: serve.induct) (simp_all add: Handle_keeps_row purge_keeps)

lemma serve_distinct: "distinct (map fst (st_batches st)) \<Longrightarrow> distinct (map fst (st_batches (serve evs st)))"
  by (induction evs st rule: serve.induct) (simp_all add: Handle_distinct purge_distinct)

text \<open>The first pass of a body leaves its count behind, for 24 hours, and writes its rows.\<close>

lemma first_pass_stores:
  assumes "Handle D rq st = (resp, st')" and "gate D rq st t kf hdrs hs" and "\<not> seen_before D rq st"
  obtains r where "rs_body resp = Ack r"
    and "rc_Accepted r = int (length (st_sink st')) - int (length (st_sink st))"
    and "d_Idem D \<Longrightarrow> \<not> d_Claim_fails D \<Longrightarrow>
      map_of (st_batches st') (d_sha D (rq_body rq)) = Some (fresh_row (d_now D) (rc_Accepted r))"
proof -
  have "accept D rq t kf hdrs (computeOverload (d_Fill D)) (st\<lparr>st_hits := hs\<rparr>) = (resp, st')"
    using assms(1) Handle_gated [OF assms(2)] by simp
  then show thesis
  proof (cases rule: accept_cases)
    case (ran recs rows metricRows ws lim seq)
    from ran(3) assms(3) that show thesis by (simp add: answer_def fresh_row_def)
  qed
qed

lemma known_body_writes_nothing:
  assumes "map_of (st_batches st) (d_sha D (rq_body rq)) = Some b" and "d_Idem D" and "\<not> d_Claim_fails D"
  shows "st_sink (snd (Handle D rq st)) = st_sink st"
    and "gate D rq st t kf hdrs hs \<Longrightarrow> fst (Handle D rq st) =
      answer hdrs 200 (Ack \<lparr>rc_Accepted = br_accepted b, rc_Metrics = 0, rc_Warnings = [], rc_Sampling = None\<rparr>)"
proof -
  have seen: "seen_before D rq st" using assms by (auto simp: seen_before_def)
  obtain resp st' where h: "Handle D rq st = (resp, st')" by (metis surj_pair)
  show "st_sink (snd (Handle D rq st)) = st_sink st"
    using h
  proof (cases rule: Handle_cases)
    case (refused hs)
    with h show ?thesis by simp
  next
    case (accepted t kf hdrs hs)
    from accepted(2) show ?thesis by (cases rule: accept_cases) (use h seen in simp)
  qed
  show "fst (Handle D rq st) =
      answer hdrs 200 (Ack \<lparr>rc_Accepted = br_accepted b, rc_Metrics = 0, rc_Warnings = [], rc_Sampling = None\<rparr>)"
    if g: "gate D rq st t kf hdrs hs"
  proof -
    have "accept D rq t kf hdrs (computeOverload (d_Fill D)) (st\<lparr>st_hits := hs\<rparr>) = (resp, st')"
      using h Handle_gated [OF g] by simp
    then show ?thesis
      by (cases rule: accept_cases) (use h seen assms(1) in auto)
  qed
qed

text \<open>C3. A body is written once until its claim is purged, and again after.

  A body goes through while the batch table answers. Whatever requests are served and whatever purges run before its expiry 24 hours later,
  a later delivery of bytes with the same hash, with the table answering again, adds no row, and if it gets past the gates it is answered with
  the count of the first pass. The first purge after the expiry makes the body unknown: delivered then and past the gates, it is
  written again, with a receipt that counts the rows it added.\<close>

theorem replay_writes_nothing:
  assumes "Handle D1 rq1 st = (resp1, st1)" and "gate D1 rq1 st t1 kf1 hdrs1 hs1"
    and "d_Idem D1" and "\<not> d_Claim_fails D1" and "\<not> seen_before D1 rq1 st"
    and "d_Idem D2" and "\<not> d_Claim_fails D2" and "d_sha D2 (rq_body rq2) = d_sha D1 (rq_body rq1)"
    and "distinct (map fst (st_batches st))" and "\<forall>t. Purged t \<in> set evs \<longrightarrow> t \<le> d_now D1 + 24 * hour"
    and "st2 = serve evs st1" and "late > d_now D1 + 24 * hour" and "st4 = serve (evs @ [Purged late]) st1"
  shows "\<exists>r1. rs_body resp1 = Ack r1 \<and>
    st_sink (snd (Handle D2 rq2 st2)) = st_sink st2 \<and>
    (gate D2 rq2 st2 t2 kf2 hdrs2 hs2 \<longrightarrow> fst (Handle D2 rq2 st2) =
       answer hdrs2 200 (Ack \<lparr>rc_Accepted = int32 (rc_Accepted r1), rc_Metrics = 0, rc_Warnings = [], rc_Sampling = None\<rparr>)) \<and>
    (gate D2 rq2 st4 t2 kf2 hdrs2 hs2 \<longrightarrow>
       (\<exists>r2. rs_body (fst (Handle D2 rq2 st4)) = Ack r2 \<and>
          int (length (st_sink (snd (Handle D2 rq2 st4)))) = int (length (st_sink st4)) + rc_Accepted r2 \<and>
          map_of (st_batches (snd (Handle D2 rq2 st4))) (d_sha D1 (rq_body rq1)) = Some (fresh_row (d_now D2) (rc_Accepted r2))))"
proof -
  let ?k = "d_sha D1 (rq_body rq1)"
  obtain r1 where r1: "rs_body resp1 = Ack r1"
    and row1: "map_of (st_batches st1) ?k = Some (fresh_row (d_now D1) (rc_Accepted r1))"
    using first_pass_stores [OF assms(1,2,5)] assms(3,4) by metis
  let ?b = "fresh_row (d_now D1) (rc_Accepted r1)"
  have row2: "map_of (st_batches st2) ?k = Some ?b"
    unfolding assms(11) by (rule serve_keeps_row [OF row1]) (use assms(10) in \<open>simp add: fresh_row_def\<close>)
  note known = known_body_writes_nothing [OF row2 [folded assms(8)] assms(6,7)]
  have "distinct (map fst (st_batches st2))"
    unfolding assms(11) using serve_distinct [OF Handle_distinct [OF assms(9)], of evs D1 rq1] by (simp add: assms(1))
  from purge_drops [OF this row2, of late] have "map_of (st_batches st4) ?k = None"
    using assms(12) by (simp add: assms(11,13) fresh_row_def)
  then have unseen: "\<not> seen_before D2 rq2 st4" by (simp add: seen_before_def assms(8))
  have again: "\<exists>r2. rs_body (fst (Handle D2 rq2 st4)) = Ack r2 \<and>
      int (length (st_sink (snd (Handle D2 rq2 st4)))) = int (length (st_sink st4)) + rc_Accepted r2 \<and>
      map_of (st_batches (snd (Handle D2 rq2 st4))) ?k = Some (fresh_row (d_now D2) (rc_Accepted r2))"
    if g: "gate D2 rq2 st4 t2 kf2 hdrs2 hs2"
  proof -
    obtain r where "rs_body (fst (Handle D2 rq2 st4)) = Ack r"
      and "rc_Accepted r = int (length (st_sink (snd (Handle D2 rq2 st4)))) - int (length (st_sink st4))"
      and "map_of (st_batches (snd (Handle D2 rq2 st4))) (d_sha D2 (rq_body rq2)) = Some (fresh_row (d_now D2) (rc_Accepted r))"
      using first_pass_stores [OF prod.collapse [symmetric] g unseen] assms(6,7) by metis
    then show ?thesis by (intro exI [of _ r]) (simp add: assms(8))
  qed
  have "br_accepted ?b = int32 (rc_Accepted r1)" by (simp add: fresh_row_def)
  with r1 known again show ?thesis by auto
qed

text \<open>Another tenant's event is taken for a replay.

  The batch key is the hash of the body alone, so the second request may be anybody's: when two keys of different tenants send the same bytes, the
  second request passes every gate, is answered 200 with the first tenant's count, and none of its rows is written.\<close>

lemma other_tenants_body_is_swallowed:
  assumes "gate D rq1 st t1 kf1 hdrs1 hs1" and "\<not> seen_before D rq1 st" and "d_Idem D" and "\<not> d_Claim_fails D"
    and "rq_body rq2 = rq_body rq1" and "gate D rq2 (snd (Handle D rq1 st)) t2 kf2 hdrs2 hs2"
  shows "\<exists>r1. rs_body (fst (Handle D rq1 st)) = Ack r1 \<and>
    fst (Handle D rq2 (snd (Handle D rq1 st))) =
      answer hdrs2 200 (Ack \<lparr>rc_Accepted = int32 (rc_Accepted r1), rc_Metrics = 0, rc_Warnings = [], rc_Sampling = None\<rparr>) \<and>
    st_sink (snd (Handle D rq2 (snd (Handle D rq1 st)))) = st_sink (snd (Handle D rq1 st))"
proof -
  obtain r1 where r1: "rs_body (fst (Handle D rq1 st)) = Ack r1"
    "map_of (st_batches (snd (Handle D rq1 st))) (d_sha D (rq_body rq2)) = Some (fresh_row (d_now D) (rc_Accepted r1))"
    using first_pass_stores [OF prod.collapse [symmetric] assms(1,2)] assms(3-5) by metis
  note k = known_body_writes_nothing [OF r1(2) assms(3,4)]
  from k(1) k(2) [OF assms(6)] r1(1) show ?thesis by (simp add: fresh_row_def)
qed

text \<open>Two secret keys of two tenants, one body.\<close>

definition two_keys :: "string \<Rightarrow> Tenant option" where
  "two_keys k = (if k = ''a'' then Some \<lparr>t_TenantID = 1, t_ProjectID = 10, t_Kind = ''secret'', t_Origins = []\<rparr>
     else if k = ''b'' then Some \<lparr>t_TenantID = 2, t_ProjectID = 20, t_Kind = ''secret'', t_Origins = []\<rparr>
     else if k = ''p'' then Some \<lparr>t_TenantID = 3, t_ProjectID = 30, t_Kind = ''public'', t_Origins = [''https://x.io'']\<rparr>
     else None)"

definition toy_deps :: "unit deps" where
  "toy_deps = \<lparr>d_Keys = Some two_keys, d_Seq = None, d_Fill = 0, d_Idem = True, d_Claim_fails = False, d_IsBot = None,
     d_ScrubOff = False, d_codec = toy_codec, d_sha = (\<lambda>b. b), d_splitHost = (\<lambda>_. None), d_now = 5\<rparr>"

definition toy_request :: "string \<Rightarrow> string \<Rightarrow> request" where
  "toy_request key body = \<lparr>rq_body = body, rq_read_fails = False, rq_key_header = key, rq_auth = '''', rq_query_key = '''',
     rq_ctype = '''', rq_origin = ''https://x.io'', rq_agent = '''', rq_xff = ''1.2.3.4'', rq_remote = ''''\<rparr>"

definition empty_ing :: "unit ing_state" where
  "empty_ing = \<lparr>st_card = None, st_seq = (), st_hits = [], st_batches = [], st_sink = []\<rparr>"

lemma toy_authenticate:
  assumes "k \<in> {''a'', ''b''}"
  shows "authenticate toy_deps (toy_request k body) = (two_keys k, \<lparr>kf_key = k, kf_inBody = False\<rparr>)"
proof -
  have "TrimSpace ''a'' = ''a''" "TrimSpace ''b'' = ''b''" by code_simp+
  with assms have "TrimSpace k = k" "k \<noteq> ''''" by auto
  then show ?thesis by (simp add: authenticate_def find_key_def toy_request_def ResolveKey_def toy_deps_def)
qed

lemma toy_gate:
  assumes "k \<in> {''a'', ''b''}" and "length body \<le> MaxBodyBytes"
  shows "gate toy_deps (toy_request k body) st (the (two_keys k)) \<lparr>kf_key = k, kf_inBody = False\<rparr> [] (st_hits st)"
proof -
  have "two_keys k = Some (the (two_keys k))" "t_Kind (the (two_keys k)) \<noteq> KeyKindPublic"
    using assms(1) by (auto simp: two_keys_def KeyKindPublic_def)
  with toy_authenticate [OF assms(1), of body] assms(2) show ?thesis
    by (simp add: gate_def toy_request_def toy_deps_def computeOverload_def)
qed

lemma toy_facts:
  "d_Idem toy_deps" "\<not> d_Claim_fails toy_deps" "rq_body (toy_request k body) = body"
  "t_TenantID (the (two_keys ''b'')) \<noteq> t_TenantID (the (two_keys ''a''))"
  by (simp_all add: toy_deps_def toy_request_def two_keys_def)

lemma toy_unseen: "\<not> seen_before toy_deps rq empty_ing"
  by (simp add: seen_before_def empty_ing_def)

text \<open>Two tenants, one body: the second one's row is lost.\<close>

lemma two_tenants_one_body:
  "t_TenantID (the (two_keys ''b'')) \<noteq> t_TenantID (the (two_keys ''a'')) \<and>
   st_sink (snd (Handle toy_deps (toy_request ''b'' ''signup'') (snd (Handle toy_deps (toy_request ''a'' ''signup'') empty_ing)))) =
   st_sink (snd (Handle toy_deps (toy_request ''a'' ''signup'') empty_ing))"
proof -
  have len: "length ''signup'' \<le> MaxBodyBytes" by (simp add: MaxBodyBytes_def)
  have body: "rq_body (toy_request ''b'' ''signup'') = rq_body (toy_request ''a'' ''signup'')" by (simp add: toy_facts(3))
  from other_tenants_body_is_swallowed [OF toy_gate [of "''a''", OF _ len] toy_unseen toy_facts(1,2) body toy_gate [of "''b''", OF _ len]]
    toy_facts(4)
  show ?thesis by simp blast
qed

theorem replay_writes_nothing_witness:
  "let st1 = snd (Handle toy_deps (toy_request ''a'' ''signup'') empty_ing);
       evs = [Served toy_deps (toy_request ''b'' ''other''), Purged (24 * hour)];
       again = Handle toy_deps (toy_request ''a'' ''signup'')
   in st_sink (snd (again (serve evs st1))) = st_sink (serve evs st1) \<and>
      (\<exists>r2. rs_body (fst (again (serve (evs @ [Purged (25 * hour)]) st1))) = Ack r2 \<and>
        int (length (st_sink (snd (again (serve (evs @ [Purged (25 * hour)]) st1))))) =
          int (length (st_sink (serve (evs @ [Purged (25 * hour)]) st1))) + rc_Accepted r2)"
proof -
  let ?evs = "[Served toy_deps (toy_request ''b'' ''other''), Purged (24 * hour)]"
  have len: "length ''signup'' \<le> MaxBodyBytes" by (simp add: MaxBodyBytes_def)
  note gate_a = toy_gate [of "''a''", OF _ len]
  have dist: "distinct (map fst (st_batches empty_ing))" by (simp add: empty_ing_def)
  have early: "\<forall>t. Purged t \<in> set ?evs \<longrightarrow> t \<le> d_now toy_deps + 24 * hour"
    by (simp add: toy_deps_def)
  have late: "25 * hour > d_now toy_deps + 24 * hour" by code_simp
  show ?thesis
    using replay_writes_nothing [OF prod.collapse [symmetric] gate_a toy_facts(1,2) toy_unseen toy_facts(1,2) refl dist early refl late refl]
      gate_a unfolding Let_def by (metis insertI1)
qed

section \<open>What a public key can write\<close>

text \<open>A public key writes metrics.

  A public key is for named events only, and a metric reading is meant to be refused. The filter looks at the event mark, the split at the
  metric members: a line that has both passes the first and is stored as a metric by the second, so anyone who reads the key in a page can write
  the tenant's metric series.\<close>

theorem public_key_writes_metrics:
  assumes "gate D rq st t kf hdrs hs" and "t_Kind t = KeyKindPublic" and "\<not> seen_before D rq st"
    and "rec \<in> set (Records (Decode (d_codec D) (rq_body rq) (rq_ctype rq)))"
    and "ev_Name (Classify (r_Message rec) (r_Named rec)) \<noteq> ''''" and "metric_of D rec = Some m"
  shows "MetricRow (marshal_metric (metric_row D t rec m)) \<in> set (st_sink (snd (Handle D rq st)))"
proof -
  obtain resp st' where h: "Handle D rq st = (resp, st')" by (metis surj_pair)
  have "accept D rq t kf hdrs (computeOverload (d_Fill D)) (st\<lparr>st_hits := hs\<rparr>) = (resp, st')"
    using h Handle_gated [OF assms(1)] by simp
  then show ?thesis
  proof (cases rule: accept_cases)
    case (ran recs rows metricRows ws lim seq)
    obtain dec w ws0 logRecs where dec: "dec = Decode (d_codec D) (rq_body rq) (rq_ctype rq)"
      and o: "(recs, ws0) = onlyEvents (Records dec) w" and m: "splitMetrics D t recs = (logRecs, metricRows)"
      using ran(1) assms(2) unfolding pipeline_def Let_def by auto
    have "rec \<in> set recs" using onlyEvents_kept [OF o [symmetric]] assms(4,5) by (simp add: dec)
    then have "metric_row D t rec m \<in> set metricRows" using m assms(6) by (force simp: splitMetrics_eq)
    with ran(3) assms(3) h show ?thesis by (simp add: stored_rows_def)
  qed
qed

text \<open>One such line: an event marked as such that also names a metric and a value.\<close>

definition event_metric :: json where
  "event_metric = JObj [(''msg'', JStr ''signup''), (''uc.event'', JBool True), (''metric'', JStr ''mrr''), (''value'', JNum ''999'')]"

definition metric_codec :: codec where
  "metric_codec = \<lparr>parse = (\<lambda>_. Some event_metric), marshal = (\<lambda>_. ''{}''), tparse = (\<lambda>_ _. None)\<rparr>"

theorem public_key_writes_metrics_witness:
  "\<exists>m. MetricRow m \<in> set (st_sink (snd (Handle (toy_deps\<lparr>d_codec := metric_codec\<rparr>) (toy_request ''p'' ''{}'') empty_ing))) \<and>
       me_TenantID m = 3 \<and> me_Name m = ''mrr'' \<and> me_Value m = ''999''"
proof -
  let ?D = "toy_deps\<lparr>d_codec := metric_codec\<rparr>" and ?rq = "toy_request ''p'' ''{}''"
  let ?rec = "hd (Records (Decode metric_codec ''{}'' ''''))"
  have gp: "GatePublic ?D ?rq (the (two_keys ''p'')) ''p'' [] =
      (Inr [(''Access-Control-Allow-Origin'', ''https://x.io''), (''Vary'', ''Origin''), (''Access-Control-Allow-Credentials'', ''true'')],
       snd (allow [] ''p'' ''1.2.3.4'' 5))"
    by code_simp
  have au: "authenticate ?D ?rq = (two_keys ''p'', \<lparr>kf_key = ''p'', kf_inBody = False\<rparr>)"
    by code_simp
  have pub: "t_Kind (the (two_keys ''p'')) = KeyKindPublic" "two_keys ''p'' = Some (the (two_keys ''p''))"
    by (simp_all add: two_keys_def KeyKindPublic_def)
  have g: "gate ?D ?rq empty_ing (the (two_keys ''p'')) \<lparr>kf_key = ''p'', kf_inBody = False\<rparr>
      [(''Access-Control-Allow-Origin'', ''https://x.io''), (''Vary'', ''Origin''), (''Access-Control-Allow-Credentials'', ''true'')]
      (snd (allow [] ''p'' ''1.2.3.4'' 5))"
    using gp au pub by (simp add: gate_def empty_ing_def toy_request_def MaxBodyBytes_def computeOverload_def toy_deps_def)
  have rec: "Records (Decode metric_codec ''{}'' '''') = [?rec]" by code_simp
  have ev: "ev_Name (Classify (r_Message ?rec) (r_Named ?rec)) \<noteq> ''''" by code_simp
  have m: "metric_of ?D ?rec = Some \<lparr>ml_TS = 0, ml_Name = ''mrr'', ml_Value = ''999'', ml_Labels = []\<rparr>" by code_simp
  have "rq_body ?rq = ''{}''" "rq_ctype ?rq = ''''" "d_codec ?D = metric_codec" by (simp_all add: toy_request_def)
  with rec have "?rec \<in> set (Records (Decode (d_codec ?D) (rq_body ?rq) (rq_ctype ?rq)))" by (metis list.set_intros(1))
  moreover have "\<not> seen_before ?D ?rq empty_ing" by (simp add: seen_before_def empty_ing_def)
  ultimately have "MetricRow (marshal_metric (metric_row ?D (the (two_keys ''p'')) ?rec \<lparr>ml_TS = 0, ml_Name = ''mrr'', ml_Value = ''999'', ml_Labels = []\<rparr>))
      \<in> set (st_sink (snd (Handle ?D ?rq empty_ing)))"
    using public_key_writes_metrics [OF g pub(1) _ _ ev m] by blast
  then show ?thesis
    by (intro exI conjI) (assumption, simp_all add: marshal_metric_def ascii_def metric_row_def two_keys_def Let_def)
qed

section \<open>Overload, plain lines, browsers\<close>

lemma overload_drop:
  "fst (build_row D t (computeOverload f) rec (lim, s, ws)) = None \<longleftrightarrow>
     f < 100 \<and> (r_Level rec = ''debug'' \<and> 60 \<le> f \<or> r_Level rec = ''info'' \<and> 75 \<le> f \<or> r_Level rec = ''warn'' \<and> 90 \<le> f)"
proof -
  obtain row lim' s' ws' where b: "build_row D t (computeOverload f) rec (lim, s, ws) = (row, lim', s', ws')" by (metis surj_pair)
  have "row = None \<longleftrightarrow> r_Level rec \<in> set (shed (computeOverload f))"
    using b
  proof (rule build_row_stages)
    let ?ev = "Classify (r_Message rec) (r_Named rec)"
    fix actor amount currency attrs msg attrs1 ws1 ws2 attrs2 kc vc ws3 ws4 env
    assume f: "cap_fields lim (envelope t rec ?ev (actor, amount, currency) msg attrs2) ws3 = (env, lim', ws4)"
      and eq: "(row, s', ws') = (if e_Level env \<in> set (shed (computeOverload f)) then (None, s, add_warning ''class_shed'' 1 ws4)
        else (Some (fst (stamp_seq D (t_ProjectID t) s env)), snd (stamp_seq D (t_ProjectID t) s env), ws4))"
    obtain h sv where "env = (envelope t rec ?ev (actor, amount, currency) msg attrs2)\<lparr>e_Host := h, e_Service := sv\<rparr>"
      using cap_fields_kept [OF f] by blast
    then have "e_Level env = r_Level rec" by (simp add: envelope_def)
    with eq show ?thesis by (auto split: if_splits)
  qed
  then show ?thesis unfolding b by (auto simp: computeOverload_def)
qed

text \<open>The overload steps drop debug, info and warn, and nothing else.

  A record is dropped exactly when its level's step is reached: debug from 60%, info from 75%, warn from 90% of the spool. An error is never dropped
  before the spool is full; nor is a trace line, which the steps leave out although it ranks below debug.\<close>

theorem overload_sheds_exactly:
  "fst (build_row D t (computeOverload f) rec (lim, s, ws)) = None \<longleftrightarrow>
     f < 100 \<and> (r_Level rec = ''debug'' \<and> 60 \<le> f \<or> r_Level rec = ''info'' \<and> 75 \<le> f \<or> r_Level rec = ''warn'' \<and> 90 \<le> f)"
  by (rule overload_drop)

text \<open>A line that names no event keeps its actor as a label.

  The reserved attribute is lifted only from rows that name an event; on any other line \<^verbatim>\<open>uc.actor\<close> is stored among the attributes, value and
  all.\<close>

theorem plain_line_keeps_actor:
  assumes "ev_Name (Classify (r_Message rec) (r_Named rec)) = ''''" and "d_ScrubOff D" and "\<not> attrs_over (r_Attrs rec)"
    and "(ActorAttr, v) \<in> set (r_Attrs rec)" and "build_row D t d rec (lim, s, ws) = (Some e, st')"
  shows "(ActorAttr, v) \<in> set (e_Attrs e) \<and> e_Actor e = ''''"
proof -
  obtain lim' s' ws' where st': "st' = (lim', s', ws')" by (cases st')
  from assms(5) [unfolded st'] show ?thesis
  proof (rule build_row_stages)
    let ?ev = "Classify (r_Message rec) (r_Named rec)"
    fix actor amount currency attrs msg attrs1 ws1 ws2 attrs2 kc vc ws3 ws4 env
    assume l: "lift_reserved t ?ev (r_Attrs rec) = (actor, amount, currency, attrs)"
      and sc: "scrub_record (d_ScrubOff D) (r_Message rec) attrs ws1 = (msg, attrs1, ws2)"
      and c: "capAttrs attrs1 = (attrs2, kc, vc)"
      and f: "cap_fields lim (envelope t rec ?ev (actor, amount, currency) msg attrs2) ws3 = (env, lim', ws4)"
      and eq: "(Some e, s', ws') = (if e_Level env \<in> set (shed d) then (None, s, add_warning ''class_shed'' 1 ws4)
        else (Some (fst (stamp_seq D (t_ProjectID t) s env)), snd (stamp_seq D (t_ProjectID t) s env), ws4))"
    have "attrs2 = r_Attrs rec"
      using l sc c assms(1-3) by (auto simp: lift_reserved_def scrub_record_def capAttrs_def split: if_splits)
    moreover obtain h sv n where "env = (envelope t rec ?ev (actor, amount, currency) msg attrs2)\<lparr>e_Host := h, e_Service := sv\<rparr>"
      and "e = env\<lparr>e_Seq := n\<rparr>"
      using cap_fields_kept [OF f] stamp_seq_kept [of D "t_ProjectID t" s env] eq by (auto split: if_splits)
    ultimately show ?thesis using assms(1,4) by (simp add: envelope_def)
  qed
qed

definition plain_record :: Record where
  "plain_record = empty_record\<lparr>r_Message := ''hi'', r_Level := ''info'', r_Attrs := [(''uc.actor'', ''bob@x.io'')]\<rparr>"

theorem plain_line_keeps_actor_witness:
  "(ActorAttr, ''bob@x.io'') \<in> set (e_Attrs (the (fst (build_row (toy_deps\<lparr>d_ScrubOff := True\<rparr>) (the (two_keys ''a''))
      (computeOverload 0) plain_record (None, (), [])))))"
proof -
  let ?b = "build_row (toy_deps\<lparr>d_ScrubOff := True\<rparr>) (the (two_keys ''a'')) (computeOverload 0) plain_record (None, (), [])"
  have "fst ?b \<noteq> None" unfolding overload_drop by (simp add: plain_record_def)
  then have "?b = (Some (the (fst ?b)), snd ?b)" by (simp add: prod_eq_iff)
  moreover have "ev_Name (Classify (r_Message plain_record) (r_Named plain_record)) = ''''" by code_simp
  ultimately show ?thesis
    using plain_line_keeps_actor [of plain_record "toy_deps\<lparr>d_ScrubOff := True\<rparr>" "''bob@x.io''"]
    by (simp add: plain_record_def attrs_over_def MaxAttrKeys_def MaxAttrKeyBytes_def MaxAttrValBytes_def ActorAttr_def)
qed

lemma Handle_headers:
  assumes "(''Access-Control-Allow-Origin'', origin) \<in> set (rs_headers (fst (Handle D rq st)))"
  shows "\<exists>t kf g hs. authenticate D rq = (Some t, kf) \<and>
      (if t_Kind t = KeyKindPublic then GatePublic D rq t (kf_key kf) (st_hits st) else (Inr [], st_hits st)) = (g, hs) \<and>
      (''Access-Control-Allow-Origin'', origin) \<in> set (case g of Inl r \<Rightarrow> rs_headers r | Inr hdrs \<Rightarrow> hdrs)"
proof -
  have sized: "\<not> (rq_read_fails rq \<or> length (rq_body rq) > MaxBodyBytes)"
    using assms by (auto simp: Handle_def answer_def)
  obtain tt kf where au: "authenticate D rq = (tt, kf)" by (metis surj_pair)
  then obtain t where t: "tt = Some t" using assms sized by (cases tt) (auto simp: Handle_def answer_def)
  obtain g hs where g: "(if t_Kind t = KeyKindPublic then GatePublic D rq t (kf_key kf) (st_hits st) else (Inr [], st_hits st)) = (g, hs)"
    by (metis surj_pair)
  note u = assms [unfolded Handle_def if_not_P [OF sized] au t prod.case option.case g Let_def]
  have "rs_headers (fst (accept D rq t kf hdrs d s)) = hdrs" for hdrs d s
    by (auto simp: accept_def answer_def Let_def case_prod_unfold)
  with u have "(''Access-Control-Allow-Origin'', origin) \<in> set (case g of Inl r \<Rightarrow> rs_headers r | Inr hdrs \<Rightarrow> hdrs)"
    by (auto simp: answer_def split: sum.splits if_splits)
  with au t g show ?thesis by blast
qed

text \<open>A browser is only told of an origin its key lists.

  Whatever is asked, an answer that allows an origin names the request's own origin, which is listed by the public key presented and is not the
  opaque one.\<close>

theorem cors_names_a_listed_origin:
  assumes "(''Access-Control-Allow-Origin'', origin) \<in> set (rs_headers (fst (Handle D rq st))) \<union> set (rs_headers (HandlePreflight D rq))"
  shows "origin = rq_origin rq \<and> origin \<noteq> ''null'' \<and>
         (\<exists>key t. ResolveKey D key = Some t \<and> t_Kind t = KeyKindPublic \<and> origin \<in> set (t_Origins t))"
proof -
  have match: "matchOrigin p os = q \<Longrightarrow> q \<noteq> '''' \<Longrightarrow> q = p \<and> p \<noteq> ''null'' \<and> p \<in> set os" for p os q
    by (auto simp: matchOrigin_def split: if_splits)
  show ?thesis
  proof (cases "(''Access-Control-Allow-Origin'', origin) \<in> set (rs_headers (HandlePreflight D rq))")
    case True
    then obtain Resolve t where "d_Keys D = Some Resolve" "Resolve (rq_query_key rq) = Some t" "rq_query_key rq \<noteq> ''''"
      "t_Kind t = KeyKindPublic" "matchOrigin (rq_origin rq) (t_Origins t) = origin" "origin \<noteq> ''''"
      by (auto simp: HandlePreflight_def answer_def Let_def split: if_splits option.splits)
    with match [of "rq_origin rq" "t_Origins t" origin] show ?thesis
      by (auto simp: ResolveKey_def intro!: exI [of _ "rq_query_key rq"])
  next
    case False
    with assms obtain t kf hdrs hs g where au: "authenticate D rq = (Some t, kf)"
      and g: "(if t_Kind t = KeyKindPublic then GatePublic D rq t (kf_key kf) (st_hits st) else (Inr [], st_hits st)) = (g, hs)"
      and h: "(''Access-Control-Allow-Origin'', origin) \<in> set (case g of Inl r \<Rightarrow> rs_headers r | Inr hdrs \<Rightarrow> hdrs)"
      using Handle_headers by blast
    then have pub: "t_Kind t = KeyKindPublic" by (auto split: if_splits)
    with g h have "matchOrigin (rq_origin rq) (t_Origins t) = origin" "origin \<noteq> ''''"
      by (auto simp: GatePublic_def Let_def answer_def split: if_splits prod.splits)
    with match [of "rq_origin rq" "t_Origins t" origin] pub au show ?thesis
      by (auto simp: authenticate_def Let_def)
  qed
qed

section \<open>Witnesses of the row and receipt properties\<close>

lemma toy_first_pass:
  obtains r where "rs_body (fst (Handle toy_deps (toy_request ''a'' ''deploy 7'') empty_ing)) = Ack r"
    and "rc_Warnings r \<noteq> [(''bot_dropped'', 1)]"
proof -
  have g: "gate toy_deps (toy_request ''a'' ''deploy 7'') empty_ing (the (two_keys ''a'')) \<lparr>kf_key = ''a'', kf_inBody = False\<rparr> [] []"
    using toy_gate [of "''a''" "''deploy 7''" empty_ing] by (simp add: empty_ing_def MaxBodyBytes_def)
  obtain resp st' where h: "Handle toy_deps (toy_request ''a'' ''deploy 7'') empty_ing = (resp, st')" by (metis surj_pair)
  then have "accept toy_deps (toy_request ''a'' ''deploy 7'') (the (two_keys ''a'')) \<lparr>kf_key = ''a'', kf_inBody = False\<rparr> []
      (computeOverload (d_Fill toy_deps)) (empty_ing\<lparr>st_hits := []\<rparr>) = (resp, st')"
    using Handle_gated [OF g] by simp
  then show thesis
  proof (cases rule: accept_cases)
    case (ran recs rows metricRows ws lim seq)
    obtain w ws0 logRecs where o: "ws0 = merge_warnings (dr_Warnings (Decode toy_codec ''deploy 7'' '''')) []"
      and b: "buildRows toy_deps (the (two_keys ''a'')) (computeOverload (d_Fill toy_deps)) logRecs
          (st_card (empty_ing\<lparr>st_hits := []\<rparr>), st_seq (empty_ing\<lparr>st_hits := []\<rparr>), ws0) = (rows, lim, seq, ws)"
      using ran(1) unfolding pipeline_def by (auto simp: toy_deps_def toy_request_def two_keys_def KeyKindPublic_def Let_def)
    have "count_of ws ''ts_absent'' = 1"
    proof -
      have "count_of ws0 ''ts_absent'' = 1" unfolding o by code_simp
      then show ?thesis using buildRows_count [OF b, of "''ts_absent''"] by (simp add: row_codes_def)
    qed
    then have "ws \<noteq> [(''bot_dropped'', 1)]" by (auto simp: count_of_def)
    moreover have "\<not> seen_before toy_deps (toy_request ''a'' ''deploy 7'') empty_ing" by (simp add: seen_before_def empty_ing_def)
    ultimately show thesis using ran(3) h that by (simp add: answer_def)
  qed
qed

theorem receipt_accounts_for_every_record_witness:
  "\<exists>r. rs_body (fst (Handle toy_deps (toy_request ''a'' ''deploy 7'') empty_ing)) = Ack r \<and>
     rc_Accepted r = int (length (st_sink (snd (Handle toy_deps (toy_request ''a'' ''deploy 7'') empty_ing)))) \<and>
     rc_Accepted r + count_of (rc_Warnings r) ''class_shed'' + count_of (rc_Warnings r) ''public_key_logs_refused'' = 1"
proof -
  obtain r where r: "rs_body (fst (Handle toy_deps (toy_request ''a'' ''deploy 7'') empty_ing)) = Ack r"
    "rc_Warnings r \<noteq> [(''bot_dropped'', 1)]" using toy_first_pass .
  have "length (Records (Decode toy_codec ''deploy 7'' '''')) = 1" by code_simp
  then have one: "length (Records (Decode (d_codec toy_deps) (rq_body (toy_request ''a'' ''deploy 7'')) (rq_ctype (toy_request ''a'' ''deploy 7'')))) = 1"
    by (simp add: toy_deps_def toy_request_def)
  have "\<not> seen_before toy_deps (toy_request ''a'' ''deploy 7'') empty_ing" "st_sink empty_ing = []"
    by (simp_all add: seen_before_def empty_ing_def)
  with receipt_accounts_for_every_record [OF prod.collapse [symmetric] r] one show ?thesis using r(1) by auto
qed


theorem cors_names_a_listed_origin_witness:
  "\<exists>key t. ResolveKey toy_deps key = Some t \<and> t_Kind t = KeyKindPublic \<and> ''https://x.io'' \<in> set (t_Origins t)"
proof -
  have "(''Access-Control-Allow-Origin'', ''https://x.io'') \<in>
      set (rs_headers (HandlePreflight toy_deps ((toy_request '''' '''')\<lparr>rq_query_key := ''p''\<rparr>)))"
    by code_simp
  with cors_names_a_listed_origin [of "''https://x.io''" toy_deps "(toy_request '''' '''')\<lparr>rq_query_key := ''p''\<rparr>" empty_ing]
  show ?thesis by blast
qed

end
