(* ===== verification/Batcher.thy ===== *)
theory Batcher
  imports GoTime
begin

text \<open>
  The row batcher, \<^verbatim>\<open>back/internal/ingest/batcher/batcher.go\<close>. Batches live in a store and the pending map holds their addresses, because a
  pointer to a batch outlives the lock it was taken under. Every critical section is one operation; the sink call that follows a
  section is recorded with it. First the sections and the operations run one at a time, then their interleavings.
\<close>

section \<open>State\<close>

record Options =
  BatchBytes :: int
  BatchAge :: duration
  MinInterval :: duration

definition defaultBatchBytes :: int where "defaultBatchBytes = 8 * 2 ^ 20"
definition defaultBatchAge :: duration where "defaultBatchAge = 200 * millisecond"
definition defaultMinInterval :: duration where "defaultMinInterval = 1 * second"

record batch =
  ba_rows :: "string list"
  ba_bytes :: int
  ba_oldestAt :: time
  ba_lastFlush :: time

definition fresh_batch :: "time \<Rightarrow> batch" where
  "fresh_batch t = \<lparr>ba_rows = [], ba_bytes = 0, ba_oldestAt = zero_time, ba_lastFlush = t\<rparr>"

text \<open>\<open>b_out\<close> is the list of \<^verbatim>\<open>Flush\<close> calls the sink got.\<close>

record Batcher =
  b_store :: "batch list"
  b_pending :: "(string \<times> nat) list"
  b_out :: "(string \<times> string list) list"

definition New_options :: "Options \<Rightarrow> Options" where
  "New_options opt =
     (let opt = (if BatchBytes opt \<le> 0 then opt\<lparr>BatchBytes := defaultBatchBytes\<rparr> else opt);
          opt = (if BatchAge opt \<le> 0 then opt\<lparr>BatchAge := defaultBatchAge\<rparr> else opt)
      in if MinInterval opt \<le> 0 then opt\<lparr>MinInterval := defaultMinInterval\<rparr> else opt)"

definition New_batcher :: Batcher where
  "New_batcher = \<lparr>b_store = [], b_pending = [], b_out = []\<rparr>"

text \<open>Allocation, and the swap \<^verbatim>\<open>b.pending[key] = &batch{lastFlush: now}\<close>.\<close>

definition install :: "string \<Rightarrow> time \<Rightarrow> Batcher \<Rightarrow> Batcher" where
  "install key t s =
     s\<lparr>b_store := b_store s @ [fresh_batch t], b_pending := AList.update key (length (b_store s)) (b_pending s)\<rparr>"

definition send :: "string \<Rightarrow> string list \<Rightarrow> Batcher \<Rightarrow> Batcher" where
  "send key rows s = s\<lparr>b_out := b_out s @ [(key, rows)]\<rparr>"

section \<open>The critical sections\<close>

text \<open>Of \<^verbatim>\<open>Add\<close>: append the row; the address of the batch when it is full.\<close>

definition Add_section :: "Options \<Rightarrow> time \<Rightarrow> string \<Rightarrow> string \<Rightarrow> Batcher \<Rightarrow> nat option \<times> Batcher" where
  "Add_section opt now key row s =
     (let s = (case map_of (b_pending s) key of None \<Rightarrow> install key zero_time s | Some _ \<Rightarrow> s);
          a = the (map_of (b_pending s) key);
          ba = b_store s ! a;
          ba = (if ba_rows ba = [] then ba\<lparr>ba_oldestAt := now\<rparr> else ba);
          ba = ba\<lparr>ba_rows := ba_rows ba @ [row], ba_bytes := ba_bytes ba + int (length row)\<rparr>;
          s = s\<lparr>b_store := (b_store s)[a := ba]\<rparr>
      in (if ba_bytes ba \<ge> BatchBytes opt then Some a else None, s))"

text \<open>Of \<^verbatim>\<open>flush\<close>: replace the key's batch, send the rows of the batch the caller holds.\<close>

definition flush_section :: "time \<Rightarrow> string \<Rightarrow> nat \<Rightarrow> Batcher \<Rightarrow> Batcher" where
  "flush_section now key a s =
     (let s = install key now s in send key (ba_rows (b_store s ! a)) s)"

text \<open>Of \<^verbatim>\<open>Tick\<close>: the eligible keys, then for each a second look and the swap.\<close>

definition eligible :: "Options \<Rightarrow> time \<Rightarrow> batch \<Rightarrow> bool" where
  "eligible opt now ba \<longleftrightarrow>
     ba_rows ba \<noteq> [] \<and> Sub now (ba_oldestAt ba) \<ge> BatchAge opt \<and>
     (IsZero (ba_lastFlush ba) \<or> Sub now (ba_lastFlush ba) \<ge> MinInterval opt)"

definition Tick_select :: "Options \<Rightarrow> time \<Rightarrow> Batcher \<Rightarrow> string list" where
  "Tick_select opt now s = map fst (filter (\<lambda>(k, a). eligible opt now (b_store s ! a)) (b_pending s))"

definition Tick_section :: "Options \<Rightarrow> time \<Rightarrow> string \<Rightarrow> Batcher \<Rightarrow> Batcher" where
  "Tick_section opt now key s =
     (case map_of (b_pending s) key of
        None \<Rightarrow> s
      | Some a \<Rightarrow>
          let current = b_store s ! a in
          if ba_rows current = [] then s
          else if \<not> IsZero (ba_lastFlush current) \<and> Sub now (ba_lastFlush current) < MinInterval opt then s
          else send key (ba_rows current) (install key now s))"

text \<open>\<^verbatim>\<open>Close\<close>: take the whole map, send what has rows.\<close>

definition Close_batcher :: "Batcher \<Rightarrow> Batcher" where
  "Close_batcher s =
     fold (\<lambda>(k, a) s'. if ba_rows (b_store s ! a) = [] then s' else send k (ba_rows (b_store s ! a)) s')
       (b_pending s) (s\<lparr>b_pending := []\<rparr>)"

section \<open>One call at a time\<close>

definition Add_row :: "Options \<Rightarrow> time \<Rightarrow> time \<Rightarrow> string \<Rightarrow> string \<Rightarrow> Batcher \<Rightarrow> Batcher" where
  "Add_row opt now now' key row s =
     (case Add_section opt now key row s of
        (None, s) \<Rightarrow> s
      | (Some a, s) \<Rightarrow> flush_section now' key a s)"

definition Tick_batcher :: "Options \<Rightarrow> time \<Rightarrow> Batcher \<Rightarrow> Batcher" where
  "Tick_batcher opt now s = fold (Tick_section opt now) (Tick_select opt now s) s"

datatype batch_call = CallAdd time time string string | CallTick time | CallClose

fun call :: "Options \<Rightarrow> batch_call \<Rightarrow> Batcher \<Rightarrow> Batcher" where
  "call opt (CallAdd now now' key row) s = Add_row opt now now' key row s"
| "call opt (CallTick now) s = Tick_batcher opt now s"
| "call opt CallClose s = Close_batcher s"

definition calls :: "Options \<Rightarrow> batch_call list \<Rightarrow> Batcher \<Rightarrow> Batcher" where
  "calls opt cs s = fold (call opt) cs s"

section \<open>What is sent and what waits\<close>

definition sent_rows :: "Batcher \<Rightarrow> string \<Rightarrow> string list" where
  "sent_rows s key = concat (map snd (filter (\<lambda>(k, rows). k = key) (b_out s)))"

definition waiting :: "Batcher \<Rightarrow> string \<Rightarrow> string list" where
  "waiting s key = (case map_of (b_pending s) key of None \<Rightarrow> [] | Some a \<Rightarrow> ba_rows (b_store s ! a))"

text \<open>Addresses are valid, and no two keys share one.\<close>

definition batch_inv :: "Batcher \<Rightarrow> bool" where
  "batch_inv s \<longleftrightarrow> distinct (map fst (b_pending s)) \<and>
     (\<forall>k a. map_of (b_pending s) k = Some a \<longrightarrow> a < length (b_store s)) \<and>
     (\<forall>k k' a. map_of (b_pending s) k = Some a \<longrightarrow> map_of (b_pending s) k' = Some a \<longrightarrow> k = k')"

fun added :: "batch_call list \<Rightarrow> string \<Rightarrow> string list" where
  "added [] key = []"
| "added (CallAdd now now' k row # cs) key = (if k = key then [row] else []) @ added cs key"
| "added (_ # cs) key = added cs key"

lemma batch_invD:
  assumes "batch_inv s"
  shows "distinct (map fst (b_pending s))" and "map_of (b_pending s) k = Some a \<Longrightarrow> a < length (b_store s)"
    and "map_of (b_pending s) k = Some a \<Longrightarrow> map_of (b_pending s) k' = Some a \<Longrightarrow> k = k'"
  using assms by (auto simp: batch_inv_def)

section \<open>One section at a time\<close>

lemma install_inv: "batch_inv s \<Longrightarrow> batch_inv (install key t s)"
  by (fastforce simp: batch_inv_def install_def update_conv' distinct_update less_Suc_eq split: if_splits)

lemma install_waiting:
  assumes "batch_inv s"
  shows "waiting (install key t s) k = (if k = key then [] else waiting s k)"
  using assms
  by (auto simp: waiting_def install_def update_conv' fresh_batch_def nth_append batch_inv_def split: option.split)

lemma install_keeps [simp]:
  "b_out (install key t s) = b_out s" "a < length (b_store s) \<Longrightarrow> b_store (install key t s) ! a = b_store s ! a"
  by (simp_all add: install_def nth_append)

lemma send_keeps [simp]: "b_store (send key rows s) = b_store s" "b_pending (send key rows s) = b_pending s"
  by (simp_all add: send_def)

lemma send_inv [simp]: "batch_inv (send key rows s) = batch_inv s"
  by (simp add: batch_inv_def)

lemma send_rows [simp]:
  "waiting (send key rows s) k = waiting s k"
  "sent_rows (send key rows s) k = sent_rows s k @ (if k = key then rows else [])"
  by (simp_all add: waiting_def sent_rows_def send_def split: option.split)

lemma sent_install [simp]: "sent_rows (install key t s) k = sent_rows s k"
  by (simp add: sent_rows_def)

lemma Add_section_facts:
  assumes "batch_inv s" and "Add_section opt now key row s = (full, s')"
  shows "batch_inv s'" and "b_out s' = b_out s"
    and "waiting s' k = waiting s k @ (if k = key then [row] else [])"
    and "full = Some a \<Longrightarrow> map_of (b_pending s') key = Some a"
proof -
  obtain s1 where s1: "s1 = (case map_of (b_pending s) key of None \<Rightarrow> install key zero_time s | Some _ \<Rightarrow> s)" by blast
  have inv1: "batch_inv s1" using assms(1) install_inv by (auto simp: s1 split: option.split)
  have w1: "waiting s1 k = waiting s k" for k
  proof (cases "map_of (b_pending s) key")
    case None
    then have "waiting s key = []" by (simp add: waiting_def)
    with None show ?thesis by (auto simp: s1 install_waiting [OF assms(1)])
  qed (simp add: s1)
  have out1: "b_out s1 = b_out s" by (auto simp: s1 split: option.split)
  have "map_of (b_pending s1) key \<noteq> None" by (auto simp: s1 install_def update_conv' split: option.split)
  then obtain a1 where a1: "map_of (b_pending s1) key = Some a1" by blast
  obtain ba where ba: "ba = (if ba_rows (b_store s1 ! a1) = [] then (b_store s1 ! a1)\<lparr>ba_oldestAt := now\<rparr> else b_store s1 ! a1)" by blast
  obtain ba' where ba': "ba' = ba\<lparr>ba_rows := ba_rows ba @ [row], ba_bytes := ba_bytes ba + int (length row)\<rparr>" by blast
  have eq: "(full, s') = (if ba_bytes ba' \<ge> BatchBytes opt then Some a1 else None, s1\<lparr>b_store := (b_store s1)[a1 := ba']\<rparr>)"
    using assms(2) unfolding Add_section_def Let_def s1 [symmetric] a1 option.sel ba [symmetric] ba' [symmetric] by simp
  have rows: "ba_rows ba' = ba_rows (b_store s1 ! a1) @ [row]" by (simp add: ba' ba)
  have s': "s' = s1\<lparr>b_store := (b_store s1)[a1 := ba']\<rparr>" using eq by simp
  show "batch_inv s'" using inv1 by (simp add: s' batch_inv_def)
  show "b_out s' = b_out s" by (simp add: s' out1)
  show "full = Some a \<Longrightarrow> map_of (b_pending s') key = Some a" using eq a1 by (auto split: if_splits)
  show "waiting s' k = waiting s k @ (if k = key then [row] else [])"
  proof (cases "map_of (b_pending s1) k")
    case None
    then have "waiting s' k = []" "waiting s1 k = []" "k \<noteq> key" using a1 by (auto simp: waiting_def s')
    then show ?thesis by (simp add: w1)
  next
    case (Some b)
    have "b < length (b_store s1)" by (rule batch_invD(2) [OF inv1 Some])
    moreover have "b = a1 \<longleftrightarrow> k = key" using batch_invD(3) [OF inv1 Some, of key] a1 Some by auto
    ultimately show ?thesis
      using Some rows w1 [of k] by (auto simp: waiting_def [of "s1\<lparr>b_store := (b_store s1)[a1 := ba']\<rparr>"] waiting_def [of s1] s')
  qed
qed

lemma flush_section_facts:
  assumes "batch_inv s" and "map_of (b_pending s) key = Some a"
  shows "batch_inv (flush_section now key a s)"
    and "waiting (flush_section now key a s) k = (if k = key then [] else waiting s k)"
    and "sent_rows (flush_section now key a s) k = sent_rows s k @ (if k = key then waiting s key else [])"
  using assms install_inv [OF assms(1)] install_waiting [OF assms(1)] batch_invD(2) [OF assms]
  by (simp_all add: flush_section_def Let_def waiting_def [of s key])

lemma Tick_section_facts:
  assumes "batch_inv s"
  shows "batch_inv (Tick_section opt now key s)"
    and "sent_rows (Tick_section opt now key s) k @ waiting (Tick_section opt now key s) k = sent_rows s k @ waiting s k"
  using assms install_inv [OF assms] install_waiting [OF assms]
  by (auto simp: Tick_section_def Let_def waiting_def [of s key] split: option.split)

lemma Tick_sections_facts:
  assumes "batch_inv s"
  shows "batch_inv (fold (Tick_section opt now) ks s) \<and>
    sent_rows (fold (Tick_section opt now) ks s) k @ waiting (fold (Tick_section opt now) ks s) k = sent_rows s k @ waiting s k"
  using assms by (induction ks arbitrary: s) (simp_all add: Tick_section_facts)

section \<open>Calls that do not overlap\<close>

lemma Close_rows:
  assumes "distinct (map fst ps)"
  shows "sent_rows (fold (\<lambda>(k, a) s. if ba_rows (st ! a) = [] then s else send k (ba_rows (st ! a)) s) ps s) k =
         sent_rows s k @ (case map_of ps k of None \<Rightarrow> [] | Some a \<Rightarrow> ba_rows (st ! a))"
  using assms
proof (induction ps arbitrary: s)
  case (Cons p ps)
  obtain k' a where p: "p = (k', a)" by (cases p)
  then have "map_of ps k' = None" using Cons.prems by (simp add: map_of_eq_None_iff)
  with Cons show ?case by (auto simp: p split: option.split)
qed simp

lemma Close_keeps:
  "b_store (fold (\<lambda>(k, a) s. if ba_rows (st ! a) = [] then s else send k (ba_rows (st ! a)) s) ps s) = b_store s"
  "b_pending (fold (\<lambda>(k, a) s. if ba_rows (st ! a) = [] then s else send k (ba_rows (st ! a)) s) ps s) = b_pending s"
  by (induction ps arbitrary: s) auto

lemma Close_facts:
  assumes "batch_inv s"
  shows "batch_inv (Close_batcher s)" and "waiting (Close_batcher s) k = []"
    and "sent_rows (Close_batcher s) k = sent_rows s k @ waiting s k"
proof -
  show "batch_inv (Close_batcher s)" "waiting (Close_batcher s) k = []"
    by (simp_all add: Close_batcher_def batch_inv_def waiting_def Close_keeps)
  show "sent_rows (Close_batcher s) k = sent_rows s k @ waiting s k"
    using Close_rows [OF batch_invD(1) [OF assms], of "b_store s" "s\<lparr>b_pending := []\<rparr>" k]
    by (simp add: Close_batcher_def sent_rows_def waiting_def)
qed

lemma call_facts:
  assumes "batch_inv s"
  shows "batch_inv (call opt c s) \<and> sent_rows (call opt c s) k @ waiting (call opt c s) k = (sent_rows s k @ waiting s k) @ added [c] k"
proof (cases c)
  case (CallAdd now now' key row)
  obtain full s1 where a: "Add_section opt now key row s = (full, s1)" by (metis surj_pair)
  note f = Add_section_facts [OF assms a]
  have sent: "sent_rows s1 k = sent_rows s k" by (simp add: sent_rows_def f(2))
  show ?thesis
  proof (cases full)
    case None
    with f(1,3) sent show ?thesis by (simp add: CallAdd Add_row_def a)
  next
    case (Some b)
    note g = flush_section_facts [OF f(1) f(4) [OF Some]]
    with Some f(3) [of k] f(3) [of key] sent show ?thesis by (simp add: CallAdd Add_row_def a)
  qed
next
  case (CallTick now)
  with Tick_sections_facts [OF assms] show ?thesis by (simp add: Tick_batcher_def)
next
  case CallClose
  with Close_facts [OF assms] show ?thesis by simp
qed

lemma added_append: "added (cs @ ds) key = added cs key @ added ds key"
  by (induction cs key rule: added.induct) simp_all

lemma calls_facts:
  assumes "batch_inv s"
  shows "batch_inv (calls opt cs s) \<and> sent_rows (calls opt cs s) k @ waiting (calls opt cs s) k = sent_rows s k @ waiting s k @ added cs k"
  using assms
proof (induction cs arbitrary: s)
  case (Cons c cs)
  from call_facts [OF Cons.prems, of opt c k] Cons.IH [of "call opt c s"] added_append [of "[c]" cs k]
  show ?case by (simp add: calls_def)
qed (simp add: calls_def)

lemma New_batcher_inv: "batch_inv New_batcher"
  by (simp add: New_batcher_def batch_inv_def)

text \<open>C5. Calls that do not overlap hand every row to the sink once, in order.

  Whatever the options, the clock and the calls of \<^verbatim>\<open>Add\<close>, \<^verbatim>\<open>Tick\<close> and \<^verbatim>\<open>Close\<close>, the rows the sink got for a key followed by those that still
  wait are exactly the rows added under it, in the order they were added; after a \<^verbatim>\<open>Close\<close> the sink has them all.\<close>

theorem batcher_is_a_queue:
  "sent_rows (calls opt cs New_batcher) key @ waiting (calls opt cs New_batcher) key = added cs key \<and>
   sent_rows (Close_batcher (calls opt cs New_batcher)) key = added cs key"
proof -
  note f = calls_facts [OF New_batcher_inv, of opt cs key]
  moreover have "sent_rows New_batcher key = []" "waiting New_batcher key = []"
    by (simp_all add: New_batcher_def sent_rows_def waiting_def)
  ultimately show ?thesis using Close_facts(3) [of "calls opt cs New_batcher" key] by simp
qed

section \<open>Calls that overlap\<close>

text \<open>
  What a goroutine has still to do between two sections: an \<^verbatim>\<open>Add\<close> that found the batch full holds its address, a \<^verbatim>\<open>Tick\<close> holds
  the keys it selected. A step runs one section of one call.
\<close>

datatype rest = RFlush string nat | RTick time string

record conf =
  cf_state :: Batcher
  cf_rest :: "rest list"
  cf_added :: "(string \<times> string) list"

inductive section_step :: "Options \<Rightarrow> conf \<Rightarrow> conf \<Rightarrow> bool" for opt where
  add: "Add_section opt now key row (cf_state c) = (None, s) \<Longrightarrow>
    section_step opt c (c\<lparr>cf_state := s, cf_added := cf_added c @ [(key, row)]\<rparr>)"
| add_full: "Add_section opt now key row (cf_state c) = (Some a, s) \<Longrightarrow>
    section_step opt c (c\<lparr>cf_state := s, cf_added := cf_added c @ [(key, row)], cf_rest := cf_rest c @ [RFlush key a]\<rparr>)"
| flush: "cf_rest c = r1 @ RFlush key a # r2 \<Longrightarrow>
    section_step opt c (c\<lparr>cf_state := flush_section now key a (cf_state c), cf_rest := r1 @ r2\<rparr>)"
| tick: "section_step opt c (c\<lparr>cf_rest := cf_rest c @ map (RTick now) (Tick_select opt now (cf_state c))\<rparr>)"
| tick_take: "cf_rest c = r1 @ RTick now key # r2 \<Longrightarrow>
    section_step opt c (c\<lparr>cf_state := Tick_section opt now key (cf_state c), cf_rest := r1 @ r2\<rparr>)"
| close: "section_step opt c (c\<lparr>cf_state := Close_batcher (cf_state c)\<rparr>)"

abbreviation interleaved :: "Options \<Rightarrow> conf \<Rightarrow> conf \<Rightarrow> bool" where
  "interleaved opt \<equiv> (section_step opt)\<^sup>*\<^sup>*"

definition idle :: "Batcher \<Rightarrow> conf" where
  "idle s = \<lparr>cf_state = s, cf_rest = [], cf_added = []\<rparr>"

definition added_rows :: "conf \<Rightarrow> string \<Rightarrow> string list" where
  "added_rows c key = map snd (filter (\<lambda>(k, row). k = key) (cf_added c))"

definition total_bytes :: "(string \<times> string) list \<Rightarrow> int" where
  "total_bytes rows = int (sum_list (map (length \<circ> snd) rows))"

definition bytes_ok :: "Batcher \<Rightarrow> bool" where
  "bytes_ok s \<longleftrightarrow> (\<forall>ba \<in> set (b_store s). ba_bytes ba = int (sum_list (map length (ba_rows ba))))"

lemma bytes_ok_sections:
  "bytes_ok s \<Longrightarrow> bytes_ok (install key t s)" "bytes_ok (send key rows s) = bytes_ok s"
  "bytes_ok s \<Longrightarrow> bytes_ok (flush_section now key a s)"
  "bytes_ok s \<Longrightarrow> bytes_ok (Tick_section opt now key s)" "bytes_ok (Close_batcher s) = bytes_ok s"
  by (auto simp: bytes_ok_def install_def send_def flush_section_def Tick_section_def fresh_batch_def Let_def
      Close_batcher_def Close_keeps split: option.split)

text \<open>\<open>Add\<close> reports a full batch exactly by the bytes that wait.\<close>

lemma Add_section_bytes:
  assumes "batch_inv s" and "bytes_ok s" and "Add_section opt now key row s = (full, s')"
  shows "bytes_ok s' \<and> (full = None \<longleftrightarrow> int (sum_list (map length (waiting s key @ [row]))) < BatchBytes opt)"
proof -
  obtain s1 where s1: "s1 = (case map_of (b_pending s) key of None \<Rightarrow> install key zero_time s | Some _ \<Rightarrow> s)" by blast
  have ok1: "bytes_ok s1" using assms(2) bytes_ok_sections(1) by (auto simp: s1 split: option.split)
  have "map_of (b_pending s1) key \<noteq> None" by (auto simp: s1 install_def update_conv' split: option.split)
  then obtain a1 where a1: "map_of (b_pending s1) key = Some a1" by blast
  have inv1: "batch_inv s1" using assms(1) install_inv by (auto simp: s1 split: option.split)
  obtain ba where ba: "ba = (if ba_rows (b_store s1 ! a1) = [] then (b_store s1 ! a1)\<lparr>ba_oldestAt := now\<rparr> else b_store s1 ! a1)" by blast
  obtain ba' where ba': "ba' = ba\<lparr>ba_rows := ba_rows ba @ [row], ba_bytes := ba_bytes ba + int (length row)\<rparr>" by blast
  have eq: "(full, s') = (if ba_bytes ba' \<ge> BatchBytes opt then Some a1 else None, s1\<lparr>b_store := (b_store s1)[a1 := ba']\<rparr>)"
    using assms(3) unfolding Add_section_def Let_def s1 [symmetric] a1 option.sel ba [symmetric] ba' [symmetric] by simp
  have lt: "a1 < length (b_store s1)" by (rule batch_invD(2) [OF inv1 a1])
  with ok1 have "ba_bytes (b_store s1 ! a1) = int (sum_list (map length (ba_rows (b_store s1 ! a1))))" by (simp add: bytes_ok_def)
  then have "ba_bytes ba' = int (sum_list (map length (ba_rows ba')))" by (simp add: ba' ba)
  moreover have "bytes_ok s'"
    using calculation ok1 eq by (auto simp: bytes_ok_def dest!: set_update_subset_insert [THEN subsetD])
  moreover have "ba_rows ba' = waiting s key @ [row]"
  proof -
    have "map_of (b_pending s') key = Some a1" "s' = s1\<lparr>b_store := (b_store s1)[a1 := ba']\<rparr>" using eq a1 by simp_all
    then have "ba_rows ba' = waiting s' key" using lt by (simp add: waiting_def)
    then show ?thesis using Add_section_facts(3) [OF assms(1,3), of key] by simp
  qed
  ultimately show ?thesis using eq by (auto split: if_splits)
qed

definition no_flush :: "conf \<Rightarrow> bool" where
  "no_flush c \<longleftrightarrow> (\<forall>r \<in> set (cf_rest c). \<exists>t k. r = RTick t k)"

definition conf_inv :: "conf \<Rightarrow> bool" where
  "conf_inv c \<longleftrightarrow> batch_inv (cf_state c) \<and> bytes_ok (cf_state c) \<and> no_flush c \<and>
     (\<forall>k. sent_rows (cf_state c) k @ waiting (cf_state c) k = added_rows c k)"

lemma total_bytes_snoc: "total_bytes (rows @ [(k, row)]) = total_bytes rows + int (length row)"
  by (simp add: total_bytes_def)

lemma key_bytes_le: "sum_list (map length (map snd (filter (\<lambda>(k, row). k = key) rows))) \<le> sum_list (map (length \<circ> snd) rows)"
  by (induction rows) auto

lemma waiting_bytes_le:
  assumes "sent_rows s k @ waiting s k = added_rows c k"
  shows "int (sum_list (map length (waiting s k))) \<le> total_bytes (cf_added c)"
proof -
  have "sum_list (map length (added_rows c k)) \<le> sum_list (map (length \<circ> snd) (cf_added c))"
    using key_bytes_le [of k "cf_added c"] by (simp add: added_rows_def)
  then show ?thesis unfolding assms [symmetric] total_bytes_def by simp
qed

lemma section_step_inv:
  assumes "section_step opt c c'" and "total_bytes (cf_added c') < BatchBytes opt"
    and "total_bytes (cf_added c) < BatchBytes opt \<Longrightarrow> conf_inv c"
  shows "conf_inv c'"
  using assms
proof (cases rule: section_step.cases)
  case (add now key row s)
  then have inv: "conf_inv c" using assms(2,3) by (simp add: total_bytes_snoc)
  note f = Add_section_facts [OF _ add(2)] Add_section_bytes [OF _ _ add(2)]
  have "sent_rows s k = sent_rows (cf_state c) k" for k using f(2) inv by (simp add: conf_inv_def sent_rows_def)
  with f inv show ?thesis
    by (auto simp: add(1) conf_inv_def no_flush_def added_rows_def)
next
  case (add_full now key row a s)
  then have inv: "conf_inv c" using assms(2,3) by (simp add: total_bytes_snoc)
  then have eq: "sent_rows (cf_state c) key @ waiting (cf_state c) key = added_rows c key" by (simp add: conf_inv_def)
  have "int (sum_list (map length (waiting (cf_state c) key @ [row]))) < BatchBytes opt"
    using waiting_bytes_le [OF eq] assms(2) by (simp add: add_full(1) total_bytes_snoc)
  with Add_section_bytes [OF _ _ add_full(2)] inv show ?thesis by (simp add: conf_inv_def)
next
  case (flush r1 key a r2 now)
  then have "conf_inv c" using assms(2,3) by simp
  with flush show ?thesis by (auto simp: conf_inv_def no_flush_def)
next
  case (tick now)
  then have "conf_inv c" using assms(2,3) by simp
  with tick show ?thesis by (auto simp: conf_inv_def no_flush_def added_rows_def)
next
  case (tick_take r1 now key r2)
  then have "conf_inv c" using assms(2,3) by simp
  with tick_take Tick_section_facts [of "cf_state c" opt now key] bytes_ok_sections(4) show ?thesis
    by (auto simp: conf_inv_def no_flush_def added_rows_def)
next
  case close
  then have "conf_inv c" using assms(2,3) by simp
  with close Close_facts [of "cf_state c"] bytes_ok_sections(5) show ?thesis
    by (auto simp: conf_inv_def no_flush_def added_rows_def)
qed

text \<open>Below the size threshold, overlapping calls lose nothing either.

  Let any number of \<^verbatim>\<open>Add\<close>, \<^verbatim>\<open>Tick\<close> and \<^verbatim>\<open>Close\<close> calls run at once, their sections interleaved in any order. As long as the rows added so far weigh
  less than \<^verbatim>\<open>BatchBytes\<close>, the rows sent for a key followed by the waiting ones are the rows added under it, in order, each once.\<close>

theorem overlapping_calls_below_threshold:
  assumes "interleaved opt (idle New_batcher) c" and "total_bytes (cf_added c) < BatchBytes opt"
  shows "sent_rows (cf_state c) key @ waiting (cf_state c) key = added_rows c key"
proof -
  have "conf_inv c" using assms
  proof (induction rule: rtranclp_induct)
    case base
    show ?case
      using New_batcher_inv
      by (simp add: conf_inv_def idle_def no_flush_def bytes_ok_def New_batcher_def sent_rows_def waiting_def added_rows_def)
  next
    case (step c c')
    show ?case by (rule section_step_inv [OF step(2,4) step.IH])
  qed
  then show ?thesis by (simp add: conf_inv_def)
qed

text \<open>Two overlapping calls on a full batch send rows twice and lose one.

  Both hold the address of the full batch. The first flush sends its rows and installs a new batch; a row added to that one is
  dropped when the second flush installs another, and the second flush sends the old rows again. For any key and rows of which the first fills the batch
  there is such a run, after which nothing is left to do.\<close>

theorem full_batch_loses_a_row:
  assumes "BatchBytes opt \<le> int (length r1)" and "int (length r3) < BatchBytes opt"
  shows "\<exists>c. interleaved opt (idle New_batcher) c \<and> cf_rest c = [] \<and> added_rows c key = [r1, r2, r3] \<and>
           sent_rows (cf_state c) key = [r1, r2, r1, r2] \<and> waiting (cf_state c) key = []"
proof -
  let ?b = "\<lambda>rows n. \<lparr>ba_rows = rows, ba_bytes = n, ba_oldestAt = 5, ba_lastFlush = 0\<rparr>"
  let ?n1 = "int (length r1)" and ?n2 = "int (length r1) + int (length r2)"
  let ?s1 = "\<lparr>b_store = [?b [r1] ?n1], b_pending = [(key, 0)], b_out = []\<rparr>"
  let ?s2 = "\<lparr>b_store = [?b [r1, r2] ?n2], b_pending = [(key, 0)], b_out = []\<rparr>"
  let ?s3 = "flush_section 5 key 0 ?s2"
  let ?s4 = "snd (Add_section opt 6 key r3 ?s3)"
  have a1: "Add_section opt 5 key r1 New_batcher = (Some 0, ?s1)"
    using assms(1) by (simp add: Add_section_def install_def New_batcher_def fresh_batch_def zero_time_def)
  have a2: "Add_section opt 5 key r2 ?s1 = (Some 0, ?s2)"
    using assms(1) by (simp add: Add_section_def)
  have a3: "Add_section opt 6 key r3 ?s3 = (None, ?s4)"
    using assms(2) by (simp add: Add_section_def flush_section_def install_def send_def fresh_batch_def Let_def)
  let ?c = "\<lambda>s rest rows. \<lparr>cf_state = s, cf_rest = rest, cf_added = rows\<rparr>"
  let ?c5 = "?c (flush_section 7 key 0 ?s4) [] [(key, r1), (key, r2), (key, r3)]"
  have "section_step opt (idle New_batcher) (?c ?s1 [RFlush key 0] [(key, r1)])"
    using section_step.add_full [of opt 5 key r1 "idle New_batcher" 0 ?s1] a1 by (simp add: idle_def)
  moreover have "section_step opt (?c ?s1 [RFlush key 0] [(key, r1)]) (?c ?s2 [RFlush key 0, RFlush key 0] [(key, r1), (key, r2)])"
    using section_step.add_full [of opt 5 key r2 "?c ?s1 [RFlush key 0] [(key, r1)]" 0 ?s2] a2 by simp
  moreover have "section_step opt (?c ?s2 [RFlush key 0, RFlush key 0] [(key, r1), (key, r2)])
      (?c ?s3 [RFlush key 0] [(key, r1), (key, r2)])"
    using section_step.flush [of "?c ?s2 [RFlush key 0, RFlush key 0] [(key, r1), (key, r2)]" "[]" key 0 "[RFlush key 0]" opt 5]
    by simp
  moreover have "section_step opt (?c ?s3 [RFlush key 0] [(key, r1), (key, r2)])
      (?c ?s4 [RFlush key 0] [(key, r1), (key, r2), (key, r3)])"
    using section_step.add [of opt 6 key r3 "?c ?s3 [RFlush key 0] [(key, r1), (key, r2)]" ?s4] a3 by simp
  moreover have "section_step opt (?c ?s4 [RFlush key 0] [(key, r1), (key, r2), (key, r3)]) ?c5"
    using section_step.flush [of "?c ?s4 [RFlush key 0] [(key, r1), (key, r2), (key, r3)]" "[]" key 0 "[]" opt 7] by simp
  ultimately have "interleaved opt (idle New_batcher) ?c5" by (meson rtranclp.rtrancl_refl rtranclp.rtrancl_into_rtrancl)
  moreover have "sent_rows (cf_state ?c5) key = [r1, r2, r1, r2] \<and> waiting (cf_state ?c5) key = []"
    by (simp add: sent_rows_def waiting_def flush_section_def Add_section_def install_def send_def fresh_batch_def Let_def)
  ultimately show ?thesis by (intro exI [of _ ?c5]) (simp add: added_rows_def)
qed

theorem full_batch_loses_a_row_witness:
  "\<exists>c. interleaved \<lparr>BatchBytes = 4, BatchAge = 1, MinInterval = 1\<rparr> (idle New_batcher) c \<and> cf_rest c = [] \<and>
       added_rows c ''logs'' = [''aaaa'', ''bb'', ''c''] \<and> sent_rows (cf_state c) ''logs'' = [''aaaa'', ''bb'', ''aaaa'', ''bb''] \<and>
       waiting (cf_state c) ''logs'' = []"
  by (rule full_batch_loses_a_row) simp_all

theorem overlapping_calls_below_threshold_witness:
  "sent_rows (Close_batcher (snd (Add_section \<lparr>BatchBytes = 4, BatchAge = 1, MinInterval = 1\<rparr> 5 ''logs'' ''a'' New_batcher))) ''logs'' @
   waiting (Close_batcher (snd (Add_section \<lparr>BatchBytes = 4, BatchAge = 1, MinInterval = 1\<rparr> 5 ''logs'' ''a'' New_batcher))) ''logs'' = [''a'']"
proof -
  let ?opt = "\<lparr>BatchBytes = 4, BatchAge = 1, MinInterval = 1\<rparr>"
  let ?s = "snd (Add_section ?opt 5 ''logs'' ''a'' New_batcher)"
  have "Add_section ?opt 5 ''logs'' ''a'' New_batcher = (None, ?s)"
    by (simp add: Add_section_def install_def New_batcher_def fresh_batch_def)
  then have s1: "section_step ?opt (idle New_batcher) ((idle New_batcher)\<lparr>cf_state := ?s, cf_added := [(''logs'', ''a'')]\<rparr>)"
    using section_step.add [of ?opt 5 "''logs''" "''a''" "idle New_batcher" ?s] by (simp add: idle_def)
  have s2: "section_step ?opt ((idle New_batcher)\<lparr>cf_state := ?s, cf_added := [(''logs'', ''a'')]\<rparr>)
      ((idle New_batcher)\<lparr>cf_state := Close_batcher ?s, cf_added := [(''logs'', ''a'')]\<rparr>)"
    using section_step.close [of ?opt "(idle New_batcher)\<lparr>cf_state := ?s, cf_added := [(''logs'', ''a'')]\<rparr>"] by (simp add: idle_def)
  have "interleaved ?opt (idle New_batcher) ((idle New_batcher)\<lparr>cf_state := Close_batcher ?s, cf_added := [(''logs'', ''a'')]\<rparr>)"
    by (rule converse_rtranclp_into_rtranclp [of "section_step ?opt", OF s1 r_into_rtranclp [of "section_step ?opt", OF s2]])
  from overlapping_calls_below_threshold [OF this, of "''logs''"] show ?thesis
    by (simp add: idle_def total_bytes_def added_rows_def)
qed

end
