(* ===== verification/Sequence.thy ===== *)
theory Sequence
  imports IngestFacts
begin

text \<open>
  Sequence numbers: the allocator of \<^verbatim>\<open>back/internal/ring/seq/seq.go\<close>, the lease of \<^verbatim>\<open>storage/pg/seqleaser.go\<close> with its query, and the map of
  allocators of \<^verbatim>\<open>api/wire.go\<close>. First one call at a time, with the contract POST /i relies on; then goroutines, replicas and
  crashes, section by section.
\<close>

section \<open>The allocator\<close>

text \<open>\<open>project_seq\<close> maps a project to its next free number.\<close>

type_synonym project_seq = "int \<rightharpoonup> int"

definition EnsureProjectSeq :: "int \<Rightarrow> project_seq \<Rightarrow> project_seq" where
  "EnsureProjectSeq pid db = (case db pid of None \<Rightarrow> db(pid \<mapsto> 1) | Some _ \<Rightarrow> db)"

text \<open>The update of one row: no row is an error, and so is a number beyond 64 bits.\<close>

definition LeaseSeqBlock :: "int \<Rightarrow> int \<Rightarrow> project_seq \<Rightarrow> int option \<times> project_seq" where
  "LeaseSeqBlock pid blockSize db =
     (case db pid of
        None \<Rightarrow> (None, db)
      | Some n \<Rightarrow> if n + blockSize > max_int64 then (None, db) else (Some n, db(pid \<mapsto> n + blockSize)))"

record Allocator =
  al_projectID :: int
  al_blockSize :: int
  al_next :: int
  al_end :: int

definition New_allocator :: "int \<Rightarrow> int \<Rightarrow> Allocator" where
  "New_allocator pid blockSize =
     \<lparr>al_projectID = pid, al_blockSize = (if blockSize \<le> 0 then 10000 else blockSize), al_next = 0, al_end = 0\<rparr>"

text \<open>The two locked sections of \<^verbatim>\<open>Next\<close>: before the lease and after it.\<close>

definition Next_fast :: "Allocator \<Rightarrow> int option \<times> Allocator" where
  "Next_fast a =
     (if al_next a < al_end a then (Some (al_next a), a\<lparr>al_next := al_next a + 1\<rparr>) else (None, a))"

definition Next_leased :: "int \<Rightarrow> Allocator \<Rightarrow> int \<times> Allocator" where
  "Next_leased start a =
     (if al_next a < al_end a then (al_next a, a\<lparr>al_next := al_next a + 1\<rparr>)
      else
        let a = a\<lparr>al_next := start, al_end := start + al_blockSize a\<rparr>
        in (al_next a, a\<lparr>al_next := al_next a + 1\<rparr>))"

definition Next :: "Allocator \<Rightarrow> project_seq \<Rightarrow> int option \<times> Allocator \<times> project_seq" where
  "Next a db =
     (case Next_fast a of
        (Some v, a) \<Rightarrow> (Some v, a, db)
      | (None, a) \<Rightarrow>
          (case LeaseSeqBlock (al_projectID a) (al_blockSize a) db of
             (None, db) \<Rightarrow> (None, a, db)
           | (Some start, db) \<Rightarrow> (case Next_leased start a of (v, a) \<Rightarrow> (Some v, a, db))))"

text \<open>\<^verbatim>\<open>seqAllocators\<close>: one allocator per project, made on first use.\<close>

type_synonym allocators = "int \<rightharpoonup> Allocator"

definition allocator_for :: "int \<Rightarrow> allocators \<Rightarrow> Allocator" where
  "allocator_for pid as = (case as pid of None \<Rightarrow> New_allocator pid 10000 | Some a \<Rightarrow> a)"

definition seq_Next :: "allocators \<times> project_seq \<Rightarrow> int \<Rightarrow> int option \<times> (allocators \<times> project_seq)" where
  "seq_Next st pid =
     (case st of (as, db) \<Rightarrow>
        (case Next (allocator_for pid as) db of (v, a, db) \<Rightarrow> (v, (as(pid \<mapsto> a), db))))"

section \<open>One call at a time\<close>

fun draw :: "nat \<Rightarrow> Allocator \<Rightarrow> project_seq \<Rightarrow> int option list" where
  "draw 0 a db = []"
| "draw (Suc n) a db = (case Next a db of (v, a, db) \<Rightarrow> v # draw n a db)"

text \<open>What is left of the block continues at the database's counter when the block is used up.\<close>

lemma draw_counts:
  assumes "0 < al_blockSize a" and "db (al_projectID a) = Some m" and "al_next a \<le> al_end a"
    and "al_next a < al_end a \<Longrightarrow> al_end a = m" and "m + int n * al_blockSize a \<le> max_int64"
  shows "draw n a db = map (\<lambda>i. Some ((if al_next a < al_end a then al_next a else m) + int i)) [0..<n]"
  using assms
proof (induction n arbitrary: a db m)
  case (Suc n)
  have shift: "map (\<lambda>i. Some (x + int i)) [0..<Suc n] = Some x # map (\<lambda>i. Some (x + 1 + int i)) [0..<n]" for x :: int
    by (simp add: map_upt_Suc add.assoc del: upt_Suc)
  show ?case
  proof (cases "al_next a < al_end a")
    case True
    let ?a = "a\<lparr>al_next := al_next a + 1\<rparr>"
    have end_m: "al_end a = m" by (rule Suc.prems(4) [OF True])
    have room: "m + int n * al_blockSize ?a \<le> max_int64" using Suc.prems(1,5) by (simp add: algebra_simps)
    have "draw n ?a db = map (\<lambda>i. Some ((if al_next ?a < al_end ?a then al_next ?a else m) + int i)) [0..<n]"
      by (rule Suc.IH [OF _ _ _ _ room]) (use Suc.prems(1,2) True end_m in auto)
    moreover have "(if al_next ?a < al_end ?a then al_next ?a else m) = al_next a + 1" using True end_m by simp
    moreover have "draw (Suc n) a db = Some (al_next a) # draw n ?a db" using True by (simp add: Next_def Next_fast_def)
    ultimately show ?thesis using True by (simp only: shift if_True)
  next
    case False
    let ?b = "al_blockSize a"
    let ?a = "a\<lparr>al_next := m + 1, al_end := m + ?b\<rparr>"
    let ?db = "db(al_projectID a \<mapsto> m + ?b)"
    have nb: "0 \<le> int n * ?b" using Suc.prems(1) by simp
    have room: "m + ?b \<le> max_int64" "m + ?b + int n * ?b \<le> max_int64" using Suc.prems(5) nb by (simp_all add: algebra_simps)
    have "draw n ?a ?db = map (\<lambda>i. Some ((if al_next ?a < al_end ?a then al_next ?a else m + ?b) + int i)) [0..<n]"
      by (rule Suc.IH) (use Suc.prems(1) room in auto)
    moreover have "(if al_next ?a < al_end ?a then al_next ?a else m + ?b) = m + 1" using Suc.prems(1) by simp
    moreover have "Next a db = (Some m, ?a, ?db)"
      using False Suc.prems(2) room(1) by (simp add: Next_def Next_fast_def LeaseSeqBlock_def Next_leased_def Let_def)
    moreover from this have "draw (Suc n) a db = Some m # draw n ?a ?db" by (simp only: draw.simps prod.case)
    ultimately show ?thesis using False by (simp only: shift if_False)
  qed
qed simp

text \<open>Drawn one at a time, the numbers of a project are the counter, without gaps.

  A new allocator on a project whose counter stands at m hands out m, m + 1, m + 2 and so on across all its leases, as long as the leases stay
  within 64 bits.\<close>

theorem sequential_draws_are_the_counter:
  assumes "db pid = Some m" and "0 < b" and "m + int n * b \<le> max_int64"
  shows "draw n (New_allocator pid b) db = map (\<lambda>i. Some (m + int i)) [0..<n]"
  using draw_counts [of "New_allocator pid b" db m n] assms by (simp add: New_allocator_def)

theorem sequential_draws_are_the_counter_witness:
  "draw 3 (New_allocator 7 2) [7 \<mapsto> 1] = [Some 1, Some 2, Some 3]"
  using sequential_draws_are_the_counter [of "[7 \<mapsto> 1]" 7 1 2 3] by (simp add: max_int64_def upt_rec)

section \<open>What POST /i relies on\<close>

text \<open>
  A source of sequence numbers: each number lies at or above what was promised for its project, and everything handed out later lies above it.
  A failure hands out nothing and takes back nothing.
\<close>

locale sequencer =
  fixes nxt :: "'s \<Rightarrow> int \<Rightarrow> int option \<times> 's"
    and inv :: "'s \<Rightarrow> bool"
    and low :: "'s \<Rightarrow> int \<Rightarrow> int"
  assumes keeps: "inv s \<Longrightarrow> inv (snd (nxt s p))"
    and positive: "inv s \<Longrightarrow> 0 < low s p"
    and above: "inv s \<Longrightarrow> fst (nxt s p) = Some n \<Longrightarrow> low s p \<le> n \<and> n < low (snd (nxt s p)) p"
    and monotone: "inv s \<Longrightarrow> low s p \<le> low (snd (nxt s q)) p"
begin

lemma stamped:
  assumes "inv s" and "d_Seq D = Some nxt" and "e_Seq env = 0" and "stamp_seq D p s env = (env', s')"
  shows "inv s'" and "low s p \<le> low s' p" and "e_Seq env' \<noteq> 0 \<Longrightarrow> low s p \<le> e_Seq env' \<and> e_Seq env' < low s' p"
proof -
  obtain v where n: "nxt s p = (v, s')" using assms(2,4) by (auto simp: stamp_seq_def split: prod.splits option.splits)
  show "inv s'" using keeps [OF assms(1), of p] by (simp add: n)
  show "low s p \<le> low s' p" using monotone [OF assms(1), of p p] by (simp add: n)
  show "e_Seq env' \<noteq> 0 \<Longrightarrow> low s p \<le> e_Seq env' \<and> e_Seq env' < low s' p"
    using assms(2-4) above [OF assms(1), of p] n by (auto simp: stamp_seq_def split: option.splits)
qed

lemma row_stamped:
  assumes "inv s" and "d_Seq D = Some nxt" and "build_row D t d rec (lim, s, ws) = (row, lim', s', ws')"
  shows "inv s' \<and> low s (t_ProjectID t) \<le> low s' (t_ProjectID t) \<and>
    (\<forall>e. row = Some e \<longrightarrow> e_Seq e \<noteq> 0 \<longrightarrow> low s (t_ProjectID t) \<le> e_Seq e \<and> e_Seq e < low s' (t_ProjectID t))"
  using assms(3)
proof (rule build_row_stages)
  let ?ev = "Classify (r_Message rec) (r_Named rec)"
  fix actor amount currency attrs msg attrs1 ws1 ws2 attrs2 kc vc ws3 ws4 env
  assume f: "cap_fields lim (envelope t rec ?ev (actor, amount, currency) msg attrs2) ws3 = (env, lim', ws4)"
    and eq: "(row, s', ws') = (if e_Level env \<in> set (shed d) then (None, s, add_warning ''class_shed'' 1 ws4)
        else (Some (fst (stamp_seq D (t_ProjectID t) s env)), snd (stamp_seq D (t_ProjectID t) s env), ws4))"
  have zero: "e_Seq env = 0" using cap_fields_kept [OF f] by (auto simp: envelope_def)
  show ?thesis
  proof (cases "e_Level env \<in> set (shed d)")
    case True
    with eq assms(1) show ?thesis by simp
  next
    case False
    with eq stamped [OF assms(1,2) zero prod.collapse [symmetric], of "t_ProjectID t"] show ?thesis by simp
  qed
qed

lemma rows_stamped:
  assumes "inv s" and "d_Seq D = Some nxt" and "buildRows D t d recs (lim, s, ws) = (rows, lim', s', ws')"
  shows "inv s' \<and> low s (t_ProjectID t) \<le> low s' (t_ProjectID t) \<and>
    sorted_wrt (<) (filter (\<lambda>n. n \<noteq> 0) (map e_Seq rows)) \<and>
    (\<forall>n \<in> set (map e_Seq rows). n \<noteq> 0 \<longrightarrow> low s (t_ProjectID t) \<le> n \<and> n < low s' (t_ProjectID t))"
  using assms(1,3)
proof (induction recs arbitrary: lim s ws rows)
  case (Cons rec recs)
  obtain row lim1 s1 ws1 where b: "build_row D t d rec (lim, s, ws) = (row, lim1, s1, ws1)" by (metis surj_pair)
  obtain rows1 lim2 s2 ws2 where r: "buildRows D t d recs (lim1, s1, ws1) = (rows1, lim2, s2, ws2)" by (metis surj_pair)
  from Cons.prems(2) b r have eq: "rows = (case row of Some e \<Rightarrow> e # rows1 | None \<Rightarrow> rows1)" "s2 = s'" "lim2 = lim'" "ws2 = ws'" by auto
  note one = row_stamped [OF Cons.prems(1) assms(2) b]
  note many = Cons.IH [OF one [THEN conjunct1] r [unfolded eq(2-4)]]
  show ?case
  proof (cases row)
    case None
    with one many show ?thesis by (auto simp: eq(1) intro: order_trans)
  next
    case (Some e)
    have "low s (t_ProjectID t) \<le> n \<and> n < low s' (t_ProjectID t)" if "n \<in> set (map e_Seq rows1)" "n \<noteq> 0" for n
      using that many one by (auto intro: order_trans)
    moreover have "e_Seq e < n" if "n \<in> set (map e_Seq rows1)" "n \<noteq> 0" "e_Seq e \<noteq> 0" for n
      using that many one Some by (auto intro: less_le_trans)
    ultimately show ?thesis using one many by (auto simp: eq(1) Some intro: less_le_trans)
  qed
qed simp

end

text \<open>The allocators of the process are such a source, as long as no one else leases from the table.\<close>

definition seq_ok :: "allocators \<times> project_seq \<Rightarrow> bool" where
  "seq_ok st \<longleftrightarrow> (\<forall>pid m. snd st pid = Some m \<longrightarrow> 0 < m) \<and>
     (\<forall>pid a. fst st pid = Some a \<longrightarrow> al_projectID a = pid \<and> 0 < al_blockSize a \<and>
        (al_next a < al_end a \<longrightarrow> 0 < al_next a \<and> (\<exists>m. snd st pid = Some m \<and> al_end a \<le> m)))"

definition seq_low :: "allocators \<times> project_seq \<Rightarrow> int \<Rightarrow> int" where
  "seq_low st pid =
     (if al_next (allocator_for pid (fst st)) < al_end (allocator_for pid (fst st)) then al_next (allocator_for pid (fst st))
      else case snd st pid of None \<Rightarrow> 1 | Some m \<Rightarrow> m)"

lemma seq_ok_for:
  assumes "seq_ok (as, db)"
  shows "al_projectID (allocator_for pid as) = pid" and "0 < al_blockSize (allocator_for pid as)"
    and "al_next (allocator_for pid as) < al_end (allocator_for pid as) \<Longrightarrow>
           0 < al_next (allocator_for pid as) \<and> (\<exists>m. db pid = Some m \<and> al_end (allocator_for pid as) \<le> m)"
  using assms by (cases "as pid"; simp add: seq_ok_def allocator_for_def New_allocator_def)+

lemma allocator_for_upd: "allocator_for q (as(p \<mapsto> a)) = (if q = p then a else allocator_for q as)"
  by (simp add: allocator_for_def)

lemma seq_Next_cases:
  assumes "seq_ok (as, db)"
  obtains (block) "al_next (allocator_for p as) < al_end (allocator_for p as)"
      "seq_Next (as, db) p = (Some (al_next (allocator_for p as)),
         as(p \<mapsto> (allocator_for p as)\<lparr>al_next := al_next (allocator_for p as) + 1\<rparr>), db)"
  | (fails) "\<not> al_next (allocator_for p as) < al_end (allocator_for p as)"
      "seq_Next (as, db) p = (None, as(p \<mapsto> allocator_for p as), db)"
  | (leases) m where "\<not> al_next (allocator_for p as) < al_end (allocator_for p as)" "db p = Some m"
      "seq_Next (as, db) p = (Some m,
         as(p \<mapsto> (allocator_for p as)\<lparr>al_end := m + al_blockSize (allocator_for p as), al_next := m + 1\<rparr>),
         db(p \<mapsto> m + al_blockSize (allocator_for p as)))"
proof (cases "al_next (allocator_for p as) < al_end (allocator_for p as)")
  case True
  then show thesis by (intro block) (simp_all add: seq_Next_def Next_def Next_fast_def)
next
  case False
  show thesis
  proof (cases "\<exists>m. db p = Some m \<and> m + al_blockSize (allocator_for p as) \<le> max_int64")
    case True
    with False seq_ok_for(1) [OF assms, of p] leases show thesis
      by (auto simp: seq_Next_def Next_def Next_fast_def LeaseSeqBlock_def Next_leased_def Let_def)
  next
    case none: False
    then have "fst (LeaseSeqBlock p (al_blockSize (allocator_for p as)) db) = None"
        "snd (LeaseSeqBlock p (al_blockSize (allocator_for p as)) db) = db"
      by (auto simp: LeaseSeqBlock_def split: option.split)
    then have "LeaseSeqBlock p (al_blockSize (allocator_for p as)) db = (None, db)" by (simp add: prod_eq_iff)
    with False fails seq_ok_for(1) [OF assms, of p] show thesis
      by (simp add: seq_Next_def Next_def Next_fast_def)
  qed
qed

interpretation process_seq: sequencer seq_Next seq_ok seq_low
proof
  fix st :: "allocators \<times> project_seq" and p q n
  assume ok: "seq_ok st"
  obtain as db where st: "st = (as, db)" by (cases st)
  note ok' = ok [unfolded st]
  note facts = seq_ok_for [OF ok']
  have pos: "0 < m" if "db r = Some m" for r m using ok' that by (simp add: seq_ok_def)
  have ok_as: "al_projectID a = r \<and> 0 < al_blockSize a \<and> (al_next a < al_end a \<longrightarrow> 0 < al_next a \<and> (\<exists>m. db r = Some m \<and> al_end a \<le> m))"
    if "as r = Some a" for r a using ok' that by (simp add: seq_ok_def)
  show "0 < seq_low st p" using facts(3) [of p] pos by (auto simp: seq_low_def st split: option.split)
  show "seq_ok (snd (seq_Next st p))"
    using ok' unfolding st
  proof (cases rule: seq_Next_cases [where p = p])
    case block
    with ok_as pos facts [of p] show "seq_ok (snd (seq_Next (as, db) p))" by (auto simp: seq_ok_def)
  next
    case fails
    with ok_as pos facts [of p] show "seq_ok (snd (seq_Next (as, db) p))" by (auto simp: seq_ok_def)
  next
    case (leases m)
    have "\<exists>m'. (db(p \<mapsto> m + al_blockSize (allocator_for p as))) r = Some m' \<and> al_end a \<le> m'"
      if "as r = Some a" "al_next a < al_end a" "r \<noteq> p" for r a using ok_as [OF that(1)] that by simp
    moreover have "0 < m + al_blockSize (allocator_for p as)" "0 \<le> m" using pos [OF leases(2)] facts(2) [of p] by simp_all
    ultimately show "seq_ok (snd (seq_Next (as, db) p))" using leases ok_as pos facts(1,2) [of p] by (auto simp: seq_ok_def)
  qed
  show "fst (seq_Next st p) = Some n \<Longrightarrow> seq_low st p \<le> n \<and> n < seq_low (snd (seq_Next st p)) p"
    using ok' unfolding st
    by (cases rule: seq_Next_cases [where p = p])
      (use facts [of p] in \<open>auto simp: seq_low_def allocator_for_upd\<close>)
  show "seq_low st p \<le> seq_low (snd (seq_Next st q)) p"
    using ok' unfolding st
    by (cases rule: seq_Next_cases [where p = q])
      (use facts [of q] in \<open>auto simp: seq_low_def allocator_for_upd split: option.split\<close>)
qed

text \<open>The rows of a batch carry increasing numbers.

  With the allocators of the process behind POST /i, the rows built from a batch have strictly increasing sequence numbers in the order of its
  records, all of them new for the project; a row whose lease failed carries none, and takes no number from another.\<close>

theorem rows_are_numbered_in_order:
  assumes "d_Seq D = Some seq_Next" and "seq_ok st" and "buildRows D t d recs (lim, st, ws) = (rows, lim', st', ws')"
  shows "sorted_wrt (<) (filter (\<lambda>n. n \<noteq> 0) (map e_Seq rows)) \<and>
         (\<forall>n \<in> set (map e_Seq rows). n \<noteq> 0 \<longrightarrow> seq_low st (t_ProjectID t) \<le> n \<and> n < seq_low st' (t_ProjectID t)) \<and>
         seq_ok st'"
  using process_seq.rows_stamped [OF assms(2,1,3)] by blast

section \<open>Goroutines, replicas, crashes\<close>

text \<open>
  A goroutine that found its block used up leases outside the lock and comes back. A replica has its own allocators; a crash forgets them and
  what its goroutines held. A failed lease may happen at any time.
\<close>

datatype seq_rest = SLease nat int | SFinish nat int int

record seq_sys =
  sy_db :: project_seq
  sy_alloc :: "nat \<Rightarrow> allocators"
  sy_rest :: "seq_rest list"
  sy_issued :: "(int \<times> int) list"

definition set_alloc :: "nat \<Rightarrow> int \<Rightarrow> Allocator \<Rightarrow> seq_sys \<Rightarrow> seq_sys" where
  "set_alloc r pid a c = c\<lparr>sy_alloc := (sy_alloc c)(r := (sy_alloc c r)(pid \<mapsto> a))\<rparr>"

fun rest_replica :: "seq_rest \<Rightarrow> nat" where
  "rest_replica (SLease r pid) = r"
| "rest_replica (SFinish r pid start) = r"

inductive seq_step :: "seq_sys \<Rightarrow> seq_sys \<Rightarrow> bool" where
  fast: "Next_fast (allocator_for pid (sy_alloc c r)) = (Some v, a) \<Longrightarrow>
    seq_step c ((set_alloc r pid a c)\<lparr>sy_issued := sy_issued c @ [(pid, v)]\<rparr>)"
| slow: "Next_fast (allocator_for pid (sy_alloc c r)) = (None, a) \<Longrightarrow>
    seq_step c ((set_alloc r pid a c)\<lparr>sy_rest := sy_rest c @ [SLease r pid]\<rparr>)"
| lease: "sy_rest c = r1 @ SLease r pid # r2 \<Longrightarrow>
    LeaseSeqBlock pid (al_blockSize (allocator_for pid (sy_alloc c r))) (sy_db c) = (Some start, db) \<Longrightarrow>
    seq_step c (c\<lparr>sy_db := db, sy_rest := r1 @ SFinish r pid start # r2\<rparr>)"
| lease_fails: "sy_rest c = r1 @ SLease r pid # r2 \<Longrightarrow> seq_step c (c\<lparr>sy_rest := r1 @ r2\<rparr>)"
| finish: "sy_rest c = r1 @ SFinish r pid start # r2 \<Longrightarrow>
    Next_leased start (allocator_for pid (sy_alloc c r)) = (v, a) \<Longrightarrow>
    seq_step c ((set_alloc r pid a c)\<lparr>sy_rest := r1 @ r2, sy_issued := sy_issued c @ [(pid, v)]\<rparr>)"
| crash: "seq_step c (c\<lparr>sy_alloc := (sy_alloc c)(r := Map.empty), sy_rest := filter (\<lambda>x. rest_replica x \<noteq> r) (sy_rest c)\<rparr>)"

abbreviation seq_run :: "seq_sys \<Rightarrow> seq_sys \<Rightarrow> bool" where
  "seq_run \<equiv> seq_step\<^sup>*\<^sup>*"

definition seq_start :: "project_seq \<Rightarrow> seq_sys" where
  "seq_start db = \<lparr>sy_db = db, sy_alloc = (\<lambda>r. Map.empty), sy_rest = [], sy_issued = []\<rparr>"

text \<open>Who may still hand out a number: nobody twice, and nobody a number the table has not passed.\<close>

definition holds :: "seq_sys \<Rightarrow> nat \<Rightarrow> int \<Rightarrow> int \<Rightarrow> bool" where
  "holds c r pid n \<longleftrightarrow> al_next (allocator_for pid (sy_alloc c r)) \<le> n \<and> n < al_end (allocator_for pid (sy_alloc c r))"

definition leased_by :: "int \<Rightarrow> int \<Rightarrow> seq_rest \<Rightarrow> bool" where
  "leased_by pid n x = (case x of SFinish r p start \<Rightarrow> p = pid \<and> start \<le> n \<and> n < start + 10000 | _ \<Rightarrow> False)"

definition claims_on :: "seq_sys \<Rightarrow> int \<Rightarrow> int \<Rightarrow> nat" where
  "claims_on c pid n = count_list (sy_issued c) (pid, n) + length (filter (leased_by pid n) (sy_rest c))"

definition owned_once :: "seq_sys \<Rightarrow> int \<Rightarrow> int \<Rightarrow> bool" where
  "owned_once c pid n \<longleftrightarrow> claims_on c pid n \<le> 1 \<and> (\<forall>r. holds c r pid n \<longrightarrow> claims_on c pid n = 0) \<and>
     (\<forall>r r'. holds c r pid n \<longrightarrow> holds c r' pid n \<longrightarrow> r = r') \<and>
     (claims_on c pid n \<noteq> 0 \<or> (\<exists>r. holds c r pid n) \<longrightarrow> (\<exists>m. sy_db c pid = Some m \<and> n < m))"

definition seq_inv :: "seq_sys \<Rightarrow> bool" where
  "seq_inv c \<longleftrightarrow> (\<forall>r pid. al_blockSize (allocator_for pid (sy_alloc c r)) = 10000) \<and> (\<forall>pid n. owned_once c pid n)"

lemma alloc_set_alloc:
  "allocator_for q (sy_alloc (set_alloc r p a c) r') = (if r' = r \<and> q = p then a else allocator_for q (sy_alloc c r'))"
  by (simp add: set_alloc_def allocator_for_def)

lemma set_alloc_keeps [simp]:
  "sy_db (set_alloc r p a c) = sy_db c" "sy_rest (set_alloc r p a c) = sy_rest c" "sy_issued (set_alloc r p a c) = sy_issued c"
  by (simp_all add: set_alloc_def)

text \<open>The four ways a number's owner changes in a step: not at all or away, from an allocator to the log, from the table, to an allocator.\<close>

lemma owned_less:
  assumes "owned_once c pid n" and "claims_on c' pid n \<le> claims_on c pid n" and "\<And>r. holds c' r pid n \<Longrightarrow> holds c r pid n"
    and "sy_db c' pid = sy_db c pid"
  shows "owned_once c' pid n"
  using assms unfolding owned_once_def by (metis bot_nat_0.extremum_uniqueI order_trans)

lemma owned_issued:
  assumes "owned_once c pid n" and "holds c r pid n" and "\<not> holds c' r pid n" and "claims_on c' pid n \<le> claims_on c pid n + 1"
    and "\<And>r. holds c' r pid n \<Longrightarrow> holds c r pid n" and "sy_db c' pid = sy_db c pid"
  shows "owned_once c' pid n"
proof -
  have "claims_on c pid n = 0" "\<And>r'. \<not> holds c' r' pid n" "\<exists>m. sy_db c pid = Some m \<and> n < m"
    using assms(1-3,5) unfolding owned_once_def by blast+
  with assms(4,6) show ?thesis unfolding owned_once_def by simp
qed

lemma owned_leased:
  assumes "owned_once c pid n" and "sy_db c pid = Some m" and "m \<le> n" and "sy_db c' pid = Some m'" and "n < m'"
    and "claims_on c' pid n \<le> claims_on c pid n + 1" and "\<And>r. holds c' r pid n \<Longrightarrow> holds c r pid n"
  shows "owned_once c' pid n"
proof -
  have "claims_on c pid n = 0" "\<And>r. \<not> holds c r pid n"
    using assms(1-3) unfolding owned_once_def by auto
  with assms(4-7) show ?thesis unfolding owned_once_def by auto
qed

lemma owned_taken:
  assumes "owned_once c pid n" and "claims_on c pid n = Suc (claims_on c' pid n)" and "sy_db c' pid = sy_db c pid"
    and "\<And>r'. holds c' r' pid n \<Longrightarrow> holds c r' pid n \<or> r' = r"
  shows "owned_once c' pid n"
proof -
  have "claims_on c' pid n = 0" "\<And>r. \<not> holds c r pid n" "\<exists>m. sy_db c pid = Some m \<and> n < m"
    using assms(1,2) unfolding owned_once_def by auto
  with assms(3,4) show ?thesis unfolding owned_once_def by auto
qed

lemma holds_set_alloc:
  "holds (set_alloc r p a c) r' q n = (if r' = r \<and> q = p then al_next a \<le> n \<and> n < al_end a else holds c r' q n)"
  by (simp add: holds_def alloc_set_alloc)

lemma holds_updates [simp]:
  "holds (c\<lparr>sy_issued := i\<rparr>) r p n = holds c r p n" "holds (c\<lparr>sy_rest := x\<rparr>) r p n = holds c r p n"
  "holds (c\<lparr>sy_db := d\<rparr>) r p n = holds c r p n"
  by (simp_all add: holds_def)

lemma alloc_updates [simp]:
  "sy_alloc (set_alloc r p a c\<lparr>sy_issued := i\<rparr>) = sy_alloc (set_alloc r p a c)"
  by simp

lemma Next_fast_cases:
  "Next_fast a = (Some v, a') \<longleftrightarrow> al_next a < al_end a \<and> v = al_next a \<and> a' = a\<lparr>al_next := al_next a + 1\<rparr>"
  "Next_fast a = (None, a') \<longleftrightarrow> \<not> al_next a < al_end a \<and> a' = a"
  by (auto simp: Next_fast_def)

lemma blocks_kept:
  assumes "\<forall>r pid. al_blockSize (allocator_for pid (sy_alloc c r)) = 10000" and "al_blockSize a = 10000"
  shows "al_blockSize (allocator_for q (sy_alloc (set_alloc r p a c) r')) = 10000"
  using assms by (simp add: alloc_set_alloc)

lemma seq_step_inv:
  assumes "seq_step c c'" and "seq_inv c"
  shows "seq_inv c'"
proof -
  have blk: "al_blockSize (allocator_for pid (sy_alloc c r)) = 10000" for r pid using assms(2) by (simp add: seq_inv_def)
  have own: "owned_once c pid n" for pid n using assms(2) by (simp add: seq_inv_def)
  from assms(1) show ?thesis
  proof (cases rule: seq_step.cases)
    case (fast p r v a)
    note f = fast(2) [unfolded Next_fast_cases]
    have "owned_once c' pid n" for pid n
    proof (cases "pid = p \<and> n = v")
      case True
      show ?thesis
        by (rule owned_issued [OF own, where r = r])
          (use f True in \<open>auto simp: fast(1) holds_set_alloc holds_def [of c] claims_on_def split: if_splits\<close>)
    next
      case False
      show ?thesis
        by (rule owned_less [OF own])
          (use f False in \<open>auto simp: fast(1) holds_set_alloc holds_def [of c] claims_on_def split: if_splits\<close>)
    qed
    moreover have "al_blockSize (allocator_for q (sy_alloc c' r')) = 10000" for q r'
      using f blk by (simp add: fast(1) alloc_set_alloc)
    ultimately show ?thesis by (simp add: seq_inv_def)
  next
    case (slow p r a)
    note f = slow(2) [unfolded Next_fast_cases]
    have "owned_once c' pid n" for pid n
      by (rule owned_less [OF own])
        (use f in \<open>auto simp: slow(1) holds_set_alloc holds_def [of c] claims_on_def leased_by_def split: if_splits\<close>)
    moreover have "al_blockSize (allocator_for q (sy_alloc c' r')) = 10000" for q r'
      using f blk by (simp add: slow(1) alloc_set_alloc)
    ultimately show ?thesis by (simp add: seq_inv_def)
  next
    case (lease r1 r p r2 start db)
    have db: "sy_db c p = Some start" "db = (sy_db c)(p \<mapsto> start + 10000)"
      using lease(3) blk by (auto simp: LeaseSeqBlock_def split: option.splits if_splits)
    have "owned_once c' pid n" for pid n
    proof (cases "pid = p \<and> start \<le> n \<and> n < start + 10000")
      case True
      show ?thesis
        by (rule owned_leased [OF own, where m = start and m' = "start + 10000"])
          (use True db lease(2) in \<open>auto simp: lease(1) claims_on_def leased_by_def\<close>)
    next
      case False
      have "claims_on c' pid n = claims_on c pid n"
        using False lease(2) by (auto simp: lease(1) claims_on_def leased_by_def)
      moreover have "holds c' r' pid n = holds c r' pid n" for r' by (simp add: lease(1))
      moreover have "n < start \<Longrightarrow> n < start + 10000" by simp
      ultimately show ?thesis
        using own [of pid n] db by (cases "pid = p") (auto simp: owned_once_def lease(1))
    qed
    with blk show ?thesis by (simp add: seq_inv_def lease(1))
  next
    case (lease_fails r1 r p r2)
    have "owned_once c' pid n" for pid n
      by (rule owned_less [OF own]) (use lease_fails(2) in \<open>auto simp: lease_fails(1) claims_on_def leased_by_def\<close>)
    with blk show ?thesis by (simp add: seq_inv_def lease_fails(1))
  next
    case (finish r1 r p start r2 v a)
    show ?thesis
    proof (cases "al_next (allocator_for p (sy_alloc c r)) < al_end (allocator_for p (sy_alloc c r))")
      case True
      then have f: "v = al_next (allocator_for p (sy_alloc c r))" "a = (allocator_for p (sy_alloc c r))\<lparr>al_next := v + 1\<rparr>"
        using finish(3) by (auto simp: Next_leased_def)
      have "owned_once c' pid n" for pid n
      proof (cases "pid = p \<and> n = v")
        case here: True
        show ?thesis
          by (rule owned_issued [OF own, where r = r])
            (use f True here finish(2) in \<open>auto simp: finish(1) holds_set_alloc holds_def [of c] claims_on_def split: if_splits\<close>)
      next
        case False
        show ?thesis
          by (rule owned_less [OF own])
            (use f False finish(2) in \<open>auto simp: finish(1) holds_set_alloc holds_def [of c] claims_on_def split: if_splits\<close>)
      qed
      moreover have "al_blockSize (allocator_for q (sy_alloc c' r')) = 10000" for q r'
        using f blk by (simp add: finish(1) alloc_set_alloc)
      ultimately show ?thesis by (simp add: seq_inv_def)
    next
      case False
      then have f: "v = start" "al_next a = start + 1" "al_end a = start + 10000" "al_blockSize a = 10000"
        using finish(3) blk by (auto simp: Next_leased_def Let_def)
      have "owned_once c' pid n" for pid n
      proof (cases "pid = p \<and> start < n \<and> n < start + 10000")
        case True
        show ?thesis
          by (rule owned_taken [OF own, where r = r])
            (use f True finish(2) in \<open>auto simp: finish(1) holds_set_alloc holds_def [of c] claims_on_def leased_by_def split: if_splits\<close>)
      next
        case other: False
        show ?thesis
          by (rule owned_less [OF own])
            (use f False other finish(2) in \<open>auto simp: finish(1) holds_set_alloc holds_def [of c] claims_on_def leased_by_def split: if_splits\<close>)
      qed
      moreover have "al_blockSize (allocator_for q (sy_alloc c' r')) = 10000" for q r'
        using f blk by (simp add: finish(1) alloc_set_alloc)
      ultimately show ?thesis by (simp add: seq_inv_def)
    qed
  next
    case (crash r)
    have "length (filter P (filter (\<lambda>x. rest_replica x \<noteq> r) xs)) \<le> length (filter P xs)" for P xs
      by (induction xs) auto
    then have "owned_once c' pid n" for pid n
      by (intro owned_less [OF own])
        (auto simp: crash holds_def claims_on_def allocator_for_def New_allocator_def split: if_splits)
    moreover have "al_blockSize (allocator_for q (sy_alloc c' r')) = 10000" for q r'
      using blk by (simp add: crash allocator_for_def New_allocator_def)
    ultimately show ?thesis by (simp add: seq_inv_def)
  qed
qed

lemma distinct_of_counts: "(\<And>x. count_list xs x \<le> 1) \<Longrightarrow> distinct xs"
proof (induction xs)
  case (Cons y ys)
  have "count_list ys x \<le> 1" for x using Cons.prems [of x] by (simp split: if_splits)
  moreover have "y \<notin> set ys" using Cons.prems [of y] by (simp add: count_list_0_iff)
  ultimately show ?case using Cons.IH by simp
qed simp

text \<open>C12. No number is handed out twice.

  However the goroutines of any number of replicas interleave their calls, whatever leases fail and whichever replicas crash and come back, the numbers issued
  for a project are distinct.\<close>

theorem issued_numbers_are_unique:
  assumes "seq_run (seq_start db) c"
  shows "distinct (sy_issued c)"
proof -
  have "seq_inv c" using assms
  proof (induction rule: rtranclp_induct)
    case base
    show ?case
      by (auto simp: seq_inv_def owned_once_def seq_start_def holds_def claims_on_def allocator_for_def New_allocator_def)
  next
    case (step c c')
    then show ?case using seq_step_inv by blast
  qed
  then have "claims_on c pid n \<le> 1" for pid n by (simp add: seq_inv_def owned_once_def)
  then have "count_list (sy_issued c) x \<le> 1" for x
    by (cases x) (metis add_leD1 claims_on_def)
  then show ?thesis by (rule distinct_of_counts)
qed

lemma one_draw:
  assumes "sy_db c pid = Some m" and "m + 10000 \<le> max_int64" and "sy_alloc c r pid = None" and "sy_rest c = []"
  shows "\<exists>c'. seq_run c c' \<and> sy_db c' = (sy_db c)(pid \<mapsto> m + 10000) \<and> sy_rest c' = [] \<and> sy_issued c' = sy_issued c @ [(pid, m)] \<and>
    sy_alloc c' = (sy_alloc c)(r := (sy_alloc c r)(pid \<mapsto> (New_allocator pid 10000)\<lparr>al_end := m + 10000, al_next := m + 1\<rparr>))"
proof -
  let ?a = "New_allocator pid 10000"
  have none: "allocator_for pid (sy_alloc c r) = ?a" using assms(3) by (simp add: allocator_for_def)
  let ?c1 = "(set_alloc r pid ?a c)\<lparr>sy_rest := [SLease r pid]\<rparr>"
  let ?c2 = "?c1\<lparr>sy_db := (sy_db c)(pid \<mapsto> m + 10000), sy_rest := [SFinish r pid m]\<rparr>"
  let ?b = "?a\<lparr>al_end := m + 10000, al_next := m + 1\<rparr>"
  let ?c3 = "(set_alloc r pid ?b ?c2)\<lparr>sy_rest := [], sy_issued := sy_issued c @ [(pid, m)]\<rparr>"
  have "seq_step c ?c1"
    using seq_step.slow [of pid c r ?a] none assms(4) by (simp add: Next_fast_def New_allocator_def)
  moreover have a1: "allocator_for pid (sy_alloc ?c1 r) = ?a" by (simp add: set_alloc_def allocator_for_def)
  have "LeaseSeqBlock pid (al_blockSize (allocator_for pid (sy_alloc ?c1 r))) (sy_db ?c1) = (Some m, (sy_db c)(pid \<mapsto> m + 10000))"
    using assms(1,2) unfolding a1 by (simp add: LeaseSeqBlock_def New_allocator_def)
  then have "seq_step ?c1 ?c2"
    using seq_step.lease [of ?c1 "[]" r pid "[]" m "(sy_db c)(pid \<mapsto> m + 10000)"] by simp
  moreover have a2: "allocator_for pid (sy_alloc ?c2 r) = ?a" by (simp add: set_alloc_def allocator_for_def)
  have "Next_leased m (allocator_for pid (sy_alloc ?c2 r)) = (m, ?b)"
    unfolding a2 by (simp add: Next_leased_def New_allocator_def Let_def)
  then have "seq_step ?c2 ?c3" using seq_step.finish [of ?c2 "[]" r pid m "[]" m ?b] by simp
  ultimately have "seq_run c ?c3" by (meson rtranclp.rtrancl_refl rtranclp.rtrancl_into_rtrancl)
  moreover have "sy_alloc ?c3 = (sy_alloc c)(r := (sy_alloc c r)(pid \<mapsto> ?b))" by (auto simp: set_alloc_def)
  ultimately show ?thesis by (intro exI [of _ ?c3]) simp
qed

text \<open>Two replicas hand out a project's numbers out of order.

  Each replica draws from its own block. When two of them serve one project, the first's block lies below the second's: its next number comes
  after the second's first one and is smaller. From any counter with room for two leases there is such a run.\<close>

theorem replicas_break_the_order:
  assumes "db pid = Some m" and "m + 20000 \<le> max_int64"
  shows "\<exists>c. seq_run (seq_start db) c \<and> sy_issued c = [(pid, m), (pid, m + 10000), (pid, m + 1)]"
proof -
  obtain c1 where c1: "seq_run (seq_start db) c1" "sy_db c1 pid = Some (m + 10000)" "sy_rest c1 = []" "sy_issued c1 = [(pid, m)]"
    "sy_alloc c1 1 pid = None" "sy_alloc c1 0 pid = Some ((New_allocator pid 10000)\<lparr>al_end := m + 10000, al_next := m + 1\<rparr>)"
    using one_draw [of "seq_start db" pid m 0] assms by (auto simp: seq_start_def)
  obtain c2 where c2: "seq_run c1 c2" "sy_issued c2 = [(pid, m), (pid, m + 10000)]" "sy_alloc c2 0 = sy_alloc c1 0"
    using one_draw [of c1 pid "m + 10000" 1] c1(2-5) assms(2) by auto
  have "allocator_for pid (sy_alloc c2 0) = (New_allocator pid 10000)\<lparr>al_end := m + 10000, al_next := m + 1\<rparr>"
    using c1(6) c2(3) by (simp add: allocator_for_def)
  then have "\<exists>a. Next_fast (allocator_for pid (sy_alloc c2 0)) = (Some (m + 1), a)" by (simp add: Next_fast_def)
  then obtain a where "seq_step c2 ((set_alloc 0 pid a c2)\<lparr>sy_issued := sy_issued c2 @ [(pid, m + 1)]\<rparr>)"
    using seq_step.fast by blast
  with c1(1) c2(1) have "seq_run (seq_start db) ((set_alloc 0 pid a c2)\<lparr>sy_issued := sy_issued c2 @ [(pid, m + 1)]\<rparr>)"
    by (meson rtranclp.rtrancl_into_rtrancl rtranclp_trans)
  with c2(2) show ?thesis by (intro exI conjI) (assumption, simp)
qed

theorem replicas_break_the_order_witness:
  "\<exists>c. seq_run (seq_start [7 \<mapsto> 1]) c \<and> sy_issued c = [(7, 1), (7, 10001), (7, 2)]"
  using replicas_break_the_order [of "[7 \<mapsto> 1]" 7 1] by (simp add: max_int64_def)

theorem issued_numbers_are_unique_witness:
  "\<exists>c. seq_run (seq_start [7 \<mapsto> 1]) c \<and> sy_issued c = [(7, 1)] \<and> distinct (sy_issued c)"
proof -
  obtain c where c: "seq_run (seq_start [7 \<mapsto> 1]) c" "sy_issued c = [(7, 1)]"
    using one_draw [of "seq_start [7 \<mapsto> 1]" 7 1 0] by (auto simp: seq_start_def max_int64_def)
  from c issued_numbers_are_unique [OF c(1)] show ?thesis by blast
qed

theorem rows_are_numbered_in_order_witness:
  "sorted_wrt (<) (filter (\<lambda>n. n \<noteq> 0) (map e_Seq (fst (buildRows (deps.make None (Some seq_Next) 0 False False None True
     \<lparr>parse = (\<lambda>_. None), marshal = (\<lambda>_. ''''), tparse = (\<lambda>_ _. None)\<rparr> (\<lambda>b. b) (\<lambda>_. None) 5)
     \<lparr>t_TenantID = 1, t_ProjectID = 7, t_Kind = ''secret'', t_Origins = []\<rparr> (computeOverload 0)
     [empty_record\<lparr>r_Message := ''a'', r_Level := ''info''\<rparr>, empty_record\<lparr>r_Message := ''b'', r_Level := ''info''\<rparr>]
     (None, (Map.empty, [7 \<mapsto> 1]), [])))))"
  (is "sorted_wrt (<) (filter _ (map e_Seq (fst (buildRows ?D ?t ?d ?recs (None, ?st, [])))))")
proof -
  have "d_Seq ?D = Some seq_Next" "seq_ok ?st" by (auto simp: deps.defs seq_ok_def)
  moreover obtain rows lim st ws where b: "buildRows ?D ?t ?d ?recs (None, ?st, []) = (rows, lim, st, ws)" by (metis surj_pair)
  ultimately show ?thesis using rows_are_numbered_in_order [of ?D ?st ?t ?d ?recs None "[]" rows lim st ws] by simp
qed

end
