(* ===== verification/Query.thy ===== *)
theory Query
  imports GoTime Payload
begin

text \<open>
  The query builder of the logs table, \<^verbatim>\<open>back/internal/ring/query/query.go\<close> and \<^verbatim>\<open>catalog.go\<close>: the only way to read the ring. A query is its
  text and its bound arguments; the clock is an argument of the builders that read it.
\<close>

section \<open>Queries\<close>

datatype arg = ArgInt int | ArgStr string | ArgTime time | ArgFloat int

record LogQuery =
  lq_SQL :: string
  lq_Args :: "arg list"

definition empty_query :: LogQuery where "empty_query = \<lparr>lq_SQL = '''', lq_Args = []\<rparr>"

record QueryBuilder =
  qb_project :: int
  qb_tenant :: int
  qb_floor :: time
  qb_span :: duration

record Range =
  rg_From :: time
  rg_To :: time

definition zero_range :: Range where "zero_range = \<lparr>rg_From = zero_time, rg_To = zero_time\<rparr>"

definition New_query :: "int \<Rightarrow> int \<Rightarrow> QueryBuilder" where
  "New_query tenantID projectID = \<lparr>qb_project = projectID, qb_tenant = tenantID, qb_floor = zero_time, qb_span = 0\<rparr>"

definition WithFloor :: "time \<Rightarrow> duration \<Rightarrow> QueryBuilder \<Rightarrow> QueryBuilder" where
  "WithFloor clk window q = (if window > 0 then q\<lparr>qb_floor := Add clk (- window), qb_span := window\<rparr> else q)"

definition floored :: "QueryBuilder \<Rightarrow> Range \<Rightarrow> Range" where
  "floored q within =
     (if \<not> IsZero (qb_floor q) \<and> rg_From within < qb_floor q then within\<lparr>rg_From := qb_floor q\<rparr> else within)"

definition Bounded :: "Range \<Rightarrow> bool" where
  "Bounded r \<longleftrightarrow> \<not> IsZero (rg_From r) \<or> \<not> IsZero (rg_To r)"

text \<open>\<^verbatim>\<open>bind\<close>: the nth question mark becomes \<open>$n\<close>.\<close>

fun bind_loop :: "string \<Rightarrow> nat \<Rightarrow> string" where
  "bind_loop [] n = []"
| "bind_loop (c # s) n =
     (if c = CHR ''?'' then CHR ''$'' # nat_str (n + 1) @ bind_loop s (n + 1) else c # bind_loop s n)"

definition bind_query :: "string \<Rightarrow> arg list \<Rightarrow> LogQuery" where
  "bind_query sql args = \<lparr>lq_SQL = bind_loop sql 0, lq_Args = args\<rparr>"

section \<open>Filters\<close>

definition sq :: "string \<Rightarrow> string" where "sq s = [SQUOTE] @ s @ [SQUOTE]"

type_synonym conds = "string list \<times> arg list"

definition scope :: "QueryBuilder \<Rightarrow> conds" where
  "scope q = ([''tenant_id = ?'', ''project_id = ?''], [ArgInt (qb_tenant q), ArgInt (qb_project q)])"

definition add_cond :: "string \<Rightarrow> arg list \<Rightarrow> conds \<Rightarrow> conds" where
  "add_cond c as cs = (case cs of (conditions, args) \<Rightarrow> (conditions @ [c], args @ as))"

definition appendRangeFilter :: "conds \<Rightarrow> Range \<Rightarrow> conds" where
  "appendRangeFilter cs within =
     (let cs = (if \<not> IsZero (rg_From within) then add_cond ''ts >= ?'' [ArgTime (rg_From within)] cs else cs)
      in if \<not> IsZero (rg_To within) then add_cond ''ts < ?'' [ArgTime (rg_To within)] cs else cs)"

fun level_parts :: "string list \<Rightarrow> string list" where
  "level_parts [] = []"
| "level_parts (l # ls) =
     (if l = ''error'' \<or> l = ''warn'' then (''level = '' @ sq l) # level_parts ls
      else if l = ''info'' then (''level NOT IN ('' @ sq ''error'' @ '', '' @ sq ''warn'' @ '')'') # level_parts ls
      else level_parts ls)"

definition appendLevelFilter :: "conds \<Rightarrow> string list \<Rightarrow> conds" where
  "appendLevelFilter cs ls =
     (let parts = level_parts ls
      in if length parts = 0 then cs else add_cond (''('' @ join '' OR '' parts @ '')'') [] cs)"

definition appendServiceFilter :: "conds \<Rightarrow> string list \<Rightarrow> conds" where
  "appendServiceFilter cs services =
     (if length services = 0 then cs
      else add_cond (''service IN ('' @ join '', '' (replicate (length services) ''?'') @ '')'') (map ArgStr services) cs)"

definition appendSearch :: "conds \<Rightarrow> string \<Rightarrow> conds" where
  "appendSearch cs search =
     (if search \<noteq> '''' then add_cond ''message ILIKE ?'' [ArgStr (''%'' @ search @ ''%'')] cs else cs)"

definition where_clause :: "conds \<Rightarrow> string" where
  "where_clause cs = join '' AND '' (fst cs)"

section \<open>The reads\<close>

definition stream_conds :: "QueryBuilder \<Rightarrow> string list \<Rightarrow> string list \<Rightarrow> string \<Rightarrow> Range \<Rightarrow> conds" where
  "stream_conds q ls services search within =
     appendRangeFilter (appendSearch (appendServiceFilter (appendLevelFilter (scope q) ls) services) search) (floored q within)"

definition Stream :: "QueryBuilder \<Rightarrow> int \<Rightarrow> string list \<Rightarrow> string list \<Rightarrow> string \<Rightarrow> Range \<Rightarrow> LogQuery" where
  "Stream q limit ls services search within =
     (let cs = stream_conds q ls services search within
      in bind_query (''SELECT seq, ts, level, service, message FROM logs WHERE '' @ where_clause cs @
           '' ORDER BY seq DESC LIMIT '' @ itoa limit) (snd cs))"

definition WindowCount :: "QueryBuilder \<Rightarrow> Range \<Rightarrow> string list \<Rightarrow> string list \<Rightarrow> string \<Rightarrow> LogQuery" where
  "WindowCount q within ls services search =
     (let cs = stream_conds q ls services search within
      in bind_query (''SELECT count(*) FROM logs WHERE '' @ where_clause cs) (snd cs))"

definition Evidence :: "QueryBuilder \<Rightarrow> int \<Rightarrow> LogQuery" where
  "Evidence q limit =
     bind_query (''SELECT seq, ts, level, service, message FROM logs '' @ ''WHERE tenant_id = ? AND project_id = ? '' @
       ''ORDER BY level IN ('' @ sq ''error'' @ '', '' @ sq ''warn'' @ '') DESC, seq DESC LIMIT '' @ itoa limit) (snd (scope q))"

definition Services :: "QueryBuilder \<Rightarrow> time \<Rightarrow> duration \<Rightarrow> LogQuery" where
  "Services q clk window =
     (let within = (if window > 0 then zero_range\<lparr>rg_From := Add clk (- window)\<rparr> else zero_range);
          cs = appendRangeFilter (scope q) (floored q within)
      in bind_query (''SELECT service, count(*) AS lines FROM logs WHERE '' @ where_clause cs @
           '' GROUP BY service ORDER BY lines DESC'') (snd cs))"

definition volumeBuckets :: "int list" where "volumeBuckets = [60, 120, 300, 600, 900, 1800, 3600]"
definition maxVolumeBuckets :: int where "maxVolumeBuckets = 1440"

definition VolumeBucketSeconds :: "QueryBuilder \<Rightarrow> int" where
  "VolumeBucketSeconds q =
     (let span = qb_span q div second
      in case find (\<lambda>w. span \<le> w * maxVolumeBuckets) volumeBuckets of Some w \<Rightarrow> w | None \<Rightarrow> last volumeBuckets)"

definition bucket_expr :: "int \<Rightarrow> string" where
  "bucket_expr width = ''SELECT to_timestamp(floor(extract(epoch from ts) / '' @ itoa width @ '') * '' @ itoa width @ '') AS ''"

definition Volume :: "QueryBuilder \<Rightarrow> string list \<Rightarrow> string list \<Rightarrow> LogQuery" where
  "Volume q ls services =
     (let width = VolumeBucketSeconds q;
          cs = appendRangeFilter (appendServiceFilter (appendLevelFilter (scope q) ls) services) (floored q zero_range)
      in bind_query (bucket_expr width @ ''minute, level, count(*) AS lines '' @
           ''FROM logs WHERE '' @ where_clause cs @ '' GROUP BY minute, level ORDER BY minute'') (snd cs))"

definition detailBuckets :: "int list" where "detailBuckets = [1, 2, 5, 10, 15, 30, 60, 120, 300, 600, 900, 1800]"
definition maxDetailBuckets :: int where "maxDetailBuckets = 600"

text \<open>
  The division is in seconds as \<^verbatim>\<open>float64\<close>; next to the bound its spacing is finer than a nanosecond's share of the largest bucket, so
  the comparison is the exact one.
\<close>

definition DetailBucketSeconds :: "int \<Rightarrow> Range \<Rightarrow> int" where
  "DetailBucketSeconds requested within =
     (if requested \<le> 0 \<or> IsZero (rg_From within) \<or> IsZero (rg_To within) then 0
      else
        let span = Sub (rg_To within) (rg_From within)
        in if span \<le> 0 then 0
           else case find (\<lambda>w. \<not> w < requested \<and> span \<le> maxDetailBuckets * w * second) detailBuckets of
                  Some w \<Rightarrow> w | None \<Rightarrow> 0)"

definition VolumeDetail :: "QueryBuilder \<Rightarrow> int \<Rightarrow> Range \<Rightarrow> string list \<Rightarrow> string list \<Rightarrow> LogQuery" where
  "VolumeDetail q bucketSeconds within ls services =
     (let width = DetailBucketSeconds bucketSeconds within
      in if width = 0 then empty_query
         else
           let cs = appendRangeFilter (appendServiceFilter (appendLevelFilter (scope q) ls) services) (floored q within)
           in bind_query (bucket_expr width @ ''bucket, level, count(*) AS lines '' @
                ''FROM logs WHERE '' @ where_clause cs @ '' GROUP BY bucket, level ORDER BY bucket'') (snd cs))"

definition Summary :: "QueryBuilder \<Rightarrow> LogQuery" where
  "Summary q =
     bind_query (''SELECT count(*) AS lines, max(ts) AS last_ts FROM logs '' @ ''WHERE tenant_id = ? AND project_id = ?'') (snd (scope q))"

definition ErrorGroups :: "QueryBuilder \<Rightarrow> time \<Rightarrow> LogQuery" where
  "ErrorGroups q since =
     bind_query (''SELECT fingerprint, count(*) AS lines, '' @
       ''(array_agg(service ORDER BY ts DESC))[1] AS service, '' @
       ''(array_agg(message ORDER BY ts DESC))[1] AS message, max(ts) AS last_ts '' @
       ''FROM logs WHERE tenant_id = ? AND project_id = ? '' @
       ''AND level = '' @ sq ''error'' @ '' AND ts >= ? GROUP BY fingerprint'') (snd (scope q) @ [ArgTime since])"

definition EventSeen :: "QueryBuilder \<Rightarrow> string \<Rightarrow> LogQuery" where
  "EventSeen q name =
     bind_query (''SELECT count(*) AS times, min(ts) AS first_ts, max(ts) AS last_ts '' @
       ''FROM logs WHERE tenant_id = ? AND project_id = ? AND message = ?'') (snd (scope q) @ [ArgStr name])"

definition RecentEvents :: "QueryBuilder \<Rightarrow> time \<Rightarrow> duration \<Rightarrow> int \<Rightarrow> LogQuery" where
  "RecentEvents q clk window limit =
     bind_query (''SELECT message, count(*) AS times, max(ts) AS last_ts '' @
       ''FROM logs WHERE tenant_id = ? AND project_id = ? AND ts >= ? '' @
       ''GROUP BY message ORDER BY times DESC LIMIT '' @ itoa limit) (snd (scope q) @ [ArgTime (Add clk (- window))])"

section \<open>The board's reads\<close>

definition canonicalLevel :: string where
  "canonicalLevel = ''CASE WHEN level IN ('' @ sq ''error'' @ '', '' @ sq ''warn'' @ '') THEN level ELSE '' @ sq ''info'' @ '' END''"

definition since_conds :: "time \<Rightarrow> duration \<Rightarrow> conds \<Rightarrow> conds" where
  "since_conds clk window cs = (if window > 0 then add_cond ''ts >= ?'' [ArgTime (Add clk (- window))] cs else cs)"

definition Groups :: "QueryBuilder \<Rightarrow> time \<Rightarrow> duration \<Rightarrow> int \<Rightarrow> LogQuery" where
  "Groups q clk window perLevel =
     (let cs = since_conds clk window (scope q)
      in bind_query (''SELECT service, level, fingerprint, lines, sample, last_ts FROM ('' @
           ''SELECT service, '' @ canonicalLevel @ '' AS level, fingerprint, count(*) AS lines, '' @
           ''left((array_agg(message ORDER BY ts DESC))[1], 200) AS sample, max(ts) AS last_ts, '' @
           ''row_number() OVER (PARTITION BY service, '' @ canonicalLevel @ '' ORDER BY count(*) DESC) AS rn '' @
           ''FROM logs WHERE '' @ where_clause cs @ '' GROUP BY service, 2, fingerprint'' @
           '') g WHERE rn <= '' @ itoa perLevel @ '' ORDER BY lines DESC'') (snd cs))"

definition AttrPairs :: "QueryBuilder \<Rightarrow> time \<Rightarrow> duration \<Rightarrow> int \<Rightarrow> int \<Rightarrow> LogQuery" where
  "AttrPairs q clk window scan_lines perService =
     (let cs = since_conds clk window (add_cond ''attrs IS NOT NULL'' [] (scope q))
      in bind_query (''SELECT service, key, value, lines FROM ('' @
           ''SELECT service, key, value, count(*) AS lines, '' @
           ''row_number() OVER (PARTITION BY service ORDER BY count(*) DESC) AS rn FROM ('' @
           ''SELECT service, attrs FROM logs WHERE '' @ where_clause cs @ '' ORDER BY ts DESC LIMIT '' @ itoa scan_lines @
           '') recent CROSS JOIN LATERAL jsonb_each_text(attrs) AS pair(key, value) '' @
           ''WHERE length(value) <= 80 GROUP BY service, key, value'' @
           '') a WHERE rn <= '' @ itoa perService @ '' ORDER BY service, lines DESC'') (snd cs))"

record SeriesFilter =
  sf_Service :: "string option"
  sf_Level :: string
  sf_Fingerprint :: "int option"
  sf_Search :: string
  sf_Attrs :: "(string \<times> string) list"

definition attr_cond :: "(string \<times> string) list \<Rightarrow> string \<Rightarrow> conds \<Rightarrow> conds" where
  "attr_cond attrs k cs =
     add_cond ''attrs ->> ?::text = ?'' [ArgStr k, ArgStr (case map_of attrs k of Some v \<Rightarrow> v | None \<Rightarrow> '''')] cs"

definition appendSeriesFilter :: "conds \<Rightarrow> SeriesFilter \<Rightarrow> conds" where
  "appendSeriesFilter cs f =
     (let cs = (case sf_Service f of Some s \<Rightarrow> appendServiceFilter cs [s] | None \<Rightarrow> cs);
          cs = (if sf_Level f \<noteq> '''' then appendLevelFilter cs [sf_Level f] else cs);
          cs = (case sf_Fingerprint f of Some n \<Rightarrow> add_cond ''fingerprint = ?'' [ArgInt n] cs | None \<Rightarrow> cs);
          cs = appendSearch cs (sf_Search f)
      in fold (attr_cond (sf_Attrs f)) (sort (map fst (sf_Attrs f))) cs)"

definition SeriesBuckets :: "QueryBuilder \<Rightarrow> Range \<Rightarrow> int \<Rightarrow> SeriesFilter \<Rightarrow> LogQuery" where
  "SeriesBuckets q within stepSeconds f =
     (if stepSeconds \<le> 0 \<or> IsZero (rg_From within) \<or> IsZero (rg_To within) then empty_query
      else
        let cs = appendRangeFilter (appendSeriesFilter
                   (fst (scope q), [ArgFloat (UnixSeconds (rg_From within))] @ snd (scope q)) f) within
        in bind_query (''SELECT floor((extract(epoch from ts)::float8 - ?) / '' @ itoa stepSeconds @
             '')::bigint AS bucket, count(*) AS lines '' @
             ''FROM logs WHERE '' @ where_clause cs @ '' GROUP BY bucket ORDER BY bucket'') (snd cs))"

section \<open>Placeholders and arguments\<close>

text \<open>The numbers of the placeholders in a bound text, in the order they stand.\<close>

fun holes :: "string \<Rightarrow> nat list" where
  "holes [] = []"
| "holes (c # s) = (if c = CHR ''$'' then str_nat (takeWhile is_digit s) # holes s else holes s)"

definition marks :: "string \<Rightarrow> nat" where
  "marks t = count_list t CHR ''?''"

text \<open>A template has no dollar of its own and no digit right after a question mark.\<close>

fun clean :: "string \<Rightarrow> bool" where
  "clean [] = True"
| "clean (c # s) = (c \<noteq> CHR ''$'' \<and> (c = CHR ''?'' \<and> s \<noteq> [] \<longrightarrow> \<not> is_digit (hd s)) \<and> clean s)"

lemma marks_append [simp]: "marks (s @ t) = marks s + marks t"
  by (simp add: marks_def)

lemma marks_Cons: "marks (c # s) = (if c = CHR ''?'' then 1 else 0) + marks s" "marks [] = 0"
  by (simp_all add: marks_def)

lemma clean_append:
  "clean (s @ t) \<longleftrightarrow> clean s \<and> clean t \<and> (s = [] \<or> last s \<noteq> CHR ''?'' \<or> t = [] \<or> \<not> is_digit (hd t))"
  by (induction s) (auto simp: hd_append)

lemma clean_no_mark: "CHR ''?'' \<notin> set s \<Longrightarrow> CHR ''$'' \<notin> set s \<Longrightarrow> clean s"
  by (induction s) auto

lemma marks_none: "CHR ''?'' \<notin> set s \<Longrightarrow> marks s = 0"
  by (simp add: marks_def count_list_0_iff)

lemma itoa_clean [simp]: "clean (itoa n)" "marks (itoa n) = 0"
  using itoa_chars [of n] by (auto intro!: clean_no_mark marks_none simp: is_digit_byte)

lemma clean_join:
  assumes "list_all clean cs" and "clean sep" and "sep \<noteq> []" and "last sep \<noteq> CHR ''?''" and "\<not> is_digit (hd sep)"
  shows "clean (join sep cs)"
  using assms by (induction sep cs rule: join.induct) (auto simp: clean_append)

lemma marks_join: "marks sep = 0 \<Longrightarrow> marks (join sep cs) = sum_list (map marks cs)"
  by (induction sep cs rule: join.induct) (auto simp: marks_Cons)

lemma bind_loop_append: "bind_loop (s @ t) n = bind_loop s n @ bind_loop t (n + marks s)"
  by (induction s arbitrary: n) (auto simp: marks_Cons)

lemma bind_loop_none: "CHR ''?'' \<notin> set s \<Longrightarrow> bind_loop s n = s"
  by (induction s) auto

lemma holes_digits: "\<forall>c \<in> set d. is_digit c \<Longrightarrow> holes (d @ s) = holes s"
  by (induction d) (auto simp: is_digit_byte)

lemma takeWhile_digits:
  assumes "clean (CHR ''?'' # t)"
  shows "takeWhile is_digit (nat_str k @ bind_loop t n) = nat_str k"
proof -
  have "\<not> is_digit (hd (bind_loop t n))" if "t \<noteq> []" using that assms by (cases t) (auto simp: is_digit_byte)
  moreover have "bind_loop t n = [] \<longleftrightarrow> t = []" by (cases t) auto
  ultimately have "takeWhile is_digit (bind_loop t n) = []" by (cases "bind_loop t n") auto
  with nat_str_digits [of k] show ?thesis by (simp add: takeWhile_append2)
qed

lemma holes_bind: "clean t \<Longrightarrow> holes (bind_loop t n) = [Suc n..<Suc (n + marks t)]"
proof (induction t arbitrary: n)
  case (Cons c t)
  show ?case
  proof (cases "c = CHR ''?''")
    case True
    have "holes (bind_loop t (n + 1)) = [Suc (n + 1)..<Suc (n + 1 + marks t)]" using Cons by auto
    moreover have "holes (nat_str (n + 1) @ bind_loop t (n + 1)) = holes (bind_loop t (n + 1))"
      by (rule holes_digits) (use nat_str_digits in auto)
    moreover have "takeWhile is_digit (nat_str (n + 1) @ bind_loop t (n + 1)) = nat_str (n + 1)"
      by (rule takeWhile_digits) (use Cons.prems True in simp)
    moreover have "[Suc n..<Suc (n + (1 + marks t))] = (n + 1) # [Suc (n + 1)..<Suc (n + 1 + marks t)]"
      by (subst upt_rec) simp
    ultimately show ?thesis by (simp add: True marks_Cons str_nat_nat_str del: upt_Suc)
  next
    case False
    with Cons show ?thesis by (simp add: marks_Cons del: upt_Suc)
  qed
qed (simp add: marks_Cons)

section \<open>Conditions\<close>

text \<open>Conditions that start with the scope, are clean, and have one argument per mark; \<open>pre\<close> are arguments bound before them.\<close>

definition conds_ok :: "QueryBuilder \<Rightarrow> arg list \<Rightarrow> conds \<Rightarrow> bool" where
  "conds_ok q pre cs \<longleftrightarrow>
     (\<exists>more as. cs = (fst (scope q) @ more, pre @ snd (scope q) @ as) \<and> list_all clean more \<and>
        sum_list (map marks more) = length as)"

lemma conds_ok_add:
  assumes "conds_ok q pre cs" and "clean c" and "marks c = length as"
  shows "conds_ok q pre (add_cond c as cs)"
proof -
  obtain more as0 where "cs = (fst (scope q) @ more, pre @ snd (scope q) @ as0)" "list_all clean more"
    "sum_list (map marks more) = length as0"
    using assms(1) unfolding conds_ok_def by blast
  with assms(2,3) show ?thesis
    unfolding conds_ok_def by (intro exI [of _ "more @ [c]"] exI [of _ "as0 @ as"]) (simp add: add_cond_def)
qed

named_theorems conds "filters that keep the conditions well formed"

lemma conds_scope [conds]: "conds_ok q [] (scope q)" "conds_ok q pre (fst (scope q), pre @ snd (scope q))"
  by (simp_all add: conds_ok_def scope_def)

lemma conds_range [conds]: "conds_ok q pre cs \<Longrightarrow> conds_ok q pre (appendRangeFilter cs w)"
  by (simp add: appendRangeFilter_def Let_def conds_ok_add marks_Cons is_digit_byte)

lemma level_parts_text:
  "set (level_parts ls) \<subseteq> {''level = '' @ sq ''error'', ''level = '' @ sq ''warn'', ''level NOT IN ('' @ sq ''error'' @ '', '' @ sq ''warn'' @ '')''}"
  by (induction ls) auto

lemma conds_level [conds]:
  assumes "conds_ok q pre cs"
  shows "conds_ok q pre (appendLevelFilter cs ls)"
proof -
  have lits: "list_all clean (level_parts ls)" "map marks (level_parts ls) = map (\<lambda>_. 0) (level_parts ls)"
    by (induction ls) (auto simp: sq_def marks_Cons clean_append)
  then have "clean (join '' OR '' (level_parts ls))" "marks (join '' OR '' (level_parts ls)) = 0"
    by (auto intro!: clean_join simp: marks_join marks_Cons is_digit_byte)
  then have "clean (''('' @ join '' OR '' (level_parts ls) @ '')'')" "marks (''('' @ join '' OR '' (level_parts ls) @ '')'') = 0"
    by (simp_all add: clean_append marks_Cons is_digit_byte)
  with assms show ?thesis unfolding appendLevelFilter_def Let_def by (auto intro: conds_ok_add)
qed

lemma conds_service [conds]:
  assumes "conds_ok q pre cs"
  shows "conds_ok q pre (appendServiceFilter cs services)"
proof -
  let ?t = "join '', '' (replicate (length services) ''?'')"
  have "list_all clean (replicate n ''?'')" for n by (induction n) auto
  then have "clean ?t" by (intro clean_join) (simp_all add: is_digit_byte)
  moreover have "marks ?t = length services" by (simp add: marks_join marks_Cons sum_list_replicate)
  ultimately have "clean (''service IN ('' @ ?t @ '')'')" "marks (''service IN ('' @ ?t @ '')'') = length (map ArgStr services)"
    by (simp_all add: clean_append marks_Cons is_digit_byte)
  with assms show ?thesis unfolding appendServiceFilter_def by (auto intro: conds_ok_add)
qed

lemma conds_search [conds]: "conds_ok q pre cs \<Longrightarrow> conds_ok q pre (appendSearch cs s)"
  by (simp add: appendSearch_def conds_ok_add marks_Cons)

lemma conds_since [conds]: "conds_ok q pre cs \<Longrightarrow> conds_ok q pre (since_conds clk w cs)"
  by (simp add: since_conds_def conds_ok_add marks_Cons is_digit_byte)

lemma conds_attrs [conds]: "conds_ok q pre cs \<Longrightarrow> conds_ok q pre (add_cond ''attrs IS NOT NULL'' [] cs)"
  by (rule conds_ok_add) (simp_all add: marks_Cons)

lemma conds_series [conds]:
  assumes "conds_ok q pre cs"
  shows "conds_ok q pre (appendSeriesFilter cs f)"
proof -
  have attr: "conds_ok q pre (attr_cond as k cs)" if "conds_ok q pre cs" for as k cs
    unfolding attr_cond_def using that by (rule conds_ok_add) (simp_all add: marks_Cons is_digit_byte)
  have attrs: "conds_ok q pre (fold (attr_cond as) ks cs)" if "conds_ok q pre cs" for as ks cs
    using that by (induction ks arbitrary: cs) (simp_all add: attr)
  have fp: "conds_ok q pre (add_cond ''fingerprint = ?'' [ArgInt n] cs)" if "conds_ok q pre cs" for n cs
    using that by (rule conds_ok_add) (simp_all add: marks_Cons)
  show ?thesis
    unfolding appendSeriesFilter_def Let_def
    by (intro attrs conds_search; simp split: option.split; intro conjI impI allI fp conds_level conds_service assms)
qed

section \<open>Every query\<close>

definition scope_text :: string where "scope_text = ''tenant_id = ? AND project_id = ?''"

definition query_ok :: "QueryBuilder \<Rightarrow> LogQuery \<Rightarrow> bool" where
  "query_ok q lq \<longleftrightarrow> holes (lq_SQL lq) = [1..<Suc (length (lq_Args lq))] \<and>
     (lq = empty_query \<or>
      (\<exists>u v k. lq_SQL lq = u @ ''tenant_id = $'' @ nat_str (k + 1) @ '' AND project_id = $'' @ nat_str (k + 2) @ v \<and>
         lq_Args lq ! k = ArgInt (qb_tenant q) \<and> lq_Args lq ! (k + 1) = ArgInt (qb_project q)))"

lemma bound_fixed:
  assumes "clean (A @ scope_text @ B)" and "length args = marks A + 2 + marks B"
    and "args ! marks A = ArgInt (qb_tenant q)" and "args ! (marks A + 1) = ArgInt (qb_project q)"
  shows "query_ok q (bind_query (A @ scope_text @ B) args)"
proof -
  have "marks scope_text = 2" by (simp add: scope_text_def marks_Cons)
  with holes_bind [OF assms(1), of 0] assms(2)
  have "holes (bind_loop (A @ scope_text @ B) 0) = [1..<Suc (length args)]" by (simp del: upt_Suc)
  moreover have "bind_loop (A @ scope_text @ B) 0 =
      bind_loop A 0 @ ''tenant_id = $'' @ nat_str (marks A + 1) @ '' AND project_id = $'' @ nat_str (marks A + 2) @ bind_loop B (marks A + 2)"
    by (simp add: bind_loop_append scope_text_def marks_Cons)
  ultimately show ?thesis using assms(3,4) unfolding query_ok_def bind_query_def by auto
qed

lemma bound_where:
  assumes "conds_ok q pre cs" and "clean A" and "marks A = length pre" and "A = [] \<or> last A \<noteq> CHR ''?''"
    and "clean B" and "marks B = 0" and "B = [] \<or> \<not> is_digit (hd B)"
  shows "query_ok q (bind_query (A @ where_clause cs @ B) (snd cs))"
proof -
  obtain more as where cs: "cs = (fst (scope q) @ more, pre @ snd (scope q) @ as)" "list_all clean more"
    "sum_list (map marks more) = length as"
    using assms(1) unfolding conds_ok_def by blast
  let ?R = "(if more = [] then [] else '' AND '' @ join '' AND '' more) @ B"
  have "where_clause cs = scope_text @ (if more = [] then [] else '' AND '' @ join '' AND '' more)"
    by (cases more) (simp_all add: where_clause_def cs(1) scope_def scope_text_def)
  then have w: "A @ where_clause cs @ B = A @ scope_text @ ?R" by simp
  have j: "clean (join '' AND '' more)" "marks (join '' AND '' more) = length as"
    using cs(2,3) by (simp_all add: clean_join marks_join marks_Cons is_digit_byte)
  have hj: "clean ('' AND '' @ join '' AND '' more @ B)"
  proof -
    have "clean (join '' AND '' more @ B)" using j(1) assms(5,7) by (auto simp: clean_append)
    moreover have "clean '' AND ''" "last '' AND '' \<noteq> CHR ''?''" by simp_all
    ultimately show ?thesis by (simp add: clean_append)
  qed
  have st: "clean (scope_text @ ?R)"
    using hj assms(5,7) by (auto simp: scope_text_def clean_append is_digit_byte)
  have "clean (A @ scope_text @ ?R)" using assms(2,4) st by (auto simp only: clean_append scope_text_def)
  then show ?thesis unfolding w
    by (rule bound_fixed) (use assms(3,6) j(2) cs(1) in \<open>auto simp: scope_def marks_Cons nth_append\<close>)
qed

text \<open>C19. Every read of the ring is scoped to its tenant and project, and binds what it shows.

  Whatever the filters, windows and limits, each query's placeholders are 1 to the number of its arguments, in order, and its text carries the conditions on tenant
  and project with the builder's own ids behind them; the reads that refuse their range are empty.\<close>

theorem queries_are_scoped_and_bound:
  "list_all (query_ok q)
     [Stream q limit ls services search within, WindowCount q within ls services search, Evidence q limit, Services q clk window,
      Volume q ls services, VolumeDetail q bucket within ls services, Summary q, ErrorGroups q since, EventSeen q name,
      RecentEvents q clk window limit, Groups q clk window perLevel, AttrPairs q clk window scan_lines perService,
      SeriesBuckets q within step f]"
proof -
  have [simp]: "clean (bucket_expr n)" "marks (bucket_expr n) = 0" "last (bucket_expr n) \<noteq> CHR ''?''" "bucket_expr n \<noteq> []" for n
    by (simp_all add: bucket_expr_def clean_append marks_Cons is_digit_byte)
  have [simp]: "clean canonicalLevel" "marks canonicalLevel = 0" "last canonicalLevel \<noteq> CHR ''?''" "canonicalLevel \<noteq> []"
    "\<not> is_digit (hd canonicalLevel)"
    by (simp_all add: canonicalLevel_def sq_def marks_Cons is_digit_byte)
  have empty: "query_ok q empty_query" by (simp add: query_ok_def empty_query_def)
  have cs: "conds_ok q [] (stream_conds q ls services search within)"
    "conds_ok q [] (appendRangeFilter (appendServiceFilter (appendLevelFilter (scope q) ls) services) w)"
    "conds_ok q [] (appendRangeFilter (scope q) w)" "conds_ok q [] (since_conds clk window (scope q))"
    "conds_ok q [] (since_conds clk window (add_cond ''attrs IS NOT NULL'' [] (scope q)))"
    "conds_ok q [ArgFloat n] (appendRangeFilter (appendSeriesFilter (fst (scope q), [ArgFloat n] @ snd (scope q)) f) within)" for w n
    unfolding stream_conds_def by (intro conds)+
  have "query_ok q (Stream q limit ls services search within)"
    unfolding Stream_def Let_def
    by (rule bound_where [OF cs(1)]) (simp_all add: marks_Cons is_digit_byte clean_append)
  moreover have "query_ok q (WindowCount q within ls services search)"
    using bound_where [OF cs(1), of "''SELECT count(*) FROM logs WHERE ''" "[]"]
    by (simp add: WindowCount_def Let_def marks_Cons)
  moreover have "query_ok q (Services q clk window)"
    unfolding Services_def Let_def by (rule bound_where [OF cs(3)]) (simp_all add: marks_Cons is_digit_byte)
  moreover have "query_ok q (Volume q ls services)"
  proof -
    have "query_ok q (bind_query ((bucket_expr n @ ''minute, level, count(*) AS lines '' @ ''FROM logs WHERE '') @
        where_clause (appendRangeFilter (appendServiceFilter (appendLevelFilter (scope q) ls) services) w) @
        '' GROUP BY minute, level ORDER BY minute'')
        (snd (appendRangeFilter (appendServiceFilter (appendLevelFilter (scope q) ls) services) w)))" for n w
      by (rule bound_where [OF cs(2)]) (simp_all add: marks_Cons is_digit_byte clean_append)
    then show ?thesis by (simp add: Volume_def Let_def)
  qed
  moreover have "query_ok q (VolumeDetail q bucket within ls services)"
  proof -
    have "query_ok q (bind_query ((bucket_expr n @ ''bucket, level, count(*) AS lines '' @ ''FROM logs WHERE '') @
        where_clause (appendRangeFilter (appendServiceFilter (appendLevelFilter (scope q) ls) services) w) @
        '' GROUP BY bucket, level ORDER BY bucket'')
        (snd (appendRangeFilter (appendServiceFilter (appendLevelFilter (scope q) ls) services) w)))" for n w
      by (rule bound_where [OF cs(2)]) (simp_all add: marks_Cons is_digit_byte clean_append)
    with empty show ?thesis by (simp add: VolumeDetail_def Let_def)
  qed
  moreover have "query_ok q (Groups q clk window perLevel)"
  proof -
    have "query_ok q (bind_query ((''SELECT service, level, fingerprint, lines, sample, last_ts FROM ('' @
           ''SELECT service, '' @ canonicalLevel @ '' AS level, fingerprint, count(*) AS lines, '' @
           ''left((array_agg(message ORDER BY ts DESC))[1], 200) AS sample, max(ts) AS last_ts, '' @
           ''row_number() OVER (PARTITION BY service, '' @ canonicalLevel @ '' ORDER BY count(*) DESC) AS rn '' @
           ''FROM logs WHERE '') @ where_clause (since_conds clk window (scope q)) @ '' GROUP BY service, 2, fingerprint'' @
           '') g WHERE rn <= '' @ itoa perLevel @ '' ORDER BY lines DESC'') (snd (since_conds clk window (scope q))))"
      by (rule bound_where [OF cs(4)]) (simp_all add: marks_Cons is_digit_byte clean_append)
    then show ?thesis by (simp add: Groups_def Let_def)
  qed
  moreover have "query_ok q (AttrPairs q clk window scan_lines perService)"
  proof -
    let ?cs = "since_conds clk window (add_cond ''attrs IS NOT NULL'' [] (scope q))"
    have "query_ok q (bind_query ((''SELECT service, key, value, lines FROM ('' @
           ''SELECT service, key, value, count(*) AS lines, '' @
           ''row_number() OVER (PARTITION BY service ORDER BY count(*) DESC) AS rn FROM ('' @
           ''SELECT service, attrs FROM logs WHERE '') @ where_clause ?cs @ '' ORDER BY ts DESC LIMIT '' @ itoa scan_lines @
           '') recent CROSS JOIN LATERAL jsonb_each_text(attrs) AS pair(key, value) '' @
           ''WHERE length(value) <= 80 GROUP BY service, key, value'' @
           '') a WHERE rn <= '' @ itoa perService @ '' ORDER BY service, lines DESC'') (snd ?cs))"
      by (rule bound_where [OF cs(5)]) (simp_all add: marks_Cons is_digit_byte clean_append)
    then show ?thesis by (simp add: AttrPairs_def Let_def)
  qed
  moreover have "query_ok q (SeriesBuckets q within step f)"
  proof -
    let ?cs = "\<lambda>n. appendRangeFilter (appendSeriesFilter (fst (scope q), [ArgFloat n] @ snd (scope q)) f) within"
    have "query_ok q (bind_query ((''SELECT floor((extract(epoch from ts)::float8 - ?) / '' @ itoa step @
        '')::bigint AS bucket, count(*) AS lines '' @ ''FROM logs WHERE '') @ where_clause (?cs n) @
        '' GROUP BY bucket ORDER BY bucket'') (snd (?cs n)))" for n
      by (rule bound_where [OF cs(6)]) (simp_all add: marks_Cons is_digit_byte clean_append)
    with empty show ?thesis by (simp add: SeriesBuckets_def Let_def)
  qed
  moreover have "query_ok q (Evidence q limit)"
    using bound_fixed [of "''SELECT seq, ts, level, service, message FROM logs WHERE ''"
        "'' ORDER BY level IN ('' @ sq ''error'' @ '', '' @ sq ''warn'' @ '') DESC, seq DESC LIMIT '' @ itoa limit" "snd (scope q)" q]
    by (simp add: Evidence_def scope_text_def scope_def sq_def marks_Cons is_digit_byte clean_append)
  moreover have "query_ok q (Summary q)"
    using bound_fixed [of "''SELECT count(*) AS lines, max(ts) AS last_ts FROM logs WHERE ''" "[]" "snd (scope q)" q]
    by (simp add: Summary_def scope_text_def scope_def marks_Cons is_digit_byte clean_append)
  moreover have "query_ok q (ErrorGroups q since)"
    using bound_fixed [of "''SELECT fingerprint, count(*) AS lines, (array_agg(service ORDER BY ts DESC))[1] AS service, (array_agg(message ORDER BY ts DESC))[1] AS message, max(ts) AS last_ts FROM logs WHERE ''"
        "'' AND level = '' @ sq ''error'' @ '' AND ts >= ? GROUP BY fingerprint''" "snd (scope q) @ [ArgTime since]" q]
    by (simp add: ErrorGroups_def scope_text_def scope_def sq_def marks_Cons is_digit_byte clean_append)
  moreover have "query_ok q (EventSeen q name)"
    using bound_fixed [of "''SELECT count(*) AS times, min(ts) AS first_ts, max(ts) AS last_ts FROM logs WHERE ''"
        "'' AND message = ?''" "snd (scope q) @ [ArgStr name]" q]
    by (simp add: EventSeen_def scope_text_def scope_def marks_Cons is_digit_byte clean_append)
  moreover have "query_ok q (RecentEvents q clk window limit)"
    using bound_fixed [of "''SELECT message, count(*) AS times, max(ts) AS last_ts FROM logs WHERE ''"
        "'' AND ts >= ? GROUP BY message ORDER BY times DESC LIMIT '' @ itoa limit" "snd (scope q) @ [ArgTime (Add clk (- window))]" q]
    by (simp add: RecentEvents_def scope_text_def scope_def marks_Cons is_digit_byte clean_append)
  ultimately show ?thesis by (simp only: list.pred_inject simp_thms)
qed

section \<open>Request text and bucket widths\<close>

lemma add_cond_shape: "fst (add_cond c as cs) = fst cs @ [c]"
  by (simp add: add_cond_def case_prod_unfold)

lemma shape_level: "fst cs = fst cs' \<Longrightarrow> level_parts ls = level_parts ls' \<Longrightarrow> fst (appendLevelFilter cs ls) = fst (appendLevelFilter cs' ls')"
  by (simp add: appendLevelFilter_def Let_def add_cond_shape)

lemma shape_service:
  "fst cs = fst cs' \<Longrightarrow> length sv = length sv' \<Longrightarrow> fst (appendServiceFilter cs sv) = fst (appendServiceFilter cs' sv')"
  by (simp add: appendServiceFilter_def add_cond_shape)

lemma shape_search: "fst cs = fst cs' \<Longrightarrow> (s = '''') = (s' = '''') \<Longrightarrow> fst (appendSearch cs s) = fst (appendSearch cs' s')"
  by (simp add: appendSearch_def add_cond_shape)

lemma shape_range:
  "fst cs = fst cs' \<Longrightarrow> IsZero (rg_From w) = IsZero (rg_From w') \<Longrightarrow> IsZero (rg_To w) = IsZero (rg_To w') \<Longrightarrow>
     fst (appendRangeFilter cs w) = fst (appendRangeFilter cs' w')"
  by (simp add: appendRangeFilter_def Let_def add_cond_shape)

lemma shape_attrs: "fst cs = fst cs' \<Longrightarrow> length ks = length ks' \<Longrightarrow> fst (fold (attr_cond as) ks cs) = fst (fold (attr_cond as') ks' cs')"
proof (induction ks arbitrary: ks' cs cs')
  case (Cons k ks)
  then obtain k' ks1 where "ks' = k' # ks1" "length ks = length ks1" by (cases ks') auto
  with Cons.IH [of "attr_cond as k cs" "attr_cond as' k' cs'" ks1] Cons.prems(1) show ?case
    by (simp add: attr_cond_def add_cond_shape)
qed simp

lemma lq_SQL_bind [simp]: "lq_SQL (bind_query t args) = bind_loop t 0"
  by (simp add: bind_query_def)

text \<open>No text of a request reaches the query's text.

  The query of a stream read and of a board series depends on the request only through which of the three levels it names, how many services and
  attributes, whether it searches and which sides of the range are set: two requests of one shape, from any tenants and with any
  strings, have the same text, and a level that is none of the three leaves no trace.\<close>

theorem request_text_stays_out_of_sql:
  assumes "filter (\<lambda>l. l \<in> {''error'', ''warn'', ''info''}) ls = filter (\<lambda>l. l \<in> {''error'', ''warn'', ''info''}) ls'"
    and "length services = length services'" and "(search = '''') = (search' = '''')"
    and "IsZero (rg_From (floored q w)) = IsZero (rg_From (floored q' w'))" and "IsZero (rg_To w) = IsZero (rg_To w')"
    and "IsZero (rg_From w) = IsZero (rg_From w')"
    and "length attrs = length attrs'" and "(svc = None) = (svc' = None)" and "(fp = None) = (fp' = None)"
  shows "lq_SQL (Stream q limit ls services search w) = lq_SQL (Stream q' limit ls' services' search' w') \<and>
         lq_SQL (SeriesBuckets q w step \<lparr>sf_Service = svc, sf_Level = l, sf_Fingerprint = fp, sf_Search = search, sf_Attrs = attrs\<rparr>) =
         lq_SQL (SeriesBuckets q' w' step \<lparr>sf_Service = svc', sf_Level = l, sf_Fingerprint = fp', sf_Search = search', sf_Attrs = attrs'\<rparr>)"
proof -
  have parts: "level_parts xs = level_parts (filter (\<lambda>l. l \<in> {''error'', ''warn'', ''info''}) xs)" for xs
    by (induction xs) auto
  have lp: "level_parts ls = level_parts ls'" by (metis parts assms(1))
  have To: "rg_To (floored q w) = rg_To w" for q w by (simp add: floored_def)
  have "fst (stream_conds q ls services search w) = fst (stream_conds q' ls' services' search' w')"
    unfolding stream_conds_def
    by (intro shape_range shape_search shape_service shape_level lp assms(2-4)) (simp_all add: scope_def To assms(5))
  then have stream: "lq_SQL (Stream q limit ls services search w) = lq_SQL (Stream q' limit ls' services' search' w')"
    by (simp add: Stream_def Let_def where_clause_def)
  let ?f = "\<lparr>sf_Service = svc, sf_Level = l, sf_Fingerprint = fp, sf_Search = search, sf_Attrs = attrs\<rparr>"
  let ?f' = "\<lparr>sf_Service = svc', sf_Level = l, sf_Fingerprint = fp', sf_Search = search', sf_Attrs = attrs'\<rparr>"
  have "fst (appendSeriesFilter cs ?f) = fst (appendSeriesFilter cs' ?f')" if cs: "fst cs = fst cs'" for cs cs'
  proof -
    have "fst (case svc of Some s \<Rightarrow> appendServiceFilter cs [s] | None \<Rightarrow> cs) =
        fst (case svc' of Some s \<Rightarrow> appendServiceFilter cs' [s] | None \<Rightarrow> cs')"
      using cs assms(8) by (auto split: option.split intro: shape_service)
    then show ?thesis
      unfolding appendSeriesFilter_def Let_def
      by (intro shape_attrs shape_search) (use assms(3,7,9) in \<open>auto split: option.split simp: add_cond_shape intro!: shape_level\<close>)
  qed
  then have "fst (appendRangeFilter (appendSeriesFilter (fst (scope q), [ArgFloat n] @ snd (scope q)) ?f) w) =
      fst (appendRangeFilter (appendSeriesFilter (fst (scope q'), [ArgFloat n'] @ snd (scope q')) ?f') w')" for n n'
    by (intro shape_range assms(5,6)) (simp add: scope_def)
  then have wc: "where_clause (appendRangeFilter (appendSeriesFilter (fst (scope q), [ArgFloat n] @ snd (scope q)) ?f) w) =
      where_clause (appendRangeFilter (appendSeriesFilter (fst (scope q'), [ArgFloat n'] @ snd (scope q')) ?f') w')" for n n'
    unfolding where_clause_def by metis
  have "lq_SQL (SeriesBuckets q w step ?f) = lq_SQL (SeriesBuckets q' w' step ?f')"
  proof (cases "step \<le> 0 \<or> IsZero (rg_From w) \<or> IsZero (rg_To w)")
    case True
    with assms(5,6) show ?thesis by (simp add: SeriesBuckets_def)
  next
    case False
    then have "\<not> (step \<le> 0 \<or> IsZero (rg_From w') \<or> IsZero (rg_To w'))" using assms(5,6) by simp
    with False show ?thesis
      by (simp only: SeriesBuckets_def Let_def if_False lq_SQL_bind wc [of _ "UnixSeconds (rg_From w')"])
  qed
  with stream show ?thesis ..
qed

text \<open>A detail read never groups into more than 600 buckets, and is never coarser than it must be.

  The width chosen is zero or one of the offered widths, at least the one asked for, keeps the span within 600 buckets, and is the first that does;
  it is zero only when no range is given or no offered width fits.\<close>

theorem detail_width_is_the_first_that_fits:
  "(DetailBucketSeconds n r = 0 \<or>
     DetailBucketSeconds n r \<in> set detailBuckets \<and> n \<le> DetailBucketSeconds n r \<and> Sub (rg_To r) (rg_From r) \<le> 600 * DetailBucketSeconds n r * second) \<and>
   (0 < n \<and> \<not> IsZero (rg_From r) \<and> \<not> IsZero (rg_To r) \<and> 0 < Sub (rg_To r) (rg_From r) \<and>
      w \<in> set detailBuckets \<and> n \<le> w \<and> Sub (rg_To r) (rg_From r) \<le> 600 * w * second \<longrightarrow>
    DetailBucketSeconds n r \<noteq> 0 \<and> DetailBucketSeconds n r \<le> w)"
proof -
  have sorted: "sorted detailBuckets" "0 \<notin> set detailBuckets" by (simp_all add: detailBuckets_def)
  have first: "sorted ws \<Longrightarrow> w \<in> set ws \<Longrightarrow> P w \<Longrightarrow> \<exists>v. find P ws = Some v \<and> v \<le> w" for P and ws :: "int list"
    by (induction ws) auto
  have found: "find P ws = Some v \<Longrightarrow> v \<in> set ws \<and> P v" for P v and ws :: "int list"
    by (induction ws) (auto split: if_splits)
  let ?P = "\<lambda>w. \<not> w < n \<and> Sub (rg_To r) (rg_From r) \<le> maxDetailBuckets * w * second"
  have part1: "DetailBucketSeconds n r = 0 \<or> find ?P detailBuckets = Some (DetailBucketSeconds n r)"
    by (auto simp: DetailBucketSeconds_def Let_def split: option.split)
  have part2: "DetailBucketSeconds n r \<noteq> 0 \<and> DetailBucketSeconds n r \<le> w"
    if as: "0 < n" "\<not> IsZero (rg_From r)" "\<not> IsZero (rg_To r)" "0 < Sub (rg_To r) (rg_From r)" "w \<in> set detailBuckets" "n \<le> w"
      "Sub (rg_To r) (rg_From r) \<le> 600 * w * second"
  proof -
    have "?P w" using as by (simp add: maxDetailBuckets_def)
    then obtain v where v: "find ?P detailBuckets = Some v" "v \<le> w" using first [OF sorted(1) as(5), of ?P] by blast
    then have "DetailBucketSeconds n r = v" using as(1-4) by (simp add: DetailBucketSeconds_def Let_def)
    moreover have "v \<noteq> 0" using found [OF v(1)] sorted(2) by metis
    ultimately show ?thesis using v(2) by simp
  qed
  have "DetailBucketSeconds n r = 0 \<or>
     DetailBucketSeconds n r \<in> set detailBuckets \<and> n \<le> DetailBucketSeconds n r \<and>
     Sub (rg_To r) (rg_From r) \<le> 600 * DetailBucketSeconds n r * second"
    using part1 found [of ?P detailBuckets "DetailBucketSeconds n r"] unfolding maxDetailBuckets_def not_less by blast
  with part2 show ?thesis by blast
qed

theorem detail_width_is_the_first_that_fits_witness:
  "DetailBucketSeconds 5 \<lparr>rg_From = 1, rg_To = 1 + 3600 * second\<rparr> \<noteq> 0 \<and> DetailBucketSeconds 5 \<lparr>rg_From = 1, rg_To = 1 + 3600 * second\<rparr> \<le> 10"
  using detail_width_is_the_first_that_fits [of 5 "\<lparr>rg_From = 1, rg_To = 1 + 3600 * second\<rparr>" 10]
  by (simp add: detailBuckets_def IsZero_def zero_time_def Sub_def second_def max_int64_def min_int64_def)

theorem request_text_stays_out_of_sql_witness:
  "lq_SQL (Stream (New_query 1 2) 50 [''error''] [''api''] ''x'' zero_range) =
   lq_SQL (Stream (New_query 7 8) 50 [''error'', ''or 1=1''] [''); DROP TABLE logs''] ''y?'' zero_range)"
  by (rule request_text_stays_out_of_sql [THEN conjunct1, of _ _ _ _ _ _ _ _ _ _ "[]" "[]" None None None None])
    (simp_all add: floored_def New_query_def zero_range_def)

end
