(* ===== verification/ErrorLog.thy ===== *)
theory ErrorLog
  imports Incident Utf8
begin

text \<open>
  The error-log scanner, \<^verbatim>\<open>back/internal/detect/errorlog/errorlog.go\<close>: which error fingerprints alert which
  channels of a project, and the memory that keeps a persisting error from alerting every tick. The ring's
  aggregate (\<^verbatim>\<open>errorGroups\<close>) is the parameter \<open>eg tenant project since\<close>, \<open>None\<close> when the query fails; Go's
  map iteration orders are the parameters \<open>word\<close> (repeat windows) and \<open>pord\<close> (projects).
\<close>

definition NewErrorCooldown :: duration where "NewErrorCooldown = 30 * minute"
definition RepeatThreshold :: u64 where "RepeatThreshold = 2"
definition Lookback :: duration where "Lookback = 2 * minute"
definition maxTitle :: nat where "maxTitle = 120"

record Group =
  g_Fingerprint :: u64
  g_Count :: u64
  g_Service :: string
  g_Message :: string
  g_LastTS :: time

section \<open>The decisions\<close>

definition ShouldFireNew :: "Group \<Rightarrow> time option \<Rightarrow> time \<Rightarrow> bool" where
  "ShouldFireNew g lastAlerted t =
     (if Sub t (g_LastTS g) > Lookback then False
      else case lastAlerted of None \<Rightarrow> True | Some l \<Rightarrow> Sub t l \<ge> NewErrorCooldown)"

definition ShouldFireRepeat :: "Group \<Rightarrow> time option \<Rightarrow> duration \<Rightarrow> time \<Rightarrow> bool" where
  "ShouldFireRepeat g lastAlerted window t =
     (if g_Count g < RepeatThreshold then False
      else case lastAlerted of None \<Rightarrow> True | Some l \<Rightarrow> Sub t l \<ge> window)"

section \<open>The titles\<close>

definition ellipsis :: string where
  "ellipsis = [CHR 0xE2, CHR 0x80, CHR 0xA6]"

definition truncate_runes :: "string \<Rightarrow> nat \<Rightarrow> string" where
  "truncate_runes s n =
     (if length s \<le> n then s
      else
        let r = runes s
        in if length r \<le> n then s else string_of_runes (take n r) @ ellipsis)"

definition NewErrorTitle :: "Group \<Rightarrow> string" where
  "NewErrorTitle g =
     (let msg = truncate_runes (g_Message g) maxTitle
      in if g_Service g \<noteq> '''' then ''Error in '' @ g_Service g @ '': '' @ msg else ''Error: '' @ msg)"

definition times_sign :: string where
  "times_sign = [CHR 0xC3, CHR 0x97]"

definition RepeatTitle :: "Group \<Rightarrow> int \<Rightarrow> string" where
  "RepeatTitle g windowMin =
     ''Repeating error ('' @ nat_str (unat (g_Count g)) @ times_sign @ '' in '' @ itoa windowMin @ '' min): '' @
     truncate_runes (g_Message g) maxTitle"

section \<open>Queueing one alert\<close>

text \<open>\<^verbatim>\<open>%x\<close> of an unsigned number.\<close>

fun hex_str :: "nat \<Rightarrow> string" where
  "hex_str n = (if n < 16 then [''0123456789abcdef'' ! n]
                else hex_str (n div 16) @ [''0123456789abcdef'' ! (n mod 16)])"

declare hex_str.simps [simp del]

definition errlog_key :: "int \<Rightarrow> u64 \<Rightarrow> string \<Rightarrow> time \<Rightarrow> string" where
  "errlog_key ch fp kind t =
     ''errlog:'' @ itoa ch @ '':'' @ nat_str (unat fp) @ '':'' @ kind @ '':'' @ itoa (UnixSeconds t div 60)"

definition alert_fields :: "Group \<Rightarrow> int \<Rightarrow> field list" where
  "alert_fields g windowMin =
     (if g_Service g \<noteq> '''' then [\<lparr>f_Label = ''Service'', f_Value = g_Service g, f_Mono = False\<rparr>] else []) @
     (if windowMin > 0 then
        [\<lparr>f_Label = ''Occurrences'', f_Value = nat_str (unat (g_Count g)) @ '' in '' @ itoa windowMin @ '' min'',
          f_Mono = False\<rparr>] else []) @
     (if \<not> IsZero (g_LastTS g) then
        [\<lparr>f_Label = ''Last seen'', f_Value = fmt_stamp (g_LastTS g) @ '' UTC'', f_Mono = False\<rparr>] else []) @
     [\<lparr>f_Label = ''Fingerprint'', f_Value = hex_str (unat (g_Fingerprint g)), f_Mono = True\<rparr>]"

definition alert_body :: "Group \<Rightarrow> string \<Rightarrow> int \<Rightarrow> jobj" where
  "alert_body g title windowMin =
     [(''title'', JStr title), (''status'', JStr ''check''),
      (''fields'', JArr (map json_of_field (alert_fields g windowMin)))] @
     (if g_Message g \<noteq> ''''
      then [(''lines'', JArr [JStr (g_Message g)]), (''lines_label'', JStr ''The error'')] else [])"

definition enqueue :: "env \<Rightarrow> int \<Rightarrow> int \<Rightarrow> Group \<Rightarrow> string \<Rightarrow> string \<Rightarrow> int \<Rightarrow> db \<Rightarrow> db" where
  "enqueue e tenantID channelID g kind title windowMin d =
     (case q_EnqueueDelivery e d tenantID None channelID
             (errlog_key channelID (g_Fingerprint g) kind (now e)) ''ticket'' (alert_body g title windowMin) of
        Some d' \<Rightarrow> d'
      | None \<Rightarrow> d)"

section \<open>One project\<close>

record subscription =
  sub_channelID :: int
  sub_settings :: Settings

type_synonym last_alerts = "u64 \<Rightarrow> string \<Rightarrow> time option"
type_synonym error_groups = "int \<Rightarrow> int \<Rightarrow> time \<Rightarrow> Group list option"

definition lastFor :: "(int \<times> string \<times> time) list \<Rightarrow> last_alerts" where
  "lastFor stateRows fp kind =
     map_of (rev (map (\<lambda>(f, k, t). ((f, k), t)) stateRows)) (sint fp, kind)"

definition unmuted :: "env \<Rightarrow> db \<Rightarrow> int \<Rightarrow> int \<Rightarrow> subscription list \<Rightarrow> subscription list" where
  "unmuted e d tenantID projectID subs =
     (case q_ListChannelsByProject e d projectID of
        Row chans \<Rightarrow>
          (let muted = MutedByPlan e d tenantID chans
           in filter (\<lambda>sub. sub_channelID sub \<notin> set muted) subs)
      | _ \<Rightarrow> subs)"

fun enqueue_subs ::
  "env \<Rightarrow> int \<Rightarrow> (Settings \<Rightarrow> bool) \<Rightarrow> Group \<Rightarrow> string \<Rightarrow> string \<Rightarrow> int \<Rightarrow> subscription list \<Rightarrow> db \<Rightarrow> db" where
  "enqueue_subs e t wants g kind title w [] d = d"
| "enqueue_subs e t wants g kind title w (sub # subs) d =
     enqueue_subs e t wants g kind title w subs
       (if wants (sub_settings sub) then enqueue e t (sub_channelID sub) g kind title w d else d)"

fun new_groups :: "env \<Rightarrow> int \<Rightarrow> int \<Rightarrow> last_alerts \<Rightarrow> subscription list \<Rightarrow> Group list \<Rightarrow> db \<Rightarrow> db" where
  "new_groups e t pid mem subs [] d = d"
| "new_groups e t pid mem subs (g # gs) d =
     new_groups e t pid mem subs gs
       (if \<not> ShouldFireNew g (mem (g_Fingerprint g) ''error'') (now e) then d
        else q_UpsertErrorAlertState e
               (enqueue_subs e t ErrorLogs g ''error'' (NewErrorTitle g) 0 subs d)
               t pid (sint (g_Fingerprint g)) ''error'')"

definition wants_window :: "int \<Rightarrow> Settings \<Rightarrow> bool" where
  "wants_window w s \<longleftrightarrow> RepeatingErrorLogs s \<and> RepeatWindowMin s = w"

fun repeat_groups ::
  "env \<Rightarrow> int \<Rightarrow> int \<Rightarrow> last_alerts \<Rightarrow> subscription list \<Rightarrow> int \<Rightarrow> Group list \<Rightarrow> db \<Rightarrow> db" where
  "repeat_groups e t pid mem subs w [] d = d"
| "repeat_groups e t pid mem subs w (g # gs) d =
     repeat_groups e t pid mem subs w gs
       (if \<not> ShouldFireRepeat g (mem (g_Fingerprint g) ''repeat'') (w * minute) (now e) then d
        else q_UpsertErrorAlertState e
               (enqueue_subs e t (wants_window w) g ''repeat'' (RepeatTitle g w) w subs d)
               t pid (sint (g_Fingerprint g)) ''repeat'')"

text \<open>An error ends the pass and is returned; what was written before it stays.\<close>

datatype scan_error = EAlertState | EGroups time

fun repeat_windows ::
  "env \<Rightarrow> error_groups \<Rightarrow> int \<Rightarrow> int \<Rightarrow> last_alerts \<Rightarrow> subscription list \<Rightarrow> int list \<Rightarrow> db \<Rightarrow> scan_error option \<times> db" where
  "repeat_windows e eg t pid mem subs [] d = (None, d)"
| "repeat_windows e eg t pid mem subs (w # ws) d =
     (case eg t pid (Add (now e) (- (w * minute))) of
        None \<Rightarrow> (Some (EGroups (Add (now e) (- (w * minute)))), d)
      | Some gs \<Rightarrow> repeat_windows e eg t pid mem subs ws (repeat_groups e t pid mem subs w gs d))"

definition windows :: "subscription list \<Rightarrow> int list" where
  "windows subs = remdups (map (\<lambda>s. RepeatWindowMin (sub_settings s))
                    (filter (\<lambda>s. RepeatingErrorLogs (sub_settings s)) subs))"

definition needNew :: "subscription list \<Rightarrow> bool" where
  "needNew subs \<longleftrightarrow> (\<exists>s \<in> set subs. ErrorLogs (sub_settings s))"

definition scanProject ::
  "env \<Rightarrow> error_groups \<Rightarrow> (int list \<Rightarrow> int list) \<Rightarrow> int \<Rightarrow> int \<Rightarrow> subscription list \<Rightarrow> db \<Rightarrow> scan_error option \<times> db" where
  "scanProject e eg word t pid subs d =
     (let subs = unmuted e d t pid subs in
      case q_ListErrorAlertState e d t pid of
        Row stateRows \<Rightarrow>
          (let mem = lastFor stateRows;
               passed =
                 (if needNew subs then
                    (case eg t pid (Add (now e) (- Lookback)) of
                       None \<Rightarrow> Inl (EGroups (Add (now e) (- Lookback)))
                     | Some gs \<Rightarrow> Inr (new_groups e t pid mem subs gs d))
                  else Inr d)
           in case passed of
                Inl err \<Rightarrow> (Some err, d)
              | Inr d \<Rightarrow> repeat_windows e eg t pid mem subs (word (windows subs)) d)
      | _ \<Rightarrow> (Some EAlertState, d))"

section \<open>Every project\<close>

definition subscriptions :: "env \<Rightarrow> channel_row list \<Rightarrow> int \<times> int \<Rightarrow> subscription list" where
  "subscriptions e rows key =
     map (\<lambda>c. \<lparr>sub_channelID = c_id c, sub_settings = Resolve (unmarshal e) (c_notify c)\<rparr>)
       (filter (\<lambda>c. (c_tenant c, c_project c) = key) rows)"

fun scan_projects ::
  "env \<Rightarrow> error_groups \<Rightarrow> (int list \<Rightarrow> int list) \<Rightarrow> channel_row list \<Rightarrow> (int \<times> int) list \<Rightarrow> db \<Rightarrow> db" where
  "scan_projects e eg word rows [] d = d"
| "scan_projects e eg word rows ((t, pid) # keys) d =
     scan_projects e eg word rows keys (snd (scanProject e eg word t pid (subscriptions e rows (t, pid)) d))"

definition errorlog_Tick ::
  "env \<Rightarrow> (string \<Rightarrow> string \<Rightarrow> bool) \<Rightarrow> error_groups \<Rightarrow> (int list \<Rightarrow> int list) \<Rightarrow>
   ((int \<times> int) list \<Rightarrow> (int \<times> int) list) \<Rightarrow> db \<Rightarrow> bool \<times> db" where
  "errorlog_Tick e axis eg word pord d =
     (case q_ListErrorSubscribedChannels e d axis of
        Row rows \<Rightarrow>
          (True, scan_projects e eg word rows (pord (remdups (map (\<lambda>c. (c_tenant c, c_project c)) rows))) d)
      | _ \<Rightarrow> (False, d))"

end
