(* ===== verification/Faults.thy ===== *)
theory Faults
  imports Store
begin

text \<open>
  The healthy environment: no database call of an operation fails, so every query answers with its rows.
\<close>

definition no_faults :: "env \<Rightarrow> bool" where
  "no_faults e \<longleftrightarrow> (\<forall>q k. \<not> fl e q k)"

lemma no_faultsD [simp]: "no_faults e \<Longrightarrow> \<not> fl e q k"
  by (simp add: no_faults_def)

lemma healthy_reads:
  assumes "no_faults e"
  shows "q_GetOpenIncidentByFingerprint e d t f = one_row (filter (open_fp t f) (incidents d))"
    and "q_ListErrorAlertState e d t pid \<noteq> Fault" and "q_ListChannelsByProject e d pid \<noteq> Fault"
  using assms
  by (simp_all add: q_GetOpenIncidentByFingerprint_def q_ListErrorAlertState_def q_ListChannelsByProject_def)

end
