(* ===== verification/ErrorLogFacts.thy ===== *)
theory ErrorLogFacts
  imports ErrorLog IncidentLife Faults
begin

text \<open>
  What one scan queues and remembers, what a truncated title keeps, and the interference between
  repeat windows. The keys of the queue and the lookups of the scanner's memory are followed through
  the loops; a run is a fold of scans over the environments of its ticks.
\<close>

section \<open>The queue\<close>

abbreviation keys :: "db \<Rightarrow> string set" where
  "keys d \<equiv> q_key ` set (queue d)"

abbreviation to_channel :: "int \<Rightarrow> db \<Rightarrow> queue_row list" where
  "to_channel ch d \<equiv> filter (\<lambda>r. q_channel r = ch) (queue d)"

lemma keys_enqueue:
  "no_faults e \<Longrightarrow> keys (enqueue e t ch g kind title w d) =
     insert (errlog_key ch (g_Fingerprint g) kind (now e)) (keys d)"
  by (auto simp: enqueue_def q_EnqueueDelivery_def q_EnqueueDeliveryAt_def queue_has_def)
    (metis image_eqI)

lemma keys_upsert [simp]: "queue (q_UpsertErrorAlertState e d t pid fp kind) = queue d"
  by (simp add: q_UpsertErrorAlertState_def)

lemma enqueue_other [simp]:
  "ch \<noteq> b \<Longrightarrow> to_channel b (enqueue e t ch g kind title w d) = to_channel b d"
  by (auto simp: enqueue_def q_EnqueueDelivery_def q_EnqueueDeliveryAt_def split: option.split)

lemma enqueue_alert_state [simp]: "alert_state (enqueue e t ch g kind title w d) = alert_state d"
  by (auto simp: enqueue_def q_EnqueueDelivery_def q_EnqueueDeliveryAt_def split: option.split)

lemma keys_enqueue_subs:
  "no_faults e \<Longrightarrow> keys (enqueue_subs e t wants g kind title w subs d) =
     keys d \<union> {errlog_key (sub_channelID s) (g_Fingerprint g) kind (now e) | s. s \<in> set subs \<and> wants (sub_settings s)}"
  by (induction subs arbitrary: d) (auto simp: keys_enqueue)

lemma enqueue_subs_other:
  "\<forall>s \<in> set subs. wants (sub_settings s) \<longrightarrow> sub_channelID s \<noteq> b \<Longrightarrow>
   to_channel b (enqueue_subs e t wants g kind title w subs d) = to_channel b d"
  by (induction subs arbitrary: d) auto

lemma enqueue_subs_alert_state [simp]:
  "alert_state (enqueue_subs e t wants g kind title w subs d) = alert_state d"
  by (induction subs arbitrary: d) auto

lemma keys_new_groups:
  "no_faults e \<Longrightarrow> keys (new_groups e t pid mem subs gs d) =
     keys d \<union> {errlog_key (sub_channelID s) (g_Fingerprint g) ''error'' (now e) | s g.
       s \<in> set subs \<and> ErrorLogs (sub_settings s) \<and> g \<in> set gs \<and>
       ShouldFireNew g (mem (g_Fingerprint g) ''error'') (now e)}"
  by (induction gs arbitrary: d) (auto simp: keys_enqueue_subs)

lemma keys_repeat_groups:
  "no_faults e \<Longrightarrow> keys (repeat_groups e t pid mem subs w gs d) =
     keys d \<union> {errlog_key (sub_channelID s) (g_Fingerprint g) ''repeat'' (now e) | s g.
       s \<in> set subs \<and> wants_window w (sub_settings s) \<and> g \<in> set gs \<and>
       ShouldFireRepeat g (mem (g_Fingerprint g) ''repeat'') (w * minute) (now e)}"
  by (induction gs arbitrary: d) (auto simp: keys_enqueue_subs)

text \<open>The aggregate of the window \<open>w\<close> at the time of the scan.\<close>

abbreviation window_since :: "env \<Rightarrow> int \<Rightarrow> time" where
  "window_since e w \<equiv> Add (now e) (- (w * minute))"

lemma keys_repeat_windows:
  assumes "no_faults e" and "\<And>since. eg t pid since = Some (G since)"
  shows "fst (repeat_windows e eg t pid mem subs ws d) = None \<and>
    keys (snd (repeat_windows e eg t pid mem subs ws d)) =
     keys d \<union> {errlog_key (sub_channelID s) (g_Fingerprint g) ''repeat'' (now e) | s g w.
       w \<in> set ws \<and> s \<in> set subs \<and> wants_window w (sub_settings s) \<and> g \<in> set (G (window_since e w)) \<and>
       ShouldFireRepeat g (mem (g_Fingerprint g) ''repeat'') (w * minute) (now e)}"
proof (induction ws arbitrary: d)
  case (Cons w ws)
  then show ?case by (auto simp: assms(2) keys_repeat_groups [OF assms(1)])
qed simp

section \<open>The memory\<close>

definition memory_ok :: "db \<Rightarrow> bool" where
  "memory_ok d \<longleftrightarrow> distinct (map fst (alert_state d))"

definition remembered :: "db \<Rightarrow> int \<Rightarrow> int \<Rightarrow> last_alerts" where
  "remembered d t pid fp kind = map_of (alert_state d) (t, pid, sint fp, kind)"

lemma map_of_rev_distinct: "distinct (map fst xs) \<Longrightarrow> map_of (rev xs) = map_of xs"
  by (rule ext, rule option.expand) (auto simp: map_of_eq_None_iff dom_map_of_conv_image_fst [symmetric]
      map_of_eq_Some_iff distinct_rev rev_map [symmetric] dest!: map_of_SomeD)

lemma lastFor_remembered:
  assumes "memory_ok d" and "q_ListErrorAlertState e d t pid = Row rows"
  shows "lastFor rows fp kind = remembered d t pid fp kind"
proof -
  let ?own = "filter (\<lambda>((t', p', fp, kind), mem). t' = t \<and> p' = pid) (alert_state d)"
  let ?rows = "map (\<lambda>((t', p', fp, kind), mem). ((fp, kind), mem)) ?own"
  have rows: "map (\<lambda>(f, k, t). ((f, k), t)) rows = ?rows"
    using assms(2) by (auto simp: q_ListErrorAlertState_def split: if_splits)
  have gen: "map_of (map (\<lambda>((t', p', fp, kind), mem). ((fp, kind), mem))
      (filter (\<lambda>((t', p', fp, kind), mem). t' = t \<and> p' = pid) xs)) (f, k) = map_of xs (t, pid, f, k)"
    for xs :: "((int \<times> int \<times> int \<times> string) \<times> time) list" and f k
    by (induction xs) auto
  have "distinct (map fst (map (\<lambda>((t', p', fp, kind), mem). ((fp, kind), mem))
      (filter (\<lambda>((t', p', fp, kind), mem). t' = t \<and> p' = pid) xs)))"
    if "distinct (map fst xs)" for xs :: "((int \<times> int \<times> int \<times> string) \<times> time) list"
    using that by (induction xs) force+
  then have "distinct (map fst ?rows)" using assms(1) by (simp add: memory_ok_def)
  then have "map_of (rev ?rows) = map_of ?rows" by (rule map_of_rev_distinct)
  then show ?thesis unfolding lastFor_def rows gen remembered_def by (simp only: gen)
qed

lemma memory_ok_upsert [inv_intros]: "memory_ok d \<Longrightarrow> memory_ok (q_UpsertErrorAlertState e d t pid fp kind)"
  by (simp add: memory_ok_def q_UpsertErrorAlertState_def distinct_update)

lemma memory_enqueue_subs [simp]:
  "memory_ok (enqueue_subs e t wants g kind title w subs d) = memory_ok d"
  by (simp add: memory_ok_def)

lemma memory_new_groups [inv_intros]: "memory_ok d \<Longrightarrow> memory_ok (new_groups e t pid mem subs gs d)"
  by (induction gs arbitrary: d) (auto simp: memory_ok_upsert)

lemma memory_repeat_groups [inv_intros]:
  "memory_ok d \<Longrightarrow> memory_ok (repeat_groups e t pid mem subs w gs d)"
  by (induction gs arbitrary: d) (auto simp: memory_ok_upsert)

lemma memory_repeat_windows [inv_intros]:
  "memory_ok d \<Longrightarrow> memory_ok (snd (repeat_windows e eg t pid mem subs ws d))"
  by (induction ws arbitrary: d) (auto simp: memory_repeat_groups split: option.split)

lemma memory_scanProject [inv_intros]:
  "memory_ok d \<Longrightarrow> memory_ok (snd (scanProject e eg word t pid subs d))"
  by (auto simp: scanProject_def Let_def memory_new_groups memory_repeat_windows split: res.split option.split)

text \<open>What each loop leaves in the memory.\<close>

lemma remembered_upsert:
  "no_faults e \<Longrightarrow> remembered (q_UpsertErrorAlertState e d t pid (sint fp) kind) t pid f k =
     (if f = fp \<and> k = kind then Some (now e) else remembered d t pid f k)"
  by (auto simp: remembered_def q_UpsertErrorAlertState_def update_conv' dest: signed_word_eqI)

lemma remembered_subs [simp]:
  "remembered (enqueue_subs e t wants g kind title w subs d) = remembered d"
  by (intro ext) (simp add: remembered_def)

lemma remembered_repeat_groups:
  "no_faults e \<Longrightarrow> remembered (repeat_groups e t pid mem subs w gs d) t pid fp ''repeat'' =
     (if \<exists>g \<in> set gs. g_Fingerprint g = fp \<and> ShouldFireRepeat g (mem fp ''repeat'') (w * minute) (now e)
      then Some (now e) else remembered d t pid fp ''repeat'')"
  by (induction gs arbitrary: d) (auto simp: remembered_upsert)

lemma remembered_new_groups:
  "no_faults e \<Longrightarrow> remembered (new_groups e t pid mem subs gs d) t pid fp ''repeat'' =
     remembered d t pid fp ''repeat''"
  by (induction gs arbitrary: d) (auto simp: remembered_upsert)

lemma remembered_repeat_windows:
  assumes "no_faults e" and "\<And>since. eg t pid since = Some (G since)"
  shows "remembered (snd (repeat_windows e eg t pid mem subs ws d)) t pid fp ''repeat'' =
     (if \<exists>w \<in> set ws. \<exists>g \<in> set (G (window_since e w)). g_Fingerprint g = fp \<and>
           ShouldFireRepeat g (mem fp ''repeat'') (w * minute) (now e)
      then Some (now e) else remembered d t pid fp ''repeat'')"
proof (induction ws arbitrary: d)
  case (Cons w ws)
  then show ?case by (auto simp: assms(2) remembered_repeat_groups [OF assms(1)])
qed simp



section \<open>Properties\<close>

lemma ellipsis_rune: "ellipsis = string_of_runes [0x2026]"
proof -
  have "map (char_of :: nat \<Rightarrow> char) [0xE2, 0x80, 0xA6] = ellipsis"
    by (simp add: ellipsis_def char_of_def bit_Suc_0_iff)
  then show ?thesis by (simp add: string_of_runes_def EncodeRune_def scalar_def)
qed

lemma string_of_runes_append: "string_of_runes (a @ b) = string_of_runes a @ string_of_runes b"
  by (simp add: string_of_runes_def)

text \<open>C35. A title is cut between characters: a message of at most n runes is kept byte for byte, and a
  longer one decodes to exactly its first n runes and an ellipsis, whatever bytes it holds.\<close>

theorem truncate_cuts_between_runes:
  "if length (runes s) \<le> n then truncate_runes s n = s
   else runes (truncate_runes s n) = take n (runes s) @ [0x2026]"
proof (cases "length (runes s) \<le> n")
  case False
  then have "\<not> length s \<le> n" using length_runes [of s] by linarith
  then have "truncate_runes s n = string_of_runes (take n (runes s) @ [0x2026])"
    using False by (simp add: truncate_runes_def Let_def ellipsis_rune string_of_runes_append)
  moreover have "\<forall>r \<in> set (take n (runes s) @ [0x2026]). scalar r"
    using runes_scalar [of s] by (auto simp: scalar_def dest: in_set_takeD)
  ultimately show ?thesis using False runes_of_string by simp
qed (simp add: truncate_runes_def Let_def)

text \<open>One scan of a project queues exactly the alerts its channels asked for. With the database and the
  ring answering, the queue afterwards holds the keys it held before and one key per unmuted
  channel and firing group: the groups of the two-minute lookback for the channels on the every-error
  axis, and, for each repeat window some channel asked for, the groups of that window for the
  channels with that window.\<close>

theorem scan_queues_exactly:
  assumes "no_faults e" and "\<And>since. eg t pid since = Some (G since)"
    and "\<And>ws. set (word ws) = set ws"
    and "q_ListErrorAlertState e d t pid = Row rows"
  shows "fst (scanProject e eg word t pid subs d) = None \<and>
    keys (snd (scanProject e eg word t pid subs d)) = keys d \<union>
      {errlog_key (sub_channelID s) (g_Fingerprint g) ''error'' (now e) | s g.
         s \<in> set (unmuted e d t pid subs) \<and> ErrorLogs (sub_settings s) \<and>
         g \<in> set (G (Add (now e) (- Lookback))) \<and>
         ShouldFireNew g (lastFor rows (g_Fingerprint g) ''error'') (now e)} \<union>
      {errlog_key (sub_channelID s) (g_Fingerprint g) ''repeat'' (now e) | s g.
         s \<in> set (unmuted e d t pid subs) \<and> RepeatingErrorLogs (sub_settings s) \<and>
         g \<in> set (G (window_since e (RepeatWindowMin (sub_settings s)))) \<and>
         ShouldFireRepeat g (lastFor rows (g_Fingerprint g) ''repeat'')
           (RepeatWindowMin (sub_settings s) * minute) (now e)}"
proof -
  let ?subs = "unmuted e d t pid subs" and ?mem = "lastFor rows"
  let ?d = "if needNew ?subs then new_groups e t pid ?mem ?subs (G (Add (now e) (- Lookback))) d else d"
  have scan: "scanProject e eg word t pid subs d =
      repeat_windows e eg t pid ?mem ?subs (word (windows ?subs)) ?d"
    using assms(2,4) by (simp add: scanProject_def Let_def)
  have new: "keys ?d = keys d \<union>
      {errlog_key (sub_channelID s) (g_Fingerprint g) ''error'' (now e) | s g.
         s \<in> set ?subs \<and> ErrorLogs (sub_settings s) \<and> g \<in> set (G (Add (now e) (- Lookback))) \<and>
         ShouldFireNew g (?mem (g_Fingerprint g) ''error'') (now e)}"
    using keys_new_groups [OF assms(1)] by (auto simp: needNew_def)
  have rep: "{errlog_key (sub_channelID s) (g_Fingerprint g) ''repeat'' (now e) | s g w.
         w \<in> set (windows ?subs) \<and> s \<in> set ?subs \<and> wants_window w (sub_settings s) \<and>
         g \<in> set (G (window_since e w)) \<and>
         ShouldFireRepeat g (?mem (g_Fingerprint g) ''repeat'') (w * minute) (now e)} =
      {errlog_key (sub_channelID s) (g_Fingerprint g) ''repeat'' (now e) | s g.
         s \<in> set ?subs \<and> RepeatingErrorLogs (sub_settings s) \<and>
         g \<in> set (G (window_since e (RepeatWindowMin (sub_settings s)))) \<and>
         ShouldFireRepeat g (?mem (g_Fingerprint g) ''repeat'')
           (RepeatWindowMin (sub_settings s) * minute) (now e)}"
    unfolding windows_def wants_window_def by (intro Collect_cong iffI; clarsimp) metis+
  show ?thesis
    using keys_repeat_windows [of e eg t pid G ?mem ?subs "word (windows ?subs)" ?d, OF assms(1,2)]
    unfolding scan new assms(3) rep by blast
qed

section \<open>Windows that share one memory\<close>

definition scan_run ::
  "error_groups \<Rightarrow> (int list \<Rightarrow> int list) \<Rightarrow> int \<Rightarrow> int \<Rightarrow> subscription list \<Rightarrow> env list \<Rightarrow> db \<Rightarrow> db" where
  "scan_run eg word t pid subs es d = fold (\<lambda>e d. snd (scanProject e eg word t pid subs d)) es d"

text \<open>Ticks that follow each other within \<open>gap\<close>, the first within it of \<open>start\<close>.\<close>

fun ticks_within :: "duration \<Rightarrow> time \<Rightarrow> env list \<Rightarrow> bool" where
  "ticks_within gap start [] \<longleftrightarrow> True"
| "ticks_within gap start (e # es) \<longleftrightarrow>
     start \<le> now e \<and> now e - start \<le> gap \<and> no_faults e \<and> ticks_within gap (now e) es"

section \<open>The frame of a scan\<close>

lemma channels_enqueue_subs [simp]:
  "channels (enqueue_subs e t wants g kind title w subs d) = channels d"
  by (induction subs arbitrary: d)
    (auto simp: enqueue_def q_EnqueueDelivery_def q_EnqueueDeliveryAt_def split: option.split)

lemma channels_upsert [simp]: "channels (q_UpsertErrorAlertState e d t pid fp kind) = channels d"
  by (simp add: q_UpsertErrorAlertState_def)

lemma channels_new_groups [simp]: "channels (new_groups e t pid mem subs gs d) = channels d"
  by (induction gs arbitrary: d) auto

lemma channels_repeat_groups [simp]: "channels (repeat_groups e t pid mem subs w gs d) = channels d"
  by (induction gs arbitrary: d) auto

lemma channels_repeat_windows [simp]:
  "channels (snd (repeat_windows e eg t pid mem subs ws d)) = channels d"
  by (induction ws arbitrary: d) (auto split: option.split)

lemma channels_scanProject [simp]:
  "channels (snd (scanProject e eg word t pid subs d)) = channels d"
  by (auto simp: scanProject_def Let_def split: res.split option.split)

definition no_telegram :: "db \<Rightarrow> bool" where
  "no_telegram d \<longleftrightarrow> (\<forall>c \<in> set (channels d). c_kind c \<noteq> ''telegram'')"

lemma unmuted_no_telegram [simp]: "no_telegram d \<Longrightarrow> unmuted e d t pid subs = subs"
  by (auto simp: unmuted_def MutedByPlan_def no_telegram_def q_ListChannelsByProject_def)

section \<open>A short window keeps a longer one silent\<close>

text \<open>One error that recurs in every aggregate.\<close>

definition recurring :: "error_groups \<Rightarrow> int \<Rightarrow> int \<Rightarrow> u64 \<Rightarrow> bool" where
  "recurring eg t pid fp \<longleftrightarrow>
     (\<forall>since. \<exists>g. eg t pid since = Some [g] \<and> g_Fingerprint g = fp \<and> \<not> g_Count g < RepeatThreshold)"

text \<open>Two channels that want repeating errors only.\<close>

definition repeat_sub :: "int \<Rightarrow> int \<Rightarrow> subscription" where
  "repeat_sub ch w = \<lparr>sub_channelID = ch, sub_settings =
     \<lparr>WebsiteDown = True, ErrorLogs = False, RepeatingErrorLogs = True, RepeatWindowMin = w,
      ResolveFollowUp = False\<rparr>\<rparr>"

lemma repeat_due:
  assumes "1 \<le> w" "w \<le> 120" "\<not> g_Count g < RepeatThreshold"
  shows "ShouldFireRepeat g (Some l) (w * minute) t \<longleftrightarrow> w * minute \<le> t - l"
proof -
  have "min_int64 < w * minute" "w * minute \<le> max_int64"
    using assms by (simp_all add: min_int64_def max_int64_def minute_def second_def)
  with assms(3) show ?thesis by (simp add: ShouldFireRepeat_def Sub_ge_iff)
qed

lemma silent_window:
  assumes "a \<noteq> b" "sw \<noteq> lw"
    and "\<And>since. eg t pid since = Some (G since)"
    and "\<And>g. g \<in> set (G (window_since e lw)) \<Longrightarrow>
           \<not> ShouldFireRepeat g (mem (g_Fingerprint g) ''repeat'') (lw * minute) (now e)"
    and "set ws \<subseteq> {sw, lw}"
  shows "to_channel b (snd (repeat_windows e eg t pid mem [repeat_sub a sw, repeat_sub b lw] ws d)) =
    to_channel b d"
proof -
  let ?subs = "[repeat_sub a sw, repeat_sub b lw]"
  have one: "to_channel b (repeat_groups e t pid mem ?subs sw gs d) = to_channel b d" for gs d
    using assms(1,2)
    by (induction gs arbitrary: d) (auto simp: enqueue_subs_other repeat_sub_def wants_window_def)
  have two: "\<forall>g \<in> set gs. \<not> ShouldFireRepeat g (mem (g_Fingerprint g) ''repeat'') (lw * minute) (now e) \<Longrightarrow>
      repeat_groups e t pid mem ?subs lw gs d = d" for gs d
    by (induction gs arbitrary: d) auto
  show ?thesis using assms(5)
  proof (induction ws arbitrary: d)
    case (Cons w ws)
    then have "to_channel b (repeat_groups e t pid mem ?subs w (G (window_since e w)) d) = to_channel b d"
      using one two assms(4) by (cases "w = sw") auto
    with Cons show ?case by (simp add: assms(3))
  qed simp
qed

lemma scan_step:
  assumes "a \<noteq> b" "1 \<le> sw" "sw < lw" "lw \<le> 120" "recurring eg t pid fp"
    and "\<And>ws. set (word ws) = set ws"
    and "no_faults e" "no_telegram d" "memory_ok d"
    and "remembered d t pid fp ''repeat'' = Some l" "l \<le> now e" "now e - l < lw * minute"
  shows "to_channel b (snd (scanProject e eg word t pid [repeat_sub a sw, repeat_sub b lw] d)) = to_channel b d \<and>
    remembered (snd (scanProject e eg word t pid [repeat_sub a sw, repeat_sub b lw] d)) t pid fp ''repeat'' =
      Some (if sw * minute \<le> now e - l then now e else l)"
proof -
  let ?subs = "[repeat_sub a sw, repeat_sub b lw]"
  obtain rows where rows: "q_ListErrorAlertState e d t pid = Row rows"
    using assms(7) by (simp add: q_ListErrorAlertState_def)
  obtain G where G: "\<And>since. eg t pid since = Some [G since]" and Gfp: "\<And>s. g_Fingerprint (G s) = fp"
    and Gc: "\<And>s. \<not> g_Count (G s) < RepeatThreshold"
    using assms(5) unfolding recurring_def by metis
  have mem: "lastFor rows fp ''repeat'' = Some l"
    using lastFor_remembered [OF assms(9) rows] assms(10) by simp
  have W: "set (word (windows ?subs)) = {sw, lw}"
    unfolding assms(6) by (auto simp: windows_def repeat_sub_def)
  have scan: "scanProject e eg word t pid ?subs d =
      repeat_windows e eg t pid (lastFor rows) ?subs (word (windows ?subs)) d"
    using rows assms(8) by (simp add: scanProject_def Let_def needNew_def repeat_sub_def)
  have due1: "ShouldFireRepeat (G s) (Some l) (sw * minute) (now e) \<longleftrightarrow> sw * minute \<le> now e - l" for s
    by (rule repeat_due) (use assms Gc in auto)
  have due2: "\<not> ShouldFireRepeat (G s) (Some l) (lw * minute) (now e)" for s
    using repeat_due [of lw "G s" l "now e"] assms Gc by auto
  have "to_channel b (snd (repeat_windows e eg t pid (lastFor rows) ?subs (word (windows ?subs)) d)) =
      to_channel b d"
    by (rule silent_window [where G = "\<lambda>s. [G s]"]) (use assms(1,3) G Gfp mem due2 W in auto)
  moreover have "remembered (snd (repeat_windows e eg t pid (lastFor rows) ?subs (word (windows ?subs)) d))
      t pid fp ''repeat'' = Some (if sw * minute \<le> now e - l then now e else l)"
    using remembered_repeat_windows [OF assms(7), of eg t pid "\<lambda>s. [G s]" "lastFor rows" ?subs "word (windows ?subs)" d fp]
      G Gfp mem due1 due2 W assms(10) by simp
  ultimately show ?thesis by (simp add: scan)
qed

text \<open>A shorter repeat window silences a longer one. Both windows of a project share one remembered time per
  fingerprint, so once an error has been alerted and keeps recurring, and the ticks follow each other
  within the difference of the windows, the channel with the longer window never receives another
  alert, however long the error lasts.\<close>

theorem short_window_starves_long:
  assumes "a \<noteq> b" "1 \<le> sw" "sw < lw" "lw \<le> 120" "recurring eg t pid fp"
    and "\<And>ws. set (word ws) = set ws"
    and "no_telegram d" "memory_ok d"
    and "remembered d t pid fp ''repeat'' = Some start"
    and "ticks_within ((lw - sw) * minute) start es"
  shows "to_channel b (scan_run eg word t pid [repeat_sub a sw, repeat_sub b lw] es d) = to_channel b d"
proof -
  let ?subs = "[repeat_sub a sw, repeat_sub b lw]"
  have "to_channel b (scan_run eg word t pid ?subs es d) = to_channel b d"
    if "no_telegram d" "memory_ok d" "remembered d t pid fp ''repeat'' = Some l" "l \<le> prev"
      "prev - l < sw * minute" "ticks_within ((lw - sw) * minute) prev es" for l prev d
    using that
  proof (induction es arbitrary: l prev d)
    case (Cons e es)
    let ?d = "snd (scanProject e eg word t pid ?subs d)"
    have e: "no_faults e" "l \<le> now e" "now e - l < lw * minute"
      using Cons.prems by (auto simp: algebra_simps)
    note step = scan_step [OF assms(1-6) e(1) Cons.prems(1,2,3) e(2,3)]
    have "no_telegram ?d" using Cons.prems(1) by (simp add: no_telegram_def)
    moreover have "memory_ok ?d" using Cons.prems(2) by (rule memory_scanProject)
    moreover have "0 < sw * minute" using assms(2) by (simp add: minute_def second_def)
    ultimately have "to_channel b (scan_run eg word t pid ?subs es ?d) = to_channel b ?d"
      using step e Cons.prems(6)
      by (intro Cons.IH [where l = "if sw * minute \<le> now e - l then now e else l" and prev = "now e"]) auto
    with step show ?case by (simp add: scan_run_def)
  qed (simp add: scan_run_def)
  moreover have "start - start < sw * minute" using assms(2) by (simp add: minute_def second_def)
  ultimately show ?thesis using assms(7-10) by blast
qed

section \<open>Witnesses\<close>

definition boom :: Group where
  "boom = \<lparr>g_Fingerprint = 42, g_Count = 3, g_Service = ''api'', g_Message = ''boom'', g_LastTS = 0\<rparr>"

abbreviation boom_ring :: error_groups where
  "boom_ring \<equiv> \<lambda>t pid since. Some [boom]"

lemma quiet_no_faults: "no_faults (quiet_env\<lparr>now := x\<rparr>)" "no_faults quiet_env"
  by (simp_all add: no_faults_def quiet_env_def)

lemma boom_recurring: "recurring boom_ring t pid 42"
  by (simp add: recurring_def boom_def RepeatThreshold_def)

theorem scan_queues_exactly_witness:
  "fst (scanProject quiet_env boom_ring id 3 4 [repeat_sub 5 10] empty_db) = None \<and>
   keys (snd (scanProject quiet_env boom_ring id 3 4 [repeat_sub 5 10] empty_db)) =
     {errlog_key 5 42 ''repeat'' 0}"
proof -
  have rows: "q_ListErrorAlertState quiet_env empty_db 3 4 = Row []"
    by (simp add: q_ListErrorAlertState_def quiet_env_def empty_db_def)
  have u: "unmuted quiet_env empty_db 3 4 x = x" for x
    by (rule unmuted_no_telegram) (simp add: no_telegram_def empty_db_def)
  have f: "ShouldFireRepeat boom (lastFor [] (g_Fingerprint boom) ''repeat'') w t" for w t
    by (simp add: ShouldFireRepeat_def boom_def RepeatThreshold_def lastFor_def)
  have n: "now quiet_env = 0" "queue empty_db = []" by (simp_all add: quiet_env_def empty_db_def)
  have b: "g_Fingerprint boom = 42" by (simp add: boom_def)
  show ?thesis
    using scan_queues_exactly [where e = quiet_env and eg = boom_ring and G = "\<lambda>_. [boom]" and word = id
        and t = 3 and pid = 4 and d = empty_db and subs = "[repeat_sub 5 10]", OF quiet_no_faults(2) refl _ rows]
    using f by (simp add: u n b repeat_sub_def)
qed

theorem short_window_starves_long_witness:
  "to_channel 6 (scan_run boom_ring id 3 4 [repeat_sub 5 5, repeat_sub 6 60]
     [quiet_env\<lparr>now := 5 * minute\<rparr>, quiet_env\<lparr>now := 60 * minute\<rparr>]
     (empty_db\<lparr>alert_state := [((3, 4, 42, ''repeat''), 0)]\<rparr>)) = []"
proof -
  let ?d = "empty_db\<lparr>alert_state := [((3, 4, 42, ''repeat''), 0)]\<rparr>"
  have "no_telegram ?d" "memory_ok ?d" "to_channel 6 ?d = []"
    by (simp_all add: no_telegram_def memory_ok_def empty_db_def)
  moreover have "remembered ?d 3 4 42 ''repeat'' = Some 0" by (simp add: remembered_def)
  moreover have "ticks_within ((60 - 5) * minute) 0
      [quiet_env\<lparr>now := 5 * minute\<rparr>, quiet_env\<lparr>now := 60 * minute\<rparr>]"
    by (simp add: quiet_no_faults) (simp add: minute_def second_def)
  ultimately show ?thesis
    using short_window_starves_long [where a = 5 and b = 6 and sw = 5 and lw = 60 and fp = 42 and eg = boom_ring
        and t = 3 and pid = 4 and word = id and d = ?d and start = 0] boom_recurring by simp
qed

end
