(* ===== verification/Detect.thy ===== *)
theory Detect
  imports IncidentLife Suppression
begin

text \<open>
  The error-rate scanner: \<^verbatim>\<open>back/internal/detect/detectors/detectors.go\<close> (the decision) and
  \<^verbatim>\<open>back/internal/detect/detect.go\<close> (one tick: window, decision, suppression, open or close). Go's
  \<^verbatim>\<open>float64\<close> is the parameter type \<open>'f\<close> with its operations in a record; the telemetry store's three
  reads are parameters too (\<open>None\<close> when a read fails).
\<close>

section \<open>Floating point and the ring\<close>

record 'f float64 =
  f_of :: "int \<Rightarrow> 'f"
  f_const :: "int \<Rightarrow> int \<Rightarrow> 'f"
  f_div :: "'f \<Rightarrow> 'f \<Rightarrow> 'f"
  f_sub :: "'f \<Rightarrow> 'f \<Rightarrow> 'f"
  f_mul :: "'f \<Rightarrow> 'f \<Rightarrow> 'f"
  f_gt :: "'f \<Rightarrow> 'f \<Rightarrow> bool"
  f_le :: "'f \<Rightarrow> 'f \<Rightarrow> bool"
  f_min :: "'f \<Rightarrow> 'f \<Rightarrow> 'f"
  f_trunc :: "'f \<Rightarrow> 'f"
  f_eq :: "'f \<Rightarrow> 'f \<Rightarrow> bool"
  f_int :: "'f \<Rightarrow> int"
  f_format1 :: "'f \<Rightarrow> string"

text \<open>\<open>f_const p q\<close> is the constant p/q of the source (\<^verbatim>\<open>0.1\<close>, \<^verbatim>\<open>3.0\<close>, \<^verbatim>\<open>1.4826\<close>); \<open>f_format1\<close> is one decimal.\<close>

record 'f ring_reads =
  ErrorWindow :: "int \<Rightarrow> int \<Rightarrow> time \<Rightarrow> time \<Rightarrow> (u64 \<times> u64) option"
  ErrorRateBaseline :: "int \<Rightarrow> int \<Rightarrow> time \<Rightarrow> time \<Rightarrow> ('f \<times> 'f) option"
  LastDeploy :: "int \<Rightarrow> int \<Rightarrow> time option"

section \<open>The detector\<close>

record 'f Decision =
  Fire :: bool
  d_Reason :: string
  Score :: 'f

definition NoFire :: "'f float64 \<Rightarrow> 'f Decision" where
  "NoFire F = \<lparr>Fire = False, d_Reason = '''', Score = f_of F 0\<rparr>"

definition formatFloat :: "'f float64 \<Rightarrow> 'f \<Rightarrow> string" where
  "formatFloat F x = (if f_eq F x (f_trunc F x) then itoa (f_int F x) else f_format1 F x)"

definition formatPct :: "'f float64 \<Rightarrow> 'f \<Rightarrow> string" where
  "formatPct F x = formatFloat F (f_mul F x (f_of F 100)) @ ''%''"

definition ErrorRate :: "'f float64 \<Rightarrow> int \<Rightarrow> int \<Rightarrow> 'f \<Rightarrow> 'f \<Rightarrow> 'f \<Rightarrow> 'f Decision" where
  "ErrorRate F currentErrors currentTotal baselineMedian baselineMAD scale =
     (if currentTotal < 10 then NoFire F
      else
        let rate = f_div F (f_of F currentErrors) (f_of F currentTotal)
        in if f_le F baselineMAD (f_of F 0) \<or> f_le F scale (f_of F 0) then
             (if f_gt F rate (f_const F 1 10)
              then \<lparr>Fire = True, d_Reason = ''error rate above 10%'', Score = rate\<rparr>
              else NoFire F)
           else
             let z = f_div F (f_sub F rate baselineMedian) (f_mul F baselineMAD scale)
             in if f_gt F z (f_const F 3 1)
                then \<lparr>Fire = True,
                  d_Reason = ''error rate '' @ formatPct F rate @ '' (z='' @ formatFloat F z @ '')'',
                  Score = f_min F (f_div F z (f_of F 10)) (f_const F 1 1)\<rparr>
                else NoFire F)"

section \<open>Windows and wording\<close>

definition madScale :: "'f float64 \<Rightarrow> 'f" where "madScale F = f_const F 14826 10000"
definition scanWindow :: duration where "scanWindow = 5 * minute"

definition windowBounds :: "time \<Rightarrow> time \<times> time" where
  "windowBounds t = (let to = Truncate t minute in (Add to (- scanWindow), to))"

definition baselineBounds :: "time \<Rightarrow> time \<times> time" where
  "baselineBounds t = (let wFrom = fst (windowBounds t) in (Add wFrom (- (7 * 24 * hour)), wFrom))"

definition errorRateSummary :: "'f float64 \<Rightarrow> u64 \<Rightarrow> u64 \<Rightarrow> 'f \<Rightarrow> 'f \<Rightarrow> string" where
  "errorRateSummary F errs lines median mad =
     (let rate = f_div F (f_of F (uint errs)) (f_of F (uint lines));
          s = ''Error and fatal lines are '' @ f_format1 F (f_mul F rate (f_of F 100)) @
              ''% of the log stream in the last '' @ itoa (scanWindow div minute) @ '' minutes.''
      in if f_gt F mad (f_of F 0)
         then s @ '' The weekly baseline is '' @ f_format1 F (f_mul F median (f_of F 100)) @ ''%.''
         else s)"

section \<open>What a tick does with a project\<close>

datatype action = actNone | actOpen | actClose

definition decide :: "bool \<Rightarrow> bool \<Rightarrow> bool \<Rightarrow> action" where
  "decide fire suppressed hasOpen =
     (if fire \<and> \<not> suppressed then actOpen
      else if \<not> fire \<and> hasOpen then actClose
      else actNone)"

record project_row =
  pr_ID :: int
  pr_Tenant :: int
  pr_Domain :: string

definition q_ListProjectsForDetect :: "env \<Rightarrow> project_row list \<Rightarrow> project_row list res" where
  "q_ListProjectsForDetect e table =
     (if fl e ''ListProjectsForDetect'' [] then Fault else Row (sort_key pr_ID table))"

definition q_GetErrorAlertState :: "env \<Rightarrow> db \<Rightarrow> int \<Rightarrow> int \<Rightarrow> int \<Rightarrow> string \<Rightarrow> time res" where
  "q_GetErrorAlertState e d t pid fp kind =
     (if fl e ''GetErrorAlertState'' [t, pid, fp] then Fault
      else case map_of (alert_state d) (t, pid, fp, kind) of None \<Rightarrow> NoRows | Some l \<Rightarrow> Row l)"

datatype detect_error =
    EWindow | EOpenLookup | EBaseline | EStateLookup | EDeploy | EOpenIncident inc_error | EStateUpsert | ECloseIncident inc_error

definition errorrate_kind :: string where "errorrate_kind = ''detect:errorrate''"

definition errorrate_fp :: "project_row \<Rightarrow> int" where
  "errorrate_fp proj = KeyFingerprint (''project:'' @ itoa (pr_ID proj) @ '':errorrate'')"

text \<open>The decision of a tick: the floor of ten lines, then the baseline, then the detector.\<close>

definition score_window ::
  "'f float64 \<Rightarrow> 'f ring_reads \<Rightarrow> project_row \<Rightarrow> time \<Rightarrow> u64 \<Rightarrow> u64 \<Rightarrow> detect_error + ('f Decision \<times> 'f \<times> 'f)" where
  "score_window F R proj t errs lines =
     (if lines < 10 then Inr (NoFire F, f_of F 0, f_of F 0)
      else case baselineBounds t of (bFrom, bTo) \<Rightarrow>
        (case ErrorRateBaseline R (pr_Tenant proj) (pr_ID proj) bFrom bTo of
           None \<Rightarrow> Inl EBaseline
         | Some (m, d) \<Rightarrow> Inr (ErrorRate F (sint errs) (sint lines) m d (madScale F), m, d)))"

text \<open>Suppression is consulted on a fire only.\<close>

definition suppress_fire ::
  "env \<Rightarrow> 'f ring_reads \<Rightarrow> db \<Rightarrow> project_row \<Rightarrow> bool \<Rightarrow> bool \<Rightarrow> detect_error + bool" where
  "suppress_fire e R d proj fire opened =
     (if \<not> fire then Inr False
      else
        let lastFire = (case q_GetErrorAlertState e d (pr_Tenant proj) (pr_ID proj) (errorrate_fp proj) errorrate_kind of
                          Row l \<Rightarrow> Inr l | NoRows \<Rightarrow> Inr zero_time | Fault \<Rightarrow> Inl EStateLookup)
        in case lastFire of
             Inl err \<Rightarrow> Inl err
           | Inr lastFire \<Rightarrow>
               (case LastDeploy R (pr_Tenant proj) (pr_ID proj) of
                  None \<Rightarrow> Inl EDeploy
                | Some lastDeploy \<Rightarrow>
                    Inr (Suppress (Evaluate
                      \<lparr>in_Fingerprint = errorrate_fp proj, LastFireAt = lastFire, HasOpenIncident = opened,
                       InMaintenance = False, LastDeployAt = lastDeploy, in_Now = now e\<rparr>))))"

definition errorrate_open ::
  "'f float64 \<Rightarrow> project_row \<Rightarrow> time \<Rightarrow> u64 \<Rightarrow> u64 \<Rightarrow> 'f Decision \<Rightarrow> 'f \<Rightarrow> 'f \<Rightarrow> DetectOpen" where
  "errorrate_open F proj t errs lines dec median mad =
     \<lparr>d_Tenant = pr_Tenant proj, d_Project = pr_ID proj, d_Monitor = None, d_Detector = ''errorrate'',
      d_Fingerprint = errorrate_fp proj, d_Title = ''Error rate spike on '' @ pr_Domain proj,
      d_OpenedText = d_Reason dec, d_Summary = errorRateSummary F errs lines median mad,
      d_Fields =
        [\<lparr>f_Label = ''Detected'', f_Value = fmt_stamp t @ '' UTC'', f_Mono = False\<rparr>,
         \<lparr>f_Label = ''Error lines'', f_Value = nat_str (unat errs) @ '' of '' @ nat_str (unat lines) @ '' lines'',
           f_Mono = False\<rparr>,
         \<lparr>f_Label = ''Why it fired'', f_Value = d_Reason dec, f_Mono = False\<rparr>]\<rparr>"

definition act_open ::
  "'f float64 \<Rightarrow> env \<Rightarrow> db \<Rightarrow> project_row \<Rightarrow> DetectOpen \<Rightarrow> detect_error option \<times> db" where
  "act_open F e d proj p =
     (case OpenDetect e d p of
        (Inl err, d) \<Rightarrow> (Some (EOpenIncident err), d)
      | (Inr (_, created), d) \<Rightarrow>
          if created then
            (if fl e ''UpsertErrorAlertState'' [pr_Tenant proj, pr_ID proj, errorrate_fp proj]
             then (Some EStateUpsert, d)
             else (None, q_UpsertErrorAlertState e d (pr_Tenant proj) (pr_ID proj) (errorrate_fp proj) errorrate_kind))
          else (None, d))"

definition act_close :: "env \<Rightarrow> db \<Rightarrow> project_row \<Rightarrow> detect_error option \<times> db" where
  "act_close e d proj =
     (case CloseByFingerprint e d (pr_Tenant proj) (errorrate_fp proj) ReasonRecovered ''Error rate back to normal'' of
        (Some err, d) \<Rightarrow> (Some (ECloseIncident err), d)
      | (None, d) \<Rightarrow> (None, d))"

definition detect_scanProject ::
  "'f float64 \<Rightarrow> 'f ring_reads \<Rightarrow> env \<Rightarrow> db \<Rightarrow> project_row \<Rightarrow> detect_error option \<times> db" where
  "detect_scanProject F R e d proj =
     (case windowBounds (now e) of (wFrom, wTo) \<Rightarrow>
      (case ErrorWindow R (pr_Tenant proj) (pr_ID proj) wFrom wTo of
         None \<Rightarrow> (Some EWindow, d)
       | Some (errs, lines) \<Rightarrow>
          (case q_GetOpenIncidentByFingerprint e d (pr_Tenant proj) (errorrate_fp proj) of
             Fault \<Rightarrow> (Some EOpenLookup, d)
           | found \<Rightarrow>
               let opened = (found \<noteq> NoRows) in
               case score_window F R proj (now e) errs lines of
                 Inl err \<Rightarrow> (Some err, d)
               | Inr (dec, median, mad) \<Rightarrow>
                   (case suppress_fire e R d proj (Fire dec) opened of
                      Inl err \<Rightarrow> (Some err, d)
                    | Inr suppressed \<Rightarrow>
                        (case decide (Fire dec) suppressed opened of
                           actOpen \<Rightarrow> act_open F e d proj (errorrate_open F proj (now e) errs lines dec median mad)
                         | actClose \<Rightarrow> act_close e d proj
                         | actNone \<Rightarrow> (None, d))))))"

text \<open>A tick: a project that fails is logged and the loop goes on.\<close>

fun detect_loop ::
  "'f float64 \<Rightarrow> 'f ring_reads \<Rightarrow> env \<Rightarrow> project_row list \<Rightarrow> db \<Rightarrow> (int \<times> detect_error) list \<times> db" where
  "detect_loop F R e [] d = ([], d)"
| "detect_loop F R e (p # ps) d =
     (case detect_scanProject F R e d p of (err, d) \<Rightarrow>
        (case detect_loop F R e ps d of (logged, d) \<Rightarrow>
           ((case err of None \<Rightarrow> logged | Some x \<Rightarrow> (pr_ID p, x) # logged), d)))"

definition detect_Tick ::
  "'f float64 \<Rightarrow> 'f ring_reads \<Rightarrow> env \<Rightarrow> project_row list \<Rightarrow> db \<Rightarrow> ((int \<times> detect_error) list \<times> db) option" where
  "detect_Tick F R e table d =
     (case q_ListProjectsForDetect e table of
        Row projects \<Rightarrow> Some (detect_loop F R e projects d)
      | _ \<Rightarrow> None)"

end
