(* ===== verification/DetectFacts.thy ===== *)
theory DetectFacts
  imports Detect Faults Complex_Main
begin

text \<open>
  What the error-rate scanner promises: a tick follows the detector's decision, the incident
  uniqueness of \<open>IncidentLife\<close> survives every tick, and two incidents of one project are further
  apart than the cooldown, whichever other database calls fail.
\<close>

section \<open>The lifecycle leaves the scanner's memory alone\<close>

named_theorems memory_frames "operations that leave the alert memory alone"

lemma mem_AddUpdate [memory_frames]: "alert_state (q_AddIncidentUpdate e d i k t) = alert_state d"
  by (simp add: q_AddIncidentUpdate_def)

lemma mem_Slice [memory_frames]: "alert_state (q_AddIncidentSliceLine e d i l) = alert_state d"
  by (simp add: q_AddIncidentSliceLine_def)

lemma mem_Touch [memory_frames]: "alert_state (q_TouchIncidentNotified e d i) = alert_state d"
  by (simp add: q_TouchIncidentNotified_def)

lemma mem_EnqueueAt [memory_frames]:
  "q_EnqueueDeliveryAt e d t iid ch key cls pay next = Some d' \<Longrightarrow> alert_state d' = alert_state d"
  by (auto simp: q_EnqueueDeliveryAt_def split: if_splits)

lemma mem_Enqueue [memory_frames]:
  "q_EnqueueDelivery e d t iid ch key cls pay = Some d' \<Longrightarrow> alert_state d' = alert_state d"
  by (auto simp: q_EnqueueDelivery_def memory_frames)

lemma mem_notify_one [memory_frames]: "alert_state (fst (notify_one e t n plan ch ds)) = alert_state (fst ds)"
  by (cases ds) (auto simp: notify_one_def Let_def memory_frames split: option.split prod.split)

lemma mem_notify_loop [memory_frames]:
  "alert_state (fst (notify_loop e t n plan muted chs ds)) = alert_state (fst ds)"
  by (induction e t n plan muted chs ds rule: notify_loop.induct) (simp_all add: memory_frames)

lemma mem_notifyChannels [memory_frames]: "alert_state (notifyChannels e d t pid n) = alert_state d"
proof -
  have "alert_state (fst (notify_loop e t n plan muted chs (d, 0))) = alert_state d" for plan muted chs
    by (simp add: memory_frames)
  then show ?thesis
    by (simp add: notifyChannels_def Let_def memory_frames case_prod_beta split: res.split)
qed

lemma mem_slice_rows [memory_frames]: "alert_state (fst (slice_rows e d i ls)) = alert_state d"
proof (induction ls arbitrary: d)
  case (Cons l ls)
  then show ?case by (cases l) (simp_all add: memory_frames)
qed simp

lemma mem_freezeSlice [memory_frames]: "alert_state (fst (freezeSlice e d i t pid)) = alert_state d"
  by (simp add: freezeSlice_def memory_frames split: option.split)

lemma mem_insert [memory_frames]:
  "q_OpenIncident e d t pid mid det f title status = Some (row, d1) \<Longrightarrow> alert_state d1 = alert_state d"
  by (auto simp: q_OpenIncident_def Let_def split: if_splits)

lemma mem_OpenDetect [memory_frames]: "alert_state (snd (OpenDetect e d p)) = alert_state d"
  by (auto simp: OpenDetect_def Let_def memory_frames split: res.split option.split prod.split)

lemma mem_CloseByFingerprint [memory_frames]:
  "alert_state (snd (CloseByFingerprint e d t f reason txt)) = alert_state d"
  by (auto simp: CloseByFingerprint_def q_CloseIncidentByFingerprint_def memory_frames split: res.split option.split)

section \<open>When the incidents of a project opened\<close>

definition fp_times :: "int \<Rightarrow> int \<Rightarrow> db \<Rightarrow> time list" where
  "fp_times t f d = map i_detected (filter (\<lambda>r. i_tenant r = t \<and> i_fp r = f) (incidents d))"

lemma fp_times_same: "same_incidents d d' \<Longrightarrow> fp_times t f d' = fp_times t f d"
proof -
  have *: "map i_detected (filter (\<lambda>r. i_tenant r = t \<and> i_fp r = f) rs) =
      map i_detected (filter (\<lambda>r. i_tenant r = t \<and> i_fp r = f) (map unmark rs))" for rs
    by (induction rs) (auto simp: unmark_def)
  assume "same_incidents d d'"
  then have eq: "map unmark (incidents d') = map unmark (incidents d)" by (simp add: same_incidents_def)
  show ?thesis unfolding fp_times_def * [of "incidents d'"] * [of "incidents d"] eq ..
qed

lemma fp_times_close:
  "fp_times t f (d\<lparr>incidents := map (\<lambda>r. if Q r then close_row e reason r else r) (incidents d)\<rparr>) = fp_times t f d"
proof -
  have "map i_detected (filter (\<lambda>r. i_tenant r = t \<and> i_fp r = f)
      (map (\<lambda>r. if Q r then close_row e reason r else r) rs)) =
    map i_detected (filter (\<lambda>r. i_tenant r = t \<and> i_fp r = f) rs)" for rs
    by (induction rs) (auto simp: close_row_def)
  then show ?thesis by (simp add: fp_times_def)
qed

lemma fp_times_CloseByFingerprint [simp]:
  "fp_times t f (snd (CloseByFingerprint e d t' f' reason txt)) = fp_times t f d"
  by (auto simp: CloseByFingerprint_def q_CloseIncidentByFingerprint_def fp_times_close
      fp_times_same [OF same_AddUpdate] split: res.split option.split)

text \<open>\<open>OpenDetect\<close> either adds one incident, detected now, or reports that it created none.\<close>

lemma OpenDetect_cases:
  obtains (created) iid d' where "OpenDetect e d p = (Inr (iid, True), d')"
      "q_GetOpenIncidentByFingerprint e d (d_Tenant p) (d_Fingerprint p) = NoRows"
      "fp_times (d_Tenant p) (d_Fingerprint p) d' = fp_times (d_Tenant p) (d_Fingerprint p) d @ [now e]"
      "open_key_count (d_Tenant p) (d_Fingerprint p) d' =
         open_key_count (d_Tenant p) (d_Fingerprint p) d + (if d_Monitor p = None then 1 else 0)"
  | (not_created) r where "OpenDetect e d p = (r, d)" "\<And>iid. r \<noteq> Inr (iid, True)"
proof (cases "q_GetOpenIncidentByFingerprint e d (d_Tenant p) (d_Fingerprint p)")
  case NoRows
  show ?thesis
  proof (cases "q_OpenIncident e d (d_Tenant p) (d_Project p) (d_Monitor p) (d_Detector p)
      (d_Fingerprint p) (d_Title p) detectStatus")
    case (Some q)
    obtain row d1 where q: "q = (row, d1)" by (cases q)
    obtain d' where d': "OpenDetect e d p = (Inr (i_id row, True), d')" "same_incidents d1 d'"
      using NoRows Some q by (auto simp: OpenDetect_def Let_def intro!: frame_steps same_refl)
    have "fp_times (d_Tenant p) (d_Fingerprint p) d1 = fp_times (d_Tenant p) (d_Fingerprint p) d @ [now e]"
      using Some q by (auto simp: q_OpenIncident_def Let_def fp_times_def split: if_splits)
    moreover have "open_key_count (d_Tenant p) (d_Fingerprint p) d' = open_key_count (d_Tenant p) (d_Fingerprint p) d1"
      unfolding open_key_count_def
      by (rule filter_unmark) (use d'(2) in \<open>simp_all add: same_incidents_def\<close>)
    ultimately show ?thesis
      using created [OF d'(1) NoRows] fp_times_same [OF d'(2)] open_count_insert(2) [of e d] Some q by auto
  qed (use not_created NoRows in \<open>simp add: OpenDetect_def\<close>)
qed (use not_created in \<open>simp_all add: OpenDetect_def\<close>)


section \<open>One tick of one project\<close>

definition has_open :: "project_row \<Rightarrow> db \<Rightarrow> bool" where
  "has_open proj d \<longleftrightarrow> filter (open_fp (pr_Tenant proj) (errorrate_fp proj)) (incidents d) \<noteq> []"

definition last_fire :: "project_row \<Rightarrow> db \<Rightarrow> time option" where
  "last_fire proj d = map_of (alert_state d) (pr_Tenant proj, pr_ID proj, errorrate_fp proj, errorrate_kind)"

abbreviation times_of :: "project_row \<Rightarrow> db \<Rightarrow> time list" where
  "times_of proj d \<equiv> fp_times (pr_Tenant proj) (errorrate_fp proj) d"

text \<open>A fire goes through when nothing suppresses it.\<close>

definition fire_allowed :: "project_row \<Rightarrow> db \<Rightarrow> time \<Rightarrow> time \<Rightarrow> bool" where
  "fire_allowed proj d dep t \<longleftrightarrow>
     \<not> has_open proj d \<and> (IsZero dep \<or> t - dep > PostDeployWindow) \<and>
     (case last_fire proj d of None \<Rightarrow> True | Some l \<Rightarrow> IsZero l \<or> t - l > CooldownPeriod)"

lemma suppress_fire_shape:
  assumes "suppress_fire e R d proj True opened = Inr False"
  shows "\<not> opened \<and> (case last_fire proj d of None \<Rightarrow> True | Some l \<Rightarrow> IsZero l \<or> now e - l > CooldownPeriod)"
  using assms window_bounds
  by (auto simp: suppress_fire_def q_GetErrorAlertState_def last_fire_def Let_def Evaluate_def suppress_decision_def
      allow_decision_def CooldownPeriod_def duration_defs split: res.splits option.splits if_splits)

lemma act_open_cases:
  obtains (created) d' where "snd (act_open F e d proj p) = d'"
      "q_GetOpenIncidentByFingerprint e d (d_Tenant p) (d_Fingerprint p) = NoRows"
      "fp_times (d_Tenant p) (d_Fingerprint p) d' = fp_times (d_Tenant p) (d_Fingerprint p) d @ [now e]"
      "fl e ''UpsertErrorAlertState'' [pr_Tenant proj, pr_ID proj, errorrate_fp proj] \<or> last_fire proj d' = Some (now e)"
  | (not_created) "snd (act_open F e d proj p) = d"
proof (cases rule: OpenDetect_cases [of e d p])
  case (created iid d')
  show ?thesis
  proof (cases "fl e ''UpsertErrorAlertState'' [pr_Tenant proj, pr_ID proj, errorrate_fp proj]")
    case True
    with created show ?thesis by (intro that(1)) (auto simp: act_open_def)
  next
    case False
    let ?d = "q_UpsertErrorAlertState e d' (pr_Tenant proj) (pr_ID proj) (errorrate_fp proj) errorrate_kind"
    have "fp_times t f ?d = fp_times t f d'" for t f
      by (simp add: q_UpsertErrorAlertState_def fp_times_def)
    moreover have "last_fire proj ?d = Some (now e)"
      using False by (simp add: last_fire_def q_UpsertErrorAlertState_def update_conv')
    ultimately show ?thesis
      using False created by (intro that(1) [of ?d]) (simp_all add: act_open_def)
  qed
next
  case (not_created r)
  then have "snd (act_open F e d proj p) = d"
    by (cases r) (auto simp: act_open_def)
  then show ?thesis by (rule that(2))
qed

lemma errorrate_open_key [simp]:
  "d_Tenant (errorrate_open F proj t errs n dec median mad) = pr_Tenant proj"
  "d_Fingerprint (errorrate_open F proj t errs n dec median mad) = errorrate_fp proj"
  "d_Monitor (errorrate_open F proj t errs n dec median mad) = None"
  by (simp_all add: errorrate_open_def)

text \<open>The path a tick takes to its act, or the error it stops with.\<close>

lemma scan_path:
  obtains (stops) err where "detect_scanProject F R e d proj = (Some err, d)"
  | (acts) errs n dec median mad suppressed where
      "ErrorWindow R (pr_Tenant proj) (pr_ID proj) (fst (windowBounds (now e))) (snd (windowBounds (now e))) = Some (errs, n)"
      "score_window F R proj (now e) errs n = Inr (dec, median, mad)"
      "suppress_fire e R d proj (Fire dec) (has_open proj d) = Inr suppressed"
      "detect_scanProject F R e d proj =
         (case decide (Fire dec) suppressed (has_open proj d) of
            actOpen \<Rightarrow> act_open F e d proj (errorrate_open F proj (now e) errs n dec median mad)
          | actClose \<Rightarrow> act_close e d proj
          | actNone \<Rightarrow> (None, d))"
proof -
  let ?found = "q_GetOpenIncidentByFingerprint e d (pr_Tenant proj) (errorrate_fp proj)"
  obtain a b where w: "windowBounds (now e) = (a, b)" by (metis surj_pair)
  consider (window) "ErrorWindow R (pr_Tenant proj) (pr_ID proj) a b = None" | (lookup) "?found = Fault"
    | (ok) errs n where "ErrorWindow R (pr_Tenant proj) (pr_ID proj) a b = Some (errs, n)" "?found \<noteq> Fault"
    by (metis not_None_eq surj_pair)
  then show ?thesis
  proof cases
    case window
    then show ?thesis using stops by (simp add: detect_scanProject_def w)
  next
    case lookup
    then show ?thesis
      using stops by (cases "ErrorWindow R (pr_Tenant proj) (pr_ID proj) a b") (auto simp: detect_scanProject_def w)
  next
    case (ok errs n)
    have opened: "(?found \<noteq> NoRows) = has_open proj d"
      using ok(2) by (auto simp: q_GetOpenIncidentByFingerprint_def has_open_def split: if_splits)
    have scan: "detect_scanProject F R e d proj =
       (case score_window F R proj (now e) errs n of
          Inl err \<Rightarrow> (Some err, d)
        | Inr (dec, median, mad) \<Rightarrow>
            (case suppress_fire e R d proj (Fire dec) (has_open proj d) of
               Inl err \<Rightarrow> (Some err, d)
             | Inr suppressed \<Rightarrow>
                 (case decide (Fire dec) suppressed (has_open proj d) of
                    actOpen \<Rightarrow> act_open F e d proj (errorrate_open F proj (now e) errs n dec median mad)
                  | actClose \<Rightarrow> act_close e d proj
                  | actNone \<Rightarrow> (None, d))))"
    proof (cases ?found)
      case (Row r)
      then have yes: "has_open proj d = True" using opened by simp
      show ?thesis unfolding yes using ok Row by (simp add: detect_scanProject_def w Let_def)
    next
      case NoRows
      then have no: "has_open proj d = False" using opened by simp
      show ?thesis unfolding no using ok NoRows by (simp add: detect_scanProject_def w Let_def)
    qed (use ok in simp)
    show ?thesis
    proof (cases "score_window F R proj (now e) errs n")
      case (Inl err)
      then show ?thesis using stops scan by simp
    next
      case (Inr x)
      obtain dec median mad where x: "x = (dec, median, mad)" by (metis surj_pair)
      show ?thesis
      proof (cases "suppress_fire e R d proj (Fire dec) (has_open proj d)")
        case (Inl err)
        then show ?thesis using stops scan Inr x by simp
      next
        case (Inr suppressed)
        with acts [of errs n dec median mad suppressed] ok scan x \<open>score_window F R proj (now e) errs n = Inr x\<close> w
        show ?thesis by simp
      qed
    qed
  qed
qed

text \<open>Every outcome of a tick: an incident after the cooldown, or no new one.\<close>

lemma act_close_frame:
  "times_of proj (snd (act_close e d proj)) = times_of proj d \<and> last_fire proj (snd (act_close e d proj)) = last_fire proj d"
proof -
  have "snd (act_close e d proj) =
      snd (CloseByFingerprint e d (pr_Tenant proj) (errorrate_fp proj) ReasonRecovered ''Error rate back to normal'')"
    by (simp add: act_close_def split: prod.split option.split)
  then show ?thesis by (simp add: last_fire_def memory_frames)
qed

lemma scan_cases:
  obtains (opens) d' where "snd (detect_scanProject F R e d proj) = d'"
      "times_of proj d' = times_of proj d @ [now e]"
      "case last_fire proj d of None \<Rightarrow> True | Some l \<Rightarrow> IsZero l \<or> now e - l > CooldownPeriod"
      "fl e ''UpsertErrorAlertState'' [pr_Tenant proj, pr_ID proj, errorrate_fp proj] \<or> last_fire proj d' = Some (now e)"
  | (keeps) d' where "snd (detect_scanProject F R e d proj) = d'"
      "times_of proj d' = times_of proj d" "last_fire proj d' = last_fire proj d"
proof (cases rule: scan_path [of F R e d proj])
  case (stops err)
  then show ?thesis using keeps by simp
next
  case (acts errs n dec median mad suppressed)
  show ?thesis
  proof (cases "decide (Fire dec) suppressed (has_open proj d)")
    case actOpen
    then have "Fire dec" "\<not> suppressed" by (simp_all add: decide_def split: if_splits)
    then have allowed: "case last_fire proj d of None \<Rightarrow> True | Some l \<Rightarrow> IsZero l \<or> now e - l > CooldownPeriod"
      using suppress_fire_shape [of e R d proj "has_open proj d"] acts(3) by simp
    show ?thesis
      using act_open_cases [of F e d proj "errorrate_open F proj (now e) errs n dec median mad"]
        actOpen acts(4) allowed opens keeps by (smt (verit) action.simps(8) errorrate_open_key)
  qed (use acts(4) keeps act_close_frame [of proj e d] in auto)
qed

section \<open>A tick in a healthy environment\<close>

lemma suppress_healthy:
  assumes "no_faults e" and "LastDeploy R (pr_Tenant proj) (pr_ID proj) = Some dep"
  shows "\<exists>s. suppress_fire e R d proj fire (has_open proj d) = Inr s \<and> (fire \<longrightarrow> s = (\<not> fire_allowed proj d dep (now e)))"
proof (cases fire)
  case True
  show ?thesis
  proof (cases "last_fire proj d")
    case None
    then have "q_GetErrorAlertState e d (pr_Tenant proj) (pr_ID proj) (errorrate_fp proj) errorrate_kind = NoRows"
      using assms(1) by (simp add: q_GetErrorAlertState_def last_fire_def)
    with True None assms(2) show ?thesis
      using window_bounds
      by (auto simp: suppress_fire_def fire_allowed_def Evaluate_def allow_decision_def suppress_decision_def
          PostDeployWindow_def duration_defs IsZero_def)
  next
    case (Some l)
    then have "q_GetErrorAlertState e d (pr_Tenant proj) (pr_ID proj) (errorrate_fp proj) errorrate_kind = Row l"
      using assms(1) by (simp add: q_GetErrorAlertState_def last_fire_def)
    with True Some assms(2) show ?thesis
      using window_bounds
      by (auto simp: suppress_fire_def fire_allowed_def Evaluate_def allow_decision_def suppress_decision_def
          PostDeployWindow_def CooldownPeriod_def duration_defs)
  qed
qed (auto simp: suppress_fire_def)

lemma scan_healthy:
  assumes "no_faults e"
    and "ErrorWindow R (pr_Tenant proj) (pr_ID proj) (fst (windowBounds (now e))) (snd (windowBounds (now e))) = Some (errs, n)"
    and "score_window F R proj (now e) errs n = Inr (dec, median, mad)"
    and "suppress_fire e R d proj (Fire dec) (has_open proj d) = Inr s"
  shows "detect_scanProject F R e d proj =
      (case decide (Fire dec) s (has_open proj d) of
         actOpen \<Rightarrow> act_open F e d proj (errorrate_open F proj (now e) errs n dec median mad)
       | actClose \<Rightarrow> act_close e d proj | actNone \<Rightarrow> (None, d))"
proof -
  obtain a b where w: "windowBounds (now e) = (a, b)" by (metis surj_pair)
  show ?thesis
  proof (cases "filter (open_fp (pr_Tenant proj) (errorrate_fp proj)) (incidents d)")
  case Nil
  then have no: "has_open proj d = False" by (simp add: has_open_def)
  show ?thesis
    using assms Nil unfolding no
    by (simp add: detect_scanProject_def w healthy_reads Let_def)
next
  case (Cons r rs)
  then have yes: "has_open proj d = True" by (simp add: has_open_def)
  show ?thesis
    using assms Cons unfolding yes
    by (simp add: detect_scanProject_def w healthy_reads Let_def)
  qed
qed

lemma has_open_same: "same_incidents d d' \<Longrightarrow> has_open proj d' = has_open proj d"
proof -
  assume "same_incidents d d'"
  then have "length (filter (open_fp t f) (incidents d')) = length (filter (open_fp t f) (incidents d))" for t f
    by (intro filter_unmark) (simp_all add: open_fp_def same_incidents_def)
  then show ?thesis unfolding has_open_def by (metis length_0_conv)
qed

lemma act_close_healthy:
  assumes "no_faults e"
  shows "fst (act_close e d proj) = None \<and> \<not> has_open proj (snd (act_close e d proj))"
proof (cases "filter (open_fp (pr_Tenant proj) (errorrate_fp proj)) (incidents d)")
  case Nil
  then show ?thesis
    using assms by (simp add: act_close_def CloseByFingerprint_def healthy_reads has_open_def)
next
  case (Cons r rs)
  let ?d = "d\<lparr>incidents := map (\<lambda>r. if open_fp (pr_Tenant proj) (errorrate_fp proj) r
      then close_row e ReasonRecovered r else r) (incidents d)\<rparr>"
  have "\<not> has_open proj ?d" by (simp add: has_open_def)
  then have "\<not> has_open proj (q_AddIncidentUpdate e ?d i k x)" for i k x
    by (simp add: has_open_same [OF same_AddUpdate])
  with Cons show ?thesis
    using assms by (simp add: act_close_def CloseByFingerprint_def q_CloseIncidentByFingerprint_def healthy_reads)
qed

lemma act_open_healthy:
  assumes "no_faults e" and "\<not> has_open proj d"
    and "d_Tenant p = pr_Tenant proj" "d_Fingerprint p = errorrate_fp proj"
  shows "fst (act_open F e d proj p) = None \<and> has_open proj (snd (act_open F e d proj p)) \<and>
    times_of proj (snd (act_open F e d proj p)) = times_of proj d @ [now e] \<and>
    last_fire proj (snd (act_open F e d proj p)) = Some (now e)"
proof -
  have none: "q_GetOpenIncidentByFingerprint e d (d_Tenant p) (d_Fingerprint p) = NoRows"
    using assms by (simp add: healthy_reads has_open_def)
  obtain row d1 where row: "q_OpenIncident e d (d_Tenant p) (d_Project p) (d_Monitor p) (d_Detector p)
      (d_Fingerprint p) (d_Title p) detectStatus = Some (row, d1)"
    using assms(1) by (simp add: q_OpenIncident_def Let_def)
  obtain d' where d': "OpenDetect e d p = (Inr (i_id row, True), d')" "same_incidents d1 d'"
    using none row by (auto simp: OpenDetect_def Let_def intro!: frame_steps same_refl)
  let ?d = "q_UpsertErrorAlertState e d' (pr_Tenant proj) (pr_ID proj) (errorrate_fp proj) errorrate_kind"
  have act: "act_open F e d proj p = (None, ?d)" using d' assms(1) by (simp add: act_open_def)
  have "has_open proj d1" "times_of proj d1 = times_of proj d @ [now e]"
    using row assms(3,4)
    by (auto simp: q_OpenIncident_def Let_def has_open_def open_fp_def fp_times_def split: if_splits)
  then have "has_open proj d'" "times_of proj d' = times_of proj d @ [now e]"
    using has_open_same [OF d'(2)] fp_times_same [OF d'(2)] by simp_all
  moreover have "has_open proj ?d = has_open proj d'" "times_of proj ?d = times_of proj d'"
    by (simp_all add: q_UpsertErrorAlertState_def has_open_def fp_times_def)
  moreover have "last_fire proj ?d = Some (now e)"
    using assms(1) by (simp add: last_fire_def q_UpsertErrorAlertState_def update_conv')
  ultimately show ?thesis by (simp add: act)
qed

section \<open>Properties\<close>

text \<open>Scans of one project, each in its own environment with its own answers from the ring.\<close>

fun detect_run ::
  "'f float64 \<Rightarrow> project_row \<Rightarrow> ('f ring_reads \<times> env) list \<Rightarrow> db \<Rightarrow> db" where
  "detect_run F proj [] d = d"
| "detect_run F proj ((R, e) # ticks) d = detect_run F proj ticks (snd (detect_scanProject F R e d proj))"

text \<open>What the run keeps: every incident is apart from the one before, and the memory is not older than the last.\<close>

definition spaced :: "project_row \<Rightarrow> db \<Rightarrow> bool" where
  "spaced proj d \<longleftrightarrow>
     sorted_wrt (\<lambda>a b. b - a > CooldownPeriod) (times_of proj d) \<and>
     (\<forall>x \<in> set (times_of proj d). \<exists>l. last_fire proj d = Some l \<and> x \<le> l \<and> \<not> IsZero l)"

lemma spaced_step:
  assumes "spaced proj d" and "0 < now e"
    and "\<not> fl e ''UpsertErrorAlertState'' [pr_Tenant proj, pr_ID proj, errorrate_fp proj]"
  shows "spaced proj (snd (detect_scanProject F R e d proj))"
proof (cases rule: scan_cases [of F R e d proj])
  case (opens d')
  have apart: "now e - x > CooldownPeriod" if x: "x \<in> set (times_of proj d)" for x
  proof -
    obtain l where "last_fire proj d = Some l" "x \<le> l" "\<not> IsZero l"
      using assms(1) x by (auto simp: spaced_def)
    with opens(3) show ?thesis by auto
  qed
  have "CooldownPeriod > 0" by (simp add: CooldownPeriod_def minute_def second_def)
  then have "x \<le> now e" if "x \<in> set (times_of proj d')" for x
    using that apart opens(2) by fastforce
  moreover have "sorted_wrt (\<lambda>a b. b - a > CooldownPeriod) (times_of proj d')"
    using assms(1) apart opens(2) by (simp add: spaced_def sorted_wrt_append)
  ultimately show ?thesis
    using opens(1,4) assms(2,3) by (simp add: spaced_def IsZero_def zero_time_def)
next
  case (keeps d')
  with assms(1) show ?thesis by (simp add: spaced_def)
qed

text \<open>Two error-rate incidents of one project are further apart than the thirty-minute cooldown. Over any
  run of scans at times after Go's zero time, whatever the ring and the detector answer and whichever other
  database calls fail, as long as the write that remembers the alert does not.\<close>

theorem incidents_respect_the_cooldown:
  assumes "times_of proj d = []"
    and "\<And>R e. (R, e) \<in> set ticks \<Longrightarrow>
      0 < now e \<and> \<not> fl e ''UpsertErrorAlertState'' [pr_Tenant proj, pr_ID proj, errorrate_fp proj]"
  shows "sorted_wrt (\<lambda>a b. b - a > CooldownPeriod) (times_of proj (detect_run F proj ticks d))"
proof -
  have run: "spaced proj (detect_run F proj ticks d)" if "spaced proj d"
    using that assms(2)
  proof (induction F proj ticks d rule: detect_run.induct)
    case (2 F proj R e ticks d)
    then show ?case using spaced_step [of proj d e F R] by fastforce
  qed auto
  have "spaced proj d" using assms(1) by (simp add: spaced_def)
  then show ?thesis using run by (simp add: spaced_def)
qed

text \<open>The error-rate incident stays unique across every tick.\<close>

lemma detect_scanProject_inv [inv_intros]:
  assumes "inc_inv k d"
  shows "inc_inv k (snd (detect_scanProject F R e d proj))"
proof (cases rule: scan_path [of F R e d proj])
  case (acts errs n dec median mad suppressed)
  let ?p = "errorrate_open F proj (now e) errs n dec median mad"
  have "inc_inv k (snd (OpenDetect e d ?p))" by (rule OpenDetect_inv) (simp_all add: assms)
  moreover have "inc_inv kk (q_UpsertErrorAlertState e d' t pid fp k) = inc_inv kk d'" for d' t pid fp k kk
    by (simp add: q_UpsertErrorAlertState_def inc_inv_def open_count_def open_key_count_def)
  ultimately have "inc_inv k (snd (act_open F e d proj ?p))"
    by (auto simp: act_open_def split: prod.splits sum.splits)
  moreover have "inc_inv k (snd (CloseByFingerprint e d (pr_Tenant proj) (errorrate_fp proj) ReasonRecovered
      ''Error rate back to normal''))"
    by (rule CloseByFingerprint_inv) (rule assms)
  then have "inc_inv k (snd (act_close e d proj))"
    by (auto simp: act_close_def split: prod.splits option.splits)
  ultimately show ?thesis using acts(4) assms by (simp split: action.split)
qed (simp add: assms)

lemma detect_loop_inv: "inc_inv k d \<Longrightarrow> inc_inv k (snd (detect_loop F R e ps d))"
proof (induction ps arbitrary: d)
  case (Cons p ps)
  obtain x d1 where "detect_scanProject F R e d p = (x, d1)" by (metis surj_pair)
  with detect_scanProject_inv [OF Cons.prems, of F R e p] Cons.IH [of d1] show ?case
    by (auto split: prod.split)
qed simp

text \<open>C18. A tick does what the decision says. With the database and the ring answering: when the detector does
  not fire, no error-rate incident of the project is open afterwards and nothing else is recorded; when it fires and nothing suppresses it (no
  open incident, no deploy in the last ninety seconds, the cooldown over) exactly one incident is
  opened, dated now, and the alert is remembered; a suppressed fire leaves the database as it was.\<close>

theorem scan_follows_decision:
  assumes "no_faults e"
    and "ErrorWindow R (pr_Tenant proj) (pr_ID proj) (fst (windowBounds (now e))) (snd (windowBounds (now e))) = Some (errs, n)"
    and "score_window F R proj (now e) errs n = Inr (dec, median, mad)"
    and "LastDeploy R (pr_Tenant proj) (pr_ID proj) = Some dep"
  shows "fst (detect_scanProject F R e d proj) = None \<and>
    (if \<not> Fire dec then
       \<not> has_open proj (snd (detect_scanProject F R e d proj)) \<and>
       times_of proj (snd (detect_scanProject F R e d proj)) = times_of proj d \<and>
       last_fire proj (snd (detect_scanProject F R e d proj)) = last_fire proj d
     else if fire_allowed proj d dep (now e) then
       has_open proj (snd (detect_scanProject F R e d proj)) \<and>
       times_of proj (snd (detect_scanProject F R e d proj)) = times_of proj d @ [now e] \<and>
       last_fire proj (snd (detect_scanProject F R e d proj)) = Some (now e)
     else snd (detect_scanProject F R e d proj) = d)"
proof -
  let ?p = "errorrate_open F proj (now e) errs n dec median mad"
  obtain s where s: "suppress_fire e R d proj (Fire dec) (has_open proj d) = Inr s"
      "Fire dec \<Longrightarrow> s \<longleftrightarrow> \<not> fire_allowed proj d dep (now e)"
    using suppress_healthy [OF assms(1,4)] by metis
  have scan: "detect_scanProject F R e d proj =
      (case decide (Fire dec) s (has_open proj d) of
         actOpen \<Rightarrow> act_open F e d proj ?p | actClose \<Rightarrow> act_close e d proj | actNone \<Rightarrow> (None, d))"
    by (rule scan_healthy [OF assms(1-3) s(1)])
  show ?thesis
  proof (cases "Fire dec")
    case False
    then show ?thesis
      using scan act_close_frame [of proj e d] act_close_healthy [OF assms(1), of d proj]
      by (cases "has_open proj d") (simp_all add: decide_def)
  next
    case True
    show ?thesis
    proof (cases "fire_allowed proj d dep (now e)")
      case True
      then have "\<not> has_open proj d" by (simp add: fire_allowed_def)
      with True \<open>Fire dec\<close> s(2) show ?thesis
        using scan act_open_healthy [OF assms(1), of proj d ?p F] by (simp add: decide_def)
    next
      case False
      with \<open>Fire dec\<close> s(2) show ?thesis using scan by (simp add: decide_def)
    qed
  qed
qed

section \<open>Witnesses\<close>

text \<open>Exact rationals in place of \<^verbatim>\<open>float64\<close>, a ring with five errors in twenty lines and no baseline.\<close>

definition rat_float :: "rat float64" where
  "rat_float = \<lparr>f_of = of_int, f_const = (\<lambda>p q. of_int p / of_int q), f_div = (/), f_sub = (-), f_mul = (*),
     f_gt = (>), f_le = (\<le>), f_min = min, f_trunc = (\<lambda>x. of_int (if 0 \<le> x then \<lfloor>x\<rfloor> else \<lceil>x\<rceil>)),
     f_eq = (=), f_int = floor,
     f_format1 = (\<lambda>x. itoa (\<lfloor>x * 10\<rfloor> div 10) @ ''.'' @ itoa (\<lfloor>x * 10\<rfloor> mod 10))\<rparr>"

definition spike_ring :: "rat ring_reads" where
  "spike_ring = \<lparr>ErrorWindow = (\<lambda>t p a b. Some (5, 20)), ErrorRateBaseline = (\<lambda>t p a b. Some (0, 0)),
     LastDeploy = (\<lambda>t p. Some 0)\<rparr>"

definition shop_project :: project_row where
  "shop_project = \<lparr>pr_ID = 4, pr_Tenant = 3, pr_Domain = ''shop.example''\<rparr>"

abbreviation env_at :: "time \<Rightarrow> env" where
  "env_at t \<equiv> quiet_env\<lparr>now := t\<rparr>"

theorem incidents_respect_the_cooldown_witness:
  "sorted_wrt (\<lambda>a b. b - a > CooldownPeriod)
     (times_of shop_project (detect_run rat_float shop_project
        [(spike_ring, env_at hour), (spike_ring, env_at (2 * hour))] empty_db))"
proof -
  have z: "times_of shop_project empty_db = []" by (simp add: fp_times_def empty_db_def)
  have h: "0 < hour" by (simp add: hour_def minute_def second_def)
  show ?thesis
    by (rule incidents_respect_the_cooldown [OF z]) (use h in \<open>auto simp: quiet_env_def\<close>)
qed

lemma spike_fires:
  "score_window rat_float spike_ring proj t 5 20 =
     Inr (\<lparr>Fire = True, d_Reason = ''error rate above 10%'', Score = 1 / 4\<rparr>, 0, 0)"
  by (simp add: score_window_def baselineBounds_def windowBounds_def Let_def spike_ring_def ErrorRate_def rat_float_def)

theorem scan_follows_decision_witness:
  "has_open shop_project (snd (detect_scanProject rat_float spike_ring (env_at hour) empty_db shop_project)) \<and>
   times_of shop_project (snd (detect_scanProject rat_float spike_ring (env_at hour) empty_db shop_project)) = [hour]"
proof -
  have nf: "no_faults (env_at hour)" by (simp add: no_faults_def quiet_env_def)
  have empty: "\<not> has_open shop_project empty_db" "times_of shop_project empty_db = []"
      "last_fire shop_project empty_db = None"
    by (simp_all add: has_open_def fp_times_def last_fire_def empty_db_def)
  then have allowed: "fire_allowed shop_project empty_db 0 hour"
    by (simp add: fire_allowed_def IsZero_def zero_time_def)
  show ?thesis
    using scan_follows_decision [where d = empty_db and dep = 0, OF nf _ spike_fires [of shop_project "now (env_at hour)"]]
      allowed empty
    by (simp add: spike_ring_def)
qed

end
