(* ===== verification/ProbeService.thy ===== *)
theory ProbeService
  imports HeartbeatLife Suppression Faults
begin

text \<open>
  The probe fleet's service, \<^verbatim>\<open>back/internal/rpc/probeservice.go\<close>: leasing due targets to a node,
  taking its results through the availability detector into facts, schedule, raw rows and incidents,
  and a node reporting itself blind. The website targets' side of the database (targets, schedule,
  refusal backoff, nodes) is the record \<open>fleet\<close> around the shared \<open>db\<close>. The SQL function
  \<^verbatim>\<open>_uc_effective_interval\<close> and the host pages that keep a target alive are parameters.
\<close>

section \<open>The fleet\<close>

record target_row =
  t_id :: int
  t_kind :: string
  t_url :: string
  t_keyword :: "string option"
  t_first_ok :: "time option"

record schedule_row =
  ts_target :: int
  ts_due :: time
  ts_leased :: "string option"
  ts_until :: "time option"

record node_row =
  n_id :: string
  n_region :: string
  n_seen :: time
  n_blind :: "time option"

record refusal_row =
  rf_refusals :: int
  rf_backoff :: "time option"

record fleet =
  base :: db
  targets :: "target_row list"
  schedule :: "schedule_row list"
  refusals :: "(int \<times> refusal_row) list"
  expiries :: "(int \<times> time) list"
  nodes :: "node_row list"

text \<open>\<open>eff\<close>: \<^verbatim>\<open>_uc_effective_interval\<close>; \<open>page_live\<close>: a live host page references the target.\<close>

record fleet_env =
  fe :: env
  eff :: "db \<Rightarrow> int \<Rightarrow> int"
  page_live :: "db \<Rightarrow> int \<Rightarrow> bool"
  unix_nano :: int

section \<open>schedule.sql\<close>

definition active_on :: "fleet \<Rightarrow> int \<Rightarrow> monitor_row \<Rightarrow> bool" where
  "active_on s tid m \<longleftrightarrow> m_target_id m = tid \<and> \<not> m_paused m \<and> m_project m \<notin> set (frozen_projects (base s))"

definition paying :: "fleet \<Rightarrow> int \<Rightarrow> bool" where
  "paying s tid \<longleftrightarrow> (\<exists>m \<in> set (monitors (base s)).
     active_on s tid m \<and> (case map_of (plans (base s)) (m_tenant m) of None \<Rightarrow> False | Some p \<Rightarrow> p \<noteq> ''Free''))"

definition lease_free :: "time \<Rightarrow> schedule_row \<Rightarrow> bool" where
  "lease_free t r \<longleftrightarrow> ts_leased r = None \<or> (case ts_until r of None \<Rightarrow> False | Some u \<Rightarrow> u < t)"

definition due_target :: "fleet_env \<Rightarrow> fleet \<Rightarrow> target_row \<times> schedule_row \<Rightarrow> bool" where
  "due_target f s = (\<lambda>(t, r).
     ts_target r = t_id t \<and> ts_due r \<le> now (fe f) \<and> lease_free (now (fe f)) r \<and>
     t_kind t \<noteq> ''heartbeat'' \<and>
     ((\<exists>m \<in> set (monitors (base s)). active_on s (t_id t) m) \<or> page_live f (base s) (t_id t)) \<and>
     (case map_of (refusals s) (t_id t) of
        None \<Rightarrow> True
      | Some x \<Rightarrow> (case rf_backoff x of None \<Rightarrow> True | Some b \<Rightarrow> b < now (fe f))))"

definition q_LeaseDueTargets :: "fleet_env \<Rightarrow> fleet \<Rightarrow> nat \<Rightarrow> (target_row \<times> schedule_row) list res" where
  "q_LeaseDueTargets f s n =
     (if fl (fe f) ''LeaseDueTargets'' [] then Fault
      else Row (take n (sort_key (\<lambda>(t, r). (\<not> paying s (t_id t), ts_due r))
                  (filter (due_target f s) (List.product (targets s) (schedule s))))))"

definition take_lease :: "time \<Rightarrow> string \<Rightarrow> schedule_row \<Rightarrow> schedule_row" where
  "take_lease t nodeID r = r\<lparr>ts_leased := Some nodeID, ts_until := Some (Add t (5 * minute))\<rparr>"

definition q_SetLease :: "fleet_env \<Rightarrow> fleet \<Rightarrow> string \<Rightarrow> int list \<Rightarrow> fleet" where
  "q_SetLease f s nodeID ids =
     (if fl (fe f) ''SetLease'' [] then s
      else s\<lparr>schedule := map (\<lambda>r. if ts_target r \<in> set ids \<and> lease_free (now (fe f)) r
                                   then take_lease (now (fe f)) nodeID r else r) (schedule s)\<rparr>)"

definition q_UpsertProbeNode :: "fleet_env \<Rightarrow> fleet \<Rightarrow> string \<Rightarrow> string \<Rightarrow> fleet" where
  "q_UpsertProbeNode f s nodeID region =
     (if fl (fe f) ''UpsertProbeNode'' [] then s
      else if \<exists>x \<in> set (nodes s). n_id x = nodeID
      then s\<lparr>nodes := map (\<lambda>x. if n_id x = nodeID then x\<lparr>n_region := region, n_seen := now (fe f)\<rparr> else x) (nodes s)\<rparr>
      else s\<lparr>nodes := nodes s @ [\<lparr>n_id = nodeID, n_region = region, n_seen = now (fe f), n_blind = None\<rparr>]\<rparr>)"

definition q_MarkProbeBlind :: "fleet_env \<Rightarrow> fleet \<Rightarrow> string \<Rightarrow> fleet" where
  "q_MarkProbeBlind f s nodeID =
     (if fl (fe f) ''MarkProbeBlind'' [] then s
      else s\<lparr>nodes := map (\<lambda>x. if n_id x = nodeID \<and> n_blind x = None then x\<lparr>n_blind := Some (now (fe f))\<rparr> else x) (nodes s)\<rparr>)"

definition q_ClearLeasesForNode :: "fleet_env \<Rightarrow> fleet \<Rightarrow> string \<Rightarrow> fleet" where
  "q_ClearLeasesForNode f s nodeID =
     (if fl (fe f) ''ClearLeasesForNode'' [] then s
      else s\<lparr>schedule := map (\<lambda>r. if ts_leased r = Some nodeID then r\<lparr>ts_leased := None, ts_until := None\<rparr> else r) (schedule s)\<rparr>)"

definition q_ClearLeaseAndScheduleTarget :: "fleet_env \<Rightarrow> fleet \<Rightarrow> int \<Rightarrow> int \<Rightarrow> fleet" where
  "q_ClearLeaseAndScheduleTarget f s secs tid =
     (if fl (fe f) ''ClearLeaseAndScheduleTarget'' [tid] then s
      else s\<lparr>schedule := map (\<lambda>r. if ts_target r = tid
        then r\<lparr>ts_leased := None, ts_until := None, ts_due := Add (now (fe f)) (secs * second)\<rparr> else r) (schedule s)\<rparr>)"

text \<open>The facts of \<^verbatim>\<open>target_facts\<close>: the detector's columns live in the shared database, the backoff here.\<close>

definition q_GetFleetFacts :: "fleet_env \<Rightarrow> fleet \<Rightarrow> int \<Rightarrow> (facts_row \<times> int) res" where
  "q_GetFleetFacts f s tid =
     (case q_GetTargetFacts (fe f) (base s) tid of
        Row x \<Rightarrow> Row (x, case map_of (refusals s) tid of None \<Rightarrow> 0 | Some y \<Rightarrow> rf_refusals y)
      | NoRows \<Rightarrow> NoRows
      | Fault \<Rightarrow> Fault)"

definition q_UpsertFleetFacts :: "fleet_env \<Rightarrow> fleet \<Rightarrow> int \<Rightarrow> avail_state \<Rightarrow> refusal_row \<Rightarrow> fleet" where
  "q_UpsertFleetFacts f s tid st x =
     (case q_UpsertTargetFacts (fe f) (base s) tid st of
        None \<Rightarrow> s
      | Some d \<Rightarrow> s\<lparr>base := d, refusals := AList.update tid x (refusals s)\<rparr>)"

definition q_UpdateTargetFactsExpiry :: "fleet_env \<Rightarrow> fleet \<Rightarrow> int \<Rightarrow> time \<Rightarrow> fleet" where
  "q_UpdateTargetFactsExpiry f s tid t =
     (if fl (fe f) ''UpdateTargetFactsExpiry'' [tid] \<or> facts_of (base s) tid = None then s
      else s\<lparr>expiries := AList.update tid t (expiries s)\<rparr>)"

definition q_SetTargetFirstOk :: "fleet_env \<Rightarrow> fleet \<Rightarrow> int \<Rightarrow> fleet" where
  "q_SetTargetFirstOk f s tid =
     (if fl (fe f) ''SetTargetFirstOk'' [tid] then s
      else s\<lparr>targets := map (\<lambda>t. if t_id t = tid \<and> t_first_ok t = None then t\<lparr>t_first_ok := Some (now (fe f))\<rparr> else t) (targets s)\<rparr>)"

definition q_EffectiveInterval :: "fleet_env \<Rightarrow> fleet \<Rightarrow> int \<Rightarrow> int res" where
  "q_EffectiveInterval f s tid =
     (if fl (fe f) ''EffectiveIntervalForTarget'' [tid] then Fault
      else if \<exists>t \<in> set (targets s). t_id t = tid then Row (eff f (base s) tid) else NoRows)"

definition q_ActiveSubscriberMonitors :: "fleet_env \<Rightarrow> fleet \<Rightarrow> int \<Rightarrow> int list res" where
  "q_ActiveSubscriberMonitors f s tid =
     (if fl (fe f) ''ActiveSubscriberMonitors'' [tid] then Fault
      else Row (map m_id (filter (\<lambda>m. m_target_id m = tid \<and> \<not> m_paused m) (monitors (base s)))))"

definition q_AllSubscriberMonitors :: "fleet_env \<Rightarrow> fleet \<Rightarrow> int \<Rightarrow> int list res" where
  "q_AllSubscriberMonitors f s tid =
     (if fl (fe f) ''AllSubscriberMonitors'' [tid] then Fault
      else Row (map m_id (filter (\<lambda>m. m_target_id m = tid) (monitors (base s)))))"

section \<open>The wire\<close>

datatype ErrorClass =
    EC_UNSPECIFIED | EC_NONE | EC_DNS | EC_CONNECT | EC_TLS | EC_TIMEOUT | EC_STATUS
  | EC_KEYWORD_MISSING | EC_BLOCKED_TARGET | EC_CHALLENGE

definition errClassStr :: "ErrorClass \<Rightarrow> string" where
  "errClassStr c =
     (case c of
        EC_DNS \<Rightarrow> ''dns'' | EC_CONNECT \<Rightarrow> ''connect'' | EC_TLS \<Rightarrow> ''tls'' | EC_TIMEOUT \<Rightarrow> ''timeout''
      | EC_STATUS \<Rightarrow> ''status'' | EC_KEYWORD_MISSING \<Rightarrow> ''keyword_missing''
      | EC_BLOCKED_TARGET \<Rightarrow> ''blocked_target'' | EC_CHALLENGE \<Rightarrow> ''challenge'' | EC_NONE \<Rightarrow> ''none''
      | EC_UNSPECIFIED \<Rightarrow> '''')"

record CheckResult =
  cr_TargetId :: int
  cr_Ok :: bool
  cr_StatusCode :: int
  cr_ErrorClass :: ErrorClass
  cr_RetryAfterSec :: int
  cr_SslExpiresAt :: "time option"

record CheckSpec =
  cs_CheckId :: string
  cs_TargetId :: int
  cs_Url :: string
  cs_Keyword :: string
  cs_TimeoutMs :: int
  cs_MaxRedirects :: int
  cs_MaxBodyBytes :: int

datatype rpc_error = Unauthenticated | Internal

definition authReq :: "string \<Rightarrow> string \<Rightarrow> bool" where
  "authReq header token \<longleftrightarrow> has_prefix header ''Bearer '' \<and> trim_prefix header ''Bearer '' = token"

section \<open>Lease\<close>

definition spec_of :: "fleet_env \<Rightarrow> string \<Rightarrow> nat \<times> target_row \<times> schedule_row \<Rightarrow> CheckSpec" where
  "spec_of f nodeID = (\<lambda>(i, t, r).
     let kw = (case t_keyword t of None \<Rightarrow> '''' | Some k \<Rightarrow> k) in
     \<lparr>cs_CheckId = nodeID @ ''-'' @ itoa (unix_nano f + int i), cs_TargetId = t_id t, cs_Url = t_url t,
      cs_Keyword = kw, cs_TimeoutMs = 10000, cs_MaxRedirects = 5,
      cs_MaxBodyBytes = (if kw \<noteq> '''' then 262144 else 65536)\<rparr>)"

definition lease_capacity :: "int \<Rightarrow> nat" where
  "lease_capacity capacity = nat (if capacity \<le> 0 then 50 else capacity)"

text \<open>
  \<^verbatim>\<open>Lease\<close> reads and writes in two statements of their own: \<open>lease_read\<close> up to the read of the due targets, \<open>lease_write\<close> the
  rest, so that two calls can be interleaved. \<open>Lease\<close> is one call with nothing between them.
\<close>

definition lease_read :: "fleet_env \<Rightarrow> string \<Rightarrow> string \<Rightarrow> int \<Rightarrow> fleet \<Rightarrow> (target_row \<times> schedule_row) list res \<times> fleet" where
  "lease_read f nodeID region capacity s =
     (let s = q_UpsertProbeNode f s nodeID region
      in (q_LeaseDueTargets f s (lease_capacity capacity), s))"

definition lease_write ::
  "fleet_env \<Rightarrow> string \<Rightarrow> int \<Rightarrow> (target_row \<times> schedule_row) list \<Rightarrow> fleet \<Rightarrow> (CheckSpec list \<times> int) \<times> fleet" where
  "lease_write f nodeID capacity dues s =
     (if length dues = 0 then (([], 5000), s)
      else
        let ids = map (\<lambda>(t, r). t_id t) dues;
            s = q_SetLease f s nodeID ids;
            specs = map (spec_of f nodeID) (enumerate 0 dues);
            pace = (if length dues = lease_capacity capacity then 2000 else 30000)
        in ((specs, pace), s))"

definition Lease ::
  "fleet_env \<Rightarrow> string \<Rightarrow> string \<Rightarrow> string \<Rightarrow> string \<Rightarrow> int \<Rightarrow> fleet \<Rightarrow> (rpc_error + CheckSpec list \<times> int) \<times> fleet" where
  "Lease f token header nodeID region capacity s =
     (if \<not> authReq header token then (Inl Unauthenticated, s)
      else case lease_read f nodeID region capacity s of
        (Row dues, s) \<Rightarrow> (case lease_write f nodeID capacity dues s of (resp, s) \<Rightarrow> (Inr resp, s))
      | (_, s) \<Rightarrow> (Inl Internal, s))"

section \<open>SubmitResults\<close>

definition day :: duration where "day = 24 * hour"

definition backoffFor :: "time \<Rightarrow> bool \<Rightarrow> int \<Rightarrow> int \<Rightarrow> int \<Rightarrow> int \<times> time option" where
  "backoffFor t unmeasured prevRefusals intervalSec retryAfterSec =
     (if \<not> unmeasured then (0, None)
      else
        let n = prevRefusals + 1;
            shift = (if n > 6 then 6 else n);
            delay = wrap64 (wrap64 (intervalSec * second) * 2 ^ nat shift);
            delay = (if delay > day then day else delay);
            ra = wrap64 (retryAfterSec * second);
            delay = (if ra > delay then ra else delay)
        in (n, Some (Add t delay)))"

definition monitorTitle :: "fleet_env \<Rightarrow> fleet \<Rightarrow> int \<Rightarrow> CheckResult \<Rightarrow> string" where
  "monitorTitle f s monitorID res =
     (case q_GetMonitorForIncident (fe f) (base s) monitorID of
        Row mon \<Rightarrow>
          (let name = (if m_monitor_name mon = '''' then m_target mon else m_monitor_name mon)
           in v_Title (Build name (errClassStr (cr_ErrorClass res)) (cr_StatusCode res)))
      | _ \<Rightarrow> ''Service down'')"

fun open_all :: "fleet_env \<Rightarrow> CheckResult \<Rightarrow> int \<Rightarrow> int list \<Rightarrow> fleet \<Rightarrow> fleet" where
  "open_all f res interval [] s = s"
| "open_all f res interval (mid # mids) s =
     open_all f res interval mids
       (s\<lparr>base := snd (Open_incident (fe f) (base s) mid (monitorTitle f s mid res) interval)\<rparr>)"

fun close_each :: "fleet_env \<Rightarrow> int list \<Rightarrow> fleet \<Rightarrow> fleet" where
  "close_each f [] s = s"
| "close_each f (mid # mids) s =
     close_each f mids (s\<lparr>base := snd (Close_incident (fe f) (base s) mid ReasonRecovered)\<rparr>)"

definition fan_out :: "fleet_env \<Rightarrow> CheckResult \<Rightarrow> int \<Rightarrow> string \<Rightarrow> bool \<Rightarrow> fleet \<Rightarrow> fleet" where
  "fan_out f res interval status closed s =
     (let tid = cr_TargetId res;
          s = (if status = StatusDown then
                 (case q_ActiveSubscriberMonitors f s tid of
                    Row subs \<Rightarrow> open_all f res interval subs s
                  | _ \<Rightarrow> s)
               else s)
      in if closed then
           (case q_AllSubscriberMonitors f s tid of Row subs \<Rightarrow> close_each f subs s | _ \<Rightarrow> s)
         else s)"

definition probe_detector :: detector where
  "probe_detector = New_detector DefaultThreshold"

record batch =
  b_fleet :: fleet
  b_rows :: "check_row list"
  b_accepted :: nat
  b_no_target :: nat
  b_unreadable :: nat

definition result_outcome :: "CheckResult \<Rightarrow> outcome" where
  "result_outcome res =
     (if cr_Ok res then OutcomeOK
      else if Unmeasured (errClassStr (cr_ErrorClass res)) (cr_StatusCode res) then OutcomeUnmeasured
      else OutcomeFail)"

text \<open>One readable result: facts, detector, backoff, expiry, first ok, schedule, raw row, incidents.\<close>

definition apply_result ::
  "fleet_env \<Rightarrow> string \<Rightarrow> CheckResult \<Rightarrow> facts_row option \<Rightarrow> int \<Rightarrow> fleet \<Rightarrow> check_row \<times> fleet" where
  "apply_result f region res stored prev s =
     (let tid = cr_TargetId res;
          interval = (case q_EffectiveInterval f s tid of Row x \<Rightarrow> x | _ \<Rightarrow> 900);
          unmeasured = Unmeasured (errClassStr (cr_ErrorClass res)) (cr_StatusCode res);
          st = (case stored of
                  None \<Rightarrow> \<lparr>Status = '''', ConsecutiveFailures = 0, ConsecutiveUnmeasured = 0, LastCheckAt = zero_time\<rparr>
                | Some x \<Rightarrow> \<lparr>Status = tf_status x, ConsecutiveFailures = tf_failures x,
                            ConsecutiveUnmeasured = tf_unmeasured x, LastCheckAt = zero_time\<rparr>);
          (st, out) = Process probe_detector st (result_outcome res) (now (fe f));
          (n, until) = backoffFor (now (fe f)) unmeasured prev interval (cr_RetryAfterSec res);
          s = q_UpsertFleetFacts f s tid st \<lparr>rf_refusals = n, rf_backoff = until\<rparr>;
          s = (case cr_SslExpiresAt res of None \<Rightarrow> s | Some t \<Rightarrow> q_UpdateTargetFactsExpiry f s tid t);
          s = (if cr_Ok res then q_SetTargetFirstOk f s tid else s);
          s = q_ClearLeaseAndScheduleTarget f s interval tid;
          row = \<lparr>ck_target = tid, ck_interval = interval, ck_ts = now (fe f), ck_region = region,
                 ck_ok = cr_Ok res, ck_error = errClassStr (cr_ErrorClass res)\<rparr>;
          s = (if \<not> unmeasured then fan_out f res interval (Status st) (Close out) s else s)
      in (row, s))"

definition submit_one :: "fleet_env \<Rightarrow> string \<Rightarrow> batch \<Rightarrow> CheckResult \<Rightarrow> batch" where
  "submit_one f region b res =
     (if cr_TargetId res = 0 then b\<lparr>b_no_target := b_no_target b + 1\<rparr>
      else case q_GetFleetFacts f (b_fleet b) (cr_TargetId res) of
        Fault \<Rightarrow> b\<lparr>b_unreadable := b_unreadable b + 1\<rparr>
      | NoRows \<Rightarrow>
          (case apply_result f region res None 0 (b_fleet b) of
             (row, s) \<Rightarrow> b\<lparr>b_fleet := s, b_rows := b_rows b @ [row], b_accepted := b_accepted b + 1\<rparr>)
      | Row (x, prev) \<Rightarrow>
          (case apply_result f region res (Some x) prev (b_fleet b) of
             (row, s) \<Rightarrow> b\<lparr>b_fleet := s, b_rows := b_rows b @ [row], b_accepted := b_accepted b + 1\<rparr>))"

definition empty_batch :: "fleet \<Rightarrow> batch" where
  "empty_batch s = \<lparr>b_fleet = s, b_rows = [], b_accepted = 0, b_no_target = 0, b_unreadable = 0\<rparr>"

definition SubmitResults ::
  "fleet_env \<Rightarrow> string \<Rightarrow> string \<Rightarrow> string \<Rightarrow> CheckResult list \<Rightarrow> fleet \<Rightarrow> (rpc_error + batch) \<times> fleet" where
  "SubmitResults f token header region results s =
     (if \<not> authReq header token then (Inl Unauthenticated, s)
      else
        let b = foldl (submit_one f region) (empty_batch s) results;
            s = b_fleet b;
            s = (if has_pgs (fe f) then s\<lparr>base := insert_checks (fe f) (base s) (b_rows b)\<rparr> else s)
        in (Inr b, s))"

definition ReportBlind :: "fleet_env \<Rightarrow> string \<Rightarrow> string \<Rightarrow> string \<Rightarrow> fleet \<Rightarrow> rpc_error option \<times> fleet" where
  "ReportBlind f token header nodeID s =
     (if \<not> authReq header token then (Some Unauthenticated, s)
      else (None, q_ClearLeasesForNode f (q_MarkProbeBlind f s nodeID) nodeID))"

end
