(* ===== verification/ProbeFacts.thy ===== *)
theory ProbeFacts
  imports ProbeService
begin

text \<open>
  What the probe service promises: incidents follow the target's detector state for every subscriber,
  a batch is accounted for result by result, a lease is exclusive between calls that do not overlap (and not between calls that do),
  and the refusal backoff doubles up to a day.
\<close>

section \<open>Projections\<close>

lemma base_ops [simp]:
  "base (q_UpsertProbeNode f s n r) = base s" "base (q_MarkProbeBlind f s n) = base s"
  "base (q_ClearLeasesForNode f s n) = base s" "base (q_ClearLeaseAndScheduleTarget f s secs tid) = base s"
  "base (q_UpdateTargetFactsExpiry f s tid t) = base s" "base (q_SetTargetFirstOk f s tid) = base s"
  "base (q_SetLease f s n ids) = base s"
  by (simp_all add: q_UpsertProbeNode_def q_MarkProbeBlind_def q_ClearLeasesForNode_def
      q_ClearLeaseAndScheduleTarget_def q_UpdateTargetFactsExpiry_def q_SetTargetFirstOk_def q_SetLease_def)

lemma steady_healthy: "no_faults e \<Longrightarrow> steady e"
  by (simp add: steady_def)

section \<open>Opening and closing a set of monitors\<close>

lemma open_all_frame [simp]:
  "monitors (base (open_all f res i mids s)) = monitors (base s)"
  "facts (base (open_all f res i mids s)) = facts (base s)"
  by (induction mids arbitrary: s) (simp_all add: Open_incident_def)

lemma open_all_other: "m \<notin> set mids \<Longrightarrow> open_ids (base (open_all f res i mids s)) m = open_ids (base s) m"
  by (induction mids arbitrary: s) (simp_all add: Open_incident_def open_ids_open_other)

lemma open_once_keeps:
  "steady e \<Longrightarrow> open_ids d m \<noteq> [] \<Longrightarrow> open_ids (snd (Open_incident e d m' title i)) m \<noteq> []"
proof (cases "m = m'")
  case True
  assume "steady e" "open_ids d m \<noteq> []"
  then obtain r rs where "filter (open_for m) (incidents d) = r # rs"
    by (cases "filter (open_for m) (incidents d)") (auto simp: open_ids_def)
  with \<open>steady e\<close> True have "snd (Open_incident e d m' title i) = d"
    by (simp add: Open_incident_def open_incident_def q_GetOpenIncident_def steady_def)
  with \<open>open_ids d m \<noteq> []\<close> show ?thesis by simp
qed (simp add: Open_incident_def open_ids_open_other)

lemma open_all_keeps:
  "steady (fe f) \<Longrightarrow> open_ids (base s) m \<noteq> [] \<Longrightarrow> open_ids (base (open_all f res i mids s)) m \<noteq> []"
  by (induction mids arbitrary: s) (simp_all add: open_once_keeps)

lemma open_all_opens:
  assumes "steady (fe f)" and "m \<in> set mids" and "mon \<in> set (monitors (base s))" and "m_id mon = m"
  shows "open_ids (base (open_all f res i mids s)) m \<noteq> []"
  using assms(2,3)
proof (induction mids arbitrary: s)
  case (Cons x mids)
  let ?s = "s\<lparr>base := snd (Open_incident (fe f) (base s) x (monitorTitle f s x res) i)\<rparr>"
  have mon: "mon \<in> set (monitors (base ?s))" using Cons.prems by (simp add: Open_incident_def)
  show ?case
  proof (cases "m = x")
    case True
    have "open_ids (base ?s) m \<noteq> []"
      using open_ids_open_same [OF assms(1) Cons.prems(2) assms(4)] True by (simp add: Open_incident_def)
    then show ?thesis using open_all_keeps [OF assms(1)] by simp
  next
    case False
    with Cons.IH [OF _ mon] Cons.prems show ?thesis by simp
  qed
qed simp

lemma close_each_frame [simp]:
  "monitors (base (close_each f mids s)) = monitors (base s)"
  "facts (base (close_each f mids s)) = facts (base s)"
  by (induction mids arbitrary: s) simp_all

lemma close_each_ids:
  "steady (fe f) \<Longrightarrow> open_ids (base (close_each f mids s)) m = (if m \<in> set mids then [] else open_ids (base s) m)"
proof (induction mids arbitrary: s)
  case (Cons x mids)
  have "\<not> close_fails (fe f) x" using Cons.prems by (simp add: steady_def close_fails_def)
  with Cons show ?case by (auto simp: open_ids_close)
qed simp

section \<open>One result\<close>

definition honest :: "CheckResult \<Rightarrow> bool" where
  "honest res \<longleftrightarrow> \<not> (cr_Ok res \<and> Unmeasured (errClassStr (cr_ErrorClass res)) (cr_StatusCode res))"

definition stored_state :: "facts_row option \<Rightarrow> avail_state" where
  "stored_state stored =
     (case stored of
        None \<Rightarrow> \<lparr>Status = '''', ConsecutiveFailures = 0, ConsecutiveUnmeasured = 0, LastCheckAt = zero_time\<rparr>
      | Some x \<Rightarrow> \<lparr>Status = tf_status x, ConsecutiveFailures = tf_failures x,
                  ConsecutiveUnmeasured = tf_unmeasured x, LastCheckAt = zero_time\<rparr>)"

text \<open>The state before the fan-out: only the facts of the target have changed in the shared database.\<close>

lemma apply_result_shape:
  assumes "no_faults (fe f)"
    and "Process probe_detector (stored_state stored) (result_outcome res) (now (fe f)) = (st, out)"
  obtains s1 interval where "snd (apply_result f region res stored prev s) =
      (if \<not> Unmeasured (errClassStr (cr_ErrorClass res)) (cr_StatusCode res)
       then fan_out f res interval (Status st) (Close out) s1 else s1)"
    and "base s1 = (base s)\<lparr>facts := upsert_facts
      \<lparr>tf_target = cr_TargetId res, tf_status = Status st, tf_failures = ConsecutiveFailures st,
       tf_unmeasured = ConsecutiveUnmeasured st\<rparr> (facts (base s))\<rparr>"
proof -
  define interval where "interval = (case q_EffectiveInterval f s (cr_TargetId res) of Row x \<Rightarrow> x | _ \<Rightarrow> 900)"
  obtain n u where b: "backoffFor (now (fe f)) (Unmeasured (errClassStr (cr_ErrorClass res)) (cr_StatusCode res))
      prev interval (cr_RetryAfterSec res) = (n, u)" by (metis surj_pair)
  define sa where "sa = q_UpsertFleetFacts f s (cr_TargetId res) st \<lparr>rf_refusals = n, rf_backoff = u\<rparr>"
  define sb where "sb = (case cr_SslExpiresAt res of None \<Rightarrow> sa
      | Some t \<Rightarrow> q_UpdateTargetFactsExpiry f sa (cr_TargetId res) t)"
  define sc where "sc = (if cr_Ok res then q_SetTargetFirstOk f sb (cr_TargetId res) else sb)"
  define s1 where "s1 = q_ClearLeaseAndScheduleTarget f sc interval (cr_TargetId res)"
  have "base s1 = base sa" by (simp add: s1_def sc_def sb_def split: option.split)
  also have "\<dots> = (base s)\<lparr>facts := upsert_facts
      \<lparr>tf_target = cr_TargetId res, tf_status = Status st, tf_failures = ConsecutiveFailures st,
       tf_unmeasured = ConsecutiveUnmeasured st\<rparr> (facts (base s))\<rparr>"
    using assms(1) by (simp add: sa_def q_UpsertFleetFacts_def q_UpsertTargetFacts_def)
  finally have base: "base s1 = \<dots>" .
  have "snd (apply_result f region res stored prev s) =
      (if \<not> Unmeasured (errClassStr (cr_ErrorClass res)) (cr_StatusCode res)
       then fan_out f res interval (Status st) (Close out) s1 else s1)"
    unfolding s1_def sc_def sb_def sa_def interval_def
    using assms(2) b [unfolded interval_def]
    by (simp add: apply_result_def stored_state_def Let_def)
  then show ?thesis by (rule that [OF _ base])
qed

lemma probe_process:
  assumes "Process probe_detector st0 oc t = (st, out)"
  shows "oc = OutcomeUnmeasured \<Longrightarrow> Status st = StatusDown \<longleftrightarrow> Status st0 = StatusDown"
    and "oc = OutcomeFail \<Longrightarrow> \<not> Close out \<and> (Status st0 = StatusDown \<longrightarrow> Status st = StatusDown)"
    and "oc = OutcomeOK \<Longrightarrow> Status st = StatusOK \<and> (Close out \<longleftrightarrow> Status st0 = StatusDown)"
  using assms by (auto simp: process_defs split: if_splits)

section \<open>Incidents follow the target\<close>

definition fan_inv :: "fleet \<Rightarrow> bool" where
  "fan_inv s \<longleftrightarrow>
     (\<forall>m \<in> set (monitors (base s)).
        (if status_of (base s) (m_target_id m) = StatusDown
         then m_paused m \<or> open_ids (base s) (m_id m) \<noteq> []
         else open_ids (base s) (m_id m) = []))"

definition ids_distinct :: "fleet \<Rightarrow> bool" where
  "ids_distinct s \<longleftrightarrow> distinct (map m_id (monitors (base s)))"

lemma ids_distinctD:
  "ids_distinct s \<Longrightarrow> m \<in> set (monitors (base s)) \<Longrightarrow> m' \<in> set (monitors (base s)) \<Longrightarrow> m_id m = m_id m' \<Longrightarrow> m = m'"
  by (auto simp: ids_distinct_def distinct_map dest: inj_onD)

text \<open>The fan-out after a measurable result.\<close>

lemma fan_out_down:
  assumes "no_faults (fe f)" and "ids_distinct s" and "m \<in> set (monitors (base s))"
  shows "monitors (base (fan_out f res i StatusDown False s)) = monitors (base s)"
    and "facts (base (fan_out f res i StatusDown False s)) = facts (base s)"
    and "m_target_id m = cr_TargetId res \<Longrightarrow> \<not> m_paused m \<Longrightarrow>
         open_ids (base (fan_out f res i StatusDown False s)) (m_id m) \<noteq> []"
    and "m_target_id m \<noteq> cr_TargetId res \<or> m_paused m \<Longrightarrow>
         open_ids (base (fan_out f res i StatusDown False s)) (m_id m) = open_ids (base s) (m_id m)"
proof -
  let ?subs = "map m_id (filter (\<lambda>m. m_target_id m = cr_TargetId res \<and> \<not> m_paused m) (monitors (base s)))"
  have eq: "fan_out f res i StatusDown False s = open_all f res i ?subs s"
    using assms(1) by (simp add: fan_out_def q_ActiveSubscriberMonitors_def)
  show "monitors (base (fan_out f res i StatusDown False s)) = monitors (base s)"
    and "facts (base (fan_out f res i StatusDown False s)) = facts (base s)" by (simp_all add: eq)
  show "open_ids (base (fan_out f res i StatusDown False s)) (m_id m) \<noteq> []"
    if "m_target_id m = cr_TargetId res" "\<not> m_paused m"
    unfolding eq by (rule open_all_opens [OF steady_healthy [OF assms(1)] _ assms(3)]) (use that assms(3) in auto)
  show "open_ids (base (fan_out f res i StatusDown False s)) (m_id m) = open_ids (base s) (m_id m)"
    if "m_target_id m \<noteq> cr_TargetId res \<or> m_paused m"
    unfolding eq by (rule open_all_other) (use that ids_distinctD [OF assms(2,3)] in auto)
qed

lemma fan_out_ok:
  assumes "no_faults (fe f)" and "ids_distinct s" and "m \<in> set (monitors (base s))"
  shows "monitors (base (fan_out f res i StatusOK c s)) = monitors (base s)"
    and "facts (base (fan_out f res i StatusOK c s)) = facts (base s)"
    and "open_ids (base (fan_out f res i StatusOK c s)) (m_id m) =
         (if c \<and> m_target_id m = cr_TargetId res then [] else open_ids (base s) (m_id m))"
proof -
  let ?subs = "map m_id (filter (\<lambda>m. m_target_id m = cr_TargetId res) (monitors (base s)))"
  have eq: "fan_out f res i StatusOK c s = (if c then close_each f ?subs s else s)"
    using assms(1) by (simp add: fan_out_def q_AllSubscriberMonitors_def Let_def)
  show "monitors (base (fan_out f res i StatusOK c s)) = monitors (base s)"
    and "facts (base (fan_out f res i StatusOK c s)) = facts (base s)" by (simp_all add: eq)
  have "m_id m \<in> set ?subs \<longleftrightarrow> m_target_id m = cr_TargetId res"
    using ids_distinctD [OF assms(2,3)] assms(3) by auto
  then show "open_ids (base (fan_out f res i StatusOK c s)) (m_id m) =
         (if c \<and> m_target_id m = cr_TargetId res then [] else open_ids (base s) (m_id m))"
    using close_each_ids [OF steady_healthy [OF assms(1)], of ?subs s "m_id m"] by (simp add: eq)
qed

lemma fan_out_quiet: "x \<noteq> StatusDown \<Longrightarrow> fan_out f res i x False s = s"
  by (simp add: fan_out_def Let_def)

lemma apply_result_inv:
  assumes "no_faults (fe f)" and "honest res" and "ids_distinct s" and "fan_inv s"
    and "Status (stored_state stored) = StatusDown \<longleftrightarrow> status_of (base s) (cr_TargetId res) = StatusDown"
  shows "fan_inv (snd (apply_result f region res stored prev s)) \<and>
    monitors (base (snd (apply_result f region res stored prev s))) = monitors (base s)"
proof -
  let ?s = "snd (apply_result f region res stored prev s)" and ?tid = "cr_TargetId res"
  obtain st out where p: "Process probe_detector (stored_state stored) (result_outcome res) (now (fe f)) = (st, out)"
    by (metis surj_pair)
  obtain s1 i where sh: "?s = (if \<not> Unmeasured (errClassStr (cr_ErrorClass res)) (cr_StatusCode res)
        then fan_out f res i (Status st) (Close out) s1 else s1)"
    and b1: "base s1 = (base s)\<lparr>facts := upsert_facts
      \<lparr>tf_target = ?tid, tf_status = Status st, tf_failures = ConsecutiveFailures st,
       tf_unmeasured = ConsecutiveUnmeasured st\<rparr> (facts (base s))\<rparr>"
    using apply_result_shape [OF assms(1) p] by metis
  have mons: "monitors (base s1) = monitors (base s)" and ids: "open_ids (base s1) = open_ids (base s)"
    by (simp_all add: b1 open_ids_def fun_eq_iff)
  have st1: "status_of (base s1) t = (if t = ?tid then Status st else status_of (base s) t)" for t
    by (simp add: b1 status_of_def facts_of_upsert)
  have stat: "status_of d' = status_of d" if "facts d' = facts d" for d d'
    using facts_of_cong [OF that] by (simp add: status_of_def fun_eq_iff)
  have d1: "ids_distinct s1" using assms(3) by (simp add: ids_distinct_def mons)
  have old: "if status_of (base s) (m_target_id m) = StatusDown then m_paused m \<or> open_ids (base s1) (m_id m) \<noteq> []
      else open_ids (base s1) (m_id m) = []" if "m \<in> set (monitors (base s1))" for m
    using assms(4) that by (simp add: fan_inv_def mons ids)
  note pp = probe_process [OF p]
  consider (unm) "result_outcome res = OutcomeUnmeasured" "?s = s1"
    | (down) "result_outcome res = OutcomeFail" "Status st = StatusDown" "?s = fan_out f res i StatusDown False s1"
    | (check) "result_outcome res = OutcomeFail" "Status st \<noteq> StatusDown" "?s = s1"
    | (up) "result_outcome res = OutcomeOK" "?s = fan_out f res i StatusOK (Close out) s1"
  proof (cases "result_outcome res")
    case OutcomeFail
    then have "\<not> Unmeasured (errClassStr (cr_ErrorClass res)) (cr_StatusCode res)"
      by (auto simp: result_outcome_def split: if_splits)
    with OutcomeFail sh pp(2) that(2,3) show ?thesis by (auto simp: fan_out_quiet)
  next
    case OutcomeOK
    then have "\<not> Unmeasured (errClassStr (cr_ErrorClass res)) (cr_StatusCode res)"
      using assms(2) by (auto simp: result_outcome_def honest_def split: if_splits)
    with OutcomeOK sh pp(3) that(4) show ?thesis by simp
  next
    case OutcomeUnmeasured
    then have "Unmeasured (errClassStr (cr_ErrorClass res)) (cr_StatusCode res)"
      by (auto simp: result_outcome_def split: if_splits)
    with OutcomeUnmeasured sh that(1) show ?thesis by simp
  qed
  then show ?thesis
  proof cases
    case unm
    then show ?thesis using old st1 pp(1) assms(5) mons by (simp add: fan_inv_def)
  next
    case check
    then show ?thesis using old st1 pp(2) assms(5) mons by (simp add: fan_inv_def)
  next
    case down
    have m2: "monitors (base ?s) = monitors (base s1)" "status_of (base ?s) = status_of (base s1)" if "m \<in> set (monitors (base s1))" for m
      using fan_out_down(1) [OF assms(1) d1 that, of res i] stat [OF fan_out_down(2) [OF assms(1) d1 that, of res i]]
      unfolding down(3) .
    show ?thesis
    proof (cases "monitors (base s1) = []")
      case True
      then have "?s = s1" using down(3) assms(1) by (simp add: fan_out_def q_ActiveSubscriberMonitors_def)
      then show ?thesis using True mons by (simp add: fan_inv_def)
    next
      case False
      then obtain x where x: "x \<in> set (monitors (base s1))" by (meson last_in_set)
      have "if status_of (base s1) (m_target_id m) = StatusDown then m_paused m \<or> open_ids (base ?s) (m_id m) \<noteq> []
          else open_ids (base ?s) (m_id m) = []" if m: "m \<in> set (monitors (base s1))" for m
        using fan_out_down(3,4) [OF assms(1) d1 m, of res i] old [OF m] st1 [of "m_target_id m"] down(2)
        unfolding down(3) by (cases "m_target_id m = ?tid"; cases "m_paused m") auto
      with m2 [OF x] mons show ?thesis by (simp add: fan_inv_def)
    qed
  next
    case up
    show ?thesis
    proof (cases "monitors (base s1) = []")
      case True
      then have "base ?s = base s1" using up(2) assms(1)
        by (simp add: fan_out_def q_AllSubscriberMonitors_def Let_def)
      then show ?thesis using True mons by (simp add: fan_inv_def)
    next
      case False
      then obtain x where x: "x \<in> set (monitors (base s1))" by (meson last_in_set)
      have m2: "monitors (base ?s) = monitors (base s1)" "status_of (base ?s) = status_of (base s1)"
        using fan_out_ok(1) [OF assms(1) d1 x, of res i "Close out"]
          stat [OF fan_out_ok(2) [OF assms(1) d1 x, of res i "Close out"]]
        unfolding up(2) .
      have "if status_of (base s1) (m_target_id m) = StatusDown then m_paused m \<or> open_ids (base ?s) (m_id m) \<noteq> []
          else open_ids (base ?s) (m_id m) = []" if m: "m \<in> set (monitors (base s1))" for m
        using fan_out_ok(3) [OF assms(1) d1 m, of res i "Close out"] old [OF m] st1 [of "m_target_id m"] pp(3) up(1) assms(5)
        unfolding up(2) by (cases "m_target_id m = ?tid") auto
      with m2 mons show ?thesis by (simp add: fan_inv_def)
    qed
  qed
qed

section \<open>A batch\<close>

lemma GetFleetFacts_state:
  "q_GetFleetFacts f s tid = NoRows \<Longrightarrow> Status (stored_state None) = StatusDown \<longleftrightarrow> status_of (base s) tid = StatusDown"
  "q_GetFleetFacts f s tid = Row (x, prev) \<Longrightarrow> Status (stored_state (Some x)) = StatusDown \<longleftrightarrow> status_of (base s) tid = StatusDown"
  by (auto simp: q_GetFleetFacts_def q_GetTargetFacts_def stored_state_def status_of_def facts_of_def
      split: if_splits res.splits)

lemma submit_one_inv:
  assumes "no_faults (fe f)" and "honest res" and "ids_distinct (b_fleet b)" and "fan_inv (b_fleet b)"
  shows "fan_inv (b_fleet (submit_one f region b res)) \<and>
    monitors (base (b_fleet (submit_one f region b res))) = monitors (base (b_fleet b))"
proof (cases "q_GetFleetFacts f (b_fleet b) (cr_TargetId res)")
  case (Row y)
  obtain x prev where y: "y = (x, prev)" by (cases y)
  from apply_result_inv [OF assms GetFleetFacts_state(2)] Row y
  show ?thesis using assms(4) by (simp add: submit_one_def case_prod_beta)
next
  case NoRows
  from apply_result_inv [OF assms GetFleetFacts_state(1) [OF NoRows]]
  show ?thesis using assms(4) NoRows by (simp add: submit_one_def case_prod_beta)
qed (use assms(4) in \<open>simp add: submit_one_def\<close>)

lemma batch_inv:
  assumes "no_faults (fe f)" and "\<forall>res \<in> set results. honest res"
    and "ids_distinct (b_fleet b)" and "fan_inv (b_fleet b)"
  shows "fan_inv (b_fleet (foldl (submit_one f region) b results)) \<and>
    monitors (base (b_fleet (foldl (submit_one f region) b results))) = monitors (base (b_fleet b))"
  using assms(2-4)
proof (induction results arbitrary: b)
  case (Cons res results)
  from submit_one_inv [OF assms(1) _ Cons.prems(2,3), of res region] Cons.prems(1)
  have s: "fan_inv (b_fleet (submit_one f region b res))"
    "monitors (base (b_fleet (submit_one f region b res))) = monitors (base (b_fleet b))" by simp_all
  then have "ids_distinct (b_fleet (submit_one f region b res))"
    using Cons.prems(2) by (simp add: ids_distinct_def)
  with Cons.IH [of "submit_one f region b res"] Cons.prems(1) s show ?case by simp
qed simp

lemma fan_inv_checks [simp]: "fan_inv (s\<lparr>base := insert_checks e (base s) rows\<rparr>) = fan_inv s"
  by (simp add: fan_inv_def insert_checks_def status_of_def facts_of_def open_ids_def)

lemma SubmitResults_inv:
  assumes "no_faults (fe f)" and "\<forall>res \<in> set results. honest res" and "ids_distinct s" and "fan_inv s"
  shows "fan_inv (snd (SubmitResults f token header region results s)) \<and>
    monitors (base (snd (SubmitResults f token header region results s))) = monitors (base s)"
  using batch_inv [OF assms(1,2), of "empty_batch s" region] assms(3,4)
  by (auto simp: SubmitResults_def Let_def empty_batch_def)

text \<open>Batches of any nodes, each in its own environment.\<close>

record submission =
  sm_env :: fleet_env
  sm_header :: string
  sm_region :: string
  sm_results :: "CheckResult list"

fun submit_run :: "string \<Rightarrow> submission list \<Rightarrow> fleet \<Rightarrow> fleet" where
  "submit_run token [] s = s"
| "submit_run token (x # xs) s =
     submit_run token xs (snd (SubmitResults (sm_env x) token (sm_header x) (sm_region x) (sm_results x) s))"

lemma submit_run_inv:
  assumes "\<forall>x \<in> set xs. no_faults (fe (sm_env x)) \<and> (\<forall>res \<in> set (sm_results x). honest res)"
    and "ids_distinct s" and "fan_inv s"
  shows "fan_inv (submit_run token xs s) \<and> monitors (base (submit_run token xs s)) = monitors (base s)"
  using assms
proof (induction xs arbitrary: s)
  case (Cons x xs)
  let ?s = "snd (SubmitResults (sm_env x) token (sm_header x) (sm_region x) (sm_results x) s)"
  have s: "fan_inv ?s" "monitors (base ?s) = monitors (base s)"
    using SubmitResults_inv [of "sm_env x" "sm_results x" s token "sm_header x" "sm_region x"] Cons.prems by simp_all
  then have "ids_distinct ?s" using Cons.prems(2) by (simp add: ids_distinct_def)
  with Cons.IH [of ?s] Cons.prems(1) s show ?case by simp
qed simp

section \<open>Leases\<close>

lemma map_spec_ids: "map cs_TargetId (map (spec_of f n) (enumerate k dues)) = map (\<lambda>(t, r). t_id t) dues"
  by (induction dues arbitrary: k) (auto simp: spec_of_def Let_def)

lemma lease_write_ids:
  "lease_write f n cap dues s = ((specs, pace), s') \<Longrightarrow> map cs_TargetId specs = map (\<lambda>(t, r). t_id t) dues"
  using map_spec_ids [of f n 0 dues] by (auto simp: lease_write_def Let_def split: if_splits)

lemma LeaseDue_row:
  assumes "q_LeaseDueTargets f (q_UpsertProbeNode f s n region) k = Row dues" and "(t, r) \<in> set dues"
  shows "r \<in> set (schedule s) \<and> ts_target r = t_id t \<and> lease_free (now (fe f)) r"
  using assms by (auto simp: q_LeaseDueTargets_def due_target_def q_UpsertProbeNode_def split: if_splits
      dest!: in_set_takeD)

section \<open>Properties\<close>

text \<open>C1. Incidents follow the target. From a database with no incident and no detector state, after any
  batches of results from any nodes with the database answering (and no result that says both "ok" and "could not measure", which the
  probe's executor never builds), an unpaused subscriber of a target has an open incident
  exactly when the target's detector says down.\<close>

theorem incident_open_iff_target_down:
  assumes "incidents (base s) = []" and "facts (base s) = []" and "distinct (map m_id (monitors (base s)))"
    and "\<And>x. x \<in> set xs \<Longrightarrow> no_faults (fe (sm_env x)) \<and> (\<forall>res \<in> set (sm_results x). honest res)"
    and "m \<in> set (monitors (base s))" and "\<not> m_paused m"
  shows "open_ids (base (submit_run token xs s)) (m_id m) \<noteq> [] \<longleftrightarrow>
    status_of (base (submit_run token xs s)) (m_target_id m) = StatusDown"
proof -
  have "fan_inv s" using assms(1,2) by (simp add: fan_inv_def open_ids_def status_of_def facts_of_def)
  moreover have "ids_distinct s" using assms(3) by (simp add: ids_distinct_def)
  ultimately have "fan_inv (submit_run token xs s) \<and> monitors (base (submit_run token xs s)) = monitors (base s)"
    using submit_run_inv assms(4) by blast
  with assms(5,6) show ?thesis unfolding fan_inv_def by metis
qed

text \<open>No result is silently lost: every result of a batch is accepted with one raw row, or counted as dropped without a
  target, or counted as dropped because its facts could not be read.\<close>

theorem batch_accounts_for_every_result:
  "if authReq header token
   then \<exists>b. fst (SubmitResults f token header region results s) = Inr b \<and>
     b_accepted b + b_no_target b + b_unreadable b = length results \<and> length (b_rows b) = b_accepted b \<and>
     b_no_target b = length (filter (\<lambda>r. cr_TargetId r = 0) results)
   else SubmitResults f token header region results s = (Inl Unauthenticated, s)"
proof -
  have "b_accepted (foldl (submit_one f region) b results) + b_no_target (foldl (submit_one f region) b results) +
      b_unreadable (foldl (submit_one f region) b results) =
        length results + b_accepted b + b_no_target b + b_unreadable b \<and>
      length (b_rows (foldl (submit_one f region) b results)) + b_accepted b =
        b_accepted (foldl (submit_one f region) b results) + length (b_rows b) \<and>
      b_no_target (foldl (submit_one f region) b results) =
        b_no_target b + length (filter (\<lambda>r. cr_TargetId r = 0) results)" for b
  proof (induction results arbitrary: b)
    case (Cons r rs)
    have "b_accepted (submit_one f region b r) + b_no_target (submit_one f region b r) +
        b_unreadable (submit_one f region b r) = Suc (b_accepted b + b_no_target b + b_unreadable b) \<and>
        length (b_rows (submit_one f region b r)) + b_accepted b =
          b_accepted (submit_one f region b r) + length (b_rows b) \<and>
        b_no_target (submit_one f region b r) = b_no_target b + (if cr_TargetId r = 0 then 1 else 0)"
      by (auto simp: submit_one_def split: res.split prod.split)
    with Cons [of "submit_one f region b r"] show ?case by auto
  qed simp
  from this [of "empty_batch s"] show ?thesis
    by (auto simp: SubmitResults_def Let_def empty_batch_def)
qed

text \<open>The refusal backoff: with an interval of at most a day and no overflow in sight, the n-th consecutive
  refusal waits the interval doubled min(n, 6) times, at most a day, and at least what the host
  asked for; a measurable result resets it.\<close>

theorem backoff_doubles_up_to_a_day:
  assumes "0 \<le> prev" and "0 < interval" and "interval \<le> 86400" and "0 \<le> retry" and "retry < 2 ^ 31"
  shows "backoffFor t True prev interval retry =
      (prev + 1, Some (t + max (min (interval * 2 ^ nat (min (prev + 1) 6)) 86400 * second) (retry * second))) \<and>
    backoffFor t False prev interval retry = (0, None)"
proof -
  define sh where "sh = (if prev + 1 > 6 then 6 else prev + 1)"
  have k: "nat sh \<le> 6" by (simp add: sh_def nat_le_iff)
  have k2: "sh = min (prev + 1) 6" by (simp add: sh_def min_def)
  have pow: "(2::int) ^ nat sh \<le> 2 ^ 6" by (rule power_increasing) (use k in simp_all)
  have "interval * second * 2 ^ nat sh \<le> 86400 * second * 2 ^ 6"
    using assms(2,3) pow by (intro mult_mono) (simp_all add: second_def)
  moreover have "0 \<le> interval * second * 2 ^ nat sh" using assms(2) by (simp add: second_def)
  ultimately have w1: "wrap64 (interval * second * 2 ^ nat sh) = interval * second * 2 ^ nat sh"
    by (intro wrap64_id) (simp_all add: min_int64_def max_int64_def second_def)
  have w2: "wrap64 (interval * second) = interval * second" "wrap64 (retry * second) = retry * second"
    using assms by (intro wrap64_id; simp add: min_int64_def max_int64_def second_def)+
  have d: "day = 86400 * second" by (simp add: day_def hour_def minute_def)
  have "0 < second" by (simp add: second_def)
  then have m: "min a b * second = min (a * second) (b * second)" "max a b * second = max (a * second) (b * second)" for a b
    by (simp_all add: min_def max_def)
  have capped: "(if interval * second * 2 ^ nat sh > day then day else interval * second * 2 ^ nat sh) =
      min (interval * 2 ^ nat sh) 86400 * second"
    unfolding d m by (simp add: min_def mult_ac)
  have "backoffFor t True prev interval retry =
      (prev + 1, Some (t + max (min (interval * 2 ^ nat sh) 86400 * second) (retry * second)))"
    unfolding backoffFor_def Let_def sh_def [symmetric] w2 w1 capped
    by (simp add: Add_def max_def)
  then show ?thesis unfolding k2 by (simp add: backoffFor_def)
qed

text \<open>A lease is exclusive between calls that do not overlap: a target handed out by one call is not in the
  answer of a call that starts after it and within five minutes, whatever the second node, capacity and host pages,
  unless writing the lease failed.\<close>

theorem lease_is_exclusive:
  assumes "distinct (map ts_target (schedule s))" and "\<not> fl (fe f) ''SetLease'' []"
    and "Lease f token h1 node1 region1 cap1 s = (Inr (specs1, pace1), s1)"
    and "Lease g token h2 node2 region2 cap2 s1 = (Inr (specs2, pace2), s2)"
    and "now (fe g) \<le> now (fe f) + 5 * minute"
  shows "set (map cs_TargetId specs1) \<inter> set (map cs_TargetId specs2) = {}"
proof -
  obtain dues1 where d1: "q_LeaseDueTargets f (q_UpsertProbeNode f s node1 region1) (lease_capacity cap1) = Row dues1"
    and w1: "lease_write f node1 cap1 dues1 (q_UpsertProbeNode f s node1 region1) = ((specs1, pace1), s1)"
    using assms(3) by (auto simp: Lease_def lease_read_def Let_def split: if_splits res.splits prod.splits)
  obtain dues2 where d2: "q_LeaseDueTargets g (q_UpsertProbeNode g s1 node2 region2) (lease_capacity cap2) = Row dues2"
    and w2: "lease_write g node2 cap2 dues2 (q_UpsertProbeNode g s1 node2 region2) = ((specs2, pace2), s2)"
    using assms(4) by (auto simp: Lease_def lease_read_def Let_def split: if_splits res.splits prod.splits)
  have "set (map cs_TargetId specs1) = set (map (\<lambda>(t, r). t_id t) dues1)" using lease_write_ids [OF w1] by metis
  moreover have "set (map cs_TargetId specs2) = set (map (\<lambda>(t, r). t_id t) dues2)" using lease_write_ids [OF w2] by metis
  moreover have False if x: "x \<in> set (map (\<lambda>(t, r). t_id t) dues1)" "x \<in> set (map (\<lambda>(t, r). t_id t) dues2)" for x
  proof -
    obtain t2 r2 where r2: "(t2, r2) \<in> set dues2" "t_id t2 = x" using x(2) by auto
    then have r2': "r2 \<in> set (schedule s1)" "ts_target r2 = x" "lease_free (now (fe g)) r2"
      using LeaseDue_row [OF d2 r2(1)] by simp_all
    have "dues1 \<noteq> []" using x(1) by auto
    then have s1: "schedule s1 = map (\<lambda>r. if ts_target r \<in> set (map (\<lambda>(t, r). t_id t) dues1) \<and> lease_free (now (fe f)) r
        then take_lease (now (fe f)) node1 r else r) (schedule s)"
      using w1 assms(2) by (auto simp: lease_write_def Let_def q_SetLease_def q_UpsertProbeNode_def)
    obtain t1 r1 where r1: "(t1, r1) \<in> set dues1" "t_id t1 = x" using x(1) by auto
    then have r1': "r1 \<in> set (schedule s)" "ts_target r1 = x" "lease_free (now (fe f)) r1"
      using LeaseDue_row [OF d1 r1(1)] by simp_all
    obtain r0 where r0: "r0 \<in> set (schedule s)"
        "r2 = (if ts_target r0 \<in> set (map (\<lambda>(t, r). t_id t) dues1) \<and> lease_free (now (fe f)) r0
          then take_lease (now (fe f)) node1 r0 else r0)"
      using r2'(1) unfolding s1 set_map by (rule imageE) (rule that; simp)
    have "ts_target r0 = x" using r0(2) r2'(2) by (simp add: take_lease_def split: if_splits)
    then have "r0 = r1" using r0(1) r1'(1,2) assms(1) by (auto simp: distinct_map dest: inj_onD)
    then have "r2 = take_lease (now (fe f)) node1 r1" using r0(2) r1' x(1) by simp
    then show False using r2'(3) assms(5) by (simp add: lease_free_def take_lease_def Add_def)
  qed
  ultimately show ?thesis by blast
qed

text \<open>Two calls that overlap hand the same batch to both nodes: when the second call reads the due targets
  before the first has written its lease, both answers list the same targets, although only the
  first node's lease is written.\<close>

theorem overlapping_leases_share_the_batch:
  assumes "lease_read f node1 region1 cap s = (Row dues1, s1)"
    and "lease_read f node2 region2 cap s1 = (Row dues2, s2)"
  shows "map cs_TargetId (fst (fst (lease_write f node2 cap dues2 (snd (lease_write f node1 cap dues1 s2))))) =
      map cs_TargetId (fst (fst (lease_write f node1 cap dues1 s2))) \<and>
    map cs_TargetId (fst (fst (lease_write f node1 cap dues1 s2))) = map (\<lambda>(t, r). t_id t) dues1"
proof -
  have "q_LeaseDueTargets f (q_UpsertProbeNode f s' n r) k = q_LeaseDueTargets f s' k" for s' n r k
    by (simp add: q_LeaseDueTargets_def due_target_def active_on_def paying_def q_UpsertProbeNode_def)
  then have "dues2 = dues1" using assms by (auto simp: lease_read_def Let_def)
  moreover have "map cs_TargetId (fst (fst (lease_write f n cap dues1 s'))) = map (\<lambda>(t, r). t_id t) dues1" for n s'
    using lease_write_ids [of f n cap dues1 s' _ _ "snd (lease_write f n cap dues1 s')"] by (metis prod.collapse)
  ultimately show ?thesis by simp
qed

section \<open>Witnesses\<close>

definition shop_target :: target_row where
  "shop_target = \<lparr>t_id = 9, t_kind = ''http'', t_url = ''https://shop'', t_keyword = None, t_first_ok = None\<rparr>"

definition shop_slot :: schedule_row where
  "shop_slot = \<lparr>ts_target = 9, ts_due = 0, ts_leased = None, ts_until = None\<rparr>"

definition shop_fleet :: fleet where
  "shop_fleet = \<lparr>base = shop_db, targets = [shop_target], schedule = [shop_slot], refusals = [], expiries = [],
     nodes = []\<rparr>"

definition shop_fe :: fleet_env where
  "shop_fe = \<lparr>fe = quiet_env, eff = (\<lambda>d t. 60), page_live = (\<lambda>d t. False), unix_nano = 0\<rparr>"

definition refused :: CheckResult where
  "refused = \<lparr>cr_TargetId = 9, cr_Ok = False, cr_StatusCode = 0, cr_ErrorClass = EC_CONNECT,
     cr_RetryAfterSec = 0, cr_SslExpiresAt = None\<rparr>"

lemma shop_parts [simp]:
  "base shop_fleet = shop_db" "targets shop_fleet = [shop_target]" "schedule shop_fleet = [shop_slot]"
  "refusals shop_fleet = []" "nodes shop_fleet = []" "fe shop_fe = quiet_env" "monitors shop_db = [shop_monitor]"
  "frozen_projects shop_db = []" "incidents shop_db = []" "facts shop_db = []"
  by (simp_all add: shop_fleet_def shop_fe_def shop_db_def empty_db_def)

lemma quiet_healthy: "no_faults quiet_env"
  by (simp add: no_faults_def quiet_env_def)

theorem incident_open_iff_target_down_witness:
  "open_ids (base (submit_run ''k''
      [\<lparr>sm_env = shop_fe, sm_header = ''Bearer k'', sm_region = ''eu'', sm_results = [refused, refused, refused]\<rparr>]
      shop_fleet)) (m_id shop_monitor) \<noteq> [] \<longleftrightarrow>
   status_of (base (submit_run ''k''
      [\<lparr>sm_env = shop_fe, sm_header = ''Bearer k'', sm_region = ''eu'', sm_results = [refused, refused, refused]\<rparr>]
      shop_fleet)) (m_target_id shop_monitor) = StatusDown"
  by (rule incident_open_iff_target_down)
    (auto simp: quiet_healthy honest_def refused_def shop_monitor_def)

theorem backoff_doubles_up_to_a_day_witness:
  "backoffFor 0 True 2 60 30 = (3, Some (480 * second)) \<and> backoffFor 0 False 2 60 30 = (0, None)"
  using backoff_doubles_up_to_a_day [of 2 60 30 0] by (simp add: second_def)

lemma shop_due:
  "now (fe f) = 0 \<Longrightarrow> \<not> fl (fe f) ''LeaseDueTargets'' [] \<Longrightarrow>
   q_LeaseDueTargets f (q_UpsertProbeNode f shop_fleet n r) 10 = Row [(shop_target, shop_slot)]"
  by (simp add: q_LeaseDueTargets_def due_target_def active_on_def q_UpsertProbeNode_def shop_target_def shop_slot_def
      shop_monitor_def lease_free_def)

theorem overlapping_leases_share_the_batch_witness:
  "map cs_TargetId (fst (fst (lease_write shop_fe ''b'' 10 [(shop_target, shop_slot)]
     (snd (lease_write shop_fe ''a'' 10 [(shop_target, shop_slot)]
        (q_UpsertProbeNode shop_fe (q_UpsertProbeNode shop_fe shop_fleet ''a'' ''eu'') ''b'' ''eu'')))))) = [9]"
proof -
  have c: "lease_capacity 10 = 10" by (simp add: lease_capacity_def)
  have q: "now (fe shop_fe) = 0" "\<not> fl (fe shop_fe) ''LeaseDueTargets'' []" by (simp_all add: quiet_env_def)
  have one: "lease_read shop_fe ''a'' ''eu'' 10 shop_fleet =
      (Row [(shop_target, shop_slot)], q_UpsertProbeNode shop_fe shop_fleet ''a'' ''eu'')"
    by (simp add: lease_read_def Let_def c shop_due [OF q])
  have "q_LeaseDueTargets shop_fe (q_UpsertProbeNode shop_fe (q_UpsertProbeNode shop_fe shop_fleet ''a'' ''eu'') ''b'' ''eu'') 10 =
      q_LeaseDueTargets shop_fe (q_UpsertProbeNode shop_fe shop_fleet ''a'' ''eu'') 10"
    by (simp add: q_LeaseDueTargets_def due_target_def active_on_def paying_def q_UpsertProbeNode_def)
  then have two: "lease_read shop_fe ''b'' ''eu'' 10 (q_UpsertProbeNode shop_fe shop_fleet ''a'' ''eu'') =
      (Row [(shop_target, shop_slot)], q_UpsertProbeNode shop_fe (q_UpsertProbeNode shop_fe shop_fleet ''a'' ''eu'') ''b'' ''eu'')"
    by (simp add: lease_read_def Let_def c shop_due [OF q])
  show ?thesis
    using overlapping_leases_share_the_batch [OF one two] by (simp add: shop_target_def)
qed

theorem lease_is_exclusive_witness:
  "set (map cs_TargetId (fst (projr (fst (Lease shop_fe ''k'' ''Bearer k'' ''a'' ''eu'' 10 shop_fleet))))) \<inter>
   set (map cs_TargetId (fst (projr (fst (Lease shop_fe ''k'' ''Bearer k'' ''b'' ''eu'' 10
     (snd (Lease shop_fe ''k'' ''Bearer k'' ''a'' ''eu'' 10 shop_fleet))))))) = {}"
proof -
  have "\<exists>p. fst (Lease shop_fe ''k'' ''Bearer k'' n ''eu'' 10 s) = Inr p" for n s
    by (simp add: Lease_def authReq_def has_prefix_def trim_prefix_def lease_read_def Let_def q_LeaseDueTargets_def
        quiet_env_def split: prod.split)
  then have ex: "\<exists>sp pc. Lease shop_fe ''k'' ''Bearer k'' n ''eu'' 10 s = (Inr (sp, pc), snd (Lease shop_fe ''k'' ''Bearer k'' n ''eu'' 10 s))" for n s
    by (metis prod.collapse)
  obtain sp1 pc1 where l1: "Lease shop_fe ''k'' ''Bearer k'' ''a'' ''eu'' 10 shop_fleet =
      (Inr (sp1, pc1), snd (Lease shop_fe ''k'' ''Bearer k'' ''a'' ''eu'' 10 shop_fleet))"
    using ex by blast
  obtain sp2 pc2 where l2: "Lease shop_fe ''k'' ''Bearer k'' ''b'' ''eu'' 10 (snd (Lease shop_fe ''k'' ''Bearer k'' ''a'' ''eu'' 10 shop_fleet)) =
      (Inr (sp2, pc2), snd (Lease shop_fe ''k'' ''Bearer k'' ''b'' ''eu'' 10 (snd (Lease shop_fe ''k'' ''Bearer k'' ''a'' ''eu'' 10 shop_fleet))))"
    using ex by blast
  have "set (map cs_TargetId sp1) \<inter> set (map cs_TargetId sp2) = {}"
    by (rule lease_is_exclusive [OF _ _ l1 l2]) (simp_all add: quiet_env_def minute_def second_def)
  then show ?thesis using l1 l2 by (metis fst_conv sum.sel(2))
qed

end
