(* ===== verification/ProductAlert.thy ===== *)
theory ProductAlert
  imports Detect GoBytes
begin

text \<open>
  Product alert rules, \<^verbatim>\<open>back/internal/productalert/productalert.go\<close>: the condition of a rule over one
  reading, the step of its episode, the wording of its messages, and the evaluation that
  queues the messages and moves the rule's row in one transaction. The counts the telemetry store
  answers, its deploy and release marks, and \<^verbatim>\<open>float64\<close> are parameters.
\<close>

definition week :: duration where "week = 7 * 24 * hour"
definition minBaseEvents :: int where "minBaseEvents = 20"
definition maxLines :: nat where "maxLines = 5"

definition StateOK :: string where "StateOK = ''ok''"
definition StateFiring :: string where "StateFiring = ''firing''"
definition StateLearning :: string where "StateLearning = ''learning''"
definition SendFired :: string where "SendFired = ''fired''"
definition SendRecovered :: string where "SendRecovered = ''recovered''"

lemmas state_defs = StateOK_def StateFiring_def StateLearning_def SendFired_def SendRecovered_def

type_synonym labels = "(string \<times> string) list"

record Rule =
  ru_ID :: int
  ru_TenantID :: int
  ru_ProjectID :: int
  ru_Name :: string
  ru_Event :: string
  ru_Labels :: labels
  ru_Measure :: string
  ru_Currency :: string
  ru_Kind :: string
  ru_Direction :: string
  ru_Percent :: int
  ru_WindowHours :: int
  ru_State :: string
  ru_LastFiredAt :: "time option"

record Reading =
  rd_Cur :: int
  rd_Base :: int
  rd_BaseEvents :: int
  rd_CurEvents :: int
  rd_History :: int
  rd_Prior :: bool

section \<open>The decision\<close>

text \<open>The float operations of the alerts beside those of the detector.\<close>

record 'f alert_float = "'f float64" +
  f_abs :: "'f \<Rightarrow> 'f"
  f_ge :: "'f \<Rightarrow> 'f \<Rightarrow> bool"
  f_neg :: "'f \<Rightarrow> 'f"
  f_round :: "'f \<Rightarrow> int"

definition pct :: "'f alert_float \<Rightarrow> Reading \<Rightarrow> 'f" where
  "pct F rd = f_mul F (f_div F (f_of F (wrap64 (rd_Cur rd - rd_Base rd))) (f_of F (rd_Base rd))) (f_of F 100)"

definition holds_change :: "'f alert_float \<Rightarrow> string \<Rightarrow> 'f \<Rightarrow> 'f \<Rightarrow> bool" where
  "holds_change F direction x p =
     (if direction = ''down'' then f_le F x (f_neg F p)
      else if direction = ''up'' then f_ge F x p
      else f_ge F (f_abs F x) p)"

definition Condition :: "'f alert_float \<Rightarrow> Rule \<Rightarrow> Reading \<Rightarrow> string" where
  "Condition F r rd =
     (if ru_Kind r = ''silence'' then
        (if rd_CurEvents rd > 0 then StateOK
         else if rd_History rd \<ge> (168 + ru_WindowHours r - 1) div ru_WindowHours r then StateFiring
         else StateLearning)
      else if \<not> rd_Prior rd \<or> rd_BaseEvents rd < minBaseEvents \<or> rd_Base rd \<le> 0 then StateLearning
      else if holds_change F (ru_Direction r) (pct F rd) (f_of F (ru_Percent r)) then StateFiring
      else StateOK)"

definition Step :: "string \<Rightarrow> string \<Rightarrow> string \<times> string" where
  "Step state cond =
     (if cond = StateFiring \<and> state \<noteq> StateFiring then (StateFiring, SendFired)
      else if state = StateFiring \<and> cond \<noteq> StateFiring then (cond, SendRecovered)
      else (cond, ''''))"

section \<open>Numbers and money\<close>

text \<open>The loop of \<^verbatim>\<open>group\<close>: a comma before every third digit from the end.\<close>

fun group_loop :: "nat \<Rightarrow> string \<Rightarrow> string" where
  "group_loop i s = (if i > 0 then group_loop (i - 3) (take i s @ CHR '','' # drop i s) else s)"

declare group_loop.simps [simp del]

definition group_digits :: "int \<Rightarrow> string" where
  "group_digits n = (let s = itoa n in group_loop (length s - 3) s)"

definition noMinor :: "string \<Rightarrow> bool" where
  "noMinor c \<longleftrightarrow> c \<in> set [''JPY'', ''KRW'', ''VND'', ''CLP'', ''ISK'']"

text \<open>\<^verbatim>\<open>-minor\<close> wraps at the least 64-bit number, whose quotient and remainder by 100 Go truncates toward zero.\<close>

definition go_quot :: "int \<Rightarrow> int \<Rightarrow> int" where
  "go_quot a b = (if a < 0 then - ((- a) div b) else a div b)"

definition go_rem :: "int \<Rightarrow> int \<Rightarrow> int" where
  "go_rem a b = a - go_quot a b * b"

text \<open>\<^verbatim>\<open>%02d\<close>.\<close>

definition cents :: "int \<Rightarrow> string" where
  "cents n = (if 0 \<le> n \<and> n < 10 then ''0'' @ itoa n else itoa n)"

definition formatMoney :: "int \<Rightarrow> string \<Rightarrow> string" where
  "formatMoney minor currency =
     (let currency = ToUpper currency;
          (sign, minor) = (if minor < 0 then (''-'', wrap64 (- minor)) else ('''', minor))
      in if noMinor currency then TrimSpace (sign @ group_digits minor @ '' '' @ currency)
         else TrimSpace (sign @ group_digits (go_quot minor 100) @ ''.'' @ cents (go_rem minor 100) @ '' '' @ currency))"

section \<open>The message\<close>

definition money :: "Rule \<Rightarrow> bool" where
  "money r \<longleftrightarrow> ru_Kind r = ''change'' \<and> ru_Measure r = ''amount''"

definition subject :: "Rule \<Rightarrow> bool \<Rightarrow> string" where
  "subject r m =
     (if ru_Name r \<noteq> '''' then ru_Name r
      else if m then ru_Event r @ '' revenue''
      else ru_Event r)"

definition alert_value :: "Rule \<Rightarrow> int \<Rightarrow> string" where
  "alert_value r n = (if money r then formatMoney n (ru_Currency r) else group_digits n)"

definition Title_alert :: "'f alert_float \<Rightarrow> Rule \<Rightarrow> Reading \<Rightarrow> string \<Rightarrow> string" where
  "Title_alert F r rd send =
     (if send = SendRecovered then subject r (money r) @ '' is back to normal''
      else if ru_Kind r = ''silence'' then
        subject r False @ '' has been silent for '' @ itoa (ru_WindowHours r) @ ''h''
      else
        let x = pct F rd;
            verb = (if f_gt F (f_of F 0) x then ''dropped'' else ''rose'')
        in subject r (money r) @ '' '' @ verb @ '' '' @ itoa (f_round F (f_abs F x)) @ ''% vs the same '' @
           itoa (ru_WindowHours r) @ ''h last week'')"

definition alert_rows :: "'f alert_float \<Rightarrow> Rule \<Rightarrow> Reading \<Rightarrow> string \<Rightarrow> field list" where
  "alert_rows F r rd send =
     (let plain = (\<lambda>l v. \<lparr>f_Label = l, f_Value = v, f_Mono = False\<rparr>);
          cur = (if ru_Kind r = ''silence'' then rd_CurEvents rd else rd_Cur rd)
      in if send = SendRecovered then [plain ''Now'' (alert_value r cur)]
         else if ru_Kind r = ''silence'' then
           let usual = f_round F (f_div F (f_mul F (f_of F (rd_History rd)) (f_of F (ru_WindowHours r))) (f_of F 168))
           in [plain ''Usually'' (''about '' @ group_digits usual @ '' in '' @ itoa (ru_WindowHours r) @ ''h'')]
         else
           let verb = (if ru_Direction r = ''down'' then ''drops''
                       else if ru_Direction r = ''up'' then ''rises'' else ''moves'')
           in [plain ''Now'' (alert_value r (rd_Cur rd)), plain ''Week ago'' (alert_value r (rd_Base rd)),
               plain ''Rule'' (verb @ '' '' @ itoa (ru_Percent r) @ ''% in '' @ itoa (ru_WindowHours r) @ ''h'')])"

definition filter_row :: "Rule \<Rightarrow> string \<Rightarrow> field list" where
  "filter_row r send =
     (if send = SendFired \<and> length (ru_Labels r) > 0
      then [\<lparr>f_Label = ''Filter'', f_Value = join '', '' (sort (map (\<lambda>(k, v). k @ ''='' @ v) (ru_Labels r))),
              f_Mono = False\<rparr>]
      else [])"

definition Payload_alert :: "'f alert_float \<Rightarrow> Rule \<Rightarrow> Reading \<Rightarrow> string \<Rightarrow> string list \<Rightarrow> jobj" where
  "Payload_alert F r rd send lines =
     [(''title'', JStr (Title_alert F r rd send)),
      (''status'', JStr (if send = SendRecovered then ''ok'' else ''check'')),
      (''fields'', JArr (map json_of_field (alert_rows F r rd send @ filter_row r send))),
      (''detector'', JStr DetectorProductAlert)] @
     (if length lines > 0
      then [(''lines'', JArr (map JStr lines)), (''lines_label'', JStr ''Deploys in this window'')]
      else [(''summary'', JStr ''No deploys or releases in this window.'')])"

record MarkRow =
  mk_At :: time
  mk_Name :: string
  mk_SHA :: string

definition deploy_text :: "MarkRow \<Rightarrow> string" where
  "deploy_text d =
     join '' '' ([''deploy''] @ (if mk_Name d \<noteq> ''deploy'' then [mk_Name d] else []) @
               (if mk_SHA d \<noteq> '''' then [take (min 7 (length (mk_SHA d))) (mk_SHA d)] else []))"

definition markLines :: "MarkRow list \<Rightarrow> MarkRow list \<Rightarrow> string list" where
  "markLines deploys releases =
     (let marks = map (\<lambda>d. (mk_At d, deploy_text d)) deploys @
                  map (\<lambda>r. (mk_At r, ''release '' @ mk_Name r)) releases;
          marks = sort_key (\<lambda>(at, txt). - at) marks
      in map (\<lambda>(at, txt). txt @ '' at '' @ fmt_clock at @ '' UTC'') (take (min maxLines (length marks)) marks))"

section \<open>The tables and the reads\<close>

record alert_row = Rule +
  ar_paused :: bool
  ar_created :: time
  ar_checked :: "time option"

record palert_db =
  pa_base :: db
  pa_rules :: "alert_row list"

record alert_ring =
  EventBuckets :: "int \<Rightarrow> int \<Rightarrow> string \<Rightarrow> labels \<Rightarrow> time \<Rightarrow> time \<Rightarrow> int \<Rightarrow> int list option"
  AmountBuckets :: "int \<Rightarrow> int \<Rightarrow> string \<Rightarrow> string \<Rightarrow> labels \<Rightarrow> time \<Rightarrow> time \<Rightarrow> int \<Rightarrow> int list option"
  PriorEvent :: "int \<Rightarrow> int \<Rightarrow> string \<Rightarrow> labels \<Rightarrow> time \<Rightarrow> bool option"
  DeployMarks :: "int \<Rightarrow> int \<Rightarrow> time \<Rightarrow> time \<Rightarrow> MarkRow list option"
  ReleaseMarks :: "int \<Rightarrow> int \<Rightarrow> time \<Rightarrow> time \<Rightarrow> MarkRow list option"

definition total_counts :: "int list \<Rightarrow> int" where
  "total_counts bs = foldl (\<lambda>n b. wrap64 (n + b)) 0 bs"

definition span_seconds :: "time \<Rightarrow> time \<Rightarrow> int" where
  "span_seconds from to = Sub to from div second"

definition count_events :: "alert_ring \<Rightarrow> Rule \<Rightarrow> time \<Rightarrow> time \<Rightarrow> int option" where
  "count_events R r from to =
     map_option total_counts
       (EventBuckets R (ru_TenantID r) (ru_ProjectID r) (ru_Event r) (ru_Labels r) from to (span_seconds from to))"

definition sum_amount :: "alert_ring \<Rightarrow> Rule \<Rightarrow> time \<Rightarrow> time \<Rightarrow> int option" where
  "sum_amount R r from to =
     map_option total_counts
       (AmountBuckets R (ru_TenantID r) (ru_ProjectID r) (ru_Event r) (ToUpper (ru_Currency r)) (ru_Labels r)
          from to (span_seconds from to))"

definition window_from :: "Rule \<Rightarrow> time \<Rightarrow> time" where
  "window_from r t = Add t (- (ru_WindowHours r * hour))"

definition read_rule :: "alert_ring \<Rightarrow> Rule \<Rightarrow> time \<Rightarrow> Reading option" where
  "read_rule R r t =
     (let from = window_from r t;
          rd = \<lparr>rd_Cur = 0, rd_Base = 0, rd_BaseEvents = 0, rd_CurEvents = 0, rd_History = 0, rd_Prior = False\<rparr> in
      if ru_Kind r = ''silence'' then
        (case count_events R r from t of
           None \<Rightarrow> None
         | Some c \<Rightarrow>
             (case count_events R r (Add from (- week)) from of
                None \<Rightarrow> None
              | Some h \<Rightarrow> Some (rd\<lparr>rd_CurEvents := c, rd_History := h\<rparr>)))
      else
        (case count_events R r (Add from (- week)) (Add t (- week)) of
           None \<Rightarrow> None
         | Some be \<Rightarrow>
             (case PriorEvent R (ru_TenantID r) (ru_ProjectID r) (ru_Event r) (ru_Labels r) (Add from (- week)) of
                None \<Rightarrow> None
              | Some pr \<Rightarrow>
                  let rd = rd\<lparr>rd_BaseEvents := be, rd_Prior := pr\<rparr> in
                  if money r then
                    (case sum_amount R r from t of
                       None \<Rightarrow> None
                     | Some c \<Rightarrow>
                         (case sum_amount R r (Add from (- week)) (Add t (- week)) of
                            None \<Rightarrow> None
                          | Some b \<Rightarrow> Some (rd\<lparr>rd_Cur := c, rd_Base := b\<rparr>)))
                  else
                    (case count_events R r from t of
                       None \<Rightarrow> None
                     | Some c \<Rightarrow> Some (rd\<lparr>rd_Cur := c, rd_Base := be\<rparr>)))))"

section \<open>Evaluating a rule\<close>

datatype palert_error = PARead | PADeploys | PAReleases | PAChannels | PABegin | PAEnqueue | PAUpdate | PACommit

definition palert_key :: "Rule \<Rightarrow> int \<Rightarrow> string \<Rightarrow> int \<Rightarrow> string" where
  "palert_key r ch send firedUnix =
     ''palert:'' @ itoa (ru_ID r) @ '':'' @ itoa ch @ '':'' @ send @ '':'' @ itoa firedUnix"

definition fired_unix :: "time option \<Rightarrow> int" where
  "fired_unix firedAt = (case firedAt of None \<Rightarrow> 0 | Some t \<Rightarrow> UnixSeconds t)"

text \<open>The message and the channels it goes to, read before the transaction.\<close>

definition compose_alert ::
  "'f alert_float \<Rightarrow> alert_ring \<Rightarrow> env \<Rightarrow> db \<Rightarrow> Rule \<Rightarrow> Reading \<Rightarrow> string \<Rightarrow> palert_error + jobj \<times> int list" where
  "compose_alert F R e d r rd send =
     (if send = '''' then Inr ([], [])
      else case DeployMarks R (ru_TenantID r) (ru_ProjectID r) (window_from r (now e)) (now e) of
        None \<Rightarrow> Inl PADeploys
      | Some deploys \<Rightarrow>
          (case ReleaseMarks R (ru_TenantID r) (ru_ProjectID r) (window_from r (now e)) (now e) of
             None \<Rightarrow> Inl PAReleases
           | Some releases \<Rightarrow>
               (case q_ListChannelsByProject e d (ru_ProjectID r) of
                  Row chans \<Rightarrow>
                    (let muted = MutedByPlan e d (ru_TenantID r) chans
                     in Inr (Payload_alert F r rd send (markLines deploys releases),
                             filter (\<lambda>c. c \<notin> set muted) (map c_id chans)))
                | _ \<Rightarrow> Inl PAChannels)))"

fun palert_enqueue :: "env \<Rightarrow> Rule \<Rightarrow> string \<Rightarrow> int \<Rightarrow> jobj \<Rightarrow> int list \<Rightarrow> db \<Rightarrow> db option" where
  "palert_enqueue e r send fu pay [] d = Some d"
| "palert_enqueue e r send fu pay (ch # chs) d =
     (case q_EnqueueDelivery e d (ru_TenantID r) None ch (palert_key r ch send fu) ''ticket'' pay of
        None \<Rightarrow> None
      | Some d \<Rightarrow> palert_enqueue e r send fu pay chs d)"

text \<open>The row the update finds: not paused, and still what this evaluation read.\<close>

definition same_labels :: "labels \<Rightarrow> labels \<Rightarrow> bool" where
  "same_labels a b \<longleftrightarrow> set a = set b"

definition row_unmoved :: "Rule \<Rightarrow> alert_row \<Rightarrow> bool" where
  "row_unmoved r x \<longleftrightarrow>
     ru_ID x = ru_ID r \<and> \<not> ar_paused x \<and> ru_State x = ru_State r \<and> ru_LastFiredAt x = ru_LastFiredAt r \<and>
     ru_Event x = ru_Event r \<and> same_labels (ru_Labels x) (ru_Labels r) \<and> ru_Measure x = ru_Measure r \<and>
     ru_Currency x = ru_Currency r \<and> ru_Kind x = ru_Kind r \<and> ru_Direction x = ru_Direction r \<and>
     ru_Percent x = ru_Percent r \<and> ru_WindowHours x = ru_WindowHours r"

definition move_row :: "string \<Rightarrow> time option \<Rightarrow> time \<Rightarrow> alert_row \<Rightarrow> alert_row" where
  "move_row next firedAt t x = x\<lparr>ru_State := next, ru_LastFiredAt := firedAt, ar_checked := Some t\<rparr>"

text \<open>A commit that answers an error may have landed (\<^verbatim>\<open>CommitLanded\<close>): the answer was lost, not the transaction.\<close>

definition evaluate ::
  "'f alert_float \<Rightarrow> alert_ring \<Rightarrow> env \<Rightarrow> Rule \<Rightarrow> palert_db \<Rightarrow> palert_error option \<times> palert_db" where
  "evaluate F R e r d =
     (case read_rule R r (now e) of
        None \<Rightarrow> (Some PARead, d)
      | Some rd \<Rightarrow>
          (case Step (ru_State r) (Condition F r rd) of (next, send) \<Rightarrow>
             let firedAt = (if send = SendFired then Some (now e) else ru_LastFiredAt r) in
             case compose_alert F R e (pa_base d) r rd send of
               Inl err \<Rightarrow> (Some err, d)
             | Inr (payload, chans) \<Rightarrow>
                 if fl e ''Begin'' [] then (Some PABegin, d)
                 else case palert_enqueue e r send (fired_unix firedAt) payload chans (pa_base d) of
                   None \<Rightarrow> (Some PAEnqueue, d)
                 | Some b \<Rightarrow>
                     if fl e ''UpdateProductAlert'' [ru_ID r] then (Some PAUpdate, d)
                     else if \<not> (\<exists>x \<in> set (pa_rules d). row_unmoved r x) then (None, d)
                     else
                       let committed = d\<lparr>pa_base := b,
                         pa_rules := map (\<lambda>x. if row_unmoved r x then move_row next firedAt (now e) x else x) (pa_rules d)\<rparr>
                       in if fl e ''Commit'' [] then (Some PACommit, if fl e ''CommitLanded'' [] then committed else d)
                          else (None, committed)))"

section \<open>Every rule\<close>

text \<open>\<open>cap plan\<close>: how many rules a plan carries, \<open>None\<close> for NULL or an unknown plan.\<close>

definition rule_rank :: "alert_row list \<Rightarrow> alert_row \<Rightarrow> nat" where
  "rule_rank xs x = Suc (length (filter (\<lambda>y. ru_TenantID y = ru_TenantID x \<and>
     (ar_created y < ar_created x \<or> ar_created y = ar_created x \<and> ru_ID y < ru_ID x)) xs))"

definition live_rules :: "(string \<Rightarrow> int option) \<Rightarrow> palert_db \<Rightarrow> alert_row list" where
  "live_rules cap d =
     sort_key ru_ID (filter (\<lambda>x. \<not> ar_paused x \<and> ru_ProjectID x \<notin> set (frozen_projects (pa_base d)) \<and>
       (case map_of (plans (pa_base d)) (ru_TenantID x) of
          None \<Rightarrow> False
        | Some plan \<Rightarrow> (case cap plan of None \<Rightarrow> True | Some n \<Rightarrow> int (rule_rank (pa_rules d) x) \<le> n)))
       (pa_rules d))"

fun evaluate_all :: "'f alert_float \<Rightarrow> alert_ring \<Rightarrow> env \<Rightarrow> alert_row list \<Rightarrow> palert_db \<Rightarrow> palert_db" where
  "evaluate_all F R e [] d = d"
| "evaluate_all F R e (x # xs) d = evaluate_all F R e xs (snd (evaluate F R e (Rule.truncate x) d))"

definition palert_Tick ::
  "'f alert_float \<Rightarrow> alert_ring \<Rightarrow> env \<Rightarrow> (string \<Rightarrow> int option) \<Rightarrow> palert_db \<Rightarrow> bool \<times> palert_db" where
  "palert_Tick F R e cap d =
     (if fl e ''LiveRules'' [] then (False, d) else (True, evaluate_all F R e (live_rules cap d) d))"

end
