(* ===== verification/ProductAlertFacts.thy ===== *)
theory ProductAlertFacts
  imports ProductAlert DetectFacts
begin

text \<open>
  What the product alerts promise: printed numbers read back, the messages of an episode alternate,
  an evaluation lands whole or not at all, and a silence rule whose history runs out announces a
  recovery that did not happen.
\<close>

section \<open>Reading printed numbers back\<close>

lemma str_nat_append: "str_nat (a @ b) = str_nat a * 10 ^ length b + str_nat b"
  by (induction a) (auto simp: algebra_simps power_add)

lemma filter_group_loop: "filter is_digit (group_loop i s) = filter is_digit s"
proof (induction i s rule: group_loop.induct)
  case (1 i s)
  have "filter is_digit (take i s) @ filter is_digit (drop i s) = filter is_digit s"
    by (metis append_take_drop_id filter_append)
  then have "filter is_digit (take i s @ CHR '','' # drop i s) = filter is_digit s"
    by (simp add: is_digit_byte)
  with 1 show ?case by (simp add: group_loop.simps [of i s])
qed

lemma filter_nat_str [simp]: "filter is_digit (nat_str n) = nat_str n"
  using nat_str_digits by (simp add: filter_id_conv)

lemma digits_of_group: "filter is_digit (group_digits n) = nat_str (nat \<bar>n\<bar>)"
  by (simp add: group_digits_def Let_def filter_group_loop itoa_def)

lemma set_group_loop: "set (group_loop i s) \<subseteq> insert CHR '','' (set s)"
proof (induction i s rule: group_loop.induct)
  case (1 i s)
  have "set (take i s @ CHR '','' # drop i s) = insert CHR '','' (set s)"
    by (metis append_take_drop_id list.simps(15) set_append Un_insert_right)
  with 1 show ?case by (auto simp: group_loop.simps [of i s])
qed

lemma group_no_minus: "0 \<le> n \<Longrightarrow> CHR ''-'' \<notin> set (group_digits n)"
  using set_group_loop nat_str_digits [of "nat n"] by (fastforce simp: group_digits_def Let_def itoa_def)

lemma cents_two: "0 \<le> r \<Longrightarrow> r < 100 \<Longrightarrow> length (cents r) = 2"
  by (auto simp: cents_def itoa_def nat_str.simps [of "nat r"] nat_str.simps [of "nat r div 10"])

lemma cents_digits: "0 \<le> r \<Longrightarrow> filter is_digit (cents r) = cents r"
  using nat_str_digits by (auto simp: cents_def itoa_def is_digit_byte)

lemma cents_value: "0 \<le> r \<Longrightarrow> str_nat (cents r) = nat r"
  by (auto simp: cents_def itoa_def)

lemma digits_TrimSpace [simp]: "filter is_digit (TrimSpace s) = filter is_digit s"
proof -
  have l: "filter is_digit (dropWhile is_space s) = filter is_digit s" for s
    by (induction s) (auto simp: is_space_def is_digit_byte between_def)
  have "filter is_digit (rev (dropWhile is_space (rev s))) = filter is_digit s" for s
    by (simp add: rev_filter [symmetric] l)
  then show ?thesis using l by (simp add: TrimSpace_def trim_right_def trim_left_def)
qed

lemma minus_TrimSpace [simp]: "CHR ''-'' \<in> set (TrimSpace s) \<longleftrightarrow> CHR ''-'' \<in> set s"
proof -
  have l: "CHR ''-'' \<in> set (dropWhile is_space s) \<longleftrightarrow> CHR ''-'' \<in> set s" for s
    by (induction s) (auto simp: is_space_def between_def)
  then show ?thesis by (simp add: TrimSpace_def trim_right_def trim_left_def)
qed

definition letters :: "string \<Rightarrow> bool" where
  "letters s \<longleftrightarrow> (\<forall>c \<in> set s. is_lower c \<or> is_upper c)"

lemma upper_letter_byte: "is_lower c \<or> is_upper c \<Longrightarrow> is_upper (upper_byte c)"
  by (auto simp: upper_byte_def is_lower_def is_upper_def between_def of_char_of)

lemma letters_ToUpper: "letters s \<Longrightarrow> \<forall>c \<in> set (ToUpper s). is_upper c"
  by (auto simp: letters_def ToUpper_def upper_letter_byte)

lemma upper_not: "is_upper c \<Longrightarrow> \<not> is_digit c \<and> c \<noteq> CHR ''-''"
  by (auto simp: is_upper_def is_digit_byte between_def)

lemma currency_clean:
  assumes "letters s"
  shows "filter is_digit (ToUpper s) = []" "CHR ''-'' \<notin> set (ToUpper s)"
  using letters_ToUpper [OF assms] upper_not by (auto simp: filter_empty_conv)

text \<open>A printed amount reads back. For every amount above the least 64-bit number and a currency of letters, the digits of
  what \<^verbatim>\<open>formatMoney\<close> prints are the amount in minor units (in major units for a currency that has
  no minor ones, which are the same number), and it prints a minus sign exactly for a negative amount.\<close>

theorem formatMoney_reads_back:
  assumes "min_int64 < minor" and "minor \<le> max_int64" and "letters currency"
  shows "int (str_nat (filter is_digit (formatMoney minor currency))) = \<bar>minor\<bar> \<and>
    (CHR ''-'' \<in> set (formatMoney minor currency) \<longleftrightarrow> minor < 0)"
proof -
  define m where "m = \<bar>minor\<bar>"
  define sign :: string where "sign = (if minor < 0 then ''-'' else '''')"
  have w: "wrap64 (- minor) = - minor"
    by (rule wrap64_id) (use assms in \<open>simp_all add: min_int64_def max_int64_def\<close>)
  have split: "(if minor < 0 then (''-'', wrap64 (- minor)) else ('''', minor)) = (sign, m)"
    by (simp add: w sign_def m_def)
  have m: "0 \<le> m" by (simp add: m_def)
  then have q: "go_quot m 100 = m div 100" "go_rem m 100 = m mod 100"
    by (simp_all add: go_quot_def go_rem_def minus_div_mult_eq_mod)
  have c: "0 \<le> m mod 100" "m mod 100 < 100" by simp_all
  have sd: "filter is_digit sign = []" "CHR ''-'' \<in> set sign \<longleftrightarrow> minor < 0" by (simp_all add: sign_def)
  have nc: "CHR ''-'' \<notin> set (cents (m mod 100))"
    using cents_digits [OF c(1)] by (metis filter_id_conv not_digit_minus)
  note cur = currency_clean [OF assms(3)]
  have dots: "\<not> is_digit CHR ''.''" "\<not> is_digit CHR '' ''" by (simp_all add: is_digit_byte)
  show ?thesis
  proof (cases "noMinor (ToUpper currency)")
    case True
    then have f: "formatMoney minor currency = TrimSpace (sign @ group_digits m @ '' '' @ ToUpper currency)"
      by (simp add: formatMoney_def split)
    show ?thesis
      unfolding f using sd cur dots group_no_minus [OF m] m
      by (simp add: digits_of_group) (simp add: m_def)
  next
    case False
    then have f: "formatMoney minor currency =
        TrimSpace (sign @ group_digits (m div 100) @ ''.'' @ cents (m mod 100) @ '' '' @ ToUpper currency)"
      by (simp add: formatMoney_def split q)
    have "str_nat (filter is_digit (formatMoney minor currency)) =
        str_nat (nat_str (nat (m div 100)) @ cents (m mod 100))"
      unfolding f using sd cur dots m by (simp add: digits_of_group cents_digits [OF c(1)])
    also have "\<dots> = nat (m div 100) * 10 ^ 2 + nat (m mod 100)"
      by (simp add: str_nat_append cents_two [OF c] cents_value [OF c(1)])
    finally have "int (str_nat (filter is_digit (formatMoney minor currency))) = m div 100 * 100 + m mod 100"
      using m by (simp add: pos_imp_zdiv_nonneg_iff)
    moreover have "CHR ''-'' \<in> set (formatMoney minor currency) \<longleftrightarrow> minor < 0"
      unfolding f using sd cur nc group_no_minus [of "m div 100"] m by simp
    ultimately show ?thesis by (simp add: m_def)
  qed
qed

theorem formatMoney_reads_back_witness:
  "int (str_nat (filter is_digit (formatMoney (- 123456) ''usd''))) = 123456 \<and>
   CHR ''-'' \<in> set (formatMoney (- 123456) ''usd'')"
proof -
  have "letters ''usd''" by (simp add: letters_def is_lower_def between_def)
  then show ?thesis using formatMoney_reads_back [of "- 123456" "''usd''"] by (simp add: min_int64_def max_int64_def)
qed

section \<open>Episodes\<close>

fun episode :: "string \<Rightarrow> string list \<Rightarrow> string \<times> string list" where
  "episode state [] = (state, [])"
| "episode state (cond # conds) =
     (case Step state cond of (next, send) \<Rightarrow>
        (case episode next conds of (final, msgs) \<Rightarrow> (final, if send = '''' then msgs else send # msgs)))"

text \<open>Messages in turn, the first one as given.\<close>

fun in_turn :: "bool \<Rightarrow> string list \<Rightarrow> bool" where
  "in_turn firing [] \<longleftrightarrow> True"
| "in_turn firing (m # ms) \<longleftrightarrow> m = (if firing then SendRecovered else SendFired) \<and> in_turn (\<not> firing) ms"

text \<open>A rule never repeats itself: over any sequence of conditions the messages it sends alternate between
  "fired" and "recovered", starting with "recovered" only for a rule that was firing, and an
  episode is open at the end exactly when the rule is firing.\<close>

theorem messages_alternate:
  "in_turn (state = StateFiring) (snd (episode state conds)) \<and>
   (fst (episode state conds) = StateFiring \<longleftrightarrow>
      (state = StateFiring) = even (length (snd (episode state conds))))"
proof (induction conds arbitrary: state)
  case (Cons cond conds)
  show ?case
    using Cons [of cond] by (cases "state = StateFiring"; cases "cond = StateFiring")
      (auto simp: Step_def SendFired_def SendRecovered_def split: prod.splits)
qed simp

text \<open>A silence rule announces a recovery when its history runs out. When a firing silence rule still sees no event and the
  events of the week before its window have fallen under the threshold, the evaluation moves
  it to learning and sends "is back to normal", although nothing has arrived.\<close>

theorem silence_recovers_without_events:
  assumes "ru_Kind r = ''silence''" and "ru_State r = StateFiring" and "rd_CurEvents rd \<le> 0"
    and "rd_History rd < (168 + ru_WindowHours r - 1) div ru_WindowHours r"
  shows "Step (ru_State r) (Condition F r rd) = (StateLearning, SendRecovered) \<and>
    Title_alert F r rd SendRecovered = subject r False @ '' is back to normal''"
  using assms by (auto simp: Condition_def Step_def state_defs Title_alert_def money_def)

section \<open>An evaluation is one transaction\<close>

text \<open>A delivery as it is queued: due at once, untouched by any worker.\<close>

definition fresh_delivery :: "int \<Rightarrow> int \<Rightarrow> string \<Rightarrow> jobj \<Rightarrow> time \<Rightarrow> queue_row \<Rightarrow> bool" where
  "fresh_delivery tenant channel key payload next_try row \<longleftrightarrow>
     q_tenant row = tenant \<and> q_incident row = None \<and> q_channel row = channel \<and> q_key row = key \<and>
     q_class row = ''ticket'' \<and> q_payload row = payload \<and> q_attempts row = 0 \<and> q_next row = next_try \<and>
     q_state row = ''pending'' \<and> q_dead row = None \<and> q_leased row = None \<and> q_lease_until row = None"

lemma palert_enqueue_rows:
  assumes "palert_enqueue e r send fu pay chs d = Some d'"
  shows "\<exists>new n. d' = d\<lparr>queue := queue d @ new, next_queue := n\<rparr> \<and>
    (\<forall>row \<in> set new. q_key row \<notin> q_key ` set (queue d) \<and>
       (\<exists>ch \<in> set chs. fresh_delivery (ru_TenantID r) ch (palert_key r ch send fu) pay (now e) row)) \<and>
    distinct (map q_key new) \<and> (\<forall>ch \<in> set chs. palert_key r ch send fu \<in> q_key ` set (queue d @ new))"
  using assms
proof (induction chs arbitrary: d)
  case Nil
  then show ?case by (intro exI [of _ "[]"] exI [of _ "next_queue d"]) simp
next
  case (Cons ch chs)
  let ?k = "palert_key r ch send fu"
  obtain d1 where d1: "q_EnqueueDelivery e d (ru_TenantID r) None ch ?k ''ticket'' pay = Some d1"
      "palert_enqueue e r send fu pay chs d1 = Some d'"
    using Cons.prems by (auto split: option.splits)
  obtain new n where ih: "d' = d1\<lparr>queue := queue d1 @ new, next_queue := n\<rparr>"
      "\<forall>row \<in> set new. q_key row \<notin> q_key ` set (queue d1) \<and>
         (\<exists>ch \<in> set chs. fresh_delivery (ru_TenantID r) ch (palert_key r ch send fu) pay (now e) row)"
      "distinct (map q_key new)" "\<forall>ch \<in> set chs. palert_key r ch send fu \<in> q_key ` set (queue d1 @ new)"
    using Cons.IH [OF d1(2)] by blast
  show ?case
  proof (cases "queue_has d ?k")
    case True
    then have "d1 = d" "?k \<in> q_key ` set (queue d)"
      using d1(1) by (auto simp: q_EnqueueDelivery_def q_EnqueueDeliveryAt_def queue_has_def split: if_splits) (metis image_eqI)
    with ih show ?thesis by (intro exI [of _ new] exI [of _ n]) auto
  next
    case False
    then obtain row where row: "d1 = d\<lparr>queue := queue d @ [row], next_queue := next_queue d + 1\<rparr>"
        "fresh_delivery (ru_TenantID r) ch ?k pay (now e) row"
      using d1(1) by (auto simp: q_EnqueueDelivery_def q_EnqueueDeliveryAt_def fresh_delivery_def split: if_splits)
    have key: "q_key row = ?k" "?k \<notin> q_key ` set (queue d)"
      using row(2) False by (auto simp: fresh_delivery_def queue_has_def)
    show ?thesis
      by (intro exI [of _ "row # new"] exI [of _ n]) (use ih row key in auto)
  qed
qed

text \<open>
  The transaction's effect, written out: the rows that are still what was read get the condition as their state, the
  time of a firing and the check; and when the condition enters or leaves firing, each channel of the project that the plan does not mute has
  its message in the queue, the new ones pending with the payload of this reading.
\<close>

definition alert_landed ::
  "'f alert_float \<Rightarrow> alert_ring \<Rightarrow> env \<Rightarrow> Rule \<Rightarrow> palert_db \<Rightarrow> palert_db \<Rightarrow> bool" where
  "alert_landed F R e r d d' \<longleftrightarrow>
     (\<exists>rd cond send fired key told new n.
        read_rule R r (now e) = Some rd \<and> cond = Condition F r rd \<and>
        send = (if (cond = ''firing'') = (ru_State r = ''firing'') then ''''
                else if cond = ''firing'' then ''fired'' else ''recovered'') \<and>
        fired = (if send = ''fired'' then Some (now e) else ru_LastFiredAt r) \<and>
        list_all2 (\<lambda>x x'. x' =
            (if \<not> ar_paused x \<and> ru_ID x = ru_ID r \<and> ru_State x = ru_State r \<and> ru_LastFiredAt x = ru_LastFiredAt r \<and>
                ru_Event x = ru_Event r \<and> set (ru_Labels x) = set (ru_Labels r) \<and> ru_Measure x = ru_Measure r \<and>
                ru_Currency x = ru_Currency r \<and> ru_Kind x = ru_Kind r \<and> ru_Direction x = ru_Direction r \<and>
                ru_Percent x = ru_Percent r \<and> ru_WindowHours x = ru_WindowHours r
             then x\<lparr>ru_State := cond, ru_LastFiredAt := fired, ar_checked := Some (now e)\<rparr> else x))
          (pa_rules d) (pa_rules d') \<and>
        pa_base d' = (pa_base d)\<lparr>queue := queue (pa_base d) @ new, next_queue := n\<rparr> \<and>
        key = (\<lambda>ch. ''palert:'' @ itoa (ru_ID r) @ '':'' @ itoa ch @ '':'' @ send @ '':'' @
                 itoa (case fired of None \<Rightarrow> 0 | Some t \<Rightarrow> UnixSeconds t)) \<and>
        told = (let chs = filter (\<lambda>c. c_project c = ru_ProjectID r) (channels (pa_base d))
                in c_id ` set chs - set (MutedByPlan e (pa_base d) (ru_TenantID r) chs)) \<and>
        distinct (map q_key new) \<and> (\<forall>row \<in> set new. q_key row \<notin> q_key ` set (queue (pa_base d))) \<and>
        (if send = '''' then new = []
         else (\<exists>deploys releases.
            DeployMarks R (ru_TenantID r) (ru_ProjectID r) (Add (now e) (- (ru_WindowHours r * hour))) (now e) = Some deploys \<and>
            ReleaseMarks R (ru_TenantID r) (ru_ProjectID r) (Add (now e) (- (ru_WindowHours r * hour))) (now e) = Some releases \<and>
            (\<forall>row \<in> set new. \<exists>ch \<in> told. fresh_delivery (ru_TenantID r) ch (key ch)
               (Payload_alert F r rd send (markLines deploys releases)) (now e) row) \<and>
            (\<forall>ch \<in> told. key ch \<in> q_key ` set (queue (pa_base d'))))))"

text \<open>The message's own words: a title and the status a firing or a recovery has.\<close>

lemma Payload_alert_says:
  "map_of (Payload_alert F r rd send lines) ''title'' = Some (JStr (Title_alert F r rd send))"
  "map_of (Payload_alert F r rd ''fired'' lines) ''status'' = Some (JStr ''check'')"
  "map_of (Payload_alert F r rd ''recovered'' lines) ''status'' = Some (JStr ''ok'')"
  by (simp_all add: Payload_alert_def SendRecovered_def)

lemma Step_is_the_condition:
  "Step state cond = (cond, if (cond = ''firing'') = (state = ''firing'') then ''''
     else if cond = ''firing'' then ''fired'' else ''recovered'')"
  by (auto simp: Step_def state_defs)

lemma compose_silent: "compose_alert F R e d r rd '''' = Inr ([], [])"
  by (simp add: compose_alert_def)

lemma compose_told:
  assumes "compose_alert F R e d r rd send = Inr (pay, chs)" and "send \<noteq> ''''"
  obtains deploys releases where
    "DeployMarks R (ru_TenantID r) (ru_ProjectID r) (Add (now e) (- (ru_WindowHours r * hour))) (now e) = Some deploys"
    and "ReleaseMarks R (ru_TenantID r) (ru_ProjectID r) (Add (now e) (- (ru_WindowHours r * hour))) (now e) = Some releases"
    and "pay = Payload_alert F r rd send (markLines deploys releases)"
    and "set chs = (let cs = filter (\<lambda>c. c_project c = ru_ProjectID r) (channels d)
                    in c_id ` set cs - set (MutedByPlan e d (ru_TenantID r) cs))"
  using assms
  by (auto simp: compose_alert_def window_from_def q_ListChannelsByProject_def Let_def set_diff_eq split: option.splits if_splits)

lemma move_rows:
  "list_all2 (\<lambda>x x'. x' =
      (if \<not> ar_paused x \<and> ru_ID x = ru_ID r \<and> ru_State x = ru_State r \<and> ru_LastFiredAt x = ru_LastFiredAt r \<and>
          ru_Event x = ru_Event r \<and> set (ru_Labels x) = set (ru_Labels r) \<and> ru_Measure x = ru_Measure r \<and>
          ru_Currency x = ru_Currency r \<and> ru_Kind x = ru_Kind r \<and> ru_Direction x = ru_Direction r \<and>
          ru_Percent x = ru_Percent r \<and> ru_WindowHours x = ru_WindowHours r
       then x\<lparr>ru_State := cond, ru_LastFiredAt := fired, ar_checked := Some t\<rparr> else x))
    xs (map (\<lambda>x. if row_unmoved r x then move_row cond fired t x else x) xs)"
  by (induction xs) (simp_all add: row_unmoved_def same_labels_def move_row_def)

lemma palert_key_written: "palert_key r ch send (fired_unix fired) = ''palert:'' @ itoa (ru_ID r) @ '':'' @ itoa ch @ '':'' @ send @ '':'' @
    itoa (case fired of None \<Rightarrow> 0 | Some t \<Rightarrow> UnixSeconds t)"
  by (simp add: palert_key_def fired_unix_def)

lemma enqueued_landed:
  assumes "read_rule R r (now e) = Some rd" and "Step (ru_State r) (Condition F r rd) = (cond, send)"
    and "compose_alert F R e (pa_base d) r rd send = Inr (pay, chs)"
    and "fired = (if send = SendFired then Some (now e) else ru_LastFiredAt r)"
    and "palert_enqueue e r send (fired_unix fired) pay chs (pa_base d) = Some b"
  shows "alert_landed F R e r d (d\<lparr>pa_base := b,
     pa_rules := map (\<lambda>x. if row_unmoved r x then move_row cond fired (now e) x else x) (pa_rules d)\<rparr>)"
proof -
  obtain new n where b: "b = (pa_base d)\<lparr>queue := queue (pa_base d) @ new, next_queue := n\<rparr>"
    and rows: "\<forall>row \<in> set new. q_key row \<notin> q_key ` set (queue (pa_base d)) \<and>
       (\<exists>ch \<in> set chs. fresh_delivery (ru_TenantID r) ch (palert_key r ch send (fired_unix fired)) pay (now e) row)"
    and dist: "distinct (map q_key new)"
    and all: "\<forall>ch \<in> set chs. palert_key r ch send (fired_unix fired) \<in> q_key ` set (queue (pa_base d) @ new)"
    using palert_enqueue_rows [OF assms(5)] by blast
  have cond: "cond = Condition F r rd"
    and send: "send = (if (cond = ''firing'') = (ru_State r = ''firing'') then '''' else if cond = ''firing'' then ''fired'' else ''recovered'')"
    using assms(2) by (auto simp: Step_is_the_condition)
  have fired: "fired = (if send = ''fired'' then Some (now e) else ru_LastFiredAt r)"
    using assms(4) by (simp add: SendFired_def)
  have said: "if send = '''' then new = []
     else (\<exists>deploys releases.
        DeployMarks R (ru_TenantID r) (ru_ProjectID r) (Add (now e) (- (ru_WindowHours r * hour))) (now e) = Some deploys \<and>
        ReleaseMarks R (ru_TenantID r) (ru_ProjectID r) (Add (now e) (- (ru_WindowHours r * hour))) (now e) = Some releases \<and>
        (\<forall>row \<in> set new. \<exists>ch \<in> (let chs = filter (\<lambda>c. c_project c = ru_ProjectID r) (channels (pa_base d))
                in c_id ` set chs - set (MutedByPlan e (pa_base d) (ru_TenantID r) chs)).
           fresh_delivery (ru_TenantID r) ch (palert_key r ch send (fired_unix fired))
           (Payload_alert F r rd send (markLines deploys releases)) (now e) row) \<and>
        (\<forall>ch \<in> (let chs = filter (\<lambda>c. c_project c = ru_ProjectID r) (channels (pa_base d))
                in c_id ` set chs - set (MutedByPlan e (pa_base d) (ru_TenantID r) chs)).
           palert_key r ch send (fired_unix fired) \<in> q_key ` set (queue b)))"
  proof (cases "send = ''''")
    case True
    with assms(3) have "chs = []" by (simp add: compose_silent)
    with rows True show ?thesis by (cases new) auto
  next
    case False
    show ?thesis
      by (rule compose_told [OF assms(3) False]) (use rows all b False in auto)
  qed
  let ?rules = "map (\<lambda>x. if row_unmoved r x then move_row cond fired (now e) x else x) (pa_rules d)"
  have parts: "pa_rules (d\<lparr>pa_base := b, pa_rules := ?rules\<rparr>) = ?rules" "pa_base (d\<lparr>pa_base := b, pa_rules := ?rules\<rparr>) = b"
    by simp_all
  have fresh: "\<forall>row \<in> set new. q_key row \<notin> q_key ` set (queue (pa_base d))" using rows by blast
  show ?thesis
    unfolding alert_landed_def parts
    by (rule exI [of _ rd], rule exI [of _ cond], rule exI [of _ send], rule exI [of _ fired],
        rule exI [of _ "\<lambda>ch. palert_key r ch send (fired_unix fired)"], rule exI, rule exI [of _ new], rule exI [of _ n],
        intro conjI, rule assms(1), rule cond, rule send, rule fired, rule move_rows, rule b,
        rule ext, rule palert_key_written, rule refl, rule dist, rule fresh, rule said)
qed

text \<open>C24. An evaluation lands whole or not at all. The database is exactly what it was on every error but a failed
  commit, and for a rule that was paused or edited since it was read; without an error, when some row is still what the evaluation read, it has landed:
  those rows hold the condition as their state and the time of a firing, every other row is untouched, and when the condition entered or left firing
  every unmuted channel of the project has its message in the queue, the new ones pending with the payload composed from this reading.
  A failed commit leaves the one or the other, nothing in between.\<close>

theorem evaluate_all_or_nothing:
  "let (err, d') = evaluate F R e r d;
       unmoved = (\<exists>x \<in> set (pa_rules d). \<not> ar_paused x \<and> ru_ID x = ru_ID r \<and> ru_State x = ru_State r \<and>
         ru_LastFiredAt x = ru_LastFiredAt r \<and>
         ru_Event x = ru_Event r \<and> set (ru_Labels x) = set (ru_Labels r) \<and> ru_Measure x = ru_Measure r \<and>
         ru_Currency x = ru_Currency r \<and> ru_Kind x = ru_Kind r \<and> ru_Direction x = ru_Direction r \<and>
         ru_Percent x = ru_Percent r \<and> ru_WindowHours x = ru_WindowHours r)
   in case err of
        None \<Rightarrow> if unmoved then alert_landed F R e r d d' else d' = d
      | Some PACommit \<Rightarrow> d' = d \<or> unmoved \<and> alert_landed F R e r d d'
      | Some _ \<Rightarrow> d' = d"
proof -
  have unm: "(\<exists>x \<in> set (pa_rules d). \<not> ar_paused x \<and> ru_ID x = ru_ID r \<and> ru_State x = ru_State r \<and>
         ru_LastFiredAt x = ru_LastFiredAt r \<and>
         ru_Event x = ru_Event r \<and> set (ru_Labels x) = set (ru_Labels r) \<and> ru_Measure x = ru_Measure r \<and>
         ru_Currency x = ru_Currency r \<and> ru_Kind x = ru_Kind r \<and> ru_Direction x = ru_Direction r \<and>
         ru_Percent x = ru_Percent r \<and> ru_WindowHours x = ru_WindowHours r) = (\<exists>x \<in> set (pa_rules d). row_unmoved r x)"
    by (rule bex_cong [OF refl]) (auto simp: row_unmoved_def same_labels_def)
  show ?thesis
  proof (cases "read_rule R r (now e)")
    case None
    then show ?thesis by (simp add: evaluate_def)
  next
    case (Some rd)
    obtain cond send where st: "Step (ru_State r) (Condition F r rd) = (cond, send)" by (metis surj_pair)
    show ?thesis
    proof (cases "compose_alert F R e (pa_base d) r rd send")
      case (Inl err)
      with Some st show ?thesis by (simp add: evaluate_def Let_def split: palert_error.split)
    next
      case (Inr p)
      obtain pay chs where p: "p = (pay, chs)" by (cases p)
      let ?fired = "if send = SendFired then Some (now e) else ru_LastFiredAt r"
      let ?done = "\<lambda>b. d\<lparr>pa_base := b,
        pa_rules := map (\<lambda>x. if row_unmoved r x then move_row cond ?fired (now e) x else x) (pa_rules d)\<rparr>"
      have landed: "alert_landed F R e r d (?done b)"
        if "palert_enqueue e r send (fired_unix ?fired) pay chs (pa_base d) = Some b" for b
        by (rule enqueued_landed [OF Some st Inr [unfolded p] refl that])
      have ev: "evaluate F R e r d =
         (if fl e ''Begin'' [] then (Some PABegin, d)
          else case palert_enqueue e r send (fired_unix ?fired) pay chs (pa_base d) of
            None \<Rightarrow> (Some PAEnqueue, d)
          | Some b \<Rightarrow>
              if fl e ''UpdateProductAlert'' [ru_ID r] then (Some PAUpdate, d)
              else if \<not> (\<exists>x \<in> set (pa_rules d). row_unmoved r x) then (None, d)
              else if fl e ''Commit'' [] then (Some PACommit, if fl e ''CommitLanded'' [] then ?done b else d)
              else (None, ?done b))"
        unfolding evaluate_def Some st Inr p Let_def option.case sum.case prod.case by (rule refl)
      show ?thesis
        unfolding ev unm Let_def
        by (cases "palert_enqueue e r send (fired_unix ?fired) pay chs (pa_base d)") (simp_all add: landed)
    qed
  qed
qed

section \<open>Witness\<close>

definition rat_alert :: "rat alert_float" where
  "rat_alert = float64.extend rat_float (alert_float.fields abs (\<ge>) uminus round)"

definition quiet_rule :: Rule where
  "quiet_rule = \<lparr>ru_ID = 1, ru_TenantID = 3, ru_ProjectID = 4, ru_Name = '''', ru_Event = ''checkout'', ru_Labels = [],
     ru_Measure = ''count'', ru_Currency = '''', ru_Kind = ''silence'', ru_Direction = '''', ru_Percent = 0,
     ru_WindowHours = 3, ru_State = ''firing'', ru_LastFiredAt = Some 0\<rparr>"

definition long_silence :: Reading where
  "long_silence = \<lparr>rd_Cur = 0, rd_Base = 0, rd_BaseEvents = 0, rd_CurEvents = 0, rd_History = 55, rd_Prior = False\<rparr>"

theorem silence_recovers_without_events_witness:
  "Step (ru_State quiet_rule) (Condition rat_alert quiet_rule long_silence) = (StateLearning, SendRecovered) \<and>
   Title_alert rat_alert quiet_rule long_silence SendRecovered = subject quiet_rule False @ '' is back to normal''"
  by (rule silence_recovers_without_events) (simp_all add: quiet_rule_def long_silence_def StateFiring_def)

text \<open>A rule whose event was regular for a week and has stopped; the shop's channel is told.\<close>

definition calm_rule :: Rule where
  "calm_rule = quiet_rule\<lparr>ru_State := ''ok'', ru_LastFiredAt := None\<rparr>"

definition silent_ring :: alert_ring where
  "silent_ring = \<lparr>EventBuckets = (\<lambda>t p ev ls from to w. Some [if to = 0 then 0 else 100]),
     AmountBuckets = (\<lambda>t p ev c ls from to w. None), PriorEvent = (\<lambda>t p ev ls before. None),
     DeployMarks = (\<lambda>t p from to. Some []), ReleaseMarks = (\<lambda>t p from to. Some [])\<rparr>"

definition calm_db :: palert_db where
  "calm_db = \<lparr>pa_base = shop_db, pa_rules = [Rule.extend calm_rule (alert_row.fields False 0 None)]\<rparr>"

lemma calm_read:
  "\<exists>rd. read_rule silent_ring calm_rule 0 = Some rd \<and> Condition rat_alert calm_rule rd = StateFiring"
proof -
  have now: "window_from calm_rule 0 \<noteq> 0" by code_simp
  have "read_rule silent_ring calm_rule 0 =
      Some \<lparr>rd_Cur = 0, rd_Base = 0, rd_BaseEvents = 0, rd_CurEvents = 0, rd_History = 100, rd_Prior = False\<rparr>"
    using now by (simp add: read_rule_def count_events_def silent_ring_def calm_rule_def quiet_rule_def total_counts_def Let_def wrap64_id min_int64_def max_int64_def)
  then show ?thesis by (simp add: Condition_def calm_rule_def quiet_rule_def)
qed

lemma calm_composed: "\<exists>pay. compose_alert rat_alert silent_ring quiet_env shop_db calm_rule rd SendFired = Inr (pay, [5])"
  by (simp add: compose_alert_def silent_ring_def q_ListChannelsByProject_def quiet_env_def shop_db_def empty_db_def shop_channel_def
      MutedByPlan_def SendFired_def calm_rule_def quiet_rule_def Let_def)

lemma calm_unmoved: "pa_rules calm_db = [x] \<Longrightarrow> row_unmoved calm_rule x"
  by (auto simp: calm_db_def row_unmoved_def same_labels_def calm_rule_def quiet_rule_def Rule.defs alert_row.defs)

lemma calm_evaluated:
  "\<exists>b x. evaluate rat_alert silent_ring quiet_env calm_rule calm_db = (None, calm_db\<lparr>pa_base := b, pa_rules := [x]\<rparr>) \<and>
     ru_State x = ''firing'' \<and> length (queue b) = 1"
proof -
  obtain rd where rd: "read_rule silent_ring calm_rule 0 = Some rd" "Condition rat_alert calm_rule rd = StateFiring"
    using calm_read by blast
  obtain pay where pay: "compose_alert rat_alert silent_ring quiet_env shop_db calm_rule rd SendFired = Inr (pay, [5])"
    using calm_composed by blast
  have step: "Step (ru_State calm_rule) StateFiring = (StateFiring, SendFired)"
    by (simp add: Step_def state_defs calm_rule_def)
  have env: "now quiet_env = 0" "\<not> fl quiet_env q args" for q args by (simp_all add: quiet_env_def)
  have base: "pa_base calm_db = shop_db" "queue shop_db = []" by (simp_all add: calm_db_def shop_db_def empty_db_def)
  obtain b where b: "palert_enqueue quiet_env calm_rule SendFired (fired_unix (Some 0)) pay [5] shop_db = Some b" "length (queue b) = 1"
    by (simp add: q_EnqueueDelivery_def q_EnqueueDeliveryAt_def queue_has_def env base)
  obtain x where x: "pa_rules calm_db = [x]" by (simp add: calm_db_def)
  have "evaluate rat_alert silent_ring quiet_env calm_rule calm_db =
      (None, calm_db\<lparr>pa_base := b, pa_rules := [move_row StateFiring (Some 0) 0 x]\<rparr>)"
    using calm_unmoved [OF x] by (simp add: evaluate_def env rd step base pay b x Let_def del: palert_enqueue.simps)
  moreover have "ru_State (move_row StateFiring (Some 0) 0 x) = ''firing''" by (simp add: move_row_def StateFiring_def)
  ultimately show ?thesis using b(2) by blast
qed

theorem evaluate_all_or_nothing_witness:
  "let d' = snd (evaluate rat_alert silent_ring quiet_env calm_rule calm_db)
   in alert_landed rat_alert silent_ring quiet_env calm_rule calm_db d' \<and>
      map ru_State (pa_rules d') = [''firing''] \<and> length (queue (pa_base d')) = 1"
proof -
  obtain b x where ev: "evaluate rat_alert silent_ring quiet_env calm_rule calm_db = (None, calm_db\<lparr>pa_base := b, pa_rules := [x]\<rparr>)"
    "ru_State x = ''firing''" "length (queue b) = 1" using calm_evaluated by blast
  have "\<exists>x \<in> set (pa_rules calm_db). \<not> ar_paused x \<and> ru_ID x = ru_ID calm_rule \<and> ru_State x = ru_State calm_rule \<and>
      ru_LastFiredAt x = ru_LastFiredAt calm_rule \<and>
      ru_Event x = ru_Event calm_rule \<and> set (ru_Labels x) = set (ru_Labels calm_rule) \<and> ru_Measure x = ru_Measure calm_rule \<and>
      ru_Currency x = ru_Currency calm_rule \<and> ru_Kind x = ru_Kind calm_rule \<and> ru_Direction x = ru_Direction calm_rule \<and>
      ru_Percent x = ru_Percent calm_rule \<and> ru_WindowHours x = ru_WindowHours calm_rule"
    by (simp add: calm_db_def Rule.defs alert_row.defs)
  with evaluate_all_or_nothing [of rat_alert silent_ring quiet_env calm_rule calm_db]
  have "alert_landed rat_alert silent_ring quiet_env calm_rule calm_db (calm_db\<lparr>pa_base := b, pa_rules := [x]\<rparr>)"
    by (simp only: ev(1) Let_def prod.case option.case if_True)
  with ev show ?thesis by simp
qed

end
