(* ===== verification/GoUrl.thy ===== *)
theory GoUrl
  imports GoBytes
begin

text \<open>
  What the crawling and checking packages use of Go's \<^verbatim>\<open>strings\<close> and \<^verbatim>\<open>net/url\<close>. Cutting, splitting
  and trimming are defined; the parser of \<^verbatim>\<open>net/url\<close> is a parameter, the record \<open>url_lib\<close>, so that
  what is proved holds for whatever it reads in a string.
\<close>

section \<open>Strings\<close>

text \<open>\<^verbatim>\<open>strings.Split(s, sep)\<close> for a one-byte separator: never empty.\<close>

fun split_byte :: "char \<Rightarrow> string \<Rightarrow> string list" where
  "split_byte d [] = [[]]"
| "split_byte d (c # s) =
     (if c = d then [] # split_byte d s
      else case split_byte d s of l # ls \<Rightarrow> (c # l) # ls | [] \<Rightarrow> [[c]])"

text \<open>\<^verbatim>\<open>strings.Cut(s, sep)\<close> for a one-byte separator: before, after, found.\<close>

definition Cut :: "char \<Rightarrow> string \<Rightarrow> (string \<times> string) option" where
  "Cut d s = map_option (\<lambda>i. (take i s, drop (Suc i) s)) (index_byte s d)"

definition has_suffix :: "string \<Rightarrow> string \<Rightarrow> bool" where
  "has_suffix s p \<longleftrightarrow> length p \<le> length s \<and> drop (length s - length p) s = p"

definition TrimSuffix :: "string \<Rightarrow> string \<Rightarrow> string" where
  "TrimSuffix s p = (if has_suffix s p then take (length s - length p) s else s)"

definition TrimRight_byte :: "char \<Rightarrow> string \<Rightarrow> string" where
  "TrimRight_byte d s = trim_right (\<lambda>c. c = d) s"

definition Trim_byte :: "char \<Rightarrow> string \<Rightarrow> string" where
  "Trim_byte d s = trim_right (\<lambda>c. c = d) (trim_left (\<lambda>c. c = d) s)"

text \<open>\<^verbatim>\<open>strings.LastIndexByte\<close>: the position of the last occurrence.\<close>

fun last_index_byte :: "string \<Rightarrow> char \<Rightarrow> nat option" where
  "last_index_byte [] c = None"
| "last_index_byte (x # xs) c =
     (case last_index_byte xs c of
        Some i \<Rightarrow> Some (Suc i)
      | None \<Rightarrow> if x = c then Some 0 else None)"

lemma has_suffix_iff: "has_suffix s p \<longleftrightarrow> (\<exists>t. s = t @ p)"
proof
  assume "has_suffix s p"
  then have "s = take (length s - length p) s @ p"
    unfolding has_suffix_def by (metis append_take_drop_id)
  then show "\<exists>t. s = t @ p" ..
qed (auto simp: has_suffix_def)

lemma TrimSuffix_append [simp]: "TrimSuffix (t @ p) p = t"
  by (simp add: TrimSuffix_def has_suffix_def)

lemma last_index_byte_Some:
  "last_index_byte s c = Some i \<Longrightarrow> i < length s \<and> s ! i = c \<and> c \<notin> set (drop (Suc i) s)"
proof (induction s arbitrary: i)
  case (Cons x xs)
  show ?case
  proof (cases "last_index_byte xs c")
    case None
    then have "c \<notin> set xs" by (induction xs) (auto split: option.splits if_splits)
    with Cons.prems None show ?thesis by (auto split: if_splits)
  next
    case (Some j)
    with Cons.prems Cons.IH [OF Some] show ?thesis by auto
  qed
qed simp

lemma last_index_byte_None: "last_index_byte s c = None \<longleftrightarrow> c \<notin> set s"
  by (induction s) (auto split: option.splits)

lemma split_byte_not_Nil [simp]: "split_byte d s \<noteq> []"
  by (induction s) (auto split: list.split)

section \<open>URLs\<close>

text \<open>
  \<^verbatim>\<open>url.URL\<close>: the fields the program reads and sets; \<open>u_rest\<close> stands for the others. Of the library,
  \<^verbatim>\<open>url.Parse\<close>, \<^verbatim>\<open>(*URL).String\<close> and \<^verbatim>\<open>(*URL).ResolveReference\<close> are used.
\<close>

record 'r url =
  u_Scheme :: string
  u_Host :: string
  u_Path :: string
  u_RawQuery :: string
  u_Fragment :: string
  u_rest :: 'r

record 'r url_lib =
  url_Parse :: "string \<Rightarrow> 'r url option"
  url_String :: "'r url \<Rightarrow> string"
  url_Resolve :: "'r url \<Rightarrow> 'r url \<Rightarrow> 'r url"

text \<open>\<^verbatim>\<open>sameSite\<close>: the requested host or one of its subdomains. \<^verbatim>\<open>sameHost\<close>: a URL of base's site.\<close>

definition sameSite :: "string \<Rightarrow> string \<Rightarrow> bool" where
  "sameSite root host \<longleftrightarrow> host = root \<or> has_suffix host (CHR ''.'' # root)"

definition sameHost :: "'r url_lib \<Rightarrow> string \<Rightarrow> string \<Rightarrow> bool" where
  "sameHost W base raw =
     (case url_Parse W base of
        None \<Rightarrow> False
      | Some root \<Rightarrow> (case url_Parse W (TrimSpace raw) of
                       None \<Rightarrow> False
                     | Some u \<Rightarrow> sameSite (u_Host root) (u_Host u)))"

lemma sameSite_refl [simp]: "sameSite h h"
  by (simp add: sameSite_def)

lemma sameSite_trans: "sameSite a b \<Longrightarrow> sameSite b c \<Longrightarrow> sameSite a c"
  by (auto simp: sameSite_def has_suffix_iff)

section \<open>Hosts and ports\<close>

text \<open>\<^verbatim>\<open>(*URL).Hostname\<close> and \<^verbatim>\<open>(*URL).Port\<close>: the host without its port and the brackets of an IPv6 literal.\<close>

definition validOptionalPort :: "string \<Rightarrow> bool" where
  "validOptionalPort port =
     (case port of [] \<Rightarrow> True | c # cs \<Rightarrow> c = CHR '':'' \<and> list_all is_digit cs)"

definition splitHostPort :: "string \<Rightarrow> string \<times> string" where
  "splitHostPort hostPort =
     (let (host, port) =
        (case last_index_byte hostPort CHR '':'' of
           Some i \<Rightarrow> if validOptionalPort (drop i hostPort)
                     then (take i hostPort, drop (Suc i) hostPort) else (hostPort, [])
         | None \<Rightarrow> (hostPort, []))
      in (if has_prefix host ''['' \<and> has_suffix host '']'' then butlast (tl host) else host, port))"

definition Hostname :: "'r url \<Rightarrow> string" where "Hostname u = fst (splitHostPort (u_Host u))"
definition Port :: "'r url \<Rightarrow> string" where "Port u = snd (splitHostPort (u_Host u))"

text \<open>\<^verbatim>\<open>net.JoinHostPort\<close>: a host with a colon gets brackets.\<close>

definition JoinHostPort :: "string \<Rightarrow> string \<Rightarrow> string" where
  "JoinHostPort host port =
     (if CHR '':'' \<in> set host then CHR ''['' # host @ '']:'' @ port else host @ CHR '':'' # port)"

end
