(* ===== verification/Guard.thy ===== *)
theory Guard
  imports GoUrl "HOL-Library.Word"
begin

text \<open>
  The probe's guard against requests into private networks, \<^verbatim>\<open>back/internal/probe/guard/guard.go\<close>, over IPv4
  addresses of 32 bits and IPv6 addresses of 128. The parsers \<^verbatim>\<open>net.ParseIP\<close> and \<^verbatim>\<open>url.Parse\<close> are
  parameters; the networks of the list are given as the numbers their literals denote.
\<close>

unbundle bit_operations_syntax

section \<open>Addresses and networks\<close>

datatype ip = V4 "32 word" | V6 "128 word"

definition dotted :: "nat \<Rightarrow> nat \<Rightarrow> nat \<Rightarrow> nat \<Rightarrow> 32 word" where
  "dotted a b c d = of_nat (((a * 256 + b) * 256 + c) * 256 + d)"

text \<open>\<^verbatim>\<open>To4\<close>: an IPv4-mapped IPv6 address is the IPv4 address.\<close>

definition To4 :: "ip \<Rightarrow> ip" where
  "To4 ip =
     (case ip of
        V4 w \<Rightarrow> V4 w
      | V6 w \<Rightarrow> if drop_bit 32 w = 0xFFFF then V4 (ucast w) else V6 w)"

text \<open>A network is an address and the length of its prefix; \<^verbatim>\<open>(*IPNet).Contains\<close> compares the masked bytes.\<close>

definition same_prefix :: "nat \<Rightarrow> 'a::len word \<Rightarrow> 'a word \<Rightarrow> bool" where
  "same_prefix p n w = (n AND NOT (mask (LENGTH('a) - p)) = w AND NOT (mask (LENGTH('a) - p)))"

definition net_contains :: "ip \<times> nat \<Rightarrow> ip \<Rightarrow> bool" where
  "net_contains net ip =
     (case (fst net, To4 ip) of
        (V4 n, V4 w) \<Rightarrow> same_prefix (snd net) n w
      | (V6 n, V6 w) \<Rightarrow> same_prefix (snd net) n w
      | _ \<Rightarrow> False)"

definition blockedNets :: "(ip \<times> nat) list" where
  "blockedNets =
     [(V4 (dotted 10 0 0 0), 8), (V4 (dotted 172 16 0 0), 12), (V4 (dotted 192 168 0 0), 16),
      (V4 (dotted 127 0 0 0), 8), (V4 (dotted 169 254 0 0), 16), (V4 (dotted 0 0 0 0), 8),
      (V4 (dotted 100 64 0 0), 10),
      (V6 1, 128), (V6 (push_bit 120 0xFC), 7), (V6 (push_bit 112 0xFE80), 10)]"

section \<open>The standard library's predicates\<close>

text \<open>Byte \<open>i\<close> of an address, the first being the highest.\<close>

definition byte_at :: "nat \<Rightarrow> 'a::len word \<Rightarrow> 'a word" where
  "byte_at i w = drop_bit (LENGTH('a) - 8 * Suc i) w AND 0xFF"

definition IsPrivate :: "ip \<Rightarrow> bool" where
  "IsPrivate ip =
     (case To4 ip of
        V4 w \<Rightarrow> byte_at 0 w = 10 \<or> byte_at 0 w = 172 \<and> byte_at 1 w AND 0xF0 = 16
                \<or> byte_at 0 w = 192 \<and> byte_at 1 w = 168
      | V6 w \<Rightarrow> byte_at 0 w AND 0xFE = 0xFC)"

definition IsLoopback :: "ip \<Rightarrow> bool" where
  "IsLoopback ip = (case To4 ip of V4 w \<Rightarrow> byte_at 0 w = 127 | V6 w \<Rightarrow> w = 1)"

definition IsLinkLocalUnicast :: "ip \<Rightarrow> bool" where
  "IsLinkLocalUnicast ip =
     (case To4 ip of
        V4 w \<Rightarrow> byte_at 0 w = 169 \<and> byte_at 1 w = 254
      | V6 w \<Rightarrow> byte_at 0 w = 0xFE \<and> byte_at 1 w AND 0xC0 = 0x80)"

definition IsUnspecified :: "ip \<Rightarrow> bool" where
  "IsUnspecified ip = (case To4 ip of V4 w \<Rightarrow> w = 0 | V6 w \<Rightarrow> w = 0)"

section \<open>The checks\<close>

text \<open>The errors of the package; \<open>ErrBlockedTarget\<close> is the one callers test for.\<close>

datatype guard_error = ErrBlockedTarget | BadURL | SchemeNotAllowed string | PortNotAllowed string

definition CheckIP :: "ip \<Rightarrow> guard_error option" where
  "CheckIP ip =
     (if list_ex (\<lambda>n. net_contains n ip) blockedNets then Some ErrBlockedTarget
      else if IsPrivate ip \<or> IsLoopback ip \<or> IsLinkLocalUnicast ip \<or> IsUnspecified ip
      then Some ErrBlockedTarget
      else None)"

fun CheckResolvedIPs :: "ip list \<Rightarrow> guard_error option" where
  "CheckResolvedIPs [] = None"
| "CheckResolvedIPs (ip # ips) =
     (case CheckIP ip of Some e \<Rightarrow> Some e | None \<Rightarrow> CheckResolvedIPs ips)"

definition allowedPorts :: "string list" where "allowedPorts = ['''', ''80'', ''443'']"

definition CheckURL :: "'r url_lib \<Rightarrow> (string \<Rightarrow> ip option) \<Rightarrow> string \<Rightarrow> guard_error option" where
  "CheckURL W ParseIP rawURL =
     (case url_Parse W rawURL of
        None \<Rightarrow> Some BadURL
      | Some u \<Rightarrow>
          let scheme = ToLower (u_Scheme u) in
          if scheme \<noteq> ''http'' \<and> scheme \<noteq> ''https'' then Some (SchemeNotAllowed (u_Scheme u))
          else if Port u \<notin> set allowedPorts then Some (PortNotAllowed (Port u))
          else if Hostname u \<noteq> [] then
            (case ParseIP (Hostname u) of Some ip \<Rightarrow> CheckIP ip | None \<Rightarrow> None)
          else None)"

section \<open>The blocked ranges\<close>

text \<open>The ranges as intervals of numbers: the numbers whose part above bit \<open>k\<close> is \<open>n\<close>.\<close>

definition in_block :: "nat \<Rightarrow> nat \<Rightarrow> nat \<Rightarrow> bool" where
  "in_block k n w \<longleftrightarrow> n * 2 ^ k \<le> w \<and> w < (n + 1) * 2 ^ k"

lemma in_block_div: "in_block k n w \<longleftrightarrow> w div 2 ^ k = n"
proof -
  have "0 < (2 :: nat) ^ k" by simp
  then show ?thesis
    unfolding in_block_def by (metis div_nat_eqI dividend_less_times_div mult.commute
        Suc_eq_plus1 div_times_less_eq_dividend less_mult_imp_div_less dividend_less_div_times add.commute mult_Suc)
qed

definition blocked_v4 :: "nat \<Rightarrow> bool" where
  "blocked_v4 w \<longleftrightarrow>
     in_block 24 10 w \<or> in_block 20 (172 * 16 + 1) w \<or> in_block 16 (192 * 256 + 168) w
     \<or> in_block 24 127 w \<or> in_block 16 (169 * 256 + 254) w \<or> in_block 24 0 w
     \<or> in_block 22 (100 * 4 + 1) w"

definition blocked_v6 :: "nat \<Rightarrow> bool" where
  "blocked_v6 w \<longleftrightarrow> w = 0 \<or> w = 1 \<or> in_block 121 0x7E w \<or> in_block 118 0x3FA w"

definition blocked :: "ip \<Rightarrow> bool" where
  "blocked ip = (case To4 ip of V4 w \<Rightarrow> blocked_v4 (unat w) | V6 w \<Rightarrow> blocked_v6 (unat w))"

lemma drop_bit_and_not_mask:
  "((a :: 'a::len word) AND NOT (mask k) = b AND NOT (mask k)) \<longleftrightarrow> drop_bit k a = drop_bit k b"
proof
  assume eq: "a AND NOT (mask k) = b AND NOT (mask k)"
  have "drop_bit k (c AND NOT (mask k)) = drop_bit k c" for c :: "'a word"
    by (rule bit_word_eqI) (auto simp: bit_simps dest: bit_imp_le_length)
  with eq show "drop_bit k a = drop_bit k b" by metis
next
  assume "drop_bit k a = drop_bit k b"
  then have "bit a i = bit b i" if "k \<le> i" for i
    using that by (metis bit_drop_bit_eq comp_apply le_add_diff_inverse)
  then show "a AND NOT (mask k) = b AND NOT (mask k)"
    by (intro bit_word_eqI) (auto simp: bit_simps)
qed

lemma unat_drop_bit: "unat (drop_bit k w) = unat w div 2 ^ k"
  unfolding unat_drop_bit_eq by (simp add: drop_bit_eq_div)

lemma same_prefix_iff:
  "same_prefix p (n :: 'a::len word) w \<longleftrightarrow>
     unat n div 2 ^ (LENGTH('a) - p) = unat w div 2 ^ (LENGTH('a) - p)"
  unfolding same_prefix_def drop_bit_and_not_mask
  by (metis unat_drop_bit word_unat_eq_iff)

lemma net_contains_simps:
  "net_contains (V4 n, p) ip =
     (case To4 ip of V4 w \<Rightarrow> unat w div 2 ^ (32 - p) = unat n div 2 ^ (32 - p) | V6 w \<Rightarrow> False)"
  "net_contains (V6 m, p) ip =
     (case To4 ip of V4 w \<Rightarrow> False | V6 w \<Rightarrow> unat w div 2 ^ (128 - p) = unat m div 2 ^ (128 - p))"
  by (auto simp: net_contains_def same_prefix_iff split: ip.split)

lemma listed_networks:
  "list_ex (\<lambda>n. net_contains n ip) blockedNets \<longleftrightarrow>
     (case To4 ip of V4 w \<Rightarrow> blocked_v4 (unat w) | V6 w \<Rightarrow> unat w \<noteq> 0 \<and> blocked_v6 (unat w))"
  by (cases "To4 ip")
    (auto simp: blockedNets_def net_contains_simps blocked_v4_def blocked_v6_def in_block_div dotted_def
      push_bit_eq_mult)

lemma byte_at_word:
  "8 * Suc i \<le> LENGTH('a) \<Longrightarrow>
   unat (byte_at i (w :: 'a::len word)) = unat w div 2 ^ (LENGTH('a) - 8 * Suc i) mod 256"
proof -
  have "byte_at i w = take_bit 8 (drop_bit (LENGTH('a) - 8 * Suc i) w)"
    by (simp add: byte_at_def take_bit_eq_mask mask_eq_exp_minus_1)
  then show ?thesis
    by (simp only: unsigned_take_bit_eq unat_drop_bit) (simp add: take_bit_eq_mod)
qed

lemma masked_bits:
  assumes "x AND c = (d :: 'a::len word)" and "drop_bit k c = mask j"
  shows "unat x div 2 ^ k mod 2 ^ j = unat (drop_bit k d)"
proof -
  have "take_bit j (drop_bit k x) = drop_bit k d"
    using assms by (metis drop_bit_and take_bit_eq_mask)
  then have "take_bit j (unat (drop_bit k x)) = unat (drop_bit k d)"
    by (metis unsigned_take_bit_eq)
  then show ?thesis by (simp add: unat_drop_bit take_bit_eq_mod)
qed

lemma high_bits:
  "n div 2 ^ k mod 2 ^ j = m \<Longrightarrow> n div 2 ^ (k + j) = h \<Longrightarrow> n div 2 ^ k = h * 2 ^ j + (m :: nat)"
  by (metis div_mult_mod_eq div_mult2_eq power_add)

lemma mod_mult_div: "0 < a \<Longrightarrow> (n :: nat) mod (a * b) div a = n div a mod b"
  by (simp add: mod_mult2_eq)

lemma bits_of_byte:
  "(n :: nat) mod 256 div 16 mod 16 = n div 16 mod 16"
  "n mod 256 div 2 mod 128 = n div 2 mod 128"
  "n mod 256 div 64 mod 4 = n div 64 mod 4"
  using mod_mult_div [of 16 n 16] mod_mult_div [of 2 n 128] mod_mult_div [of 64 n 4] by simp_all

lemma top_byte: "w < 256 * k \<Longrightarrow> (w :: nat) div k mod 256 = w div k"
  by (simp add: less_mult_imp_div_less)

text \<open>What the standard library's predicates add to the list is the unspecified IPv6 address.\<close>

lemma v4_private:
  fixes w :: "32 word"
  assumes "byte_at 0 w = 172" and "byte_at 1 w AND 0xF0 = 16"
  shows "unat w div 2 ^ 20 = 172 * 16 + 1"
proof -
  have "unat (byte_at 1 w) div 2 ^ 4 mod 2 ^ 4 = unat (drop_bit 4 16 :: 32 word)"
    by (rule masked_bits [OF assms(2)]) (simp add: mask_eq_exp_minus_1)
  then have "unat w div 2 ^ 16 div 16 mod 16 = 1"
    using byte_at_word [of 1 w] by (simp add: bits_of_byte)
  then have low: "unat w div 2 ^ 20 mod 2 ^ 4 = 1" by (simp add: div_mult2_eq [symmetric])
  have "unat w div 2 ^ (20 + 4) = 172"
    using byte_at_word [of 0 w] assms(1) unsigned_less [of w, where ?'a = nat] by (simp add: top_byte)
  from high_bits [OF low this] show ?thesis by simp
qed

lemma v6_private:
  fixes w :: "128 word"
  assumes "byte_at 0 w AND 0xFE = 0xFC"
  shows "unat w div 2 ^ 121 = 0x7E"
proof -
  have "unat (byte_at 0 w) div 2 ^ 1 mod 2 ^ 7 = unat (drop_bit 1 0xFC :: 128 word)"
    by (rule masked_bits [OF assms]) (simp add: mask_eq_exp_minus_1)
  then have "unat w div 2 ^ 120 div 2 mod 128 = 126"
    using byte_at_word [of 0 w] by (simp add: bits_of_byte)
  then have "unat w div 2 ^ 121 mod 128 = 126" by (simp add: div_mult2_eq [symmetric])
  moreover have "unat w div 2 ^ 121 < 128"
    using unsigned_less [of w, where ?'a = nat] by (simp add: less_mult_imp_div_less)
  ultimately show ?thesis by simp
qed

lemma v6_link_local:
  fixes w :: "128 word"
  assumes "byte_at 0 w = 0xFE" and "byte_at 1 w AND 0xC0 = 0x80"
  shows "unat w div 2 ^ 118 = 0x3FA"
proof -
  have "unat (byte_at 1 w) div 2 ^ 6 mod 2 ^ 2 = unat (drop_bit 6 0x80 :: 128 word)"
    by (rule masked_bits [OF assms(2)]) (simp add: mask_eq_exp_minus_1)
  then have "unat w div 2 ^ 112 div 64 mod 4 = 2"
    using byte_at_word [of 1 w] by (simp add: bits_of_byte)
  then have low: "unat w div 2 ^ 118 mod 2 ^ 2 = 2" by (simp add: div_mult2_eq [symmetric])
  have "unat w div 2 ^ (118 + 2) = 0xFE"
    using byte_at_word [of 0 w] assms(1) unsigned_less [of w, where ?'a = nat] by (simp add: top_byte)
  from high_bits [OF low this] show ?thesis by simp
qed

lemma two_bytes:
  fixes w :: "32 word"
  assumes "byte_at 0 w = a" and "byte_at 1 w = b"
  shows "unat w div 2 ^ 16 = unat a * 256 + unat b"
proof -
  have low: "unat w div 2 ^ 16 mod 2 ^ 8 = unat b"
    using byte_at_word [of 1 w] assms(2) by simp
  have "unat w div 2 ^ (16 + 8) = unat a"
    using byte_at_word [of 0 w] assms(1) unsigned_less [of w, where ?'a = nat] by (simp add: top_byte)
  from high_bits [OF low this] show ?thesis by simp
qed

lemma first_byte:
  fixes w :: "32 word"
  assumes "byte_at 0 w = a"
  shows "unat w div 2 ^ 24 = unat a"
  using byte_at_word [of 0 w] assms unsigned_less [of w, where ?'a = nat] by (simp add: top_byte)

lemma stdlib_within:
  "IsPrivate ip \<or> IsLoopback ip \<or> IsLinkLocalUnicast ip \<or> IsUnspecified ip \<Longrightarrow> blocked ip"
  by (cases "To4 ip")
    (auto simp: IsPrivate_def IsLoopback_def IsLinkLocalUnicast_def IsUnspecified_def blocked_def
      blocked_v4_def blocked_v6_def in_block_div dest: first_byte two_bytes v4_private v6_private v6_link_local)

text \<open>The guard refuses exactly the listed ranges and the unspecified address: of IPv4, 10/8, 172.16/12, 192.168/16, 127/8,
  169.254/16, 0/8 and 100.64/10; of IPv6, ::, ::1, fc00::/7 and fe80::/10; and an IPv4-mapped address as the IPv4 address it maps.\<close>

theorem CheckIP_blocks_exactly:
  "CheckIP ip = (if blocked ip then Some ErrBlockedTarget else None)"
proof (cases "list_ex (\<lambda>n. net_contains n ip) blockedNets")
  case True
  then have "blocked ip" by (auto simp: listed_networks blocked_def split: ip.splits)
  with True show ?thesis by (simp add: CheckIP_def)
next
  case False
  then have "blocked ip \<Longrightarrow> IsUnspecified ip"
    by (auto simp: listed_networks blocked_def IsUnspecified_def unat_eq_0 split: ip.splits)
  with False stdlib_within [of ip] show ?thesis by (auto simp: CheckIP_def)
qed

lemma CheckResolvedIPs_iff:
  "CheckResolvedIPs ips = (if list_ex blocked ips then Some ErrBlockedTarget else None)"
  by (induction ips) (auto simp: CheckIP_blocks_exactly)

end
