(* ===== verification/Executor.thy ===== *)
theory Executor
  imports Guard ProbeService IngestHandle
begin

text \<open>
  One check of a probe, \<^verbatim>\<open>back/internal/probe/executor/executor.go\<close>: the URL check, the hops of the HTTP client
  with the guarded dial before each and the check of each redirect, and the result; and the
  mapping of the result to the wire, \<^verbatim>\<open>back/cmd/ucprobe/main.go\<close>. What the network answers, the resolver,
  the clock's readings and SHA-256 are parameters. A hop always dials: the model has no kept-alive connections.
\<close>

section \<open>Errors\<close>

text \<open>
  An error by its text and by what \<^verbatim>\<open>errors.Is\<close> finds in its chain: \<^verbatim>\<open>context.DeadlineExceeded\<close>, \<^verbatim>\<open>guard.ErrBlockedTarget\<close>.
\<close>

record go_error =
  er_text :: string
  er_deadline :: bool
  er_blocked :: bool

definition quoted :: "string \<Rightarrow> string" where
  "quoted s = DQUOTE # s @ [DQUOTE]"

definition guard_err :: "(string \<Rightarrow> string) \<Rightarrow> string \<Rightarrow> guard_error \<Rightarrow> go_error" where
  "guard_err parse_error u e =
     (case e of
        ErrBlockedTarget \<Rightarrow>
          \<lparr>er_text = ''guard: target is in a blocked range'', er_deadline = False, er_blocked = True\<rparr>
      | BadURL \<Rightarrow> \<lparr>er_text = ''guard: bad URL: '' @ parse_error u, er_deadline = False, er_blocked = False\<rparr>
      | SchemeNotAllowed s \<Rightarrow>
          \<lparr>er_text = ''guard: scheme '' @ quoted s @ '' not allowed'', er_deadline = False, er_blocked = False\<rparr>
      | PortNotAllowed p \<Rightarrow>
          \<lparr>er_text = ''guard: port '' @ quoted p @ '' not allowed'', er_deadline = False, er_blocked = False\<rparr>)"

definition isTimeout :: "go_error \<Rightarrow> bool" where
  "isTimeout e = (er_deadline e \<or> contains (er_text e) ''timeout'')"

definition isBlocked :: "go_error \<Rightarrow> bool" where "isBlocked e = er_blocked e"
definition isDNS :: "go_error \<Rightarrow> bool" where "isDNS e = contains (er_text e) ''dns:''"
definition isTLS :: "go_error \<Rightarrow> bool" where "isTLS e = contains (er_text e) ''tls:''"

section \<open>The check's input, output and surroundings\<close>

record exec_spec =
  xs_URL :: string
  xs_Method :: string
  xs_Keyword :: string
  xs_TimeoutMs :: int
  xs_MaxRedirects :: int
  xs_MaxBodyBytes :: int
  xs_CollectExpiry :: bool
  xs_CollectBody :: bool

record exec_result =
  xr_OK :: bool
  xr_StatusCode :: int
  xr_ErrorClass :: string
  xr_ErrorDetail :: string
  xr_DNSMs :: int
  xr_ConnectMs :: int
  xr_TLSMs :: int
  xr_TTFBMs :: int
  xr_TotalMs :: int
  xr_BodyHash :: int
  xr_RedirectCount :: int
  xr_SSLExpiresAt :: "time option"
  xr_DNSAddrs :: int
  xr_TLSVersion :: string
  xr_Header :: "(string \<Rightarrow> string) option"
  xr_RetryAfterSec :: int
  xr_Body :: string

definition no_result :: exec_result where
  "no_result =
     \<lparr>xr_OK = False, xr_StatusCode = 0, xr_ErrorClass = [], xr_ErrorDetail = [], xr_DNSMs = 0,
      xr_ConnectMs = 0, xr_TLSMs = 0, xr_TTFBMs = 0, xr_TotalMs = 0, xr_BodyHash = 0,
      xr_RedirectCount = 0, xr_SSLExpiresAt = None, xr_DNSAddrs = 0, xr_TLSVersion = [],
      xr_Header = None, xr_RetryAfterSec = 0, xr_Body = []\<rparr>"

text \<open>The hooks' readings; an absent one is the zero time.\<close>

record timingRecorder =
  tr_start :: time
  tr_dnsAddrs :: int
  tr_dnsStart :: "time option"
  tr_dnsDone :: "time option"
  tr_connectStart :: "time option"
  tr_connectDone :: "time option"
  tr_tlsStart :: "time option"
  tr_tlsDone :: "time option"
  tr_firstByte :: "time option"

definition uint32 :: "int \<Rightarrow> int" where "uint32 n = n mod 2 ^ 32"

text \<open>\<^verbatim>\<open>uint32(b.Sub(a).Microseconds() / 1000)\<close>; the readings of one clock do not fall.\<close>

definition ms_between :: "time \<Rightarrow> time \<Rightarrow> int" where
  "ms_between a b = uint32 (Sub b a div 1000 div 1000)"

definition span_ms :: "time option \<Rightarrow> time option \<Rightarrow> int" where
  "span_ms start done =
     (case (start, done) of (Some a, Some b) \<Rightarrow> ms_between a b | _ \<Rightarrow> 0)"

definition dnsMs :: "timingRecorder \<Rightarrow> int" where "dnsMs t = span_ms (tr_dnsStart t) (tr_dnsDone t)"
definition connectMs :: "timingRecorder \<Rightarrow> int" where
  "connectMs t = span_ms (tr_connectStart t) (tr_connectDone t)"
definition tlsMs :: "timingRecorder \<Rightarrow> int" where "tlsMs t = span_ms (tr_tlsStart t) (tr_tlsDone t)"
definition ttfbMs :: "timingRecorder \<Rightarrow> int" where
  "ttfbMs t = (case tr_firstByte t of None \<Rightarrow> 0 | Some b \<Rightarrow> ms_between (tr_start t) b)"

text \<open>A response: its TLS state is the version and the first certificate's end, if it came with any.\<close>

record response_in =
  ri_StatusCode :: int
  ri_Header :: "string \<Rightarrow> string"
  ri_Body :: string
  ri_TLS :: "(int \<times> time option) option"

datatype hop = Failed go_error | Redirected string | Answered response_in

text \<open>
  The surroundings of one \<^verbatim>\<open>Execute\<close>: the URL library with the text of its parse errors, the address
  parser, the resolver, \<^verbatim>\<open>http.NewRequest\<close>'s refusal, what a hop answers once it has dialled,
  the hash, the readings of the hooks and the time at the end.
\<close>

record 'r exec_env =
  ee_url :: "'r url_lib"
  ee_parse_error :: "string \<Rightarrow> string"
  ee_ParseIP :: "string \<Rightarrow> ip option"
  ee_LookupIPAddr :: "string \<Rightarrow> go_error + ip list"
  ee_NewRequest :: "string \<Rightarrow> string \<Rightarrow> string option"
  ee_hop :: "string list \<Rightarrow> string \<Rightarrow> hop"
  ee_hash :: "string \<Rightarrow> int"
  ee_timing :: timingRecorder
  ee_end :: time

section \<open>Dialling and following redirects\<close>

definition host_of :: "'r exec_env \<Rightarrow> string \<Rightarrow> string" where
  "host_of e u = (case url_Parse (ee_url e) u of Some x \<Rightarrow> Hostname x | None \<Rightarrow> [])"

text \<open>The transport's \<^verbatim>\<open>DialContext\<close>: the address it connects to. \<open>g\<close> is whether the executor has a guard.\<close>

definition guarded :: "bool \<Rightarrow> ip list \<Rightarrow> guard_error option" where
  "guarded g ips = (if g then CheckResolvedIPs ips else None)"

definition DialContext :: "'r exec_env \<Rightarrow> bool \<Rightarrow> string \<Rightarrow> go_error + ip" where
  "DialContext e g host =
     (case ee_ParseIP e host of
        Some ip \<Rightarrow>
          (case guarded g [ip] of Some x \<Rightarrow> Inl (guard_err (ee_parse_error e) host x) | None \<Rightarrow> Inr ip)
      | None \<Rightarrow>
          (case ee_LookupIPAddr e host of
             Inl x \<Rightarrow> Inl (x\<lparr>er_text := ''dns: '' @ er_text x\<rparr>)
           | Inr ips \<Rightarrow>
               (case guarded g ips of
                  Some x \<Rightarrow> Inl (guard_err (ee_parse_error e) host x)
                | None \<Rightarrow> Inr (ips ! 0))))"

text \<open>\<^verbatim>\<open>url.Error\<close>: the operation, the URL and the error, whose chain it keeps.\<close>

definition url_error :: "string \<Rightarrow> string \<Rightarrow> go_error \<Rightarrow> go_error" where
  "url_error method u x =
     x\<lparr>er_text := take 1 method @ ToLower (drop 1 method) @ '' '' @ quoted u @ '': '' @ er_text x\<rparr>"

definition too_many_redirects :: go_error where
  "too_many_redirects = \<lparr>er_text = ''too_many_redirects'', er_deadline = False, er_blocked = False\<rparr>"

definition CheckRedirect :: "'r exec_env \<Rightarrow> bool \<Rightarrow> nat \<Rightarrow> string \<Rightarrow> string list \<Rightarrow> go_error option" where
  "CheckRedirect e g maxRedirects u via =
     (if maxRedirects \<le> length via then Some too_many_redirects
      else if g then
        map_option (guard_err (ee_parse_error e) u) (CheckURL (ee_url e) (ee_ParseIP e) u)
      else None)"

text \<open>
  \<^verbatim>\<open>client.Do\<close>: the addresses it connected to, and the error or the response with the number of
  redirects followed. \<open>via\<close> are the requests made so far.
\<close>

function follow ::
    "'r exec_env \<Rightarrow> bool \<Rightarrow> string \<Rightarrow> nat \<Rightarrow> string list \<Rightarrow> string \<Rightarrow> ip list \<Rightarrow> ip list \<times> (go_error + response_in \<times> nat)"
  where
  "follow e g method maxRedirects via u dialed =
     (case DialContext e g (host_of e u) of
        Inl x \<Rightarrow> (dialed, Inl (url_error method u x))
      | Inr ip \<Rightarrow>
          (case ee_hop e via u of
             Failed x \<Rightarrow> (dialed @ [ip], Inl (url_error method u x))
           | Answered r \<Rightarrow> (dialed @ [ip], Inr (r, length via))
           | Redirected next_u \<Rightarrow>
               (case CheckRedirect e g maxRedirects next_u (via @ [u]) of
                  Some x \<Rightarrow> (dialed @ [ip], Inl (url_error method next_u x))
                | None \<Rightarrow> follow e g method maxRedirects (via @ [u]) next_u (dialed @ [ip]))))"
  by pat_completeness auto
termination
  by (relation "measure (\<lambda>(e, g, method, m, via, u, dialed). m - length via)")
    (auto simp: CheckRedirect_def split: if_splits)

declare follow.simps [simp del]

section \<open>Execute\<close>

definition tlsVersionName :: "int \<Rightarrow> string" where
  "tlsVersionName v =
     (if v = 0x0304 then ''TLS 1.3'' else if v = 0x0303 then ''TLS 1.2''
      else if v = 0x0302 then ''TLS 1.1'' else if v = 0x0301 then ''TLS 1.0'' else [])"

definition EqualFold :: "string \<Rightarrow> string \<Rightarrow> bool" where "EqualFold a b = (ToLower a = ToLower b)"

definition isChallenge :: "(string \<Rightarrow> string) \<Rightarrow> bool" where
  "isChallenge h =
     (let waf = h ''X-Amzn-Waf-Action''
      in EqualFold (h ''Cf-Mitigated'') ''challenge''
         \<or> EqualFold waf ''challenge'' \<or> EqualFold waf ''captcha''
         \<or> EqualFold (h ''X-Vercel-Mitigated'') ''challenge'')"

definition blockedResult :: "go_error \<Rightarrow> exec_result" where
  "blockedResult x = no_result\<lparr>xr_ErrorClass := ''blocked_target'', xr_ErrorDetail := er_text x\<rparr>"

definition errorResult :: "go_error \<Rightarrow> time \<Rightarrow> time \<Rightarrow> exec_result" where
  "errorResult x start end_at =
     no_result
       \<lparr>xr_ErrorClass :=
          (if isTimeout x then ''timeout''
           else if isBlocked x then ''blocked_target''
           else if isDNS x then ''dns''
           else if isTLS x then ''tls''
           else ''connect''),
        xr_ErrorDetail := er_text x,
        xr_TotalMs := ms_between start end_at\<rparr>"

text \<open>\<^verbatim>\<open>strconv.Atoi\<close> of a trimmed header: an optional sign and digits, within 64 bits (\<open>ParseInt\<close>).\<close>

definition retry_after :: "(string \<Rightarrow> string) \<Rightarrow> int" where
  "retry_after h =
     (let v = h ''Retry-After'' in
      if v = [] then 0
      else case ParseInt (TrimSpace v) of
             Some secs \<Rightarrow> if 0 < secs then int32 secs else 0
           | None \<Rightarrow> 0)"

definition assert_status :: "int \<Rightarrow> exec_result \<Rightarrow> exec_result" where
  "assert_status status res =
     (if \<not> xr_OK res
      then res\<lparr>xr_ErrorClass := ''status'', xr_ErrorDetail := ''HTTP '' @ itoa status\<rparr> else res)"

definition assert_no_challenge :: "response_in \<Rightarrow> exec_result \<Rightarrow> exec_result" where
  "assert_no_challenge r res =
     (if isChallenge (ri_Header r)
      then res\<lparr>xr_OK := False, xr_ErrorClass := ''challenge'',
               xr_ErrorDetail := ''HTTP '' @ itoa (ri_StatusCode r) @ '' bot challenge''\<rparr>
      else res)"

definition assert_keyword :: "string \<Rightarrow> string \<Rightarrow> exec_result \<Rightarrow> exec_result" where
  "assert_keyword keyword body res =
     (if keyword \<noteq> [] \<and> xr_OK res \<and> \<not> contains body keyword
      then res\<lparr>xr_OK := False, xr_ErrorClass := ''keyword_missing''\<rparr> else res)"

definition read_body :: "exec_spec \<Rightarrow> response_in \<Rightarrow> string" where
  "read_body spec r =
     (let maxBody = (if xs_MaxBodyBytes spec \<le> 0 then 65536 else xs_MaxBodyBytes spec)
      in take (nat maxBody) (ri_Body r))"

text \<open>What is read off the response before anything is asserted of it.\<close>

definition reading :: "'r exec_env \<Rightarrow> exec_spec \<Rightarrow> response_in \<Rightarrow> nat \<Rightarrow> exec_result" where
  "reading e spec r redirects =
     (let body = read_body spec r;
          t = ee_timing e
      in no_result
           \<lparr>xr_OK := 200 \<le> ri_StatusCode r \<and> ri_StatusCode r < 400,
            xr_StatusCode := ri_StatusCode r mod 2 ^ 16,
            xr_ErrorClass := ''none'', xr_BodyHash := ee_hash e body,
            xr_DNSMs := dnsMs t, xr_ConnectMs := connectMs t, xr_TLSMs := tlsMs t, xr_TTFBMs := ttfbMs t,
            xr_TotalMs := ms_between (tr_start t) (ee_end e), xr_DNSAddrs := tr_dnsAddrs t,
            xr_RedirectCount := uint32 (int redirects), xr_Header := Some (ri_Header r),
            xr_Body := (if xs_CollectBody spec then body else []),
            xr_TLSVersion := (case ri_TLS r of Some (v, _) \<Rightarrow> tlsVersionName v | None \<Rightarrow> []),
            xr_RetryAfterSec := retry_after (ri_Header r)\<rparr>)"

definition read_expiry :: "exec_spec \<Rightarrow> response_in \<Rightarrow> exec_result \<Rightarrow> exec_result" where
  "read_expiry spec r res =
     (case ri_TLS r of
        Some (_, Some not_after) \<Rightarrow>
          if xs_CollectExpiry spec then res\<lparr>xr_SSLExpiresAt := Some not_after\<rparr> else res
      | _ \<Rightarrow> res)"

definition result_of :: "'r exec_env \<Rightarrow> exec_spec \<Rightarrow> response_in \<Rightarrow> nat \<Rightarrow> exec_result" where
  "result_of e spec r redirects =
     (let res = reading e spec r redirects;
          res = assert_status (ri_StatusCode r) res;
          res = assert_no_challenge r res;
          res = assert_keyword (xs_Keyword spec) (read_body spec r) res
      in read_expiry spec r res)"

definition max_redirects :: "exec_spec \<Rightarrow> nat" where
  "max_redirects spec = (if xs_MaxRedirects spec \<le> 0 then 5 else nat (xs_MaxRedirects spec))"

text \<open>\<^verbatim>\<open>Execute\<close>: the addresses connected to and the result.\<close>

definition Execute :: "'r exec_env \<Rightarrow> bool \<Rightarrow> exec_spec \<Rightarrow> ip list \<times> exec_result" where
  "Execute e g spec =
     (let method = (if xs_Method spec = [] then ''GET'' else xs_Method spec);
          refused = (if g then CheckURL (ee_url e) (ee_ParseIP e) (xs_URL spec) else None)
      in case refused of
           Some x \<Rightarrow> ([], blockedResult (guard_err (ee_parse_error e) (xs_URL spec) x))
         | None \<Rightarrow>
             (case ee_NewRequest e method (xs_URL spec) of
                Some detail \<Rightarrow>
                  ([], no_result\<lparr>xr_ErrorClass := ''connect'', xr_ErrorDetail := detail\<rparr>)
              | None \<Rightarrow>
                  (case follow e g method (max_redirects spec) [] (xs_URL spec) [] of
                     (dialed, Inl x) \<Rightarrow> (dialed, errorResult x (tr_start (ee_timing e)) (ee_end e))
                   | (dialed, Inr (r, redirects)) \<Rightarrow> (dialed, result_of e spec r redirects))))"

section \<open>The probe's side of the wire\<close>

definition mapErrClass :: "string \<Rightarrow> ErrorClass" where
  "mapErrClass s =
     (if s = ''dns'' then EC_DNS else if s = ''connect'' then EC_CONNECT else if s = ''tls'' then EC_TLS
      else if s = ''timeout'' then EC_TIMEOUT else if s = ''status'' then EC_STATUS
      else if s = ''keyword_missing'' then EC_KEYWORD_MISSING
      else if s = ''blocked_target'' then EC_BLOCKED_TARGET
      else if s = ''challenge'' then EC_CHALLENGE else if s = ''none'' then EC_NONE
      else EC_UNSPECIFIED)"

definition on_the_wire :: "int \<Rightarrow> exec_result \<Rightarrow> CheckResult" where
  "on_the_wire target r =
     \<lparr>cr_TargetId = target, cr_Ok = xr_OK r, cr_StatusCode = xr_StatusCode r,
      cr_ErrorClass = mapErrClass (xr_ErrorClass r), cr_RetryAfterSec = xr_RetryAfterSec r,
      cr_SslExpiresAt = xr_SSLExpiresAt r\<rparr>"

definition runCheck :: "'r exec_env \<Rightarrow> CheckSpec \<Rightarrow> string \<Rightarrow> bool \<Rightarrow> CheckResult" where
  "runCheck e spec method expiry =
     on_the_wire (cs_TargetId spec) (snd (Execute e True
       \<lparr>xs_URL = cs_Url spec, xs_Method = method, xs_Keyword = cs_Keyword spec,
        xs_TimeoutMs = cs_TimeoutMs spec, xs_MaxRedirects = cs_MaxRedirects spec,
        xs_MaxBodyBytes = cs_MaxBodyBytes spec, xs_CollectExpiry = expiry, xs_CollectBody = False\<rparr>))"

text \<open>
  \<^verbatim>\<open>executeChecks\<close>: a check is started while the batch has a check's timeout left; each started one
  fills its own slot. \<open>enough i\<close> is the look at the deadline before the i-th.
\<close>

fun executeChecks :: "(CheckSpec \<Rightarrow> CheckResult) \<Rightarrow> (nat \<Rightarrow> bool) \<Rightarrow> nat \<Rightarrow> CheckSpec list \<Rightarrow> CheckResult list" where
  "executeChecks run enough i [] = []"
| "executeChecks run enough i (c # cs) =
     (if \<not> enough i then [] else run c # executeChecks run enough (Suc i) cs)"

end
