(* ===== verification/Crawl.thy ===== *)
theory Crawl
  imports GoUrl
begin

text \<open>
  The crawl of a site that was typed into the landing page: \<^verbatim>\<open>back/internal/discover\<close>, its requests,
  \<^verbatim>\<open>robots.go\<close> and \<^verbatim>\<open>sitemap.go\<close>. A function of the package is a tree of questions to its surroundings (a request
  to the site, a look at the context's deadline, a DNS lookup) and what it does with each
  answer; \<open>run_in\<close> runs it against surroundings that may answer by everything that was asked before.
\<close>

section \<open>Requests and answers\<close>

text \<open>
  The part of \<^verbatim>\<open>executor.CheckSpec\<close> and \<^verbatim>\<open>executor.Result\<close> the package sets and reads. A header is its
  \<^verbatim>\<open>Get\<close>; \<open>None\<close> is the nil header of a request without a response.
\<close>

record FetchSpec =
  fs_URL :: string
  fs_Method :: string
  fs_TimeoutMs :: int
  fs_MaxRedirects :: int
  fs_MaxBodyBytes :: int
  fs_CollectBody :: bool

record FetchResult =
  fr_OK :: bool
  fr_StatusCode :: int
  fr_ErrorClass :: string
  fr_TotalMs :: int
  fr_Header :: "(string \<Rightarrow> string) option"
  fr_Body :: string

datatype 'a crawl =
    Return 'a
  | Ask FetchSpec "FetchResult \<Rightarrow> 'a crawl"
  | Expired "bool \<Rightarrow> 'a crawl"
  | Lookup string "string list option \<Rightarrow> 'a crawl"

primrec and_then :: "'a crawl \<Rightarrow> ('a \<Rightarrow> 'b crawl) \<Rightarrow> 'b crawl" where
  "and_then (Return x) f = f x"
| "and_then (Ask s k) f = Ask s (\<lambda>r. and_then (k r) f)"
| "and_then (Expired k) f = Expired (\<lambda>b. and_then (k b) f)"
| "and_then (Lookup h k) f = Lookup h (\<lambda>a. and_then (k a) f)"

text \<open>A goroutine per element, each writing its own slot of the result.\<close>

fun for_each :: "('x \<Rightarrow> 'a crawl) \<Rightarrow> 'x list \<Rightarrow> 'a list crawl" where
  "for_each f [] = Return []"
| "for_each f (x # xs) = and_then (f x) (\<lambda>y. and_then (for_each f xs) (\<lambda>ys. Return (y # ys)))"

record surroundings =
  reply :: "FetchSpec list \<Rightarrow> FetchSpec \<Rightarrow> FetchResult"
  out_of_time :: "FetchSpec list \<Rightarrow> bool"
  addresses :: "string \<Rightarrow> string list option"

primrec run_in :: "surroundings \<Rightarrow> 'a crawl \<Rightarrow> FetchSpec list \<Rightarrow> FetchSpec list \<times> 'a" where
  "run_in w (Return x) = (\<lambda>asked. (asked, x))"
| "run_in w (Ask s k) = (\<lambda>asked. run_in w (k (reply w asked s)) (asked @ [s]))"
| "run_in w (Expired k) = (\<lambda>asked. run_in w (k (out_of_time w asked)) asked)"
| "run_in w (Lookup h k) = (\<lambda>asked. run_in w (k (addresses w h)) asked)"

definition requests :: "surroundings \<Rightarrow> 'a crawl \<Rightarrow> FetchSpec list" where
  "requests w p = fst (run_in w p [])"

definition perRequestTimeout_ms :: int where "perRequestTimeout_ms = 2500"

definition get :: "string \<Rightarrow> int \<Rightarrow> FetchSpec" where
  "get u redirects =
     \<lparr>fs_URL = u, fs_Method = ''GET'', fs_TimeoutMs = perRequestTimeout_ms,
      fs_MaxRedirects = redirects, fs_MaxBodyBytes = 0, fs_CollectBody = False\<rparr>"

definition get_body :: "string \<Rightarrow> int \<Rightarrow> FetchSpec" where
  "get_body u max_bytes =
     (get u 2)\<lparr>fs_MaxBodyBytes := max_bytes, fs_CollectBody := True\<rparr>"

definition success :: "int \<Rightarrow> bool" where
  "success status \<longleftrightarrow> 200 \<le> status \<and> status < 300"

section \<open>robots.txt\<close>

record robots =
  rb_sitemaps :: "string list"
  rb_disallow :: "string list"

definition robotsUAToken :: string where "robotsUAToken = ''upcontrol''"
definition robotsMaxBytes :: int where "robotsMaxBytes = 64 * 1024"
definition robotsMaxSitemaps :: nat where "robotsMaxSitemaps = 3"

definition no_robots :: robots where
  "no_robots = \<lparr>rb_sitemaps = [], rb_disallow = []\<rparr>"

record robots_state =
  rs_robots :: robots
  rs_applies :: bool
  rs_specific :: bool

text \<open>A line without its comment, as a lower-cased key and a value.\<close>

definition robots_directive :: "string \<Rightarrow> (string \<times> string) option" where
  "robots_directive raw =
     (let line = TrimSpace raw;
          line = (case index_byte line CHR ''#'' of
                    Some i \<Rightarrow> TrimSpace (take i line) | None \<Rightarrow> line)
      in case Cut CHR '':'' line of
           None \<Rightarrow> None
         | Some (key, value) \<Rightarrow> Some (ToLower (TrimSpace key), TrimSpace value))"

definition robots_step :: "robots_state \<Rightarrow> string \<Rightarrow> robots_state" where
  "robots_step st raw =
     (case robots_directive raw of
        None \<Rightarrow> st
      | Some (key, value) \<Rightarrow>
          let r = rs_robots st in
          if key = ''sitemap'' then
            if value \<noteq> [] \<and> length (rb_sitemaps r) < robotsMaxSitemaps
            then st\<lparr>rs_robots := r\<lparr>rb_sitemaps := rb_sitemaps r @ [value]\<rparr>\<rparr>
            else st
          else if key = ''user-agent'' then
            let agent = ToLower value in
            if contains agent robotsUAToken then
              (if \<not> rs_specific st
               then st\<lparr>rs_robots := r\<lparr>rb_disallow := []\<rparr>, rs_specific := True\<rparr> else st)
              \<lparr>rs_applies := True\<rparr>
            else st\<lparr>rs_applies := agent = ''*'' \<and> \<not> rs_specific st\<rparr>
          else if key = ''disallow'' then
            if rs_applies st \<and> value \<noteq> []
            then st\<lparr>rs_robots := r\<lparr>rb_disallow := rb_disallow r @ [value]\<rparr>\<rparr>
            else st
          else st)"

definition robots_start :: robots_state where
  "robots_start = \<lparr>rs_robots = no_robots, rs_applies = False, rs_specific = False\<rparr>"

definition parseRobots :: "string \<Rightarrow> robots" where
  "parseRobots body = rs_robots (foldl robots_step robots_start (split_byte LF body))"

definition allowed :: "robots \<Rightarrow> string \<Rightarrow> bool" where
  "allowed r path =
     (let path = if path = [] then ''/'' else path
      in \<not> list_ex (has_prefix path) (rb_disallow r))"

definition fetchRobots :: "string \<Rightarrow> robots crawl" where
  "fetchRobots base =
     Ask (get_body (base @ ''/robots.txt'') robotsMaxBytes) (\<lambda>res.
       if \<not> success (fr_StatusCode res) \<or> fr_Body res = []
       then Return no_robots
       else Return (parseRobots (fr_Body res)))"

section \<open>Sitemaps\<close>

definition sitemapMaxURLs :: nat where "sitemapMaxURLs = 500"
definition sitemapMaxBytes :: int where "sitemapMaxBytes = 512 * 1024"
definition sitemapMaxChildren :: nat where "sitemapMaxChildren = 2"

record sitemapEntry =
  se_Loc :: string
  se_Priority :: string

record sitemapDoc =
  sd_URLs :: "sitemapEntry list"
  sd_Sitemaps :: "sitemapEntry list"

record candidate =
  ca_URL :: string
  ca_Source :: string
  ca_Priority :: string

text \<open>
  The libraries the package reads a site's answers with: \<^verbatim>\<open>net/url\<close>, the XML decoder, and
  the points \<^verbatim>\<open>int(priority * 20)\<close> a sitemap's priority is worth, \<open>None\<close> where \<^verbatim>\<open>strconv.ParseFloat\<close> fails.
\<close>

record 'r web =
  w_url :: "'r url_lib"
  w_sitemap :: "string \<Rightarrow> sitemapDoc option"
  w_points :: "string \<Rightarrow> int option"

definition fetchSitemapDoc :: "'r web \<Rightarrow> string \<Rightarrow> sitemapDoc option crawl" where
  "fetchSitemapDoc W loc =
     Ask (get_body loc sitemapMaxBytes) (\<lambda>res.
       if \<not> success (fr_StatusCode res) \<or> fr_Body res = []
       then Return None
       else Return (w_sitemap W (fr_Body res)))"

definition in_sitemap :: "sitemapEntry \<Rightarrow> candidate" where
  "in_sitemap u =
     \<lparr>ca_URL = TrimSpace (se_Loc u), ca_Source = ''in sitemap.xml'', ca_Priority = se_Priority u\<rparr>"

text \<open>The loop over the children of an index; it carries the budget and what was found.\<close>

fun sitemap_children ::
    "'r web \<Rightarrow> string \<Rightarrow> sitemapEntry list \<Rightarrow> nat \<Rightarrow> candidate list \<Rightarrow> (nat \<times> candidate list) crawl"
  where
  "sitemap_children W base [] budget out = Return (budget, out)"
| "sitemap_children W base (child # rest) budget out =
     (if budget = 0 then Return (budget, out)
      else Expired (\<lambda>late.
        if late then Return (budget, out)
        else
          let loc = TrimSpace (se_Loc child) in
          if \<not> sameHost (w_url W) base loc then sitemap_children W base rest budget out
          else and_then (fetchSitemapDoc W loc) (\<lambda>doc.
            sitemap_children W base rest (budget - 1)
              (case doc of None \<Rightarrow> out | Some d \<Rightarrow> out @ map in_sitemap (sd_URLs d)))))"

text \<open>The loop over the sitemaps themselves.\<close>

fun sitemap_locations ::
    "'r web \<Rightarrow> string \<Rightarrow> string list \<Rightarrow> nat \<Rightarrow> candidate list \<Rightarrow> candidate list crawl" where
  "sitemap_locations W base [] budget out = Return out"
| "sitemap_locations W base (loc # rest) budget out =
     (if budget = 0 then Return out
      else Expired (\<lambda>late.
        if late then Return out
        else if \<not> sameHost (w_url W) base loc then sitemap_locations W base rest budget out
        else and_then (fetchSitemapDoc W loc) (\<lambda>doc.
          case doc of
            None \<Rightarrow> sitemap_locations W base rest (budget - 1) out
          | Some d \<Rightarrow>
              and_then (sitemap_children W base (sd_Sitemaps d) (budget - 1)
                          (out @ map in_sitemap (sd_URLs d))) (\<lambda>(budget, out).
                if sitemapMaxURLs \<le> length out then Return out
                else sitemap_locations W base rest budget out))))"

definition fetchSitemapURLs :: "'r web \<Rightarrow> string \<Rightarrow> robots \<Rightarrow> candidate list crawl" where
  "fetchSitemapURLs W base r =
     (let locations = (if rb_sitemaps r = [] then [base @ ''/sitemap.xml''] else rb_sitemaps r)
      in and_then (sitemap_locations W base locations (sitemapMaxChildren + 1) [])
           (\<lambda>out. Return (take sitemapMaxURLs out)))"

end
