(* ===== verification/Discover.thy ===== *)
theory Discover
  imports Crawl
begin

text \<open>
  The rest of \<^verbatim>\<open>back/internal/discover\<close>: the shortlist of a site's pages (\<^verbatim>\<open>rank.go\<close>, \<^verbatim>\<open>pages.go\<close>), its other hosts
  (\<^verbatim>\<open>hosts.go\<close>), its API (\<^verbatim>\<open>api.go\<close>) and \<^verbatim>\<open>Run\<close> (\<^verbatim>\<open>discover.go\<close>). The three regular expressions are written out
  as matchers over bytes; their case folding is ASCII. The goroutines of \<^verbatim>\<open>Run\<close> share only the
  prober and the deadline, whose answers are arbitrary, so they are run one after the other: another
  interleaving asks the same questions in another order.
\<close>

section \<open>Regular expressions\<close>

definition regex_space :: "char \<Rightarrow> bool" where
  "regex_space c \<longleftrightarrow> c \<in> {TAB, LF, CHR 0x0C, CR, CHR '' ''}"

definition is_attr_quote :: "char \<Rightarrow> bool" where
  "is_attr_quote c \<longleftrightarrow> c = DQUOTE \<or> c = SQUOTE"

text \<open>The matches of \<open>m\<close> from left to right; a match gives its capture and what follows it.\<close>

function find_all :: "(string \<Rightarrow> (string \<times> string) option) \<Rightarrow> string \<Rightarrow> string list" where
  "find_all m [] = []"
| "find_all m (c # s) =
     (case m (c # s) of
        None \<Rightarrow> find_all m s
      | Some (captured, rest) \<Rightarrow> captured # find_all m (drop (length s - length rest) s))"
  by pat_completeness auto
termination
  by (relation "measure (\<lambda>(m, s). length s)") auto

text \<open>\<^verbatim>\<open>KEY\s*=\s*["'](RUN)["']\<close>, the run holding no quote and satisfying \<open>ok\<close>.\<close>

definition attribute :: "string \<Rightarrow> (string \<Rightarrow> bool) \<Rightarrow> string \<Rightarrow> (string \<times> string) option" where
  "attribute key ok s =
     (if ToLower (take (length key) s) \<noteq> key then None
      else case dropWhile regex_space (drop (length key) s) of
        [] \<Rightarrow> None
      | e # s1 \<Rightarrow>
          if e \<noteq> CHR ''='' then None
          else (case dropWhile regex_space s1 of
            [] \<Rightarrow> None
          | q # s2 \<Rightarrow>
              if \<not> is_attr_quote q then None
              else let run = takeWhile (\<lambda>c. \<not> is_attr_quote c) s2;
                       rest = dropWhile (\<lambda>c. \<not> is_attr_quote c) s2
                   in if rest \<noteq> [] \<and> ok run then Some (run, tl rest) else None))"

text \<open>\<^verbatim>\<open>[^>]*\<close> and then \<open>f\<close>: as far to the right as \<open>f\<close> can match.\<close>

fun after_any :: "(string \<Rightarrow> (string \<times> string) option) \<Rightarrow> string \<Rightarrow> (string \<times> string) option" where
  "after_any f [] = f []"
| "after_any f (c # s) =
     (if c = CHR ''>'' then f (c # s)
      else case after_any f s of None \<Rightarrow> f (c # s) | Some x \<Rightarrow> Some x)"

definition hrefRe :: "string \<Rightarrow> (string \<times> string) option" where
  "hrefRe s =
     (case s of
        a # b # c # rest \<Rightarrow>
          if ToLower [a, b] = ''<a'' \<and> regex_space c
          then after_any (attribute ''href'' (\<lambda>run. run \<noteq> [] \<and> hd run \<noteq> CHR ''#'')) rest
          else None
      | _ \<Rightarrow> None)"

definition scriptSrcRe :: "string \<Rightarrow> (string \<times> string) option" where
  "scriptSrcRe s =
     (if ToLower (take 7 s) \<noteq> ''<script'' then None
      else case drop 7 s of
        [] \<Rightarrow> None
      | c # rest \<Rightarrow>
          if c = CHR ''>'' then None
          else after_any (attribute ''src'' (\<lambda>run. run \<noteq> [] \<and> contains (ToLower (tl run)) ''.js'')) rest)"

definition is_route_char :: "char \<Rightarrow> bool" where
  "is_route_char c \<longleftrightarrow>
     is_lower c \<or> is_upper c \<or> is_digit c \<or> c \<in> {CHR ''/'', CHR ''_'', CHR ''.'', CHR ''-''}"

definition is_js_quote :: "char \<Rightarrow> bool" where
  "is_js_quote c \<longleftrightarrow> is_attr_quote c \<or> c = CHR 0x60"

definition apiLiteralRe :: "string \<Rightarrow> (string \<times> string) option" where
  "apiLiteralRe s =
     (case s of
        [] \<Rightarrow> None
      | q # s \<Rightarrow>
          if is_js_quote q \<and> (has_prefix s ''/api'' \<or> has_prefix s ''/graphql'') then
            let rest = dropWhile is_route_char s
            in if rest \<noteq> [] \<and> is_js_quote (hd rest)
               then Some (takeWhile is_route_char s, tl rest) else None
          else None)"

section \<open>The shortlist\<close>

definition assetExt :: "string list" where
  "assetExt =
     [''.png'', ''.jpg'', ''.jpeg'', ''.gif'', ''.svg'', ''.webp'', ''.ico'', ''.avif'',
      ''.css'', ''.js'', ''.mjs'', ''.map'', ''.json'', ''.xml'', ''.txt'',
      ''.pdf'', ''.zip'', ''.gz'', ''.mp4'', ''.webm'', ''.woff'', ''.woff2'', ''.ttf'', ''.rss'']"

definition valuableSection :: "string list" where
  "valuableSection =
     [''checkout'', ''payment'', ''payments'', ''billing'', ''pricing'', ''plans'', ''login'', ''signin'', ''sign-in'',
      ''signup'', ''sign-up'', ''register'', ''dashboard'', ''account'', ''app'', ''api'', ''docs'', ''status'']"

definition boilerplateSection :: "string list" where
  "boilerplateSection =
     [''terms'', ''privacy'', ''legal'', ''cookies'', ''imprint'', ''impressum'', ''tos'']"

definition pagesWanted :: nat where "pagesWanted = 5"

definition isAsset :: "string \<Rightarrow> bool" where
  "isAsset path = list_ex (has_suffix (ToLower path)) assetExt"

text \<open>\<^verbatim>\<open>linksFrom\<close>: the links of the page in hand that stay on the site, each once.\<close>

definition link_of :: "'r url_lib \<Rightarrow> 'r url \<Rightarrow> string \<Rightarrow> string option" where
  "link_of W root href =
     (case url_Parse W (TrimSpace href) of
        None \<Rightarrow> None
      | Some ref \<Rightarrow>
          let abs = url_Resolve W root ref in
          if u_Scheme abs \<noteq> ''http'' \<and> u_Scheme abs \<noteq> ''https'' then None
          else if \<not> sameSite (u_Host root) (u_Host abs) then None
          else Some (url_String W abs))"

fun links_loop :: "'r url_lib \<Rightarrow> 'r url \<Rightarrow> string list \<Rightarrow> string list \<Rightarrow> candidate list" where
  "links_loop W root seen [] = []"
| "links_loop W root seen (h # hs) =
     (case link_of W root h of
        None \<Rightarrow> links_loop W root seen hs
      | Some clean \<Rightarrow>
          if clean \<in> set seen then links_loop W root seen hs
          else \<lparr>ca_URL = clean, ca_Source = ''linked from the homepage'', ca_Priority = []\<rparr>
               # links_loop W root (clean # seen) hs)"

definition linksFrom :: "'r url_lib \<Rightarrow> string \<Rightarrow> string \<Rightarrow> candidate list" where
  "linksFrom W base body =
     (if body = [] then []
      else case url_Parse W base of
        None \<Rightarrow> []
      | Some root \<Rightarrow> links_loop W root [] (find_all hrefRe body))"

definition scoreOf :: "'r web \<Rightarrow> string \<Rightarrow> candidate \<Rightarrow> int" where
  "scoreOf W path c =
     (let segments = split_byte CHR ''/'' (Trim_byte CHR ''/'' path);
          depth = (if path = [] \<or> path = ''/'' then 0 else length segments);
          first = (if 0 < depth then ToLower (hd segments) else []);
          by_depth = (if depth = 1 then 40 else if 2 \<le> depth then - 20 * (int depth - 1) else 0);
          by_value = (if first \<in> set valuableSection then 50 else 0);
          by_boilerplate = (if first \<in> set boilerplateSection then - 30 else 0);
          by_priority = (if ca_Priority c \<noteq> [] then
                           (case w_points W (TrimSpace (ca_Priority c)) of Some n \<Rightarrow> n | None \<Rightarrow> 10)
                         else 10)
      in by_depth + by_value + by_boilerplate + by_priority)"

text \<open>The body of \<^verbatim>\<open>rank\<close>'s loop up to the duplicate check: the page's path and its clean URL.\<close>

definition page_of :: "'r url_lib \<Rightarrow> robots \<Rightarrow> 'r url \<Rightarrow> candidate \<Rightarrow> (string \<times> string) option" where
  "page_of W r root c =
     (case url_Parse W (TrimSpace (ca_URL c)) of
        None \<Rightarrow> None
      | Some u \<Rightarrow>
          if u_Scheme u \<noteq> ''http'' \<and> u_Scheme u \<noteq> ''https'' then None
          else if \<not> sameSite (u_Host root) (u_Host u) then None
          else if u_Host u \<noteq> u_Host root then None
          else
            let u = u\<lparr>u_Fragment := [], u_RawQuery := []\<rparr>;
                path = (if u_Path u = [] then ''/'' else u_Path u);
                trim = has_suffix path ''/'' \<and> path \<noteq> ''/'';
                path = (if trim then TrimRight_byte CHR ''/'' path else path);
                u = (if trim then u\<lparr>u_Path := path\<rparr> else u)
            in if path = ''/'' then None
               else if isAsset path \<or> \<not> allowed r path then None
               else Some (path, url_String W u))"

record scored =
  sc_c :: candidate
  sc_score :: int

fun rank_loop :: "'r web \<Rightarrow> robots \<Rightarrow> 'r url \<Rightarrow> string list \<Rightarrow> candidate list \<Rightarrow> scored list" where
  "rank_loop W r root seen [] = []"
| "rank_loop W r root seen (c # cs) =
     (case page_of (w_url W) r root c of
        None \<Rightarrow> rank_loop W r root seen cs
      | Some (path, clean) \<Rightarrow>
          if clean \<in> set seen then rank_loop W r root seen cs
          else let c = c\<lparr>ca_URL := clean\<rparr>
               in \<lparr>sc_c = c, sc_score = scoreOf W path c\<rparr> # rank_loop W r root (clean # seen) cs)"

text \<open>
  The list is built in document order and \<^verbatim>\<open>sort.SliceStable\<close> keeps the order of equal scores, which is what the
  comparison's second line asks for.
\<close>

definition rank :: "'r web \<Rightarrow> string \<Rightarrow> candidate list \<Rightarrow> robots \<Rightarrow> candidate list" where
  "rank W base cands r =
     (case url_Parse (w_url W) base of
        None \<Rightarrow> []
      | Some root \<Rightarrow>
          map sc_c (take pagesWanted
            (sort_key (\<lambda>s. - sc_score s) (rank_loop W r root [] cands))))"

section \<open>Pages\<close>

record Page =
  pg_URL :: string
  pg_Path :: string
  pg_Source :: string
  pg_Status :: int
  pg_TotalMs :: int
  pg_OK :: bool
  pg_Slowest :: bool
  pg_Error :: string

definition page_label :: "'r url_lib \<Rightarrow> string \<Rightarrow> string" where
  "page_label W s =
     (case url_Parse W s of
        None \<Rightarrow> s
      | Some u \<Rightarrow> let p = TrimSuffix (u_Path u) ''/'' in if p \<noteq> [] then p else u_Host u)"

definition probe_page :: "'r url_lib \<Rightarrow> candidate \<Rightarrow> Page crawl" where
  "probe_page W c =
     Ask (get (ca_URL c) 2) (\<lambda>res.
       Return \<lparr>pg_URL = ca_URL c, pg_Path = page_label W (ca_URL c), pg_Source = ca_Source c,
               pg_Status = fr_StatusCode res, pg_TotalMs = fr_TotalMs res, pg_OK = fr_OK res,
               pg_Slowest = False,
               pg_Error = (if fr_StatusCode res = 0 then fr_ErrorClass res else [])\<rparr>)"

fun slowest_loop :: "Page list \<Rightarrow> nat \<Rightarrow> nat option \<Rightarrow> Page list \<Rightarrow> nat option" where
  "slowest_loop pages i found [] = found"
| "slowest_loop pages i found (page # rest) =
     slowest_loop pages (Suc i)
       (if pg_Status page \<noteq> 0
           \<and> (case found of None \<Rightarrow> True | Some j \<Rightarrow> pg_TotalMs (pages ! j) < pg_TotalMs page)
        then Some i else found) rest"

definition mark_slowest :: "Page list \<Rightarrow> Page list" where
  "mark_slowest pages =
     (case slowest_loop pages 0 None pages of
        Some i \<Rightarrow> if 1 < length pages then pages[i := (pages ! i)\<lparr>pg_Slowest := True\<rparr>] else pages
      | None \<Rightarrow> pages)"

definition probePages :: "'r url_lib \<Rightarrow> candidate list \<Rightarrow> Page list crawl" where
  "probePages W cands = and_then (for_each (probe_page W) cands) (\<lambda>pages. Return (mark_slowest pages))"

section \<open>Other hosts\<close>

definition conventionalHosts :: "string list" where
  "conventionalHosts = [''api'', ''app'', ''docs'', ''status'', ''dashboard'', ''auth'']"

definition hostsWanted :: nat where "hostsWanted = 3"

definition hostTier :: "string \<Rightarrow> int" where
  "hostTier label =
     (if label \<in> {''api'', ''app'', ''auth'', ''dashboard'', ''checkout'', ''pay''} then 60
      else if label \<in> {''docs'', ''status'', ''cdn'', ''static'', ''assets''} then 30
      else 0)"

definition hostScore :: "string \<Rightarrow> string \<Rightarrow> int" where
  "hostScore host root =
     (let label = TrimSuffix host (CHR ''.'' # root);
          label = (case index_byte label CHR ''.'' of Some i \<Rightarrow> take i label | None \<Rightarrow> label)
      in hostTier (ToLower label))"

text \<open>The hosts found so far with their sources, in the order they were found (\<^verbatim>\<open>found\<close> and \<^verbatim>\<open>order\<close>).\<close>

definition add_host :: "string \<Rightarrow> string \<times> string \<Rightarrow> (string \<times> string) list \<Rightarrow> (string \<times> string) list" where
  "add_host root h found =
     (if fst h = root \<or> \<not> sameSite root (fst h) \<or> fst h \<in> set (map fst found) then found
      else found @ [h])"

definition linked_hosts :: "'r url_lib \<Rightarrow> candidate list \<Rightarrow> (string \<times> string) list" where
  "linked_hosts W seen =
     List.map_filter (\<lambda>c. map_option (\<lambda>u. (u_Host u, ''linked from the site'')) (url_Parse W (ca_URL c))) seen"

definition lookup_host :: "string \<Rightarrow> string \<Rightarrow> (string \<times> bool) crawl" where
  "lookup_host root label =
     (let host = label @ ''.'' @ root
      in Lookup host (\<lambda>addrs. Return (host, addrs \<noteq> None \<and> addrs \<noteq> Some [])))"

definition host_candidates :: "'r url \<Rightarrow> (string \<times> string) list \<Rightarrow> candidate list" where
  "host_candidates root found =
     map (\<lambda>(host, source). \<lparr>ca_URL = u_Scheme root @ ''://'' @ host, ca_Source = source, ca_Priority = []\<rparr>)
       (take hostsWanted (sort_key (\<lambda>h. - hostScore (fst h) (u_Host root)) found))"

definition findHosts :: "'r url_lib \<Rightarrow> bool \<Rightarrow> string \<Rightarrow> candidate list \<Rightarrow> Page list crawl" where
  "findHosts W dns base seen =
     (case url_Parse W base of
        None \<Rightarrow> Return []
      | Some root \<Rightarrow>
          if \<not> dns then Return []
          else
            let found = fold (add_host (u_Host root)) (linked_hosts W seen) []
            in and_then (for_each (lookup_host (u_Host root)) conventionalHosts) (\<lambda>hits.
                 let found = fold (add_host (u_Host root))
                               (map (\<lambda>h. (fst h, ''found in DNS'')) (filter snd hits)) found
                 in if found = [] then Return []
                    else probePages W (host_candidates root found)))"

definition findPages ::
    "'r web \<Rightarrow> bool \<Rightarrow> string \<Rightarrow> string \<Rightarrow> (Page list \<times> Page list) crawl" where
  "findPages W dns base homepage =
     and_then (fetchRobots base) (\<lambda>r.
       let links = linksFrom (w_url W) base homepage in
       and_then (fetchSitemapURLs W base r) (\<lambda>cands.
         let cands = (if cands = [] then links else cands);
             short = rank W base cands r
         in and_then (if short = [] then Return [] else probePages (w_url W) short) (\<lambda>pages.
            and_then (findHosts (w_url W) dns base (cands @ links)) (\<lambda>hosts.
              Return (pages, hosts)))))"

end
