(* ===== verification/DiscoverRun.thy ===== *)
theory DiscoverRun
  imports Discover
begin

text \<open>
  \<^verbatim>\<open>discover/api.go\<close>, the site's API, and \<^verbatim>\<open>discover/discover.go\<close>, the four lines of enquiry of \<^verbatim>\<open>Run\<close>; and how many
  requests each of them costs.
\<close>

section \<open>The API\<close>

record API =
  ap_Path :: string
  ap_Source :: string
  ap_Status :: int
  ap_Confirmed :: bool

definition no_api :: API where
  "no_api = \<lparr>ap_Path = [], ap_Source = [], ap_Status = 0, ap_Confirmed = False\<rparr>"

definition apiPaths :: "string list" where
  "apiPaths = [''/api'', ''/api/v1'', ''/graphql'', ''/openapi.json'', ''/swagger.json'']"

definition bundleMaxBytes :: int where "bundleMaxBytes = 1024 * 1024"
definition apiMaxPaths :: nat where "apiMaxPaths = 3"

definition absolute :: "string \<Rightarrow> string \<Rightarrow> string" where
  "absolute base src =
     (if has_prefix src ''//'' then ''https:'' @ src
      else if has_prefix src ''http'' then src
      else TrimRight_byte CHR ''/'' base @ src)"

definition bundle_of :: "'r url_lib \<Rightarrow> string \<Rightarrow> string \<Rightarrow> string option" where
  "bundle_of W base captured =
     (let src = TrimSpace captured in
      if has_prefix src ''//'' \<or> has_prefix src ''http'' then
        if \<not> sameHost W base (absolute base src) then None else Some (absolute base src)
      else if \<not> has_prefix src ''/'' then None
      else Some (absolute base src))"

definition mainBundle :: "'r url_lib \<Rightarrow> string \<Rightarrow> string \<Rightarrow> string" where
  "mainBundle W base homepage =
     (if homepage = [] then []
      else let same = List.map_filter (bundle_of W base) (find_all scriptSrcRe homepage)
           in if same = [] then [] else List.last same)"

fun commonPrefix :: "string \<Rightarrow> string \<Rightarrow> string" where
  "commonPrefix (a # as) (b # bs) = (if a = b then a # commonPrefix as bs else [])"
| "commonPrefix _ _ = []"

fun common_of :: "string \<Rightarrow> string list \<Rightarrow> string" where
  "common_of prefix [] = prefix"
| "common_of prefix (r # rs) =
     (let p = commonPrefix prefix r in if p = [] then [] else common_of p rs)"

fun api_routes :: "string list \<Rightarrow> string list \<Rightarrow> string list" where
  "api_routes seen [] = []"
| "api_routes seen (route # rest) =
     (if isAsset route \<or> route \<in> set seen then api_routes seen rest
      else route # api_routes (route # seen) rest)"

definition cut_to_boundary :: "string \<Rightarrow> string" where
  "cut_to_boundary prefix =
     (case last_index_byte prefix CHR ''/'' of
        Some i \<Rightarrow> if 0 < i then take i prefix else prefix
      | None \<Rightarrow> prefix)"

definition apiBaseIn :: "string \<Rightarrow> string" where
  "apiBaseIn bundle =
     (case sort (api_routes [] (find_all apiLiteralRe bundle)) of
        [] \<Rightarrow> []
      | r # rs \<Rightarrow>
          let prefix = cut_to_boundary (common_of r rs)
          in if prefix = [] \<or> prefix = ''/'' then [] else prefix)"

definition isAPIAnswer :: "FetchResult \<Rightarrow> bool" where
  "isAPIAnswer res =
     (if fr_StatusCode res = 401 \<or> fr_StatusCode res = 403 then True
      else if \<not> success (fr_StatusCode res) then False
      else
        let ct = (case fr_Header res of None \<Rightarrow> [] | Some h \<Rightarrow> ToLower (h ''Content-Type''))
        in contains ct ''json'')"

definition apiFromBundle :: "'r url_lib \<Rightarrow> string \<Rightarrow> string \<Rightarrow> API option crawl" where
  "apiFromBundle W base homepage =
     (let src = mainBundle W base homepage in
      if src = [] then Return None
      else Ask (get_body src bundleMaxBytes) (\<lambda>res.
        if fr_Body res = [] then Return None
        else
          let path = apiBaseIn (fr_Body res) in
          if path = [] then Return None
          else Ask (get (TrimRight_byte CHR ''/'' base @ path) 1) (\<lambda>probe.
            if fr_StatusCode probe = 0 then Return None
            else Return (Some \<lparr>ap_Path = path, ap_Source = ''in the app bundle'',
                               ap_Status = fr_StatusCode probe, ap_Confirmed = isAPIAnswer probe\<rparr>))))"

fun api_loop :: "string \<Rightarrow> nat \<Rightarrow> string list \<Rightarrow> API option crawl" where
  "api_loop root tried [] = Return (Some no_api)"
| "api_loop root tried (path # rest) =
     Expired (\<lambda>late.
       if late then Return None
       else if apiMaxPaths \<le> tried then Return (Some no_api)
       else Ask (get (root @ path) 1) (\<lambda>res.
         if isAPIAnswer res
         then Return (Some \<lparr>ap_Path = path, ap_Source = ''answers directly'',
                            ap_Status = fr_StatusCode res, ap_Confirmed = True\<rparr>)
         else api_loop root (Suc tried) rest))"

definition apiFromPaths :: "string \<Rightarrow> API option crawl" where
  "apiFromPaths base = api_loop (TrimRight_byte CHR ''/'' base) 0 apiPaths"

definition findAPI :: "'r url_lib \<Rightarrow> string \<Rightarrow> string \<Rightarrow> API option crawl" where
  "findAPI W base homepage =
     and_then (apiFromBundle W base homepage) (\<lambda>api.
       case api of Some a \<Rightarrow> Return (Some a) | None \<Rightarrow> apiFromPaths base)"

section \<open>Run\<close>

record Headers =
  hd_HSTS :: bool
  hd_CacheControl :: bool
  hd_Compression :: string

record ErrorPage =
  ep_Status :: int
  ep_Correct :: bool

record Facts =
  fa_Headers :: "Headers option"
  fa_ErrorPage :: "ErrorPage option"
  fa_Health :: "string option"
  fa_Pages :: "Page list"
  fa_API :: "API option"
  fa_Hosts :: "Page list"

definition no_facts :: Facts where
  "no_facts = \<lparr>fa_Headers = None, fa_ErrorPage = None, fa_Health = None, fa_Pages = [],
               fa_API = None, fa_Hosts = []\<rparr>"

definition healthPaths :: "string list" where
  "healthPaths = [''/health'', ''/healthz'', ''/status'', ''/api/health'']"

definition missingPath :: string where "missingPath = ''/uc-probe-missing-page-check''"

definition MaxRequests :: nat where "MaxRequests = 20"

definition headersFrom :: "(string \<Rightarrow> string) option \<Rightarrow> Headers option" where
  "headersFrom h =
     map_option (\<lambda>g. \<lparr>hd_HSTS = g ''Strict-Transport-Security'' \<noteq> [],
                      hd_CacheControl = g ''Cache-Control'' \<noteq> [],
                      hd_Compression = g ''Content-Encoding''\<rparr>) h"

definition probeErrorPage :: "string \<Rightarrow> ErrorPage option crawl" where
  "probeErrorPage base =
     Ask (get (base @ missingPath) 1) (\<lambda>res.
       if fr_StatusCode res = 0 then Return None
       else Return (Some \<lparr>ep_Status = fr_StatusCode res, ep_Correct = 400 \<le> fr_StatusCode res\<rparr>))"

text \<open>\<^verbatim>\<open>Health\<close> is its path: empty is "looked everywhere, found none", \<open>None\<close> is unmeasured.\<close>

fun health_loop :: "string \<Rightarrow> string list \<Rightarrow> string option crawl" where
  "health_loop base [] = Return (Some [])"
| "health_loop base (path # rest) =
     Expired (\<lambda>late.
       if late then Return None
       else Ask (get (base @ path) 1) (\<lambda>res.
         if success (fr_StatusCode res) then Return (Some path) else health_loop base rest))"

definition probeHealth :: "string \<Rightarrow> string option crawl" where
  "probeHealth base = health_loop base healthPaths"

definition Run :: "'r web \<Rightarrow> bool \<Rightarrow> string \<Rightarrow> FetchResult \<Rightarrow> Facts crawl" where
  "Run W dns baseURL res =
     (if fr_StatusCode res = 0 \<or> fr_ErrorClass res = ''blocked_target'' then Return no_facts
      else
        let base = TrimRight_byte CHR ''/'' baseURL in
        and_then (probeErrorPage base) (\<lambda>error_page.
        and_then (probeHealth base) (\<lambda>health.
        and_then (findAPI (w_url W) base (fr_Body res)) (\<lambda>api.
        and_then (findPages W dns base (fr_Body res)) (\<lambda>(pages, hosts).
          Return \<lparr>fa_Headers = headersFrom (fr_Header res), fa_ErrorPage = error_page,
                  fa_Health = health, fa_Pages = pages, fa_API = api, fa_Hosts = hosts\<rparr>)))))"

end
