(* ===== verification/DiscoverFacts.thy ===== *)
theory DiscoverFacts
  imports DiscoverRun
begin

text \<open>
  What a run of the discovery may ask and how often: a weakest precondition with a meter of the
  requests left (\<open>wp\<close>), its rules, and one lemma per function of the package.
\<close>

section \<open>A metered weakest precondition\<close>

text \<open>
  \<open>wp P p n Q\<close>: with \<open>n\<close> requests to spend, \<open>p\<close> asks only for what \<open>P\<close> admits, and when it
  returns \<open>x\<close> with \<open>m\<close> requests left, \<open>Q x m\<close> holds.
\<close>

primrec wp :: "(FetchSpec \<Rightarrow> bool) \<Rightarrow> 'a crawl \<Rightarrow> nat \<Rightarrow> ('a \<Rightarrow> nat \<Rightarrow> bool) \<Rightarrow> bool" where
  "wp P (Return x) = (\<lambda>n Q. Q x n)"
| "wp P (Ask s k) = (\<lambda>n Q. 0 < n \<and> P s \<and> (\<forall>r. wp P (k r) (n - 1) Q))"
| "wp P (Expired k) = (\<lambda>n Q. \<forall>b. wp P (k b) n Q)"
| "wp P (Lookup h k) = (\<lambda>n Q. \<forall>a. wp P (k a) n Q)"

lemma wp_mono: "wp P p n Q \<Longrightarrow> (\<And>x m. Q x m \<Longrightarrow> Q' x m) \<Longrightarrow> wp P p n Q'"
  by (induction p arbitrary: n) auto

lemma wp_and_then [simp]: "wp P (and_then p f) n Q \<longleftrightarrow> wp P p n (\<lambda>x m. wp P (f x) m Q)"
  by (induction p arbitrary: n) auto

lemma wp_run:
  "wp P p n Q \<Longrightarrow> \<exists>new m. fst (run_in w p asked) = asked @ new \<and> list_all P new
      \<and> length new + m = n \<and> Q (snd (run_in w p asked)) m"
proof (induction p arbitrary: n asked)
  case (Ask s k)
  let ?next = "run_in w (k (reply w asked s)) (asked @ [s])"
  have "wp P (k (reply w asked s)) (n - 1) Q" "0 < n" "P s" using Ask.prems by simp_all
  with Ask.IH [of "k (reply w asked s)" "n - 1" "asked @ [s]"]
  obtain new m where "fst ?next = (asked @ [s]) @ new" "list_all P new" "length new + m = n - 1"
      "Q (snd ?next) m" by auto
  with \<open>0 < n\<close> \<open>P s\<close> show ?case
    by (intro exI [of _ "s # new"] exI [of _ m]) simp
next
  case (Expired k)
  then show ?case using Expired.IH [of "k (out_of_time w asked)" n asked] by simp
next
  case (Lookup h k)
  then show ?case using Lookup.IH [of "k (addresses w h)" n asked] by simp
qed simp

text \<open>The usual postcondition: at least \<open>k\<close> requests are left.\<close>

abbreviation leaves :: "nat \<Rightarrow> 'a \<Rightarrow> nat \<Rightarrow> bool" where
  "leaves k x m \<equiv> k \<le> m"

lemma wp_for_each:
  assumes "\<And>x m. x \<in> set xs \<Longrightarrow> 0 < m \<Longrightarrow> wp P (f x) m (leaves (m - 1))"
    and "length xs + k \<le> n"
  shows "wp P (for_each f xs) n (\<lambda>ys m. length ys = length xs \<and> k \<le> m)"
  using assms
proof (induction xs arbitrary: n)
  case (Cons x xs)
  have "wp P (f x) n (leaves (n - 1))" using Cons.prems(1) [of x n] Cons.prems(2) by auto
  then show ?case
    by (auto elim!: wp_mono intro!: Cons.IH [THEN wp_mono] Cons.prems(1) dest: le_trans simp: Cons.prems)
      (use Cons.prems(2) in auto)
qed simp

section \<open>Where a request may go\<close>

text \<open>
  The requested host, or labels and a dot in front of it. A URL the discovery of \<open>base\<close> may ask for is base with a path, or
  a URL with such a host: as \<^verbatim>\<open>url.Parse\<close> reads it or as \<^verbatim>\<open>String\<close> writes it, or such a host under base's scheme.
  At most one redirect is followed from it: the executor refuses the first one when the limit is one.
\<close>

definition site_host :: "string \<Rightarrow> string \<Rightarrow> bool" where
  "site_host root h \<longleftrightarrow> h = root \<or> (\<exists>labels. h = labels @ ''.'' @ root)"

definition on_site :: "'r url_lib \<Rightarrow> string \<Rightarrow> string \<Rightarrow> bool" where
  "on_site W base s \<longleftrightarrow>
     (\<exists>path. s = base @ ''/'' @ path)
     \<or> (\<exists>root. url_Parse W base = Some root
          \<and> ((\<exists>u. url_Parse W (TrimSpace s) = Some u \<and> site_host (u_Host root) (u_Host u))
             \<or> (\<exists>u. s = url_String W u \<and> u_Host u = u_Host root)
             \<or> (\<exists>host. s = u_Scheme root @ ''://'' @ host \<and> site_host (u_Host root) host)))"

definition asks_site :: "'r url_lib \<Rightarrow> string \<Rightarrow> FetchSpec \<Rightarrow> bool" where
  "asks_site W base s \<longleftrightarrow> on_site W base (fs_URL s) \<and> (fs_MaxRedirects s = 1 \<or> fs_MaxRedirects s = 2)"

lemma sameSite_iff: "sameSite root h \<longleftrightarrow> site_host root h"
  by (simp add: sameSite_def site_host_def has_suffix_iff)

lemma sameHost_on_site: "sameHost W base s \<Longrightarrow> on_site W base s"
  by (auto simp: sameHost_def on_site_def sameSite_iff split: option.splits)

lemma on_site_path [simp]: "on_site W base (base @ CHR ''/'' # t)"
  by (simp add: on_site_def)

lemma asks_get [simp]:
  "asks_site W base (get u n) \<longleftrightarrow> on_site W base u \<and> (n = 1 \<or> n = 2)"
  "asks_site W base (get_body u b) \<longleftrightarrow> on_site W base u"
  by (simp_all add: asks_site_def get_def get_body_def)

lemma wp_fetchRobots:
  "0 < n \<Longrightarrow> wp (asks_site W base) (fetchRobots base) n (leaves (n - 1))"
  by (simp add: fetchRobots_def)

lemma wp_fetchSitemapDoc:
  "0 < n \<Longrightarrow> on_site V base loc \<Longrightarrow> wp (asks_site V base) (fetchSitemapDoc W loc) n (leaves (n - 1))"
  by (simp add: fetchSitemapDoc_def)

text \<open>The children of an index cost what they take from the budget.\<close>

lemma wp_sitemap_children:
  "budget \<le> n \<Longrightarrow>
   wp (asks_site (w_url W) base) (sitemap_children W base cs budget out) n
     (\<lambda>(left, out) m. left + (n - budget) \<le> m)"
proof (induction cs arbitrary: budget out n)
  case (Cons c cs)
  show ?case
  proof (cases "budget = 0 \<or> \<not> sameHost (w_url W) base (TrimSpace (se_Loc c))")
    case True
    with Cons show ?thesis by (auto simp: Let_def)
  next
    case False
    have "wp (asks_site (w_url W) base) (sitemap_children W base cs (budget - 1) out') m
            (\<lambda>(left, out) m'. left + (n - budget) \<le> m')"
      if "n - 1 \<le> m" for out' m
      using that Cons.prems False by (intro wp_mono [OF Cons.IH [of "budget - 1" m out']]) auto
    moreover have "on_site (w_url W) base (TrimSpace (se_Loc c))"
      using False by (simp add: sameHost_on_site)
    ultimately show ?thesis
      using Cons.prems False wp_fetchSitemapDoc [of n "w_url W" base "TrimSpace (se_Loc c)" W]
      by (auto simp: Let_def elim!: wp_mono)
  qed
qed auto

lemma wp_sitemap_locations:
  "budget \<le> n \<Longrightarrow>
   wp (asks_site (w_url W) base) (sitemap_locations W base locs budget out) n (leaves (n - budget))"
proof (induction locs arbitrary: budget out n)
  case (Cons loc locs)
  show ?case
  proof (cases "budget = 0 \<or> \<not> sameHost (w_url W) base loc")
    case True
    with Cons show ?thesis by auto
  next
    case False
    let ?P = "asks_site (w_url W) base"
    have later: "wp ?P (sitemap_locations W base locs b out') m (leaves (n - budget))"
      if "b + (n - budget) \<le> m" for b out' m
      using that by (intro wp_mono [OF Cons.IH [of b m out']]) auto
    have index: "wp ?P (sitemap_children W base (sd_Sitemaps d) (budget - 1) out') m
            (\<lambda>x m'. wp ?P (case x of (b, out) \<Rightarrow>
               if sitemapMaxURLs \<le> length out then Return out
               else sitemap_locations W base locs b out) m' (leaves (n - budget)))"
      if "n - 1 \<le> m" for d out' m
      using that Cons.prems False
      by (intro wp_mono [OF wp_sitemap_children [of "budget - 1" m W base "sd_Sitemaps d" out']])
        (auto intro!: later)
    have "on_site (w_url W) base loc"
      using False by (simp add: sameHost_on_site)
    then show ?thesis
      using Cons.prems False wp_fetchSitemapDoc [of n "w_url W" base loc W]
      by (auto elim!: wp_mono intro!: index [unfolded One_nat_def] later split: option.split)
  qed
qed auto

lemma wp_fetchSitemapURLs:
  "3 \<le> n \<Longrightarrow> wp (asks_site (w_url W) base) (fetchSitemapURLs W base r) n (leaves (n - 3))"
  using wp_sitemap_locations [of 3 n W base]
  by (simp add: fetchSitemapURLs_def sitemapMaxChildren_def Let_def)

lemma length_mark_slowest [simp]: "length (mark_slowest pages) = length pages"
  by (simp add: mark_slowest_def split: option.split)

lemma wp_probePages:
  assumes "list_all (\<lambda>c. on_site V base (ca_URL c)) cands" and "length cands + k \<le> n"
  shows "wp (asks_site V base) (probePages W cands) n (leaves k)"
proof -
  have "wp (asks_site V base) (for_each (probe_page W) cands) n
          (\<lambda>ys m. length ys = length cands \<and> k \<le> m)"
    using assms by (intro wp_for_each) (auto simp: probe_page_def list_all_iff)
  then show ?thesis by (auto simp: probePages_def elim: wp_mono)
qed

text \<open>The shortlist holds pages of the very host.\<close>

lemma page_of_host:
  assumes "page_of W r root c = Some (path, clean)"
  shows "\<exists>u. clean = url_String W u \<and> u_Host u = u_Host root"
  using assms by (auto simp: page_of_def Let_def split: option.splits if_splits)

lemma rank_loop_host:
  "s \<in> set (rank_loop W r root seen cs) \<Longrightarrow>
   \<exists>u. ca_URL (sc_c s) = url_String (w_url W) u \<and> u_Host u = u_Host root"
proof (induction cs arbitrary: seen)
  case (Cons c cs)
  then show ?case
    by (cases "page_of (w_url W) r root c")
      (auto simp: Let_def split: prod.splits if_splits dest: page_of_host)
qed simp

lemma rank_length: "length (rank W base cands r) \<le> pagesWanted"
  by (simp add: rank_def split: option.split)

lemma rank_on_site: "list_all (\<lambda>c. on_site (w_url W) base (ca_URL c)) (rank W base cands r)"
proof (cases "url_Parse (w_url W) base")
  case (Some root)
  have "on_site (w_url W) base (ca_URL (sc_c s))" if "s \<in> set (rank_loop W r root [] cands)" for s
    using rank_loop_host [OF that] Some by (auto simp: on_site_def)
  with Some show ?thesis by (auto simp: list_all_iff rank_def dest!: in_set_takeD)
qed (simp add: rank_def)

text \<open>The other hosts are subdomains, and at most three.\<close>

definition sound_hosts :: "string \<Rightarrow> (string \<times> string) list \<Rightarrow> bool" where
  "sound_hosts root found \<longleftrightarrow>
     distinct (map fst found) \<and> (\<forall>h \<in> set found. fst h \<noteq> root \<and> sameSite root (fst h))"

lemma sound_hosts_Nil [simp]: "sound_hosts root []"
  by (simp add: sound_hosts_def)

lemma sound_hosts_add [inv_intros]: "sound_hosts root found \<Longrightarrow> sound_hosts root (add_host root h found)"
  by (cases h) (auto simp: sound_hosts_def add_host_def)

lemma sound_hosts_fold [inv_intros]:
  "sound_hosts root found \<Longrightarrow> sound_hosts root (fold (add_host root) hs found)"
  by (induction hs arbitrary: found) (simp_all add: sound_hosts_add)

lemma host_candidates_on_site:
  assumes "url_Parse W base = Some root" and "sound_hosts (u_Host root) found"
  shows "list_all (\<lambda>c. on_site W base (ca_URL c)) (host_candidates root found)"
proof -
  have "on_site W base (u_Scheme root @ ''://'' @ fst h)" if "h \<in> set found" for h
    using assms that unfolding on_site_def sound_hosts_def sameSite_iff by blast
  then show ?thesis
    by (auto simp: list_all_iff host_candidates_def dest!: in_set_takeD)
qed

lemma host_candidates_length: "length (host_candidates root found) \<le> hostsWanted"
  by (simp add: host_candidates_def)

lemma wp_lookups: "wp P (for_each (lookup_host root) labels) n (\<lambda>ys m. m = n)"
  by (induction labels arbitrary: n) (auto simp: lookup_host_def Let_def elim!: wp_mono)

lemma wp_findHosts:
  assumes "3 + k \<le> n"
  shows "wp (asks_site W base) (findHosts W dns base seen) n (leaves k)"
proof (cases "url_Parse W base")
  case (Some root)
  have probe: "wp (asks_site W base) (probePages W (host_candidates root found)) n (leaves k)"
    if "sound_hosts (u_Host root) found" for found
    using assms that Some host_candidates_length [of root found]
    by (intro wp_probePages host_candidates_on_site) (auto simp: hostsWanted_def)
  show ?thesis
    using Some assms
    by (auto simp: findHosts_def Let_def intro!: probe sound_hosts_fold wp_mono [OF wp_lookups])
qed (use assms in \<open>simp add: findHosts_def\<close>)

lemma wp_findPages:
  assumes "12 + k \<le> n"
  shows "wp (asks_site (w_url W) base) (findPages W dns base homepage) n (leaves k)"
proof -
  let ?P = "asks_site (w_url W) base"
  have hosts: "wp ?P (findHosts (w_url W) dns base seen) m (\<lambda>hosts. leaves k (pages, hosts))"
    if "3 + k \<le> m" for seen m and pages :: "Page list"
    using wp_findHosts [of k m "w_url W" base dns seen] that by simp
  have pages: "wp ?P (if short = [] then Return [] else probePages (w_url W) short) m
                 (\<lambda>pages m'. wp ?P (findHosts (w_url W) dns base seen) m'
                    (\<lambda>hosts. leaves k (pages, hosts)))"
    if "8 + k \<le> m" "short = rank W base cands r" for short cands r seen m
  proof (cases "short = []")
    case False
    have "wp ?P (probePages (w_url W) short) m (leaves (3 + k))"
      using that rank_length [of W base cands r] rank_on_site [of W base cands r]
      by (intro wp_probePages) (auto simp: pagesWanted_def)
    with False show ?thesis by (auto elim!: wp_mono intro!: hosts)
  qed (use that in \<open>auto intro!: hosts\<close>)
  have maps: "wp ?P (fetchSitemapURLs W base r) m
                (\<lambda>cands m'. wp ?P (if rank W base (f cands) r = [] then Return []
                                    else probePages (w_url W) (rank W base (f cands) r)) m'
                  (\<lambda>pages m'. wp ?P (findHosts (w_url W) dns base (g cands)) m'
                    (\<lambda>hosts. leaves k (pages, hosts))))"
    if "11 + k \<le> m" for r m f g
    using that by (intro wp_mono [OF wp_fetchSitemapURLs [of m W base r]] pages) auto
  show ?thesis
    unfolding findPages_def Let_def wp_and_then
    using assms by (intro wp_mono [OF wp_fetchRobots [of n "w_url W" base]])
      (auto intro!: maps [unfolded wp_and_then])
qed

section \<open>The API\<close>

lemma commonPrefix_prefix: "has_prefix a (commonPrefix a b) \<and> has_prefix b (commonPrefix a b)"
  by (induction a b rule: commonPrefix.induct) (auto simp: has_prefix_iff)

lemma has_prefix_trans: "has_prefix s p \<Longrightarrow> has_prefix p q \<Longrightarrow> has_prefix s q"
  by (auto simp: has_prefix_iff)

lemma common_of_prefix: "has_prefix p (common_of p rs) \<and> list_all (\<lambda>r. has_prefix r (common_of p rs)) rs"
proof (induction rs arbitrary: p)
  case (Cons r rs)
  let ?p = "commonPrefix p r"
  show ?case
  proof (cases "?p = []")
    case False
    have "has_prefix ?p (common_of ?p rs)" using Cons.IH by blast
    with commonPrefix_prefix [of p r] have "has_prefix p (common_of ?p rs)" "has_prefix r (common_of ?p rs)"
      by (blast intro: has_prefix_trans)+
    with Cons.IH [of ?p] False show ?thesis by simp
  qed (auto simp: list_all_iff has_prefix_iff)
qed (simp add: has_prefix_iff)

lemma cut_to_boundary_prefix: "has_prefix p (cut_to_boundary p)"
  by (auto simp: cut_to_boundary_def has_prefix_def dest: last_index_byte_Some split: option.split)

lemma apiLiteralRe_rooted:
  assumes "apiLiteralRe s = Some (route, rest)"
  shows "\<exists>t. route = CHR ''/'' # t"
  using assms
  by (auto simp: apiLiteralRe_def Let_def has_prefix_Cons is_route_char_def split: list.splits if_splits)

lemma find_all_in:
  "x \<in> set (find_all m s) \<Longrightarrow> (\<And>u v y. m u = Some (y, v) \<Longrightarrow> P y) \<Longrightarrow> P x"
proof (induction m s rule: find_all.induct)
  case (2 m c s)
  then show ?case by (cases "m (c # s)") auto
qed simp

lemma set_api_routes: "set (api_routes seen rs) \<subseteq> set rs"
  by (induction seen rs rule: api_routes.induct) auto

text \<open>The base of a bundle's routes is empty or rooted, and every route begins with it.\<close>

lemma apiBaseIn_prefix:
  "apiBaseIn js = [] \<or>
   list_all (\<lambda>r. has_prefix r (apiBaseIn js)) (api_routes [] (find_all apiLiteralRe js))"
proof (cases "sort (api_routes [] (find_all apiLiteralRe js))")
  case (Cons r rs)
  have "list_all (\<lambda>r'. has_prefix r' (cut_to_boundary (common_of r rs))) (r # rs)"
    using common_of_prefix [of r rs] cut_to_boundary_prefix [of "common_of r rs"]
    by (auto simp: list_all_iff intro: has_prefix_trans)
  moreover have "set (api_routes [] (find_all apiLiteralRe js)) = set (r # rs)"
    using Cons by (metis set_sort)
  ultimately show ?thesis
    by (simp add: apiBaseIn_def Cons Let_def list_all_iff)
qed (simp add: apiBaseIn_def)

lemma apiBaseIn_rooted:
  assumes "apiBaseIn js \<noteq> []"
  shows "\<exists>t. apiBaseIn js = CHR ''/'' # t"
proof -
  let ?rs = "api_routes [] (find_all apiLiteralRe js)"
  have "?rs \<noteq> []" using assms by (auto simp: apiBaseIn_def)
  then obtain r where r: "r \<in> set ?rs" by (cases ?rs) auto
  with apiBaseIn_prefix [of js] assms have p: "has_prefix r (apiBaseIn js)"
    by (auto simp: list_all_iff)
  have "r \<in> set (find_all apiLiteralRe js)" using r set_api_routes by blast
  then have "\<exists>t. r = CHR ''/'' # t" by (rule find_all_in) (rule apiLiteralRe_rooted)
  with p assms show ?thesis by (cases "apiBaseIn js") (auto simp: has_prefix_iff)
qed

lemma TrimRight_byte_idem [simp]: "TrimRight_byte d (TrimRight_byte d s) = TrimRight_byte d s"
  by (simp add: TrimRight_byte_def trim_right_def dropWhile_idem)

lemma bundle_of_on_site:
  assumes "bundle_of W base captured = Some src" and "TrimRight_byte CHR ''/'' base = base"
  shows "on_site W base src"
proof -
  let ?s = "TrimSpace captured"
  show ?thesis
  proof (cases "has_prefix ?s ''//'' \<or> has_prefix ?s ''http''")
    case True
    with assms show ?thesis by (auto simp: bundle_of_def Let_def intro: sameHost_on_site split: if_splits)
  next
    case False
    with assms obtain t where "?s = CHR ''/'' # t" "src = base @ ?s"
      by (auto simp: bundle_of_def Let_def absolute_def has_prefix_iff split: if_splits)
    then show ?thesis by simp
  qed
qed

lemma mainBundle_on_site:
  assumes "mainBundle W base page \<noteq> []" and "TrimRight_byte CHR ''/'' base = base"
  shows "on_site W base (mainBundle W base page)"
proof -
  let ?same = "List.map_filter (bundle_of W base) (find_all scriptSrcRe page)"
  have "mainBundle W base page = List.last ?same \<and> ?same \<noteq> []"
    using assms(1) by (auto simp: mainBundle_def Let_def split: if_splits)
  then have "mainBundle W base page \<in> set ?same" by simp
  then show ?thesis
    using assms(2) by (auto simp: List.map_filter_def intro: bundle_of_on_site)
qed

lemma wp_apiFromBundle:
  assumes "2 + k \<le> n" and "TrimRight_byte CHR ''/'' base = base"
  shows "wp (asks_site W base) (apiFromBundle W base page) n (leaves k)"
  using assms apiBaseIn_rooted
  by (auto simp: apiFromBundle_def Let_def intro: mainBundle_on_site) (metis on_site_path)

lemma wp_api_loop:
  assumes "apiMaxPaths - tried + k \<le> n" and "list_all (\<lambda>p. \<exists>t. p = CHR ''/'' # t) paths"
  shows "wp (asks_site W base) (api_loop base tried paths) n (leaves k)"
  using assms
proof (induction paths arbitrary: tried n)
  case (Cons p ps)
  have "wp (asks_site W base) (api_loop base (Suc tried) ps) (n - 1) (leaves k)"
    if "tried < apiMaxPaths"
    using Cons.prems that by (intro Cons.IH) auto
  with Cons.prems show ?case by auto
qed simp

lemma wp_findAPI:
  assumes "5 + k \<le> n" and "TrimRight_byte CHR ''/'' base = base"
  shows "wp (asks_site W base) (findAPI W base page) n (leaves k)"
proof -
  have "wp (asks_site W base) (apiFromPaths base) m (leaves k)" if "3 + k \<le> m" for m
    using wp_api_loop [of 0 k m apiPaths W base] that assms(2)
    by (simp add: apiFromPaths_def apiMaxPaths_def apiPaths_def)
  then show ?thesis
    using wp_apiFromBundle [of "3 + k" n base W page] assms
    by (auto simp: findAPI_def elim!: wp_mono split: option.split)
qed

section \<open>A run\<close>

lemma wp_health_loop:
  assumes "length paths + k \<le> n" and "list_all (\<lambda>p. \<exists>t. p = CHR ''/'' # t) paths"
  shows "wp (asks_site W base) (health_loop base paths) n (leaves k)"
  using assms by (induction paths arbitrary: n) auto

lemma wp_Run:
  "wp (asks_site (w_url W) (TrimRight_byte CHR ''/'' baseURL)) (Run W dns baseURL res) 22 (\<lambda>_ _. True)"
proof -
  let ?b = "TrimRight_byte CHR ''/'' baseURL"
  let ?P = "asks_site (w_url W) ?b"
  have pages: "wp ?P (findPages W dns ?b body) m (\<lambda>x m. wp ?P (case x of (pages, hosts) \<Rightarrow> Return (f pages hosts)) m (\<lambda>_ _. True))"
    if "12 \<le> m" for body m and f :: "Page list \<Rightarrow> Page list \<Rightarrow> Facts"
    using that by (intro wp_mono [OF wp_findPages [of 0]]) auto
  have health: "wp ?P (probeHealth ?b) m (leaves 17)" if "21 \<le> m" for m
    unfolding probeHealth_def using that by (intro wp_health_loop) (auto simp: healthPaths_def)
  show ?thesis
    by (auto simp: Run_def Let_def probeErrorPage_def missingPath_def
        intro!: wp_mono [OF health] wp_mono [OF wp_findAPI [of 12]] pages)
qed

end
