(* ===== verification/DiscoverSite.thy ===== *)
theory DiscoverSite
  imports DiscoverFacts
begin

text \<open>
  What the discovery of a site promises: where its requests go and how many there are, what
  \<^verbatim>\<open>robots.txt\<close> forbids, which pages make the shortlist, and which page is named the slowest.
\<close>

section \<open>Requests\<close>

text \<open>C21. Whatever the site, the sitemap decoder, the name server and the clock answer, a discovery returns, and it has
  then made at most 22 requests.\<close>

theorem discovery_returns: "length (requests w (Run W dns baseURL res)) \<le> 22"
  using wp_run [OF wp_Run [of W baseURL dns res], of w "[]"] by (auto simp: requests_def)

text \<open>C22. Every URL a discovery asks for is the requested one with a path, or has as its host the requested host or labels and a
  dot in front of it, and at most one redirect is followed from it: robots.txt, the
  sitemaps, the page's links and its scripts cannot name a stranger. Where the one redirect leads is not checked
  (\<open>followed_redirect_leaves_the_site\<close> in \<open>ExecutorFacts\<close>).\<close>

theorem discovery_stays_on_site:
  "list_all (\<lambda>s. on_site (w_url W) (TrimRight_byte CHR ''/'' baseURL) (fs_URL s) \<and> (fs_MaxRedirects s = 1 \<or> fs_MaxRedirects s = 2))
     (requests w (Run W dns baseURL res))"
  using wp_run [OF wp_Run [of W baseURL dns res], of w "[]"] by (auto simp: requests_def asks_site_def list_all_iff)

text \<open>A URL library for URLs of the form \<^verbatim>\<open>https://host/path\<close>, and a decoder that reads one index.\<close>

definition plain_urls :: "unit url_lib" where
  "plain_urls =
     \<lparr>url_Parse = (\<lambda>s.
        if has_prefix s ''https://'' then
          Some \<lparr>u_Scheme = ''https'', u_Host = takeWhile (\<lambda>c. c \<noteq> CHR ''/'') (drop 8 s),
                u_Path = dropWhile (\<lambda>c. c \<noteq> CHR ''/'') (drop 8 s),
                u_RawQuery = [], u_Fragment = [], u_rest = ()\<rparr>
        else None),
      url_String = (\<lambda>u. u_Scheme u @ ''://'' @ u_Host u @ u_Path u),
      url_Resolve = (\<lambda>root ref. ref)\<rparr>"

definition entry :: "string \<Rightarrow> sitemapEntry" where
  "entry u = \<lparr>se_Loc = u, se_Priority = []\<rparr>"

definition indexed_site :: "unit web" where
  "indexed_site =
     \<lparr>w_url = plain_urls,
      w_sitemap = (\<lambda>body. Some \<lparr>sd_URLs = map entry [''https://a.io/1'', ''https://a.io/2'', ''https://a.io/3'',
                                               ''https://a.io/4'', ''https://a.io/5''],
                              sd_Sitemaps = map entry [''https://a.io/s'', ''https://a.io/t'']\<rparr>),
      w_points = (\<lambda>p. None)\<rparr>"

text \<open>
  The surroundings: pages and the bundle answer 200 with one route literal as their body where a body
  is asked for, everything else 404, and the API does not answer; the conventional names resolve.
\<close>

definition busy_site :: surroundings where
  "busy_site =
     \<lparr>reply = (\<lambda>asked s.
        \<lparr>fr_OK = fs_CollectBody s,
         fr_StatusCode = (if fs_CollectBody s then 200 else if has_suffix (fs_URL s) ''io/api'' then 0 else 404),
         fr_ErrorClass = ''none'', fr_TotalMs = 10, fr_Header = None,
         fr_Body = (if fs_CollectBody s then CHR 0x22 # ''/api/x'' @ [CHR 0x22] else [])\<rparr>),
      out_of_time = (\<lambda>asked. False),
      addresses = (\<lambda>host. Some [''192.0.2.1''])\<rparr>"

definition busy_page :: FetchResult where
  "busy_page =
     \<lparr>fr_OK = True, fr_StatusCode = 200, fr_ErrorClass = ''none'', fr_TotalMs = 10, fr_Header = None,
      fr_Body = ''<script src='' @ [CHR 0x22] @ ''/m.js'' @ [CHR 0x22] @ ''></script>''\<rparr>"

text \<open>The 22 requests are made: of a site with an index of two sitemaps, five pages, three other hosts and a bundle whose
  API does not answer, a discovery asks more than the 20 that \<^verbatim>\<open>MaxRequests\<close> promises.\<close>

theorem discovery_breaks_its_ceiling:
  "MaxRequests < length (requests busy_site (Run indexed_site True ''https://a.io'' busy_page))"
  by code_simp

section \<open>robots.txt\<close>

text \<open>
  The reference reading: the rules of the groups whose user agent satisfies \<open>mine\<close>, a group running
  from its \<^verbatim>\<open>User-agent\<close> line to the next.
\<close>

fun group_rules :: "(string \<Rightarrow> bool) \<Rightarrow> bool \<Rightarrow> string list \<Rightarrow> string list" where
  "group_rules mine inside [] = []"
| "group_rules mine inside (l # ls) =
     (case robots_directive l of
        None \<Rightarrow> group_rules mine inside ls
      | Some (key, value) \<Rightarrow>
          if key = ''user-agent'' then group_rules mine (mine (ToLower value)) ls
          else if key = ''disallow'' \<and> inside \<and> value \<noteq> [] then value # group_rules mine inside ls
          else group_rules mine inside ls)"

definition names_us :: "string \<Rightarrow> bool" where
  "names_us agent = contains agent robotsUAToken"

definition agent_line :: "(string \<Rightarrow> bool) \<Rightarrow> string \<Rightarrow> bool" where
  "agent_line mine l =
     (case robots_directive l of
        None \<Rightarrow> False
      | Some (key, value) \<Rightarrow> key = ''user-agent'' \<and> mine (ToLower value))"

text \<open>One line: a user-agent line that names us, another one, a rule, anything else.\<close>

definition rule_of :: "string \<Rightarrow> string list" where
  "rule_of l =
     (case robots_directive l of
        None \<Rightarrow> []
      | Some (key, value) \<Rightarrow> if key = ''disallow'' \<and> value \<noteq> [] then [value] else [])"

abbreviation "is_agent \<equiv> agent_line (\<lambda>a. True)"
abbreviation "star_line \<equiv> agent_line (\<lambda>a. a = ''*'')"

lemma group_rules_Cons:
  "group_rules mine inside (l # ls) =
     (if is_agent l then group_rules mine (agent_line mine l) ls
      else (if inside then rule_of l else []) @ group_rules mine inside ls)"
  by (auto simp: agent_line_def rule_of_def split: option.split)

lemma agent_line_is_agent: "agent_line mine l \<Longrightarrow> is_agent l"
  by (auto simp: agent_line_def split: option.splits)

lemma robots_step_specific:
  "rs_specific (robots_step st l) = (rs_specific st \<or> agent_line names_us l)"
  by (cases "robots_directive l")
    (auto simp: robots_step_def agent_line_def names_us_def Let_def split: if_split_asm)

lemma robots_step_applies:
  "rs_applies (robots_step st l) =
     (if is_agent l then agent_line names_us l \<or> star_line l \<and> \<not> rs_specific st else rs_applies st)"
  by (cases "robots_directive l")
    (auto simp: robots_step_def agent_line_def names_us_def Let_def split: if_split_asm)

lemma robots_step_disallow:
  "rb_disallow (rs_robots (robots_step st l)) =
     (if agent_line names_us l \<and> \<not> rs_specific st then []
      else rb_disallow (rs_robots st) @ (if rs_applies st then rule_of l else []))"
  by (cases "robots_directive l")
    (auto simp: robots_step_def agent_line_def names_us_def rule_of_def Let_def split: if_split_asm)

lemmas robots_step_facts = robots_step_specific robots_step_applies robots_step_disallow

lemma rule_of_agent: "is_agent l \<Longrightarrow> rule_of l = []"
  by (auto simp: agent_line_def rule_of_def split: option.splits)

lemma robots_own:
  "rs_specific st \<Longrightarrow>
   rb_disallow (rs_robots (foldl robots_step st ls)) =
     rb_disallow (rs_robots st) @ group_rules names_us (rs_applies st) ls"
  by (induction ls arbitrary: st)
    (simp_all add: robots_step_facts group_rules_Cons rule_of_agent del: group_rules.simps(2))

lemma robots_any:
  "\<not> rs_specific st \<Longrightarrow>
   rb_disallow (rs_robots (foldl robots_step st ls)) =
     (if list_ex (agent_line names_us) ls then group_rules names_us False ls
      else rb_disallow (rs_robots st) @ group_rules (\<lambda>a. a = ''*'') (rs_applies st) ls)"
proof (induction ls arbitrary: st)
  case (Cons l ls)
  show ?case
  proof (cases "agent_line names_us l")
    case True
    with Cons.prems agent_line_is_agent [OF True] show ?thesis
      by (simp add: robots_own robots_step_facts group_rules_Cons rule_of_agent del: group_rules.simps(2))
  next
    case False
    with Cons.prems Cons.IH [of "robots_step st l"] show ?thesis
      by (simp add: robots_step_facts group_rules_Cons rule_of_agent del: group_rules.simps(2))
  qed
qed simp

text \<open>C23. The single pass over \<^verbatim>\<open>robots.txt\<close> keeps what two passes would: where a line names our agent, the
  rules of the groups that name it, else the rules of the wildcard's groups.\<close>

theorem parseRobots_two_pass:
  "rb_disallow (parseRobots body) =
     (let ls = split_byte LF body
      in if list_ex (agent_line names_us) ls then group_rules names_us False ls
         else group_rules (\<lambda>a. a = ''*'') False ls)"
  using robots_any [of robots_start "split_byte LF body"]
  by (simp add: parseRobots_def robots_start_def no_robots_def Let_def)

text \<open>A group with two agents is lost to the second: a rule for UpControl and another crawler does not
  bind UpControl.\<close>

theorem shared_group_is_ignored:
  "allowed (parseRobots (''User-agent: UpControl'' @ LF # ''User-agent: OtherBot'' @ LF # ''Disallow: /private''))
     ''/private''"
  by code_simp

section \<open>The shortlist\<close>

lemma rank_loop_distinct:
  "distinct (map (\<lambda>s. ca_URL (sc_c s)) (rank_loop W r root seen cs))
   \<and> set (map (\<lambda>s. ca_URL (sc_c s)) (rank_loop W r root seen cs)) \<inter> set seen = {}"
proof (induction cs arbitrary: seen)
  case (Cons c cs)
  show ?case
  proof (cases "page_of (w_url W) r root c")
    case (Some p)
    with Cons.IH [of seen] Cons.IH [of "snd p # seen"] show ?thesis
      by (cases p) (auto simp: Let_def)
  qed (use Cons.IH in simp)
qed simp

lemma rank_loop_covers:
  assumes "c \<in> set cs" and "page_of (w_url W) r root c = Some (path, clean)"
  shows "clean \<in> set seen \<or> clean \<in> set (map (\<lambda>s. ca_URL (sc_c s)) (rank_loop W r root seen cs))"
  using assms
proof (induction cs arbitrary: seen)
  case (Cons d cs)
  show ?case
  proof (cases "d = c")
    case True
    with Cons.prems(2) show ?thesis by (auto simp: Let_def)
  next
    case False
    with Cons.prems have "c \<in> set cs" by simp
    note later = Cons.IH [OF this Cons.prems(2)]
    show ?thesis
    proof (cases "page_of (w_url W) r root d")
      case (Some p)
      with later [of seen] later [of "snd p # seen"] show ?thesis
        by (cases p) (simp add: Let_def, blast)
    qed (use later in simp)
  qed
qed simp

text \<open>Every shortlisted page comes from a candidate that passed the checks.\<close>

definition page_from :: "'r web \<Rightarrow> robots \<Rightarrow> 'r url \<Rightarrow> scored \<Rightarrow> candidate \<Rightarrow> bool" where
  "page_from W r root s c \<longleftrightarrow>
     (case page_of (w_url W) r root c of
        None \<Rightarrow> False
      | Some (path, clean) \<Rightarrow>
          ca_URL (sc_c s) = clean \<and> sc_score s = scoreOf W path (sc_c s)
          \<and> \<not> isAsset path \<and> allowed r path \<and> path \<noteq> ''/'')"

lemma page_of_checks:
  "page_of V r root c = Some (path, clean) \<Longrightarrow> \<not> isAsset path \<and> allowed r path \<and> path \<noteq> ''/''"
  by (simp add: page_of_def Let_def split: option.splits if_splits)

lemma rank_loop_from:
  "list_all (\<lambda>s. list_ex (page_from W r root s) cs) (rank_loop W r root seen cs)"
proof (induction cs arbitrary: seen)
  case (Cons c cs)
  show ?case
  proof (cases "page_of (w_url W) r root c")
    case (Some p)
    with Cons.IH show ?thesis
      by (cases p) (auto simp: Let_def page_from_def list_all_iff dest: page_of_checks)
  qed (use Cons.IH in \<open>auto simp: list_all_iff\<close>)
qed simp

text \<open>The scored list \<^verbatim>\<open>rank\<close> sorts, the part it keeps and the part it drops.\<close>

definition scored_pages :: "'r web \<Rightarrow> string \<Rightarrow> candidate list \<Rightarrow> robots \<Rightarrow> scored list" where
  "scored_pages W base cands r =
     (case url_Parse (w_url W) base of
        None \<Rightarrow> []
      | Some root \<Rightarrow> sort_key (\<lambda>s. - sc_score s) (rank_loop W r root [] cands))"

lemma rank_scored: "rank W base cands r = map sc_c (take pagesWanted (scored_pages W base cands r))"
  by (simp add: rank_def scored_pages_def split: option.split)

lemma scored_pages_order:
  "sorted (map (\<lambda>s. - sc_score s) (scored_pages W base cands r))"
  by (simp add: scored_pages_def split: option.split)

lemma distinct_scored_pages:
  "distinct (map (\<lambda>s. ca_URL (sc_c s)) (scored_pages W base cands r))"
proof (cases "url_Parse (w_url W) base")
  case (Some root)
  with rank_loop_distinct [of W r root "[]" cands] show ?thesis
    by (simp add: scored_pages_def distinct_map)
qed (simp add: scored_pages_def)

text \<open>The shortlist names each page once and at most five; each is a candidate on the very host that is no asset, no
  root and allowed by robots.txt; the scores fall, no dropped page scores higher than a kept one,
  and as long as there is room no page is dropped.\<close>

theorem rank_keeps_the_best_five:
  assumes "url_Parse (w_url W) base = Some root"
    and "scored_pages W base cands r = kept @ dropped" and "length kept = min pagesWanted (length (kept @ dropped))"
  shows "rank W base cands r = map sc_c kept
     \<and> distinct (map ca_URL (rank W base cands r))
     \<and> list_all (\<lambda>s. list_ex (page_from W r root s) cands) kept
     \<and> (\<forall>s \<in> set kept. \<forall>t \<in> set dropped. sc_score t \<le> sc_score s)
     \<and> (\<forall>c \<in> set cands. \<forall>path clean. page_of (w_url W) r root c = Some (path, clean) \<longrightarrow>
          clean \<in> set (map ca_URL (rank W base cands r)) \<or> length kept = pagesWanted)"
proof (intro conjI)
  have full: "dropped = [] \<or> length kept = pagesWanted"
  proof -
    have "length kept = pagesWanted \<or> length kept = length (kept @ dropped)"
      using assms(3) by (metis min_def)
    then show ?thesis by auto
  qed
  have "length kept \<le> pagesWanted" using assms(3) by (metis min.cobounded1)
  then show rank: "rank W base cands r = map sc_c kept"
    using assms(2) full by (cases "dropped = []") (simp_all add: rank_scored)
  show "distinct (map ca_URL (rank W base cands r))"
    using distinct_scored_pages [of W base cands r] assms(2) by (simp add: rank comp_def)
  have scored: "set (kept @ dropped) = set (rank_loop W r root [] cands)"
    using assms(1,2) by (metis option.simps(5) scored_pages_def set_sort)
  then show "list_all (\<lambda>s. list_ex (page_from W r root s) cands) kept"
    using rank_loop_from [of W r root cands "[]"] by (auto simp: list_all_iff)
  show "\<forall>s \<in> set kept. \<forall>t \<in> set dropped. sc_score t \<le> sc_score s"
    using scored_pages_order [of W base cands r] assms(2) by (auto simp: sorted_append)
  show "\<forall>c \<in> set cands. \<forall>path clean. page_of (w_url W) r root c = Some (path, clean) \<longrightarrow>
          clean \<in> set (map ca_URL (rank W base cands r)) \<or> length kept = pagesWanted"
  proof (intro ballI allI impI)
    fix c path clean
    assume "c \<in> set cands" and "page_of (w_url W) r root c = Some (path, clean)"
    from rank_loop_covers [OF this, of "[]"]
    have "clean \<in> (\<lambda>s. ca_URL (sc_c s)) ` set (kept @ dropped)" unfolding scored by simp
    then show "clean \<in> set (map ca_URL (rank W base cands r)) \<or> length kept = pagesWanted"
      using full by (auto simp: rank)
  qed
qed

text \<open>A path of two slashes is the root the shortlist means to leave out: it is trimmed to the empty path, which
  the check for the root does not know.\<close>

theorem root_on_the_shortlist:
  "map ca_URL (rank indexed_site ''https://a.io''
     [\<lparr>ca_URL = ''https://a.io//'', ca_Source = ''in sitemap.xml'', ca_Priority = []\<rparr>] no_robots)
   = [''https://a.io'']"
  by code_simp

section \<open>Naming the slowest\<close>

lemma slowest_loop_best:
  assumes "slowest_loop pages i found rest = Some j"
    and "drop i pages = rest" and "i \<le> length pages"
    and "\<forall>k. found = Some k \<longrightarrow> k < i \<and> pg_Status (pages ! k) \<noteq> 0
           \<and> (\<forall>l < i. pg_Status (pages ! l) \<noteq> 0 \<longrightarrow> pg_TotalMs (pages ! l) \<le> pg_TotalMs (pages ! k))"
    and "found = None \<longrightarrow> (\<forall>l < i. pg_Status (pages ! l) = 0)"
  shows "j < length pages \<and> pg_Status (pages ! j) \<noteq> 0
    \<and> (\<forall>l < length pages. pg_Status (pages ! l) \<noteq> 0 \<longrightarrow> pg_TotalMs (pages ! l) \<le> pg_TotalMs (pages ! j))"
  using assms
proof (induction rest arbitrary: i found)
  case Nil
  then show ?case by simp
next
  case (Cons page rest)
  have i: "i < length pages" "pages ! i = page" "drop (Suc i) pages = rest"
    using Cons.prems(2) by (metis Cons.prems(3) drop_all le_neq_implies_less list.distinct(1) order_refl
        nth_via_drop Cons_nth_drop_Suc list.inject)+
  let ?found = "if pg_Status page \<noteq> 0
           \<and> (case found of None \<Rightarrow> True | Some j \<Rightarrow> pg_TotalMs (pages ! j) < pg_TotalMs page)
        then Some i else found"
  show ?case
  proof (rule Cons.IH [of "Suc i" ?found])
    show "slowest_loop pages (Suc i) ?found rest = Some j" using Cons.prems(1) by simp
    show "\<forall>k. ?found = Some k \<longrightarrow> k < Suc i \<and> pg_Status (pages ! k) \<noteq> 0
           \<and> (\<forall>l < Suc i. pg_Status (pages ! l) \<noteq> 0 \<longrightarrow> pg_TotalMs (pages ! l) \<le> pg_TotalMs (pages ! k))"
    proof (cases found)
      case None
      with Cons.prems(5) i(2) show ?thesis by (auto simp: less_Suc_eq)
    next
      case (Some a)
      with Cons.prems(4) have a: "a < i" "pg_Status (pages ! a) \<noteq> 0"
          "\<And>l. l < i \<Longrightarrow> pg_Status (pages ! l) \<noteq> 0 \<Longrightarrow> pg_TotalMs (pages ! l) \<le> pg_TotalMs (pages ! a)"
        by auto
      show ?thesis
        using i(2) a(1,2) Some by (auto simp: less_Suc_eq dest: a(3))
    qed
    show "?found = None \<longrightarrow> (\<forall>l < Suc i. pg_Status (pages ! l) = 0)"
      using Cons.prems(5) i(2) by (cases found) (auto simp: less_Suc_eq)
  qed (use i in auto)
qed

lemma slowest_loop_Some: "slowest_loop pages i (Some k) rest \<noteq> None"
  by (induction rest arbitrary: i k) auto

lemma slowest_loop_None:
  "slowest_loop pages i None rest = None \<longleftrightarrow> (\<forall>p \<in> set rest. pg_Status p = 0)"
  by (induction rest arbitrary: i) (auto simp: slowest_loop_Some)

text \<open>Of several probed pages of which one has answered, exactly one is named the slowest: one that answered, and
  that took at least as long as each other that did.\<close>

theorem slowest_is_marked:
  assumes "1 < length pages" and "page \<in> set pages" and "pg_Status page \<noteq> 0"
  shows "\<exists>i < length pages. mark_slowest pages = pages[i := (pages ! i)\<lparr>pg_Slowest := True\<rparr>]
     \<and> pg_Status (pages ! i) \<noteq> 0
     \<and> (\<forall>p \<in> set pages. pg_Status p \<noteq> 0 \<longrightarrow> pg_TotalMs p \<le> pg_TotalMs (pages ! i))"
proof -
  obtain i where i: "slowest_loop pages 0 None pages = Some i"
    using slowest_loop_None [of pages 0 pages] assms(2,3) by auto
  from slowest_loop_best [OF i] have best: "i < length pages" "pg_Status (pages ! i) \<noteq> 0"
      "\<forall>p \<in> set pages. pg_Status p \<noteq> 0 \<longrightarrow> pg_TotalMs p \<le> pg_TotalMs (pages ! i)"
    by (auto simp: in_set_conv_nth)
  then show ?thesis
    using i assms(1) by (intro exI [of _ i]) (simp add: mark_slowest_def)
qed

section \<open>The base of an API\<close>

text \<open>The API base read out of a bundle is empty or rooted and begins every route of the bundle, yet it need not
  end where a path segment ends: \<^verbatim>\<open>/apiary/x\<close> and \<^verbatim>\<open>/apis/y\<close> give \<^verbatim>\<open>/api\<close>, which is no path of either.\<close>

theorem api_base_begins_the_routes:
  "(apiBaseIn js = [] \<or> hd (apiBaseIn js) = CHR ''/'')
   \<and> list_all (\<lambda>r. has_prefix r (apiBaseIn js)) (api_routes [] (find_all apiLiteralRe js))
   \<and> apiBaseIn (CHR 0x22 # ''/apiary/x'' @ CHR 0x22 # CHR 0x22 # ''/apis/y'' @ [CHR 0x22]) = ''/api''"
proof (intro conjI)
  show "apiBaseIn js = [] \<or> hd (apiBaseIn js) = CHR ''/''"
    using apiBaseIn_rooted [of js] by (cases "apiBaseIn js = []") auto
  show "list_all (\<lambda>r. has_prefix r (apiBaseIn js)) (api_routes [] (find_all apiLiteralRe js))"
    using apiBaseIn_prefix [of js] by (auto simp: list_all_iff has_prefix_iff)
  show "apiBaseIn (CHR 0x22 # ''/apiary/x'' @ CHR 0x22 # CHR 0x22 # ''/apis/y'' @ [CHR 0x22]) = ''/api''"
    by code_simp
qed

text \<open>Witnesses.\<close>

definition shop_pages :: "candidate list" where
  "shop_pages =
     map (\<lambda>u. \<lparr>ca_URL = u, ca_Source = ''in sitemap.xml'', ca_Priority = []\<rparr>)
       [''https://a.io/blog/1'', ''https://a.io/pricing'', ''https://a.io/x.png'', ''https://a.io/pricing/'']"

lemma rank_keeps_the_best_five_witness:
  "map ca_URL (rank indexed_site ''https://a.io'' shop_pages no_robots)
     = [''https://a.io/pricing'', ''https://a.io/blog/1'']
   \<and> distinct (map ca_URL (rank indexed_site ''https://a.io'' shop_pages no_robots))"
proof
  show "map ca_URL (rank indexed_site ''https://a.io'' shop_pages no_robots)
     = [''https://a.io/pricing'', ''https://a.io/blog/1'']" by code_simp
  have root: "url_Parse (w_url indexed_site) ''https://a.io''
      = Some \<lparr>u_Scheme = ''https'', u_Host = ''a.io'', u_Path = [], u_RawQuery = [], u_Fragment = [], u_rest = ()\<rparr>"
    by code_simp
  let ?pages = "scored_pages indexed_site ''https://a.io'' shop_pages no_robots"
  have "length ?pages = min pagesWanted (length (?pages @ []))" by code_simp
  from rank_keeps_the_best_five [OF root _ this]
  show "distinct (map ca_URL (rank indexed_site ''https://a.io'' shop_pages no_robots))" by blast
qed

definition two_answers :: "Page list" where
  "two_answers =
     map (\<lambda>(u, status, ms). \<lparr>pg_URL = u, pg_Path = u, pg_Source = [], pg_Status = status, pg_TotalMs = ms,
                              pg_OK = True, pg_Slowest = False, pg_Error = []\<rparr>)
       [(''/a'', 200, 90), (''/b'', 0, 999), (''/c'', 200, 120)]"

lemma slowest_is_marked_witness:
  "map pg_Slowest (mark_slowest two_answers) = [False, False, True]
   \<and> (\<exists>i < 3. pg_Status (two_answers ! i) \<noteq> 0)"
proof
  show "map pg_Slowest (mark_slowest two_answers) = [False, False, True]" by code_simp
  have len: "length two_answers = 3" by (simp add: two_answers_def)
  have "two_answers ! 0 \<in> set two_answers" "pg_Status (two_answers ! 0) \<noteq> 0"
    by (simp_all add: two_answers_def)
  from slowest_is_marked [OF _ this] show "\<exists>i < 3. pg_Status (two_answers ! i) \<noteq> 0"
    by (auto simp: len)
qed

end
