(* ===== verification/ExecutorFacts.thy ===== *)
theory ExecutorFacts
  imports Executor DiscoverSite
begin

text \<open>
  What a check promises: the addresses it connects to, the hops it makes, how its outcome is classed,
  and where the class is not the one the callers expect.
\<close>

section \<open>Where a check connects\<close>

text \<open>\<^verbatim>\<open>LookupIPAddr\<close> answers an error rather than no address.\<close>

definition resolves :: "'r exec_env \<Rightarrow> bool" where
  "resolves e \<longleftrightarrow> (\<forall>host ips. ee_LookupIPAddr e host = Inr ips \<longrightarrow> ips \<noteq> [])"

lemma DialContext_public:
  assumes "DialContext e True host = Inr ip" and "resolves e"
  shows "\<not> blocked ip"
proof (cases "ee_ParseIP e host")
  case (Some lit)
  with assms show ?thesis
    by (auto simp: DialContext_def guarded_def CheckResolvedIPs_iff split: if_splits)
next
  case None
  with assms obtain ips where "ee_LookupIPAddr e host = Inr ips" "\<not> list_ex blocked ips" "ip = ips ! 0" "ips \<noteq> []"
    by (auto simp: DialContext_def guarded_def CheckResolvedIPs_iff resolves_def split: sum.splits if_splits)
  then show ?thesis by (simp add: list_ex_iff)
qed

lemma follow_cases:
  obtains
    (refused) x where "DialContext e g (host_of e u) = Inl x"
      and "follow e g verb m via u dialed = (dialed, Inl (url_error verb u x))"
  | (answered) ip r where "DialContext e g (host_of e u) = Inr ip" and "ee_hop e via u = Answered r"
      and "follow e g verb m via u dialed = (dialed @ [ip], Inr (r, length via))"
  | (failed) ip x u' where "DialContext e g (host_of e u) = Inr ip"
      and "follow e g verb m via u dialed = (dialed @ [ip], Inl (url_error verb u' x))"
  | (redirected) ip u' where "DialContext e g (host_of e u) = Inr ip" and "ee_hop e via u = Redirected u'"
      and "CheckRedirect e g m u' (via @ [u]) = None"
      and "follow e g verb m via u dialed = follow e g verb m (via @ [u]) u' (dialed @ [ip])"
proof (cases "DialContext e g (host_of e u)")
  case (Inl x)
  then show ?thesis using refused by (simp add: follow.simps [of e g verb m via u])
next
  case (Inr ip)
  note dial = Inr
  show ?thesis
  proof (cases "ee_hop e via u")
    case (Redirected u')
    show ?thesis
    proof (cases "CheckRedirect e g m u' (via @ [u])")
      case None
      then show ?thesis
        using dial Redirected redirected by (simp add: follow.simps [of e g verb m via u])
    next
      case (Some x)
      then show ?thesis
        using dial Redirected failed by (simp add: follow.simps [of e g verb m via u])
    qed
  qed (use dial failed answered in \<open>simp_all add: follow.simps [of e g verb m via u]\<close>)
qed

lemma CheckRedirect_bound [bounds]: "CheckRedirect e g m u via = None \<Longrightarrow> length via < m"
  by (auto simp: CheckRedirect_def split: if_splits)

lemma follow_dials:
  assumes "resolves e" and "list_all (\<lambda>ip. \<not> blocked ip) dialed"
  shows "list_all (\<lambda>ip. \<not> blocked ip) (fst (follow e True verb m via u dialed))"
  using assms(2)
proof (induction "m - length via" arbitrary: via u dialed rule: less_induct)
  case less
  show ?case
  proof (cases rule: follow_cases [where e = e and g = True and u = u and verb = verb and m = m and via = via and dialed = dialed])
    case (redirected ip u')
    have "m - length (via @ [u]) < m - length via"
      using CheckRedirect_bound [OF redirected(3)] by simp
    then show ?thesis
      using less redirected DialContext_public [OF redirected(1) assms(1)] by simp
  qed (use less.prems DialContext_public [OF _ assms(1)] in auto)
qed

lemma follow_hops:
  "length via \<le> m \<Longrightarrow> 0 < m \<Longrightarrow>
   length (fst (follow e g verb m via u dialed)) \<le> length dialed + max 1 (m - length via)"
proof (induction "m - length via" arbitrary: via u dialed rule: less_induct)
  case less
  show ?case
  proof (cases rule: follow_cases [where e = e and g = g and u = u and verb = verb and m = m and via = via and dialed = dialed])
    case (redirected ip u')
    have lt: "length (via @ [u]) < m" using CheckRedirect_bound [OF redirected(3)] .
    then show ?thesis
      using less.hyps [of "via @ [u]" u' "dialed @ [ip]"] redirected(4) by simp arith
  qed auto
qed

lemma Execute_dials:
  "fst (Execute e g spec) = []
   \<or> (\<exists>verb. fst (Execute e g spec) = fst (follow e g verb (max_redirects spec) [] (xs_URL spec) []))"
proof -
  let ?verb = "if xs_Method spec = [] then ''GET'' else xs_Method spec"
  obtain dialed out where f: "follow e g ?verb (max_redirects spec) [] (xs_URL spec) [] = (dialed, out)"
    by fastforce
  have "fst (Execute e g spec) = [] \<or> fst (Execute e g spec) = dialed"
    unfolding Execute_def Let_def f by (auto split: option.split sum.split)
  with f show ?thesis by (metis fst_conv)
qed

text \<open>C20. A guarded check connects to no address the guard blocks: not on the first hop and not after any redirect,
  whatever the resolver answers and wherever a redirect points.\<close>

theorem check_connects_to_no_blocked_address:
  assumes "resolves e"
  shows "list_all (\<lambda>ip. \<not> blocked ip) (fst (Execute e True spec))"
  using Execute_dials [of e True spec] follow_dials [OF assms, of "[]"] by auto

text \<open>A check makes at most as many requests as its redirect limit says, five when it says none.\<close>

theorem check_makes_few_requests: "length (fst (Execute e g spec)) \<le> max_redirects spec"
proof -
  have "0 < max_redirects spec" by (simp add: max_redirects_def)
  then show ?thesis
    using Execute_dials [of e g spec] follow_hops [of "[]" "max_redirects spec" e g _ "xs_URL spec" "[]"]
    by auto
qed

section \<open>The outcome's class\<close>

definition error_classes :: "string list" where
  "error_classes =
     [''none'', ''dns'', ''connect'', ''tls'', ''timeout'', ''status'', ''keyword_missing'', ''blocked_target'', ''challenge'']"

definition well_classed :: "exec_result \<Rightarrow> bool" where
  "well_classed r \<longleftrightarrow> xr_ErrorClass r \<in> set error_classes \<and> (xr_OK r = (xr_ErrorClass r = ''none''))"

lemma assert_sel:
  "xr_OK (assert_status n r) = xr_OK r"
  "xr_ErrorClass (assert_status n r) = (if xr_OK r then xr_ErrorClass r else ''status'')"
  "xr_OK (assert_no_challenge i r) = (xr_OK r \<and> \<not> isChallenge (ri_Header i))"
  "xr_ErrorClass (assert_no_challenge i r) = (if isChallenge (ri_Header i) then ''challenge'' else xr_ErrorClass r)"
  "xr_OK (assert_keyword k b r) = (xr_OK r \<and> contains b k)"
  "xr_ErrorClass (assert_keyword k b r) = (if xr_OK r \<and> \<not> contains b k then ''keyword_missing'' else xr_ErrorClass r)"
proof -
  have "contains b []" by (auto simp: contains_iff)
  then show "xr_OK (assert_keyword k b r) = (xr_OK r \<and> contains b k)"
    "xr_ErrorClass (assert_keyword k b r) = (if xr_OK r \<and> \<not> contains b k then ''keyword_missing'' else xr_ErrorClass r)"
    by (auto simp: assert_keyword_def)
qed (simp_all add: assert_status_def assert_no_challenge_def)

lemma reading_sel:
  "xr_OK (reading e spec r n) = (200 \<le> ri_StatusCode r \<and> ri_StatusCode r < 400)"
  "xr_ErrorClass (reading e spec r n) = ''none''"
  by (simp_all add: reading_def Let_def)

lemma read_expiry_sel:
  "xr_OK (read_expiry spec r res) = xr_OK res"
  "xr_ErrorClass (read_expiry spec r res) = xr_ErrorClass res"
  by (simp_all add: read_expiry_def split: option.split)

text \<open>What makes a response a success, and which failure it is otherwise.\<close>

lemma result_of_class:
  "xr_OK (result_of e spec r n) =
     (200 \<le> ri_StatusCode r \<and> ri_StatusCode r < 400 \<and> \<not> isChallenge (ri_Header r)
      \<and> contains (read_body spec r) (xs_Keyword spec))"
  "xr_ErrorClass (result_of e spec r n) =
     (if isChallenge (ri_Header r) then ''challenge''
      else if \<not> (200 \<le> ri_StatusCode r \<and> ri_StatusCode r < 400) then ''status''
      else if \<not> contains (read_body spec r) (xs_Keyword spec) then ''keyword_missing''
      else ''none'')"
  by (auto simp: result_of_def Let_def read_expiry_sel assert_sel reading_sel)

lemma errorResult_class:
  "xr_OK (errorResult x a b) = False"
  "xr_ErrorClass (errorResult x a b) \<in> {''timeout'', ''blocked_target'', ''dns'', ''tls'', ''connect''}"
  by (simp_all add: errorResult_def no_result_def)

text \<open>A check is a success exactly when its class is "none", and its class is one of the nine the wire knows.\<close>

theorem checks_are_well_classed: "well_classed (snd (Execute e g spec))"
proof -
  have ok: "well_classed (result_of e spec r n)" for r n
    by (cases "isChallenge (ri_Header r)"; cases "200 \<le> ri_StatusCode r \<and> ri_StatusCode r < 400";
        cases "contains (read_body spec r) (xs_Keyword spec)")
      (simp_all add: well_classed_def result_of_class error_classes_def)
  have err: "well_classed (errorResult x a b)" for x a b
    unfolding well_classed_def using errorResult_class [of x a b] by (auto simp: error_classes_def)
  have other: "well_classed (blockedResult x)" "well_classed (no_result\<lparr>xr_ErrorClass := ''connect'', xr_ErrorDetail := d\<rparr>)" for x d
    by (simp_all add: well_classed_def blockedResult_def no_result_def error_classes_def)
  show ?thesis
    unfolding Execute_def Let_def by (auto simp: ok err other split: option.split prod.split sum.split)
qed

lemma mapErrClass_roundtrip: "list_all (\<lambda>s. errClassStr (mapErrClass s) = s) error_classes"
  by (simp add: error_classes_def mapErrClass_def errClassStr_def)

section \<open>Classes the callers do not expect\<close>

text \<open>A check that got past its URL, and the request it makes.\<close>

definition starts :: "'r exec_env \<Rightarrow> bool \<Rightarrow> exec_spec \<Rightarrow> bool" where
  "starts e g spec \<longleftrightarrow>
     (g \<longrightarrow> CheckURL (ee_url e) (ee_ParseIP e) (xs_URL spec) = None)
     \<and> ee_NewRequest e (if xs_Method spec = [] then ''GET'' else xs_Method spec) (xs_URL spec) = None"

lemma Execute_starts:
  assumes "starts e g spec"
  shows "Execute e g spec =
     (case follow e g (if xs_Method spec = [] then ''GET'' else xs_Method spec) (max_redirects spec) []
             (xs_URL spec) [] of
        (dialed, Inl x) \<Rightarrow> (dialed, errorResult x (tr_start (ee_timing e)) (ee_end e))
      | (dialed, Inr (r, redirects)) \<Rightarrow> (dialed, result_of e spec r redirects))"
  using assms unfolding starts_def Execute_def Let_def by (cases g) simp_all

lemma contains_within: "contains s p \<Longrightarrow> contains (u @ s @ v) p"
  unfolding contains_iff by (metis append_assoc)

text \<open>A site whose name resolves into a private network is refused while it is dialled; yet when its URL holds the word
  "timeout" the refusal is reported as a timeout, because the class is read off the error's text and the text names the URL.\<close>

theorem timeout_in_the_URL_hides_the_block:
  assumes "starts e True spec" and "ee_ParseIP e (host_of e (xs_URL spec)) = None"
    and "ee_LookupIPAddr e (host_of e (xs_URL spec)) = Inr ips" and "list_ex blocked ips"
    and "contains (xs_URL spec) ''timeout''"
  shows "xr_ErrorClass (snd (Execute e True spec)) = ''timeout''"
proof -
  let ?u = "xs_URL spec" and ?m = "if xs_Method spec = [] then ''GET'' else xs_Method spec"
  let ?x = "guard_err (ee_parse_error e) (host_of e ?u) ErrBlockedTarget"
  have "DialContext e True (host_of e ?u) = Inl ?x"
    using assms(2-4) by (simp add: DialContext_def guarded_def CheckResolvedIPs_iff)
  then have "follow e True ?m (max_redirects spec) [] ?u [] = ([], Inl (url_error ?m ?u ?x))"
    by (simp add: follow.simps [of e True])
  moreover have "isTimeout (url_error ?m ?u ?x)"
    using contains_within [OF assms(5), of "take 1 ?m @ ToLower (drop 1 ?m) @ '' '' @ [DQUOTE]" "[DQUOTE] @ '': '' @ er_text ?x"]
    by (simp add: isTimeout_def url_error_def quoted_def)
  ultimately show ?thesis
    using Execute_starts [OF assms(1)] by (simp add: errorResult_def)
qed

text \<open>The sites of the witnesses: \<^verbatim>\<open>a.io\<close> sends its visitors to port 8443, \<^verbatim>\<open>timeout.io\<close> lives in a private network.\<close>

definition no_timing :: timingRecorder where
  "no_timing =
     \<lparr>tr_start = 0, tr_dnsAddrs = 1, tr_dnsStart = None, tr_dnsDone = None, tr_connectStart = None,
      tr_connectDone = None, tr_tlsStart = None, tr_tlsDone = None, tr_firstByte = None\<rparr>"

definition site_addresses :: "string \<Rightarrow> go_error + ip list" where
  "site_addresses h = Inr [if h = ''timeout.io'' then V4 (dotted 10 0 0 7) else V4 (dotted 93 184 216 34)]"

definition two_sites :: "unit exec_env" where
  "two_sites =
     \<lparr>ee_url = plain_urls, ee_parse_error = (\<lambda>u. ''parse error''), ee_ParseIP = (\<lambda>h. None),
      ee_LookupIPAddr = site_addresses,
      ee_NewRequest = (\<lambda>m u. None),
      ee_hop = (\<lambda>via u. Redirected ''https://a.io:8443/''),
      ee_hash = (\<lambda>b. 0), ee_timing = no_timing, ee_end = 5000000\<rparr>"

definition plain_check :: "string \<Rightarrow> int \<Rightarrow> exec_spec" where
  "plain_check u redirects =
     \<lparr>xs_URL = u, xs_Method = [], xs_Keyword = [], xs_TimeoutMs = 10000, xs_MaxRedirects = redirects,
      xs_MaxBodyBytes = 0, xs_CollectExpiry = False, xs_CollectBody = False\<rparr>"

lemma resolves_two_sites: "resolves two_sites"
  by (simp add: resolves_def two_sites_def site_addresses_def)

lemma check_connects_to_no_blocked_address_witness:
  "list_all (\<lambda>ip. \<not> blocked ip) (fst (Execute two_sites True (plain_check ''https://a.io/'' 0)))"
  by (rule check_connects_to_no_blocked_address [OF resolves_two_sites])

lemma timeout_in_the_URL_hides_the_block_witness:
  "xr_ErrorClass (snd (Execute two_sites True (plain_check ''https://timeout.io/'' 0))) = ''timeout''"
proof (rule timeout_in_the_URL_hides_the_block)
  show "starts two_sites True (plain_check ''https://timeout.io/'' 0)" unfolding starts_def by code_simp
  show "ee_ParseIP two_sites (host_of two_sites (xs_URL (plain_check ''https://timeout.io/'' 0))) = None"
    by (simp add: two_sites_def)
  have "host_of two_sites (xs_URL (plain_check ''https://timeout.io/'' 0)) = ''timeout.io''" by code_simp
  then show "ee_LookupIPAddr two_sites (host_of two_sites (xs_URL (plain_check ''https://timeout.io/'' 0)))
      = Inr [V4 (dotted 10 0 0 7)]"
    by (simp add: two_sites_def site_addresses_def)
  show "list_ex blocked [V4 (dotted 10 0 0 7)]"
    by (simp add: blocked_def To4_def blocked_v4_def in_block_def dotted_def)
  show "contains (xs_URL (plain_check ''https://timeout.io/'' 0)) ''timeout''" by code_simp
qed

text \<open>A URL the guard refuses is a refusal when it is the check's own, and a failed connection when a redirect leads to it; and
  to the detector both are failures, which open an incident.\<close>

theorem refused_redirect_reads_as_an_outage:
  "xr_ErrorClass (snd (Execute two_sites True (plain_check ''https://a.io:8443/'' 0))) = ''blocked_target''
   \<and> xr_ErrorClass (snd (Execute two_sites True (plain_check ''https://a.io/'' 0))) = ''connect''
   \<and> result_outcome (on_the_wire target (blockedResult x)) = OutcomeFail"
proof (intro conjI)
  show "xr_ErrorClass (snd (Execute two_sites True (plain_check ''https://a.io:8443/'' 0))) = ''blocked_target''"
    by code_simp
  have host: "host_of two_sites ''https://a.io/'' = ''a.io''" by code_simp
  have "\<not> blocked (V4 (dotted 93 184 216 34))"
    by (simp add: blocked_def To4_def blocked_v4_def in_block_def dotted_def)
  then have dial: "DialContext two_sites True ''a.io'' = Inr (V4 (dotted 93 184 216 34))"
    by (simp add: DialContext_def two_sites_def site_addresses_def guarded_def CheckResolvedIPs_iff)
  have "CheckRedirect two_sites True 5 ''https://a.io:8443/'' [''https://a.io/'']
      = Some \<lparr>er_text = ''guard: port '' @ quoted ''8443'' @ '' not allowed'', er_deadline = False, er_blocked = False\<rparr>"
    by code_simp
  moreover have "ee_hop two_sites [] ''https://a.io/'' = Redirected ''https://a.io:8443/''"
    by (simp add: two_sites_def)
  ultimately obtain ips where f: "follow two_sites True ''GET'' 5 [] ''https://a.io/'' []
      = (ips, Inl (url_error ''GET'' ''https://a.io:8443/''
          \<lparr>er_text = ''guard: port '' @ quoted ''8443'' @ '' not allowed'', er_deadline = False, er_blocked = False\<rparr>))"
    using dial host
    by (cases rule: follow_cases [where e = two_sites and g = True and u = "''https://a.io/''" and verb = "''GET''" and m = 5 and via = "[]" and dialed = "[]"])
      (simp_all add: follow.simps [of two_sites True "''GET''" 5 "[]" "''https://a.io/''"])
  have "starts two_sites True (plain_check ''https://a.io/'' 0)" unfolding starts_def by code_simp
  moreover have "xr_ErrorClass (errorResult (url_error ''GET'' ''https://a.io:8443/''
      \<lparr>er_text = ''guard: port '' @ quoted ''8443'' @ '' not allowed'', er_deadline = False, er_blocked = False\<rparr>) s t)
      = ''connect''" for s t by code_simp
  moreover have "max_redirects (plain_check ''https://a.io/'' 0) = 5" "xs_URL (plain_check ''https://a.io/'' 0) = ''https://a.io/''"
      "xs_Method (plain_check ''https://a.io/'' 0) = []"
    by (simp_all add: plain_check_def max_redirects_def)
  ultimately show "xr_ErrorClass (snd (Execute two_sites True (plain_check ''https://a.io/'' 0))) = ''connect''"
    using f by (simp add: Execute_starts)
  show "result_outcome (on_the_wire target (blockedResult x)) = OutcomeFail"
    by (simp add: result_outcome_def on_the_wire_def blockedResult_def no_result_def mapErrClass_def
        errClassStr_def Unmeasured_def)
qed

text \<open>The pause a host asks for is cut to 32 bits: one above \<open>2\<^sup>32\<close> becomes one second.\<close>

theorem long_pause_wraps: "retry_after (\<lambda>h. ''4294967297'') = 1"
proof -
  have "TrimSpace ''4294967297'' = ''4294967297''" by code_simp
  moreover have "ParseInt ''4294967297'' = Some 4294967297"
    by (simp add: ParseInt_def is_digit_byte min_int64_def max_int64_def)
  ultimately show ?thesis by (simp add: retry_after_def Let_def int32_def)
qed

section \<open>The discovery's requests\<close>

text \<open>The executor as the discovery's prober.\<close>

definition check_of :: "FetchSpec \<Rightarrow> exec_spec" where
  "check_of s =
     \<lparr>xs_URL = fs_URL s, xs_Method = fs_Method s, xs_Keyword = [], xs_TimeoutMs = fs_TimeoutMs s,
      xs_MaxRedirects = fs_MaxRedirects s, xs_MaxBodyBytes = fs_MaxBodyBytes s, xs_CollectExpiry = False,
      xs_CollectBody = fs_CollectBody s\<rparr>"

definition fetched :: "exec_result \<Rightarrow> FetchResult" where
  "fetched r =
     \<lparr>fr_OK = xr_OK r, fr_StatusCode = xr_StatusCode r, fr_ErrorClass = xr_ErrorClass r,
      fr_TotalMs = xr_TotalMs r, fr_Header = xr_Header r, fr_Body = xr_Body r\<rparr>"

definition probed_by :: "'r exec_env \<Rightarrow> surroundings" where
  "probed_by e =
     \<lparr>reply = (\<lambda>asked s. fetched (snd (Execute e True (check_of s)))),
      out_of_time = (\<lambda>asked. False), addresses = (\<lambda>h. None)\<rparr>"

lemma error_status: "xr_StatusCode (errorResult x a b) = 0"
  by (simp add: errorResult_def no_result_def)

lemma one_redirect_is_an_error:
  assumes "starts e g spec" and "xs_MaxRedirects spec = 1" and "ee_hop e [] (xs_URL spec) = Redirected u'"
  shows "xr_StatusCode (snd (Execute e g spec)) = 0"
proof -
  let ?m = "if xs_Method spec = [] then ''GET'' else xs_Method spec"
  have "\<exists>x dialed. follow e g ?m (max_redirects spec) [] (xs_URL spec) [] = (dialed, Inl x)"
    using assms(2,3) by (auto simp: follow.simps [of e g] max_redirects_def CheckRedirect_def split: sum.split)
  then show ?thesis
    using Execute_starts [OF assms(1)] by (auto simp: error_status)
qed

text \<open>A site that redirects its missing pages is not asked further, as the discovery means it; but the redirect limit of
  one makes the executor report an error, so the error page is unmeasured, not answered by the redirect.\<close>

theorem redirected_error_page_is_unmeasured:
  assumes "starts e True (check_of (get (site @ missingPath) 1))"
    and "ee_hop e [] (site @ missingPath) = Redirected u'"
  shows "snd (run_in (probed_by e) (probeErrorPage site) []) = None"
proof -
  have "xr_StatusCode (snd (Execute e True (check_of (get (site @ missingPath) 1)))) = 0"
    using one_redirect_is_an_error [OF assms(1)] assms(2) by (simp add: check_of_def get_def)
  then show ?thesis
    by (simp add: probeErrorPage_def probed_by_def fetched_def)
qed

lemma redirected_error_page_is_unmeasured_witness:
  "snd (run_in (probed_by two_sites) (probeErrorPage ''https://a.io'') []) = None"
proof (rule redirected_error_page_is_unmeasured)
  show "starts two_sites True (check_of (get (''https://a.io'' @ missingPath) 1))"
    unfolding starts_def by code_simp
  show "ee_hop two_sites [] (''https://a.io'' @ missingPath) = Redirected ''https://a.io:8443/''"
    by (simp add: two_sites_def)
qed

text \<open>
  Most of the discovery's requests allow two, that is follow one redirect, and nobody looks where it leads: whatever host the first reply names, if the guard
  admits it the executor connects to it.
\<close>

lemma followed_redirect_leaves_the_site:
  assumes "starts e True (check_of s)" and "fs_MaxRedirects s = 2"
    and "DialContext e True (host_of e (fs_URL s)) = Inr ip" and "ee_hop e [] (fs_URL s) = Redirected u'"
    and "CheckURL (ee_url e) (ee_ParseIP e) u' = None" and "DialContext e True (host_of e u') = Inr ip'"
  shows "fst (Execute e True (check_of s)) = [ip, ip']"
proof -
  let ?m = "if fs_Method s = [] then ''GET'' else fs_Method s"
  have hop: "CheckRedirect e True 2 u' [fs_URL s] = None"
    using assms(5) by (simp add: CheckRedirect_def)
  have tail: "fst (follow e True ?m 2 [fs_URL s] u' [ip]) = [ip, ip']"
    using assms(6) by (auto simp: follow.simps [of e True _ 2 "[fs_URL s]"] CheckRedirect_def split: hop.split)
  have "follow e True ?m 2 [] (fs_URL s) [] = follow e True ?m 2 [fs_URL s] u' [ip]"
    using assms(3,4) hop by (simp add: follow.simps [of e True _ 2 "[]"])
  with tail have "fst (follow e True ?m 2 [] (fs_URL s) []) = [ip, ip']" by (simp only:)
  moreover have "max_redirects (check_of s) = 2" "xs_URL (check_of s) = fs_URL s" "xs_Method (check_of s) = fs_Method s"
    using assms(2) by (simp_all add: max_redirects_def check_of_def)
  ultimately show ?thesis
    using Execute_starts [OF assms(1)] by (auto split: prod.splits sum.splits)
qed

end
