(* ===== verification/TargetKey.thy ===== *)
theory TargetKey
  imports GoUrl
begin

text \<open>
  The identity of a probe target, \<^verbatim>\<open>back/internal/targetkey/targetkey.go\<close>: one URL is checked once for
  everybody, and equal keys share the check. \<^verbatim>\<open>url.Parse\<close> and \<^verbatim>\<open>idna.Lookup.ToASCII\<close> are parameters.
\<close>

definition key_sep :: char where "key_sep = CHR 0x1F"

text \<open>\<^verbatim>\<open>join\<close>: the separator and NUL are stripped from every part first.\<close>

definition clean_part :: "string \<Rightarrow> string" where
  "clean_part p = filter (\<lambda>c. c \<noteq> CHR 0x00) (filter (\<lambda>c. c \<noteq> key_sep) p)"

fun join_parts :: "string list \<Rightarrow> string" where
  "join_parts [] = []"
| "join_parts [p] = p"
| "join_parts (p # ps) = p @ key_sep # join_parts ps"

definition join_key :: "string list \<Rightarrow> string" where
  "join_key parts = join_parts (map clean_part parts)"

text \<open>\<^verbatim>\<open>hasScheme\<close>: letters, then letters, digits, plus, minus and dots, up to \<^verbatim>\<open>://\<close>.\<close>

definition scheme_char :: "bool \<Rightarrow> char \<Rightarrow> bool" where
  "scheme_char first c \<longleftrightarrow>
     is_lower c \<or> \<not> first \<and> (is_digit c \<or> c = CHR ''+'' \<or> c = CHR ''-'' \<or> c = CHR ''.'')"

definition hasScheme :: "string \<Rightarrow> bool" where
  "hasScheme s =
     (case str_index s ''://'' of
        None \<Rightarrow> False
      | Some i \<Rightarrow>
          (case ToLower (take i s) of
             [] \<Rightarrow> False
           | c # cs \<Rightarrow> scheme_char True c \<and> list_all (scheme_char False) cs))"

definition default_port :: "string \<Rightarrow> string \<Rightarrow> bool" where
  "default_port scheme port \<longleftrightarrow> scheme = ''https'' \<and> port = ''443'' \<or> scheme = ''http'' \<and> port = ''80''"

datatype key_error = EmptyURL | ParseError | NoHost

definition NormalizeURL ::
    "'r url_lib \<Rightarrow> (string \<Rightarrow> string option) \<Rightarrow> string \<Rightarrow> key_error + string" where
  "NormalizeURL W ToASCII raw =
     (let s = TrimSpace raw in
      if s = [] then Inl EmptyURL
      else
        let s = (if \<not> hasScheme s then ''https://'' @ s else s) in
        case url_Parse W s of
          None \<Rightarrow> Inl ParseError
        | Some u \<Rightarrow>
            if u_Host u = [] then Inl NoHost
            else
              let scheme = ToLower (u_Scheme u);
                  host = ToLower (Hostname u)
              in if host = [] then Inl NoHost
                 else
                   let host = (case ToASCII host of Some a \<Rightarrow> ToLower a | None \<Rightarrow> host);
                       host = trim_prefix host ''www.'';
                       port = Port u;
                       hostPart = (if port \<noteq> [] \<and> \<not> default_port scheme port
                                   then JoinHostPort host port else host);
                       path = (if u_Path u = ''/'' \<and> u_RawQuery u = [] then [] else u_Path u);
                       out = scheme @ ''://'' @ hostPart @ path
                   in Inr (if u_RawQuery u \<noteq> [] then out @ ''?'' @ u_RawQuery u else out))"

definition Website :: "'r url_lib \<Rightarrow> (string \<Rightarrow> string option) \<Rightarrow> string \<Rightarrow> string \<Rightarrow> string" where
  "Website W ToASCII rawURL keyword =
     join_key [''website'',
               case NormalizeURL W ToASCII rawURL of Inr n \<Rightarrow> n | Inl _ \<Rightarrow> rawURL,
               keyword]"

definition Heartbeat :: "string \<Rightarrow> string" where
  "Heartbeat monitorPublicID = join_key [''heartbeat'', ToLower monitorPublicID]"

section \<open>The parts of a key\<close>

lemma clean_part_no_sep: "key_sep \<notin> set (clean_part p)"
  by (simp add: clean_part_def)

lemma split_byte_append:
  "d \<notin> set p \<Longrightarrow> split_byte d (p @ d # s) = p # split_byte d s"
  by (induction p) auto

lemma split_byte_none: "d \<notin> set p \<Longrightarrow> split_byte d p = [p]"
  by (induction p) auto

lemma split_join_parts:
  "ps \<noteq> [] \<Longrightarrow> list_all (\<lambda>p. key_sep \<notin> set p) ps \<Longrightarrow> split_byte key_sep (join_parts ps) = ps"
  by (induction ps rule: join_parts.induct) (auto simp: split_byte_append split_byte_none)

text \<open>A key is read back by splitting it at its separator: the parts are the kind, the URL and the keyword as they were
  given, without separators and NULs. So two keys are equal exactly when their cleaned parts are, and
  no smuggled separator moves the boundary between the URL and the keyword.\<close>

theorem keys_split_into_their_parts:
  "split_byte key_sep (Website W ToASCII rawURL keyword)
     = [''website'', clean_part (case NormalizeURL W ToASCII rawURL of Inr n \<Rightarrow> n | Inl _ \<Rightarrow> rawURL), clean_part keyword]
   \<and> split_byte key_sep (Heartbeat pid) = [''heartbeat'', clean_part (ToLower pid)]"
proof -
  have kinds: "clean_part ''website'' = ''website''" "clean_part ''heartbeat'' = ''heartbeat''"
    by (simp_all add: clean_part_def key_sep_def)
  have "split_byte key_sep (join_key (p # ps)) = map clean_part (p # ps)" for p ps
    unfolding join_key_def by (rule split_join_parts) (auto simp: list_all_iff clean_part_no_sep)
  then show ?thesis by (simp add: Website_def Heartbeat_def kinds)
qed

section \<open>Different fetches under one key\<close>

text \<open>The fields \<^verbatim>\<open>url.Parse\<close> gives for \<^verbatim>\<open>https://host/path?query\<close>.\<close>

definition https_url :: "string \<Rightarrow> string \<Rightarrow> string \<Rightarrow> unit url" where
  "https_url host path query =
     \<lparr>u_Scheme = ''https'', u_Host = host, u_Path = path, u_RawQuery = query, u_Fragment = [], u_rest = ()\<rparr>"

text \<open>Normalising a URL can change what is fetched. \<^verbatim>\<open>url.Parse\<close> hands over the decoded path, which the
  normaliser writes out as it is: an escaped question mark becomes the query's, and the two URLs are one target.\<close>

theorem escaped_path_becomes_a_query:
  assumes "url_Parse W ''https://a.io/x%3Fy'' = Some (https_url ''a.io'' ''/x?y'' [])"
    and "url_Parse W ''https://a.io/x?y'' = Some (https_url ''a.io'' ''/x'' ''y'')"
    and "ToASCII ''a.io'' = Some ''a.io''"
  shows "NormalizeURL W ToASCII ''https://a.io/x%3Fy'' = Inr ''https://a.io/x?y''
     \<and> Website W ToASCII ''https://a.io/x%3Fy'' k = Website W ToASCII ''https://a.io/x?y'' k"
proof -
  have trim: "TrimSpace ''https://a.io/x%3Fy'' = ''https://a.io/x%3Fy''" "TrimSpace ''https://a.io/x?y'' = ''https://a.io/x?y''"
    by code_simp+
  have scheme: "hasScheme ''https://a.io/x%3Fy''" "hasScheme ''https://a.io/x?y''" by code_simp+
  have host: "Hostname (https_url ''a.io'' p q) = ''a.io''" "Port (https_url ''a.io'' p q) = []" for p q
    by (simp_all add: Hostname_def Port_def https_url_def splitHostPort_def Let_def has_prefix_def)
  have low: "ToLower ''a.io'' = ''a.io''" "ToLower ''https'' = ''https''" "trim_prefix ''a.io'' ''www.'' = ''a.io''"
    by code_simp+
  have "NormalizeURL W ToASCII ''https://a.io/x%3Fy'' = Inr ''https://a.io/x?y''"
    by (simp add: NormalizeURL_def trim scheme assms host low Let_def)
      (simp add: https_url_def low)
  moreover have "NormalizeURL W ToASCII ''https://a.io/x?y'' = Inr ''https://a.io/x?y''"
    by (simp add: NormalizeURL_def trim scheme assms host low Let_def)
      (simp add: https_url_def low)
  ultimately show ?thesis by (simp add: Website_def)
qed

definition two_urls :: "unit url_lib" where
  "two_urls =
     \<lparr>url_Parse = (\<lambda>s. if s = ''https://a.io/x%3Fy'' then Some (https_url ''a.io'' ''/x?y'' [])
                      else if s = ''https://a.io/x?y'' then Some (https_url ''a.io'' ''/x'' ''y'')
                      else None),
      url_String = u_Host, url_Resolve = (\<lambda>a b. b)\<rparr>"

lemma escaped_path_becomes_a_query_witness:
  "Website two_urls Some ''https://a.io/x%3Fy'' [] = Website two_urls Some ''https://a.io/x?y'' []"
  using escaped_path_becomes_a_query [of two_urls Some "[]"] by (simp add: two_urls_def)

text \<open>An IPv6 literal loses its brackets, and a registrable name that is \<^verbatim>\<open>www\<close> its first label.\<close>

theorem ipv6_literal_loses_its_brackets:
  assumes "url_Parse W ''https://[2606:4700::1111]/'' = Some (https_url ''[2606:4700::1111]'' ''/'' [])" and "ToASCII ''2606:4700::1111'' = None"
  shows "NormalizeURL W ToASCII ''https://[2606:4700::1111]/'' = Inr ''https://2606:4700::1111''"
proof -
  have facts: "TrimSpace ''https://[2606:4700::1111]/'' = ''https://[2606:4700::1111]/''" "hasScheme ''https://[2606:4700::1111]/''"
      "Hostname (https_url ''[2606:4700::1111]'' ''/'' []) = ''2606:4700::1111''" "Port (https_url ''[2606:4700::1111]'' ''/'' []) = []"
      "ToLower ''2606:4700::1111'' = ''2606:4700::1111''" "ToLower ''https'' = ''https''" "trim_prefix ''2606:4700::1111'' ''www.'' = ''2606:4700::1111''"
    by code_simp+
  show ?thesis
    by (simp add: NormalizeURL_def facts assms Let_def) (simp add: https_url_def facts)
qed

end
