(* ===== verification/Platform.thy ===== *)
theory Platform
  imports Prelude GoTime
begin

text \<open>
  The process around the handlers: the cached health checks of \<^verbatim>\<open>back/internal/platform/health\<close> as
  \<^verbatim>\<open>platform/app\<close> drives them, the teardown of \<^verbatim>\<open>platform/shutdown\<close>, and the tasks \<^verbatim>\<open>cmd/ucapi\<close> gives it.
\<close>

section \<open>Health\<close>

definition StatusOK_h :: string where "StatusOK_h = ''ok''"
definition StatusDown_h :: string where "StatusDown_h = ''down''"

record health_result =
  he_Status :: string
  he_Checks :: "(string \<times> string) list"

record cacheEntry =
  ce_at :: time
  ce_err :: "string option"

record Checker =
  hc_ttl :: duration
  hc_checks :: "string list"
  hc_cache :: "(string \<times> cacheEntry) list"

definition New_checker :: "duration \<Rightarrow> Checker" where
  "New_checker ttl =
     \<lparr>hc_ttl = (if ttl \<le> 0 then 5 * second else ttl), hc_checks = [], hc_cache = []\<rparr>"

definition Register_check :: "string \<Rightarrow> Checker \<Rightarrow> Checker" where
  "Register_check name c =
     (if name \<in> set (hc_checks c) then c else c\<lparr>hc_checks := hc_checks c @ [name]\<rparr>)"

text \<open>How a probe ends: it returns, panics, or is still running at its timeout (two seconds when none is given).\<close>

datatype probe_end = Returned "string option" | Panicked | Hung

definition probe_timeout :: "duration \<Rightarrow> duration" where
  "probe_timeout timeout = (if timeout \<le> 0 then 2 * second else timeout)"

definition runOne :: "probe_end \<Rightarrow> string option" where
  "runOne p =
     (case p of
        Returned err \<Rightarrow> err
      | Panicked \<Rightarrow> Some ''health check panicked''
      | Hung \<Rightarrow> Some ''context deadline exceeded'')"

text \<open>\<^verbatim>\<open>Run\<close>: the probes one after the other; each is stamped when it has ended.\<close>

fun Run_checks :: "(string \<Rightarrow> time \<times> probe_end) \<Rightarrow> string list \<Rightarrow> Checker \<Rightarrow> Checker" where
  "Run_checks ends [] c = c"
| "Run_checks ends (name # names) c =
     (case ends name of (at, p) \<Rightarrow>
        Run_checks ends names
          (c\<lparr>hc_cache := AList.update name \<lparr>ce_at = at, ce_err = runOne p\<rparr> (hc_cache c)\<rparr>))"

definition Run_all :: "(string \<Rightarrow> time \<times> probe_end) \<Rightarrow> Checker \<Rightarrow> Checker" where
  "Run_all ends c = Run_checks ends (hc_checks c) c"

definition fresh_failure :: "Checker \<Rightarrow> time \<Rightarrow> cacheEntry \<Rightarrow> bool" where
  "fresh_failure c now e \<longleftrightarrow> ce_err e \<noteq> None \<and> Sub now (ce_at e) \<le> hc_ttl c"

definition Snapshot :: "Checker \<Rightarrow> time \<Rightarrow> health_result" where
  "Snapshot c now =
     \<lparr>he_Status = (if list_ex (\<lambda>(name, e). fresh_failure c now e) (hc_cache c) then StatusDown_h else StatusOK_h),
      he_Checks = map (\<lambda>(name, e). (name, if ce_err e \<noteq> None then StatusDown_h else StatusOK_h)) (hc_cache c)\<rparr>"

definition health_code :: "health_result \<Rightarrow> int" where
  "health_code res = (if he_Status res = StatusDown_h then 503 else 200)"

lemma cache_after_run:
  "distinct names \<Longrightarrow>
   map_of (hc_cache (Run_checks ends names c)) name =
     (if name \<in> set names then Some \<lparr>ce_at = fst (ends name), ce_err = runOne (snd (ends name))\<rparr>
      else map_of (hc_cache c) name)"
  by (induction names arbitrary: c) (auto simp: update_conv split: prod.split)

lemma run_keeps_checks: "hc_ttl (Run_checks ends names c) = hc_ttl c"
  by (induction names arbitrary: c) (auto split: prod.split)

lemma distinct_cache: "distinct (map fst (hc_cache c)) \<Longrightarrow> distinct (map fst (hc_cache (Run_checks ends names c)))"
  by (induction names arbitrary: c) (auto simp: distinct_update split: prod.split)

lemma snapshot_status:
  assumes "distinct (map fst (hc_cache c))"
  shows "he_Status (Snapshot c now) = StatusDown_h \<longleftrightarrow>
           (\<exists>name e. map_of (hc_cache c) name = Some e \<and> fresh_failure c now e)"
  using assms
  by (auto simp: Snapshot_def StatusDown_h_def StatusOK_h_def list_ex_iff dest: map_of_SomeD)

text \<open>Between two rounds of probes that both fail, the service is reported healthy as soon as the first
  failure is older than the cache's lifetime: an outage that goes on turns the answer from 503 to 200 and
  back, while the single checks are still listed as down.\<close>

theorem outage_reads_ok_between_rounds:
  assumes "hc_checks c = [name]" and "hc_cache c = []" and "0 \<le> hc_ttl c"
    and "runOne p \<noteq> None" and "runOne p' \<noteq> None" and "hc_ttl c < Sub now t"
  shows "health_code (Snapshot (Run_all (\<lambda>_. (t, p)) c) t) = 503
     \<and> health_code (Snapshot (Run_all (\<lambda>_. (t, p)) c) now) = 200
     \<and> he_Checks (Snapshot (Run_all (\<lambda>_. (t, p)) c) now) = [(name, StatusDown_h)]
     \<and> health_code (Snapshot (Run_all (\<lambda>_. (t', p')) (Run_all (\<lambda>_. (t, p)) c)) t') = 503"
proof -
  have self: "Sub t t = 0" for t by (simp add: Sub_def min_int64_def max_int64_def)
  show ?thesis
    using assms
    by (simp add: Run_all_def Snapshot_def health_code_def fresh_failure_def StatusDown_h_def StatusOK_h_def self)
qed

text \<open>With the cadence of \<^verbatim>\<open>app.Run\<close>, five seconds and a timeout of two: a refused ping at 0, a hung one from 5
  to 7, and the answer at 6.\<close>

lemma outage_reads_ok_between_rounds_witness:
  "health_code (Snapshot (Run_all (\<lambda>_. (0, Returned (Some ''refused''))) (Register_check ''postgres'' (New_checker (5 * second))))
     (6 * second)) = 200"
proof -
  let ?c = "Register_check ''postgres'' (New_checker (5 * second))"
  have "hc_checks ?c = [''postgres'']" "hc_cache ?c = []" "hc_ttl ?c = 5 * second"
    by (simp_all add: Register_check_def New_checker_def second_def)
  moreover have "5 * second < Sub (6 * second) 0" "0 \<le> 5 * second"
    by (simp_all add: second_def Sub_def min_int64_def max_int64_def)
  ultimately show ?thesis
    using outage_reads_ok_between_rounds [of ?c "''postgres''" "Returned (Some ''refused'')" Hung "6 * second" 0 "7 * second"]
    by (simp add: runOne_def)
qed

section \<open>Shutdown\<close>

text \<open>
  \<^verbatim>\<open>Shutdown\<close> starts every task and, once all have reported or the deadline has passed, drains what was
  reported. \<open>reported\<close> are the names that had arrived by then; the error names the others.
\<close>

definition unfinished :: "string list \<Rightarrow> string list \<Rightarrow> string list" where
  "unfinished tasks reported = filter (\<lambda>name. name \<notin> set reported) tasks"

definition Shutdown :: "string list \<Rightarrow> string list \<Rightarrow> string list option" where
  "Shutdown tasks reported =
     (if unfinished tasks reported \<noteq> [] then Some (unfinished tasks reported) else None)"

text \<open>The names of the tasks that reported, of tasks told apart by their position.\<close>

definition reported_names :: "string list \<Rightarrow> (nat \<Rightarrow> bool) \<Rightarrow> string list" where
  "reported_names tasks done_by = map (\<lambda>i. tasks ! i) (filter done_by [0..<length tasks])"

lemma in_reported:
  "name \<in> set (reported_names tasks done_by) \<longleftrightarrow> (\<exists>i < length tasks. done_by i \<and> tasks ! i = name)"
  by (auto simp: reported_names_def)

text \<open>With distinct names the error lists exactly the tasks that had not reported; two tasks of one name
  hide each other, so a process can exit cleanly with a task abandoned.\<close>

theorem shutdown_names_the_unfinished:
  assumes "distinct tasks"
  shows "set (unfinished tasks (reported_names tasks done_by)) = {tasks ! i |i. i < length tasks \<and> \<not> done_by i}
     \<and> (Shutdown tasks (reported_names tasks done_by) = None \<longleftrightarrow> (\<forall>i < length tasks. done_by i))
     \<and> Shutdown [''flush'', ''flush''] (reported_names [''flush'', ''flush''] (\<lambda>i. i = 0)) = None"
proof -
  have other: "tasks ! i \<in> set (reported_names tasks done_by) \<longleftrightarrow> done_by i" if "i < length tasks" for i
    using that assms by (auto simp: in_reported nth_eq_iff_index_eq)
  have left: "set (unfinished tasks (reported_names tasks done_by)) = {tasks ! i |i. i < length tasks \<and> \<not> done_by i}"
    using other by (auto simp: unfinished_def in_set_conv_nth)
  moreover have "Shutdown tasks (reported_names tasks done_by) = None \<longleftrightarrow> (\<forall>i < length tasks. done_by i)"
  proof -
    have "Shutdown tasks (reported_names tasks done_by) = None
        \<longleftrightarrow> set (unfinished tasks (reported_names tasks done_by)) = {}"
      by (simp add: Shutdown_def)
    with left show ?thesis by auto
  qed
  moreover have "Shutdown [''flush'', ''flush''] (reported_names [''flush'', ''flush''] (\<lambda>i. i = 0)) = None"
    by code_simp
  ultimately show ?thesis by blast
qed

lemma shutdown_names_the_unfinished_witness:
  "set (unfinished [''http'', ''batcher''] (reported_names [''http'', ''batcher''] (\<lambda>i. i = 0)))
     = {[''http'', ''batcher''] ! i |i. i < 2 \<and> i \<noteq> 0}"
  using shutdown_names_the_unfinished [of "[''http'', ''batcher'']" "\<lambda>i. i = 0"] by (simp add: numeral_2_eq_2)

section \<open>The teardown of ucapi\<close>

text \<open>
  What \<^verbatim>\<open>cmd/ucapi\<close> registers, as steps: the pool's task drains the recorder and then closes the pool; the batcher's
  flushes the rows it holds. A write needs the open pool, and the close waits for no later one.
\<close>

datatype teardown_step = DrainRecorder | ClosePool | FlushBatcher

record process =
  po_open :: bool
  po_events :: "string list"
  po_rows :: "string list"
  po_recorded :: "string list"
  po_stored :: "string list"

definition serving :: "string list \<Rightarrow> string list \<Rightarrow> process" where
  "serving events rows =
     \<lparr>po_open = True, po_events = events, po_rows = rows, po_recorded = [], po_stored = []\<rparr>"

fun teardown_do :: "teardown_step \<Rightarrow> process \<Rightarrow> process" where
  "teardown_do DrainRecorder p =
     p\<lparr>po_events := [], po_recorded := (if po_open p then po_recorded p @ po_events p else po_recorded p)\<rparr>"
| "teardown_do ClosePool p = p\<lparr>po_open := False\<rparr>"
| "teardown_do FlushBatcher p =
     p\<lparr>po_rows := [], po_stored := (if po_open p then po_stored p @ po_rows p else po_stored p)\<rparr>"

definition pg_pool_task :: "teardown_step list" where "pg_pool_task = [DrainRecorder, ClosePool]"
definition batcher_task :: "teardown_step list" where "batcher_task = [FlushBatcher]"

definition teardown :: "teardown_step list \<Rightarrow> process \<Rightarrow> process" where
  "teardown order p = fold teardown_do order p"

text \<open>The recorder's events survive every interleaving of the teardown, since one task drains them and then closes the
  pool; the rows the batcher still holds, already answered as accepted, are stored or lost by the
  order in which the tasks happen to run, and the shutdown reports no unfinished task either way.\<close>

theorem teardown_can_lose_accepted_rows:
  "(\<lambda>order. po_recorded (teardown order (serving events rows))) ` shuffles pg_pool_task batcher_task = {events}
   \<and> (\<lambda>order. po_stored (teardown order (serving events rows))) ` shuffles pg_pool_task batcher_task = {rows, []}
   \<and> Shutdown [''pg-pool'', ''batcher''] [''pg-pool'', ''batcher''] = None"
proof -
  have "shuffles pg_pool_task batcher_task =
      {[DrainRecorder, ClosePool, FlushBatcher], [DrainRecorder, FlushBatcher, ClosePool],
       [FlushBatcher, DrainRecorder, ClosePool]}"
    by (auto simp: pg_pool_task_def batcher_task_def)
  moreover have "Shutdown [''pg-pool'', ''batcher''] [''pg-pool'', ''batcher''] = None" by code_simp
  ultimately show ?thesis by (auto simp: teardown_def serving_def)
qed

end
