(* ===== verification/Webhook.thy ===== *)
theory Webhook
  imports GoUrl Json Utf8
begin

text \<open>
  Inbound webhooks, \<^verbatim>\<open>back/internal/source/webhook/webhook.go\<close>: the signature checks, the reading of an event
  out of a payload, its name, and the two routes, a provider's and a connection token's, with the
  table of deliveries already seen. SHA-256 and its HMAC, the JSON decoder, \<^verbatim>\<open>time.Parse\<close>, the
  conversion of a \<^verbatim>\<open>float64\<close> and Unicode case mapping are parameters.
\<close>

section \<open>Surroundings\<close>

record hook_env =
  he_unmarshal :: "string \<Rightarrow> jobj option"
  he_rfc3339 :: "string \<Rightarrow> time option"
  he_int64 :: "string \<Rightarrow> int"
  he_sha256 :: "string \<Rightarrow> string"
  he_hmac :: "string \<Rightarrow> string \<Rightarrow> string"
  he_lower :: "string \<Rightarrow> string"
  he_upper :: "string \<Rightarrow> string"
  he_now :: time

type_synonym headers = "string \<Rightarrow> string"

definition str_field :: "jobj \<Rightarrow> string \<Rightarrow> string option" where
  "str_field raw k = (case map_of raw k of Some (JStr s) \<Rightarrow> Some s | _ \<Rightarrow> None)"

definition obj_field :: "jobj \<Rightarrow> string \<Rightarrow> jobj option" where
  "obj_field raw k = (case map_of raw k of Some (JObj x) \<Rightarrow> Some x | _ \<Rightarrow> None)"

text \<open>The first of the fields that is a non-empty string.\<close>

fun first_field :: "jobj \<Rightarrow> string list \<Rightarrow> string option" where
  "first_field raw [] = None"
| "first_field raw (k # ks) =
     (case str_field raw k of
        Some s \<Rightarrow> if s \<noteq> [] then Some s else first_field raw ks
      | None \<Rightarrow> first_field raw ks)"

section \<open>Names\<close>

definition name_char :: "nat \<Rightarrow> char" where
  "name_char r = (if 97 \<le> r \<and> r \<le> 122 \<or> 48 \<le> r \<and> r \<le> 57 then char_of r else CHR ''_'')"

text \<open>\<^verbatim>\<open>strings.ReplaceAll(out, "__", "_")\<close>, and the loop that repeats it.\<close>

fun halve :: "string \<Rightarrow> string" where
  "halve (a # b # s) = (if a = CHR ''_'' \<and> b = CHR ''_'' then CHR ''_'' # halve s else a # halve (b # s))"
| "halve s = s"

lemma halve_le: "length (halve s) \<le> length s"
  by (induction s rule: halve.induct) auto

lemma halve_less: "contains s ''__'' \<Longrightarrow> length (halve s) < length s"
proof (induction s rule: halve.induct)
  case (1 a b s)
  show ?case
  proof (cases "a = CHR ''_'' \<and> b = CHR ''_''")
    case True
    then show ?thesis using halve_le [of s] by simp
  next
    case False
    then have "contains (b # s) ''__''"
      using "1.prems" by (auto simp: contains_def has_prefix_def split: if_splits)
    with False "1.IH"(2) show ?thesis by auto
  qed
qed (auto simp: contains_def has_prefix_def)

function squeeze :: "string \<Rightarrow> string" where
  "squeeze s = (if contains s ''__'' then squeeze (halve s) else s)"
  by pat_completeness auto
termination
  by (relation "measure length") (auto simp: halve_less)

declare squeeze.simps [simp del]

definition sanitizeEventName :: "hook_env \<Rightarrow> string \<Rightarrow> string" where
  "sanitizeEventName e s =
     (let out = squeeze (Trim_byte CHR ''_'' (map name_char (runes (he_lower e s))))
      in if out = [] then ''webhook''
         else if 64 < length out then take 64 out
         else out)"

definition githubEventName :: "hook_env \<Rightarrow> string \<Rightarrow> jobj \<Rightarrow> string" where
  "githubEventName e event raw =
     (let name = ''github_'' @ event;
          name = (case str_field raw ''action'' of
                    Some a \<Rightarrow> if a \<noteq> [] then name @ ''_'' @ a else name
                  | None \<Rightarrow> name)
      in sanitizeEventName e name)"

definition genericEventName :: "hook_env \<Rightarrow> jobj \<Rightarrow> string \<Rightarrow> string" where
  "genericEventName e raw kind =
     (case first_field raw [''event'', ''type'', ''action'', ''event_type''] of
        Some s \<Rightarrow> sanitizeEventName e s
      | None \<Rightarrow> if kind \<noteq> [] then sanitizeEventName e kind else ''webhook'')"

definition normalizeStripeEvent :: "string \<Rightarrow> string" where
  "normalizeStripeEvent t =
     (if contains t ''payment_intent.succeeded'' then ''payment_succeeded''
      else if contains t ''payment_intent.payment_failed'' then ''payment_failed''
      else if contains t ''charge.refunded'' then ''refund_issued''
      else if contains t ''customer.subscription.deleted'' then ''subscription_cancelled''
      else if contains t ''customer.subscription.created'' then ''subscription_created''
      else ''stripe_'' @ map (\<lambda>c. if c = CHR ''.'' then CHR ''_'' else c) t)"

section \<open>Identity of a delivery\<close>

definition bodyHash :: "hook_env \<Rightarrow> string \<Rightarrow> string" where
  "bodyHash e body = he_sha256 e body"

definition genericEventID :: "hook_env \<Rightarrow> headers \<Rightarrow> jobj \<Rightarrow> string \<Rightarrow> string" where
  "genericEventID e h raw body =
     (if h ''X-GitHub-Delivery'' \<noteq> [] then h ''X-GitHub-Delivery''
      else case first_field raw [''id'', ''event_id'', ''uuid'', ''delivery_id''] of
             Some s \<Rightarrow> s
           | None \<Rightarrow> bodyHash e body)"

section \<open>Signatures\<close>

definition verifyHMACSHA256 :: "hook_env \<Rightarrow> string \<Rightarrow> string \<Rightarrow> string \<Rightarrow> bool" where
  "verifyHMACSHA256 e body secret expectedHex =
     (if expectedHex = [] then False
      else he_hmac e secret body = trim_prefix expectedHex ''sha256='')"

text \<open>The parts of a Stripe signature: a later part replaces an earlier one.\<close>

fun stripe_parts :: "string list \<Rightarrow> string \<times> string \<Rightarrow> string \<times> string" where
  "stripe_parts [] ts = ts"
| "stripe_parts (p # ps) (timestamp, signature) =
     (let part = TrimSpace p in
      if has_prefix part ''t='' then stripe_parts ps (drop 2 part, signature)
      else if has_prefix part ''v1='' then stripe_parts ps (timestamp, drop 3 part)
      else stripe_parts ps (timestamp, signature))"

definition verifyStripe :: "hook_env \<Rightarrow> string \<Rightarrow> string \<Rightarrow> string \<Rightarrow> bool" where
  "verifyStripe e sigHeader body secret =
     (let (timestamp, signature) = stripe_parts (split_byte CHR '','' sigHeader) ([], [])
      in if timestamp = [] \<or> signature = [] then False
         else verifyHMACSHA256 e (timestamp @ ''.'' @ body) secret signature)"

definition verifySignature :: "hook_env \<Rightarrow> string \<Rightarrow> headers \<Rightarrow> string \<Rightarrow> string \<Rightarrow> bool" where
  "verifySignature e provider h body secret =
     (if provider = ''stripe'' then verifyStripe e (h ''Stripe-Signature'') body secret
      else if provider = ''github'' then verifyHMACSHA256 e body secret (h ''X-Hub-Signature-256'')
      else if provider = ''vercel'' then verifyHMACSHA256 e body secret (h ''X-Vercel-Signature'')
      else False)"

section \<open>Events\<close>

record hook_event =
  hv_EventID :: string
  hv_TenantID :: int
  hv_ProjectID :: int
  hv_Name :: string
  hv_Timestamp :: time
  hv_Labels :: "(string \<times> string) list"
  hv_AmountMinor :: int
  hv_Currency :: string
  hv_HasAmount :: bool

definition parseEventID :: "string \<Rightarrow> jobj \<Rightarrow> string" where
  "parseEventID provider raw =
     (if provider = ''stripe'' then (case str_field raw ''id'' of Some i \<Rightarrow> i | None \<Rightarrow> [])
      else if provider = ''github'' \<or> provider = ''vercel''
      then (case str_field raw ''delivery_id'' of Some i \<Rightarrow> i | None \<Rightarrow> [])
      else [])"

definition parseEventName :: "string \<Rightarrow> jobj \<Rightarrow> string" where
  "parseEventName provider raw =
     (if provider = ''stripe'' then
        (case str_field raw ''type'' of Some t \<Rightarrow> normalizeStripeEvent t | None \<Rightarrow> ''unknown'')
      else if provider = ''github'' then
        (case str_field raw ''action'' of Some a \<Rightarrow> ''github_'' @ a | None \<Rightarrow> ''unknown'')
      else if provider = ''vercel'' then
        (case str_field raw ''type'' of Some t \<Rightarrow> ''vercel_'' @ t | None \<Rightarrow> ''unknown'')
      else ''unknown'')"

definition parseLabels :: "jobj \<Rightarrow> (string \<times> string) list" where
  "parseLabels raw =
     List.map_filter (\<lambda>(k, v). case v of JStr s \<Rightarrow> if length s < 256 then Some (k, s) else None | _ \<Rightarrow> None) raw"

definition toUnix :: "hook_env \<Rightarrow> json option \<Rightarrow> int" where
  "toUnix e v = (case v of Some (JNum n) \<Rightarrow> he_int64 e n | _ \<Rightarrow> 0)"

fun first_time :: "hook_env \<Rightarrow> jobj \<Rightarrow> string list \<Rightarrow> time option" where
  "first_time e raw [] = None"
| "first_time e raw (k # ks) =
     (case str_field raw k of
        Some s \<Rightarrow> (case he_rfc3339 e s of Some t \<Rightarrow> Some t | None \<Rightarrow> first_time e raw ks)
      | None \<Rightarrow> first_time e raw ks)"

fun first_unix :: "hook_env \<Rightarrow> jobj \<Rightarrow> string list \<Rightarrow> time option" where
  "first_unix e raw [] = None"
| "first_unix e raw (k # ks) =
     (if 0 < toUnix e (map_of raw k) then Some (Unix (toUnix e (map_of raw k)) 0)
      else first_unix e raw ks)"

definition parseEventTimestamp :: "hook_env \<Rightarrow> string \<Rightarrow> jobj \<Rightarrow> time" where
  "parseEventTimestamp e provider raw =
     (let found =
        (if provider = ''stripe'' then first_unix e raw [''created'']
         else if provider = ''github'' then first_time e raw [''created_at'']
         else if provider = ''vercel'' then first_time e raw [''createdAt'']
         else (case first_time e raw [''created_at'', ''createdAt'', ''timestamp''] of
                 Some t \<Rightarrow> Some t
               | None \<Rightarrow> first_unix e raw [''created'', ''timestamp'', ''ts'']))
      in case found of Some t \<Rightarrow> t | None \<Rightarrow> he_now e)"

definition parseStripeAmount :: "hook_env \<Rightarrow> jobj \<Rightarrow> (int \<times> string) option" where
  "parseStripeAmount e raw =
     (case obj_field raw ''data'' of
        None \<Rightarrow> None
      | Some data \<Rightarrow>
          (case obj_field data ''object'' of
             None \<Rightarrow> None
           | Some obj \<Rightarrow>
               (case map_of obj ''amount'' of
                  Some (JNum amt) \<Rightarrow>
                    Some (he_int64 e amt,
                          he_upper e (case str_field obj ''currency'' of Some c \<Rightarrow> c | None \<Rightarrow> []))
                | _ \<Rightarrow> None)))"

definition parseEventRaw :: "hook_env \<Rightarrow> string \<Rightarrow> string \<Rightarrow> (hook_event \<times> jobj) option" where
  "parseEventRaw e provider body =
     (case he_unmarshal e body of
        None \<Rightarrow> None
      | Some raw \<Rightarrow>
          let evt = \<lparr>hv_EventID = parseEventID provider raw, hv_TenantID = 0, hv_ProjectID = 0,
                     hv_Name = parseEventName provider raw,
                     hv_Timestamp = parseEventTimestamp e provider raw,
                     hv_Labels = parseLabels raw, hv_AmountMinor = 0, hv_Currency = [], hv_HasAmount = False\<rparr>
          in Some (case parseStripeAmount e raw of
                     Some (amt, currency) \<Rightarrow> evt\<lparr>hv_AmountMinor := amt, hv_Currency := currency, hv_HasAmount := True\<rparr>
                   | None \<Rightarrow> evt, raw))"

definition detectProvider :: "headers \<Rightarrow> string" where
  "detectProvider h =
     (if h ''Stripe-Signature'' \<noteq> [] then ''stripe''
      else if h ''X-GitHub-Event'' \<noteq> [] \<or> h ''X-Hub-Signature-256'' \<noteq> [] then ''github''
      else if h ''X-Vercel-Signature'' \<noteq> [] then ''vercel''
      else [])"

section \<open>The routes\<close>

record connection =
  cn_ID :: int
  cn_TenantID :: int
  cn_ProjectID :: int
  cn_Kind :: string
  cn_Paused :: bool

record hook_row =
  hr_TenantID :: int
  hr_ProjectID :: int
  hr_TS :: time
  hr_Name :: string
  hr_Labels :: "(string \<times> string) list"
  hr_AmountMinor :: int
  hr_Currency :: string

text \<open>
  The tables: deliveries seen, events, connections by token, and the last event of a connection. The
  queries that fail in one delivery are named by \<open>faults\<close>.
\<close>

record hook_db =
  hk_seen :: "(string \<times> string) set"
  hk_events :: "hook_row list"
  hk_connections :: "(string \<times> connection) list"
  hk_last :: "(int \<times> string) list"

record hook_faults =
  ft_connection :: bool
  ft_check :: bool
  ft_insert :: bool
  ft_mark :: bool
  ft_update :: bool

definition hooks_work :: hook_faults where
  "hooks_work = \<lparr>ft_connection = False, ft_check = False, ft_insert = False, ft_mark = False, ft_update = False\<rparr>"

text \<open>\<^verbatim>\<open>checkSeen\<close>: \<open>None\<close> is its error.\<close>

definition checkSeen :: "hook_faults \<Rightarrow> string \<Rightarrow> string \<Rightarrow> hook_db \<Rightarrow> bool option" where
  "checkSeen f scope i d = (if ft_check f then None else Some ((scope, i) \<in> hk_seen d))"

definition InsertEvents :: "hook_faults \<Rightarrow> hook_row \<Rightarrow> hook_db \<Rightarrow> hook_db" where
  "InsertEvents f row d = (if ft_insert f then d else d\<lparr>hk_events := hk_events d @ [row]\<rparr>)"

definition markSeen :: "hook_faults \<Rightarrow> string \<Rightarrow> string \<Rightarrow> hook_db \<Rightarrow> hook_db" where
  "markSeen f scope i d = (if ft_mark f then d else d\<lparr>hk_seen := insert (scope, i) (hk_seen d)\<rparr>)"

definition touch_connection :: "hook_faults \<Rightarrow> int \<Rightarrow> string \<Rightarrow> hook_db \<Rightarrow> hook_db" where
  "touch_connection f i name d =
     (if ft_update f then d else d\<lparr>hk_last := AList.update i name (hk_last d)\<rparr>)"

definition connectionByToken :: "hook_faults \<Rightarrow> hook_db \<Rightarrow> string \<Rightarrow> connection option" where
  "connectionByToken f d token = (if ft_connection f then None else map_of (hk_connections d) token)"

definition row_of_event :: "hook_event \<Rightarrow> hook_row" where
  "row_of_event evt =
     \<lparr>hr_TenantID = hv_TenantID evt, hr_ProjectID = hv_ProjectID evt, hr_TS = hv_Timestamp evt,
      hr_Name = hv_Name evt, hr_Labels = hv_Labels evt,
      hr_AmountMinor = (if hv_HasAmount evt then hv_AmountMinor evt else 0),
      hr_Currency = (if hv_HasAmount evt then hv_Currency evt else [])\<rparr>"

definition serveLegacy ::
    "hook_env \<Rightarrow> (string \<times> string) list \<Rightarrow> hook_faults \<Rightarrow> headers \<Rightarrow> string \<Rightarrow> string \<Rightarrow> hook_db \<Rightarrow> int \<times> hook_db"
  where
  "serveLegacy e secrets f h provider body d =
     (case map_of secrets provider of
        None \<Rightarrow> (401, d)
      | Some secret \<Rightarrow>
          if \<not> verifySignature e provider h body secret then (401, d)
          else (case parseEventRaw e provider body of
            None \<Rightarrow> (200, d)
          | Some (evt, raw) \<Rightarrow>
              let evt = (if hv_EventID evt = [] then evt\<lparr>hv_EventID := bodyHash e body\<rparr> else evt)
              in (case checkSeen f provider (hv_EventID evt) d of
                    Some False \<Rightarrow>
                      (200, markSeen f provider (hv_EventID evt) (InsertEvents f (row_of_event evt) d))
                  | _ \<Rightarrow> (200, d))))"

text \<open>The event a token's delivery stands for, before its attribution.\<close>

definition token_event :: "hook_env \<Rightarrow> connection \<Rightarrow> headers \<Rightarrow> string \<Rightarrow> hook_event option" where
  "token_event e conn h body =
     (case parseEventRaw e (detectProvider h) body of
        None \<Rightarrow> None
      | Some (evt, raw) \<Rightarrow>
          let evt = (if h ''X-GitHub-Event'' \<noteq> []
                     then evt\<lparr>hv_Name := githubEventName e (h ''X-GitHub-Event'') raw\<rparr> else evt);
              evt = (if hv_Name evt = [] \<or> hv_Name evt = ''unknown''
                     then evt\<lparr>hv_Name := genericEventName e raw (cn_Kind conn)\<rparr> else evt);
              evt = (if hv_EventID evt = []
                     then evt\<lparr>hv_EventID := genericEventID e h raw body\<rparr> else evt)
          in Some (evt\<lparr>hv_TenantID := cn_TenantID conn, hv_ProjectID := cn_ProjectID conn\<rparr>))"

definition token_scope :: "string \<Rightarrow> string" where "token_scope token = ''t:'' @ token"

definition record_delivery :: "hook_faults \<Rightarrow> string \<Rightarrow> connection \<Rightarrow> hook_event \<Rightarrow> hook_db \<Rightarrow> hook_db" where
  "record_delivery f token conn evt d =
     touch_connection f (cn_ID conn) (hv_Name evt)
       (markSeen f (token_scope token) (hv_EventID evt) (InsertEvents f (row_of_event evt) d))"

definition serveToken ::
    "hook_env \<Rightarrow> hook_faults \<Rightarrow> headers \<Rightarrow> string \<Rightarrow> string \<Rightarrow> hook_db \<Rightarrow> int \<times> hook_db" where
  "serveToken e f h token body d =
     (if token = [] \<or> 128 < length token then (404, d)
      else case connectionByToken f d token of
        None \<Rightarrow> (404, d)
      | Some conn \<Rightarrow>
          if cn_Paused conn then (200, d)
          else (case token_event e conn h body of
            None \<Rightarrow> (200, d)
          | Some evt \<Rightarrow>
              (case checkSeen f (token_scope token) (hv_EventID evt) d of
                 Some False \<Rightarrow> (200, record_delivery f token conn evt d)
               | _ \<Rightarrow> (200, d))))"

definition knownProviders :: "string list" where "knownProviders = [''stripe'', ''github'', ''vercel'']"

text \<open>\<^verbatim>\<open>ServeHTTP\<close>: the segment is the router's or the second part of the path; a body that cannot be read is 400.\<close>

definition hook_segment :: "string \<Rightarrow> string \<Rightarrow> string" where
  "hook_segment path_value path =
     (if path_value \<noteq> [] then path_value
      else let parts = split_byte CHR ''/'' (Trim_byte CHR ''/'' path)
           in if 2 \<le> length parts then parts ! 1 else [])"

definition ServeHTTP ::
    "hook_env \<Rightarrow> (string \<times> string) list \<Rightarrow> hook_faults \<Rightarrow> headers \<Rightarrow> string \<Rightarrow> string \<Rightarrow> string option \<Rightarrow> hook_db \<Rightarrow> int \<times> hook_db"
  where
  "ServeHTTP e secrets f h path_value path body d =
     (case body of
        None \<Rightarrow> (400, d)
      | Some b \<Rightarrow>
          let segment = hook_segment path_value path; b = take (2 ^ 20) b
          in if segment \<in> set knownProviders then serveLegacy e secrets f h segment b d
             else serveToken e f h segment b d)"

end
