(* ===== verification/WebhookFacts.thy ===== *)
theory WebhookFacts
  imports Webhook
begin

text \<open>
  What the webhook doors promise: the grammar of event names, who may write and under which tenant,
  what a retry does, and where a delivery is lost or kept twice.
\<close>

section \<open>Names\<close>

text \<open>The reference: each run of underscores becomes one.\<close>

fun one_underscore :: "string \<Rightarrow> string" where
  "one_underscore (a # b # s) =
     (if a = CHR ''_'' \<and> b = CHR ''_'' then one_underscore (b # s) else a # one_underscore (b # s))"
| "one_underscore s = s"

lemma one_underscore_Cons:
  "one_underscore (a # s) =
     (if a = CHR ''_'' \<and> s \<noteq> [] \<and> hd s = CHR ''_'' then one_underscore s else a # one_underscore s)"
  by (cases s) auto

lemma halve_head: "halve s \<noteq> [] \<longleftrightarrow> s \<noteq> []" "s \<noteq> [] \<Longrightarrow> hd (halve s) = hd s"
  by (induction s rule: halve.induct) auto

lemma one_underscore_head: "one_underscore s \<noteq> [] \<longleftrightarrow> s \<noteq> []" "s \<noteq> [] \<Longrightarrow> hd (one_underscore s) = hd s"
  by (induction s rule: one_underscore.induct) auto

lemma one_underscore_halve: "one_underscore (halve s) = one_underscore s"
proof (induction s rule: halve.induct)
  case (1 a b s)
  then show ?case
    by (cases s) (auto simp: one_underscore_Cons halve_head)
qed auto

lemma one_underscore_id: "\<not> contains s ''__'' \<Longrightarrow> one_underscore s = s"
  by (induction s rule: one_underscore.induct)
    (auto simp: contains_def has_prefix_def split: if_splits)

lemma one_underscore_single: "\<not> contains (one_underscore s) ''__''"
proof (induction s rule: one_underscore.induct)
  case (1 a b s)
  have "has_prefix (a # one_underscore (b # s)) ''__'' \<longleftrightarrow> a = CHR ''_'' \<and> hd (one_underscore (b # s)) = CHR ''_''"
    using one_underscore_head(1) [of "b # s"] by (cases "one_underscore (b # s)") (auto simp: has_prefix_def)
  with 1 show ?case
    by (auto simp: contains_def one_underscore_head(2) split: if_splits)
qed (auto simp: contains_def has_prefix_def)

lemma squeeze_is_one_underscore: "squeeze s = one_underscore s"
proof (induction s rule: squeeze.induct)
  case (1 s)
  then show ?case
    by (cases "contains s ''__''") (simp_all add: squeeze.simps [of s] one_underscore_halve one_underscore_id)
qed

definition snake_case :: "string \<Rightarrow> bool" where
  "snake_case s \<longleftrightarrow>
     s \<noteq> [] \<and> hd s \<noteq> CHR ''_'' \<and> \<not> contains s ''__''
     \<and> list_all (\<lambda>c. is_lower c \<or> is_digit c \<or> c = CHR ''_'') s"

lemma set_one_underscore: "set (one_underscore s) \<subseteq> set s"
  by (induction s rule: one_underscore.induct) auto

lemma name_char_ok: "is_lower (name_char r) \<or> is_digit (name_char r) \<or> name_char r = CHR ''_''"
  by (auto simp: name_char_def is_lower_def is_digit_def between_def)

lemma Trim_byte_hd: "Trim_byte c s \<noteq> [] \<Longrightarrow> hd (Trim_byte c s) \<noteq> c"
proof -
  let ?t = "trim_left (\<lambda>x. x = c) s"
  assume ne: "Trim_byte c s \<noteq> []"
  have "\<exists>u. ?t = Trim_byte c s @ u"
    unfolding Trim_byte_def trim_right_def
    by (metis rev_append rev_rev_ident takeWhile_dropWhile_id)
  then obtain u where u: "?t = Trim_byte c s @ u" ..
  with ne have "hd ?t = hd (Trim_byte c s)" "?t \<noteq> []" by auto
  then show ?thesis using hd_dropWhile [of "\<lambda>x. x = c" s] by (auto simp: trim_left_def)
qed

lemma set_Trim_byte: "set (Trim_byte c s) \<subseteq> set s"
  by (auto simp: Trim_byte_def trim_right_def trim_left_def dest!: set_dropWhileD)

lemma snake_case_take:
  assumes "snake_case s" and "0 < n"
  shows "snake_case (take n s)"
proof -
  have "\<not> contains (take n s) ''__''"
  proof
    assume "contains (take n s) ''__''"
    then obtain u v where "take n s = u @ ''__'' @ v" by (auto simp: contains_iff)
    then have "s = u @ ''__'' @ (v @ drop n s)" by (metis append_assoc append_take_drop_id)
    then have "contains s ''__''" unfolding contains_iff by blast
    with assms(1) show False by (simp add: snake_case_def)
  qed
  with assms show ?thesis
    by (auto simp: snake_case_def list_all_iff dest: in_set_takeD)
qed

text \<open>
  Whatever string it is given, \<^verbatim>\<open>sanitizeEventName\<close> makes a name of one to 64 bytes: lower-case letters, digits and single
  underscores, not beginning with one. The loop that folds underscores ends, and folds every run to one.
\<close>

lemma sanitizeEventName_snake:
  "snake_case (sanitizeEventName e s) \<and> length (sanitizeEventName e s) \<le> 64
   \<and> squeeze t = one_underscore t"
proof -
  let ?t = "Trim_byte CHR ''_'' (map name_char (runes (he_lower e s)))"
  have chars: "list_all (\<lambda>c. is_lower c \<or> is_digit c \<or> c = CHR ''_'') (one_underscore ?t)"
    using set_one_underscore [of ?t] set_Trim_byte [of "CHR ''_''" "map name_char (runes (he_lower e s))"] name_char_ok
    by (fastforce simp: list_all_iff)
  have "snake_case (one_underscore ?t)" if "one_underscore ?t \<noteq> []"
    using that Trim_byte_hd [of "CHR ''_''" "map name_char (runes (he_lower e s))"] chars
      one_underscore_head [of ?t] one_underscore_single [of ?t]
    by (auto simp: snake_case_def)
  moreover have "snake_case ''webhook''"
    by (simp add: snake_case_def contains_def has_prefix_def is_lower_def between_def)
  ultimately have "snake_case (sanitizeEventName e s)"
    by (auto simp: sanitizeEventName_def Let_def squeeze_is_one_underscore intro: snake_case_take)
  then show ?thesis
    by (auto simp: sanitizeEventName_def Let_def squeeze_is_one_underscore)
qed

section \<open>Who writes what\<close>

lemma seen_after: "hk_seen (record_delivery f token conn evt d) =
    (if ft_mark f then hk_seen d else insert (token_scope token, hv_EventID evt) (hk_seen d))"
  by (simp add: record_delivery_def touch_connection_def markSeen_def InsertEvents_def)

lemma connections_after [simp]: "hk_connections (record_delivery f token conn evt d) = hk_connections d"
  by (simp add: record_delivery_def touch_connection_def markSeen_def InsertEvents_def)

lemma events_after: "hk_events (record_delivery f token conn evt d) =
    (if ft_insert f then hk_events d else hk_events d @ [row_of_event evt])"
  by (simp add: record_delivery_def touch_connection_def markSeen_def InsertEvents_def)

text \<open>The fate of a delivery on a token.\<close>

lemma serveToken_cases:
  obtains
    (ignored) "snd (serveToken e f h token body d) = d"
  | (recorded) conn evt where "map_of (hk_connections d) token = Some conn" and "\<not> cn_Paused conn"
      and "token_event e conn h body = Some evt" and "(token_scope token, hv_EventID evt) \<notin> hk_seen d"
      and "serveToken e f h token body d = (200, record_delivery f token conn evt d)"
proof (cases "snd (serveToken e f h token body d) = d")
  case True
  then show ?thesis by (rule ignored)
next
  case False
  then obtain conn evt where c: "connectionByToken f d token = Some conn" "\<not> cn_Paused conn"
      "token_event e conn h body = Some evt" "checkSeen f (token_scope token) (hv_EventID evt) d = Some False"
      "\<not> (token = [] \<or> 128 < length token)"
    unfolding serveToken_def by (auto split: option.splits bool.splits if_splits)
  then have "serveToken e f h token body d = (200, record_delivery f token conn evt d)"
    by (simp add: serveToken_def)
  with c show ?thesis
    by (intro recorded) (auto simp: connectionByToken_def checkSeen_def split: if_splits)
qed

lemma token_event_attributed:
  "token_event e conn h body = Some evt \<Longrightarrow> hv_TenantID evt = cn_TenantID conn \<and> hv_ProjectID evt = cn_ProjectID conn"
  by (auto simp: token_event_def Let_def split: option.splits prod.splits)

lemma deliveries_write_one_event:
  "hk_events (snd (serveToken e f h token body d)) = hk_events d \<or>
   (\<exists>row. hk_events (snd (serveToken e f h token body d)) = hk_events d @ [row])"
  by (cases rule: serveToken_cases [of e f h token body d]) (auto simp: events_after)

text \<open>A delivery on a token writes at most one event, and only under the tenant and project of the unpaused
  connection the token belongs to, whatever the payload says; a provider's route writes under tenant 0,
  and only a body whose signature the provider's secret verifies.\<close>

theorem deliveries_write_under_their_owner:
  "(hk_events (snd (serveToken e f h token body d)) = hk_events d
    \<or> (\<exists>conn row. map_of (hk_connections d) token = Some conn \<and> \<not> cn_Paused conn
         \<and> hr_TenantID row = cn_TenantID conn \<and> hr_ProjectID row = cn_ProjectID conn
         \<and> hk_events (snd (serveToken e f h token body d)) = hk_events d @ [row]))
   \<and> (hk_events (snd (serveLegacy e secrets f h provider body d)) = hk_events d
    \<or> (\<exists>secret row. map_of secrets provider = Some secret \<and> verifySignature e provider h body secret
         \<and> hr_TenantID row = 0 \<and> hk_events (snd (serveLegacy e secrets f h provider body d)) = hk_events d @ [row]))"
proof
  show "hk_events (snd (serveToken e f h token body d)) = hk_events d
    \<or> (\<exists>conn row. map_of (hk_connections d) token = Some conn \<and> \<not> cn_Paused conn
         \<and> hr_TenantID row = cn_TenantID conn \<and> hr_ProjectID row = cn_ProjectID conn
         \<and> hk_events (snd (serveToken e f h token body d)) = hk_events d @ [row])"
  proof (cases rule: serveToken_cases [of e f h token body d])
    case (recorded conn evt)
    then show ?thesis
      using token_event_attributed [OF recorded(3)]
      by (cases "ft_insert f") (auto simp: events_after row_of_event_def)
  qed simp
  have tenant: "parseEventRaw e provider body = Some (evt, raw) \<Longrightarrow> hv_TenantID evt = 0" for evt raw
    by (auto simp: parseEventRaw_def Let_def split: option.splits)
  show "hk_events (snd (serveLegacy e secrets f h provider body d)) = hk_events d
    \<or> (\<exists>secret row. map_of secrets provider = Some secret \<and> verifySignature e provider h body secret
         \<and> hr_TenantID row = 0 \<and> hk_events (snd (serveLegacy e secrets f h provider body d)) = hk_events d @ [row])"
    by (auto simp: serveLegacy_def Let_def markSeen_def InsertEvents_def row_of_event_def checkSeen_def
        split: option.split bool.split dest!: tenant)
qed

section \<open>The names that are stored\<close>

lemma snake_webhook: "snake_case ''webhook''"
  by (simp add: snake_case_def contains_def has_prefix_def is_lower_def between_def)

lemma genericEventName_snake: "snake_case (genericEventName e raw kind) \<and> length (genericEventName e raw kind) \<le> 64"
  using sanitizeEventName_snake snake_webhook
  by (auto simp: genericEventName_def simp del: first_field.simps split: option.split)

text \<open>A name is taken from the provider's field as it is, or made by \<^verbatim>\<open>sanitizeEventName\<close>.\<close>

lemma token_event_name:
  assumes "token_event e conn h body = Some evt" and "he_unmarshal e body = Some raw"
  shows "hv_Name evt =
     (let name = (if h ''X-GitHub-Event'' \<noteq> [] then githubEventName e (h ''X-GitHub-Event'') raw
                  else parseEventName (detectProvider h) raw)
      in if name = [] \<or> name = ''unknown'' then genericEventName e raw (cn_Kind conn) else name)"
  using assms by (auto simp: token_event_def parseEventRaw_def Let_def split: option.splits prod.splits)

text \<open>C36. What the names of webhook events look like.

  The event a delivery on a token stores has a name in snake case (lower-case letters, digits and single underscores, not beginning with one)
  of one to 64 bytes when the request carries GitHub's event header, when no known provider's signature header is there, and when the provider's own
  field is absent. Otherwise, for a Stripe or Vercel delivery and for a GitHub one without the event header, and for every delivery on a provider's
  route, the name is made of the provider's field as it came: neither its characters nor its length are checked.\<close>

theorem event_names_are_snake_case:
  assumes "he_unmarshal e body = Some raw"
  shows "(hk_events (snd (serveToken e f h token body d)) = hk_events d @ [row] \<longrightarrow>
      (if h ''X-GitHub-Event'' \<noteq> [] \<or> detectProvider h \<notin> {''stripe'', ''github'', ''vercel''} \<or>
          parseEventName (detectProvider h) raw \<in> {'''', ''unknown''}
       then snake_case (hr_Name row) \<and> length (hr_Name row) \<le> 64
       else hr_Name row = parseEventName (detectProvider h) raw)) \<and>
    (hk_events (snd (serveLegacy e secrets f h provider body d)) = hk_events d @ [row] \<longrightarrow>
      hr_Name row = parseEventName provider raw)"
proof (intro conjI impI)
  let ?name = "parseEventName (detectProvider h) raw"
  assume new: "hk_events (snd (serveToken e f h token body d)) = hk_events d @ [row]"
  show "if h ''X-GitHub-Event'' \<noteq> [] \<or> detectProvider h \<notin> {''stripe'', ''github'', ''vercel''} \<or> ?name \<in> {'''', ''unknown''}
       then snake_case (hr_Name row) \<and> length (hr_Name row) \<le> 64 else hr_Name row = ?name"
  proof (cases rule: serveToken_cases [of e f h token body d])
    case ignored
    with new show ?thesis by simp
  next
    case (recorded conn evt)
    have name: "hr_Name row = hv_Name evt"
      using new recorded(5) by (auto simp: events_after row_of_event_def split: if_splits)
    have "?name = ''unknown''" if "detectProvider h \<notin> {''stripe'', ''github'', ''vercel''}"
      using that by (simp add: parseEventName_def)
    then show ?thesis
      using name token_event_name [OF recorded(3) assms] genericEventName_snake [of e raw "cn_Kind conn"]
        sanitizeEventName_snake [of e]
      by (auto simp: Let_def githubEventName_def split: if_splits)
  qed
next
  assume "hk_events (snd (serveLegacy e secrets f h provider body d)) = hk_events d @ [row]"
  then show "hr_Name row = parseEventName provider raw"
    using assms
    by (auto simp: serveLegacy_def Let_def markSeen_def InsertEvents_def row_of_event_def parseEventRaw_def
        split: option.splits bool.splits if_splits)
qed

text \<open>Vercel's own event types have dots, and nothing bounds the length.\<close>

lemma vercel_name_is_stored_raw:
  "parseEventName ''vercel'' [(''type'', JStr ''deployment.succeeded'')] = ''vercel_deployment.succeeded'' \<and>
   \<not> snake_case ''vercel_deployment.succeeded'' \<and>
   64 < length (parseEventName ''vercel'' [(''type'', JStr (replicate 1000 CHR ''a''))])"
  by (simp add: parseEventName_def str_field_def snake_case_def is_lower_def is_digit_def between_def)

section \<open>Retries\<close>

text \<open>What a delivery is told apart by does not depend on the time it arrives.\<close>

lemma token_event_later:
  "token_event e conn h body = Some evt \<Longrightarrow>
   \<exists>evt'. token_event (e\<lparr>he_now := t\<rparr>) conn h body = Some evt' \<and> hv_EventID evt' = hv_EventID evt"
proof -
  have amount: "parseStripeAmount (e\<lparr>he_now := t\<rparr>) raw = parseStripeAmount e raw" for raw
    by (simp add: parseStripeAmount_def split: option.split json.split)
  have ids: "genericEventID (e\<lparr>he_now := t\<rparr>) h raw body = genericEventID e h raw body" for raw
    by (simp add: genericEventID_def bodyHash_def del: first_field.simps split: option.split)
  show "token_event e conn h body = Some evt \<Longrightarrow> ?thesis"
    by (auto simp: token_event_def parseEventRaw_def Let_def amount ids split: option.splits)
qed

text \<open>A delivery that was recorded and marked is not recorded again: the same request, at any later time and
  with any query failing, leaves the tables as they are.\<close>

theorem retry_is_ignored:
  assumes "\<not> ft_mark f" and "snd (serveToken e f h token body d) \<noteq> d"
  shows "snd (serveToken (e\<lparr>he_now := t\<rparr>) f' h token body (snd (serveToken e f h token body d)))
           = snd (serveToken e f h token body d)"
proof (cases rule: serveToken_cases [of e f h token body d])
  case (recorded conn evt)
  let ?d = "record_delivery f token conn evt d"
  have seen: "(token_scope token, hv_EventID evt) \<in> hk_seen ?d" using assms(1) by (simp add: seen_after)
  show ?thesis
  proof (cases rule: serveToken_cases [of "e\<lparr>he_now := t\<rparr>" f' h token body ?d])
    case ignored
    then show ?thesis by (simp add: recorded(5))
  next
    case again: (recorded conn' evt')
    have "conn' = conn" using again(1) recorded(1) by simp
    with token_event_later [OF recorded(3), of t] again(3) have "hv_EventID evt' = hv_EventID evt" by auto
    with seen again(4) show ?thesis by simp
  qed
qed (use assms in simp)

text \<open>An event whose insert fails is lost for good: the delivery is marked as seen all the same and answered with 200, so
  neither this request nor any retry of it, with every query working, writes the event.\<close>

theorem failed_insert_is_forgotten:
  assumes "map_of (hk_connections d) token = Some conn" and "\<not> cn_Paused conn"
    and "token \<noteq> []" and "length token \<le> 128" and "token_event e conn h body = Some evt"
    and "(token_scope token, hv_EventID evt) \<notin> hk_seen d"
    and "ft_insert f" and "\<not> ft_connection f" and "\<not> ft_check f" and "\<not> ft_mark f"
  shows "fst (serveToken e f h token body d) = 200
     \<and> hk_events (snd (serveToken e f h token body d)) = hk_events d
     \<and> hk_events (snd (serveToken (e\<lparr>he_now := t\<rparr>) hooks_work h token body (snd (serveToken e f h token body d))))
         = hk_events d"
proof -
  have first: "serveToken e f h token body d = (200, record_delivery f token conn evt d)"
    using assms by (simp add: serveToken_def connectionByToken_def checkSeen_def)
  have "(token_scope token, hv_EventID evt) \<in> hk_seen (record_delivery f token conn evt d)"
    using assms(10) by (simp add: seen_after)
  with assms(6) have "snd (serveToken e f h token body d) \<noteq> d" unfolding first snd_conv by metis
  from retry_is_ignored [OF assms(10) this, of t hooks_work] show ?thesis
    using assms(7) by (simp add: first events_after)
qed

section \<open>One delivery taken for another\<close>

text \<open>Two different payloads whose "id" is the same string, as two events about one order, are one delivery: the
  second is answered with 200 and dropped.\<close>

theorem events_of_one_object_are_one_delivery:
  assumes "he_unmarshal e b1 = Some raw1" and "he_unmarshal e b2 = Some raw2"
    and "str_field raw1 ''id'' = Some i" and "str_field raw2 ''id'' = Some i" and "i \<noteq> []"
    and "detectProvider h = []" and "h ''X-GitHub-Delivery'' = []" and "h ''X-GitHub-Event'' = []"
    and "snd (serveToken e f h token b1 d) \<noteq> d" and "\<not> ft_mark f"
  shows "snd (serveToken e f' h token b2 (snd (serveToken e f h token b1 d))) = snd (serveToken e f h token b1 d)"
proof -
  have ids: "hv_EventID evt = i"
    if "token_event e conn h b = Some evt" "he_unmarshal e b = Some raw" "str_field raw ''id'' = Some i" for conn b raw evt
    using that assms(5-8)
    by (auto simp: token_event_def parseEventRaw_def parseEventID_def genericEventID_def Let_def
        split: option.splits if_splits)
  show ?thesis
  proof (cases rule: serveToken_cases [of e f h token b1 d])
    case (recorded conn evt)
    let ?d = "record_delivery f token conn evt d"
    have seen: "(token_scope token, i) \<in> hk_seen ?d"
      using assms(10) ids [OF recorded(3) assms(1,3)] by (simp add: seen_after)
    show ?thesis
    proof (cases rule: serveToken_cases [of e f' h token b2 ?d])
      case ignored
      then show ?thesis by (simp add: recorded(5))
    next
      case again: (recorded conn' evt')
      with seen ids [OF again(3) assms(2,4)] show ?thesis by simp
    qed
  qed (use assms(9) in simp)
qed

text \<open>While Stripe rolls a secret, its header carries a signature for each; only the last is compared.\<close>

theorem rolled_stripe_secret_is_refused:
  assumes "he_hmac e secret (''1.'' @ body) = ''aa''"
  shows "verifyStripe e ''t=1,v1=aa'' body secret \<and> \<not> verifyStripe e ''t=1,v1=aa,v1=bb'' body secret"
proof -
  have "stripe_parts (split_byte CHR '','' ''t=1,v1=aa'') ([], []) = (''1'', ''aa'')"
    "stripe_parts (split_byte CHR '','' ''t=1,v1=aa,v1=bb'') ([], []) = (''1'', ''bb'')"
    "trim_prefix ''aa'' ''sha256='' = ''aa''" "trim_prefix ''bb'' ''sha256='' = ''bb''"
    by code_simp+
  with assms show ?thesis by (simp add: verifyStripe_def verifyHMACSHA256_def)
qed

section \<open>Witnesses\<close>

text \<open>A shop whose two payloads are about one order, and a connection for its token.\<close>

definition shop_hooks :: hook_env where
  "shop_hooks =
     \<lparr>he_unmarshal = (\<lambda>b. if b = ''1'' then Some [(''id'', JStr ''o1''), (''event'', JStr ''paid'')]
                        else if b = ''2'' then Some [(''id'', JStr ''o1''), (''event'', JStr ''refunded'')]
                        else None),
      he_rfc3339 = (\<lambda>s. None), he_int64 = (\<lambda>n. 0), he_sha256 = (\<lambda>b. b), he_hmac = (\<lambda>k m. ''aa''),
      he_lower = (\<lambda>s. s), he_upper = (\<lambda>s. s), he_now = 0\<rparr>"

definition shop_connection :: connection where
  "shop_connection = \<lparr>cn_ID = 1, cn_TenantID = 7, cn_ProjectID = 8, cn_Kind = ''shop'', cn_Paused = False\<rparr>"

definition hook_shop_db :: hook_db where
  "hook_shop_db = \<lparr>hk_seen = {}, hk_events = [], hk_connections = [(''tok'', shop_connection)], hk_last = []\<rparr>"

definition no_headers :: headers where "no_headers = (\<lambda>k. [])"

lemma shop_event:
  "\<exists>evt. token_event shop_hooks shop_connection no_headers ''1'' = Some evt \<and> hv_EventID evt = ''o1''"
  by (simp add: token_event_def parseEventRaw_def shop_hooks_def no_headers_def detectProvider_def
      parseEventID_def genericEventID_def str_field_def Let_def split: option.split)

lemma shop_writes:
  "hk_events (snd (serveToken shop_hooks hooks_work no_headers ''tok'' ''1'' hook_shop_db)) \<noteq> hk_events hook_shop_db"
proof -
  obtain evt where evt: "token_event shop_hooks shop_connection no_headers ''1'' = Some evt" using shop_event by blast
  have "serveToken shop_hooks hooks_work no_headers ''tok'' ''1'' hook_shop_db
      = (200, record_delivery hooks_work ''tok'' shop_connection evt hook_shop_db)"
    using evt by (simp add: serveToken_def connectionByToken_def checkSeen_def hooks_work_def hook_shop_db_def shop_connection_def)
  moreover have "hk_events (record_delivery hooks_work ''tok'' shop_connection evt hook_shop_db) \<noteq> hk_events hook_shop_db"
    by (simp add: events_after hooks_work_def)
  ultimately show ?thesis by (metis snd_conv)
qed

lemma shop_recorded:
  "snd (serveToken shop_hooks hooks_work no_headers ''tok'' ''1'' hook_shop_db) \<noteq> hook_shop_db"
  using shop_writes by metis

lemma deliveries_write_under_their_owner_witness:
  "\<exists>row. hr_TenantID row = 7 \<and> hr_ProjectID row = 8
     \<and> hk_events (snd (serveToken shop_hooks hooks_work no_headers ''tok'' ''1'' hook_shop_db)) = [row]"
  using deliveries_write_under_their_owner [of shop_hooks hooks_work no_headers "''tok''" "''1''" hook_shop_db, THEN conjunct1]
    shop_writes
  by (auto simp: hook_shop_db_def shop_connection_def)

lemma retry_is_ignored_witness:
  "snd (serveToken (shop_hooks\<lparr>he_now := 5\<rparr>) hooks_work no_headers ''tok'' ''1''
          (snd (serveToken shop_hooks hooks_work no_headers ''tok'' ''1'' hook_shop_db)))
     = snd (serveToken shop_hooks hooks_work no_headers ''tok'' ''1'' hook_shop_db)"
  by (rule retry_is_ignored [OF _ shop_recorded]) (simp add: hooks_work_def)

lemma failed_insert_is_forgotten_witness:
  "hk_events (snd (serveToken (shop_hooks\<lparr>he_now := 5\<rparr>) hooks_work no_headers ''tok'' ''1''
      (snd (serveToken shop_hooks (hooks_work\<lparr>ft_insert := True\<rparr>) no_headers ''tok'' ''1'' hook_shop_db)))) = []"
proof -
  obtain evt where evt: "token_event shop_hooks shop_connection no_headers ''1'' = Some evt" using shop_event by blast
  have "hk_events (snd (serveToken (shop_hooks\<lparr>he_now := 5\<rparr>) hooks_work no_headers ''tok'' ''1''
      (snd (serveToken shop_hooks (hooks_work\<lparr>ft_insert := True\<rparr>) no_headers ''tok'' ''1'' hook_shop_db)))) = hk_events hook_shop_db"
    by (rule failed_insert_is_forgotten [where evt = evt and conn = shop_connection, THEN conjunct2, THEN conjunct2])
      (simp_all add: evt [unfolded shop_connection_def] hook_shop_db_def shop_connection_def hooks_work_def)
  then show ?thesis by (simp add: hook_shop_db_def)
qed

lemma events_of_one_object_are_one_delivery_witness:
  "hk_events (snd (serveToken shop_hooks hooks_work no_headers ''tok'' ''2''
      (snd (serveToken shop_hooks hooks_work no_headers ''tok'' ''1'' hook_shop_db))))
     = hk_events (snd (serveToken shop_hooks hooks_work no_headers ''tok'' ''1'' hook_shop_db))"
proof -
  have ids: "str_field [(''id'', JStr ''o1''), (''event'', JStr ''paid'')] ''id'' = Some ''o1''"
    "str_field [(''id'', JStr ''o1''), (''event'', JStr ''refunded'')] ''id'' = Some ''o1''" by code_simp+
  have "snd (serveToken shop_hooks hooks_work no_headers ''tok'' ''2''
      (snd (serveToken shop_hooks hooks_work no_headers ''tok'' ''1'' hook_shop_db)))
     = snd (serveToken shop_hooks hooks_work no_headers ''tok'' ''1'' hook_shop_db)"
    by (rule events_of_one_object_are_one_delivery [where i = "''o1''", OF _ _ ids _ _ _ _ shop_recorded])
      (simp_all add: shop_hooks_def no_headers_def detectProvider_def hooks_work_def)
  then show ?thesis by simp
qed

lemma event_names_are_snake_case_witness:
  "\<exists>row. hk_events (snd (serveToken shop_hooks hooks_work no_headers ''tok'' ''1'' hook_shop_db)) = [row] \<and>
     snake_case (hr_Name row) \<and> length (hr_Name row) \<le> 64"
proof -
  obtain row where row: "hk_events (snd (serveToken shop_hooks hooks_work no_headers ''tok'' ''1'' hook_shop_db)) = hk_events hook_shop_db @ [row]"
    using deliveries_write_one_event [of shop_hooks hooks_work no_headers "''tok''" "''1''" hook_shop_db] shop_writes by blast
  have "he_unmarshal shop_hooks ''1'' = Some [(''id'', JStr ''o1''), (''event'', JStr ''paid'')]"
    by (simp add: shop_hooks_def)
  from event_names_are_snake_case [OF this, of hooks_work no_headers "''tok''" hook_shop_db row] row show ?thesis
    by (simp add: hook_shop_db_def no_headers_def detectProvider_def)
qed

end
