(* ===== verification/Account.thy ===== *)
theory Account
  imports GoBytes GoTime
begin

text \<open>
  The account tables and the queries the sign-in doors run on them, \<^verbatim>\<open>back/internal/storage/pg/queries/session.sql\<close> and
  \<^verbatim>\<open>auth.sql\<close>: people, workspaces, projects, memberships, sessions, sign-in codes and the window
  of requests of an address. Any query can fail; \<open>au_fails\<close> of the environment says which do.
\<close>

section \<open>Tables\<close>

datatype acct_table = TPerson | TTenant | TProject | TSession

record person_row =
  pe_id :: int
  pe_public :: string
  pe_email :: "string option"
  pe_name :: string
  pe_verified :: "time option"
  pe_telegram :: "int option"

record tenant_row =
  tn_id :: int
  tn_name :: string
  tn_plan :: string
  tn_owner :: "int option"

record acct_project =
  pj_id :: int
  pj_public :: string
  pj_tenant :: int
  pj_domain :: string
  pj_frozen :: bool
  pj_created :: time

record member_row =
  mb_project :: int
  mb_person :: int
  mb_tenant :: int
  mb_role :: string
  mb_status :: string

record session_row =
  ss_id :: int
  ss_hash :: string
  ss_person :: int
  ss_tenant :: int
  ss_project :: "int option"
  ss_seen :: time
  ss_expires :: time

record mail_channel =
  mc_tenant :: int
  mc_project :: int
  mc_target :: string

record key_row =
  ky_tenant :: int
  ky_project :: int
  ky_prefix :: string
  ky_hash :: string

text \<open>A row of \<^verbatim>\<open>magic_link_code\<close>, whose key is the address.\<close>

record code_row =
  cd_hash :: string
  cd_attempts :: int
  cd_expires :: time
  cd_redeemed :: "time option"
  cd_created :: time
  cd_slug :: "string option"
  cd_token :: "string option"
  cd_next :: "string option"

record acct_db =
  ac_persons :: "person_row list"
  ac_tenants :: "tenant_row list"
  ac_projects :: "acct_project list"
  ac_members :: "member_row list"
  ac_sessions :: "session_row list"
  ac_seqs :: "(int \<times> int) list"
  ac_keys :: "key_row list"
  ac_channels :: "mail_channel list"
  ac_codes :: "string \<rightharpoonup> code_row"
  ac_ips :: "string \<rightharpoonup> time \<times> int"
  ac_serial :: "acct_table \<Rightarrow> int"

section \<open>The environment of a request\<close>

text \<open>The queries, by the name they fail under; seeding a channel by its project.\<close>

datatype acct_query =
    QRecordIP | QGetCode | QUpsertCode | QIncAttempts | QMarkRedeemed
  | QGetPerson | QCreatePerson | QInsertTenant | QInsertProject | QInsertSeq | QInsertKey | QSeedChannel int
  | QOwnTenant | QPersonName | QActivateInvites | QLastScope | QProjectScope | QFirstProject
  | QCreateSession | QMarkVerified | QGetSession | QTouch | QDeleteSession | QGetMe | QByTelegram

text \<open>
  What a request draws from outside the tables: the clock, the failing queries, the random bytes (as they are drawn),
  SHA-256, and the deployment's settings. \<open>au_mailer\<close> is \<open>None\<close> without a mailer; a mailer
  with the optional \<^verbatim>\<open>Configured\<close> answers it in the inner option.
\<close>

record acct_env =
  au_now :: time
  au_fails :: "acct_query \<Rightarrow> bool"
  au_sha :: "string \<Rightarrow> string"
  au_code_bytes :: string
  au_token_bytes :: string
  au_key_bytes :: string
  au_uuid :: "acct_table \<Rightarrow> string"
  au_dev :: bool
  au_selfHosted :: bool
  au_mailer :: "bool option option"
  au_send_fails :: bool
  au_fixed :: "int \<times> int"

definition hex_digit :: "nat \<Rightarrow> char" where
  "hex_digit n = char_of (if n < 10 then 48 + n else 87 + n)"

text \<open>\<^verbatim>\<open>hex.EncodeToString\<close>.\<close>

definition hex_encode :: "string \<Rightarrow> string" where
  "hex_encode b = concat (map (\<lambda>c. [hex_digit (byte c div 16), hex_digit (byte c mod 16)]) b)"

text \<open>A \<^verbatim>\<open>bigserial\<close> column: the sequence advances whether or not the row is kept.\<close>

definition draw_id :: "acct_table \<Rightarrow> acct_db \<Rightarrow> int \<times> acct_db" where
  "draw_id t d = (ac_serial d t + 1, d\<lparr>ac_serial := (ac_serial d)(t := ac_serial d t + 1)\<rparr>)"

section \<open>People and workspaces\<close>

definition GetPersonByEmail :: "acct_env \<Rightarrow> string \<Rightarrow> acct_db \<Rightarrow> person_row option" where
  "GetPersonByEmail e email d =
     (if au_fails e QGetPerson then None else find (\<lambda>p. pe_email p = Some email) (ac_persons d))"

text \<open>The address is unique: an insert of one that is taken fails.\<close>

definition CreatePerson :: "acct_env \<Rightarrow> string \<Rightarrow> string \<Rightarrow> acct_db \<Rightarrow> person_row option \<times> acct_db" where
  "CreatePerson e email name d =
     (if au_fails e QCreatePerson then (None, d)
      else
        let (i, d) = draw_id TPerson d;
            p = \<lparr>pe_id = i, pe_public = au_uuid e TPerson, pe_email = Some email, pe_name = name,
                 pe_verified = None, pe_telegram = None\<rparr>
        in if \<exists>q \<in> set (ac_persons d). pe_email q = Some email then (None, d)
           else (Some p, d\<lparr>ac_persons := ac_persons d @ [p]\<rparr>))"

text \<open>The workspace a person owns: the oldest.\<close>

definition owned_tenants :: "int \<Rightarrow> acct_db \<Rightarrow> int list" where
  "owned_tenants person d = map tn_id (filter (\<lambda>t. tn_owner t = Some person) (ac_tenants d))"

definition OwnTenant :: "acct_env \<Rightarrow> int \<Rightarrow> acct_db \<Rightarrow> int option" where
  "OwnTenant e person d =
     (if au_fails e QOwnTenant \<or> owned_tenants person d = [] then None
      else Some (Min (set (owned_tenants person d))))"

definition insert_tenant ::
    "acct_env \<Rightarrow> string \<Rightarrow> string \<Rightarrow> int \<Rightarrow> acct_db \<Rightarrow> int option \<times> acct_db" where
  "insert_tenant e name plan owner d =
     (if au_fails e QInsertTenant then (None, d)
      else
        let (i, d) = draw_id TTenant d
        in if owner \<in> pe_id ` set (ac_persons d)
           then (Some i, d\<lparr>ac_tenants := ac_tenants d @ [\<lparr>tn_id = i, tn_name = name, tn_plan = plan, tn_owner = Some owner\<rparr>]\<rparr>)
           else (None, d))"

text \<open>The inserts of a new account. Each has foreign keys: a row naming a workspace or a project that is not there
  is refused.\<close>

definition insert_project ::
    "acct_env \<Rightarrow> int \<Rightarrow> string \<Rightarrow> acct_db \<Rightarrow> int option \<times> acct_db" where
  "insert_project e tenant domain d =
     (if au_fails e QInsertProject then (None, d)
      else
        let (i, d) = draw_id TProject d
        in if tenant \<in> tn_id ` set (ac_tenants d)
           then (Some i, d\<lparr>ac_projects := ac_projects d @
                   [\<lparr>pj_id = i, pj_public = au_uuid e TProject, pj_tenant = tenant, pj_domain = domain, pj_frozen = False,
                    pj_created = au_now e\<rparr>]\<rparr>)
           else (None, d))"

definition insert_seq :: "acct_env \<Rightarrow> int \<Rightarrow> acct_db \<Rightarrow> acct_db" where
  "insert_seq e project d =
     (if au_fails e QInsertSeq \<or> project \<notin> pj_id ` set (ac_projects d) \<or> project \<in> fst ` set (ac_seqs d) then d
      else d\<lparr>ac_seqs := ac_seqs d @ [(project, 1)]\<rparr>)"

definition insert_key :: "acct_env \<Rightarrow> int \<Rightarrow> int \<Rightarrow> string \<Rightarrow> string \<Rightarrow> acct_db \<Rightarrow> acct_db" where
  "insert_key e tenant project prefix hash d =
     (if au_fails e QInsertKey \<or> tenant \<notin> tn_id ` set (ac_tenants d) \<or> project \<notin> pj_id ` set (ac_projects d)
         \<or> prefix \<in> ky_prefix ` set (ac_keys d) then d
      else d\<lparr>ac_keys := ac_keys d @ [\<lparr>ky_tenant = tenant, ky_project = project, ky_prefix = prefix, ky_hash = hash\<rparr>]\<rparr>)"

text \<open>\<^verbatim>\<open>seedEmailChannel\<close>: the \<^verbatim>\<open>NOT EXISTS\<close> looks at the project and the address.\<close>

definition seedEmailChannel :: "acct_env \<Rightarrow> int \<Rightarrow> int \<Rightarrow> string \<Rightarrow> acct_db \<Rightarrow> acct_db" where
  "seedEmailChannel e tenant project email d =
     (if au_fails e (QSeedChannel project)
         \<or> (\<exists>c \<in> set (ac_channels d). mc_project c = project \<and> mc_target c = email)
         \<or> tenant \<notin> tn_id ` set (ac_tenants d) \<or> project \<notin> pj_id ` set (ac_projects d) then d
      else d\<lparr>ac_channels := ac_channels d @ [\<lparr>mc_tenant = tenant, mc_project = project, mc_target = email\<rparr>]\<rparr>)"

section \<open>Who reaches which project\<close>

definition owner_of :: "acct_db \<Rightarrow> int \<Rightarrow> int option" where
  "owner_of d tenant = Option.bind (find (\<lambda>t. tn_id t = tenant) (ac_tenants d)) tn_owner"

definition active_member :: "acct_db \<Rightarrow> int \<Rightarrow> int \<Rightarrow> bool" where
  "active_member d person project \<longleftrightarrow>
     (\<exists>m \<in> set (ac_members d). mb_project m = project \<and> mb_person m = person \<and> mb_status m = ''active'')"

definition reaches :: "acct_db \<Rightarrow> int \<Rightarrow> acct_project \<Rightarrow> bool" where
  "reaches d person x \<longleftrightarrow> owner_of d (pj_tenant x) = Some person \<or> active_member d person (pj_id x)"

text \<open>\<^verbatim>\<open>SELECT min(id)\<close>, \<open>None\<close> for its NULL.\<close>

definition lowest :: "acct_project list \<Rightarrow> int option" where
  "lowest xs = (if xs = [] then None else Some (Min (set (map pj_id xs))))"

definition project_of :: "acct_db \<Rightarrow> int \<Rightarrow> acct_project option" where
  "project_of d i = find (\<lambda>x. pj_id x = i) (ac_projects d)"

definition ProjectScope :: "acct_env \<Rightarrow> int \<Rightarrow> int \<Rightarrow> acct_db \<Rightarrow> (int \<times> int) option" where
  "ProjectScope e person project d =
     (if au_fails e QProjectScope then None
      else case project_of d project of
        Some x \<Rightarrow> if reaches d person x then Some (pj_tenant x, pj_id x) else None
      | None \<Rightarrow> None)"

text \<open>The session of a person that was seen last, of those whose project is there and not frozen.\<close>

fun latest :: "session_row list \<Rightarrow> session_row option" where
  "latest [] = None"
| "latest (s # ss) =
     (case latest ss of
        Some s' \<Rightarrow> if ss_seen s' > ss_seen s then Some s' else Some s
      | None \<Rightarrow> Some s)"

definition live_project :: "acct_db \<Rightarrow> int \<Rightarrow> bool" where
  "live_project d i = (case project_of d i of Some x \<Rightarrow> \<not> pj_frozen x | None \<Rightarrow> False)"

definition LastSessionScope :: "acct_env \<Rightarrow> int \<Rightarrow> acct_db \<Rightarrow> session_row option" where
  "LastSessionScope e person d =
     (if au_fails e QLastScope then None
      else latest (filter (\<lambda>s. ss_person s = person
                             \<and> (case ss_project s of Some i \<Rightarrow> live_project d i | None \<Rightarrow> False)) (ac_sessions d)))"

text \<open>
  \<^verbatim>\<open>ORDER BY (t.owner_person_id = $1) DESC, p.id LIMIT 1\<close>. For a workspace without an owner the comparison is NULL, and
  PostgreSQL sorts NULL before true in descending order.
\<close>

definition FirstReachableProject :: "acct_env \<Rightarrow> int \<Rightarrow> acct_db \<Rightarrow> (int \<times> int) option" where
  "FirstReachableProject e person d =
     (if au_fails e QFirstProject then None
      else
        let reached = filter (\<lambda>x. reaches d person x \<and> \<not> pj_frozen x) (ac_projects d);
            ownerless = filter (\<lambda>x. owner_of d (pj_tenant x) = None) reached;
            own = filter (\<lambda>x. owner_of d (pj_tenant x) = Some person) reached;
            first = (if ownerless \<noteq> [] then lowest ownerless else if own \<noteq> [] then lowest own else lowest reached)
        in case first of
             Some i \<Rightarrow> map_option (\<lambda>x. (pj_tenant x, i)) (project_of d i)
           | None \<Rightarrow> None)"

text \<open>\<^verbatim>\<open>ReachableProjectInTenant\<close>: the pick of the session while it is reachable, else the lowest, else 0.\<close>

definition in_tenant :: "acct_db \<Rightarrow> int \<Rightarrow> int \<Rightarrow> acct_project list" where
  "in_tenant d tenant person =
     filter (\<lambda>x. pj_tenant x = tenant \<and> \<not> pj_frozen x
               \<and> ((\<exists>t \<in> set (ac_tenants d). tn_id t = pj_tenant x \<and> tn_owner t = Some person)
                  \<or> active_member d person (pj_id x))) (ac_projects d)"

definition ReachableProjectInTenant :: "acct_db \<Rightarrow> int option \<Rightarrow> int \<Rightarrow> int \<Rightarrow> int" where
  "ReachableProjectInTenant d pick tenant person =
     (case find (\<lambda>x. Some (pj_id x) = pick) (in_tenant d tenant person) of
        Some x \<Rightarrow> pj_id x
      | None \<Rightarrow> (case lowest (in_tenant d tenant person) of Some i \<Rightarrow> i | None \<Rightarrow> 0))"

text \<open>\<^verbatim>\<open>ActivateInvites\<close>: an invitation into a frozen project stays pending.\<close>

definition waiting_invite :: "acct_db \<Rightarrow> int \<Rightarrow> member_row \<Rightarrow> bool" where
  "waiting_invite d person m \<longleftrightarrow>
     mb_person m = person \<and> mb_status m = ''pending''
     \<and> \<not> (\<exists>x \<in> set (ac_projects d). pj_id x = mb_project m \<and> pj_frozen x)"

definition ActivateInvites :: "acct_env \<Rightarrow> int \<Rightarrow> acct_db \<Rightarrow> (int \<times> int) list option \<times> acct_db" where
  "ActivateInvites e person d =
     (if au_fails e QActivateInvites then (None, d)
      else (Some (map (\<lambda>m. (mb_project m, mb_tenant m)) (filter (waiting_invite d person) (ac_members d))),
            d\<lparr>ac_members := map (\<lambda>m. if waiting_invite d person m then m\<lparr>mb_status := ''active''\<rparr> else m) (ac_members d)\<rparr>))"

section \<open>Sessions\<close>

text \<open>The hash is unique, and the person, the workspace and the project must be there.\<close>

definition CreateSession ::
    "acct_env \<Rightarrow> string \<Rightarrow> int \<Rightarrow> int \<Rightarrow> int option \<Rightarrow> duration \<Rightarrow> acct_db \<Rightarrow> bool \<times> acct_db" where
  "CreateSession e hash person tenant project ttl d =
     (if au_fails e QCreateSession then (False, d)
      else
        let (i, d) = draw_id TSession d
        in if hash \<in> ss_hash ` set (ac_sessions d) \<or> person \<notin> pe_id ` set (ac_persons d)
              \<or> tenant \<notin> tn_id ` set (ac_tenants d)
              \<or> (case project of Some p \<Rightarrow> p \<notin> pj_id ` set (ac_projects d) | None \<Rightarrow> False)
           then (False, d)
           else (True, d\<lparr>ac_sessions := ac_sessions d @
                  [\<lparr>ss_id = i, ss_hash = hash, ss_person = person, ss_tenant = tenant, ss_project = project,
                    ss_seen = au_now e, ss_expires = Add (au_now e) ttl\<rparr>]\<rparr>))"

datatype 'a row_answer = NoRows | Broken | TheRow 'a

definition GetSessionByToken :: "acct_env \<Rightarrow> string \<Rightarrow> acct_db \<Rightarrow> session_row row_answer" where
  "GetSessionByToken e hash d =
     (if au_fails e QGetSession then Broken
      else case find (\<lambda>s. ss_hash s = hash \<and> ss_expires s > au_now e) (ac_sessions d) of
        Some s \<Rightarrow> TheRow s
      | None \<Rightarrow> NoRows)"

definition TouchSession :: "acct_env \<Rightarrow> int \<Rightarrow> acct_db \<Rightarrow> acct_db" where
  "TouchSession e i d =
     (if au_fails e QTouch then d
      else d\<lparr>ac_sessions := map (\<lambda>s. if ss_id s = i then s\<lparr>ss_seen := au_now e\<rparr> else s) (ac_sessions d)\<rparr>)"

definition DeleteSession :: "acct_env \<Rightarrow> string \<Rightarrow> acct_db \<Rightarrow> acct_db" where
  "DeleteSession e hash d =
     (if au_fails e QDeleteSession then d
      else d\<lparr>ac_sessions := filter (\<lambda>s. ss_hash s \<noteq> hash) (ac_sessions d)\<rparr>)"

section \<open>The account behind a session\<close>

text \<open>\<^verbatim>\<open>GetMe\<close> and \<^verbatim>\<open>GetMeByIdentity\<close>: the joins that answer \<^verbatim>\<open>/v1/me\<close>.\<close>

record me_row =
  me_person :: person_row
  me_role :: string
  me_plan :: string
  me_owned :: bool
  me_owner_email :: "string option"
  me_project :: "acct_project option"

definition me_join :: "acct_db \<Rightarrow> int option \<Rightarrow> person_row \<Rightarrow> tenant_row \<Rightarrow> me_row" where
  "me_join d pick p t =
     (let mine = filter (\<lambda>x. pj_tenant x = tn_id t \<and> \<not> pj_frozen x
                           \<and> (tn_owner t = Some (pe_id p) \<or> active_member d (pe_id p) (pj_id x))) (ac_projects d);
          chosen = (case find (\<lambda>x. Some (pj_id x) = pick) mine of
                      Some x \<Rightarrow> Some (pj_id x)
                    | None \<Rightarrow> lowest mine);
          project = Option.bind chosen (project_of d);
          role = (case Option.bind project (\<lambda>x. find (\<lambda>m. mb_project m = pj_id x \<and> mb_person m = pe_id p
                                                        \<and> mb_status m = ''active'') (ac_members d)) of
                    Some m \<Rightarrow> mb_role m
                  | None \<Rightarrow> ''notify'')
      in \<lparr>me_person = p,
          me_role = (if tn_owner t = Some (pe_id p) then ''login'' else role),
          me_plan = tn_plan t,
          me_owned = (tn_owner t = Some (pe_id p)),
          me_owner_email = Option.bind (tn_owner t)
             (\<lambda>w. Option.bind (find (\<lambda>q. pe_id q = w) (ac_persons d)) pe_email),
          me_project = project\<rparr>)"

definition me_of :: "acct_db \<Rightarrow> int option \<Rightarrow> int \<Rightarrow> int \<Rightarrow> me_row row_answer" where
  "me_of d pick person tenant =
     (case (find (\<lambda>p. pe_id p = person) (ac_persons d), find (\<lambda>t. tn_id t = tenant) (ac_tenants d)) of
        (Some p, Some t) \<Rightarrow> TheRow (me_join d pick p t)
      | _ \<Rightarrow> NoRows)"

definition GetMe :: "acct_env \<Rightarrow> string \<Rightarrow> acct_db \<Rightarrow> me_row row_answer" where
  "GetMe e hash d =
     (if au_fails e QGetMe then Broken
      else case find (\<lambda>s. ss_hash s = hash \<and> ss_expires s > au_now e) (ac_sessions d) of
        Some s \<Rightarrow> me_of d (ss_project s) (ss_person s) (ss_tenant s)
      | None \<Rightarrow> NoRows)"

definition GetMeByIdentity :: "acct_env \<Rightarrow> int \<Rightarrow> int \<Rightarrow> acct_db \<Rightarrow> me_row row_answer" where
  "GetMeByIdentity e person tenant d = (if au_fails e QGetMe then Broken else me_of d None person tenant)"

end
