(* ===== verification/MagicLink.thy ===== *)
theory MagicLink
  imports Account Utf8
begin

text \<open>
  The magic-link door, \<^verbatim>\<open>back/internal/account/auth/auth.go\<close>: asking for a sign-in code and redeeming it, the account
  that is created on the way, the invitations it accepts and the project the session opens on. Times are
  read once per request.
\<close>

section \<open>Policy\<close>

definition codeTTL :: duration where "codeTTL = 10 * minute"
definition maxCodeAttempts :: int where "maxCodeAttempts = 5"
definition emailCooldown :: duration where "emailCooldown = 60 * second"
definition ipWindowCap :: int where "ipWindowCap = 10"
definition ipBlockWindow :: duration where "ipBlockWindow = 5 * minute"
definition DefaultTTL :: duration where "DefaultTTL = 30 * 24 * hour"

section \<open>Reading the request\<close>

text \<open>\<^verbatim>\<open>strings.EqualFold\<close> with a lower-case ASCII string: besides the capitals only the Kelvin sign and the long s fold
  to an ASCII letter.\<close>

definition fold_rune :: "nat \<Rightarrow> nat" where
  "fold_rune r =
     (if 65 \<le> r \<and> r \<le> 90 then r + 32 else if r = 0x212A then 107 else if r = 0x17F then 115 else r)"

definition EqualFold_ascii :: "string \<Rightarrow> string \<Rightarrow> bool" where
  "EqualFold_ascii s t \<longleftrightarrow> map fold_rune (runes s) = map byte t"

definition crossSitePost :: "(string \<Rightarrow> string) \<Rightarrow> bool" where
  "crossSitePost h =
     (if h ''Sec-Fetch-Site'' \<in> {''cross-site'', ''same-site'', ''none''} then True
      else
        let ct = h ''Content-Type'';
            ct = (case index_byte ct CHR '';'' of Some i \<Rightarrow> take i ct | None \<Rightarrow> ct)
        in \<not> EqualFold_ascii (TrimSpace ct) ''application/json'')"

definition NormalizeEmail :: "string \<Rightarrow> string" where
  "NormalizeEmail email = ToLower (TrimSpace email)"

definition NameFromEmail :: "string \<Rightarrow> string" where
  "NameFromEmail email =
     (case index_byte email CHR ''@'' of
        Some i \<Rightarrow> if i > 0 then take i email else email
      | None \<Rightarrow> email)"

record magicLinkReq =
  mr_Email :: string
  mr_Token :: string
  mr_Claim :: string
  mr_ClaimToken :: string
  mr_Next :: string

record pendingClaim =
  pc_Slug :: string
  pc_Token :: string
  pc_Next :: string

text \<open>The three patterns, as recognisers.\<close>

definition slug_char :: "char \<Rightarrow> bool" where
  "slug_char c \<longleftrightarrow> is_lower c \<or> is_digit c"

definition claimSlugRe :: "string \<Rightarrow> bool" where
  "claimSlugRe s =
     (case s of [] \<Rightarrow> False
      | c # cs \<Rightarrow> slug_char c \<and> length cs \<le> 63 \<and> list_all (\<lambda>c. slug_char c \<or> c = CHR ''-'') cs)"

definition claimTokenRe :: "string \<Rightarrow> bool" where
  "claimTokenRe s \<longleftrightarrow> length s = 32 \<and> list_all (\<lambda>c. is_digit c \<or> between CHR ''a'' CHR ''f'' c) s"

definition nextPathRe :: "string \<Rightarrow> bool" where
  "nextPathRe s \<longleftrightarrow>
     has_prefix s ''/app''
     \<and> (case drop 4 s of [] \<Rightarrow> True
        | c # cs \<Rightarrow> (c = CHR ''/'' \<or> c = CHR ''?'' \<or> c = CHR ''#'') \<and> length cs \<le> 250
                     \<and> list_all (between CHR ''!'' CHR ''~'') cs)"

definition BACKSLASH :: char where "BACKSLASH = CHR 0x5C"

definition pendingFrom :: "magicLinkReq \<Rightarrow> pendingClaim" where
  "pendingFrom req =
     \<lparr>pc_Slug = (if claimSlugRe (mr_Claim req) then mr_Claim req else []),
      pc_Token = (if claimTokenRe (mr_ClaimToken req) then mr_ClaimToken req else []),
      pc_Next = (if nextPathRe (mr_Next req) \<and> \<not> contains (mr_Next req) ''//'' \<and> \<not> contains (mr_Next req) [BACKSLASH]
                 then mr_Next req else [])\<rparr>"

definition no_claim :: pendingClaim where
  "no_claim = \<lparr>pc_Slug = [], pc_Token = [], pc_Next = []\<rparr>"

section \<open>What a door answers and does outside the tables\<close>

record personInfo =
  pi_ID :: int
  pi_PublicID :: string
  pi_Name :: string
  pi_Email :: string
  pi_TenantID :: int

record cookie =
  ck_Value :: string
  ck_MaxAge :: int
  ck_Secure :: bool

datatype door_answer =
    Refused nat string
  | AcceptedCode "string option"
  | SignedIn personInfo pendingClaim cookie

datatype door_event =
    MailedCode string string
  | LoggedCode string string
  | ServerEvent string int int
  | LinkedPerson int int
  | MarkedAccountCreated int int

type_synonym door_result = "door_answer \<times> door_event list \<times> acct_db"

section \<open>The queries on codes and addresses\<close>

definition orNull :: "string \<Rightarrow> string option" where
  "orNull s = (if s = [] then None else Some s)"

definition ptrStr :: "string option \<Rightarrow> string" where
  "ptrStr s = (case s of None \<Rightarrow> [] | Some s \<Rightarrow> s)"

definition GetMagicLinkCode :: "acct_env \<Rightarrow> string \<Rightarrow> acct_db \<Rightarrow> code_row option" where
  "GetMagicLinkCode e email d = (if au_fails e QGetCode then None else ac_codes d email)"

definition UpsertMagicLinkCode :: "acct_env \<Rightarrow> string \<Rightarrow> string \<Rightarrow> pendingClaim \<Rightarrow> acct_db \<Rightarrow> acct_db option" where
  "UpsertMagicLinkCode e email hash p d =
     (if au_fails e QUpsertCode then None
      else Some (d\<lparr>ac_codes := (ac_codes d)(email \<mapsto>
             \<lparr>cd_hash = hash, cd_attempts = 0, cd_expires = Add (au_now e) codeTTL, cd_redeemed = None,
              cd_created = au_now e, cd_slug = orNull (pc_Slug p), cd_token = orNull (pc_Token p),
              cd_next = orNull (pc_Next p)\<rparr>)\<rparr>))"

definition MarkMagicLinkRedeemed :: "acct_env \<Rightarrow> string \<Rightarrow> acct_db \<Rightarrow> acct_db" where
  "MarkMagicLinkRedeemed e email d =
     (if au_fails e QMarkRedeemed then d
      else case ac_codes d email of
        Some c \<Rightarrow> if cd_redeemed c = None
                 then d\<lparr>ac_codes := (ac_codes d)(email \<mapsto>
                        c\<lparr>cd_redeemed := Some (au_now e), cd_slug := None, cd_token := None, cd_next := None\<rparr>)\<rparr>
                 else d
      | None \<Rightarrow> d)"

definition IncMagicLinkAttempts :: "acct_env \<Rightarrow> string \<Rightarrow> acct_db \<Rightarrow> acct_db" where
  "IncMagicLinkAttempts e email d =
     (if au_fails e QIncAttempts then d
      else case ac_codes d email of
        Some c \<Rightarrow> d\<lparr>ac_codes := (ac_codes d)(email \<mapsto> c\<lparr>cd_attempts := cd_attempts c + 1\<rparr>)\<rparr>
      | None \<Rightarrow> d)"

text \<open>\<^verbatim>\<open>RecordMagicLinkIP\<close>: the count after this request, and the row it leaves.\<close>

definition window_row :: "time \<Rightarrow> (time \<times> int) option \<Rightarrow> time \<times> int" where
  "window_row now row =
     (case row of
        None \<Rightarrow> (now, 1)
      | Some (first, count) \<Rightarrow> if first > now - ipBlockWindow then (first, count + 1) else (now, 1))"

definition RecordMagicLinkIP :: "acct_env \<Rightarrow> string \<Rightarrow> acct_db \<Rightarrow> int option \<times> acct_db" where
  "RecordMagicLinkIP e ip d =
     (if au_fails e QRecordIP then (None, d)
      else let w = window_row (au_now e) (ac_ips d ip)
           in (Some (snd w), d\<lparr>ac_ips := (ac_ips d)(ip \<mapsto> w)\<rparr>))"

definition over_the_window :: "int option \<Rightarrow> bool" where
  "over_the_window cnt = (case cnt of Some n \<Rightarrow> n > ipWindowCap | None \<Rightarrow> False)"

section \<open>Accounts\<close>

definition plan_of :: "acct_env \<Rightarrow> string" where
  "plan_of e = (if au_selfHosted e then ''Self-hosted'' else ''Free'')"

definition workspace_suffix :: string where
  "workspace_suffix = SQUOTE # ''s workspace''"

definition create_workspace :: "acct_env \<Rightarrow> int \<Rightarrow> acct_db \<Rightarrow> int option \<times> acct_db" where
  "create_workspace e person d =
     (let row = (if au_fails e QPersonName then None else find (\<lambda>p. pe_id p = person) (ac_persons d));
          name = (case row of Some p \<Rightarrow> pe_name p | None \<Rightarrow> []);
          email = (case row of Some p \<Rightarrow> ptrStr (pe_email p) | None \<Rightarrow> []);
          name = (if name = [] then NameFromEmail email else name);
          name = (if name = [] then ''My'' else name)
      in insert_tenant e (name @ workspace_suffix) (plan_of e) person d)"

definition OwnTenantID :: "acct_env \<Rightarrow> int \<Rightarrow> acct_db \<Rightarrow> int option \<times> acct_db" where
  "OwnTenantID e person d =
     (case OwnTenant e person d of
        Some i \<Rightarrow> if i \<noteq> 0 then (Some i, d) else create_workspace e person d
      | None \<Rightarrow> create_workspace e person d)"

text \<open>The columns of a new account that \<^verbatim>\<open>ensureAccount\<close> fills after the person's: every error is dropped, and an
  id that was not scanned is 0.\<close>

definition or_zero :: "int option \<Rightarrow> int" where
  "or_zero x = (case x of Some i \<Rightarrow> i | None \<Rightarrow> 0)"

definition new_account :: "acct_env \<Rightarrow> string \<Rightarrow> string \<Rightarrow> int \<Rightarrow> acct_db \<Rightarrow> int \<times> acct_db" where
  "new_account e email domain person d =
     (let (t, d) = insert_tenant e (NameFromEmail email @ workspace_suffix) (plan_of e) person d;
          tenant = or_zero t;
          (p, d) = insert_project e tenant domain d;
          project = or_zero p;
          d = insert_seq e project d;
          keySecret = hex_encode (au_key_bytes e);
          d = insert_key e tenant project (take 12 keySecret) (au_sha e (''uc_live_'' @ keySecret)) d
      in (tenant, seedEmailChannel e tenant project email d))"

definition ensureAccount :: "acct_env \<Rightarrow> string \<Rightarrow> string \<Rightarrow> acct_db \<Rightarrow> personInfo option \<times> acct_db" where
  "ensureAccount e email0 domain d =
     (let email = NormalizeEmail email0 in
      case GetPersonByEmail e email d of
        Some p \<Rightarrow>
          (case OwnTenantID e (pe_id p) d of
             (t, d) \<Rightarrow> (Some \<lparr>pi_ID = pe_id p, pi_PublicID = pe_public p, pi_Name = pe_name p,
                             pi_Email = ptrStr (pe_email p), pi_TenantID = or_zero t\<rparr>, d))
      | None \<Rightarrow>
          (case CreatePerson e email (NameFromEmail email) d of
             (None, d) \<Rightarrow> (None, d)
           | (Some p, d) \<Rightarrow>
               (case new_account e email domain (pe_id p) d of
                  (t, d) \<Rightarrow> (Some \<lparr>pi_ID = pe_id p, pi_PublicID = pe_public p, pi_Name = pe_name p,
                                  pi_Email = ptrStr (pe_email p), pi_TenantID = t\<rparr>, d))))"

definition ensurePerson :: "acct_env \<Rightarrow> string \<Rightarrow> acct_db \<Rightarrow> personInfo option \<times> acct_db" where
  "ensurePerson e email d = ensureAccount e email [] d"

text \<open>\<^verbatim>\<open>Provision\<close>: the same account for the callers outside the sign-in flow.\<close>

definition Provision :: "acct_env \<Rightarrow> string \<Rightarrow> string \<Rightarrow> acct_db \<Rightarrow> (int \<times> int) option \<times> acct_db" where
  "Provision e email domain d =
     (case ensureAccount e email domain d of
        (p, d) \<Rightarrow> (map_option (\<lambda>p. (pi_ID p, pi_TenantID p)) p, d))"

section \<open>Asking for a code\<close>

definition genCode :: "acct_env \<Rightarrow> string" where
  "genCode e = take 8 (hex_encode (au_code_bytes e))"

datatype issue_error = ErrCodeCooldown | ErrRateLimited | ErrStore

definition cooling :: "acct_env \<Rightarrow> code_row option \<Rightarrow> bool" where
  "cooling e row = (case row of Some c \<Rightarrow> Sub (au_now e) (cd_created c) < emailCooldown | None \<Rightarrow> False)"

definition issueCode :: "acct_env \<Rightarrow> string \<Rightarrow> pendingClaim \<Rightarrow> acct_db \<Rightarrow> (issue_error + string) \<times> acct_db" where
  "issueCode e email pending d =
     (if cooling e (GetMagicLinkCode e email d) then (Inl ErrCodeCooldown, d)
      else
        let code = genCode e in
        case UpsertMagicLinkCode e email (au_sha e code) pending d of
          None \<Rightarrow> (Inl ErrStore, d)
        | Some d \<Rightarrow> (Inr code, d))"

definition IssueLoginCode :: "acct_env \<Rightarrow> string \<Rightarrow> string \<Rightarrow> acct_db \<Rightarrow> (issue_error + string) \<times> acct_db" where
  "IssueLoginCode e email ip d =
     (case RecordMagicLinkIP e ip d of
        (cnt, d) \<Rightarrow>
          if over_the_window cnt then (Inl ErrRateLimited, d)
          else issueCode e (NormalizeEmail email) no_claim d)"

text \<open>Delivery of the code. \<open>mailer_of\<close> is the mailer after \<^verbatim>\<open>Configured\<close> was asked.\<close>

definition mailer_of :: "acct_env \<Rightarrow> bool" where
  "mailer_of e = (case au_mailer e of None \<Rightarrow> False | Some None \<Rightarrow> True | Some (Some c) \<Rightarrow> c)"

definition deliver_code :: "acct_env \<Rightarrow> string \<Rightarrow> string \<Rightarrow> door_answer \<times> door_event list" where
  "deliver_code e email code =
     (let sent = (if mailer_of e then [MailedCode email code] else []) in
      if au_dev e then (AcceptedCode (Some code), sent)
      else if mailer_of e then
        (if au_send_fails e then Refused 503 ''email_unavailable'' else AcceptedCode None, sent)
      else (AcceptedCode None, [LoggedCode email code]))"

definition request_code :: "acct_env \<Rightarrow> string \<Rightarrow> string \<Rightarrow> pendingClaim \<Rightarrow> acct_db \<Rightarrow> door_result" where
  "request_code e ip email pending d =
     (case RecordMagicLinkIP e ip d of
        (cnt, d) \<Rightarrow>
          if over_the_window cnt then (Refused 429 ''rate_limited'', [], d)
          else case ensurePerson e email d of
            (None, d) \<Rightarrow> (Refused 500 ''internal'', [], d)
          | (Some p, d) \<Rightarrow>
              (case issueCode e email pending d of
                 (Inl err, d) \<Rightarrow>
                   (if err = ErrCodeCooldown then Refused 429 ''rate_limited'' else Refused 500 ''internal'', [], d)
               | (Inr code, d) \<Rightarrow>
                   (case deliver_code e email code of
                      (ans, evs) \<Rightarrow> (ans, ServerEvent ''magic_link_requested'' 0 0 # evs, d))))"

section \<open>Redeeming it\<close>

record codeRecord =
  cr_Hash :: string
  cr_Attempts :: int
  cr_Expires :: time
  cr_Redeemed :: bool

definition codeRecordFrom :: "code_row \<Rightarrow> codeRecord" where
  "codeRecordFrom c =
     \<lparr>cr_Hash = cd_hash c, cr_Attempts = cd_attempts c, cr_Expires = cd_expires c, cr_Redeemed = (cd_redeemed c \<noteq> None)\<rparr>"

definition validateCode :: "acct_env \<Rightarrow> codeRecord \<Rightarrow> string \<Rightarrow> time \<Rightarrow> bool" where
  "validateCode e rec submitted now =
     (if cr_Hash rec = [] \<or> submitted = [] then False
      else if now > cr_Expires rec then False
      else if cr_Redeemed rec then False
      else if cr_Attempts rec \<ge> maxCodeAttempts then False
      else au_sha e submitted = cr_Hash rec)"

definition activateInvites :: "acct_env \<Rightarrow> int \<Rightarrow> string \<Rightarrow> acct_db \<Rightarrow> (int \<times> int) list \<times> acct_db" where
  "activateInvites e person email0 d =
     (let email = NormalizeEmail email0 in
      case ActivateInvites e person d of
        (None, d) \<Rightarrow> ([], d)
      | (Some rows, d) \<Rightarrow> (rows, fold (\<lambda>(project, tenant). seedEmailChannel e tenant project email) rows d))"

text \<open>The tenant and the project a session opens on.\<close>

definition remembered_scope :: "acct_env \<Rightarrow> int \<Rightarrow> acct_db \<Rightarrow> (int \<times> int) option" where
  "remembered_scope e person d =
     (case LastSessionScope e person d of
        Some s \<Rightarrow> (case ss_project s of Some i \<Rightarrow> ProjectScope e person i d | None \<Rightarrow> None)
      | None \<Rightarrow> None)"

definition landing :: "acct_env \<Rightarrow> personInfo \<Rightarrow> (int \<times> int) list \<Rightarrow> acct_db \<Rightarrow> int \<times> int option" where
  "landing e person just d =
     (case just of
        (project, tenant) # _ \<Rightarrow> (tenant, Some project)
      | [] \<Rightarrow>
          (case remembered_scope e (pi_ID person) d of
             Some (tenant, project) \<Rightarrow> (tenant, Some project)
           | None \<Rightarrow>
               (case FirstReachableProject e (pi_ID person) d of
                  Some (tenant, project) \<Rightarrow> (tenant, Some project)
                | None \<Rightarrow> (pi_TenantID person, None))))"

definition markVerified :: "acct_env \<Rightarrow> personInfo \<Rightarrow> acct_db \<Rightarrow> door_event list \<times> acct_db" where
  "markVerified e p d =
     (if au_fails e QMarkVerified then ([], d)
      else if \<exists>q \<in> set (ac_persons d). pe_id q = pi_ID p \<and> pe_verified q = None
      then ([ServerEvent ''account_created'' (pi_ID p) (pi_TenantID p), MarkedAccountCreated (pi_ID p) (pi_TenantID p)],
            d\<lparr>ac_persons := map (\<lambda>q. if pe_id q = pi_ID p \<and> pe_verified q = None
                                     then q\<lparr>pe_verified := Some (au_now e)\<rparr> else q) (ac_persons d)\<rparr>)
      else ([], d))"

text \<open>\<^verbatim>\<open>Manager.Create\<close> and \<^verbatim>\<open>SetCookie\<close>: the token is random, its hash is stored.\<close>

definition sess_Create ::
    "acct_env \<Rightarrow> int \<Rightarrow> int \<Rightarrow> int option \<Rightarrow> acct_db \<Rightarrow> string option \<times> acct_db" where
  "sess_Create e person tenant project d =
     (let raw = hex_encode (au_token_bytes e) in
      case CreateSession e (au_sha e raw) person tenant project DefaultTTL d of
        (ok, d) \<Rightarrow> (if ok then Some raw else None, d))"

definition SetCookie :: "acct_env \<Rightarrow> string \<Rightarrow> cookie" where
  "SetCookie e token = \<lparr>ck_Value = token, ck_MaxAge = DefaultTTL div second, ck_Secure = (\<not> au_dev e)\<rparr>"

text \<open>From the proven address to the session: what \<^verbatim>\<open>redeem\<close> does after the code was marked, and the Google door after
  the claims were verified.\<close>

definition sign_in :: "acct_env \<Rightarrow> string \<Rightarrow> pendingClaim \<Rightarrow> acct_db \<Rightarrow> door_result" where
  "sign_in e email pending d =
     (case ensurePerson e email d of
        (None, d) \<Rightarrow> (Refused 500 ''internal'', [], d)
      | (Some person, d) \<Rightarrow>
          (case activateInvites e (pi_ID person) email d of
             (activated, d) \<Rightarrow>
               (case landing e person activated d of
                  (tenant, project) \<Rightarrow>
                    (case sess_Create e (pi_ID person) tenant project d of
                       (None, d) \<Rightarrow> (Refused 500 ''internal'', [], d)
                     | (Some token, d) \<Rightarrow>
                         (case markVerified e person d of
                            (born, d) \<Rightarrow>
                              (SignedIn person pending (SetCookie e token),
                               born @ [ServerEvent ''signed_in'' (pi_ID person) (pi_TenantID person),
                                       LinkedPerson (pi_ID person) (pi_TenantID person)], d))))))"

definition redeem_act :: "acct_env \<Rightarrow> string \<Rightarrow> string \<Rightarrow> code_row \<Rightarrow> acct_db \<Rightarrow> door_result" where
  "redeem_act e email token stored d =
     (if \<not> validateCode e (codeRecordFrom stored) token (au_now e) then
        (Refused 401 ''invalid_token'', [], IncMagicLinkAttempts e email d)
      else
        sign_in e email
          \<lparr>pc_Slug = ptrStr (cd_slug stored), pc_Token = ptrStr (cd_token stored), pc_Next = ptrStr (cd_next stored)\<rparr>
          (MarkMagicLinkRedeemed e email d))"

definition redeem :: "acct_env \<Rightarrow> string \<Rightarrow> string \<Rightarrow> acct_db \<Rightarrow> door_result" where
  "redeem e email token d =
     (case GetMagicLinkCode e email d of
        None \<Rightarrow> (Refused 401 ''invalid_token'', [], d)
      | Some stored \<Rightarrow> redeem_act e email token stored d)"

text \<open>The door: \<open>body\<close> is what the JSON decoder made of the body.\<close>

definition magic_ServeHTTP ::
    "acct_env \<Rightarrow> (string \<Rightarrow> string) \<Rightarrow> string \<Rightarrow> magicLinkReq option \<Rightarrow> acct_db \<Rightarrow> door_result" where
  "magic_ServeHTTP e h ip body d =
     (if crossSitePost h then (Refused 403 ''cross_site'', [], d)
      else case body of
        None \<Rightarrow> (Refused 400 ''bad_body'', [], d)
      | Some req \<Rightarrow>
          let email = NormalizeEmail (mr_Email req) in
          if email = [] then (Refused 400 ''missing_email'', [], d)
          else if mr_Token req = [] then request_code e ip email (pendingFrom req) d
          else redeem e email (mr_Token req) d)"

end
