(* ===== verification/SignIn.thy ===== *)
theory SignIn
  imports MagicLink Ingest GoUrl "HOL-Library.List_Lexorder" "HOL-Library.Char_ord"
begin

text \<open>
  Sessions (\<^verbatim>\<open>back/internal/account/session/session.go\<close>), the two other sign-in doors (\<^verbatim>\<open>account/auth/google.go\<close> and
  \<^verbatim>\<open>telegram.go\<close>), \<^verbatim>\<open>GET /v1/me\<close> and the logout. \<^verbatim>\<open>url.ParseQuery\<close> and base64 are written out; HMAC-SHA-256, the JSON
  decoders and Google's token endpoint are parameters.
\<close>

section \<open>Sessions\<close>

datatype sess_error = ErrNoSession | ErrNoRows | ErrCheck

text \<open>\<^verbatim>\<open>Refusal\<close>: 401 only when there is no session.\<close>

definition Refusal :: "sess_error \<Rightarrow> nat \<times> string" where
  "Refusal err = (if err = ErrNoSession \<or> err = ErrNoRows then (401, ''no_session'') else (500, ''internal''))"

definition LookupSession :: "acct_env \<Rightarrow> string \<Rightarrow> acct_db \<Rightarrow> (sess_error + session_row) \<times> acct_db" where
  "LookupSession e rawToken d =
     (case GetSessionByToken e (au_sha e rawToken) d of
        Broken \<Rightarrow> (Inl ErrCheck, d)
      | NoRows \<Rightarrow> (Inl ErrNoSession, d)
      | TheRow s \<Rightarrow> (Inr s, TouchSession e (ss_id s) d))"

definition sess_Delete :: "acct_env \<Rightarrow> string \<Rightarrow> acct_db \<Rightarrow> acct_db" where
  "sess_Delete e rawToken d = DeleteSession e (au_sha e rawToken) d"

text \<open>\<open>au_fixed\<close> is the identity of single-user mode, whose person is 0 otherwise. The session it answers with has the
  zero value in every other field.\<close>

definition fixed_session :: "acct_env \<Rightarrow> session_row" where
  "fixed_session e =
     \<lparr>ss_id = 0, ss_hash = [], ss_person = fst (au_fixed e), ss_tenant = snd (au_fixed e), ss_project = None,
      ss_seen = zero_time, ss_expires = zero_time\<rparr>"

definition FromRequest :: "acct_env \<Rightarrow> string option \<Rightarrow> acct_db \<Rightarrow> (sess_error + session_row) \<times> acct_db" where
  "FromRequest e ck d =
     (if fst (au_fixed e) \<noteq> 0 then (Inr (fixed_session e), d)
      else case ck of
        None \<Rightarrow> (Inl ErrNoSession, d)
      | Some v \<Rightarrow> if v = [] then (Inl ErrNoSession, d) else LookupSession e v d)"

definition ClearCookie :: cookie where
  "ClearCookie = \<lparr>ck_Value = [], ck_MaxAge = - 1, ck_Secure = True\<rparr>"

definition logout_ServeHTTP :: "acct_env \<Rightarrow> string option \<Rightarrow> acct_db \<Rightarrow> nat \<times> cookie \<times> acct_db" where
  "logout_ServeHTTP e ck d =
     (204, ClearCookie, case ck of Some v \<Rightarrow> if v \<noteq> [] then sess_Delete e v d else d | None \<Rightarrow> d)"

section \<open>Who am I\<close>

text \<open>\<^verbatim>\<open>strings.Fields\<close>.\<close>

fun fields_from :: "string \<Rightarrow> string \<Rightarrow> string list" where
  "fields_from w [] = (if w = [] then [] else [w])"
| "fields_from w (c # s) =
     (if is_space c then (if w = [] then fields_from [] s else w # fields_from [] s)
      else fields_from (w @ [c]) s)"

definition Fields :: "string \<Rightarrow> string list" where
  "Fields s = fields_from [] s"

text \<open>\<open>up\<close> is \<^verbatim>\<open>strings.ToUpper\<close>. The slices cut bytes.\<close>

definition initials :: "(string \<Rightarrow> string) \<Rightarrow> string \<Rightarrow> string \<Rightarrow> string" where
  "initials up name email =
     (let by_email = (if length email \<ge> 2 then up (take 2 email) else ''U'') in
      if name \<noteq> [] then
        (case Fields name of
           p # q # _ \<Rightarrow> up (take 1 p @ take 1 q)
         | _ \<Rightarrow> if length name \<ge> 2 then up (take 2 name) else by_email)
      else by_email)"

definition uuidStr :: "string \<Rightarrow> string" where
  "uuidStr u = hex_encode u"

record me_project_view =
  mp_id :: string
  mp_domain :: string
  mp_createdAt :: time
  mp_owned :: bool
  mp_ownerEmail :: "string option"

record me_view =
  mv_id :: string
  mv_name :: string
  mv_email :: string
  mv_initials :: string
  mv_plan :: string
  mv_role :: string
  mv_project :: "me_project_view option"
  mv_owner :: bool

definition me_answer :: "(string \<Rightarrow> string) \<Rightarrow> me_row \<Rightarrow> me_view" where
  "me_answer up r =
     (let p = me_person r in
      \<lparr>mv_id = uuidStr (pe_public p), mv_name = pe_name p, mv_email = ptrStr (pe_email p),
       mv_initials = initials up (pe_name p) (ptrStr (pe_email p)), mv_plan = me_plan r, mv_role = me_role r,
       mv_project = map_option
         (\<lambda>x. \<lparr>mp_id = uuidStr (pj_public x), mp_domain = pj_domain x, mp_createdAt = pj_created x,
              mp_owned = me_owned r,
              mp_ownerEmail = (if ptrStr (me_owner_email r) \<noteq> [] then me_owner_email r else None)\<rparr>) (me_project r),
       mv_owner = me_owned r\<rparr>)"

definition me_ServeHTTP ::
    "acct_env \<Rightarrow> (string \<Rightarrow> string) \<Rightarrow> string option \<Rightarrow> acct_db \<Rightarrow> (nat \<times> string + me_view) \<times> acct_db" where
  "me_ServeHTTP e up ck d =
     (case FromRequest e ck d of
        (Inl err, d) \<Rightarrow> (Inl (Refusal err), d)
      | (Inr s, d) \<Rightarrow>
          (case (if ss_hash s = [] then GetMeByIdentity e (ss_person s) (ss_tenant s) d else GetMe e (ss_hash s) d) of
             TheRow r \<Rightarrow> (Inr (me_answer up r), d)
           | NoRows \<Rightarrow> (Inl (Refusal ErrNoRows), d)
           | Broken \<Rightarrow> (Inl (Refusal ErrCheck), d)))"

section \<open>What a sign-in answers\<close>

definition writeAccount :: "(string \<Rightarrow> string) \<Rightarrow> personInfo \<Rightarrow> (string \<times> string) list" where
  "writeAccount up p =
     [(''id'', uuidStr (pi_PublicID p)), (''name'', pi_Name p), (''email'', pi_Email p),
      (''initials'', initials up (pi_Name p) (pi_Email p)), (''plan'', ''Free'')]"

section \<open>Telegram\<close>

text \<open>\<^verbatim>\<open>time.Unix(sec, 0)\<close> with its 64-bit overflow.\<close>

definition unix_at :: "int \<Rightarrow> time" where
  "unix_at sec = wrap64 (sec + 62135596800) * second"

text \<open>\<^verbatim>\<open>url.QueryUnescape\<close>: \<open>None\<close> when an escape is not two hexadecimal digits.\<close>

definition hex_value :: "char \<Rightarrow> nat option" where
  "hex_value c =
     (if is_digit c then Some (byte c - 48)
      else if between CHR ''a'' CHR ''f'' c then Some (byte c - 87)
      else if between CHR ''A'' CHR ''F'' c then Some (byte c - 55)
      else None)"

fun QueryUnescape :: "string \<Rightarrow> string option" where
  "QueryUnescape [] = Some []"
| "QueryUnescape (c # s) =
     (if c = CHR ''%'' then
        (case s of
           a # b # r \<Rightarrow>
             (case (hex_value a, hex_value b) of
                (Some x, Some y) \<Rightarrow> map_option (\<lambda>t. char_of (16 * x + y) # t) (QueryUnescape r)
              | _ \<Rightarrow> None)
         | _ \<Rightarrow> None)
      else map_option (\<lambda>t. (if c = CHR ''+'' then CHR '' '' else c) # t) (QueryUnescape s))"

text \<open>\<^verbatim>\<open>url.ParseQuery\<close>: the pairs in order; any error refuses the whole, as the caller does.\<close>

fun query_pairs :: "string list \<Rightarrow> (string \<times> string) list option" where
  "query_pairs [] = Some []"
| "query_pairs (p # ps) =
     (if contains p '';'' then None
      else if p = [] then query_pairs ps
      else
        let (k, v) = (case Cut CHR ''='' p of Some kv \<Rightarrow> kv | None \<Rightarrow> (p, []))
        in case (QueryUnescape k, QueryUnescape v, query_pairs ps) of
             (Some k, Some v, Some r) \<Rightarrow> Some ((k, v) # r)
           | _ \<Rightarrow> None)"

definition ParseQuery :: "string \<Rightarrow> (string \<times> string) list option" where
  "ParseQuery q = query_pairs (split_byte CHR ''&'' q)"

text \<open>\<^verbatim>\<open>url.Values\<close>: the first value of a key, the empty string without one; \<^verbatim>\<open>Del\<close>.\<close>

definition vals_Get :: "(string \<times> string) list \<Rightarrow> string \<Rightarrow> string" where
  "vals_Get vs k = ptrStr (map_of vs k)"

definition vals_Del :: "(string \<times> string) list \<Rightarrow> string \<Rightarrow> (string \<times> string) list" where
  "vals_Del vs k = filter (\<lambda>p. fst p \<noteq> k) vs"

definition vals_keys :: "(string \<times> string) list \<Rightarrow> string list" where
  "vals_keys vs = sort (remdups (map fst vs))"

definition data_line :: "(string \<times> string) list \<Rightarrow> string \<Rightarrow> string" where
  "data_line vs k = k @ CHR ''='' # vals_Get vs k @ [LF]"

definition dataCheckString :: "(string \<times> string) list \<Rightarrow> string" where
  "dataCheckString vs = TrimSuffix (concat (map (data_line vs) (vals_keys vs))) [LF]"

fun hex_decode :: "string \<Rightarrow> string option" where
  "hex_decode [] = Some []"
| "hex_decode [a] = None"
| "hex_decode (a # b # s) =
     (case (hex_value a, hex_value b, hex_decode s) of
        (Some x, Some y, Some t) \<Rightarrow> Some (char_of (16 * x + y) # t)
      | _ \<Rightarrow> None)"

definition hexDecodeHash :: "string \<Rightarrow> string option" where
  "hexDecodeHash s = (if length s \<noteq> 64 then None else hex_decode s)"

record tgUserLite =
  tu_ID :: int
  tu_FirstName :: string

definition initDataFreshness :: duration where "initDataFreshness = 24 * hour"

definition initData_mac :: "(string \<Rightarrow> string \<Rightarrow> string) \<Rightarrow> string \<Rightarrow> (string \<times> string) list \<Rightarrow> string" where
  "initData_mac hmac botToken vs = hmac (hmac ''WebAppData'' botToken) (dataCheckString vs)"

definition VerifyInitData ::
    "(string \<Rightarrow> string \<Rightarrow> string) \<Rightarrow> (string \<Rightarrow> tgUserLite option) \<Rightarrow> string \<Rightarrow> string \<Rightarrow> time \<Rightarrow> tgUserLite option" where
  "VerifyInitData hmac user_json initData botToken now =
     (case ParseQuery initData of
        None \<Rightarrow> None
      | Some vals \<Rightarrow>
          let hash = vals_Get vals ''hash'' in
          if hash = [] then None
          else
            let vals = vals_Del vals ''hash'' in
            if hexDecodeHash hash \<noteq> Some (initData_mac hmac botToken vals) then None
            else case ParseInt (vals_Get vals ''auth_date'') of
              None \<Rightarrow> None
            | Some authDate \<Rightarrow>
                if Sub now (unix_at authDate) > initDataFreshness then None
                else case user_json (vals_Get vals ''user'') of
                  None \<Rightarrow> None
                | Some u \<Rightarrow> if tu_ID u = 0 then None else Some u)"

text \<open>\<^verbatim>\<open>scopeFor\<close>: the landing rule without the invitations.\<close>

definition scopeFor :: "acct_env \<Rightarrow> int \<Rightarrow> acct_db \<Rightarrow> (int \<times> int) option" where
  "scopeFor e person d =
     (case remembered_scope e person d of
        Some s \<Rightarrow> Some s
      | None \<Rightarrow> FirstReachableProject e person d)"

definition telegram_body :: "(string \<Rightarrow> string) \<Rightarrow> tgUserLite \<Rightarrow> string \<Rightarrow> string \<Rightarrow> (string \<times> string) list" where
  "telegram_body up u name email =
     [(''id'', itoa (tu_ID u)), (''name'', name), (''email'', email), (''initials'', initials up name email),
      (''plan'', ''Free'')]"

definition telegram_ServeHTTP ::
    "acct_env \<Rightarrow> (string \<Rightarrow> string) \<Rightarrow> (string \<Rightarrow> string \<Rightarrow> string) \<Rightarrow> (string \<Rightarrow> tgUserLite option) \<Rightarrow> string
      \<Rightarrow> string option \<Rightarrow> acct_db \<Rightarrow> (nat \<times> string + (string \<times> string) list \<times> cookie) \<times> acct_db" where
  "telegram_ServeHTTP e up hmac user_json botToken0 initData d =
     (let botToken = TrimSpace botToken0 in
      if botToken = [] then (Inl (501, ''not_implemented''), d)
      else case initData of
        None \<Rightarrow> (Inl (400, ''missing_init_data''), d)
      | Some q \<Rightarrow>
          if q = [] then (Inl (400, ''missing_init_data''), d)
          else case VerifyInitData hmac user_json q botToken (au_now e) of
            None \<Rightarrow> (Inl (401, ''invalid_init_data''), d)
          | Some u \<Rightarrow>
              (case (if au_fails e QByTelegram then None
                     else find (\<lambda>p. pe_telegram p = Some (tu_ID u)) (ac_persons d)) of
                 None \<Rightarrow> (Inl (401, ''not_a_member''), d)
               | Some p \<Rightarrow>
                   (case scopeFor e (pe_id p) d of
                      None \<Rightarrow> (Inl (401, ''not_a_member''), d)
                    | Some (tenant, project) \<Rightarrow>
                        let name = (if TrimSpace (pe_name p) = [] then tu_FirstName u else pe_name p) in
                        case sess_Create e (pe_id p) tenant (Some project) d of
                          (None, d) \<Rightarrow> (Inl (500, ''internal''), d)
                        | (Some token, d) \<Rightarrow>
                            (Inr (telegram_body up u name (ptrStr (pe_email p)), SetCookie e token), d))))"

section \<open>Google\<close>

record google_conf =
  gc_clientID :: string
  gc_clientSecret :: string
  gc_redirects :: "string list"

record googleReq =
  gr_Code :: string
  gr_RedirectURI :: string
  gr_CodeVerifier :: string

record googleClaims =
  gl_Iss :: string
  gl_Aud :: string
  gl_Exp :: int
  gl_Email :: string
  gl_EmailVerified :: bool

text \<open>Google's side: the token endpoint (status and body, \<open>None\<close> when it is out of reach), and the decoders of its body
  and of the claims.\<close>

record google_lib =
  gg_post :: "(string \<times> string) list \<Rightarrow> (nat \<times> string) option"
  gg_id_token :: "string \<Rightarrow> string option"
  gg_claims :: "string \<Rightarrow> googleClaims option"

text \<open>\<^verbatim>\<open>NewGoogle\<close> trims the redirects and drops the empty ones.\<close>

definition NewGoogle :: "string \<Rightarrow> string \<Rightarrow> string list \<Rightarrow> google_conf" where
  "NewGoogle clientID clientSecret redirects =
     \<lparr>gc_clientID = clientID, gc_clientSecret = clientSecret,
      gc_redirects = filter (\<lambda>r. r \<noteq> []) (map TrimSpace redirects)\<rparr>"

definition google_Configured :: "google_conf \<Rightarrow> bool" where
  "google_Configured g \<longleftrightarrow> gc_clientID g \<noteq> [] \<and> gc_clientSecret g \<noteq> [] \<and> gc_redirects g \<noteq> []"

definition allowedRedirect :: "google_conf \<Rightarrow> string \<Rightarrow> bool" where
  "allowedRedirect g uri \<longleftrightarrow> list_ex (\<lambda>a. uri = a) (gc_redirects g)"

definition exchange_form :: "google_conf \<Rightarrow> googleReq \<Rightarrow> (string \<times> string) list" where
  "exchange_form g req =
     [(''code'', gr_Code req), (''client_id'', gc_clientID g), (''client_secret'', gc_clientSecret g),
      (''redirect_uri'', gr_RedirectURI req), (''grant_type'', ''authorization_code'')]
     @ (if gr_CodeVerifier req \<noteq> [] then [(''code_verifier'', gr_CodeVerifier req)] else [])"

definition exchange :: "google_lib \<Rightarrow> google_conf \<Rightarrow> googleReq \<Rightarrow> string option" where
  "exchange G g req =
     (case gg_post G (exchange_form g req) of
        None \<Rightarrow> None
      | Some (status, body) \<Rightarrow>
          if status \<noteq> 200 then None
          else case gg_id_token G (take (2 ^ 20) body) of
            None \<Rightarrow> None
          | Some t \<Rightarrow> if t = [] then None else Some t)"

text \<open>\<^verbatim>\<open>base64.RawURLEncoding.DecodeString\<close>: line breaks are skipped, the bits left over are not looked at.\<close>

definition base64url_value :: "char \<Rightarrow> nat option" where
  "base64url_value c =
     (if is_upper c then Some (byte c - 65)
      else if is_lower c then Some (byte c - 71)
      else if is_digit c then Some (byte c + 4)
      else if c = CHR ''-'' then Some 62
      else if c = CHR ''_'' then Some 63
      else None)"

fun base64_groups :: "nat list \<Rightarrow> string option" where
  "base64_groups [] = Some []"
| "base64_groups [a] = None"
| "base64_groups [a, b] = Some [char_of (4 * a + b div 16)]"
| "base64_groups [a, b, c] = Some [char_of (4 * a + b div 16), char_of (16 * (b mod 16) + c div 4)]"
| "base64_groups (a # b # c # x # s) =
     map_option (\<lambda>t. char_of (4 * a + b div 16) # char_of (16 * (b mod 16) + c div 4) # char_of (64 * (c mod 4) + x) # t)
       (base64_groups s)"

definition base64url_decode :: "string \<Rightarrow> string option" where
  "base64url_decode s =
     (let vs = map base64url_value (filter (\<lambda>c. c \<noteq> CR \<and> c \<noteq> LF) s)
      in if None \<in> set vs then None else base64_groups (map the vs))"

definition googleIssuers :: "string list" where
  "googleIssuers = [''accounts.google.com'', ''https://accounts.google.com'']"

definition google_verify :: "google_lib \<Rightarrow> google_conf \<Rightarrow> time \<Rightarrow> string \<Rightarrow> googleClaims option" where
  "google_verify G g now idToken =
     (let parts = split_byte CHR ''.'' idToken in
      if length parts \<noteq> 3 then None
      else case Option.bind (base64url_decode (parts ! 1)) (gg_claims G) of
        None \<Rightarrow> None
      | Some c \<Rightarrow>
          if gl_Iss c \<notin> set googleIssuers then None
          else if gl_Aud c \<noteq> gc_clientID g then None
          else if gl_Exp c > 0 \<and> now > unix_at (gl_Exp c) then None
          else if gl_Email c = [] then None
          else if \<not> gl_EmailVerified c then None
          else Some c)"

definition google_ServeHTTP ::
    "acct_env \<Rightarrow> google_lib \<Rightarrow> google_conf \<Rightarrow> (string \<Rightarrow> string) \<Rightarrow> googleReq option \<Rightarrow> acct_db \<Rightarrow> door_result" where
  "google_ServeHTTP e G g h body d =
     (if crossSitePost h then (Refused 403 ''cross_site'', [], d)
      else if \<not> google_Configured g then (Refused 503 ''google_not_configured'', [], d)
      else case body of
        None \<Rightarrow> (Refused 400 ''bad_body'', [], d)
      | Some req \<Rightarrow>
          if gr_Code req = [] then (Refused 400 ''missing_code'', [], d)
          else if \<not> allowedRedirect g (gr_RedirectURI req) then (Refused 400 ''bad_redirect_uri'', [], d)
          else case exchange G g req of
            None \<Rightarrow> (Refused 401 ''invalid_token'', [], d)
          | Some idToken \<Rightarrow>
              (case google_verify G g (au_now e) idToken of
                 None \<Rightarrow> (Refused 401 ''invalid_token'', [], d)
               | Some c \<Rightarrow> sign_in e (NormalizeEmail (gl_Email c)) no_claim d))"

end
