(* ===== verification/AccountWf.thy ===== *)
theory AccountWf
  imports SignIn
begin

text \<open>
  The constraints of the account tables (keys, unique addresses, foreign keys, the workspace that rides along with a
  membership), that every door keeps them, and which tables each step of a sign-in leaves alone.
\<close>

section \<open>Constraints\<close>

abbreviation person_ids :: "acct_db \<Rightarrow> int set" where "person_ids d \<equiv> pe_id ` set (ac_persons d)"
abbreviation tenant_ids :: "acct_db \<Rightarrow> int set" where "tenant_ids d \<equiv> tn_id ` set (ac_tenants d)"
abbreviation project_ids :: "acct_db \<Rightarrow> int set" where "project_ids d \<equiv> pj_id ` set (ac_projects d)"

text \<open>A \<^verbatim>\<open>bigserial\<close> primary key: distinct, positive, and below the sequence.\<close>

definition serial_key :: "int list \<Rightarrow> int \<Rightarrow> bool" where
  "serial_key ids high \<longleftrightarrow> distinct ids \<and> 0 \<le> high \<and> (\<forall>i \<in> set ids. 0 < i \<and> i \<le> high)"

definition persons_wf :: "acct_db \<Rightarrow> bool" where
  "persons_wf d \<longleftrightarrow>
     serial_key (map pe_id (ac_persons d)) (ac_serial d TPerson)
     \<and> (\<forall>p \<in> set (ac_persons d). \<forall>q \<in> set (ac_persons d).
          pe_email p = pe_email q \<and> pe_email p \<noteq> None \<longrightarrow> p = q)"

definition tenants_wf :: "acct_db \<Rightarrow> bool" where
  "tenants_wf d \<longleftrightarrow>
     serial_key (map tn_id (ac_tenants d)) (ac_serial d TTenant)
     \<and> (\<forall>t \<in> set (ac_tenants d). set_option (tn_owner t) \<subseteq> person_ids d)"

definition projects_wf :: "acct_db \<Rightarrow> bool" where
  "projects_wf d \<longleftrightarrow>
     serial_key (map pj_id (ac_projects d)) (ac_serial d TProject) \<and> pj_tenant ` set (ac_projects d) \<subseteq> tenant_ids d"

definition members_wf :: "acct_db \<Rightarrow> bool" where
  "members_wf d \<longleftrightarrow>
     (\<forall>m \<in> set (ac_members d). mb_person m \<in> person_ids d
        \<and> (\<exists>x \<in> set (ac_projects d). pj_id x = mb_project m \<and> pj_tenant x = mb_tenant m))"

definition sessions_wf :: "acct_db \<Rightarrow> bool" where
  "sessions_wf d \<longleftrightarrow>
     serial_key (map ss_id (ac_sessions d)) (ac_serial d TSession)
     \<and> distinct (map ss_hash (ac_sessions d))
     \<and> (\<forall>s \<in> set (ac_sessions d). ss_person s \<in> person_ids d \<and> ss_tenant s \<in> tenant_ids d
          \<and> set_option (ss_project s) \<subseteq> project_ids d)"

definition acct_wf :: "acct_db \<Rightarrow> bool" where
  "acct_wf d \<longleftrightarrow> persons_wf d \<and> tenants_wf d \<and> projects_wf d \<and> members_wf d \<and> sessions_wf d"

lemmas wf_defs = persons_wf_def tenants_wf_def projects_wf_def members_wf_def sessions_wf_def

lemma serial_key_snoc: "serial_key ids high \<Longrightarrow> serial_key (ids @ [high + 1]) (high + 1)"
  by (auto simp: serial_key_def)

lemma serial_key_later: "serial_key ids high \<Longrightarrow> serial_key ids (high + 1)"
  by (auto simp: serial_key_def)

lemma acct_wf_draw: "acct_wf d \<Longrightarrow> acct_wf (d\<lparr>ac_serial := (ac_serial d)(t := ac_serial d t + 1)\<rparr>)"
  by (auto simp: acct_wf_def wf_defs serial_key_later)

section \<open>What each insert leaves alone\<close>

lemma insert_tenant_frame [simp]:
  "ac_persons (snd (insert_tenant e n pl w d)) = ac_persons d"
  "ac_projects (snd (insert_tenant e n pl w d)) = ac_projects d"
  "ac_members (snd (insert_tenant e n pl w d)) = ac_members d"
  "ac_sessions (snd (insert_tenant e n pl w d)) = ac_sessions d"
  "ac_codes (snd (insert_tenant e n pl w d)) = ac_codes d"
  by (simp_all add: insert_tenant_def draw_id_def)

lemma insert_project_frame [simp]:
  "ac_persons (snd (insert_project e t dn d)) = ac_persons d"
  "ac_tenants (snd (insert_project e t dn d)) = ac_tenants d"
  "ac_members (snd (insert_project e t dn d)) = ac_members d"
  "ac_sessions (snd (insert_project e t dn d)) = ac_sessions d"
  "ac_codes (snd (insert_project e t dn d)) = ac_codes d"
  by (simp_all add: insert_project_def draw_id_def)

lemma insert_seq_frame [simp]:
  "ac_persons (insert_seq e p d) = ac_persons d"
  "ac_tenants (insert_seq e p d) = ac_tenants d"
  "ac_projects (insert_seq e p d) = ac_projects d"
  "ac_members (insert_seq e p d) = ac_members d"
  "ac_sessions (insert_seq e p d) = ac_sessions d"
  "ac_codes (insert_seq e p d) = ac_codes d"
  "ac_serial (insert_seq e p d) = ac_serial d"
  by (simp_all add: insert_seq_def)

lemma insert_key_frame [simp]:
  "ac_persons (insert_key e t p pre h d) = ac_persons d"
  "ac_tenants (insert_key e t p pre h d) = ac_tenants d"
  "ac_projects (insert_key e t p pre h d) = ac_projects d"
  "ac_members (insert_key e t p pre h d) = ac_members d"
  "ac_sessions (insert_key e t p pre h d) = ac_sessions d"
  "ac_codes (insert_key e t p pre h d) = ac_codes d"
  "ac_serial (insert_key e t p pre h d) = ac_serial d"
  by (simp_all add: insert_key_def)

lemma seedEmailChannel_frame [simp]:
  "ac_persons (seedEmailChannel e t p m d) = ac_persons d"
  "ac_tenants (seedEmailChannel e t p m d) = ac_tenants d"
  "ac_projects (seedEmailChannel e t p m d) = ac_projects d"
  "ac_members (seedEmailChannel e t p m d) = ac_members d"
  "ac_sessions (seedEmailChannel e t p m d) = ac_sessions d"
  "ac_codes (seedEmailChannel e t p m d) = ac_codes d"
  "ac_serial (seedEmailChannel e t p m d) = ac_serial d"
  by (simp_all add: seedEmailChannel_def)

lemma seed_all_frame [simp]:
  "ac_persons (fold (\<lambda>(p, t). seedEmailChannel e t p m) rows d) = ac_persons d"
  "ac_tenants (fold (\<lambda>(p, t). seedEmailChannel e t p m) rows d) = ac_tenants d"
  "ac_projects (fold (\<lambda>(p, t). seedEmailChannel e t p m) rows d) = ac_projects d"
  "ac_members (fold (\<lambda>(p, t). seedEmailChannel e t p m) rows d) = ac_members d"
  "ac_sessions (fold (\<lambda>(p, t). seedEmailChannel e t p m) rows d) = ac_sessions d"
  "ac_codes (fold (\<lambda>(p, t). seedEmailChannel e t p m) rows d) = ac_codes d"
  "ac_serial (fold (\<lambda>(p, t). seedEmailChannel e t p m) rows d) = ac_serial d"
  by (induction rows arbitrary: d) auto

section \<open>The constraints are kept\<close>

text \<open>A table the constraints do not read.\<close>

lemma acct_wf_same:
  "ac_persons d' = ac_persons d \<Longrightarrow> ac_tenants d' = ac_tenants d \<Longrightarrow> ac_projects d' = ac_projects d \<Longrightarrow>
   ac_members d' = ac_members d \<Longrightarrow> ac_sessions d' = ac_sessions d \<Longrightarrow> ac_serial d' = ac_serial d \<Longrightarrow>
   acct_wf d' = acct_wf d"
  by (simp add: acct_wf_def wf_defs)

lemma insert_seq_wf [simp]: "acct_wf (insert_seq e p d) = acct_wf d"
  by (rule acct_wf_same) simp_all

lemma insert_key_wf [simp]: "acct_wf (insert_key e t p pre h d) = acct_wf d"
  by (rule acct_wf_same) simp_all

lemma seedEmailChannel_wf [simp]: "acct_wf (seedEmailChannel e t p m d) = acct_wf d"
  by (rule acct_wf_same) simp_all

lemma seed_all_wf [simp]: "acct_wf (fold (\<lambda>(p, t). seedEmailChannel e t p m) rows d) = acct_wf d"
  by (rule acct_wf_same) simp_all

lemma insert_tenant_wf [inv_intros]: "acct_wf d \<Longrightarrow> acct_wf (snd (insert_tenant e n pl w d))"
  by (auto simp: insert_tenant_def draw_id_def acct_wf_draw)
    (auto simp: acct_wf_def wf_defs serial_key_snoc)

lemma insert_project_wf [inv_intros]: "acct_wf d \<Longrightarrow> acct_wf (snd (insert_project e t dn d))"
  by (auto simp: insert_project_def draw_id_def acct_wf_draw)
    (auto simp: acct_wf_def wf_defs serial_key_snoc)

lemma CreatePerson_wf [inv_intros]: "acct_wf d \<Longrightarrow> acct_wf (snd (CreatePerson e m n d))"
  by (auto simp: CreatePerson_def draw_id_def Let_def acct_wf_draw)
    (auto simp: acct_wf_def wf_defs serial_key_snoc)

lemma create_workspace_wf [inv_intros]: "acct_wf d \<Longrightarrow> acct_wf (snd (create_workspace e p d))"
  by (simp add: create_workspace_def Let_def insert_tenant_wf)

lemma OwnTenantID_wf [inv_intros]: "acct_wf d \<Longrightarrow> acct_wf (snd (OwnTenantID e p d))"
  by (auto simp: OwnTenantID_def create_workspace_wf split: option.split)

lemma new_account_snd:
  "\<exists>project tenant prefix hash. snd (new_account e m dn p d) =
     seedEmailChannel e tenant project m (insert_key e tenant project prefix hash (insert_seq e project
       (snd (insert_project e tenant dn (snd (insert_tenant e (NameFromEmail m @ workspace_suffix) (plan_of e) p d))))))"
  by (auto simp: new_account_def Let_def split: prod.split) (metis snd_conv)

lemma new_account_wf [inv_intros]: "acct_wf d \<Longrightarrow> acct_wf (snd (new_account e m dn p d))"
  using new_account_snd [of e m dn p d] insert_project_wf insert_tenant_wf by fastforce

lemma ensureAccount_wf [inv_intros]: "acct_wf d \<Longrightarrow> acct_wf (snd (ensureAccount e m dn d))"
  using OwnTenantID_wf [of d e] CreatePerson_wf [of d e "NormalizeEmail m" "NameFromEmail (NormalizeEmail m)"]
    new_account_wf
  by (auto simp: ensureAccount_def Let_def split: option.split prod.split)
    (metis snd_conv)+

lemma ActivateInvites_wf [inv_intros]: "acct_wf d \<Longrightarrow> acct_wf (snd (ActivateInvites e p d))"
  by (auto simp: ActivateInvites_def acct_wf_def wf_defs)

lemma activateInvites_wf [inv_intros]: "acct_wf d \<Longrightarrow> acct_wf (snd (activateInvites e p m d))"
  using ActivateInvites_wf [of d e p]
  by (auto simp: activateInvites_def Let_def split: option.split prod.split)

lemma sess_Create_wf [inv_intros]: "acct_wf d \<Longrightarrow> acct_wf (snd (sess_Create e p t x d))"
  by (auto simp: sess_Create_def CreateSession_def draw_id_def Let_def acct_wf_draw split: option.split)
    (auto simp: acct_wf_def wf_defs serial_key_snoc split: option.splits)

definition verify_row :: "int \<Rightarrow> time \<Rightarrow> person_row \<Rightarrow> person_row" where
  "verify_row i now q = (if pe_id q = i \<and> pe_verified q = None then q\<lparr>pe_verified := Some now\<rparr> else q)"

lemma verify_row_same [simp]: "pe_id (verify_row i now q) = pe_id q" "pe_email (verify_row i now q) = pe_email q"
  by (simp_all add: verify_row_def)

lemma markVerified_snd:
  "snd (markVerified e p d) = d \<or>
   snd (markVerified e p d) = d\<lparr>ac_persons := map (verify_row (pi_ID p) (au_now e)) (ac_persons d)\<rparr>"
  unfolding verify_row_def [abs_def] by (auto simp: markVerified_def)

lemma acct_wf_verified:
  assumes "acct_wf d" shows "acct_wf (d\<lparr>ac_persons := map (verify_row i now) (ac_persons d)\<rparr>)"
proof -
  let ?d = "d\<lparr>ac_persons := map (verify_row i now) (ac_persons d)\<rparr>"
  have ids: "person_ids ?d = person_ids d" by (force simp: image_iff)
  have keys: "map pe_id (ac_persons ?d) = map pe_id (ac_persons d)" by simp
  have same: "p = q" if "p \<in> set (ac_persons d)" "q \<in> set (ac_persons d)" "pe_email p = pe_email q" "pe_email p \<noteq> None" for p q
    using assms that unfolding acct_wf_def persons_wf_def by blast
  have "persons_wf ?d"
    unfolding persons_wf_def keys
  proof (intro conjI ballI impI)
    show "serial_key (map pe_id (ac_persons d)) (ac_serial ?d TPerson)"
      using assms by (simp add: acct_wf_def persons_wf_def)
  next
    fix p q
    assume "p \<in> set (ac_persons ?d)" and "q \<in> set (ac_persons ?d)" and em: "pe_email p = pe_email q \<and> pe_email p \<noteq> None"
    then obtain p' q' where "p' \<in> set (ac_persons d)" "q' \<in> set (ac_persons d)"
        "p = verify_row i now p'" "q = verify_row i now q'" by auto
    with em same show "p = q" by (metis verify_row_same(2))
  qed
  moreover have "tenants_wf ?d" "members_wf ?d" "sessions_wf ?d" "projects_wf ?d"
    using assms unfolding acct_wf_def tenants_wf_def members_wf_def sessions_wf_def projects_wf_def ids by simp_all
  ultimately show ?thesis by (simp add: acct_wf_def)
qed

lemma markVerified_wf [inv_intros]: "acct_wf d \<Longrightarrow> acct_wf (snd (markVerified e p d))"
  using markVerified_snd [of e p d] acct_wf_verified by metis

section \<open>A sign-in, step by step\<close>

text \<open>The states a sign-in goes through, as equations.\<close>

lemma sign_in_cases:
  obtains
    (no_session) p d1 act d2 t x d3 where
      "ensurePerson e m d = (Some p, d1)" "activateInvites e (pi_ID p) m d1 = (act, d2)"
      "landing e p act d2 = (t, x)" "sess_Create e (pi_ID p) t x d2 = (None, d3)"
      "sign_in e m pend d = (Refused 500 ''internal'', [], d3)"
  | (signed) p d1 act d2 t x tok d3 born d4 where
      "ensurePerson e m d = (Some p, d1)" "activateInvites e (pi_ID p) m d1 = (act, d2)"
      "landing e p act d2 = (t, x)" "sess_Create e (pi_ID p) t x d2 = (Some tok, d3)"
      "markVerified e p d3 = (born, d4)"
      "sign_in e m pend d = (SignedIn p pend (SetCookie e tok),
          born @ [ServerEvent ''signed_in'' (pi_ID p) (pi_TenantID p), LinkedPerson (pi_ID p) (pi_TenantID p)], d4)"
  | (unmade) d1 where "ensurePerson e m d = (None, d1)" "sign_in e m pend d = (Refused 500 ''internal'', [], d1)"
proof -
  show thesis
  proof (cases "ensurePerson e m d")
    case (Pair po d1)
    show thesis
    proof (cases po)
      case None
      with Pair show thesis by (intro unmade) (auto simp: sign_in_def)
    next
      case (Some p)
      obtain act d2 where act: "activateInvites e (pi_ID p) m d1 = (act, d2)" by fastforce
      obtain t x where land: "landing e p act d2 = (t, x)" by fastforce
      obtain so d3 where sess: "sess_Create e (pi_ID p) t x d2 = (so, d3)" by fastforce
      obtain born d4 where ver: "markVerified e p d3 = (born, d4)" by fastforce
      show thesis
      proof (cases so)
        case None
        with Pair Some act land sess show thesis by (intro no_session) (auto simp: sign_in_def)
      next
        case (Some tok)
        with Pair \<open>po = Some p\<close> act land sess ver show thesis by (intro signed) (auto simp: sign_in_def)
      qed
    qed
  qed
qed

end
