(* ===== verification/SignInFacts.thy ===== *)
theory SignInFacts
  imports AccountWf
begin

text \<open>
  What the sign-in doors promise: the constraints of the tables hold in every reachable state, an account is born once,
  a session needs a proof and opens where its person may go, guessing a code is bounded, and
  where two requests that overlap break the rule that a code signs in once.
\<close>

section \<open>The doors as operations\<close>

datatype door_op =
    MagicDoor "string \<Rightarrow> string" string "magicLinkReq option"
  | GoogleDoor google_lib google_conf "string \<Rightarrow> string" "googleReq option"
  | TelegramDoor "string \<Rightarrow> string" "string \<Rightarrow> string \<Rightarrow> string" "string \<Rightarrow> tgUserLite option" string "string option"
  | CodeDoor string string
  | ProvisionDoor string string
  | MeDoor "string \<Rightarrow> string" "string option"
  | LogoutDoor "string option"

definition door_step :: "acct_env \<Rightarrow> door_op \<Rightarrow> acct_db \<Rightarrow> door_event list \<times> acct_db" where
  "door_step e oper d =
     (case oper of
        MagicDoor h ip body \<Rightarrow> snd (magic_ServeHTTP e h ip body d)
      | GoogleDoor G g h body \<Rightarrow> snd (google_ServeHTTP e G g h body d)
      | TelegramDoor up hmac uj bt init \<Rightarrow> ([], snd (telegram_ServeHTTP e up hmac uj bt init d))
      | CodeDoor email ip \<Rightarrow> ([], snd (IssueLoginCode e email ip d))
      | ProvisionDoor email domain \<Rightarrow> ([], snd (Provision e email domain d))
      | MeDoor up ck \<Rightarrow> ([], snd (me_ServeHTTP e up ck d))
      | LogoutDoor ck \<Rightarrow> ([], snd (snd (logout_ServeHTTP e ck d))))"

fun run_doors :: "(acct_env \<times> door_op) list \<Rightarrow> acct_db \<Rightarrow> door_event list \<times> acct_db" where
  "run_doors [] d = ([], d)"
| "run_doors ((e, oper) # ops) d =
     (case door_step e oper d of
        (evs, d) \<Rightarrow> (case run_doors ops d of (evs', d) \<Rightarrow> (evs @ evs', d)))"

definition no_accounts :: acct_db where
  "no_accounts =
     \<lparr>ac_persons = [], ac_tenants = [], ac_projects = [], ac_members = [], ac_sessions = [], ac_seqs = [],
      ac_keys = [], ac_channels = [], ac_codes = Map.empty, ac_ips = Map.empty, ac_serial = (\<lambda>t. 0)\<rparr>"

lemma no_accounts_wf: "acct_wf no_accounts"
  by (simp add: acct_wf_def wf_defs serial_key_def no_accounts_def)

section \<open>The constraints hold in every state\<close>

text \<open>Tables the constraints do not read.\<close>

lemma wf_codes [simp]: "acct_wf (d\<lparr>ac_codes := c\<rparr>) = acct_wf d" "acct_wf (d\<lparr>ac_ips := i\<rparr>) = acct_wf d"
  by (rule acct_wf_same; simp)+

lemma code_queries_wf [simp]:
  "acct_wf (MarkMagicLinkRedeemed e m d) = acct_wf d"
  "acct_wf (IncMagicLinkAttempts e m d) = acct_wf d"
  "acct_wf (snd (RecordMagicLinkIP e ip d)) = acct_wf d"
  "acct_wf (snd (issueCode e m p d)) = acct_wf d"
  by (simp_all add: MarkMagicLinkRedeemed_def IncMagicLinkAttempts_def RecordMagicLinkIP_def Let_def
      issueCode_def UpsertMagicLinkCode_def split: option.split)

lemma sign_in_wf [inv_intros]: "acct_wf d \<Longrightarrow> acct_wf (snd (snd (sign_in e m p d)))"
  by (cases rule: sign_in_cases [of e m d p])
    (metis ensurePerson_def ensureAccount_wf activateInvites_wf sess_Create_wf markVerified_wf snd_conv)+

lemma request_code_wf [inv_intros]: "acct_wf d \<Longrightarrow> acct_wf (snd (snd (request_code e ip m p d)))"
proof -
  assume "acct_wf d"
  then have 1: "acct_wf (snd (RecordMagicLinkIP e ip d))" by simp
  obtain cnt d1 where d1: "RecordMagicLinkIP e ip d = (cnt, d1)" by fastforce
  obtain po d2 where d2: "ensurePerson e m d1 = (po, d2)" by fastforce
  obtain r d3 where d3: "issueCode e m p d2 = (r, d3)" by fastforce
  have "acct_wf d2" using ensureAccount_wf [of d1 e m "[]"] 1 d1 d2 by (simp add: ensurePerson_def)
  moreover have "acct_wf d3" using code_queries_wf(4) [of e m p d2] calculation d3 by simp
  ultimately show ?thesis
    using 1 by (auto simp: request_code_def d1 d2 d3 split: option.split sum.split prod.split)
qed

lemma redeem_wf [inv_intros]: "acct_wf d \<Longrightarrow> acct_wf (snd (snd (redeem e m t d)))"
  by (auto simp: redeem_def redeem_act_def sign_in_wf split: option.split)

lemma filter_distinct_map: "distinct (map f xs) \<Longrightarrow> distinct (map f (filter P xs))"
  by (induction xs) auto

lemma sess_Delete_wf [inv_intros]: "acct_wf d \<Longrightarrow> acct_wf (sess_Delete e v d)"
  by (auto simp: sess_Delete_def DeleteSession_def acct_wf_def wf_defs serial_key_def filter_distinct_map)

definition touch_row :: "int \<Rightarrow> time \<Rightarrow> session_row \<Rightarrow> session_row" where
  "touch_row i t s = (if ss_id s = i then s\<lparr>ss_seen := t\<rparr> else s)"

lemma touch_row_same [simp]:
  "ss_id (touch_row i t s) = ss_id s" "ss_hash (touch_row i t s) = ss_hash s"
  "ss_person (touch_row i t s) = ss_person s" "ss_tenant (touch_row i t s) = ss_tenant s"
  "ss_project (touch_row i t s) = ss_project s" "ss_expires (touch_row i t s) = ss_expires s"
  by (simp_all add: touch_row_def)

lemma touch_row_comp [simp]: "ss_id \<circ> touch_row i t = ss_id" "ss_hash \<circ> touch_row i t = ss_hash"
  by (simp_all add: fun_eq_iff)

lemma TouchSession_eq:
  "TouchSession e i d =
     (if au_fails e QTouch then d else d\<lparr>ac_sessions := map (touch_row i (au_now e)) (ac_sessions d)\<rparr>)"
  by (simp add: TouchSession_def touch_row_def [abs_def])

lemma TouchSession_wf [inv_intros]: "acct_wf d \<Longrightarrow> acct_wf (TouchSession e i d)"
  by (auto simp: TouchSession_eq acct_wf_def wf_defs)

lemma FromRequest_wf [inv_intros]: "acct_wf d \<Longrightarrow> acct_wf (snd (FromRequest e ck d))"
  by (auto simp: FromRequest_def LookupSession_def TouchSession_wf split: option.split row_answer.split)

lemma me_snd: "snd (me_ServeHTTP e up ck d) = snd (FromRequest e ck d)"
  by (auto simp: me_ServeHTTP_def split: prod.split sum.split row_answer.split)

lemma telegram_snd:
  "snd (telegram_ServeHTTP e up hmac uj bt init d) = d
   \<or> (\<exists>p t x. snd (telegram_ServeHTTP e up hmac uj bt init d) = snd (sess_Create e p t x d))"
  by (auto simp: telegram_ServeHTTP_def Let_def split: option.split prod.split) (metis snd_conv)+

lemma google_snd:
  "snd (google_ServeHTTP e G g h body d) = ([], d)
   \<or> (\<exists>m. snd (google_ServeHTTP e G g h body d) = snd (sign_in e m no_claim d))"
  by (auto simp: google_ServeHTTP_def Let_def split: option.split)

lemma door_step_wf [inv_intros]: "acct_wf d \<Longrightarrow> acct_wf (snd (door_step e oper d))"
proof (cases oper)
  case (MagicDoor h ip body)
  then show "acct_wf d \<Longrightarrow> ?thesis"
    by (auto simp: door_step_def magic_ServeHTTP_def Let_def request_code_wf redeem_wf split: option.split)
next
  case (GoogleDoor G g h body)
  then show "acct_wf d \<Longrightarrow> ?thesis"
    using google_snd [of e G g h body d] sign_in_wf [of d e] by (auto simp: door_step_def)
next
  case (TelegramDoor up hmac uj bt init)
  then show "acct_wf d \<Longrightarrow> ?thesis"
    using telegram_snd [of e up hmac uj bt init d] sess_Create_wf [of d e] by (auto simp: door_step_def)
next
  case (CodeDoor email ip)
  then show "acct_wf d \<Longrightarrow> ?thesis"
    using code_queries_wf(3) [of e ip d]
    by (cases "RecordMagicLinkIP e ip d") (simp add: door_step_def IssueLoginCode_def)
next
  case (ProvisionDoor email domain)
  then show "acct_wf d \<Longrightarrow> ?thesis"
    using ensureAccount_wf [of d e email domain] by (auto simp: door_step_def Provision_def split: prod.split)
next
  case (LogoutDoor ck)
  then show "acct_wf d \<Longrightarrow> ?thesis"
    by (auto simp: door_step_def logout_ServeHTTP_def sess_Delete_wf split: option.split)
qed (auto simp: door_step_def me_snd FromRequest_wf)

lemma run_doors_wf: "acct_wf d \<Longrightarrow> acct_wf (snd (run_doors ops d))"
proof (induction ops arbitrary: d)
  case (Cons a ops)
  obtain e oper where a: "a = (e, oper)" by (cases a)
  obtain evs d1 where d1: "door_step e oper d = (evs, d1)" by fastforce
  have "acct_wf d1" using door_step_wf [OF Cons.prems, of e oper] d1 by simp
  from Cons.IH [OF this] show ?case by (cases "run_doors ops d1") (simp add: a d1)
qed simp

text \<open>In every state the doors can reach from an empty database, whatever queries fail: ids are distinct and below their sequences,
  no two people share an address, owners, workspaces and projects that are named are there, a membership carries
  the workspace of its project, and no two sessions share a token.\<close>

theorem doors_keep_the_tables: "acct_wf (snd (run_doors ops no_accounts))"
  by (rule run_doors_wf [OF no_accounts_wf])

section \<open>An account is born once\<close>

text \<open>How often the birth of a person's account was recorded, and whether their address is proven.\<close>

fun births :: "int \<Rightarrow> door_event list \<Rightarrow> nat" where
  "births p [] = 0"
| "births p (ev # evs) =
     (case ev of ServerEvent n q t \<Rightarrow> if n = ''account_created'' \<and> q = p then 1 else 0 | _ \<Rightarrow> 0) + births p evs"

definition proven :: "int \<Rightarrow> acct_db \<Rightarrow> bool" where
  "proven p d \<longleftrightarrow> (\<exists>q \<in> set (ac_persons d). pe_id q = p \<and> pe_verified q \<noteq> None)"

lemma births_append [simp]: "births p (xs @ ys) = births p xs + births p ys"
  by (induction xs) auto

lemma proven_same: "ac_persons d' = ac_persons d \<Longrightarrow> proven p d' = proven p d"
  by (simp add: proven_def)

lemma OwnTenantID_persons [simp]: "ac_persons (snd (OwnTenantID e p d)) = ac_persons d"
  by (simp add: OwnTenantID_def create_workspace_def Let_def split: option.split)

lemma new_account_frame [simp]:
  "ac_persons (snd (new_account e m dn p d)) = ac_persons d"
  "ac_members (snd (new_account e m dn p d)) = ac_members d"
  "ac_sessions (snd (new_account e m dn p d)) = ac_sessions d"
  "ac_codes (snd (new_account e m dn p d)) = ac_codes d"
  using new_account_snd [of e m dn p d] by auto

lemma ensureAccount_persons:
  "\<exists>new. ac_persons (snd (ensureAccount e m dn d)) = ac_persons d @ new \<and> (\<forall>q \<in> set new. pe_verified q = None)"
proof (cases "GetPersonByEmail e (NormalizeEmail m) d")
  case (Some p)
  have "ac_persons (snd (ensureAccount e m dn d)) = ac_persons (snd (OwnTenantID e (pe_id p) d))"
    by (simp add: ensureAccount_def Let_def Some case_prod_beta)
  then show ?thesis by simp
next
  case None
  obtain po d1 where c: "CreatePerson e (NormalizeEmail m) (NameFromEmail (NormalizeEmail m)) d = (po, d1)" by fastforce
  have d1: "\<exists>new. ac_persons d1 = ac_persons d @ new \<and> (\<forall>q \<in> set new. pe_verified q = None)"
    using c by (auto simp: CreatePerson_def draw_id_def Let_def split: if_splits)
  have "ac_persons (snd (ensureAccount e m dn d)) = ac_persons d1"
  proof (cases po)
    case (Some p)
    have "ac_persons (snd (ensureAccount e m dn d)) = ac_persons (snd (new_account e (NormalizeEmail m) dn (pe_id p) d1))"
      by (simp add: ensureAccount_def Let_def None c Some case_prod_beta)
    then show ?thesis by simp
  qed (simp add: ensureAccount_def Let_def None c)
  with d1 show ?thesis by simp
qed

lemma ensureAccount_proven [simp]: "proven p (snd (ensureAccount e m dn d)) = proven p d"
  using ensureAccount_persons [of e m dn d] unfolding proven_def by (metis Un_iff set_append)

lemma activateInvites_persons [simp]: "ac_persons (snd (activateInvites e p m d)) = ac_persons d"
  by (auto simp: activateInvites_def Let_def ActivateInvites_def)

lemma sess_Create_persons [simp]: "ac_persons (snd (sess_Create e p t x d)) = ac_persons d"
  by (auto simp: sess_Create_def CreateSession_def draw_id_def Let_def)

lemma IncAttempts_persons [simp]: "ac_persons (IncMagicLinkAttempts e m d) = ac_persons d"
  by (simp add: IncMagicLinkAttempts_def split: option.split)

lemma MarkRedeemed_persons [simp]: "ac_persons (MarkMagicLinkRedeemed e m d) = ac_persons d"
  by (simp add: MarkMagicLinkRedeemed_def split: option.split)

lemma RecordIP_persons [simp]: "ac_persons (snd (RecordMagicLinkIP e ip d)) = ac_persons d"
  by (simp add: RecordMagicLinkIP_def Let_def)

lemma issueCode_persons [simp]: "ac_persons (snd (issueCode e m p d)) = ac_persons d"
  by (simp add: issueCode_def UpsertMagicLinkCode_def Let_def split: option.split)

lemma one_row: "serial_key (map pe_id ps) h \<Longrightarrow> q \<in> set ps \<Longrightarrow> r \<in> set ps \<Longrightarrow> pe_id q = pe_id r \<Longrightarrow> q = r"
  by (auto simp: serial_key_def distinct_map inj_on_def)

lemma markVerified_births:
  assumes "acct_wf d"
  shows "births p (fst (markVerified e i d)) + of_bool (proven p d) = of_bool (proven p (snd (markVerified e i d)))"
proof (cases "au_fails e QMarkVerified \<or> \<not> (\<exists>q \<in> set (ac_persons d). pe_id q = pi_ID i \<and> pe_verified q = None)")
  case True
  then show ?thesis by (auto simp: markVerified_def)
next
  case False
  then obtain q where q: "q \<in> set (ac_persons d)" "pe_id q = pi_ID i" "pe_verified q = None" by blast
  have key: "serial_key (map pe_id (ac_persons d)) (ac_serial d TPerson)"
    using assms by (simp add: acct_wf_def persons_wf_def)
  have unproven: "\<not> proven (pi_ID i) d"
    unfolding proven_def using one_row [OF key q(1)] q(2,3) by metis
  let ?d = "d\<lparr>ac_persons := map (verify_row (pi_ID i) (au_now e)) (ac_persons d)\<rparr>"
  have eq: "snd (markVerified e i d) = ?d" "births p (fst (markVerified e i d)) = of_bool (p = pi_ID i)"
    using False by (simp_all add: markVerified_def verify_row_def [abs_def])
  have "proven (pi_ID i) ?d"
    unfolding proven_def using q by (intro bexI [of _ "verify_row (pi_ID i) (au_now e) q"]) (auto simp: verify_row_def)
  moreover have "proven p ?d = proven p d" if "p \<noteq> pi_ID i"
    using that by (force simp: proven_def verify_row_def)
  ultimately show ?thesis using unproven eq by (cases "p = pi_ID i") auto
qed

lemma sign_in_births:
  assumes "acct_wf d"
  shows "births p (fst (snd (sign_in e m pend d))) + of_bool (proven p d) = of_bool (proven p (snd (snd (sign_in e m pend d))))"
proof -
  have per: "proven p d1 = proven p d" if "ensurePerson e m d = (po, d1)" for po d1
    using that by (metis ensureAccount_proven ensurePerson_def snd_conv)
  show ?thesis
  proof (cases rule: sign_in_cases [of e m d pend])
    case (signed i d1 act d2 t x tok d3 born d4)
    have p3: "proven p d3 = proven p d"
      using per [OF signed(1)] activateInvites_persons [of e "pi_ID i" m d1] sess_Create_persons [of e "pi_ID i" t x d2] signed(2,4)
      by (simp add: proven_def)
    have "acct_wf d3"
      using assms signed(1,2,4) by (metis ensurePerson_def ensureAccount_wf activateInvites_wf sess_Create_wf snd_conv)
    from markVerified_births [OF this, of p e i] p3 signed(5,6) show ?thesis by simp
  next
    case (no_session i d1 act d2 t x d3)
    then show ?thesis
      using per [OF no_session(1)] activateInvites_persons [of e "pi_ID i" m d1] sess_Create_persons [of e "pi_ID i" t x d2]
      by (simp add: proven_def)
  next
    case (unmade d1)
    then show ?thesis using per [OF unmade(1)] by simp
  qed
qed

lemma request_code_quiet:
  "births p (fst (snd (request_code e ip m pend d))) = 0 \<and> proven p (snd (snd (request_code e ip m pend d))) = proven p d"
proof -
  obtain cnt d1 where d1: "RecordMagicLinkIP e ip d = (cnt, d1)" by fastforce
  obtain po d2 where d2: "ensurePerson e m d1 = (po, d2)" by fastforce
  obtain r d3 where d3: "issueCode e m pend d2 = (r, d3)" by fastforce
  have 1: "proven p d1 = proven p d" using RecordIP_persons [of e ip d] d1 by (simp add: proven_def)
  have 2: "proven p d2 = proven p d1" using d2 by (metis ensureAccount_proven ensurePerson_def snd_conv)
  have 3: "proven p d3 = proven p d2" using issueCode_persons [of e m pend d2] d3 by (simp add: proven_def)
  have "births p (snd (deliver_code e m c)) = 0" for c by (simp add: deliver_code_def Let_def)
  then show ?thesis
    using 1 2 3 by (auto simp: request_code_def d1 d2 d3 case_prod_beta split: option.split sum.split)
qed

lemma redeem_births:
  assumes "acct_wf d"
  shows "births p (fst (snd (redeem e m t d))) + of_bool (proven p d) = of_bool (proven p (snd (snd (redeem e m t d))))"
proof (cases "GetMagicLinkCode e m d")
  case (Some c)
  have "proven p (IncMagicLinkAttempts e m d) = proven p d" "proven p (MarkMagicLinkRedeemed e m d) = proven p d"
    by (simp_all add: proven_def)
  with assms sign_in_births [of "MarkMagicLinkRedeemed e m d" p e m] show ?thesis
    by (simp add: redeem_def Some redeem_act_def)
qed (simp add: redeem_def)

lemma door_step_births:
  assumes "acct_wf d"
  shows "births p (fst (door_step e oper d)) + of_bool (proven p d) = of_bool (proven p (snd (door_step e oper d)))"
proof (cases oper)
  case (MagicDoor h ip body)
  show ?thesis
  proof (cases body)
    case (Some req)
    then show ?thesis
      using redeem_births [OF assms, of p e "NormalizeEmail (mr_Email req)" "mr_Token req"]
        request_code_quiet [of p e ip "NormalizeEmail (mr_Email req)" "pendingFrom req" d]
      by (simp add: door_step_def magic_ServeHTTP_def Let_def MagicDoor)
  qed (simp add: door_step_def magic_ServeHTTP_def MagicDoor)
next
  case (GoogleDoor G g h body)
  from google_snd [of e G g h body d] show ?thesis
  proof (elim disjE exE)
    fix m
    assume "snd (google_ServeHTTP e G g h body d) = snd (sign_in e m no_claim d)"
    with sign_in_births [OF assms, of p e m no_claim] GoogleDoor show ?thesis by (simp add: door_step_def)
  qed (simp add: GoogleDoor door_step_def)
next
  case (TelegramDoor up hmac uj bt init)
  then show ?thesis
    using telegram_snd [of e up hmac uj bt init d] by (auto simp: door_step_def proven_def)
next
  case (CodeDoor email ip)
  then show ?thesis
    using RecordIP_persons [of e ip d]
    by (cases "RecordMagicLinkIP e ip d") (simp add: door_step_def IssueLoginCode_def proven_def)
next
  case (ProvisionDoor email domain)
  then show ?thesis by (simp add: door_step_def Provision_def case_prod_beta)
next
  case (MeDoor up ck)
  have "ac_persons (snd (FromRequest e ck d)) = ac_persons d"
    by (auto simp: FromRequest_def LookupSession_def TouchSession_eq split: option.split row_answer.split)
  with MeDoor show ?thesis by (simp add: door_step_def me_snd proven_def)
next
  case (LogoutDoor ck)
  then show ?thesis
    by (auto simp: door_step_def logout_ServeHTTP_def sess_Delete_def DeleteSession_def proven_def split: option.split)
qed

lemma run_births:
  "acct_wf d \<Longrightarrow>
   births p (fst (run_doors ops d)) + of_bool (proven p d) = of_bool (proven p (snd (run_doors ops d)))"
proof (induction ops arbitrary: d)
  case (Cons a ops)
  obtain e oper where a: "a = (e, oper)" by (cases a)
  obtain evs d1 where d1: "door_step e oper d = (evs, d1)" by fastforce
  obtain evs' d2 where d2: "run_doors ops d1 = (evs', d2)" by fastforce
  have "acct_wf d1" using door_step_wf [OF Cons.prems, of e oper] d1 by simp
  from Cons.IH [OF this] door_step_births [OF Cons.prems, of p e oper] show ?case
    by (simp add: a d1 d2)
qed simp

text \<open>C10. The event that an account was created fires once per person, in whatever order the doors are used and whatever queries fail: exactly
  when their address was first proven by a sign-in, never for a request, an invitation or a provisioned account.\<close>

theorem account_is_born_once:
  "births p (fst (run_doors ops no_accounts)) = of_bool (proven p (snd (run_doors ops no_accounts)))"
  using run_births [OF no_accounts_wf, of p ops] by (simp add: proven_def no_accounts_def)

end
