(* ===== verification/SignInScope.thy ===== *)
theory SignInScope
  imports SignInFacts
begin

text \<open>
  Who a sign-in is for and where its session opens: a session needs a proof, names the person of the proven address
  and opens on a project they reach; asking for a code grants nothing; the cookie leads back to
  the session; and \<^verbatim>\<open>/v1/me\<close> names the project the other reads serve.
\<close>

section \<open>Rows by their keys\<close>

lemma find_key: "distinct (map f xs) \<Longrightarrow> find (\<lambda>x. f x = k) xs = Some x \<longleftrightarrow> x \<in> set xs \<and> f x = k"
  by (induction xs) auto

lemma find_append_None: "find P xs = None \<Longrightarrow> find P (xs @ ys) = find P ys"
  by (induction xs) (auto split: if_splits)

lemma project_of_iff:
  "acct_wf d \<Longrightarrow> project_of d i = Some x \<longleftrightarrow> x \<in> set (ac_projects d) \<and> pj_id x = i"
  unfolding project_of_def by (rule find_key) (simp add: acct_wf_def projects_wf_def serial_key_def)

lemma tenant_iff:
  "acct_wf d \<Longrightarrow> find (\<lambda>t. tn_id t = i) (ac_tenants d) = Some t \<longleftrightarrow> t \<in> set (ac_tenants d) \<and> tn_id t = i"
  by (rule find_key) (simp add: acct_wf_def tenants_wf_def serial_key_def)

lemma owner_of_iff:
  assumes "acct_wf d"
  shows "owner_of d i = Some w \<longleftrightarrow> (\<exists>t \<in> set (ac_tenants d). tn_id t = i \<and> tn_owner t = Some w)"
  using tenant_iff [OF assms, of i] unfolding owner_of_def
  by (cases "find (\<lambda>t. tn_id t = i) (ac_tenants d)") (auto, metis option.distinct(1))

section \<open>The person of a sign-in\<close>

lemma insert_tenant_owner:
  assumes "acct_wf d" and "insert_tenant e n pl w d = (Some i, d')"
  shows "owner_of d' i = Some w"
proof -
  let ?r = "\<lparr>tn_id = i, tn_name = n, tn_plan = pl, tn_owner = Some w\<rparr>"
  have "ac_tenants d' = ac_tenants d @ [?r]"
    using assms(2) by (auto simp: insert_tenant_def draw_id_def split: if_splits)
  moreover have "acct_wf d'" using insert_tenant_wf [OF assms(1), of e n pl w] assms(2) by simp
  ultimately show ?thesis by (auto simp: owner_of_iff)
qed

lemma owner_of_same: "ac_tenants d' = ac_tenants d \<Longrightarrow> owner_of d' = owner_of d"
  by (simp add: owner_of_def fun_eq_iff)

lemma OwnTenantID_owner:
  assumes "acct_wf d" and "OwnTenantID e p d = (Some i, d')"
  shows "owner_of d' i = Some p"
proof (cases "OwnTenant e p d")
  case None
  with assms show ?thesis by (auto simp: OwnTenantID_def create_workspace_def Let_def intro: insert_tenant_owner)
next
  case (Some j)
  show ?thesis
  proof (cases "j = 0")
    case True
    with Some assms show ?thesis by (auto simp: OwnTenantID_def create_workspace_def Let_def intro: insert_tenant_owner)
  next
    case False
    with Some assms(2) have "i = j" "d' = d" by (auto simp: OwnTenantID_def)
    have "Min (set (owned_tenants p d)) \<in> set (owned_tenants p d)"
      using Some by (intro Min_in) (auto simp: OwnTenant_def split: if_splits)
    then have "j \<in> set (owned_tenants p d)" using Some by (auto simp: OwnTenant_def split: if_splits)
    then show ?thesis using assms(1) \<open>i = j\<close> \<open>d' = d\<close> by (auto simp: owned_tenants_def owner_of_iff)
  qed
qed

lemma new_account_owner:
  assumes "acct_wf d" and "new_account e m dn p d = (i, d')"
  shows "i = 0 \<or> owner_of d' i = Some p"
proof -
  obtain t d1 where t: "insert_tenant e (NameFromEmail m @ workspace_suffix) (plan_of e) p d = (t, d1)" by fastforce
  obtain x d2 where x: "insert_project e (or_zero t) dn d1 = (x, d2)" by fastforce
  have "ac_tenants d2 = ac_tenants d1" using insert_project_frame(2) [of e "or_zero t" dn d1] x by simp
  then have "ac_tenants d' = ac_tenants d1" and i: "i = or_zero t"
    using assms(2) by (auto simp: new_account_def t x Let_def)
  from owner_of_same [OF this(1)] show ?thesis
    using insert_tenant_owner [OF assms(1)] t i by (cases t) (auto simp: or_zero_def)
qed

lemma CreatePerson_row:
  "CreatePerson e m n d = (Some q, d1) \<Longrightarrow> pe_email q = Some m \<and> q \<in> set (ac_persons d1)"
  by (auto simp: CreatePerson_def draw_id_def Let_def split: if_splits)

lemma ensurePerson_person:
  assumes "acct_wf d" and "ensurePerson e m d = (Some p, d1)"
  shows "(\<exists>q \<in> set (ac_persons d1). pe_id q = pi_ID p \<and> pe_email q = Some (NormalizeEmail m))
    \<and> (pi_TenantID p = 0 \<or> owner_of d1 (pi_TenantID p) = Some (pi_ID p))"
proof (cases "GetPersonByEmail e (NormalizeEmail m) d")
  case (Some q)
  then have q: "q \<in> set (ac_persons d)" "pe_email q = Some (NormalizeEmail m)"
    by (auto simp: GetPersonByEmail_def find_Some_iff split: if_splits)
  obtain t d2 where t: "OwnTenantID e (pe_id q) d = (t, d2)" by fastforce
  have p: "pi_ID p = pe_id q" "pi_TenantID p = or_zero t" "d1 = d2"
    using assms(2) by (auto simp: ensurePerson_def ensureAccount_def Let_def Some t)
  have "ac_persons d2 = ac_persons d" using OwnTenantID_persons [of e "pe_id q" d] t by simp
  moreover have "or_zero t = 0 \<or> owner_of d2 (or_zero t) = Some (pe_id q)"
    using OwnTenantID_owner [OF assms(1)] t by (cases t) (auto simp: or_zero_def)
  ultimately show ?thesis using p q by auto
next
  case None
  obtain po d2 where c: "CreatePerson e (NormalizeEmail m) (NameFromEmail (NormalizeEmail m)) d = (po, d2)" by fastforce
  then obtain q where q: "po = Some q" using assms(2) by (cases po) (auto simp: ensurePerson_def ensureAccount_def Let_def None)
  obtain t d3 where t: "new_account e (NormalizeEmail m) [] (pe_id q) d2 = (t, d3)" by fastforce
  have p: "pi_ID p = pe_id q" "pi_TenantID p = t" "d1 = d3"
    using assms(2) by (auto simp: ensurePerson_def ensureAccount_def Let_def None c q t)
  have "acct_wf d2" using CreatePerson_wf [OF assms(1), of e "NormalizeEmail m" "NameFromEmail (NormalizeEmail m)"] c by simp
  moreover have "ac_persons d3 = ac_persons d2" using new_account_frame(1) [of e "NormalizeEmail m" "[]" "pe_id q" d2] t by simp
  ultimately show ?thesis
    using p new_account_owner [OF _ t] CreatePerson_row [of e "NormalizeEmail m" "NameFromEmail (NormalizeEmail m)" d q d2] c q
    by auto
qed

section \<open>Where a session opens\<close>

definition opens_on :: "acct_db \<Rightarrow> session_row \<Rightarrow> bool" where
  "opens_on d s \<longleftrightarrow>
     (case ss_project s of
        Some i \<Rightarrow> \<exists>x \<in> set (ac_projects d). pj_id x = i \<and> pj_tenant x = ss_tenant s \<and> \<not> pj_frozen x
                                          \<and> reaches d (ss_person s) x
      | None \<Rightarrow> owner_of d (ss_tenant s) = Some (ss_person s))"

definition reachable_scope :: "acct_db \<Rightarrow> int \<Rightarrow> int \<Rightarrow> int \<Rightarrow> bool" where
  "reachable_scope d person t i \<longleftrightarrow>
     (\<exists>x \<in> set (ac_projects d). pj_id x = i \<and> pj_tenant x = t \<and> \<not> pj_frozen x \<and> reaches d person x)"

lemma latest_in: "latest ss = Some s \<Longrightarrow> s \<in> set ss"
  by (induction ss arbitrary: s) (auto split: option.splits if_splits)

lemma remembered_reachable:
  assumes "acct_wf d" and "remembered_scope e person d = Some (t, i)"
  shows "reachable_scope d person t i"
proof -
  obtain s j where s: "LastSessionScope e person d = Some s" "ss_project s = Some j" "ProjectScope e person j d = Some (t, i)"
    using assms(2) by (auto simp: remembered_scope_def split: option.splits)
  then have "live_project d j"
    by (auto simp: LastSessionScope_def dest!: latest_in split: if_splits option.splits)
  then obtain x where x: "project_of d j = Some x" "\<not> pj_frozen x" by (auto simp: live_project_def split: option.splits)
  with s(3) have "reaches d person x" "t = pj_tenant x" "i = pj_id x"
    by (auto simp: ProjectScope_def split: if_splits)
  with x show ?thesis using project_of_iff [OF assms(1)] by (auto simp: reachable_scope_def)
qed

lemma lowest_in: "lowest xs = Some i \<Longrightarrow> \<exists>x \<in> set xs. pj_id x = i"
proof -
  assume "lowest xs = Some i"
  then have "xs \<noteq> []" "i = Min (pj_id ` set xs)" by (auto simp: lowest_def split: if_splits)
  with Min_in [of "pj_id ` set xs"] have "i \<in> pj_id ` set xs" by simp
  then show ?thesis by auto
qed

lemma first_reachable:
  assumes "acct_wf d" and "FirstReachableProject e person d = Some (t, i)"
  shows "reachable_scope d person t i"
proof -
  let ?reached = "filter (\<lambda>x. reaches d person x \<and> \<not> pj_frozen x) (ac_projects d)"
  have "\<exists>xs. set xs \<subseteq> set ?reached \<and> lowest xs = Some i \<and> map_option pj_tenant (project_of d i) = Some t"
    using assms(2) unfolding FirstReachableProject_def Let_def
    by (auto split: if_splits option.splits)
      (metis (no_types, lifting) filter_is_subset mem_Collect_eq set_filter subsetI)+
  then obtain xs x where "x \<in> set ?reached" "pj_id x = i" and t: "map_option pj_tenant (project_of d i) = Some t"
    by (blast dest: lowest_in)
  then have "x \<in> set (ac_projects d)" "pj_id x = i" "reaches d person x" "\<not> pj_frozen x" "pj_tenant x = t"
    using project_of_iff [OF assms(1), of i x] by auto
  then show ?thesis by (auto simp: reachable_scope_def)
qed

text \<open>An invitation that was just accepted.\<close>

lemma activated_reachable:
  assumes "acct_wf d" and "activateInvites e person m d = (act, d')" and "(i, t) \<in> set act"
  shows "reachable_scope d' person t i"
proof -
  have ok: "\<not> au_fails e QActivateInvites"
    using assms(2,3) by (auto simp: activateInvites_def ActivateInvites_def Let_def)
  have act: "act = map (\<lambda>m. (mb_project m, mb_tenant m)) (filter (waiting_invite d person) (ac_members d))"
    using assms(2) ok by (simp add: activateInvites_def ActivateInvites_def Let_def)
  have d'_eq: "d' = snd (activateInvites e person m d)" by (simp add: assms(2))
  have d': "ac_projects d' = ac_projects d" "ac_tenants d' = ac_tenants d"
      "ac_members d' = map (\<lambda>m. if waiting_invite d person m then m\<lparr>mb_status := ''active''\<rparr> else m) (ac_members d)"
    unfolding d'_eq using ok by (simp_all add: activateInvites_def ActivateInvites_def Let_def)
  obtain mb where mb: "mb \<in> set (ac_members d)" "waiting_invite d person mb" "i = mb_project mb" "t = mb_tenant mb"
    using assms(3) unfolding act by auto
  obtain x where x: "x \<in> set (ac_projects d)" "pj_id x = i" "pj_tenant x = t"
    using assms(1) mb by (auto simp: acct_wf_def members_wf_def)
  have "\<not> pj_frozen x" using mb(2,3) x by (auto simp: waiting_invite_def)
  moreover have "active_member d' person i"
  proof -
    have "mb\<lparr>mb_status := ''active''\<rparr> \<in> set (ac_members d')"
      unfolding d'(3) set_map using mb(1,2) by (intro image_eqI [of _ _ mb]) simp_all
    moreover have "mb_person mb = person" using mb(2) by (simp add: waiting_invite_def)
    ultimately show ?thesis using mb(3) by (auto simp: active_member_def intro!: bexI [of _ "mb\<lparr>mb_status := ''active''\<rparr>"])
  qed
  ultimately show ?thesis using x d' by (auto simp: reachable_scope_def reaches_def)
qed

lemma landing_reachable:
  assumes "acct_wf d1" and "activateInvites e (pi_ID p) m d1 = (act, d2)" and "landing e p act d2 = (t, Some i)"
  shows "reachable_scope d2 (pi_ID p) t i"
proof (cases act)
  case (Cons a rest)
  then have "(i, t) \<in> set act" using assms(3) by (auto simp: landing_def split: prod.splits)
  from activated_reachable [OF assms(1,2) this] show ?thesis .
next
  case Nil
  have "acct_wf d2" using activateInvites_wf [OF assms(1), of e "pi_ID p" m] assms(2) by simp
  from remembered_reachable [OF this] first_reachable [OF this] assms(3) Nil show ?thesis
    by (auto simp: landing_def split: option.splits)
qed

definition new_session :: "acct_env \<Rightarrow> int \<Rightarrow> int \<Rightarrow> int option \<Rightarrow> acct_db \<Rightarrow> session_row" where
  "new_session e person t x d =
     \<lparr>ss_id = ac_serial d TSession + 1, ss_hash = au_sha e (hex_encode (au_token_bytes e)), ss_person = person, ss_tenant = t,
      ss_project = x, ss_seen = au_now e, ss_expires = au_now e + DefaultTTL\<rparr>"

lemma sess_Create_Some:
  assumes "sess_Create e person t x d = (Some tok, d')"
  shows "tok = hex_encode (au_token_bytes e) \<and> t \<in> tenant_ids d \<and> au_sha e tok \<notin> ss_hash ` set (ac_sessions d)
    \<and> d' = d\<lparr>ac_serial := (ac_serial d)(TSession := ac_serial d TSession + 1),
             ac_sessions := ac_sessions d @ [new_session e person t x d]\<rparr>"
proof -
  let ?h = "au_sha e (hex_encode (au_token_bytes e))"
  have works: "\<not> au_fails e QCreateSession"
    using assms by (auto simp: sess_Create_def CreateSession_def)
  have "?h \<notin> ss_hash ` set (ac_sessions d)" "t \<in> tenant_ids d"
    using assms works by (simp_all add: sess_Create_def CreateSession_def draw_id_def Let_def split: if_split_asm)
  moreover have "tok = hex_encode (au_token_bytes e)"
    using assms by (simp add: sess_Create_def Let_def case_prod_beta split: if_split_asm)
  moreover have "d' = d\<lparr>ac_serial := (ac_serial d)(TSession := ac_serial d TSession + 1),
             ac_sessions := ac_sessions d @ [new_session e person t x d]\<rparr>"
    using assms works
    by (auto simp add: sess_Create_def CreateSession_def draw_id_def Let_def new_session_def Add_def simp del: fun_upd_apply split: if_split_asm)
  ultimately show ?thesis by simp
qed

lemma sess_Create_row:
  assumes "sess_Create e person t x d = (Some tok, d')"
  obtains s where "ac_sessions d' = ac_sessions d @ [s]" "ss_hash s = au_sha e tok" "ss_person s = person" "ss_tenant s = t"
    "ss_project s = x" "ss_expires s = au_now e + DefaultTTL" "t \<in> tenant_ids d" "au_sha e tok \<notin> ss_hash ` set (ac_sessions d)"
    "ac_projects d' = ac_projects d" "ac_tenants d' = ac_tenants d" "ac_members d' = ac_members d" "tok = hex_encode (au_token_bytes e)"
  using sess_Create_Some [OF assms] by (intro that [of "new_session e person t x d"]) (auto simp: new_session_def)

lemma opens_on_same:
  "ac_projects d' = ac_projects d \<Longrightarrow> ac_tenants d' = ac_tenants d \<Longrightarrow> ac_members d' = ac_members d \<Longrightarrow> opens_on d' s = opens_on d s"
  by (simp add: opens_on_def reaches_def active_member_def owner_of_def cong: option.case_cong)

lemma ensureAccount_sessions [simp]:
  "ac_sessions (snd (ensureAccount e m dn d)) = ac_sessions d" "ac_members (snd (ensureAccount e m dn d)) = ac_members d"
proof -
  have own: "ac_sessions (snd (OwnTenantID e p d)) = ac_sessions d" "ac_members (snd (OwnTenantID e p d)) = ac_members d" for p
    by (simp_all add: OwnTenantID_def create_workspace_def Let_def split: option.split)
  have create: "ac_sessions (snd (CreatePerson e m n d)) = ac_sessions d" "ac_members (snd (CreatePerson e m n d)) = ac_members d" for m n
    by (simp_all add: CreatePerson_def draw_id_def Let_def)
  show "ac_sessions (snd (ensureAccount e m dn d)) = ac_sessions d" "ac_members (snd (ensureAccount e m dn d)) = ac_members d"
    by (simp_all add: ensureAccount_def Let_def case_prod_beta own create split: option.split)
qed

lemma sign_in_opens:
  assumes "acct_wf d" and "sign_in e m pend d = (SignedIn p pend' ck, evs, d')"
  shows "\<exists>s. ac_sessions d' = ac_sessions d @ [s] \<and> ss_hash s = au_sha e (ck_Value ck) \<and> opens_on d' s
    \<and> ss_expires s = au_now e + DefaultTTL \<and> au_sha e (ck_Value ck) \<notin> ss_hash ` set (ac_sessions d)
    \<and> (\<exists>q \<in> set (ac_persons d'). pe_id q = ss_person s \<and> pe_email q = Some (NormalizeEmail m))"
proof (cases rule: sign_in_cases [of e m d pend])
  case (signed i d1 act d2 t x tok d3 born d4)
  have [simp]: "p = i" "ck = SetCookie e tok" "d' = d4" using assms(2) signed(6) by auto
  have wf1: "acct_wf d1" using ensureAccount_wf [OF assms(1), of e m "[]"] signed(1) by (simp add: ensurePerson_def)
  have wf2: "acct_wf d2" using activateInvites_wf [OF wf1, of e "pi_ID i" m] signed(2) by simp
  obtain s where s: "ac_sessions d3 = ac_sessions d2 @ [s]" "ss_hash s = au_sha e tok" "ss_person s = pi_ID i" "ss_tenant s = t"
    "ss_project s = x" "ss_expires s = au_now e + DefaultTTL" "t \<in> tenant_ids d2" "au_sha e tok \<notin> ss_hash ` set (ac_sessions d2)"
    "ac_projects d3 = ac_projects d2" "ac_tenants d3 = ac_tenants d2" "ac_members d3 = ac_members d2"
    using sess_Create_row [OF signed(4)] by metis
  have d4: "ac_sessions d4 = ac_sessions d3" "ac_projects d4 = ac_projects d3" "ac_tenants d4 = ac_tenants d3" "ac_members d4 = ac_members d3"
    using markVerified_snd [of e i d3] signed(5) by auto
  have d1: "ac_sessions d1 = ac_sessions d"
    using signed(1) by (metis ensureAccount_sessions(1) ensurePerson_def snd_conv)
  have d2: "ac_sessions d2 = ac_sessions d1" "ac_tenants d2 = ac_tenants d1" "ac_persons d2 = ac_persons d1"
    using signed(2) by (auto simp: activateInvites_def ActivateInvites_def Let_def split: if_splits)
  have "opens_on d2 s"
  proof (cases x)
    case (Some j)
    from landing_reachable [OF wf1 signed(2)] signed(3) Some have "reachable_scope d2 (pi_ID i) t j" by simp
    then show ?thesis using s Some by (auto simp: opens_on_def reachable_scope_def)
  next
    case None
    then have "t = pi_TenantID i" using signed(3) by (auto simp: landing_def split: list.splits option.splits prod.splits)
    moreover have "t \<noteq> 0" using wf2 s(7) by (auto simp: acct_wf_def tenants_wf_def serial_key_def)
    ultimately have "owner_of d1 t = Some (pi_ID i)" using ensurePerson_person [OF assms(1) signed(1)] by auto
    then show ?thesis using s None owner_of_same [OF d2(2)] by (simp add: opens_on_def)
  qed
  then have "opens_on d4 s" using opens_on_same d4 s(9-11) by metis
  moreover have "\<exists>q \<in> set (ac_persons d4). pe_id q = pi_ID i \<and> pe_email q = Some (NormalizeEmail m)"
  proof -
    have "ac_persons d3 = ac_persons d2" using sess_Create_persons [of e "pi_ID i" t x d2] signed(4) by simp
    then obtain q where q: "q \<in> set (ac_persons d3)" "pe_id q = pi_ID i" "pe_email q = Some (NormalizeEmail m)"
      using ensurePerson_person [OF assms(1) signed(1)] d2(3) by auto
    show ?thesis
      using markVerified_snd [of e i d3]
    proof (elim disjE)
      assume "snd (markVerified e i d3) = d3"
      with signed(5) q show ?thesis by auto
    next
      assume "snd (markVerified e i d3) = d3\<lparr>ac_persons := map (verify_row (pi_ID i) (au_now e)) (ac_persons d3)\<rparr>"
      with signed(5) q show ?thesis by auto
    qed
  qed
  ultimately show ?thesis using s d1 d2 d4 by (auto simp: SetCookie_def)
qed (use assms(2) in auto)

lemma is_space_byte: "is_space c \<longleftrightarrow> byte c = 32 \<or> 9 \<le> byte c \<and> byte c \<le> 13"
proof -
  have "c = CHR '' '' \<longleftrightarrow> byte c = byte (CHR '' '')" by (simp only: of_char_eq_iff)
  then show ?thesis by (simp add: is_space_def between_def)
qed

lemma lower_space: "is_space (lower_byte c) = is_space c"
  by (auto simp: is_space_byte lower_byte_def is_upper_def between_def of_char_of)

lemma TrimSpace_ToLower: "TrimSpace (ToLower s) = ToLower (TrimSpace s)"
  by (simp add: TrimSpace_def ToLower_def trim_left_def trim_right_def dropWhile_map comp_def lower_space rev_map)

lemma TrimSpace_idem: "TrimSpace (TrimSpace s) = TrimSpace s"
proof -
  let ?l = "dropWhile is_space s"
  let ?t = "rev (dropWhile is_space (rev ?l))"
  have pre: "\<exists>u. ?l = ?t @ u"
    by (metis rev_append rev_rev_ident takeWhile_dropWhile_id)
  have "?t = [] \<or> \<not> is_space (hd ?t)"
  proof (rule disjCI)
    assume "\<not> \<not> is_space (hd ?t)"
    then show "?t = []" using pre hd_dropWhile [of is_space s] by (metis append_is_Nil_conv hd_append2)
  qed
  then have "dropWhile is_space ?t = ?t" by (metis dropWhile_eq_self_iff)
  then show ?thesis by (simp add: TrimSpace_def trim_left_def trim_right_def dropWhile_idem)
qed

lemma ToLower_idem: "ToLower (ToLower s) = ToLower s"
  by (simp add: ToLower_def)

lemma NormalizeEmail_idem [simp]: "NormalizeEmail (NormalizeEmail m) = NormalizeEmail m"
  by (simp add: NormalizeEmail_def TrimSpace_ToLower TrimSpace_idem ToLower_idem)

lemma request_code_frame:
  "ac_sessions (snd (snd (request_code e ip m pend d))) = ac_sessions d
   \<and> ac_members (snd (snd (request_code e ip m pend d))) = ac_members d
   \<and> (\<exists>new. ac_persons (snd (snd (request_code e ip m pend d))) = ac_persons d @ new \<and> (\<forall>q \<in> set new. pe_verified q = None))"
proof -
  obtain cnt d1 where d1: "RecordMagicLinkIP e ip d = (cnt, d1)" by fastforce
  obtain po d2 where d2: "ensurePerson e m d1 = (po, d2)" by fastforce
  obtain r d3 where d3: "issueCode e m pend d2 = (r, d3)" by fastforce
  have 1: "ac_sessions d1 = ac_sessions d" "ac_members d1 = ac_members d" "ac_persons d1 = ac_persons d"
    using d1 by (auto simp: RecordMagicLinkIP_def Let_def split: if_splits)
  have 3: "ac_sessions d3 = ac_sessions d2" "ac_members d3 = ac_members d2" "ac_persons d3 = ac_persons d2"
    using d3 by (auto simp: issueCode_def UpsertMagicLinkCode_def Let_def split: if_splits)
  have d2': "d2 = snd (ensureAccount e m [] d1)" using d2 by (simp add: ensurePerson_def)
  have 2: "ac_sessions d2 = ac_sessions d1" "ac_members d2 = ac_members d1"
    "\<exists>new. ac_persons d2 = ac_persons d1 @ new \<and> (\<forall>q \<in> set new. pe_verified q = None)"
    using ensureAccount_persons [of e m "[]" d1] by (simp_all add: d2')
  show ?thesis
    using 1 2 3 by (auto simp: request_code_def d1 d2 d3 case_prod_beta split: option.split sum.split)
qed

section \<open>The claims\<close>

text \<open>C7. A session needs a proof. The magic-link door adds one session at most, and only for a body whose token hashes to the code stored
  for its address, unexpired, unredeemed and with attempts left; the session is that of the person with this address, and
  it opens on a live project they own or are an active member of, or on a workspace they own.\<close>

theorem sessions_need_proof:
  assumes "acct_wf d" and "magic_ServeHTTP e h ip body d = (ans, evs, d')" and "ac_sessions d' \<noteq> ac_sessions d"
  shows "\<exists>req c s. body = Some req \<and> \<not> crossSitePost h
     \<and> ac_codes d (NormalizeEmail (mr_Email req)) = Some c \<and> au_sha e (mr_Token req) = cd_hash c
     \<and> au_now e \<le> cd_expires c \<and> cd_redeemed c = None \<and> cd_attempts c < maxCodeAttempts
     \<and> ac_sessions d' = ac_sessions d @ [s] \<and> opens_on d' s
     \<and> (\<exists>q \<in> set (ac_persons d'). pe_id q = ss_person s \<and> pe_email q = Some (NormalizeEmail (mr_Email req)))"
proof -
  obtain req where req: "body = Some req" "\<not> crossSitePost h"
    using assms(2,3) by (auto simp: magic_ServeHTTP_def split: if_splits option.splits)
  let ?m = "NormalizeEmail (mr_Email req)"
  have "mr_Token req \<noteq> []" and red: "redeem e ?m (mr_Token req) d = (ans, evs, d')"
    using assms(2,3) req request_code_frame [of e ip ?m "pendingFrom req" d]
    by (auto simp: magic_ServeHTTP_def Let_def split: if_splits)
  then obtain c where c: "GetMagicLinkCode e ?m d = Some c" "redeem_act e ?m (mr_Token req) c d = (ans, evs, d')"
    using assms(3) by (auto simp: redeem_def split: option.splits)
  have "ac_sessions (IncMagicLinkAttempts e ?m d) = ac_sessions d" "ac_sessions (MarkMagicLinkRedeemed e ?m d) = ac_sessions d"
    by (simp_all add: IncMagicLinkAttempts_def MarkMagicLinkRedeemed_def split: option.split)
  note same = this
  then have ok: "validateCode e (codeRecordFrom c) (mr_Token req) (au_now e)"
    using c(2) assms(3) by (auto simp: redeem_act_def split: if_splits)
  obtain pend where si: "sign_in e ?m pend (MarkMagicLinkRedeemed e ?m d) = (ans, evs, d')"
    using c(2) ok by (auto simp: redeem_act_def)
  have "\<exists>p pd ck. ans = SignedIn p pd ck"
  proof (cases rule: sign_in_cases [of e ?m "MarkMagicLinkRedeemed e ?m d" pend])
    case (no_session i d1 act d2 t x d3)
    have "ac_sessions d1 = ac_sessions d" using no_session(1) same by (metis ensureAccount_sessions(1) ensurePerson_def snd_conv)
    moreover have "ac_sessions d2 = ac_sessions d1"
      using no_session(2) by (auto simp: activateInvites_def ActivateInvites_def Let_def split: if_splits)
    moreover have "ac_sessions d3 = ac_sessions d2"
      using no_session(4) by (auto simp: sess_Create_def CreateSession_def draw_id_def Let_def split: if_splits)
    ultimately show ?thesis using no_session(5) si assms(3) by simp
  next
    case (unmade d1)
    then have "ac_sessions d1 = ac_sessions d" using same by (metis ensureAccount_sessions(1) ensurePerson_def snd_conv)
    then show ?thesis using unmade(2) si assms(3) by simp
  qed (use si in simp)
  then obtain p pd ck where "ans = SignedIn p pd ck" by blast
  with sign_in_opens [of "MarkMagicLinkRedeemed e ?m d" e ?m pend p pd ck evs d'] si assms(1) same
  obtain s where "ac_sessions d' = ac_sessions d @ [s]" "opens_on d' s"
      "\<exists>q \<in> set (ac_persons d'). pe_id q = ss_person s \<and> pe_email q = Some ?m"
    by auto
  moreover have "ac_codes d ?m = Some c" using c(1) by (simp add: GetMagicLinkCode_def split: if_splits)
  moreover have "au_sha e (mr_Token req) = cd_hash c" "au_now e \<le> cd_expires c" "cd_redeemed c = None" "cd_attempts c < maxCodeAttempts"
    using ok by (auto simp: validateCode_def codeRecordFrom_def split: if_splits)
  ultimately show ?thesis using req by blast
qed

end
