(* ===== verification/SignInGuess.thy ===== *)
theory SignInGuess
  imports SignInFacts
begin

text \<open>
  How often a sign-in code can be guessed. A code admits five comparisons, a new one is issued a minute after the last at
  the earliest: a potential over the row of an address bounds the comparisons of any run of requests. Requests that
  overlap are not bound by it.
\<close>

section \<open>What a step does to the code of an address\<close>

lemma ensureAccount_codes [simp]: "ac_codes (snd (ensureAccount e m dn d)) = ac_codes d"
proof -
  have own: "ac_codes (snd (OwnTenantID e p d)) = ac_codes d" for p
    by (simp add: OwnTenantID_def create_workspace_def Let_def split: option.split)
  have create: "ac_codes (snd (CreatePerson e m n d)) = ac_codes d" for m n
    by (simp add: CreatePerson_def draw_id_def Let_def)
  show ?thesis
    using create [of "NormalizeEmail m" "NameFromEmail (NormalizeEmail m)"]
    by (auto simp: ensureAccount_def Let_def case_prod_beta own split: option.split)
qed

lemma ensurePerson_codes: "ensurePerson e m d = (po, d1) \<Longrightarrow> ac_codes d1 = ac_codes d"
  by (metis ensureAccount_codes ensurePerson_def snd_conv)

lemma sign_in_codes [simp]: "ac_codes (snd (snd (sign_in e m pend d))) = ac_codes d"
proof -
  have act: "ac_codes (snd (activateInvites e p m d)) = ac_codes d" for p d
    by (auto simp: activateInvites_def Let_def ActivateInvites_def)
  have sess: "ac_codes (snd (sess_Create e p t x d)) = ac_codes d" for p t x d
    by (auto simp: sess_Create_def CreateSession_def draw_id_def Let_def)
  have ver: "ac_codes (snd (markVerified e i d)) = ac_codes d" for i d
    by (simp add: markVerified_def)
  show ?thesis
    by (cases rule: sign_in_cases [of e m d pend]) (metis ensurePerson_codes act sess ver snd_conv)+
qed

lemma issueCode_codes:
  "snd (issueCode e m pend d) = d \<or>
   (\<not> cooling e (GetMagicLinkCode e m d)
    \<and> (\<exists>c. ac_codes (snd (issueCode e m pend d)) = (ac_codes d)(m \<mapsto> c) \<and> cd_attempts c = 0 \<and> cd_created c = au_now e))"
  by (auto simp: issueCode_def Let_def UpsertMagicLinkCode_def split: option.split)

lemma RecordIP_codes [simp]: "ac_codes (snd (RecordMagicLinkIP e ip d)) = ac_codes d"
  by (simp add: RecordMagicLinkIP_def Let_def)

text \<open>The three things that can happen to the row of an address.\<close>

definition issues :: "acct_env \<Rightarrow> string \<Rightarrow> acct_db \<Rightarrow> acct_db \<Rightarrow> bool" where
  "issues e m d d' \<longleftrightarrow>
     (case ac_codes d m of Some c \<Rightarrow> au_now e - cd_created c \<ge> emailCooldown | None \<Rightarrow> True)
     \<and> (\<exists>c. ac_codes d' m = Some c \<and> cd_attempts c = 0 \<and> cd_created c = au_now e)"

lemma not_cooling: "\<not> cooling e (Some c) \<Longrightarrow> au_now e - cd_created c \<ge> emailCooldown"
  by (auto simp: cooling_def time_defs emailCooldown_def)

lemma issueCode_issues:
  assumes "\<not> au_fails e QGetCode"
  shows "ac_codes (snd (issueCode e m' pend d)) m = ac_codes d m \<or> issues e m d (snd (issueCode e m' pend d))"
proof (cases "m = m'")
  case True
  then show ?thesis
    using issueCode_codes [of e m' pend d] assms not_cooling [of e]
    by (cases "ac_codes d m'") (auto simp: issues_def GetMagicLinkCode_def)
next
  case False
  then show ?thesis using issueCode_codes [of e m' pend d] by auto
qed

section \<open>Counting the comparisons\<close>

text \<open>Whether redeeming compares the submitted code with the stored one: the row is live.\<close>

definition live_row :: "acct_env \<Rightarrow> code_row \<Rightarrow> bool" where
  "live_row e c \<longleftrightarrow> cd_hash c \<noteq> [] \<and> au_now e \<le> cd_expires c \<and> cd_redeemed c = None \<and> cd_attempts c < maxCodeAttempts"

definition compares :: "string \<Rightarrow> acct_env \<Rightarrow> door_op \<Rightarrow> acct_db \<Rightarrow> bool" where
  "compares m e oper d =
     (case oper of
        MagicDoor h ip (Some req) \<Rightarrow>
          \<not> crossSitePost h \<and> NormalizeEmail (mr_Email req) = m \<and> m \<noteq> [] \<and> mr_Token req \<noteq> []
          \<and> (case GetMagicLinkCode e m d of Some c \<Rightarrow> live_row e c | None \<Rightarrow> False)
      | _ \<Rightarrow> False)"

fun guesses :: "string \<Rightarrow> (acct_env \<times> door_op) list \<Rightarrow> acct_db \<Rightarrow> int" where
  "guesses m [] d = 0"
| "guesses m ((e, oper) # ops) d = of_bool (compares m e oper d) + guesses m ops (snd (door_step e oper d))"

text \<open>A redeem compares only with a live row; the outcome is the comparison.\<close>

lemma validateCode_live:
  "validateCode e (codeRecordFrom c) t (au_now e) \<longleftrightarrow> live_row e c \<and> t \<noteq> [] \<and> au_sha e t = cd_hash c"
  by (auto simp: validateCode_def codeRecordFrom_def live_row_def)

section \<open>The potential\<close>

definition guesses_left :: "code_row \<Rightarrow> int" where
  "guesses_left c = (if cd_redeemed c = None then max 0 (maxCodeAttempts - cd_attempts c) else 0)"

text \<open>\<open>until\<close> is the end of the interval; a row written at \<open>cd_created\<close> leaves room for one code per minute.\<close>

definition potential :: "time \<Rightarrow> time \<Rightarrow> code_row option \<Rightarrow> int" where
  "potential since until row =
     (case row of
        None \<Rightarrow> 5 * ((until - since) div emailCooldown + 1)
      | Some c \<Rightarrow> guesses_left c + 5 * max 0 ((until - cd_created c) div emailCooldown))"

lemma cooldown_div:
  assumes "emailCooldown \<le> t - c" and "t \<le> until"
  shows "(until - t) div emailCooldown + 1 \<le> (until - c) div emailCooldown"
proof -
  have pos: "0 < emailCooldown" by (simp add: emailCooldown_def duration_defs)
  then have "((until - t) + emailCooldown) div emailCooldown = (until - t) div emailCooldown + 1"
    by (simp add: div_add_self2)
  moreover have "((until - t) + emailCooldown) div emailCooldown \<le> (until - c) div emailCooldown"
    using assms pos by (intro zdiv_mono1) auto
  ultimately show ?thesis by simp
qed

lemma potential_issue:
  assumes "issues e m d d'" and "since \<le> au_now e" and "au_now e \<le> until"
  shows "potential since until (ac_codes d' m) \<le> potential since until (ac_codes d m)"
proof -
  obtain c where c: "ac_codes d' m = Some c" "cd_attempts c = 0" "cd_created c = au_now e"
    using assms(1) by (auto simp: issues_def)
  have pos: "0 < emailCooldown" by (simp add: emailCooldown_def duration_defs)
  have room: "0 \<le> (until - au_now e) div emailCooldown"
    using assms(3) pos by (simp add: pos_imp_zdiv_nonneg_iff)
  then have new: "potential since until (ac_codes d' m) \<le> 5 + 5 * ((until - au_now e) div emailCooldown)"
    by (simp add: potential_def c guesses_left_def maxCodeAttempts_def)
  show ?thesis
  proof (cases "ac_codes d m")
    case None
    have "(until - au_now e) div emailCooldown \<le> (until - since) div emailCooldown"
      using assms(2) pos by (intro zdiv_mono1) auto
    with new None show ?thesis by (simp add: potential_def)
  next
    case (Some c')
    then have "emailCooldown \<le> au_now e - cd_created c'" using assms(1) by (simp add: issues_def)
    from cooldown_div [OF this assms(3)]
    have "5 + 5 * ((until - au_now e) div emailCooldown) \<le> 5 * max 0 ((until - cd_created c') div emailCooldown)"
      using room by linarith
    moreover have "0 \<le> guesses_left c'" by (simp add: guesses_left_def)
    ultimately have "5 + 5 * ((until - au_now e) div emailCooldown) \<le> potential since until (ac_codes d m)"
      by (simp add: potential_def Some)
    with new show ?thesis by linarith
  qed
qed

lemma potential_inc:
  "potential since until (Some (c\<lparr>cd_attempts := cd_attempts c + 1\<rparr>)) + of_bool (live_row e c)
     \<le> potential since until (Some c)"
  by (auto simp: potential_def guesses_left_def live_row_def maxCodeAttempts_def)

lemma potential_redeemed:
  "live_row e c \<Longrightarrow>
   potential since until (Some (c\<lparr>cd_redeemed := Some t, cd_slug := None, cd_token := None, cd_next := None\<rparr>)) + 1
     \<le> potential since until (Some c)"
  by (auto simp: potential_def guesses_left_def live_row_def maxCodeAttempts_def)

lemma redeem_potential:
  assumes "\<not> au_fails e QGetCode" "\<not> au_fails e QIncAttempts" "\<not> au_fails e QMarkRedeemed" and "t \<noteq> []"
  shows "potential since until (ac_codes (snd (snd (redeem e m' t d))) m)
       + of_bool (m' = m \<and> (case GetMagicLinkCode e m d of Some c \<Rightarrow> live_row e c | None \<Rightarrow> False))
     \<le> potential since until (ac_codes d m)"
proof (cases "ac_codes d m'")
  case None
  then show ?thesis using assms(1) by (auto simp: redeem_def GetMagicLinkCode_def)
next
  case (Some c)
  show ?thesis
  proof (cases "validateCode e (codeRecordFrom c) t (au_now e)")
    case True
    then have live: "live_row e c" by (simp add: validateCode_live)
    then have "cd_redeemed c = None" by (simp add: live_row_def)
    then have codes: "ac_codes (snd (snd (redeem e m' t d))) = (ac_codes d)(m' \<mapsto>
        c\<lparr>cd_redeemed := Some (au_now e), cd_slug := None, cd_token := None, cd_next := None\<rparr>)"
      using True assms(1,3) Some
      by (simp add: redeem_def GetMagicLinkCode_def redeem_act_def MarkMagicLinkRedeemed_def)
    show ?thesis using potential_redeemed [OF live, of since until "au_now e"] live assms(1) Some
      by (auto simp: codes GetMagicLinkCode_def)
  next
    case False
    then have codes: "ac_codes (snd (snd (redeem e m' t d))) = (ac_codes d)(m' \<mapsto> c\<lparr>cd_attempts := cd_attempts c + 1\<rparr>)"
      using assms(1,2) Some by (simp add: redeem_def GetMagicLinkCode_def redeem_act_def IncMagicLinkAttempts_def)
    show ?thesis using potential_inc [of since until c e] assms(1) Some by (auto simp: codes GetMagicLinkCode_def)
  qed
qed

text \<open>Every other step writes no code or issues one.\<close>

lemma request_codes:
  assumes "\<not> au_fails e QGetCode"
  shows "ac_codes (snd (snd (request_code e ip m' pend d))) m = ac_codes d m \<or> issues e m d (snd (snd (request_code e ip m' pend d)))"
proof -
  obtain cnt d1 where d1: "RecordMagicLinkIP e ip d = (cnt, d1)" by fastforce
  obtain po d2 where d2: "ensurePerson e m' d1 = (po, d2)" by fastforce
  obtain r d3 where d3: "issueCode e m' pend d2 = (r, d3)" by fastforce
  have same: "ac_codes d1 = ac_codes d" "ac_codes d2 = ac_codes d"
    using RecordIP_codes [of e ip d] ensurePerson_codes [OF d2] d1 by auto
  have "ac_codes d3 m = ac_codes d m \<or> issues e m d d3"
    using issueCode_issues [OF assms, of m' pend d2 m] d3 same by (simp add: issues_def)
  then show ?thesis
    using same by (auto simp: request_code_def d1 d2 d3 case_prod_beta split: option.split sum.split)
qed

lemma other_step_codes:
  assumes "\<not> au_fails e QGetCode" and "\<And>h ip body. oper \<noteq> MagicDoor h ip body"
  shows "ac_codes (snd (door_step e oper d)) m = ac_codes d m \<or> issues e m d (snd (door_step e oper d))"
proof (cases oper)
  case (GoogleDoor G g h body)
  from google_snd [of e G g h body d] have "ac_codes (snd (snd (google_ServeHTTP e G g h body d))) = ac_codes d"
  proof (elim disjE exE)
    fix m
    assume "snd (google_ServeHTTP e G g h body d) = snd (sign_in e m no_claim d)"
    then show ?thesis by simp
  qed simp
  with GoogleDoor show ?thesis by (simp add: door_step_def)
next
  case (TelegramDoor up hmac uj bt init)
  have "ac_codes (snd (sess_Create e p t x d)) = ac_codes d" for p t x
    by (auto simp: sess_Create_def CreateSession_def draw_id_def Let_def)
  then have "ac_codes (snd (telegram_ServeHTTP e up hmac uj bt init d)) = ac_codes d"
    using telegram_snd [of e up hmac uj bt init d] by auto
  then show ?thesis by (simp add: door_step_def TelegramDoor)
next
  case (CodeDoor email ip)
  obtain cnt d1 where d1: "RecordMagicLinkIP e ip d = (cnt, d1)" by fastforce
  then have "ac_codes d1 = ac_codes d" using RecordIP_codes [of e ip d] by simp
  then show ?thesis
    using issueCode_issues [OF assms(1), of "NormalizeEmail email" no_claim d1 m]
    by (auto simp: door_step_def CodeDoor IssueLoginCode_def d1 issues_def)
next
  case (ProvisionDoor email domain)
  then show ?thesis by (simp add: door_step_def Provision_def case_prod_beta)
next
  case (MeDoor up ck)
  then show ?thesis
    by (auto simp: door_step_def me_snd FromRequest_def LookupSession_def TouchSession_eq split: option.split row_answer.split)
next
  case (LogoutDoor ck)
  then show ?thesis
    by (auto simp: door_step_def logout_ServeHTTP_def sess_Delete_def DeleteSession_def split: option.split)
qed (use assms(2) in blast)

lemma door_step_potential:
  assumes "\<not> au_fails e QGetCode" "\<not> au_fails e QIncAttempts" "\<not> au_fails e QMarkRedeemed"
    and "since \<le> au_now e" "au_now e \<le> until"
  shows "potential since until (ac_codes (snd (door_step e oper d)) m) + of_bool (compares m e oper d)
     \<le> potential since until (ac_codes d m)"
proof (cases "\<exists>h ip body. oper = MagicDoor h ip body")
  case False
  then have "\<not> compares m e oper d" by (auto simp: compares_def split: door_op.split)
  with other_step_codes [OF assms(1), of oper d m] False potential_issue [OF _ assms(4,5)] show ?thesis
    by fastforce
next
  case True
  then obtain h ip body where oper: "oper = MagicDoor h ip body" by blast
  show ?thesis
  proof (cases body)
    case (Some req)
    show ?thesis
    proof (cases "mr_Token req = []")
      case True
      then show ?thesis
        using request_codes [OF assms(1), of ip "NormalizeEmail (mr_Email req)" "pendingFrom req" d m] potential_issue [OF _ assms(4,5)]
        by (auto simp: door_step_def oper magic_ServeHTTP_def Some Let_def compares_def)
    next
      case False
      then show ?thesis
        using redeem_potential [OF assms(1-3) False, of since until "NormalizeEmail (mr_Email req)" d m]
        by (auto simp: door_step_def oper magic_ServeHTTP_def Some Let_def compares_def)
    qed
  qed (simp add: oper door_step_def magic_ServeHTTP_def compares_def)
qed

definition codes_work :: "acct_env \<Rightarrow> bool" where
  "codes_work e \<longleftrightarrow> \<not> au_fails e QGetCode \<and> \<not> au_fails e QIncAttempts \<and> \<not> au_fails e QMarkRedeemed"

lemma potential_nonneg: "since \<le> until \<Longrightarrow> 0 \<le> potential since until row"
  by (auto simp: potential_def guesses_left_def emailCooldown_def duration_defs pos_imp_zdiv_nonneg_iff split: option.split)

lemma guesses_potential:
  assumes "\<forall>(e, oper) \<in> set ops. codes_work e \<and> since \<le> au_now e \<and> au_now e \<le> until" and "since \<le> until"
  shows "guesses m ops d \<le> potential since until (ac_codes d m)"
  using assms(1)
proof (induction ops arbitrary: d)
  case Nil
  then show ?case using potential_nonneg [OF assms(2)] by simp
next
  case (Cons a ops)
  obtain e oper where a: "a = (e, oper)" by (cases a)
  then show ?case
    using Cons.IH [of "snd (door_step e oper d)"] Cons.prems door_step_potential [of e since until oper d m]
    by (auto simp: codes_work_def)
qed

text \<open>C6. Guessing is bounded: however the requests of an interval are chosen and through whichever door, the code of an address is compared
  at most five times per minute of the interval, and five times more, while the queries on
  codes work.\<close>

theorem guesses_are_bounded:
  assumes "\<forall>(e, oper) \<in> set ops. codes_work e \<and> since \<le> au_now e \<and> au_now e \<le> until"
    and "since \<le> until" and "ac_codes d m = None"
  shows "guesses m ops d \<le> 5 * ((until - since) div emailCooldown + 1)"
  using guesses_potential [OF assms(1,2), of m d] assms(3) by (simp add: potential_def)

end
