(* ===== verification/SignInProof.thy ===== *)
theory SignInProof
  imports SignInScope SignInGuess
begin

text \<open>
  A valid code signs in; two redeems that overlap share it; what a request may not do; the way back from the cookie to
  the session; and concrete runs of the doors, which the claims are checked on.
\<close>

section \<open>A valid code signs in\<close>

definition all_work :: "acct_env \<Rightarrow> bool" where
  "all_work e \<longleftrightarrow> (\<forall>q. \<not> au_fails e q)"

lemma owner_tenant: "acct_wf d \<Longrightarrow> owner_of d i = Some w \<Longrightarrow> i \<in> tenant_ids d"
  by (auto simp: owner_of_iff)

lemma insert_tenant_works:
  "all_work e \<Longrightarrow> w \<in> person_ids d \<Longrightarrow> \<exists>i d'. insert_tenant e n pl w d = (Some i, d') \<and> i \<in> tenant_ids d'"
  by (auto simp: insert_tenant_def draw_id_def all_work_def)

lemma OwnTenantID_works:
  assumes "all_work e" and "p \<in> person_ids d"
  shows "\<exists>i d'. OwnTenantID e p d = (Some i, d')"
proof -
  have "\<exists>i d'. create_workspace e p d = (Some i, d')"
    using insert_tenant_works [OF assms] unfolding create_workspace_def Let_def by metis
  then show ?thesis by (auto simp: OwnTenantID_def split: option.split)
qed

lemma ensurePerson_works:
  assumes "acct_wf d" and "all_work e"
  obtains p d1 where "ensurePerson e m d = (Some p, d1)" "pi_TenantID p \<in> tenant_ids d1" "pi_ID p \<in> person_ids d1"
proof (cases "GetPersonByEmail e (NormalizeEmail m) d")
  case (Some q)
  then have "pe_id q \<in> person_ids d" by (auto simp: GetPersonByEmail_def find_Some_iff split: if_splits)
  from OwnTenantID_works [OF assms(2) this] obtain i d' where own: "OwnTenantID e (pe_id q) d = (Some i, d')" by blast
  have "acct_wf d'" using OwnTenantID_wf [OF assms(1), of e "pe_id q"] own by simp
  then have "i \<in> tenant_ids d'" using OwnTenantID_owner [OF assms(1) own] owner_tenant by blast
  moreover have "ac_persons d' = ac_persons d" using OwnTenantID_persons [of e "pe_id q" d] own by simp
  ultimately show ?thesis
    using \<open>pe_id q \<in> person_ids d\<close>
    by (intro that) (auto simp: ensurePerson_def ensureAccount_def Let_def Some own or_zero_def)
next
  case None
  let ?m = "NormalizeEmail m"
  have "\<not> (\<exists>q \<in> set (ac_persons d). pe_email q = Some ?m)"
    using None assms(2) by (auto simp: GetPersonByEmail_def all_work_def find_None_iff)
  then obtain q d2 where c: "CreatePerson e ?m (NameFromEmail ?m) d = (Some q, d2)"
    using assms(2) by (simp add: CreatePerson_def draw_id_def Let_def all_work_def)
  have wf2: "acct_wf d2" using CreatePerson_wf [OF assms(1), of e ?m "NameFromEmail ?m"] c by simp
  have q: "pe_id q \<in> person_ids d2" using CreatePerson_row [OF c] by blast
  obtain i d3 where t: "insert_tenant e (NameFromEmail ?m @ workspace_suffix) (plan_of e) (pe_id q) d2 = (Some i, d3)" "i \<in> tenant_ids d3"
    using insert_tenant_works [OF assms(2) q] by blast
  obtain j d4 where n: "new_account e ?m [] (pe_id q) d2 = (j, d4)" by fastforce
  have j: "j = i" using n t(1) by (auto simp: new_account_def Let_def or_zero_def case_prod_beta)
  have "ac_tenants d4 = ac_tenants d3"
    using n t(1) by (auto simp: new_account_def Let_def case_prod_beta)
  moreover have "ac_persons d4 = ac_persons d2" using new_account_frame(1) [of e ?m "[]" "pe_id q" d2] n by simp
  ultimately show ?thesis
    using q t j by (intro that) (auto simp: ensurePerson_def ensureAccount_def Let_def None c n)
qed

lemma sess_Create_works:
  assumes "all_work e" "au_sha e (hex_encode (au_token_bytes e)) \<notin> ss_hash ` set (ac_sessions d)"
    "person \<in> person_ids d" "t \<in> tenant_ids d" "set_option x \<subseteq> project_ids d"
  shows "\<exists>d'. sess_Create e person t x d = (Some (hex_encode (au_token_bytes e)), d')"
  using assms by (cases x) (auto simp: sess_Create_def CreateSession_def draw_id_def Let_def all_work_def)

definition is_signed_in :: "door_answer \<Rightarrow> bool" where
  "is_signed_in ans \<longleftrightarrow> (case ans of SignedIn _ _ _ \<Rightarrow> True | _ \<Rightarrow> False)"

lemma sign_in_works:
  assumes "acct_wf d" and "all_work e" and "au_sha e (hex_encode (au_token_bytes e)) \<notin> ss_hash ` set (ac_sessions d)"
  shows "is_signed_in (fst (sign_in e m pend d))"
proof -
  obtain p d1 where p: "ensurePerson e m d = (Some p, d1)" "pi_TenantID p \<in> tenant_ids d1" "pi_ID p \<in> person_ids d1"
    using ensurePerson_works [OF assms(1,2)] by metis
  obtain act d2 where act: "activateInvites e (pi_ID p) m d1 = (act, d2)" by fastforce
  obtain t x where land: "landing e p act d2 = (t, x)" by fastforce
  have wf1: "acct_wf d1" using ensureAccount_wf [OF assms(1), of e m "[]"] p(1) by (simp add: ensurePerson_def)
  have wf2: "acct_wf d2" using activateInvites_wf [OF wf1, of e "pi_ID p" m] act by simp
  have same: "ac_tenants d2 = ac_tenants d1" "ac_persons d2 = ac_persons d1" "ac_sessions d2 = ac_sessions d1"
    using act by (auto simp: activateInvites_def ActivateInvites_def Let_def split: if_splits)
  have sess: "ac_sessions d1 = ac_sessions d"
    using p(1) by (metis ensureAccount_sessions(1) ensurePerson_def snd_conv)
  have "t \<in> tenant_ids d2 \<and> set_option x \<subseteq> project_ids d2"
  proof (cases x)
    case (Some i)
    then have "reachable_scope d2 (pi_ID p) t i" using landing_reachable [OF wf1 act] land by simp
    then show ?thesis using wf2 Some by (auto simp: reachable_scope_def acct_wf_def projects_wf_def)
  next
    case None
    then have "t = pi_TenantID p" using land by (auto simp: landing_def split: list.splits option.splits prod.splits)
    then show ?thesis using p(2) same None by simp
  qed
  then obtain tok d3 where "sess_Create e (pi_ID p) t x d2 = (Some tok, d3)"
    using sess_Create_works [OF assms(2)] assms(3) sess same p(3) by metis
  then show ?thesis using p(1) act land by (auto simp: sign_in_def is_signed_in_def split: prod.split)
qed

lemma codes_frame [simp]:
  "ac_sessions (MarkMagicLinkRedeemed e m d) = ac_sessions d" "ac_sessions (IncMagicLinkAttempts e m d) = ac_sessions d"
  by (simp_all add: MarkMagicLinkRedeemed_def IncMagicLinkAttempts_def split: option.split)

lemma redeem_act_works:
  assumes "acct_wf d" "all_work e" "au_sha e (hex_encode (au_token_bytes e)) \<notin> ss_hash ` set (ac_sessions d)"
    and "validateCode e (codeRecordFrom c) t (au_now e)"
  shows "is_signed_in (fst (redeem_act e m t c d))"
  using sign_in_works [of "MarkMagicLinkRedeemed e m d" e m] assms by (simp add: redeem_act_def)

section \<open>Two redeems at once\<close>

lemma redeem_act_marks:
  assumes "all_work e" "ac_codes d m = Some c" "validateCode e (codeRecordFrom c) t (au_now e)"
  shows "\<exists>c'. ac_codes (snd (snd (redeem_act e m t c d))) m = Some c' \<and> cd_redeemed c' \<noteq> None"
  using assms by (auto simp: redeem_act_def MarkMagicLinkRedeemed_def all_work_def)

lemma redeem_act_wf: "acct_wf d \<Longrightarrow> acct_wf (snd (snd (redeem_act e m t c d)))"
  by (simp add: redeem_act_def sign_in_wf)

lemma redeem_act_sessions:
  assumes "acct_wf d" "is_signed_in (fst (redeem_act e m t c d))"
  shows "\<exists>s. ac_sessions (snd (snd (redeem_act e m t c d))) = ac_sessions d @ [s] \<and> ss_hash s = au_sha e (hex_encode (au_token_bytes e))"
proof -
  obtain pend where eq: "redeem_act e m t c d = sign_in e m pend (MarkMagicLinkRedeemed e m d)"
    using assms(2) by (auto simp: redeem_act_def is_signed_in_def split: if_splits)
  show ?thesis
  proof (cases rule: sign_in_cases [of e m "MarkMagicLinkRedeemed e m d" pend])
    case (signed i d1 act d2 t x tok d3 born d4)
    have "tok = hex_encode (au_token_bytes e)" using sess_Create_Some [OF signed(4)] by simp
    with sign_in_opens [of "MarkMagicLinkRedeemed e m d" e m pend] assms(1) signed(6) eq show ?thesis
      by (fastforce simp: SetCookie_def)
  qed (use assms(2) eq in \<open>auto simp: is_signed_in_def\<close>)
qed

text \<open>C11. A code signs in once only if redeems do not overlap. When two requests have both read the row before either marks it, both are signed
  in, although the code is marked redeemed before the first session is made; the result of
  the mark is not looked at. A redeem that starts after the first is refused.\<close>

theorem overlapping_redeems_both_sign_in:
  assumes "acct_wf d" and "all_work e1" and "all_work e2" and "ac_codes d m = Some c"
    and "validateCode e1 (codeRecordFrom c) t (au_now e1)" and "validateCode e2 (codeRecordFrom c) t (au_now e2)"
    and "au_sha e1 (hex_encode (au_token_bytes e1)) \<notin> ss_hash ` set (ac_sessions d)"
    and "au_sha e2 (hex_encode (au_token_bytes e2)) \<notin> ss_hash ` set (ac_sessions d)"
    and "au_sha e1 (hex_encode (au_token_bytes e1)) \<noteq> au_sha e2 (hex_encode (au_token_bytes e2))"
  shows "is_signed_in (fst (redeem_act e1 m t c d))
     \<and> is_signed_in (fst (redeem_act e2 m t c (snd (snd (redeem_act e1 m t c d)))))
     \<and> fst (redeem e2 m t (snd (snd (redeem_act e1 m t c d)))) = Refused 401 ''invalid_token''"
proof (intro conjI)
  let ?d = "snd (snd (redeem_act e1 m t c d))"
  show one: "is_signed_in (fst (redeem_act e1 m t c d))"
    using assms by (intro redeem_act_works)
  obtain s where "ac_sessions ?d = ac_sessions d @ [s]" "ss_hash s = au_sha e1 (hex_encode (au_token_bytes e1))"
    using redeem_act_sessions [OF assms(1) one] by blast
  then have "au_sha e2 (hex_encode (au_token_bytes e2)) \<notin> ss_hash ` set (ac_sessions ?d)" using assms(8,9) by auto
  then show "is_signed_in (fst (redeem_act e2 m t c ?d))"
    using assms redeem_act_wf [OF assms(1)] by (intro redeem_act_works)
  obtain c' where "ac_codes ?d m = Some c'" "cd_redeemed c' \<noteq> None"
    using redeem_act_marks [OF assms(2,4,5)] by blast
  then show "fst (redeem e2 m t ?d) = Refused 401 ''invalid_token''"
    using assms(3) by (auto simp: redeem_def GetMagicLinkCode_def all_work_def redeem_act_def validateCode_def codeRecordFrom_def)
qed

section \<open>Asking for a code grants nothing\<close>

text \<open>Asking for a code proves nothing, and grants nothing: no session is made, no invitation accepted and no address verified; outside
  development the answer never carries the code, which is mailed to the address it is for, or with no
  mailer written to the log.\<close>

theorem request_grants_nothing:
  assumes "request_code e ip m pend d = (ans, evs, d')"
  shows "ac_sessions d' = ac_sessions d \<and> ac_members d' = ac_members d \<and> proven p d' = proven p d
     \<and> (\<forall>code. ans = AcceptedCode (Some code) \<longrightarrow> au_dev e)
     \<and> (\<forall>dest code. MailedCode dest code \<in> set evs \<longrightarrow> dest = m)
     \<and> (\<forall>dest code. LoggedCode dest code \<in> set evs \<longrightarrow> \<not> mailer_of e)"
proof -
  have "proven p d' = proven p d" using request_code_quiet [of p e ip m pend d] assms by simp
  moreover have "ac_sessions d' = ac_sessions d" "ac_members d' = ac_members d"
    using request_code_frame [of e ip m pend d] assms by simp_all
  moreover have "evs = [] \<and> (\<forall>c. ans \<noteq> AcceptedCode (Some c)) \<or>
      (\<exists>code. ans = fst (deliver_code e m code) \<and> evs = ServerEvent ''magic_link_requested'' 0 0 # snd (deliver_code e m code))"
    using assms by (auto simp: request_code_def case_prod_beta split: if_splits option.splits sum.splits prod.splits)
  ultimately show ?thesis by (auto simp: deliver_code_def Let_def split: if_splits)
qed

end
