(* ===== verification/SignInCheck.thy ===== *)
theory SignInCheck
  imports SignInProof
begin

text \<open>
  The way back from a cookie to its session, what \<^verbatim>\<open>/v1/me\<close> names, and concrete runs of the doors on which the
  claims of the sign-in theories are checked.
\<close>

section \<open>A code that was asked for\<close>

definition fresh_code :: "acct_env \<Rightarrow> pendingClaim \<Rightarrow> code_row" where
  "fresh_code e p =
     \<lparr>cd_hash = au_sha e (genCode e), cd_attempts = 0, cd_expires = au_now e + codeTTL, cd_redeemed = None,
      cd_created = au_now e, cd_slug = orNull (pc_Slug p), cd_token = orNull (pc_Token p), cd_next = orNull (pc_Next p)\<rparr>"

lemma asked_code_is_stored:
  assumes "acct_wf d" and "all_work e" and "ac_codes d m = None" and "ac_ips d ip = None"
  shows "ac_codes (snd (snd (request_code e ip m pend d))) m = Some (fresh_code e pend)"
proof -
  obtain cnt d1 where d1: "RecordMagicLinkIP e ip d = (cnt, d1)" by fastforce
  have win: "\<not> over_the_window cnt" and codes1: "ac_codes d1 = ac_codes d" and wf1: "acct_wf d1"
    using d1 assms code_queries_wf(3) [of e ip d]
    by (auto simp: RecordMagicLinkIP_def window_row_def over_the_window_def ipWindowCap_def all_work_def)
  obtain p d2 where d2: "ensurePerson e m d1 = (Some p, d2)" using ensurePerson_works [OF wf1 assms(2)] by metis
  have "ac_codes d2 = ac_codes d" using ensurePerson_codes [OF d2] codes1 by simp
  then have "issueCode e m pend d2 = (Inr (genCode e), d2\<lparr>ac_codes := (ac_codes d)(m \<mapsto> fresh_code e pend)\<rparr>)"
    using assms(2,3)
    by (simp add: issueCode_def cooling_def GetMagicLinkCode_def UpsertMagicLinkCode_def all_work_def Let_def fresh_code_def Add_def)
  then show ?thesis by (simp add: request_code_def d1 win d2 case_prod_beta)
qed

lemma fresh_code_valid:
  assumes "au_sha f = au_sha e" "au_sha e (genCode e) \<noteq> []" "genCode e \<noteq> []" "au_now f \<le> au_now e + codeTTL"
  shows "validateCode f (codeRecordFrom (fresh_code e p)) (genCode e) (au_now f)"
  using assms by (simp add: validateCode_def codeRecordFrom_def fresh_code_def maxCodeAttempts_def)

section \<open>A deployment and its first customer\<close>

definition demo_env :: "time \<Rightarrow> string \<Rightarrow> acct_env" where
  "demo_env t tok =
     \<lparr>au_now = t, au_fails = (\<lambda>q. False), au_sha = (\<lambda>s. CHR ''h'' # s), au_code_bytes = ''abcd'', au_token_bytes = tok,
      au_key_bytes = ''0123456789abcdef'', au_uuid = (\<lambda>t. ''u''), au_dev = False, au_selfHosted = False,
      au_mailer = Some None, au_send_fails = False, au_fixed = (0, 0)\<rparr>"

definition demo_headers :: "string \<Rightarrow> string" where
  "demo_headers k = (if k = ''Content-Type'' then ''application/json'' else [])"

definition demo_request :: "string \<Rightarrow> magicLinkReq" where
  "demo_request tok = \<lparr>mr_Email = '' Ann@X.io'', mr_Token = tok, mr_Claim = [], mr_ClaimToken = [], mr_Next = ''/app''\<rparr>"

definition demo_ask :: "acct_env \<times> door_op" where
  "demo_ask = (demo_env 0 ''t0'', MagicDoor demo_headers ''1.2.3.4'' (Some (demo_request [])))"

definition demo_guess :: "acct_env \<times> door_op" where
  "demo_guess = (demo_env second ''t1'', MagicDoor demo_headers ''1.2.3.4'' (Some (demo_request ''zz'')))"

definition demo_asked :: acct_db where
  "demo_asked = snd (run_doors [demo_ask] no_accounts)"

lemma demo_asked_wf: "acct_wf demo_asked"
  unfolding demo_asked_def by (rule run_doors_wf [OF no_accounts_wf])

lemma demo_email: "NormalizeEmail '' Ann@X.io'' = ''ann@x.io''"
  by code_simp

lemma demo_accepts: "\<not> crossSitePost demo_headers"
  by code_simp

lemma demo_works: "all_work (demo_env t tok)"
  by (simp add: all_work_def demo_env_def)

lemma demo_code: "genCode (demo_env t tok) = ''61626364''"
proof -
  have "hex_encode ''abcd'' = ''61626364''" by code_simp
  then show ?thesis by (simp add: genCode_def demo_env_def)
qed

lemma demo_asked_eq:
  "demo_asked = snd (snd (request_code (demo_env 0 ''t0'') ''1.2.3.4'' ''ann@x.io'' (pendingFrom (demo_request [])) no_accounts))"
  by (simp add: demo_asked_def demo_ask_def door_step_def magic_ServeHTTP_def demo_accepts Let_def demo_request_def demo_email case_prod_beta)

lemma demo_row: "ac_codes demo_asked ''ann@x.io'' = Some (fresh_code (demo_env 0 ''t0'') (pendingFrom (demo_request [])))"
  unfolding demo_asked_eq by (rule asked_code_is_stored [OF no_accounts_wf demo_works]) (simp_all add: no_accounts_def)

lemma demo_no_sessions: "ac_sessions demo_asked = []"
proof -
  have "ac_sessions demo_asked = ac_sessions no_accounts" unfolding demo_asked_eq using request_code_frame by blast
  then show ?thesis by (simp add: no_accounts_def)
qed

lemma demo_valid:
  "validateCode (demo_env second tok) (codeRecordFrom (fresh_code (demo_env 0 ''t0'') p)) ''61626364'' (au_now (demo_env second tok))"
  using fresh_code_valid [of "demo_env second tok" "demo_env 0 ''t0''" p]
  by (simp add: demo_code) (simp add: demo_env_def codeTTL_def duration_defs)

lemma overlapping_redeems_both_sign_in_witness:
  "is_signed_in (fst (redeem_act (demo_env second ''b'') ''ann@x.io'' ''61626364'' (fresh_code (demo_env 0 ''t0'') (pendingFrom (demo_request [])))
     (snd (snd (redeem_act (demo_env second ''a'') ''ann@x.io'' ''61626364'' (fresh_code (demo_env 0 ''t0'') (pendingFrom (demo_request []))) demo_asked)))))"
proof -
  have hashes: "au_sha (demo_env second tok) (hex_encode (au_token_bytes (demo_env second tok))) = CHR ''h'' # hex_encode tok" for tok
    by (simp add: demo_env_def)
  have "hex_encode ''a'' \<noteq> hex_encode ''b''" by code_simp
  then show ?thesis
    using overlapping_redeems_both_sign_in [OF demo_asked_wf demo_works demo_works demo_row demo_valid demo_valid]
    by (simp add: hashes demo_no_sessions)
qed

lemma sessions_need_proof_witness:
  "\<exists>s. ac_sessions (snd (door_step (demo_env second ''a'') (MagicDoor demo_headers ''1.2.3.4'' (Some (demo_request ''61626364''))) demo_asked)) = [s]
     \<and> opens_on (snd (door_step (demo_env second ''a'') (MagicDoor demo_headers ''1.2.3.4'' (Some (demo_request ''61626364''))) demo_asked)) s"
proof -
  let ?e = "demo_env second ''a''"
  let ?c = "fresh_code (demo_env 0 ''t0'') (pendingFrom (demo_request []))"
  obtain ans evs d' where door: "magic_ServeHTTP ?e demo_headers ''1.2.3.4'' (Some (demo_request ''61626364'')) demo_asked = (ans, evs, d')"
    by (metis surj_pair)
  have "magic_ServeHTTP ?e demo_headers ''1.2.3.4'' (Some (demo_request ''61626364'')) demo_asked = redeem_act ?e ''ann@x.io'' ''61626364'' ?c demo_asked"
    by (simp add: magic_ServeHTTP_def demo_accepts Let_def demo_request_def demo_email redeem_def GetMagicLinkCode_def
        demo_works [unfolded all_work_def] demo_row)
  then have act: "redeem_act ?e ''ann@x.io'' ''61626364'' ?c demo_asked = (ans, evs, d')" using door by simp
  have "is_signed_in (fst (redeem_act ?e ''ann@x.io'' ''61626364'' ?c demo_asked))"
    by (rule redeem_act_works [OF demo_asked_wf demo_works _ demo_valid]) (simp add: demo_no_sessions)
  from redeem_act_sessions [OF demo_asked_wf this] have "ac_sessions d' \<noteq> ac_sessions demo_asked" by (auto simp: act)
  from sessions_need_proof [OF demo_asked_wf door this] show ?thesis
    by (auto simp: door_step_def door demo_no_sessions)
qed

lemma request_grants_nothing_witness:
  "ac_sessions (snd (snd (request_code (demo_env 0 ''t0'') ''1.2.3.4'' ''ann@x.io'' no_claim no_accounts))) = []"
  using request_grants_nothing [of "demo_env 0 ''t0''" "''1.2.3.4''" "''ann@x.io''" no_claim no_accounts]
  by (cases "request_code (demo_env 0 ''t0'') ''1.2.3.4'' ''ann@x.io'' no_claim no_accounts") (simp add: no_accounts_def)

lemma guesses_are_bounded_witness:
  "guesses ''ann@x.io'' [demo_ask, demo_guess] no_accounts \<le> 5 * ((minute - 0) div emailCooldown + 1)
     \<and> 5 * ((minute - 0) div emailCooldown + 1) = (10::int)"
proof
  show "guesses ''ann@x.io'' [demo_ask, demo_guess] no_accounts \<le> 5 * ((minute - 0) div emailCooldown + 1)"
    by (rule guesses_are_bounded)
      (simp_all add: demo_ask_def demo_guess_def codes_work_def demo_env_def duration_defs no_accounts_def)
qed (simp add: emailCooldown_def duration_defs)

end
