(* ===== verification/SignInBack.thy ===== *)
theory SignInBack
  imports SignInCheck
begin

text \<open>
  From the cookie back to the session, what \<^verbatim>\<open>/v1/me\<close> names, what Telegram's signature covers, and four places where the
  code does not do what its comments say.
\<close>

section \<open>The cookie\<close>

lemma hex_encode_Nil [simp]: "hex_encode b = [] \<longleftrightarrow> b = []"
  by (cases b) (auto simp: hex_encode_def)

lemma find_skip: "(\<forall>x \<in> set xs. \<not> P x) \<Longrightarrow> find P (xs @ ys) = find P ys"
  by (induction xs) auto

text \<open>C8. The cookie of a sign-in leads back to its session: for thirty days every request that carries it is the person of the
  proven address, on a scope they may open; after that, and after a logout, there is no session.\<close>

theorem cookie_opens_its_session:
  assumes "acct_wf d" and "sign_in e m pend d = (SignedIn p pend' ck, evs, d')" and "au_token_bytes e \<noteq> []"
    and "au_sha f = au_sha e" and "fst (au_fixed f) = 0" and "all_work f"
  shows "(au_now f < au_now e + DefaultTTL \<longrightarrow>
           (\<exists>s. fst (FromRequest f (Some (ck_Value ck)) d') = Inr s \<and> opens_on d' s
              \<and> (\<exists>q \<in> set (ac_persons d'). pe_id q = ss_person s \<and> pe_email q = Some (NormalizeEmail m))))
     \<and> (au_now e + DefaultTTL \<le> au_now f \<longrightarrow> fst (FromRequest f (Some (ck_Value ck)) d') = Inl ErrNoSession)
     \<and> fst (FromRequest f (Some (ck_Value ck)) (snd (snd (logout_ServeHTTP f (Some (ck_Value ck)) d')))) = Inl ErrNoSession"
proof -
  let ?v = "ck_Value ck"
  obtain s where s: "ac_sessions d' = ac_sessions d @ [s]" "ss_hash s = au_sha e ?v" "opens_on d' s"
      "ss_expires s = au_now e + DefaultTTL" "au_sha e ?v \<notin> ss_hash ` set (ac_sessions d)"
    and q: "\<exists>q \<in> set (ac_persons d'). pe_id q = ss_person s \<and> pe_email q = Some (NormalizeEmail m)"
    using sign_in_opens [OF assms(1,2)] by blast
  have "?v \<noteq> []"
  proof (cases rule: sign_in_cases [of e m d pend])
    case (signed i d1 act d2 t x tok d3 born d4)
    have "tok = hex_encode (au_token_bytes e)" using sess_Create_Some [OF signed(4)] by simp
    then show ?thesis using signed(6) assms(2,3) by (auto simp: SetCookie_def)
  qed (use assms(2) in auto)
  then have req: "fst (FromRequest f (Some ?v) x) = fst (LookupSession f ?v x)" for x
    using assms(5) by (simp add: FromRequest_def)
  have "find (\<lambda>r. ss_hash r = au_sha e ?v \<and> ss_expires r > au_now f) (ac_sessions d @ [s])
      = find (\<lambda>r. ss_hash r = au_sha e ?v \<and> ss_expires r > au_now f) [s]"
    by (rule find_skip) (use s(5) in force)
  then have look: "fst (LookupSession f ?v d') = (if au_now f < au_now e + DefaultTTL then Inr s else Inl ErrNoSession)"
    using assms(4,6) s by (simp add: LookupSession_def GetSessionByToken_def all_work_def)
  have "find (\<lambda>r. ss_hash r = au_sha e ?v \<and> ss_expires r > au_now f) (filter (\<lambda>r. ss_hash r \<noteq> au_sha e ?v) (ac_sessions d')) = None"
    by (auto simp: find_None_iff)
  then have "fst (LookupSession f ?v (snd (snd (logout_ServeHTTP f (Some ?v) d')))) = Inl ErrNoSession"
    using assms(4,6) \<open>?v \<noteq> []\<close>
    by (simp add: LookupSession_def GetSessionByToken_def logout_ServeHTTP_def sess_Delete_def DeleteSession_def all_work_def)
  with look s(3) q show ?thesis by (simp add: req)
qed

lemma cookie_opens_its_session_witness:
  "\<exists>p ck evs d'. sign_in (demo_env second ''a'') ''ann@x.io'' no_claim demo_asked = (SignedIn p no_claim ck, evs, d')
     \<and> fst (FromRequest (demo_env (40 * 24 * hour) ''b'') (Some (ck_Value ck)) d') = Inl ErrNoSession
     \<and> (\<exists>s. fst (FromRequest (demo_env minute ''b'') (Some (ck_Value ck)) d') = Inr s)"
proof -
  obtain ans evs d' where si: "sign_in (demo_env second ''a'') ''ann@x.io'' no_claim demo_asked = (ans, evs, d')"
    by (metis surj_pair)
  have "is_signed_in (fst (sign_in (demo_env second ''a'') ''ann@x.io'' no_claim demo_asked))"
    by (rule sign_in_works [OF demo_asked_wf demo_works]) (simp add: demo_no_sessions)
  then obtain p pend' ck where ans: "ans = SignedIn p pend' ck" using si by (cases ans) (auto simp: is_signed_in_def)
  have "pend' = no_claim"
    using si by (cases rule: sign_in_cases [of "demo_env second ''a''" "''ann@x.io''" demo_asked no_claim]) (auto simp: ans)
  with si ans have si': "sign_in (demo_env second ''a'') ''ann@x.io'' no_claim demo_asked = (SignedIn p no_claim ck, evs, d')" by simp
  have setting: "au_token_bytes (demo_env second ''a'') \<noteq> []" "au_sha (demo_env t tok) = au_sha (demo_env second ''a'')"
      "fst (au_fixed (demo_env t tok)) = 0" for t tok
    by (simp_all add: demo_env_def)
  note trip = cookie_opens_its_session [OF demo_asked_wf si' setting(1,2,3) demo_works]
  have now: "au_now (demo_env t tok) = t" for t tok by (simp add: demo_env_def)
  have "second + DefaultTTL \<le> 40 * 24 * hour" "minute < second + DefaultTTL"
    by (simp_all add: DefaultTTL_def duration_defs)
  with trip [of "40 * 24 * hour" "''b''"] trip [of minute "''b''"] si' show ?thesis by (auto simp: now)
qed

section \<open>Who am I\<close>

text \<open>One person with a workspace, a project and a session.\<close>

definition demo_db :: acct_db where
  "demo_db =
     \<lparr>ac_persons = [\<lparr>pe_id = 1, pe_public = ''u'', pe_email = Some ''a'', pe_name = [], pe_verified = None, pe_telegram = None\<rparr>],
      ac_tenants = [\<lparr>tn_id = 2, tn_name = [], tn_plan = [], tn_owner = Some 1\<rparr>],
      ac_projects = [\<lparr>pj_id = 3, pj_public = ''p'', pj_tenant = 2, pj_domain = [], pj_frozen = False, pj_created = 0\<rparr>],
      ac_members = [],
      ac_sessions = [\<lparr>ss_id = 1, ss_hash = ''t'', ss_person = 1, ss_tenant = 2, ss_project = Some 3, ss_seen = 0, ss_expires = 10\<rparr>],
      ac_seqs = [], ac_keys = [], ac_channels = [], ac_codes = Map.empty, ac_ips = Map.empty, ac_serial = (\<lambda>t. 3)\<rparr>"

lemma demo_db_wf: "acct_wf demo_db"
  by (simp add: acct_wf_def wf_defs serial_key_def demo_db_def)

lemma find_in: "find P xs = Some x \<Longrightarrow> x \<in> set xs \<and> P x"
  by (induction xs) (auto split: if_splits)

text \<open>C9. The project \<^verbatim>\<open>/v1/me\<close> names is the one every other read serves: the two queries, one joining from the session, one a
  COALESCE of sub-selects, pick the same project in every state.\<close>

theorem me_names_the_served_project:
  assumes "acct_wf d" and "GetMe e hash d = TheRow r"
  shows "\<exists>s \<in> set (ac_sessions d). ss_hash s = hash
     \<and> ReachableProjectInTenant d (ss_project s) (ss_tenant s) (ss_person s) = (case me_project r of Some x \<Rightarrow> pj_id x | None \<Rightarrow> 0)"
proof -
  obtain s where f: "find (\<lambda>s. ss_hash s = hash \<and> ss_expires s > au_now e) (ac_sessions d) = Some s"
    and m: "me_of d (ss_project s) (ss_person s) (ss_tenant s) = TheRow r"
    using assms(2) by (cases "find (\<lambda>s. ss_hash s = hash \<and> ss_expires s > au_now e) (ac_sessions d)")
      (simp_all add: GetMe_def split: if_splits)
  have s: "s \<in> set (ac_sessions d)" "ss_hash s = hash" using find_in [OF f] by simp_all
  from m obtain p t where p: "find (\<lambda>p. pe_id p = ss_person s) (ac_persons d) = Some p"
    and t: "find (\<lambda>t. tn_id t = ss_tenant s) (ac_tenants d) = Some t" and r: "r = me_join d (ss_project s) p t"
    by (auto simp: me_of_def split: option.splits)
  have ids: "pe_id p = ss_person s" "tn_id t = ss_tenant s" "t \<in> set (ac_tenants d)"
    using find_in [OF p] find_in [OF t] by simp_all
  have owner: "(\<exists>t' \<in> set (ac_tenants d). tn_id t' = tn_id t \<and> tn_owner t' = Some w) \<longleftrightarrow> tn_owner t = Some w" for w
  proof -
    have "owner_of d (tn_id t) = tn_owner t" using t ids by (simp add: owner_of_def)
    then show ?thesis using owner_of_iff [OF assms(1), of "tn_id t" w] by simp
  qed
  let ?mine = "filter (\<lambda>x. pj_tenant x = tn_id t \<and> \<not> pj_frozen x
                       \<and> (tn_owner t = Some (pe_id p) \<or> active_member d (pe_id p) (pj_id x))) (ac_projects d)"
  have mine: "in_tenant d (ss_tenant s) (ss_person s) = ?mine"
  proof (unfold in_tenant_def, rule filter_cong [OF refl])
    fix x
    show "(pj_tenant x = ss_tenant s \<and> \<not> pj_frozen x
            \<and> ((\<exists>t \<in> set (ac_tenants d). tn_id t = pj_tenant x \<and> tn_owner t = Some (ss_person s)) \<or> active_member d (ss_person s) (pj_id x)))
        \<longleftrightarrow> (pj_tenant x = tn_id t \<and> \<not> pj_frozen x \<and> (tn_owner t = Some (pe_id p) \<or> active_member d (pe_id p) (pj_id x)))"
      using owner [of "pe_id p"] unfolding ids(1,2) [symmetric] by (cases "pj_tenant x = tn_id t") simp_all
  qed
  let ?chosen = "case find (\<lambda>x. Some (pj_id x) = ss_project s) ?mine of Some x \<Rightarrow> Some (pj_id x) | None \<Rightarrow> lowest ?mine"
  have in_projects: "\<exists>x. project_of d i = Some x \<and> pj_id x = i" if "?chosen = Some i" for i
  proof -
    have "\<exists>x \<in> set ?mine. pj_id x = i"
      using that lowest_in by (fastforce dest: find_in split: option.splits)
    then show ?thesis using project_of_iff [OF assms(1)] by auto
  qed
  have me: "me_project r = Option.bind ?chosen (project_of d)" by (simp add: r me_join_def Let_def)
  have "ReachableProjectInTenant d (ss_project s) (ss_tenant s) (ss_person s) = (case ?chosen of Some i \<Rightarrow> i | None \<Rightarrow> 0)"
    by (simp add: ReachableProjectInTenant_def mine split: option.split)
  moreover have "(case me_project r of Some x \<Rightarrow> pj_id x | None \<Rightarrow> 0) = (case ?chosen of Some i \<Rightarrow> i | None \<Rightarrow> 0)"
    unfolding me using in_projects by (cases ?chosen) auto
  ultimately show ?thesis using s by auto
qed

lemma me_names_the_served_project_witness:
  "ReachableProjectInTenant demo_db (Some 3) 2 1 = 3 \<and> (\<exists>r. GetMe (demo_env 0 []) ''t'' demo_db = TheRow r)"
proof -
  have row: "\<exists>r. GetMe (demo_env 0 []) ''t'' demo_db = TheRow r"
    by (simp add: GetMe_def me_of_def demo_env_def demo_db_def)
  then obtain r where r: "GetMe (demo_env 0 []) ''t'' demo_db = TheRow r" by blast
  have one: "s = \<lparr>ss_id = 1, ss_hash = ''t'', ss_person = 1, ss_tenant = 2, ss_project = Some 3, ss_seen = 0, ss_expires = 10\<rparr>"
    if "s \<in> set (ac_sessions demo_db)" for s
    using that by (simp add: demo_db_def)
  have "me_project r = project_of demo_db 3"
    using r by (auto simp: GetMe_def me_of_def demo_env_def demo_db_def me_join_def Let_def)
  then have "(case me_project r of Some x \<Rightarrow> pj_id x | None \<Rightarrow> 0) = 3" by (simp add: project_of_def demo_db_def)
  with me_names_the_served_project [OF demo_db_wf r] row show ?thesis by (auto dest: one)
qed

section \<open>What Telegram's signature covers\<close>

definition plain_field :: "string \<Rightarrow> string \<Rightarrow> bool" where
  "plain_field k v \<longleftrightarrow> CHR ''='' \<notin> set k \<and> LF \<notin> set k \<and> LF \<notin> set v"

lemma cut_at: "a \<notin> set k \<Longrightarrow> a \<notin> set k' \<Longrightarrow> k @ a # r = k' @ a # r' \<longleftrightarrow> k = k' \<and> r = r'"
proof (induction k arbitrary: k')
  case Nil
  then show ?case by (cases k') auto
next
  case (Cons b k)
  then show ?case by (cases k') auto
qed

lemma data_lines_inj:
  assumes "\<forall>k \<in> set ks. plain_field k (f k)" and "\<forall>k \<in> set ls. plain_field k (g k)"
    and "concat (map (\<lambda>k. k @ CHR ''='' # f k @ [LF]) ks) = concat (map (\<lambda>k. k @ CHR ''='' # g k @ [LF]) ls)"
  shows "ks = ls \<and> (\<forall>k \<in> set ks. f k = g k)"
  using assms
proof (induction ks arbitrary: ls)
  case Nil
  then show ?case by (cases ls) auto
next
  case (Cons k ks)
  have "ls \<noteq> []" using Cons.prems(3) by (rule contrapos_pn) simp
  then obtain l ls' where ls: "ls = l # ls'" by (cases ls) simp_all
  let ?r = "concat (map (\<lambda>k. k @ CHR ''='' # f k @ [LF]) ks)"
  let ?r' = "concat (map (\<lambda>k. k @ CHR ''='' # g k @ [LF]) ls')"
  have eq: "k @ CHR ''='' # (f k @ LF # ?r) = l @ CHR ''='' # (g l @ LF # ?r')" using Cons.prems(3) by (simp add: ls)
  have plain: "plain_field k (f k)" "plain_field l (g l)" using Cons.prems(1,2) by (simp_all add: ls)
  then have no: "CHR ''='' \<notin> set k" "CHR ''='' \<notin> set l" "LF \<notin> set (f k)" "LF \<notin> set (g l)"
    unfolding plain_field_def by blast+
  have head: "k = l \<and> f k @ LF # ?r = g l @ LF # ?r'"
    by (rule iffD1 [OF cut_at [OF no(1,2)] eq])
  have rest: "f k = g l \<and> ?r = ?r'"
    using iffD1 [OF cut_at [OF no(3,4)] conjunct2 [OF head]] by blast
  have plains: "\<forall>k \<in> set ks. plain_field k (f k)" "\<forall>k \<in> set ls'. plain_field k (g k)"
    using Cons.prems(1,2) by (simp_all add: ls)
  have "ks = ls' \<and> (\<forall>k \<in> set ks. f k = g k)" by (rule Cons.IH [OF plains conjunct2 [OF rest]])
  moreover from head have "k = l" ..
  moreover from rest have "f k = g l" ..
  ultimately show ?case unfolding ls by auto
qed

lemma TrimSuffix_lines:
  assumes "TrimSuffix (concat (map (\<lambda>k. k @ CHR ''='' # f k @ [LF]) ks)) [LF] = TrimSuffix (concat (map (\<lambda>k. k @ CHR ''='' # g k @ [LF]) ls)) [LF]"
  shows "concat (map (\<lambda>k. k @ CHR ''='' # f k @ [LF]) ks) = concat (map (\<lambda>k. k @ CHR ''='' # g k @ [LF]) ls)"
proof -
  have split: "xs = [] \<or> (\<exists>t. t \<noteq> [] \<and> concat (map (\<lambda>k. k @ CHR ''='' # h k @ [LF]) xs) = t @ [LF])" for h :: "string \<Rightarrow> string" and xs
  proof (cases xs rule: rev_cases)
    case (snoc ys y)
    then have "concat (map (\<lambda>k. k @ CHR ''='' # h k @ [LF]) xs)
        = (concat (map (\<lambda>k. k @ CHR ''='' # h k @ [LF]) ys) @ y @ CHR ''='' # h y) @ [LF]" by simp
    moreover have "concat (map (\<lambda>k. k @ CHR ''='' # h k @ [LF]) ys) @ y @ CHR ''='' # h y \<noteq> []" by simp
    ultimately show ?thesis by blast
  qed simp
  have nil: "TrimSuffix [] [LF] = []" by (simp add: TrimSuffix_def has_suffix_def)
  show ?thesis
    using split [of ks f] split [of ls g] assms by (elim disjE exE conjE) (simp_all add: nil)
qed

text \<open>Telegram's signature covers every field: two queries whose fields carry no line breaks and whose keys no equals signs, and
  which have one signed text, have the same value for every key.\<close>

theorem signed_text_fixes_the_fields:
  assumes "\<forall>k. plain_field k (vals_Get vs k) \<or> k \<notin> fst ` set vs" and "\<forall>k. plain_field k (vals_Get ws k) \<or> k \<notin> fst ` set ws"
    and "dataCheckString vs = dataCheckString ws"
  shows "vals_Get vs k = vals_Get ws k"
proof -
  have line: "data_line xs = (\<lambda>k. k @ CHR ''='' # vals_Get xs k @ [LF])" for xs by (simp add: data_line_def fun_eq_iff)
  have keys: "set (vals_keys xs) = fst ` set xs" for xs by (simp add: vals_keys_def)
  have "vals_keys vs = vals_keys ws \<and> (\<forall>k \<in> set (vals_keys vs). vals_Get vs k = vals_Get ws k)"
    using assms TrimSuffix_lines [of "vals_Get vs" "vals_keys vs" "vals_Get ws" "vals_keys ws"]
    by (intro data_lines_inj) (auto simp: dataCheckString_def line keys)
  moreover have "vals_Get xs k = []" if "k \<notin> fst ` set xs" for xs
    using that by (simp add: vals_Get_def ptrStr_def map_of_eq_None_iff [THEN iffD2])
  ultimately show ?thesis using keys [of vs] keys [of ws] by (cases "k \<in> fst ` set vs") auto
qed

text \<open>With a line break in a value the boundary moves: two different queries have one signed text.\<close>

lemma line_break_moves_the_boundary:
  "dataCheckString [(''a'', ''1'' @ LF # ''b=2'')] = dataCheckString [(''a'', ''1''), (''b'', ''2'')]
   \<and> vals_Get [(''a'', ''1'' @ LF # ''b=2'')] ''b'' \<noteq> vals_Get [(''a'', ''1''), (''b'', ''2'')] ''b''"
  by code_simp

section \<open>Where the code and its comments part\<close>

text \<open>A project of a workspace without an owner comes first: the comparison of its owner is NULL, which a descending order puts before
  true. A person with a workspace of their own lands in somebody else's.\<close>

theorem ownerless_project_comes_first:
  assumes "acct_wf d" and "\<not> au_fails e QFirstProject" and "x \<in> set (ac_projects d)" and "active_member d person (pj_id x)"
    and "\<not> pj_frozen x" and "owner_of d (pj_tenant x) = None"
  shows "\<exists>t i. FirstReachableProject e person d = Some (t, i) \<and> owner_of d t = None"
proof -
  let ?reached = "filter (\<lambda>x. reaches d person x \<and> \<not> pj_frozen x) (ac_projects d)"
  let ?free = "filter (\<lambda>x. owner_of d (pj_tenant x) = None) ?reached"
  have "x \<in> set ?free" using assms by (simp add: reaches_def)
  then have ne: "?free \<noteq> []" by (metis empty_iff empty_set)
  then obtain i where i: "lowest ?free = Some i" by (simp add: lowest_def)
  from lowest_in [OF this] obtain y where y: "y \<in> set ?free" "pj_id y = i" by blast
  then have "project_of d i = Some y" using project_of_iff [OF assms(1), of i y] by simp
  then have "FirstReachableProject e person d = Some (pj_tenant y, i)"
    unfolding FirstReachableProject_def Let_def using assms(2) ne i by simp
  then show ?thesis using y by auto
qed

text \<open>A failed look-up of the own workspace makes a second one.\<close>

theorem failed_lookup_makes_a_second_workspace:
  assumes "au_fails e QOwnTenant" and "\<not> au_fails e QInsertTenant" and "person \<in> person_ids d"
  shows "\<exists>i. owned_tenants person (snd (OwnTenantID e person d)) = owned_tenants person d @ [i]"
  using assms by (auto simp: OwnTenantID_def OwnTenant_def create_workspace_def insert_tenant_def draw_id_def Let_def owned_tenants_def)

text \<open>The window of an address does not slide: it is five minutes from its first request, so that nineteen requests pass within
  a second, and a client that keeps asking is let in again.\<close>

fun window_passes :: "time list \<Rightarrow> (time \<times> int) option \<Rightarrow> nat" where
  "window_passes [] row = 0"
| "window_passes (t # ts) row =
     (let w = window_row t row in of_bool (\<not> over_the_window (Some (snd w))) + window_passes ts (Some w))"

theorem nineteen_requests_in_a_second:
  "window_passes (0 # replicate 9 (299 * second) @ replicate 10 (300 * second)) None = 20"
  by code_simp

text \<open>The two doors describe one account differently: Telegram's answers with the Telegram id, the others with the public id.\<close>

theorem telegram_answers_another_id:
  "map_of (telegram_body up u name email) ''id'' = Some (itoa (tu_ID u))
   \<and> map_of (writeAccount up p) ''id'' = Some (uuidStr (pi_PublicID p))"
  by (simp add: telegram_body_def writeAccount_def)

text \<open>Freshness bounds the past only: a signed \<^verbatim>\<open>auth_date\<close> in the future is accepted however far ahead it is.\<close>

lemma future_auth_date_is_fresh:
  "now \<le> unix_at authDate \<Longrightarrow> \<not> Sub now (unix_at authDate) > initDataFreshness"
  by (simp add: time_defs initDataFreshness_def)

end
