(* ===== verification/Analytics.thy ===== *)
theory Analytics
  imports SignIn
begin

text \<open>
  First-party analytics, \<^verbatim>\<open>back/internal/analytics\<close>: what an event may carry, who a User-Agent is, the visitor cookie,
  and the recorder that groups a batch by visitor and writes it. SHA-256, the country database and
  Unicode case mapping are parameters.
\<close>

section \<open>Events\<close>

definition maxEventsPerRequest :: nat where "maxEventsPerRequest = 20"
definition maxPathLen :: nat where "maxPathLen = 256"
definition maxTitleLen :: nat where "maxTitleLen = 128"
definition maxReferrerLen :: nat where "maxReferrerLen = 512"
definition maxUTMLen :: nat where "maxUTMLen = 128"
definition maxProps :: nat where "maxProps = 16"
definition maxPropKeyLen :: nat where "maxPropKeyLen = 64"
definition maxPropValLen :: nat where "maxPropValLen = 200"

record web_event =
  we_Name :: string
  we_Path :: string
  we_Title :: string
  we_Referrer :: string
  we_UTMSource :: string
  we_UTMMedium :: string
  we_UTMCampaign :: string
  we_Props :: "(string \<times> string) list"

definition event_char :: "char \<Rightarrow> bool" where
  "event_char c \<longleftrightarrow> is_lower c \<or> is_digit c \<or> c = CHR ''_'' \<or> c = CHR ''.''"

definition eventNameRe :: "string \<Rightarrow> bool" where
  "eventNameRe s \<longleftrightarrow> 1 \<le> length s \<and> length s \<le> 64 \<and> list_all event_char s"

definition printable_rune :: "nat \<Rightarrow> bool" where
  "printable_rune r \<longleftrightarrow> 0x20 \<le> r \<and> r \<noteq> 0x7F"

definition stripControl :: "string \<Rightarrow> string" where
  "stripControl s = string_of_runes (filter printable_rune (runes s))"

text \<open>One turn of the loop over \<^verbatim>\<open>e.Props\<close>, which the loop changes; \<open>ks\<close> is the order the map is ranged over, which Go leaves open.\<close>

definition sanitize_prop :: "string \<Rightarrow> (string \<times> string) list \<Rightarrow> (string \<times> string) list" where
  "sanitize_prop k m =
     (case map_of m k of
        None \<Rightarrow> m
      | Some v \<Rightarrow>
          let nk = stripControl k; nv = stripControl v
          in if nk \<noteq> k \<or> nv \<noteq> v then AList.update nk nv (AList.delete k m) else m)"

definition sanitize :: "string list \<Rightarrow> web_event \<Rightarrow> web_event" where
  "sanitize ks e =
     \<lparr>we_Name = stripControl (we_Name e), we_Path = stripControl (we_Path e), we_Title = stripControl (we_Title e),
      we_Referrer = stripControl (we_Referrer e), we_UTMSource = stripControl (we_UTMSource e),
      we_UTMMedium = stripControl (we_UTMMedium e), we_UTMCampaign = stripControl (we_UTMCampaign e),
      we_Props = fold sanitize_prop ks (we_Props e)\<rparr>"

definition validate_event :: "web_event \<Rightarrow> bool" where
  "validate_event e =
     (if \<not> eventNameRe (we_Name e) then False
      else if length (we_Path e) > maxPathLen \<or> length (we_Title e) > maxTitleLen \<or> length (we_Referrer e) > maxReferrerLen
      then False
      else if length (we_UTMSource e) > maxUTMLen \<or> length (we_UTMMedium e) > maxUTMLen \<or> length (we_UTMCampaign e) > maxUTMLen
      then False
      else if length (we_Props e) > maxProps then False
      else list_all (\<lambda>(k, v). \<not> (length k > maxPropKeyLen \<or> length v > maxPropValLen)) (we_Props e))"

text \<open>\<^verbatim>\<open>ParseBody\<close> after the decoder: \<open>None\<close> is a body that is not JSON. The order of each event's properties comes with it.\<close>

fun keep_valid :: "(string list \<times> web_event) list \<Rightarrow> web_event list \<times> nat" where
  "keep_valid [] = ([], 0)"
| "keep_valid ((ks, e) # es) =
     (let e = sanitize ks e; (kept, dropped) = keep_valid es
      in if validate_event e then (e # kept, dropped) else (kept, dropped + 1))"

definition ParseBody :: "(string list \<times> web_event) list option \<Rightarrow> web_event list \<times> nat" where
  "ParseBody body =
     (case body of
        None \<Rightarrow> ([], 0)
      | Some es \<Rightarrow>
          let over = length es - maxEventsPerRequest;
              (kept, dropped) = keep_valid (take maxEventsPerRequest es)
          in (kept, over + dropped))"

section \<open>User agents\<close>

record user_agent =
  ua_Device :: string
  ua_OS :: string
  ua_Browser :: string

definition botSubstrings :: "string list" where
  "botSubstrings = [''crawl'', ''spider'', ''slurp'', ''headless'', ''lighthouse'', ''monitoring'',
     ''googleother'', ''google-inspectiontool'', ''dataprovider'']"

text \<open>Whether the occurrence of \<open>bot\<close> at \<open>j\<close> is a product token.\<close>

definition bot_word :: "string \<Rightarrow> nat \<Rightarrow> bool" where
  "bot_word s j \<longleftrightarrow>
     (j = 0 \<or> \<not> is_lower (s ! (j - 1))) \<or> (j + 3 = length s \<or> s ! (j + 3) \<in> set ''/-;)'')"

lemma str_index_length: "str_index s p = Some j \<Longrightarrow> j + length p \<le> length s"
proof (induction s arbitrary: j)
  case (Cons x xs)
  then show ?case using has_prefix_length [of "x # xs" p] by (auto split: if_splits)
qed (auto split: if_splits)

function bot_from :: "string \<Rightarrow> nat \<Rightarrow> bool" where
  "bot_from s i =
     (case str_index (drop i s) ''bot'' of
        None \<Rightarrow> False
      | Some j \<Rightarrow> if bot_word s (j + i) then True else bot_from s (j + i + 3))"
  by pat_completeness auto
termination
  by (relation "measure (\<lambda>(s, i). length s - i)") (auto dest!: str_index_length)

declare bot_from.simps [simp del]

definition hasBotToken :: "string \<Rightarrow> bool" where
  "hasBotToken s = bot_from s 0"

definition deviceOf :: "string \<Rightarrow> string" where
  "deviceOf s =
     (if contains s ''ipad'' \<or> contains s ''tablet'' \<or> contains s ''silk'' \<or> contains s ''playbook''
         \<or> contains s ''android'' \<and> \<not> contains s ''mobile'' then ''tablet''
      else if contains s ''mobi'' \<or> contains s ''iphone'' \<or> contains s ''ipod'' \<or> contains s ''windows phone''
         \<or> contains s ''blackberry'' \<or> contains s ''opera mini'' \<or> contains s ''iemobile'' then ''mobile''
      else ''desktop'')"

definition osOf :: "string \<Rightarrow> string" where
  "osOf s =
     (if contains s ''windows'' then ''windows''
      else if contains s ''iphone'' \<or> contains s ''ipad'' \<or> contains s ''ipod'' then ''ios''
      else if contains s ''android'' then ''android''
      else if contains s ''mac os x'' \<or> contains s ''macintosh'' then ''macos''
      else if contains s ''linux'' \<or> contains s ''x11'' then ''linux''
      else [])"

definition browserOf :: "string \<Rightarrow> string" where
  "browserOf s =
     (if contains s ''edg/'' \<or> contains s ''edge/'' \<or> contains s ''edga/'' \<or> contains s ''edgios/'' then ''edge''
      else if contains s ''firefox'' \<or> contains s ''fxios'' then ''firefox''
      else if contains s ''chrome'' \<or> contains s ''crios'' then ''chrome''
      else if contains s ''safari'' then ''safari''
      else ''other'')"

definition bot_agent :: user_agent where
  "bot_agent = \<lparr>ua_Device = ''bot'', ua_OS = [], ua_Browser = []\<rparr>"

text \<open>\<open>low\<close> is \<^verbatim>\<open>strings.ToLower\<close>.\<close>

definition parseUA :: "(string \<Rightarrow> string) \<Rightarrow> string \<Rightarrow> user_agent" where
  "parseUA low raw =
     (let s = low raw in
      if hasBotToken s then bot_agent
      else if list_ex (contains s) botSubstrings then bot_agent
      else if has_suffix s ''safari/537.3'' then bot_agent
      else \<lparr>ua_Device = deviceOf s, ua_OS = osOf s, ua_Browser = browserOf s\<rparr>)"

definition IsBot :: "(string \<Rightarrow> string) \<Rightarrow> string \<Rightarrow> bool" where
  "IsBot low userAgent \<longleftrightarrow> ua_Device (parseUA low userAgent) = ''bot''"

section \<open>The visitor of a request\<close>

definition tokenHexLen :: nat where "tokenHexLen = 32"

definition MintVisitorToken :: "string \<Rightarrow> string" where
  "MintVisitorToken b = hex_encode b"

definition VisitorToken :: "string option \<Rightarrow> string option" where
  "VisitorToken ck =
     (case ck of
        None \<Rightarrow> None
      | Some v \<Rightarrow> if length v \<noteq> tokenHexLen then None else if hex_decode v = None then None else Some v)"

text \<open>\<open>peer\<close> is what \<^verbatim>\<open>net.SplitHostPort\<close> makes of \<open>remote\<close>.\<close>

definition ClientIP :: "string \<Rightarrow> string option \<Rightarrow> string \<Rightarrow> string" where
  "ClientIP xff peer remote =
     (if xff \<noteq> [] then
        (case index_byte xff CHR '','' of
           Some i \<Rightarrow> TrimSpace (take i xff)
         | None \<Rightarrow> TrimSpace xff)
      else case peer of Some h \<Rightarrow> h | None \<Rightarrow> remote)"

record web_scope =
  sc_Token :: string
  sc_IP :: string
  sc_UA :: string
  sc_Source :: string

definition ScopeFromRequest :: "string option \<Rightarrow> string \<Rightarrow> string \<Rightarrow> string \<Rightarrow> web_scope" where
  "ScopeFromRequest ck ip agent source =
     \<lparr>sc_Token = ptrStr (VisitorToken ck), sc_IP = ip, sc_UA = agent,
      sc_Source = (if eventNameRe source then source else [])\<rparr>"

section \<open>Tracks\<close>

record firstTouch =
  ft_Referrer :: string
  ft_UTMSource :: string
  ft_UTMMedium :: string
  ft_UTMCampaign :: string
  ft_Country :: string
  ft_Device :: string
  ft_Path :: string
  ft_IsBot :: bool

definition no_touch :: firstTouch where
  "no_touch = \<lparr>ft_Referrer = [], ft_UTMSource = [], ft_UTMMedium = [], ft_UTMCampaign = [], ft_Country = [], ft_Device = [],
               ft_Path = [], ft_IsBot = False\<rparr>"

definition keep :: "string \<Rightarrow> string \<Rightarrow> string" where
  "keep dst src = (if dst = [] then src else dst)"

definition mergeFirst :: "firstTouch \<Rightarrow> firstTouch \<Rightarrow> firstTouch" where
  "mergeFirst dst src =
     \<lparr>ft_Referrer = keep (ft_Referrer dst) (ft_Referrer src), ft_UTMSource = keep (ft_UTMSource dst) (ft_UTMSource src),
      ft_UTMMedium = keep (ft_UTMMedium dst) (ft_UTMMedium src), ft_UTMCampaign = keep (ft_UTMCampaign dst) (ft_UTMCampaign src),
      ft_Country = keep (ft_Country dst) (ft_Country src), ft_Device = keep (ft_Device dst) (ft_Device src),
      ft_Path = keep (ft_Path dst) (ft_Path src), ft_IsBot = (ft_IsBot dst \<or> ft_IsBot src)\<rparr>"

record track =
  tk_at :: time
  tk_hash :: "string option"
  tk_first :: firstTouch
  tk_person :: int
  tk_tenant :: int
  tk_country :: string
  tk_ipHash :: string
  tk_ua :: user_agent
  tk_email :: string
  tk_linkPerson :: bool
  tk_accountCreated :: bool
  tk_events :: "web_event list"

definition ipHash :: "(string \<Rightarrow> string) \<Rightarrow> string \<Rightarrow> string" where
  "ipHash sha ip = take 8 (sha ip)"

record rec_env =
  re_now :: time
  re_sha :: "string \<Rightarrow> string"
  re_low :: "string \<Rightarrow> string"
  re_country :: "string \<Rightarrow> string"

definition baseTrack :: "rec_env \<Rightarrow> web_scope option \<Rightarrow> track" where
  "baseTrack e s =
     (let t = \<lparr>tk_at = re_now e, tk_hash = None, tk_first = no_touch, tk_person = 0, tk_tenant = 0, tk_country = [],
               tk_ipHash = replicate 8 (CHR 0x00), tk_ua = \<lparr>ua_Device = [], ua_OS = [], ua_Browser = []\<rparr>, tk_email = [],
               tk_linkPerson = False, tk_accountCreated = False, tk_events = []\<rparr>
      in case s of
           None \<Rightarrow> t
         | Some s \<Rightarrow>
             let country = re_country e (sc_IP s); agent = parseUA (re_low e) (sc_UA s)
             in t\<lparr>tk_hash := (if sc_Token s \<noteq> [] then Some (re_sha e (sc_Token s)) else None),
                  tk_country := country, tk_ipHash := ipHash (re_sha e) (sc_IP s), tk_ua := agent,
                  tk_first := no_touch\<lparr>ft_Country := country, ft_Device := ua_Device agent,
                                       ft_IsBot := (ua_Device agent = ''bot'')\<rparr>\<rparr>)"

definition touch_of_event :: "web_event \<Rightarrow> firstTouch" where
  "touch_of_event e =
     no_touch\<lparr>ft_Path := we_Path e, ft_Referrer := we_Referrer e, ft_UTMSource := we_UTMSource e,
              ft_UTMMedium := we_UTMMedium e, ft_UTMCampaign := we_UTMCampaign e\<rparr>"

text \<open>What each entry point enqueues, if anything.\<close>

definition Track :: "rec_env \<Rightarrow> web_scope option \<Rightarrow> web_event list \<Rightarrow> int \<Rightarrow> int \<Rightarrow> track option" where
  "Track e s events person tenant =
     (if events = [] then None
      else let t = baseTrack e s
           in Some (t\<lparr>tk_person := person, tk_tenant := tenant, tk_events := events,
                      tk_first := foldl mergeFirst (tk_first t) (map touch_of_event events)\<rparr>))"

definition web_ServerEvent ::
    "rec_env \<Rightarrow> web_scope option \<Rightarrow> string \<Rightarrow> int \<Rightarrow> int \<Rightarrow> (string \<times> string) list \<Rightarrow> track" where
  "web_ServerEvent e s name person tenant props =
     (let props = (case s of
                     Some sc \<Rightarrow> if sc_Source sc \<noteq> [] then AList.update ''source'' (sc_Source sc) props else props
                   | None \<Rightarrow> props)
      in (baseTrack e s)\<lparr>tk_person := person, tk_tenant := tenant,
           tk_events := [\<lparr>we_Name = name, we_Path = [], we_Title = [], we_Referrer = [], we_UTMSource = [], we_UTMMedium = [],
                          we_UTMCampaign = [], we_Props = props\<rparr>]\<rparr>)"

definition LinkEmail :: "rec_env \<Rightarrow> web_scope option \<Rightarrow> string \<Rightarrow> track option" where
  "LinkEmail e s email = (if email = [] then None else Some ((baseTrack e s)\<lparr>tk_email := email\<rparr>))"

definition LinkPerson :: "rec_env \<Rightarrow> web_scope option \<Rightarrow> int \<Rightarrow> int \<Rightarrow> track option" where
  "LinkPerson e s person tenant =
     (if person = 0 then None
      else Some ((baseTrack e s)\<lparr>tk_person := person, tk_tenant := tenant, tk_linkPerson := True\<rparr>))"

definition MarkAccountCreated :: "rec_env \<Rightarrow> web_scope option \<Rightarrow> int \<Rightarrow> int \<Rightarrow> track option" where
  "MarkAccountCreated e s person tenant =
     (if person = 0 then None
      else Some ((baseTrack e s)\<lparr>tk_person := person, tk_tenant := tenant, tk_accountCreated := True\<rparr>))"

definition Describe :: "rec_env \<Rightarrow> string \<Rightarrow> string \<Rightarrow> string \<times> string \<times> string" where
  "Describe e ip agent =
     (let p = parseUA (re_low e) agent in (re_country e ip, ua_OS p, ua_Browser p))"

section \<open>The tables of a flush\<close>

record visitor_row =
  vi_id :: int
  vi_hash :: string
  vi_first :: firstTouch
  vi_first_seen :: time
  vi_last_seen :: time
  vi_last_country :: string
  vi_last_device :: string
  vi_events :: int
  vi_email :: string
  vi_person :: "int option"
  vi_tenant :: "int option"
  vi_signed_in :: "time option"
  vi_account :: "time option"

record web_row =
  wr_TS :: time
  wr_VisitorID :: int
  wr_PersonID :: int
  wr_TenantID :: int
  wr_event :: web_event
  wr_Country :: string
  wr_IPHash :: string
  wr_ua :: user_agent

record web_db =
  wd_visitors :: "visitor_row list"
  wd_serial :: int
  wd_rows :: "web_row list"

datatype web_query = WResolve string | WLink int nat | WTouch int | WInsert

text \<open>The conflict branch keeps what is there, and ANDs the flag of a bot.\<close>

definition upsert_first :: "firstTouch \<Rightarrow> firstTouch \<Rightarrow> firstTouch" where
  "upsert_first old new =
     \<lparr>ft_Referrer = keep (ft_Referrer old) (ft_Referrer new), ft_UTMSource = keep (ft_UTMSource old) (ft_UTMSource new),
      ft_UTMMedium = keep (ft_UTMMedium old) (ft_UTMMedium new), ft_UTMCampaign = keep (ft_UTMCampaign old) (ft_UTMCampaign new),
      ft_Country = keep (ft_Country old) (ft_Country new), ft_Device = keep (ft_Device old) (ft_Device new),
      ft_Path = keep (ft_Path old) (ft_Path new), ft_IsBot = (ft_IsBot old \<and> ft_IsBot new)\<rparr>"

definition UpsertWebVisitorFirst :: "string \<Rightarrow> firstTouch \<Rightarrow> time \<Rightarrow> web_db \<Rightarrow> int \<times> web_db" where
  "UpsertWebVisitorFirst hash first at d =
     (let i = wd_serial d + 1; d = d\<lparr>wd_serial := i\<rparr> in
      case find (\<lambda>v. vi_hash v = hash) (wd_visitors d) of
        Some v \<Rightarrow>
          (vi_id v, d\<lparr>wd_visitors := map (\<lambda>w. if vi_hash w = hash then w\<lparr>vi_first := upsert_first (vi_first w) first\<rparr> else w) (wd_visitors d)\<rparr>)
      | None \<Rightarrow>
          (i, d\<lparr>wd_visitors := wd_visitors d @
             [\<lparr>vi_id = i, vi_hash = hash, vi_first = first, vi_first_seen = at, vi_last_seen = at, vi_last_country = [],
               vi_last_device = [], vi_events = 0, vi_email = [], vi_person = None, vi_tenant = None, vi_signed_in = None,
               vi_account = None\<rparr>]\<rparr>))"

definition on_visitor :: "int \<Rightarrow> (visitor_row \<Rightarrow> visitor_row) \<Rightarrow> web_db \<Rightarrow> web_db" where
  "on_visitor i f d = d\<lparr>wd_visitors := map (\<lambda>v. if vi_id v = i then f v else v) (wd_visitors d)\<rparr>"

definition or_first :: "time option \<Rightarrow> time \<Rightarrow> time option" where
  "or_first old new = (case old of Some t \<Rightarrow> Some t | None \<Rightarrow> Some new)"

definition LinkVisitorEmail :: "int \<Rightarrow> string \<Rightarrow> web_db \<Rightarrow> web_db" where
  "LinkVisitorEmail i email = on_visitor i (\<lambda>v. v\<lparr>vi_email := email\<rparr>)"

definition LinkVisitorPerson :: "int \<Rightarrow> int \<Rightarrow> int \<Rightarrow> time \<Rightarrow> web_db \<Rightarrow> web_db" where
  "LinkVisitorPerson i person tenant at =
     on_visitor i (\<lambda>v. v\<lparr>vi_person := Some person, vi_tenant := Some tenant, vi_signed_in := or_first (vi_signed_in v) at\<rparr>)"

definition MarkVisitorAccountCreated :: "int \<Rightarrow> time \<Rightarrow> web_db \<Rightarrow> web_db" where
  "MarkVisitorAccountCreated i at = on_visitor i (\<lambda>v. v\<lparr>vi_account := or_first (vi_account v) at\<rparr>)"

definition TouchVisitorLastSeen :: "int \<Rightarrow> time \<Rightarrow> string \<Rightarrow> string \<Rightarrow> int \<Rightarrow> web_db \<Rightarrow> web_db" where
  "TouchVisitorLastSeen i at country device n =
     on_visitor i (\<lambda>v. v\<lparr>vi_last_seen := at, vi_last_country := country, vi_last_device := device, vi_events := vi_events v + n\<rparr>)"

section \<open>The flush\<close>

record visitor_group =
  vg_hash :: "string option"
  vg_first :: firstTouch
  vg_tracks :: "track list"

fun add_to_groups :: "track \<Rightarrow> visitor_group list \<Rightarrow> visitor_group list" where
  "add_to_groups t [] = [\<lparr>vg_hash = tk_hash t, vg_first = mergeFirst no_touch (tk_first t), vg_tracks = [t]\<rparr>]"
| "add_to_groups t (g # gs) =
     (if vg_hash g = tk_hash t
      then g\<lparr>vg_first := mergeFirst (vg_first g) (tk_first t), vg_tracks := vg_tracks g @ [t]\<rparr> # gs
      else g # add_to_groups t gs)"

definition group_tracks :: "track list \<Rightarrow> visitor_group list" where
  "group_tracks ts = foldl (\<lambda>gs t. add_to_groups t gs) [] ts"

definition link_track :: "(web_query \<Rightarrow> bool) \<Rightarrow> int \<Rightarrow> nat \<times> track \<Rightarrow> web_db \<Rightarrow> web_db" where
  "link_track fails i nt d =
     (case nt of (n, t) \<Rightarrow>
        if i = 0 \<or> fails (WLink i n) then d
        else if tk_email t \<noteq> [] then LinkVisitorEmail i (tk_email t) d
        else if tk_linkPerson t then LinkVisitorPerson i (tk_person t) (tk_tenant t) (tk_at t) d
        else if tk_accountCreated t then MarkVisitorAccountCreated i (tk_at t) d
        else d)"

definition rows_of_track :: "int \<Rightarrow> track \<Rightarrow> web_row list" where
  "rows_of_track i t =
     map (\<lambda>e. \<lparr>wr_TS = tk_at t, wr_VisitorID = i, wr_PersonID = tk_person t, wr_TenantID = tk_tenant t, wr_event = e,
               wr_Country = tk_country t, wr_IPHash = tk_ipHash t, wr_ua = tk_ua t\<rparr>) (tk_events t)"

text \<open>The latest track with events of a group: what the touch writes.\<close>

definition touch_step :: "time \<times> string \<times> string \<Rightarrow> track \<Rightarrow> time \<times> string \<times> string" where
  "touch_step acc t =
     (if tk_events t \<noteq> [] \<and> tk_at t > fst acc then (tk_at t, tk_country t, ua_Device (tk_ua t)) else acc)"

definition count_track_events :: "track list \<Rightarrow> nat" where
  "count_track_events ts = sum_list (map (length \<circ> tk_events) ts)"

definition resolve_group :: "(web_query \<Rightarrow> bool) \<Rightarrow> visitor_group \<Rightarrow> web_db \<Rightarrow> int \<times> web_db" where
  "resolve_group fails g d =
     (case vg_hash g of
        None \<Rightarrow> (0, d)
      | Some h \<Rightarrow> if fails (WResolve h) then (0, d)
                  else UpsertWebVisitorFirst h (vg_first g) (tk_at (hd (vg_tracks g))) d)"

definition flush_group :: "(web_query \<Rightarrow> bool) \<Rightarrow> visitor_group \<Rightarrow> web_row list \<times> web_db \<Rightarrow> web_row list \<times> web_db" where
  "flush_group fails g rd =
     (case rd of (rows, d) \<Rightarrow>
        case resolve_group fails g d of (i, d) \<Rightarrow>
          let d = fold (link_track fails i) (List.enumerate 0 (vg_tracks g)) d;
              (at, country, device) = foldl touch_step (zero_time, [], []) (vg_tracks g);
              n = count_track_events (vg_tracks g);
              botOnly = list_all (\<lambda>t. ua_Device (tk_ua t) = ''bot'') (vg_tracks g);
              d = (if i \<noteq> 0 \<and> n > 0 \<and> \<not> botOnly \<and> \<not> fails (WTouch i)
                   then TouchVisitorLastSeen i at country device (int n) d else d)
          in (rows @ concat (map (rows_of_track i) (vg_tracks g)), d))"

definition flush_tracks :: "(web_query \<Rightarrow> bool) \<Rightarrow> track list \<Rightarrow> web_db \<Rightarrow> web_db" where
  "flush_tracks fails ts d =
     (case fold (flush_group fails) (group_tracks ts) ([], d) of
        (rows, d) \<Rightarrow> if fails WInsert then d else d\<lparr>wd_rows := wd_rows d @ rows\<rparr>)"

section \<open>The recorder\<close>

definition bufferSize :: nat where "bufferSize = 1024"
definition flushRows :: nat where "flushRows = 100"

text \<open>The channel, what the loop holds, what it has handed to \<^verbatim>\<open>flush\<close> (in order), the two signals and the count of batches dropped.\<close>

record recorder =
  rc_in :: "track list"
  rc_pending :: "track list"
  rc_rows :: nat
  rc_flushed :: "track list"
  rc_stopping :: bool
  rc_draining :: bool
  rc_done :: bool
  rc_dropped :: nat

definition new_recorder :: recorder where
  "new_recorder = \<lparr>rc_in = [], rc_pending = [], rc_rows = 0, rc_flushed = [], rc_stopping = False, rc_draining = False, rc_done = False, rc_dropped = 0\<rparr>"

definition enqueue_track :: "track \<Rightarrow> recorder \<Rightarrow> recorder" where
  "enqueue_track t r =
     (if length (rc_in r) < bufferSize then r\<lparr>rc_in := rc_in r @ [t]\<rparr> else r\<lparr>rc_dropped := rc_dropped r + 1\<rparr>)"

definition flush_pending :: "recorder \<Rightarrow> recorder" where
  "flush_pending r =
     (if rc_pending r = [] then r
      else r\<lparr>rc_flushed := rc_flushed r @ rc_pending r, rc_pending := [], rc_rows := 0\<rparr>)"

text \<open>One turn of the loop: a receive, a tick, the stop it sees; then the receives of the drain, and its end on an empty channel.
  A request may enqueue between any two.\<close>

definition receive_track :: "track \<Rightarrow> track list \<Rightarrow> recorder \<Rightarrow> recorder" where
  "receive_track t rest r =
     (let r = r\<lparr>rc_in := rest, rc_pending := rc_pending r @ [t], rc_rows := rc_rows r + length (tk_events t)\<rparr>
      in if rc_rows r \<ge> flushRows then flush_pending r else r)"

definition drain_track :: "track \<Rightarrow> track list \<Rightarrow> recorder \<Rightarrow> recorder" where
  "drain_track t rest r = r\<lparr>rc_in := rest, rc_pending := rc_pending r @ [t]\<rparr>"

inductive loop_step :: "recorder \<Rightarrow> recorder \<Rightarrow> bool" where
  Receive: "\<not> rc_draining r \<Longrightarrow> rc_in r = t # rest \<Longrightarrow> loop_step r (receive_track t rest r)"
| Tick_flush: "\<not> rc_draining r \<Longrightarrow> loop_step r (flush_pending r)"
| Stop_rec: "loop_step r (r\<lparr>rc_stopping := True\<rparr>)"
| Stop_seen: "\<not> rc_draining r \<Longrightarrow> rc_stopping r \<Longrightarrow> loop_step r (r\<lparr>rc_draining := True\<rparr>)"
| Drain: "rc_draining r \<Longrightarrow> \<not> rc_done r \<Longrightarrow> rc_in r = t # rest \<Longrightarrow> loop_step r (drain_track t rest r)"
| Drained: "rc_draining r \<Longrightarrow> \<not> rc_done r \<Longrightarrow> rc_in r = [] \<Longrightarrow> loop_step r ((flush_pending r)\<lparr>rc_done := True\<rparr>)"

end
