(* ===== verification/AnalyticsFacts.thy ===== *)
theory AnalyticsFacts
  imports Analytics "HOL-Library.Multiset"
begin

text \<open>
  What analytics promises: what an accepted event may hold, which agents are bots, that a flush keeps every event under
  its visitor, that the first touch wins over any run of flushes while the flag of a bot depends on where
  they fall, and what the recorder keeps and loses.
\<close>

section \<open>Accepted events\<close>

definition clean_text :: "string \<Rightarrow> bool" where
  "clean_text s \<longleftrightarrow> stripControl s = s"

lemma stripControl_runes: "runes (stripControl s) = filter printable_rune (runes s)"
  unfolding stripControl_def using runes_scalar by (intro runes_of_string) auto

lemma stripControl_idem: "stripControl (stripControl s) = stripControl s"
  by (subst (1) stripControl_def) (simp add: stripControl_runes, simp add: stripControl_def)

lemma clean_strip [simp]: "clean_text (stripControl s)"
  by (simp add: clean_text_def stripControl_idem)

lemma clean_no_control: "clean_text s \<Longrightarrow> \<forall>r \<in> set (runes s). printable_rune r"
  using stripControl_runes [of s] unfolding clean_text_def by (metis mem_Collect_eq set_filter)

lemma sanitize_prop_distinct: "distinct (map fst m) \<Longrightarrow> distinct (map fst (sanitize_prop k m))"
  by (auto simp: sanitize_prop_def Let_def distinct_update distinct_delete split: option.split)

text \<open>The properties that are not clean are among the keys that are still to be visited.\<close>

definition dirty :: "(string \<times> string) list \<Rightarrow> string set" where
  "dirty m = {k. \<exists>v. map_of m k = Some v \<and> \<not> (clean_text k \<and> clean_text v)}"

lemma sanitize_prop_dirty: "dirty (sanitize_prop k m) \<subseteq> dirty m - {k}"
proof (cases "map_of m k")
  case None
  then show ?thesis by (auto simp: sanitize_prop_def dirty_def)
next
  case (Some v)
  show ?thesis
  proof (cases "stripControl k \<noteq> k \<or> stripControl v \<noteq> v")
    case True
    then have "map_of (sanitize_prop k m) = (map_of m)(k := None, stripControl k := Some (stripControl v))"
      by (simp add: sanitize_prop_def Some Let_def update_conv' delete_conv')
    then show ?thesis by (auto simp: dirty_def split: if_splits)
  next
    case False
    then have "clean_text k" "clean_text v" by (simp_all add: clean_text_def)
    with False Some show ?thesis by (auto simp: sanitize_prop_def dirty_def Let_def)
  qed
qed

lemma sanitize_props_dirty: "dirty (fold sanitize_prop ks m) \<subseteq> dirty m - set ks"
proof (induction ks arbitrary: m)
  case (Cons k ks)
  from Cons [of "sanitize_prop k m"] sanitize_prop_dirty [of k m] show ?case by auto
qed simp

lemma sanitize_props_distinct: "distinct (map fst m) \<Longrightarrow> distinct (map fst (fold sanitize_prop ks m))"
  by (induction ks arbitrary: m) (auto simp: sanitize_prop_distinct)

lemma dirty_keys: "dirty m \<subseteq> fst ` set m"
  by (auto simp: dirty_def dest: map_of_SomeD intro: rev_image_eqI)

definition event_ok :: "web_event \<Rightarrow> bool" where
  "event_ok e \<longleftrightarrow>
     1 \<le> length (we_Name e) \<and> length (we_Name e) \<le> 64 \<and> list_all event_char (we_Name e)
     \<and> (\<forall>(s, n) \<in> {(we_Path e, 256), (we_Title e, 128), (we_Referrer e, 512), (we_UTMSource e, 128), (we_UTMMedium e, 128),
           (we_UTMCampaign e, 128)}. clean_text s \<and> length s \<le> n)
     \<and> length (we_Props e) \<le> 16 \<and> distinct (map fst (we_Props e))
     \<and> (\<forall>(k, v) \<in> set (we_Props e). clean_text k \<and> clean_text v \<and> length k \<le> 64 \<and> length v \<le> 200)"

definition ranged :: "string list \<times> web_event \<Rightarrow> bool" where
  "ranged ke \<longleftrightarrow> distinct (map fst (we_Props (snd ke))) \<and> fst ` set (we_Props (snd ke)) \<subseteq> set (fst ke)"

lemma sanitize_ok:
  assumes "ranged (ks, e)" and "validate_event (sanitize ks e)"
  shows "event_ok (sanitize ks e)"
proof -
  let ?m = "fold sanitize_prop ks (we_Props e)"
  have dist: "distinct (map fst ?m)" using assms(1) by (simp add: ranged_def sanitize_props_distinct)
  have "dirty ?m = {}" using sanitize_props_dirty [of ks "we_Props e"] dirty_keys [of "we_Props e"] assms(1) by (auto simp: ranged_def)
  then have "clean_text k \<and> clean_text v" if "(k, v) \<in> set ?m" for k v
    using that dist by (auto simp: dirty_def)
  then show ?thesis
    using assms(2) dist
    by (auto simp: event_ok_def validate_event_def eventNameRe_def sanitize_def list_all_iff maxPathLen_def maxTitleLen_def
        maxReferrerLen_def maxUTMLen_def maxProps_def maxPropKeyLen_def maxPropValLen_def split: if_splits)
qed

lemma keep_valid_ok:
  "list_all ranged es \<Longrightarrow> list_all event_ok (fst (keep_valid es)) \<and> length (fst (keep_valid es)) + snd (keep_valid es) = length es"
proof (induction es rule: keep_valid.induct)
  case (2 ks e es)
  then show ?case using sanitize_ok [of ks e] by (auto simp: Let_def split: prod.splits)
qed simp


definition sample_event :: web_event where
  "sample_event = \<lparr>we_Name = ''page_view'', we_Path = ''/'', we_Title = [], we_Referrer = [], we_UTMSource = [],
     we_UTMMedium = [], we_UTMCampaign = [], we_Props = [(''k'', ''v'')]\<rparr>"


text \<open>Two keys that differ in a control character are one key afterwards; which value it has depends on the order.\<close>

lemma order_decides_a_value:
  "fold sanitize_prop [[CHR ''a'', CHR 0x01], [CHR ''a'', CHR 0x02]] [([CHR ''a'', CHR 0x01], ''1''), ([CHR ''a'', CHR 0x02], ''2'')]
     = [(''a'', ''2'')]
   \<and> fold sanitize_prop [[CHR ''a'', CHR 0x02], [CHR ''a'', CHR 0x01]] [([CHR ''a'', CHR 0x01], ''1''), ([CHR ''a'', CHR 0x02], ''2'')]
     = [(''a'', ''1'')]"
  by code_simp

section \<open>Who is a bot\<close>

text \<open>The reference: some occurrence of \<open>bot\<close> is a product token.\<close>

lemma str_index_first:
  "str_index s p = Some j \<Longrightarrow> take (length p) (drop j s) = p \<and> (\<forall>i < j. take (length p) (drop i s) \<noteq> p)"
proof (induction s arbitrary: j)
  case Nil
  then show ?case by (auto split: if_splits)
next
  case (Cons x xs)
  show ?case
  proof (cases "has_prefix (x # xs) p")
    case True
    with Cons.prems show ?thesis by (simp add: has_prefix_def)
  next
    case False
    with Cons.prems obtain k where k: "str_index xs p = Some k" "j = Suc k" by (auto split: if_splits)
    have "take (length p) (drop i (x # xs)) \<noteq> p" if "i < j" for i
      using that False Cons.IH [OF k(1)] k(2) by (cases i) (auto simp: has_prefix_def)
    with Cons.IH [OF k(1)] k(2) show ?thesis by simp
  qed
qed

lemma str_index_none: "str_index s p = None \<Longrightarrow> p \<noteq> [] \<Longrightarrow> take (length p) (drop i s) \<noteq> p"
proof (induction s arbitrary: i)
  case (Cons x xs)
  then show ?case by (cases i) (auto simp: has_prefix_def split: if_splits)
qed auto

definition bot_at :: "string \<Rightarrow> nat \<Rightarrow> bool" where
  "bot_at s j \<longleftrightarrow> take 3 (drop j s) = ''bot''"

lemma bot_not_overlapping: "bot_at s j \<Longrightarrow> j < i \<Longrightarrow> i < j + 3 \<Longrightarrow> \<not> bot_at s i"
proof -
  assume b: "bot_at s j" and "j < i" "i < j + 3"
  then consider "i = j + 1" | "i = j + 2" by linarith
  then show ?thesis
  proof cases
    case 1
    have "drop i s = tl (drop j s)" by (simp add: 1 drop_Suc tl_drop)
    then show ?thesis
      using b by (cases "drop j s"; cases "drop i s") (auto simp: bot_at_def numeral_3_eq_3)
  next
    case 2
    have "drop i s = tl (tl (drop j s))" by (simp add: 2 drop_Suc tl_drop)
    then show ?thesis
      using b by (cases "drop j s"; cases "tl (drop j s)"; cases "drop i s") (auto simp: bot_at_def numeral_3_eq_3)
  qed
qed

lemma bot_from_iff: "bot_from s i \<longleftrightarrow> (\<exists>j \<ge> i. bot_at s j \<and> bot_word s j)"
proof (induction s i rule: bot_from.induct)
  case (1 s i)
  show ?case
  proof (cases "str_index (drop i s) ''bot''")
    case None
    have "\<not> bot_at s j" if "j \<ge> i" for j
    proof -
      have "take (length ''bot'') (drop (j - i) (drop i s)) \<noteq> ''bot''" by (rule str_index_none [OF None]) simp
      moreover have "drop (j - i) (drop i s) = drop j s" using that by simp
      moreover have "length ''bot'' = 3" by simp
      ultimately show ?thesis by (simp only: bot_at_def not_False_eq_True)
    qed
    then show ?thesis by (auto simp: bot_from.simps [of s i] None)
  next
    case (Some k)
    have at: "bot_at s (k + i)" and before: "\<And>j. i \<le> j \<Longrightarrow> j < k + i \<Longrightarrow> \<not> bot_at s j"
    proof -
      have "take (length ''bot'') (drop k (drop i s)) = ''bot''" using str_index_first [OF Some] by (rule conjunct1)
      moreover have "drop k (drop i s) = drop (k + i) s" by simp
      moreover have "length ''bot'' = 3" by simp
      ultimately show "bot_at s (k + i)" by (simp only: bot_at_def)
      fix j
      assume "i \<le> j" "j < k + i"
      then have "j - i < k" by simp
      then have "take (length ''bot'') (drop (j - i) (drop i s)) \<noteq> ''bot''"
        using conjunct2 [OF str_index_first [OF Some]] by blast
      moreover have "drop (j - i) (drop i s) = drop j s" using \<open>i \<le> j\<close> by simp
      moreover have "length ''bot'' = 3" by simp
      ultimately show "\<not> bot_at s j" by (simp only: bot_at_def not_False_eq_True)
    qed
    show ?thesis
    proof (cases "bot_word s (k + i)")
      case True
      then show ?thesis using at by (auto simp: bot_from.simps [of s i] Some intro!: exI [of _ "k + i"])
    next
      case False
      have "bot_from s i = bot_from s (k + i + 3)" using False by (simp add: bot_from.simps [of s i] Some)
      also have "\<dots> \<longleftrightarrow> (\<exists>j \<ge> k + i + 3. bot_at s j \<and> bot_word s j)" using 1 Some False by simp
      also have "\<dots> \<longleftrightarrow> (\<exists>j \<ge> i. bot_at s j \<and> bot_word s j)"
      proof
        assume "\<exists>j \<ge> i. bot_at s j \<and> bot_word s j"
        then obtain j where j: "j \<ge> i" "bot_at s j" "bot_word s j" by blast
        have "\<not> j < k + i" using before j by blast
        moreover have "j \<noteq> k + i" using False j by auto
        moreover have "\<not> j < k + i + 3" using bot_not_overlapping [OF at, of j] j(2) calculation by linarith
        ultimately show "\<exists>j \<ge> k + i + 3. bot_at s j \<and> bot_word s j" using j by (intro exI [of _ j]) auto
      next
        assume "\<exists>j \<ge> k + i + 3. bot_at s j \<and> bot_word s j"
        then obtain j where j: "k + i + 3 \<le> j" "bot_at s j \<and> bot_word s j" by blast
        then have "i \<le> j" by linarith
        with j(2) show "\<exists>j \<ge> i. bot_at s j \<and> bot_word s j" by blast
      qed
      finally show ?thesis .
    qed
  qed
qed

text \<open>The scan for \<^verbatim>\<open>bot\<close> ends, and finds every product token: it is true exactly when some occurrence starts a word, ends the
  agent or is followed by one of its four separators, wherever it stands; so a handset whose name ends in
  the three letters is a visitor.\<close>

theorem hasBotToken_iff: "hasBotToken s \<longleftrightarrow> (\<exists>j. bot_at s j \<and> bot_word s j)"
  by (simp add: hasBotToken_def bot_from_iff)

lemma device_closed:
  "ua_Device (parseUA low raw) \<in> {''bot'', ''desktop'', ''mobile'', ''tablet''}"
  by (simp add: parseUA_def bot_agent_def deviceOf_def Let_def)

section \<open>The visitor of a hash\<close>

text \<open>What the table holds for a hash: the attribution and the id of its first row.\<close>

definition first_of :: "string \<Rightarrow> web_db \<Rightarrow> firstTouch option" where
  "first_of h d = map_option vi_first (find (\<lambda>v. vi_hash v = h) (wd_visitors d))"

definition id_of :: "string \<Rightarrow> web_db \<Rightarrow> int option" where
  "id_of h d = map_option vi_id (find (\<lambda>v. vi_hash v = h) (wd_visitors d))"

lemma find_visitor_map:
  assumes "\<And>v. vi_hash (f v) = vi_hash v \<and> p (f v) = p v"
  shows "map_option p (find (\<lambda>v. vi_hash v = h) (map f vs)) = map_option p (find (\<lambda>v. vi_hash v = h) vs)"
  by (induction vs) (auto simp: assms)

lemma of_on_visitor:
  "(\<And>v. vi_hash (f v) = vi_hash v \<and> vi_first (f v) = vi_first v) \<Longrightarrow> first_of h (on_visitor i f d) = first_of h d"
  "(\<And>v. vi_hash (f v) = vi_hash v \<and> vi_id (f v) = vi_id v) \<Longrightarrow> id_of h (on_visitor i f d) = id_of h d"
  by (simp_all add: on_visitor_def first_of_def id_of_def find_visitor_map)

lemma of_updates [simp]:
  "first_of h (LinkVisitorEmail i m d) = first_of h d" "first_of h (LinkVisitorPerson i p t a d) = first_of h d"
  "first_of h (MarkVisitorAccountCreated i a d) = first_of h d" "first_of h (TouchVisitorLastSeen i a c dv n d) = first_of h d"
  "id_of h (LinkVisitorEmail i m d) = id_of h d" "id_of h (LinkVisitorPerson i p t a d) = id_of h d"
  "id_of h (MarkVisitorAccountCreated i a d) = id_of h d" "id_of h (TouchVisitorLastSeen i a c dv n d) = id_of h d"
  by (simp_all add: LinkVisitorEmail_def LinkVisitorPerson_def MarkVisitorAccountCreated_def TouchVisitorLastSeen_def of_on_visitor)

lemma of_links [simp]:
  "first_of h (fold (link_track fails i) nts d) = first_of h d" "id_of h (fold (link_track fails i) nts d) = id_of h d"
  by (induction nts arbitrary: d) (auto simp: link_track_def)

lemma of_rows [simp]: "first_of h (d\<lparr>wd_rows := r\<rparr>) = first_of h d" "id_of h (d\<lparr>wd_rows := r\<rparr>) = id_of h d"
  by (simp_all add: first_of_def id_of_def)

lemma find_upsert:
  "find (\<lambda>v. vi_hash v = h) (map (\<lambda>w. if vi_hash w = k then w\<lparr>vi_first := upsert_first (vi_first w) f\<rparr> else w) vs)
     = map_option (\<lambda>w. if h = k then w\<lparr>vi_first := upsert_first (vi_first w) f\<rparr> else w) (find (\<lambda>v. vi_hash v = h) vs)"
  by (induction vs) auto

lemma find_snoc: "find P (xs @ [x]) = (case find P xs of Some y \<Rightarrow> Some y | None \<Rightarrow> if P x then Some x else None)"
  by (induction xs) auto

lemma first_of_upsert:
  "first_of h (snd (UpsertWebVisitorFirst k f at d)) =
     (if h = k then Some (case first_of h d of None \<Rightarrow> f | Some g \<Rightarrow> upsert_first g f) else first_of h d)"
proof (cases "find (\<lambda>v. vi_hash v = k) (wd_visitors d)")
  case None
  then show ?thesis
    by (auto simp: UpsertWebVisitorFirst_def Let_def first_of_def find_snoc split: option.split)
next
  case (Some v)
  then show ?thesis
    by (auto simp: UpsertWebVisitorFirst_def Let_def first_of_def find_upsert option.map_ident split: option.split)
qed

text \<open>An upsert answers the id the hash has from then on; a hash that has one keeps it.\<close>

lemma id_of_upsert:
  "id_of k (snd (UpsertWebVisitorFirst k f at d)) = Some (fst (UpsertWebVisitorFirst k f at d))"
  "id_of h d = Some i \<Longrightarrow> id_of h (snd (UpsertWebVisitorFirst k f at d)) = Some i"
  by (auto simp: UpsertWebVisitorFirst_def Let_def id_of_def find_snoc find_upsert split: option.split)

section \<open>A flush keeps every event\<close>

lemma mset_add_to_groups:
  "mset (concat (map vg_tracks (add_to_groups t gs))) = add_mset t (mset (concat (map vg_tracks gs)))"
  by (induction gs) auto

lemma mset_group_tracks: "mset (concat (map vg_tracks (group_tracks ts))) = mset ts"
  unfolding group_tracks_def
  by (induction ts rule: rev_induct) (simp_all add: mset_add_to_groups del: mset_concat)

text \<open>A group holds the tracks of its hash.\<close>

definition of_one_hash :: "visitor_group \<Rightarrow> bool" where
  "of_one_hash g \<longleftrightarrow> (\<forall>t \<in> set (vg_tracks g). tk_hash t = vg_hash g)"

lemma of_one_hash_groups: "list_all of_one_hash (group_tracks ts)"
proof -
  have "list_all of_one_hash gs \<Longrightarrow> list_all of_one_hash (add_to_groups t gs)" for t gs
    by (induction gs) (auto simp: of_one_hash_def)
  then show ?thesis
    unfolding group_tracks_def by (induction ts rule: rev_induct) simp_all
qed

text \<open>The visitor id of a row: none without a hash or when the hash could not be resolved, else the one of the table.\<close>

definition visitor_of :: "(web_query \<Rightarrow> bool) \<Rightarrow> web_db \<Rightarrow> track \<Rightarrow> int" where
  "visitor_of fails d t =
     (case tk_hash t of
        None \<Rightarrow> 0
      | Some h \<Rightarrow> if fails (WResolve h) then 0 else (case id_of h d of Some i \<Rightarrow> i | None \<Rightarrow> 0))"

lemma flush_group_parts:
  "fst (flush_group fails g rd) = fst rd @ concat (map (rows_of_track (fst (resolve_group fails g (snd rd)))) (vg_tracks g))"
  "id_of h (snd (flush_group fails g rd)) = id_of h (snd (resolve_group fails g (snd rd)))"
  "first_of h (snd (flush_group fails g rd)) = first_of h (snd (resolve_group fails g (snd rd)))"
  by (simp_all add: flush_group_def Let_def case_prod_beta)

lemma flush_group_keeps_id:
  "id_of h (snd rd) = Some i \<Longrightarrow> id_of h (snd (flush_group fails g rd)) = Some i"
  by (auto simp: flush_group_parts resolve_group_def id_of_upsert split: option.split)

lemma flush_groups_keep_id:
  "id_of h (snd rd) = Some i \<Longrightarrow> id_of h (snd (fold (flush_group fails) gs rd)) = Some i"
  by (induction gs arbitrary: rd) (simp_all add: flush_group_keeps_id)

lemma resolved_visitor:
  assumes "tk_hash t = vg_hash g" and "\<And>h i. id_of h (snd (resolve_group fails g d)) = Some i \<Longrightarrow> id_of h d' = Some i"
  shows "fst (resolve_group fails g d) = visitor_of fails d' t"
proof (cases "vg_hash g")
  case None
  with assms(1) show ?thesis by (simp add: resolve_group_def visitor_of_def)
next
  case (Some h)
  show ?thesis
  proof (cases "fails (WResolve h)")
    case True
    with Some assms(1) show ?thesis by (simp add: resolve_group_def visitor_of_def)
  next
    case False
    then have "id_of h (snd (resolve_group fails g d)) = Some (fst (resolve_group fails g d))"
      by (simp add: resolve_group_def Some id_of_upsert)
    from assms(2) [OF this] Some assms(1) False show ?thesis by (simp add: visitor_of_def)
  qed
qed

lemma flush_groups_rows:
  assumes "list_all of_one_hash gs" and "fold (flush_group fails) gs (rows, d) = (rows', d')"
  shows "rows' = rows @ concat (map (\<lambda>t. rows_of_track (visitor_of fails d' t) t) (concat (map vg_tracks gs)))"
  using assms
proof (induction gs arbitrary: rows d)
  case (Cons g gs)
  let ?i = "fst (resolve_group fails g d)"
  obtain rows1 d1 where one: "flush_group fails g (rows, d) = (rows1, d1)" by fastforce
  have rest: "fold (flush_group fails) gs (rows1, d1) = (rows', d')" using Cons.prems(2) one by simp
  have keeps: "id_of h d' = Some i" if "id_of h (snd (resolve_group fails g d)) = Some i" for h i
    using flush_groups_keep_id [of h "(rows1, d1)" i fails gs] flush_group_parts(2) [of h fails g "(rows, d)"] that one rest
    by simp
  have same: "\<forall>t \<in> set (vg_tracks g). rows_of_track ?i t = rows_of_track (visitor_of fails d' t) t"
    using resolved_visitor [of _ g fails d d'] keeps Cons.prems(1) by (auto simp: of_one_hash_def)
  have "rows1 = rows @ concat (map (rows_of_track ?i) (vg_tracks g))"
    using flush_group_parts(1) [of fails g "(rows, d)"] one by simp
  also have "map (rows_of_track ?i) (vg_tracks g) = map (\<lambda>t. rows_of_track (visitor_of fails d' t) t) (vg_tracks g)"
    using same by simp
  finally show ?case using Cons.IH [OF _ rest] Cons.prems(1) by simp
qed simp

lemma mset_concat_map: "mset xs = mset ys \<Longrightarrow> mset (concat (map f xs)) = mset (concat (map f ys))"
  by (metis mset_concat mset_map sum_mset_sum_list map_map)

lemma flush_groups_old_rows: "wd_rows (snd (fold (flush_group fails) gs rd)) = wd_rows (snd rd)"
proof -
  have visitors: "wd_rows (on_visitor i g x) = wd_rows x" for i g x by (simp add: on_visitor_def)
  have link: "wd_rows (fold (link_track fails i) nts x) = wd_rows x" for i nts x
    by (induction nts arbitrary: x)
      (auto simp: link_track_def LinkVisitorEmail_def LinkVisitorPerson_def MarkVisitorAccountCreated_def visitors)
  have resolve: "wd_rows (snd (resolve_group fails g x)) = wd_rows x" for g x
    by (simp add: resolve_group_def UpsertWebVisitorFirst_def Let_def split: option.split)
  have "wd_rows (snd (flush_group fails g rd)) = wd_rows (snd rd)" for g rd
    using resolve [of g "snd rd"]
    by (auto simp: flush_group_def Let_def TouchVisitorLastSeen_def visitors link split: prod.split)
  then show ?thesis by (induction gs arbitrary: rd) simp_all
qed

text \<open>C37. A flush whose insert works writes every event of its batch exactly once: the new rows are, in some order, one row per event of each track, with
  the track's time, person, tenant, country, address hash and agent, and the id the visitor table then has for the track's hash, or 0 when the
  track has no hash or its visitor could not be resolved. Whatever other query of the visitors fails.\<close>

theorem flush_keeps_every_event:
  assumes "\<not> fails WInsert" and "d' = flush_tracks fails ts d"
  shows "\<exists>rows. wd_rows d' = wd_rows d @ rows \<and>
     mset rows = mset (concat (map (\<lambda>t. map (\<lambda>e.
       \<lparr>wr_TS = tk_at t,
        wr_VisitorID = (case tk_hash t of
           None \<Rightarrow> 0
         | Some h \<Rightarrow> if fails (WResolve h) then 0 else (case id_of h d' of Some i \<Rightarrow> i | None \<Rightarrow> 0)),
        wr_PersonID = tk_person t, wr_TenantID = tk_tenant t, wr_event = e, wr_Country = tk_country t,
        wr_IPHash = tk_ipHash t, wr_ua = tk_ua t\<rparr>) (tk_events t)) ts))"
proof -
  obtain rows d1 where f: "fold (flush_group fails) (group_tracks ts) ([], d) = (rows, d1)" by fastforce
  have d': "d' = d1\<lparr>wd_rows := wd_rows d1 @ rows\<rparr>" using assms by (simp add: flush_tracks_def f)
  have old: "wd_rows d1 = wd_rows d"
    using flush_groups_old_rows [of fails "group_tracks ts" "([], d)"] by (simp add: f)
  have "mset rows = mset (concat (map (\<lambda>t. rows_of_track (visitor_of fails d1 t) t) ts))"
    using flush_groups_rows [OF of_one_hash_groups f]
      mset_concat_map [OF mset_group_tracks, of "\<lambda>t. rows_of_track (visitor_of fails d1 t) t" ts] by simp
  moreover have "visitor_of fails d1 = visitor_of fails d'"
    by (rule ext) (auto simp: visitor_of_def d' split: option.split)
  ultimately have "mset rows = mset (concat (map (\<lambda>t. rows_of_track (visitor_of fails d' t) t) ts))" by simp
  moreover have "wd_rows d' = wd_rows d @ rows" using old by (simp add: d')
  ultimately show ?thesis
    unfolding rows_of_track_def visitor_of_def by blast
qed

section \<open>Attribution\<close>

text \<open>The reference: the first text that is not empty.\<close>

definition first_nonempty :: "string list \<Rightarrow> string" where
  "first_nonempty xs = (case find (\<lambda>s. s \<noteq> '''') xs of Some s \<Rightarrow> s | None \<Rightarrow> '''')"

lemma first_nonempty_simps [simp]:
  "first_nonempty [] = ''''" "first_nonempty (x # xs) = (if x = '''' then first_nonempty xs else x)"
  by (simp_all add: first_nonempty_def)

lemma keep_first: "keep (first_nonempty xs) (first_nonempty ys) = first_nonempty (xs @ ys)"
  by (induction xs) (auto simp: keep_def)

lemma keep_last: "keep (first_nonempty xs) y = first_nonempty (xs @ [y])"
  by (induction xs) (auto simp: keep_def)

definition touch_fields :: "(firstTouch \<Rightarrow> string) list" where
  "touch_fields = [ft_Referrer, ft_UTMSource, ft_UTMMedium, ft_UTMCampaign, ft_Country, ft_Device, ft_Path]"

definition merged :: "firstTouch list \<Rightarrow> firstTouch" where
  "merged fs = foldl mergeFirst no_touch fs"

lemma merged_fields: "list_all (\<lambda>fld. fld (merged fs) = first_nonempty (map fld fs)) touch_fields"
  unfolding merged_def touch_fields_def
  by (induction fs rule: rev_induct) (simp_all add: no_touch_def mergeFirst_def keep_last)

lemma merged_bot: "ft_IsBot (merged fs) = list_ex ft_IsBot fs"
  unfolding merged_def by (induction fs rule: rev_induct) (auto simp: no_touch_def mergeFirst_def)

text \<open>What a flush stores for a hash: the touches of its tracks, merged, into what was there.\<close>

definition stored_touch :: "firstTouch option \<Rightarrow> firstTouch \<Rightarrow> firstTouch" where
  "stored_touch old f = (case old of None \<Rightarrow> f | Some g \<Rightarrow> upsert_first g f)"

lemma stored_fields:
  "list_all (\<lambda>fld. fld (stored_touch old (merged us)) = first_nonempty ((case old of None \<Rightarrow> [] | Some g \<Rightarrow> [fld g]) @ map fld us)) touch_fields"
  using merged_fields [of us]
  by (cases old) (simp_all add: touch_fields_def stored_touch_def upsert_first_def keep_def)

lemma flush_group_first:
  "first_of h (snd (flush_group fails g rd)) =
     (if vg_hash g = Some h \<and> \<not> fails (WResolve h) then Some (stored_touch (first_of h (snd rd)) (vg_first g))
      else first_of h (snd rd))"
  by (auto simp: flush_group_parts resolve_group_def first_of_upsert stored_touch_def split: option.split)

lemma flush_groups_first:
  assumes "distinct (map vg_hash gs)"
  shows "first_of h (snd (fold (flush_group fails) gs rd)) =
     (case find (\<lambda>g. vg_hash g = Some h) gs of
        None \<Rightarrow> first_of h (snd rd)
      | Some g \<Rightarrow> if fails (WResolve h) then first_of h (snd rd) else Some (stored_touch (first_of h (snd rd)) (vg_first g)))"
  using assms
proof (induction gs arbitrary: rd)
  case (Cons g gs)
  show ?case
  proof (cases "vg_hash g = Some h")
    case True
    then have "find (\<lambda>g. vg_hash g = Some h) gs = None"
      using Cons.prems by (force simp: find_None_iff)
    with True Cons show ?thesis by (simp add: flush_group_first)
  next
    case False
    then have same: "first_of h (snd (flush_group fails g rd)) = first_of h (snd rd)"
      by (simp add: flush_group_first)
    show ?thesis using Cons.IH [of "flush_group fails g rd", unfolded same] Cons.prems False by simp
  qed
qed simp

lemma find_add_to_groups:
  "find (\<lambda>g. vg_hash g = k) (add_to_groups t gs) =
     (if tk_hash t \<noteq> k then find (\<lambda>g. vg_hash g = k) gs
      else case find (\<lambda>g. vg_hash g = k) gs of
        None \<Rightarrow> Some \<lparr>vg_hash = k, vg_first = mergeFirst no_touch (tk_first t), vg_tracks = [t]\<rparr>
      | Some g \<Rightarrow> Some (g\<lparr>vg_first := mergeFirst (vg_first g) (tk_first t), vg_tracks := vg_tracks g @ [t]\<rparr>))"
  by (induction gs) auto

lemma hashes_add_to_groups: "set (map vg_hash (add_to_groups t gs)) = insert (tk_hash t) (set (map vg_hash gs))"
  by (induction gs) auto

lemma distinct_add_to_groups: "distinct (map vg_hash gs) \<Longrightarrow> distinct (map vg_hash (add_to_groups t gs))"
proof (induction gs)
  case (Cons g gs)
  then show ?case using hashes_add_to_groups [of t gs] by auto
qed simp

lemma group_tracks_snoc: "group_tracks (ts @ [t]) = add_to_groups t (group_tracks ts)"
  by (simp add: group_tracks_def)

lemma distinct_group_tracks: "distinct (map vg_hash (group_tracks ts))"
  by (induction ts rule: rev_induct) (simp_all add: group_tracks_snoc distinct_add_to_groups, simp add: group_tracks_def)

lemma find_group_tracks:
  "find (\<lambda>g. vg_hash g = k) (group_tracks ts) =
     (let us = filter (\<lambda>t. tk_hash t = k) ts in
      if us = [] then None
      else Some \<lparr>vg_hash = k, vg_first = foldl mergeFirst no_touch (map tk_first us), vg_tracks = us\<rparr>)"
proof (induction ts rule: rev_induct)
  case (snoc t ts)
  then show ?case by (auto simp: group_tracks_snoc find_add_to_groups Let_def)
qed (simp add: group_tracks_def)

lemma flush_first:
  "first_of h (flush_tracks fails ts d) =
     (let us = filter (\<lambda>t. tk_hash t = Some h) ts in
      if us = [] \<or> fails (WResolve h) then first_of h d
      else Some (stored_touch (first_of h d) (merged (map tk_first us))))"
proof -
  obtain rows d' where f: "fold (flush_group fails) (group_tracks ts) ([], d) = (rows, d')" by fastforce
  have "first_of h (flush_tracks fails ts d) = first_of h d'"
    by (simp add: flush_tracks_def f)
  with flush_groups_first [OF distinct_group_tracks, of h fails ts "([], d)"] show ?thesis
    by (simp add: f find_group_tracks Let_def merged_def)
qed

text \<open>A run of flushes, each with its own failures, and the touches it had of a hash: those of the flushes that held tracks of the hash
  and resolved it, in order.\<close>

definition flush_all :: "((web_query \<Rightarrow> bool) \<times> track list) list \<Rightarrow> web_db \<Rightarrow> web_db" where
  "flush_all flushes d = fold (\<lambda>(fails, ts) d. flush_tracks fails ts d) flushes d"

definition touches :: "string \<Rightarrow> ((web_query \<Rightarrow> bool) \<times> track list) list \<Rightarrow> firstTouch list list" where
  "touches h flushes =
     filter (\<lambda>fs. fs \<noteq> [])
       (map (\<lambda>(fails, ts). if fails (WResolve h) then [] else map tk_first (filter (\<lambda>t. tk_hash t = Some h) ts)) flushes)"

lemma touches_Cons:
  "touches h ((fails, ts) # fl) =
     (if filter (\<lambda>t. tk_hash t = Some h) ts = [] \<or> fails (WResolve h) then touches h fl
      else map tk_first (filter (\<lambda>t. tk_hash t = Some h) ts) # touches h fl)"
  by (simp add: touches_def)

text \<open>C38. First touch wins. After any run of flushes, with whatever queries failing in each, a visitor's stored referrer, campaign, country, device and
  path are each the first text that is not empty among what was stored before and the tracks of the visitor, in order, of every
  flush that could resolve it: where the flushes fall makes no difference. The bot flag is the exception: it is what was stored (a bot, for a new visitor)
  and, for every such flush, whether some track of the flush was a bot's, so it depends on the cuts.\<close>

theorem first_touch_wins:
  "let old = first_of h d; seen = touches h flushes
   in case first_of h (flush_all flushes d) of
        None \<Rightarrow> old = None \<and> seen = []
      | Some f \<Rightarrow>
          \<not> (old = None \<and> seen = []) \<and>
          list_all (\<lambda>fld. fld f = first_nonempty ((case old of None \<Rightarrow> [] | Some g \<Rightarrow> [fld g]) @ map fld (concat seen)))
            [ft_Referrer, ft_UTMSource, ft_UTMMedium, ft_UTMCampaign, ft_Country, ft_Device, ft_Path] \<and>
          ft_IsBot f = ((case old of None \<Rightarrow> True | Some g \<Rightarrow> ft_IsBot g) \<and> list_all (list_ex ft_IsBot) seen)"
proof (induction flushes arbitrary: d)
  case Nil
  then show ?case by (simp add: flush_all_def touches_def split: option.split)
next
  case (Cons fl flushes)
  obtain fails ts where fl: "fl = (fails, ts)" by (cases fl)
  let ?us = "map tk_first (filter (\<lambda>t. tk_hash t = Some h) ts)"
  have run: "flush_all (fl # flushes) d = flush_all flushes (flush_tracks fails ts d)" by (simp add: flush_all_def fl)
  show ?case
  proof (cases "filter (\<lambda>t. tk_hash t = Some h) ts = [] \<or> fails (WResolve h)")
    case True
    then have "first_of h (flush_tracks fails ts d) = first_of h d" "touches h (fl # flushes) = touches h flushes"
      by (simp_all add: flush_first Let_def touches_Cons fl)
    with Cons.IH [of "flush_tracks fails ts d"] show ?thesis unfolding run by simp
  next
    case False
    let ?old = "first_of h d" and ?new = "stored_touch (first_of h d) (merged ?us)"
    have new: "first_of h (flush_tracks fails ts d) = Some ?new" "touches h (fl # flushes) = ?us # touches h flushes"
      using False by (simp_all add: flush_first Let_def touches_Cons fl)
    have fields: "list_all (\<lambda>fld. fld ?new = first_nonempty ((case ?old of None \<Rightarrow> [] | Some g \<Rightarrow> [fld g]) @ map fld ?us)) touch_fields"
      by (rule stored_fields)
    have bot: "ft_IsBot ?new = ((case ?old of None \<Rightarrow> True | Some g \<Rightarrow> ft_IsBot g) \<and> list_ex ft_IsBot ?us)"
      by (cases ?old) (simp_all add: stored_touch_def merged_bot upsert_first_def)
    have join: "first_nonempty (first_nonempty xs # ys) = first_nonempty (xs @ ys)" for xs ys
      by (induction xs) auto
    from Cons.IH [of "flush_tracks fails ts d"] obtain f where f: "first_of h (flush_all flushes (flush_tracks fails ts d)) = Some f"
      and ih: "list_all (\<lambda>fld. fld f = first_nonempty (fld ?new # map fld (concat (touches h flushes)))) touch_fields"
        "ft_IsBot f = (ft_IsBot ?new \<and> list_all (list_ex ft_IsBot) (touches h flushes))"
      unfolding new Let_def touch_fields_def by (auto split: option.splits)
    have "list_all (\<lambda>fld. fld f = first_nonempty ((case ?old of None \<Rightarrow> [] | Some g \<Rightarrow> [fld g]) @ map fld (concat (?us # touches h flushes)))) touch_fields"
      unfolding list_all_iff
    proof
      fix fld assume "fld \<in> set touch_fields"
      then have "fld f = first_nonempty (fld ?new # map fld (concat (touches h flushes)))"
        and "fld ?new = first_nonempty ((case ?old of None \<Rightarrow> [] | Some g \<Rightarrow> [fld g]) @ map fld ?us)"
        using ih(1) fields by (auto simp only: list_all_iff)
      then show "fld f = first_nonempty ((case ?old of None \<Rightarrow> [] | Some g \<Rightarrow> [fld g]) @ map fld (concat (?us # touches h flushes)))"
        by (simp only: join append_assoc concat.simps map_append)
    qed
    with bot ih(2) show ?thesis unfolding run new f Let_def touch_fields_def by simp
  qed
qed

section \<open>The flag of a bot\<close>

definition plain_track :: "string \<Rightarrow> track" where
  "plain_track device =
     \<lparr>tk_at = 1, tk_hash = Some ''h'', tk_first = no_touch\<lparr>ft_Device := device, ft_IsBot := (device = ''bot'')\<rparr>, tk_person = 0,
      tk_tenant = 0, tk_country = [], tk_ipHash = [], tk_ua = \<lparr>ua_Device = device, ua_OS = [], ua_Browser = []\<rparr>,
      tk_email = [], tk_linkPerson = False, tk_accountCreated = False, tk_events = []\<rparr>"

definition no_visitors :: web_db where
  "no_visitors = \<lparr>wd_visitors = [], wd_serial = 0, wd_rows = []\<rparr>"

text \<open>The flag of a bot does depend on it: within a flush one bot makes the visitor a bot, across flushes one person makes it
  none, since the code ORs and the query ANDs.\<close>

theorem bot_flag_depends_on_the_flushes:
  "map_option ft_IsBot (first_of ''h'' (flush_tracks (\<lambda>q. False) [plain_track ''bot'', plain_track ''desktop''] no_visitors)) = Some True
   \<and> map_option ft_IsBot (first_of ''h'' (flush_tracks (\<lambda>q. False) [plain_track ''desktop'']
        (flush_tracks (\<lambda>q. False) [plain_track ''bot''] no_visitors))) = Some False"
  by code_simp

section \<open>The recorder\<close>

text \<open>A run of the recorder with the tracks it took.\<close>

inductive rec_run :: "track list \<Rightarrow> recorder \<Rightarrow> bool" where
  Started: "rec_run [] new_recorder"
| Enqueued: "rec_run ts r \<Longrightarrow> rec_run (if length (rc_in r) < bufferSize then ts @ [t] else ts) (enqueue_track t r)"
| Looped: "rec_run ts r \<Longrightarrow> loop_step r r' \<Longrightarrow> rec_run ts r'"

definition rec_inv :: "track list \<Rightarrow> recorder \<Rightarrow> bool" where
  "rec_inv ts r \<longleftrightarrow>
     ts = rc_flushed r @ rc_pending r @ rc_in r \<and> length (rc_in r) \<le> bufferSize \<and> (rc_done r \<longrightarrow> rc_draining r \<and> rc_pending r = [])"

lemma flush_pending_inv: "rec_inv ts r \<Longrightarrow> rec_inv ts (flush_pending r)"
  by (auto simp: rec_inv_def flush_pending_def)

lemma loop_step_inv: "loop_step r r' \<Longrightarrow> rec_inv ts r \<Longrightarrow> rec_inv ts r'"
proof (induction rule: loop_step.induct)
  case (Receive r t rest)
  then show ?case by (auto simp: rec_inv_def receive_track_def flush_pending_def Let_def)
next
  case (Tick_flush r)
  then show ?case by (simp add: flush_pending_inv)
next
  case (Drained r)
  then show ?case by (auto simp: rec_inv_def flush_pending_def)
qed (auto simp: rec_inv_def drain_track_def)

lemma rec_run_inv: "rec_run ts r \<Longrightarrow> rec_inv ts r"
proof (induction rule: rec_run.induct)
  case Started
  then show ?case by (simp add: rec_inv_def new_recorder_def bufferSize_def)
next
  case (Enqueued ts r t)
  then show ?case by (auto simp: rec_inv_def enqueue_track_def)
qed (rule loop_step_inv)

text \<open>C39. The recorder is a queue: what it took is, in order, what it has flushed, what it holds and what is in its channel, in any interleaving of requests,
  ticks and a stop; so nothing it took is lost or written twice before it ends, and its channel never holds more
  than its bound.\<close>

theorem recorder_is_a_queue:
  assumes "rec_run ts r"
  shows "ts = rc_flushed r @ rc_pending r @ rc_in r \<and> length (rc_in r) \<le> bufferSize \<and> (rc_done r \<longrightarrow> rc_pending r = [])"
  using rec_run_inv [OF assms] by (auto simp: rec_inv_def)

text \<open>After the end the loop does nothing: a track that is enqueued then is neither written nor counted as dropped.\<close>

inductive_cases loop_stepE: "loop_step r r'"

lemma ended_stays: "loop_step r r' \<Longrightarrow> rc_done r \<Longrightarrow> rc_draining r \<Longrightarrow> r' = r\<lparr>rc_stopping := True\<rparr>"
  by (auto elim: loop_stepE)

definition ended :: recorder where
  "ended = new_recorder\<lparr>rc_stopping := True, rc_draining := True, rc_done := True\<rparr>"

lemma ended_run: "rec_run [] ended"
proof -
  have "rec_run [] (new_recorder\<lparr>rc_stopping := True\<rparr>)"
    by (rule rec_run.Looped [OF rec_run.Started loop_step.Stop_rec])
  then have "rec_run [] (new_recorder\<lparr>rc_stopping := True, rc_draining := True\<rparr>)"
    by (rule rec_run.Looped) (use loop_step.Stop_seen [of "new_recorder\<lparr>rc_stopping := True\<rparr>"] in \<open>simp add: new_recorder_def\<close>)
  then show ?thesis
    by (rule rec_run.Looped)
      (use loop_step.Drained [of "new_recorder\<lparr>rc_stopping := True, rc_draining := True\<rparr>"] in
        \<open>simp add: new_recorder_def ended_def flush_pending_def\<close>)
qed

theorem track_after_the_end_is_lost:
  "rec_run [t] (enqueue_track t ended) \<and> rc_dropped (enqueue_track t ended) = 0
   \<and> (\<forall>r'. loop_step (enqueue_track t ended) r' \<longrightarrow> rc_flushed r' = [] \<and> rc_in r' = [t])"
proof (intro conjI allI impI)
  show "rec_run [t] (enqueue_track t ended)"
    using rec_run.Enqueued [OF ended_run, of t] by (simp add: ended_def new_recorder_def bufferSize_def)
  show "rc_dropped (enqueue_track t ended) = 0"
    by (simp add: enqueue_track_def ended_def new_recorder_def bufferSize_def)
next
  fix r'
  assume "loop_step (enqueue_track t ended) r'"
  from ended_stays [OF this] show "rc_flushed r' = []" "rc_in r' = [t]"
    by (simp_all add: enqueue_track_def ended_def new_recorder_def bufferSize_def)
qed

lemma recorder_is_a_queue_witness:
  "[plain_track ''desktop''] = rc_flushed (enqueue_track (plain_track ''desktop'') ended)
     @ rc_pending (enqueue_track (plain_track ''desktop'') ended) @ rc_in (enqueue_track (plain_track ''desktop'') ended)"
proof -
  have "rec_run [plain_track ''desktop''] (enqueue_track (plain_track ''desktop'') ended)"
    using rec_run.Enqueued [OF ended_run, of "plain_track ''desktop''"] by (simp add: ended_def new_recorder_def bufferSize_def)
  from recorder_is_a_queue [OF this] show ?thesis by (rule conjunct1)
qed

lemma flush_keeps_every_event_witness:
  "\<exists>r. wd_rows (flush_tracks (\<lambda>q. q = WTouch 1) [(plain_track ''bot'')\<lparr>tk_events := [sample_event]\<rparr>] no_visitors) = [r]
     \<and> wr_event r = sample_event \<and> wr_TS r = 1"
proof -
  let ?t = "(plain_track ''bot'')\<lparr>tk_events := [sample_event]\<rparr>"
  obtain rows where rows: "wd_rows (flush_tracks (\<lambda>q. q = WTouch 1) [?t] no_visitors) = wd_rows no_visitors @ rows"
    and ms: "mset rows = mset (concat (map (\<lambda>t. map (\<lambda>e.
       \<lparr>wr_TS = tk_at t,
        wr_VisitorID = (case tk_hash t of
           None \<Rightarrow> 0
         | Some h \<Rightarrow> if WResolve h = WTouch 1 then 0
             else (case id_of h (flush_tracks (\<lambda>q. q = WTouch 1) [?t] no_visitors) of Some i \<Rightarrow> i | None \<Rightarrow> 0)),
        wr_PersonID = tk_person t, wr_TenantID = tk_tenant t, wr_event = e, wr_Country = tk_country t,
        wr_IPHash = tk_ipHash t, wr_ua = tk_ua t\<rparr>) (tk_events t)) [?t]))"
    using flush_keeps_every_event [of "\<lambda>q. q = WTouch 1" "flush_tracks (\<lambda>q. q = WTouch 1) [?t] no_visitors" "[?t]" no_visitors, OF _ refl]
    by blast
  from ms obtain r where "rows = [r]" "wr_event r = sample_event" "wr_TS r = 1"
    by (auto simp: plain_track_def)
  with rows show ?thesis by (simp add: no_visitors_def)
qed

end
