(* ===== verification/StatusStrip.thy ===== *)
theory StatusStrip
  imports Availability "HOL-Library.Word" "HOL-Library.Signed_Division"
begin

text \<open>
  The strips of a status page, \<^verbatim>\<open>back/internal/api/write_api.go\<close>: the stored checks of a target folded into slots of a
  quarter of an hour, the slots into bars, and the latest checks one bar each. Counts are \<^verbatim>\<open>uint64\<close>; a column that may be NULL is an
  option.
\<close>

section \<open>Stored checks\<close>

record stored_check =
  ch_target :: int
  ch_ts :: time
  ch_ok :: "bool option"
  ch_class :: "string option"
  ch_code :: "int option"
  ch_interval :: "int option"

text \<open>SQL's three truth values: \<open>None\<close> is NULL, which a condition does not accept.\<close>

definition sql_not :: "bool option \<Rightarrow> bool option" where
  "sql_not = map_option Not"

definition sql_and :: "bool option \<Rightarrow> bool option \<Rightarrow> bool option" where
  "sql_and a b =
     (if a = Some False \<or> b = Some False then Some False else if a = None \<or> b = None then None else Some True)"

definition sql_eq :: "'a option \<Rightarrow> 'a \<Rightarrow> bool option" where
  "sql_eq a v = map_option (\<lambda>x. x = v) a"

definition sql_in :: "'a option \<Rightarrow> 'a list \<Rightarrow> bool option" where
  "sql_in a vs = map_option (\<lambda>x. x \<in> set vs) a"

definition MeasurableSQL :: "string option \<Rightarrow> int option \<Rightarrow> bool option" where
  "MeasurableSQL error_class status_code =
     sql_and (Some (error_class \<noteq> Some ''challenge''))
             (sql_not (sql_and (sql_eq error_class ''status'') (sql_in status_code [401, 403, 429])))"

definition is_measured :: "stored_check \<Rightarrow> bool" where
  "is_measured c \<longleftrightarrow> MeasurableSQL (ch_class c) (ch_code c) = Some True"

definition counts_ok :: "stored_check \<Rightarrow> bool" where
  "counts_ok c \<longleftrightarrow> sql_and (ch_ok c) (MeasurableSQL (ch_class c) (ch_code c)) = Some True"

text \<open>\<^verbatim>\<open>date_bin('15 minutes', ts, '2000-01-01')\<close>.\<close>

definition pg_epoch :: time where "pg_epoch = Unix 946684800 0"

definition date_bin :: "duration \<Rightarrow> time \<Rightarrow> time \<Rightarrow> time" where
  "date_bin stride t origin = origin + (t - origin) div stride * stride"

definition slot_of :: "stored_check \<Rightarrow> int" where
  "slot_of c = UnixSeconds (date_bin (15 * minute) (ch_ts c) pg_epoch)"

record slotCounts =
  sl_ok :: "64 word"
  sl_total :: "64 word"
  sl_interval :: int

definition slot_counts :: "stored_check list \<Rightarrow> slotCounts" where
  "slot_counts cs =
     \<lparr>sl_ok = of_nat (length (filter counts_ok cs)), sl_total = of_nat (length (filter is_measured cs)),
      sl_interval = (case List.map_filter ch_interval cs of [] \<Rightarrow> 0 | x # xs \<Rightarrow> foldr max xs x)\<rparr>"

text \<open>The query of the slots, for one target: the rows it groups, and a row per group.\<close>

definition rows_since :: "stored_check list \<Rightarrow> int \<Rightarrow> time \<Rightarrow> stored_check list" where
  "rows_since cs target t = filter (\<lambda>c. ch_target c = target \<and> ch_ts c \<ge> t) cs"

definition read_slots :: "stored_check list \<Rightarrow> int \<Rightarrow> time \<Rightarrow> (int \<times> slotCounts) list" where
  "read_slots cs target t =
     (let rows = rows_since cs target t
      in map (\<lambda>k. (k, slot_counts (filter (\<lambda>c. slot_of c = k) rows))) (remdups (map slot_of rows)))"

definition slots_from :: "time \<Rightarrow> time" where
  "slots_from now = Add (Truncate now (12 * hour)) (- (59 * 12 * hour))"

section \<open>The plan of a strip\<close>

definition rungFor :: "time \<Rightarrow> time \<Rightarrow> duration \<times> duration" where
  "rungFor oldest now =
     (if IsZero oldest then (24 * hour, 15 * minute)
      else let age = Sub now oldest in
        if age < 24 * hour then (24 * hour, 15 * minute)
        else if age < 48 * hour then (48 * hour, 30 * minute)
        else if age < 7 * 24 * hour then (7 * 24 * hour, 2 * hour)
        else (30 * 24 * hour, 12 * hour))"

definition bucketSteps :: "duration list" where
  "bucketSteps = [15 * minute, 30 * minute, hour, 2 * hour, 12 * hour]"

definition stripPlanFor :: "time \<Rightarrow> time \<Rightarrow> int \<Rightarrow> duration \<times> nat" where
  "stripPlanFor oldest now maxIntervalSec =
     (case rungFor oldest now of (window, base) \<Rightarrow>
        let bucket =
          (if maxIntervalSec > 0 then
             let flr = 2 * maxIntervalSec * second in
             if base < flr then
               (case find (\<lambda>step. step \<ge> flr) bucketSteps of Some step \<Rightarrow> step | None \<Rightarrow> last bucketSteps)
             else base
           else base)
        in (bucket, nat (window div bucket)))"

definition stripWindowLabel :: "duration \<Rightarrow> nat \<Rightarrow> string" where
  "stripWindowLabel bucket count =
     (let w = bucket * int count in
      if w \<le> 48 * hour then itoa (w div hour) @ '' h'' else itoa (w div hour div 24) @ '' days'')"

section \<open>The bars\<close>

record strip_bar =
  sb_ok :: "64 word"
  sb_total :: "64 word"
  sb_rank :: nat

definition rank_of :: "slotCounts \<Rightarrow> nat" where
  "rank_of c = (if sl_ok c = sl_total c then 1 else if sl_ok c * 100 \<ge> sl_total c * 95 then 2 else 3)"

definition rank_names :: "string list" where
  "rank_names = [''nodata'', ''ok'', ''check'', ''down'']"

definition bar_index :: "time \<Rightarrow> duration \<Rightarrow> nat \<Rightarrow> int \<Rightarrow> int" where
  "bar_index currentStart bucket count s =
     int count - 1 - (Sub currentStart (Truncate (Unix s 0) bucket)) sdiv bucket"

definition add_slot :: "time \<Rightarrow> duration \<Rightarrow> nat \<Rightarrow> int \<times> slotCounts \<Rightarrow> strip_bar list \<Rightarrow> strip_bar list" where
  "add_slot currentStart bucket count sc bs =
     (case sc of (s, c) \<Rightarrow>
        if sl_total c = 0 then bs
        else
          let idx = bar_index currentStart bucket count s in
          if idx < 0 \<or> idx \<ge> int count then bs
          else
            let b = bs ! nat idx
            in bs[nat idx := \<lparr>sb_ok = sb_ok b + sl_ok c, sb_total = sb_total b + sl_total c,
                              sb_rank = max (sb_rank b) (rank_of c)\<rparr>])"

definition oldest_slot :: "(int \<times> slotCounts) list \<Rightarrow> time" where
  "oldest_slot slots =
     fold (\<lambda>(s, c) oldest. let t = Unix s 0 in if IsZero oldest \<or> t < oldest then t else oldest) slots zero_time"

definition max_interval :: "time \<Rightarrow> (int \<times> slotCounts) list \<Rightarrow> int" where
  "max_interval windowStart slots =
     fold (\<lambda>(s, c) m. if sl_interval c \<le> 0 \<or> Unix s 0 < windowStart then m
                      else if sl_interval c > m then sl_interval c else m) slots 0"

definition strip_plan :: "(int \<times> slotCounts) list \<Rightarrow> time \<Rightarrow> duration \<times> nat" where
  "strip_plan slots now =
     (let oldest = oldest_slot slots in
      case rungFor oldest now of (window, base) \<Rightarrow>
        let baseCount = window div base;
            windowStart = Add (Truncate now base) (- (baseCount - 1) * base)
        in stripPlanFor oldest now (max_interval windowStart slots))"

definition no_bar :: strip_bar where
  "no_bar = \<lparr>sb_ok = 0, sb_total = 0, sb_rank = 0\<rparr>"

definition buildStrip :: "(int \<times> slotCounts) list \<Rightarrow> time \<Rightarrow> string list \<times> duration \<times> 64 word \<times> 64 word" where
  "buildStrip slots now =
     (case strip_plan slots now of (bucket, count) \<Rightarrow>
        let bs = fold (add_slot (Truncate now bucket) bucket count) slots (replicate count no_bar)
        in (map (\<lambda>b. rank_names ! sb_rank b) bs, bucket, sum_list (map sb_ok bs), sum_list (map sb_total bs)))"

section \<open>The latest checks\<close>

definition recentChecksMax :: nat where "recentChecksMax = 180"
definition recentChecksWindow :: duration where "recentChecksWindow = 7 * 24 * hour"
definition probeLeaseTTL :: duration where "probeLeaseTTL = 5 * minute"

record recentCheck =
  rk_at :: time
  rk_ok :: bool
  rk_measurable :: bool
  rk_interval :: int

text \<open>The query of the latest checks: the newest first, at most \<open>recentChecksMax\<close>, then oldest first.\<close>

definition recent_of :: "stored_check \<Rightarrow> recentCheck" where
  "recent_of c =
     \<lparr>rk_at = ch_ts c, rk_ok = (ch_ok c = Some True), rk_measurable = is_measured c,
      rk_interval = (case ch_interval c of Some i \<Rightarrow> i | None \<Rightarrow> 0)\<rparr>"

definition read_recent :: "stored_check list \<Rightarrow> int \<Rightarrow> time \<Rightarrow> recentCheck list" where
  "read_recent cs target now =
     map recent_of (rev (take recentChecksMax (rev (sort_key ch_ts (rows_since cs target (Add now (- recentChecksWindow)))))))"

definition stopAfter :: "int \<Rightarrow> duration" where
  "stopAfter intervalSec = (let iv = intervalSec * second in max (3 * iv) (probeLeaseTTL + 2 * iv))"

definition gap_bar :: "recentCheck \<Rightarrow> time \<Rightarrow> (string \<times> int) list" where
  "gap_bar prev until =
     (if rk_interval prev \<le> 0 \<or> \<not> rk_measurable prev then []
      else if Sub until (rk_at prev) > stopAfter (rk_interval prev)
      then [(''nodata'', UnixSeconds (Add (rk_at prev) (rk_interval prev * second)))]
      else [])"

definition check_bar :: "recentCheck \<Rightarrow> string \<times> int" where
  "check_bar c =
     (if \<not> rk_measurable c then ''nodata'' else if rk_ok c then ''ok'' else ''down'', UnixSeconds (rk_at c))"

fun bars_after :: "recentCheck \<Rightarrow> recentCheck list \<Rightarrow> (string \<times> int) list" where
  "bars_after prev [] = []"
| "bars_after prev (c # cs) = gap_bar prev (rk_at c) @ check_bar c # bars_after c cs"

definition recentBars :: "recentCheck list \<Rightarrow> time \<Rightarrow> string list \<times> int list \<times> int" where
  "recentBars checks now =
     (case checks of
        [] \<Rightarrow> ([], [], 0)
      | c # cs \<Rightarrow>
          let newest = last checks;
              all = check_bar c # bars_after c cs @ gap_bar newest now
          in (map fst all, map snd all, if fst (last all) \<noteq> ''nodata'' then rk_interval newest else 0))"

end
