(* ===== verification/StatusStripFacts.thy ===== *)
theory StatusStripFacts
  imports StatusStrip "HOL-Library.Sublist" "HOL-Library.Multiset"
begin

text \<open>
  What a strip shows of the stored checks: the plan it is drawn on, each bar against the checks of its span,
  and the strip of the latest checks against its silence.
\<close>

section \<open>Which checks nb\<close>

text \<open>The two statements of what could not be is_measured, the query's and the detector's, agree on every row the program writes.\<close>

lemma measurable_is_the_detectors:
  "MeasurableSQL (Some cls) (Some code) = Some (\<not> Unmeasured cls code)"
  by (auto simp: MeasurableSQL_def Unmeasured_def sql_and_def sql_not_def sql_eq_def sql_in_def)

text \<open>A row without a class is dropped after all when it has no status or one of the three.\<close>

lemma measurable_without_class:
  "MeasurableSQL None code = (case code of None \<Rightarrow> None | Some k \<Rightarrow> if k \<in> {401, 403, 429} then None else Some True)"
  by (auto simp: MeasurableSQL_def sql_and_def sql_not_def sql_eq_def sql_in_def split: option.split)

lemma counts_ok_measured: "counts_ok c \<Longrightarrow> is_measured c"
  by (auto simp: counts_ok_def is_measured_def sql_and_def split: if_splits)

section \<open>The plan\<close>

definition all_plans :: "(duration \<times> nat) list" where
  "all_plans =
     [(15 * minute, 96), (30 * minute, 48), (hour, 24), (2 * hour, 12), (12 * hour, 2),
      (30 * minute, 96), (hour, 48), (2 * hour, 24), (12 * hour, 4),
      (2 * hour, 84), (12 * hour, 14), (12 * hour, 60)]"

lemma rungFor_cases:
  "rungFor oldest now \<in> {(24 * hour, 15 * minute), (48 * hour, 30 * minute), (7 * 24 * hour, 2 * hour), (30 * 24 * hour, 12 * hour)}"
  by (simp add: rungFor_def Let_def)

lemma next_step:
  "(case find (\<lambda>step. step \<ge> flr) bucketSteps of Some step \<Rightarrow> step | None \<Rightarrow> last bucketSteps) =
     (if flr \<le> 15 * minute then 15 * minute else if flr \<le> 30 * minute then 30 * minute
      else if flr \<le> hour then hour else if flr \<le> 2 * hour then 2 * hour else 12 * hour)"
  by (simp add: bucketSteps_def)

definition widen :: "duration \<Rightarrow> int \<Rightarrow> duration" where
  "widen base m =
     (if m > 0 \<and> base < 2 * m * second then
        (if 2 * m * second \<le> 15 * minute then 15 * minute else if 2 * m * second \<le> 30 * minute then 30 * minute
         else if 2 * m * second \<le> hour then hour else if 2 * m * second \<le> 2 * hour then 2 * hour else 12 * hour)
      else base)"

lemma stripPlanFor_widen:
  "stripPlanFor oldest now m =
     (widen (snd (rungFor oldest now)) m,
      nat (fst (rungFor oldest now) div widen (snd (rungFor oldest now)) m))"
  by (simp add: stripPlanFor_def Let_def next_step widen_def split: prod.split)

lemma widen_cases:
  "widen (15 * minute) m \<in> {15 * minute, 30 * minute, hour, 2 * hour, 12 * hour}"
  "widen (30 * minute) m \<in> {30 * minute, hour, 2 * hour, 12 * hour}"
  "widen (2 * hour) m \<in> {2 * hour, 12 * hour}"
  "widen (12 * hour) m \<in> {12 * hour}"
  by (auto simp: widen_def duration_defs)

lemma plan_of_bucket:
  "b \<in> {15 * minute, 30 * minute, hour, 2 * hour, 12 * hour} \<Longrightarrow> (b, nat (24 * hour div b)) \<in> set all_plans"
  "b \<in> {30 * minute, hour, 2 * hour, 12 * hour} \<Longrightarrow> (b, nat (48 * hour div b)) \<in> set all_plans"
  "b \<in> {2 * hour, 12 * hour} \<Longrightarrow> (b, nat (7 * 24 * hour div b)) \<in> set all_plans"
  "b \<in> {12 * hour} \<Longrightarrow> (b, nat (30 * 24 * hour div b)) \<in> set all_plans"
  by (elim insertE emptyE; simp add: all_plans_def duration_defs)+

lemma stripPlanFor_in: "stripPlanFor oldest now m \<in> set all_plans"
proof -
  consider "rungFor oldest now = (24 * hour, 15 * minute)" | "rungFor oldest now = (48 * hour, 30 * minute)"
    | "rungFor oldest now = (7 * 24 * hour, 2 * hour)" | "rungFor oldest now = (30 * 24 * hour, 12 * hour)"
    using rungFor_cases [of oldest now] by auto
  then show ?thesis
  proof cases
    case 1
    then show ?thesis using plan_of_bucket(1) [OF widen_cases(1) [of m]] by (simp add: stripPlanFor_widen)
  next
    case 2
    then show ?thesis using plan_of_bucket(2) [OF widen_cases(2) [of m]] by (simp add: stripPlanFor_widen)
  next
    case 3
    then show ?thesis using plan_of_bucket(3) [OF widen_cases(3) [of m]] by (simp add: stripPlanFor_widen)
  next
    case 4
    then show ?thesis using plan_of_bucket(4) [OF widen_cases(4) [of m]] by (simp add: stripPlanFor_widen)
  qed
qed

lemma strip_plan_in: "strip_plan slots now \<in> set all_plans"
  by (simp add: strip_plan_def Let_def case_prod_beta stripPlanFor_in)

lemma plan_facts:
  assumes "(bucket, nb) \<in> set all_plans"
  shows "0 < bucket" "15 * minute dvd bucket" "bucket dvd 12 * hour" "0 < nb"
    "bucket * int nb \<in> {24 * hour, 48 * hour, 7 * 24 * hour, 30 * 24 * hour}"
    "bucket * int nb = 30 * 24 * hour \<longrightarrow> bucket = 12 * hour"
  using assms by (auto simp: all_plans_def duration_defs)

lemma plan_floor:
  "0 < m \<Longrightarrow> fst (stripPlanFor oldest now m) \<ge> 2 * m * second \<or> fst (stripPlanFor oldest now m) = 12 * hour"
  by (auto simp: stripPlanFor_widen widen_def)

section \<open>One bar\<close>

definition bar_start :: "time \<Rightarrow> duration \<Rightarrow> nat \<Rightarrow> nat \<Rightarrow> time" where
  "bar_start now bucket nb i = Truncate now bucket - (int nb - 1 - int i) * bucket"

definition in_bar :: "time \<Rightarrow> duration \<Rightarrow> nat \<Rightarrow> nat \<Rightarrow> time \<Rightarrow> bool" where
  "in_bar now bucket nb i t \<longleftrightarrow> bar_start now bucket nb i \<le> t \<and> t < bar_start now bucket nb i + bucket"

text \<open>Within two centuries, so that no difference of two times saturates.\<close>

definition century :: duration where "century = 100 * 365 * 24 * hour"

definition in_reach :: "time \<Rightarrow> time \<Rightarrow> bool" where
  "in_reach now t \<longleftrightarrow> \<bar>now - t\<bar> \<le> 2 * century"

lemma Truncate_mult: "Truncate t b = b * (t div b)"
  by (simp add: Truncate_def minus_mod_eq_mult_div)

lemma div_interval: "0 < b \<Longrightarrow> x * b \<le> y \<and> y < x * b + b \<longleftrightarrow> y div b = x" for b x y :: int
proof
  assume "0 < b" "x * b \<le> y \<and> y < x * b + b"
  then show "y div b = x"
    using int_div_pos_eq [of y b x "y - x * b"] by (simp add: mult.commute)
next
  assume b: "0 < b" and x: "y div b = x"
  have "x * b + y mod b = y" using div_mult_mod_eq [of y b] x by simp
  then show "x * b \<le> y \<and> y < x * b + b"
    using pos_mod_bound [OF b, of y] pos_mod_sign [OF b, of y] by linarith
qed

lemma int64_bounds: "max_int64 = 9223372036854775807" "min_int64 = - 9223372036854775808"
  by (simp_all add: max_int64_def min_int64_def)

lemma bar_index_iff:
  assumes b: "0 < bucket" "bucket \<le> 12 * hour" and reach: "in_reach now (Unix s 0)"
  shows "bar_index (Truncate now bucket) bucket nb s = int i \<longleftrightarrow> in_bar now bucket nb i (Unix s 0)"
proof -
  define q where "q = now div bucket"
  define p where "p = Unix s 0 div bucket"
  have reach': "\<bar>now - Unix s 0\<bar> \<le> 6307200000000000000" "bucket \<le> 43200000000000"
    using reach b by (simp_all add: in_reach_def century_def duration_defs)
  have "Truncate now bucket - Truncate (Unix s 0) bucket \<le> 9223372036854775807"
    "- 9223372036854775808 \<le> Truncate now bucket - Truncate (Unix s 0) bucket"
    using b(1) reach' Truncate_le [of bucket now] Truncate_le [of bucket "Unix s 0"] by linarith+
  then have "Sub (Truncate now bucket) (Truncate (Unix s 0) bucket) = bucket * (q - p)"
    by (simp add: Sub_exact int64_bounds) (simp add: Truncate_mult q_def p_def right_diff_distrib)
  then have idx: "bar_index (Truncate now bucket) bucket nb s = int nb - 1 - (q - p)"
    using b by (simp add: bar_index_def signed_divide_int_def sgn_mult abs_mult sgn_mult_abs)
  have "bar_start now bucket nb i = (q - (int nb - 1 - int i)) * bucket"
    by (simp add: bar_start_def Truncate_mult q_def algebra_simps)
  then have "in_bar now bucket nb i (Unix s 0) \<longleftrightarrow> p = q - (int nb - 1 - int i)"
    using div_interval [OF b(1), of "q - (int nb - 1 - int i)" "Unix s 0"] by (simp add: in_bar_def p_def)
  with idx show ?thesis by auto
qed

text \<open>The slots of one bar.\<close>

definition bar_slots :: "time \<Rightarrow> duration \<Rightarrow> nat \<Rightarrow> nat \<Rightarrow> (int \<times> slotCounts) list \<Rightarrow> slotCounts list" where
  "bar_slots now bucket nb i slots =
     map snd (filter (\<lambda>(s, c). sl_total c \<noteq> 0 \<and> in_bar now bucket nb i (Unix s 0)) slots)"

definition merge_slot :: "slotCounts \<Rightarrow> strip_bar \<Rightarrow> strip_bar" where
  "merge_slot c b = \<lparr>sb_ok = sb_ok b + sl_ok c, sb_total = sb_total b + sl_total c, sb_rank = max (sb_rank b) (rank_of c)\<rparr>"

lemma length_add_slot [simp]: "length (add_slot t b n sc bs) = length bs"
  by (simp add: add_slot_def Let_def split: prod.split)

lemma length_add_slots [simp]: "length (fold (add_slot t b n) slots bs) = length bs"
  by (induction slots arbitrary: bs) simp_all

lemma add_slot_nth:
  assumes "0 < bucket" "bucket \<le> 12 * hour" "in_reach now (Unix s 0)" and len: "length bs = nb" "i < nb"
  shows "add_slot (Truncate now bucket) bucket nb (s, c) bs ! i =
     (if sl_total c \<noteq> 0 \<and> in_bar now bucket nb i (Unix s 0) then merge_slot c (bs ! i) else bs ! i)"
proof -
  let ?idx = "bar_index (Truncate now bucket) bucket nb s"
  note at = bar_index_iff [OF assms(1-3)]
  show ?thesis
  proof (cases "?idx = int i")
    case True
    then show ?thesis using at [of nb i] len by (simp add: add_slot_def Let_def merge_slot_def)
  next
    case False
    then have "nat ?idx \<noteq> i" if "0 \<le> ?idx" using that by auto
    with False show ?thesis using at [of nb i] len by (auto simp: add_slot_def Let_def)
  qed
qed

lemma bars_nth:
  assumes "0 < bucket" "bucket \<le> 12 * hour" and "\<forall>(s, c) \<in> set slots. in_reach now (Unix s 0)"
    and "length bs = nb" "i < nb"
  shows "fold (add_slot (Truncate now bucket) bucket nb) slots bs ! i = fold merge_slot (bar_slots now bucket nb i slots) (bs ! i)"
  using assms(3,4)
proof (induction slots arbitrary: bs)
  case (Cons sc slots)
  obtain s c where sc: "sc = (s, c)" by fastforce
  show ?case
    using Cons.IH [of "add_slot (Truncate now bucket) bucket nb sc bs"] Cons.prems
      add_slot_nth [OF assms(1,2), of now s bs nb i c] assms(5)
    by (auto simp: sc bar_slots_def)
qed (simp add: bar_slots_def)

lemma merged_rank: "k \<le> sb_rank (fold merge_slot cs b) \<longleftrightarrow> k \<le> sb_rank b \<or> (\<exists>c \<in> set cs. k \<le> rank_of c)"
  by (induction cs arbitrary: b) (auto simp: merge_slot_def)

lemma merged_counts:
  "sb_ok (fold merge_slot cs b) = sb_ok b + sum_list (map sl_ok cs)"
  "sb_total (fold merge_slot cs b) = sb_total b + sum_list (map sl_total cs)"
  by (induction cs arbitrary: b) (simp_all add: merge_slot_def add.assoc)

lemma rank_of_range: "1 \<le> rank_of c \<and> rank_of c \<le> 3"
  by (simp add: rank_of_def)

lemma merged_rank_bound: "sb_rank b \<le> 3 \<Longrightarrow> sb_rank (fold merge_slot cs b) \<le> 3"
  by (induction cs arbitrary: b) (simp_all add: merge_slot_def rank_of_range)

section \<open>From checks to slots\<close>

text \<open>Where a time lies against a multiple of a quarter of an hour is where its slot lies.\<close>

lemma Truncate_ge_iff: "0 < m \<Longrightarrow> m dvd a \<Longrightarrow> a \<le> Truncate t m \<longleftrightarrow> a \<le> t" for a m t :: int
proof
  assume "0 < m" "a \<le> Truncate t m"
  then show "a \<le> t" using Truncate_le [of m t] by linarith
next
  assume m: "0 < m" "m dvd a" "a \<le> t"
  then obtain k where k: "a = m * k" by blast
  have "k \<le> t div m" using zdiv_mono1 [OF m(3) m(1)] m(1) by (simp add: k)
  then show "a \<le> Truncate t m" using m(1) by (simp add: k Truncate_mult)
qed

lemma Truncate_less_iff: "0 < m \<Longrightarrow> m dvd a \<Longrightarrow> Truncate t m < a \<longleftrightarrow> t < a" for a m t :: int
  using Truncate_ge_iff [of m a t] by linarith

lemma quarter_pos: "0 < 15 * minute"
  by (simp add: duration_defs)

lemma slot_time: "Unix (slot_of c) 0 = Truncate (ch_ts c) (15 * minute)"
proof -
  let ?m = "15 * minute" and ?t = "ch_ts c"
  obtain K where epoch: "pg_epoch = ?m * K"
    by (rule that [of "pg_epoch div ?m"]) (simp add: pg_epoch_def Unix_def unix_epoch_def duration_defs)
  have steps: "(?t - ?m * K) div ?m = ?t div ?m - K"
    using div_mult_self2 [of ?m ?t "- K"] quarter_pos by simp
  have bin: "date_bin ?m ?t pg_epoch = ?m * (?t div ?m)"
    unfolding date_bin_def epoch steps by (simp add: algebra_simps)
  have "second dvd ?m * (?t div ?m) - unix_epoch"
    by (simp add: duration_defs unix_epoch_def)
  then show ?thesis
    by (simp add: slot_of_def bin Unix_def UnixSeconds_def Truncate_mult)
qed

lemma in_bar_slot:
  assumes "0 < bucket" "15 * minute dvd bucket"
  shows "in_bar now bucket nb i (Truncate t (15 * minute)) \<longleftrightarrow> in_bar now bucket nb i t"
proof -
  have "15 * minute dvd bar_start now bucket nb i"
    using assms(2) by (simp add: bar_start_def Truncate_mult)
  then show ?thesis
    using assms by (simp add: in_bar_def Truncate_ge_iff [OF quarter_pos] Truncate_less_iff [OF quarter_pos])
qed

text \<open>A nb below \<open>2 ^ 57\<close> is itself, a hundred times over.\<close>

lemma of_nat_word_eq: "m < 2 ^ 64 \<Longrightarrow> n < 2 ^ 64 \<Longrightarrow> (of_nat m :: 64 word) = of_nat n \<longleftrightarrow> m = n"
  by (simp add: word_of_nat_eq_iff take_bit_nat_eq_self)

lemma of_nat_word_le: "m < 2 ^ 64 \<Longrightarrow> n < 2 ^ 64 \<Longrightarrow> (of_nat m :: 64 word) \<le> of_nat n \<longleftrightarrow> m \<le> n"
  by (simp add: word_of_nat_less_iff take_bit_nat_eq_self flip: not_less)

lemma rank_of_counts:
  assumes "length cs < 2 ^ 57"
  shows "rank_of (slot_counts cs) =
     (if length (filter counts_ok cs) = length (filter is_measured cs) then 1
      else if 100 * length (filter counts_ok cs) \<ge> 95 * length (filter is_measured cs) then 2 else 3)"
proof -
  have m: "length (filter is_measured cs) < 2 ^ 57" "length (filter counts_ok cs) < 2 ^ 57"
    using assms length_filter_le [of is_measured cs] length_filter_le [of counts_ok cs] by linarith+
  have "(of_nat a :: 64 word) * 100 = of_nat (100 * a)" "(of_nat a :: 64 word) * 95 = of_nat (95 * a)" for a
    by simp_all
  then show ?thesis
    using m of_nat_word_eq [of "length (filter counts_ok cs)" "length (filter is_measured cs)"]
      of_nat_word_le [of "95 * length (filter is_measured cs)" "100 * length (filter counts_ok cs)"]
    by (simp add: rank_of_def slot_counts_def del: of_nat_mult)
qed

lemma filter_eq_all: "(\<And>c. P c \<Longrightarrow> Q c) \<Longrightarrow> length (filter P cs) = length (filter Q cs) \<longleftrightarrow> (\<forall>c \<in> set cs. Q c \<longrightarrow> P c)"
proof (induction cs)
  case (Cons c cs)
  have "length (filter P cs) \<le> length (filter Q cs)"
    using Cons.prems by (induction cs) auto
  with Cons show ?case by auto
qed simp

lemma rank_one:
  "length cs < 2 ^ 57 \<Longrightarrow> rank_of (slot_counts cs) = 1 \<longleftrightarrow> (\<forall>c \<in> set cs. is_measured c \<longrightarrow> counts_ok c)"
  using filter_eq_all [of counts_ok is_measured cs] by (simp add: rank_of_counts counts_ok_measured)

lemma no_total:
  "length cs < 2 ^ 57 \<Longrightarrow> sl_total (slot_counts cs) = 0 \<longleftrightarrow> (\<forall>c \<in> set cs. \<not> is_measured c)"
  using of_nat_word_eq [of "length (filter is_measured cs)" 0] length_filter_le [of is_measured cs]
  by (simp add: slot_counts_def filter_empty_conv)

lemma no_total_no_ok: "length cs < 2 ^ 57 \<Longrightarrow> sl_total (slot_counts cs) = 0 \<Longrightarrow> sl_ok (slot_counts cs) = 0"
proof -
  assume "length cs < 2 ^ 57" "sl_total (slot_counts cs) = 0"
  then have "filter counts_ok cs = []" by (auto simp: no_total filter_empty_conv dest: counts_ok_measured)
  then show ?thesis by (simp add: slot_counts_def)
qed

lemma set_read_slots:
  "set (read_slots cs target t) =
     (\<lambda>k. (k, slot_counts (filter (\<lambda>c. slot_of c = k) (rows_since cs target t)))) ` slot_of ` set (rows_since cs target t)"
  by (simp add: read_slots_def Let_def)

section \<open>What a strip shows\<close>

text \<open>Enough to keep every number in range: the rows lie within a century, and there are fewer than \<open>2 ^ 57\<close>.\<close>

definition ordinary :: "stored_check list \<Rightarrow> time \<Rightarrow> bool" where
  "ordinary cs now \<longleftrightarrow> length cs < 2 ^ 57 \<and> (\<forall>c \<in> set cs. \<bar>now - ch_ts c\<bar> \<le> century)"

definition shown_in :: "stored_check list \<Rightarrow> int \<Rightarrow> time \<Rightarrow> duration \<Rightarrow> nat \<Rightarrow> nat \<Rightarrow> stored_check list" where
  "shown_in cs target now bucket nb i =
     filter (\<lambda>c. ch_target c = target \<and> in_bar now bucket nb i (ch_ts c)) cs"

lemma plan_reaches_back:
  assumes "(bucket, nb) \<in> set all_plans"
  shows "slots_from now \<le> bar_start now bucket nb i"
proof -
  note plan = plan_facts [OF assms]
  have "bucket dvd Truncate now (12 * hour)" using plan(3) by (simp add: Truncate_mult dvd_mult2)
  then have "Truncate now (12 * hour) \<le> Truncate now bucket"
    using Truncate_ge_iff [OF plan(1)] Truncate_le [of "12 * hour" now] by (simp add: duration_defs)
  moreover have "(int nb - 1) * bucket \<le> 59 * 12 * hour"
    using assms by (auto simp: all_plans_def duration_defs)
  moreover have "(int nb - 1 - int i) * bucket \<le> (int nb - 1) * bucket"
    using plan(1) by simp
  ultimately show ?thesis unfolding slots_from_def bar_start_def Add_def by linarith
qed

lemma reach_slot: "\<bar>now - ch_ts c\<bar> \<le> century \<Longrightarrow> in_reach now (Unix (slot_of c) 0)"
  using Truncate_le [OF quarter_pos, of "ch_ts c"]
  unfolding slot_time in_reach_def century_def duration_defs by linarith

lemma group_length: "ordinary cs now \<Longrightarrow> length (filter P (rows_since cs target t)) < 2 ^ 57"
  using length_filter_le [of P "rows_since cs target t"] length_filter_le [of "\<lambda>c. ch_target c = target \<and> ch_ts c \<ge> t" cs]
  by (simp add: ordinary_def rows_since_def del: length_filter_le)

lemma image_pairs: "snd ` {x \<in> (\<lambda>k. (k, g k)) ` S. P x} = {g k | k. k \<in> S \<and> P (k, g k)}"
  by force

lemma slots_of_bar:
  assumes ord: "ordinary cs now" and plan: "(bucket, nb) \<in> set all_plans"
  shows "set (bar_slots now bucket nb i (read_slots cs target (slots_from now))) =
     {slot_counts (filter (\<lambda>c. slot_of c = k) (rows_since cs target (slots_from now))) | k.
        (\<exists>c \<in> set (shown_in cs target now bucket nb i). slot_of c = k \<and> is_measured c)}"
    (is "?A = ?B")
proof -
  let ?rows = "rows_since cs target (slots_from now)"
  let ?G = "\<lambda>k. filter (\<lambda>c. slot_of c = k) ?rows"
  have shown: "c \<in> set (shown_in cs target now bucket nb i) \<longleftrightarrow> c \<in> set ?rows \<and> in_bar now bucket nb i (Unix (slot_of c) 0)" for c
    using plan_reaches_back [OF plan, of now i] in_bar_slot [OF plan_facts(1,2) [OF plan], of now nb i "ch_ts c"]
    by (auto simp: shown_in_def rows_since_def slot_time in_bar_def)
  have total: "sl_total (slot_counts (?G k)) \<noteq> 0 \<longleftrightarrow> (\<exists>c \<in> set ?rows. slot_of c = k \<and> is_measured c)" for k
    using no_total [OF group_length [OF ord]] by auto
  have slots: "?A = {slot_counts (?G k) | k. k \<in> slot_of ` set ?rows \<and> sl_total (slot_counts (?G k)) \<noteq> 0 \<and> in_bar now bucket nb i (Unix k 0)}"
    unfolding bar_slots_def set_map set_filter set_read_slots image_pairs by simp
  have "k \<in> slot_of ` set ?rows \<and> sl_total (slot_counts (?G k)) \<noteq> 0 \<and> in_bar now bucket nb i (Unix k 0) \<longleftrightarrow>
      (\<exists>c \<in> set (shown_in cs target now bucket nb i). slot_of c = k \<and> is_measured c)" for k
    unfolding total by (auto simp: shown)
  with slots show ?thesis by (simp only:)
qed

lemma rank_names_cases:
  assumes "r \<le> 3"
  shows "rank_names ! r = ''nodata'' \<longleftrightarrow> r = 0" "rank_names ! r = ''ok'' \<longleftrightarrow> r = 1" "rank_names ! r = ''down'' \<longleftrightarrow> r = 3"
proof -
  consider "r = 0" | "r = 1" | "r = 2" | "r = 3" using assms by linarith
  then show "rank_names ! r = ''nodata'' \<longleftrightarrow> r = 0" "rank_names ! r = ''ok'' \<longleftrightarrow> r = 1" "rank_names ! r = ''down'' \<longleftrightarrow> r = 3"
    by (cases; simp add: rank_names_def)+
qed

definition bar_rank :: "slotCounts list \<Rightarrow> nat" where
  "bar_rank cs = sb_rank (fold merge_slot cs no_bar)"

lemma bar_rank_facts:
  "bar_rank cs \<le> 3" "bar_rank cs = 0 \<longleftrightarrow> cs = []"
  "bar_rank cs = 1 \<longleftrightarrow> cs \<noteq> [] \<and> (\<forall>c \<in> set cs. rank_of c = 1)" "bar_rank cs = 3 \<longleftrightarrow> (\<exists>c \<in> set cs. rank_of c = 3)"
proof -
  have le: "k \<le> bar_rank cs \<longleftrightarrow> k = 0 \<or> (\<exists>c \<in> set cs. k \<le> rank_of c)" for k
    by (simp add: bar_rank_def merged_rank no_bar_def)
  show b: "bar_rank cs \<le> 3" by (simp add: bar_rank_def merged_rank_bound no_bar_def)
  have "1 \<le> bar_rank cs \<longleftrightarrow> cs \<noteq> []" using le [of 1] rank_of_range by (cases cs) auto
  then show "bar_rank cs = 0 \<longleftrightarrow> cs = []" by linarith
  have one: "rank_of c = 1 \<longleftrightarrow> \<not> 2 \<le> rank_of c" for c using rank_of_range [of c] by linarith
  have "bar_rank cs = 1 \<longleftrightarrow> 1 \<le> bar_rank cs \<and> \<not> 2 \<le> bar_rank cs" by linarith
  then show "bar_rank cs = 1 \<longleftrightarrow> cs \<noteq> [] \<and> (\<forall>c \<in> set cs. rank_of c = 1)"
    using le [of 2] \<open>1 \<le> bar_rank cs \<longleftrightarrow> cs \<noteq> []\<close> by (simp add: one [unfolded One_nat_def])
  have three: "rank_of c = 3 \<longleftrightarrow> 3 \<le> rank_of c" for c using rank_of_range [of c] by linarith
  have "bar_rank cs = 3 \<longleftrightarrow> 3 \<le> bar_rank cs" using b by linarith
  then show "bar_rank cs = 3 \<longleftrightarrow> (\<exists>c \<in> set cs. rank_of c = 3)"
    using le [of 3] by (simp add: three)
qed

lemma bars_of_strip:
  assumes plan: "strip_plan slots now = (bucket, nb)" and built: "buildStrip slots now = (bars, b, up, all)"
    and reach: "\<forall>(s, c) \<in> set slots. in_reach now (Unix s 0)"
  shows "length bars = nb" "b = bucket"
    "i < nb \<Longrightarrow> bars ! i = rank_names ! bar_rank (bar_slots now bucket nb i slots)"
proof -
  have in_plans: "(bucket, nb) \<in> set all_plans" using strip_plan_in [of slots now] plan by simp
  have b: "0 < bucket" "bucket \<le> 12 * hour"
    using plan_facts(1) [OF in_plans] in_plans by (auto simp: all_plans_def duration_defs)
  let ?bs = "fold (add_slot (Truncate now bucket) bucket nb) slots (replicate nb no_bar)"
  have bars: "bars = map (\<lambda>b. rank_names ! sb_rank b) ?bs" "b = bucket"
    using built by (auto simp: buildStrip_def plan Let_def)
  then show "length bars = nb" "b = bucket" by simp_all
  show "bars ! i = rank_names ! bar_rank (bar_slots now bucket nb i slots)" if "i < nb"
    using bars_nth [OF b reach, of "replicate nb no_bar" nb i] that by (simp add: bars bar_rank_def)
qed

text \<open>The quarters of an hour of a bar in which fewer than 95 in a hundred measured checks were fine.\<close>

definition bad_quarter :: "stored_check list \<Rightarrow> int \<Rightarrow> int \<Rightarrow> bool" where
  "bad_quarter cs target k \<longleftrightarrow>
     (let q = filter (\<lambda>c. ch_target c = target \<and> slot_of c = k) cs
      in 100 * length (filter counts_ok q) < 95 * length (filter is_measured q))"

lemma group_of_rows:
  assumes plan: "(bucket, nb) \<in> set all_plans" and c: "c \<in> set (shown_in cs target now bucket nb i)"
  shows "filter (\<lambda>d. slot_of d = slot_of c) (rows_since cs target (slots_from now)) =
     filter (\<lambda>d. ch_target d = target \<and> slot_of d = slot_of c) cs"
proof -
  have "slots_from now \<le> ch_ts d" if "slot_of d = slot_of c" for d
  proof -
    have "in_bar now bucket nb i (ch_ts d)"
      using that c in_bar_slot [OF plan_facts(1,2) [OF plan], of now nb i "ch_ts c"]
        in_bar_slot [OF plan_facts(1,2) [OF plan], of now nb i "ch_ts d"]
      by (simp add: shown_in_def flip: slot_time)
    then show ?thesis using plan_reaches_back [OF plan, of now i] by (simp add: in_bar_def)
  qed
  then show ?thesis by (auto simp: rows_since_def filter_filter intro!: filter_cong)
qed

lemma slots_in_reach:
  "ordinary cs now \<Longrightarrow> \<forall>(s, c) \<in> set (read_slots cs target t). in_reach now (Unix s 0)"
  by (auto simp: set_read_slots rows_since_def ordinary_def intro: reach_slot)

definition checks_in :: "stored_check list \<Rightarrow> int \<Rightarrow> time \<Rightarrow> duration \<Rightarrow> nat \<Rightarrow> nat \<Rightarrow> stored_check set" where
  "checks_in cs target now bucket nb i = set (filter is_measured (shown_in cs target now bucket nb i))"

lemma strip_bar_facts:
  assumes ord: "ordinary cs now" and slots: "mset slots = mset (read_slots cs target (slots_from now))"
    and plan: "strip_plan slots now = (bucket, nb)" and built: "buildStrip slots now = (bars, b, up, all)"
    and i: "i < nb"
  defines "shown \<equiv> checks_in cs target now bucket nb i"
  shows "length bars = nb"
    and "bars ! i = ''nodata'' \<longleftrightarrow> shown = {}"
    and "bars ! i = ''ok'' \<longleftrightarrow> shown \<noteq> {} \<and> (\<forall>c \<in> shown. counts_ok c)"
    and "bars ! i = ''down'' \<longleftrightarrow> (\<exists>c \<in> shown. bad_quarter cs target (slot_of c))"
proof -
  have in_plans: "(bucket, nb) \<in> set all_plans" using strip_plan_in [of slots now] plan by simp
  have set_slots: "set slots = set (read_slots cs target (slots_from now))"
    using slots by (metis set_mset_mset)
  have reach: "\<forall>(s, c) \<in> set slots. in_reach now (Unix s 0)"
    unfolding set_slots by (rule slots_in_reach [OF ord])
  let ?B = "bar_slots now bucket nb i slots"
  let ?G = "\<lambda>k. filter (\<lambda>c. slot_of c = k) (rows_since cs target (slots_from now))"
  note strip = bars_of_strip [OF plan built reach]
  show "length bars = nb" by (rule strip(1))
  have "set ?B = set (bar_slots now bucket nb i (read_slots cs target (slots_from now)))"
    by (simp add: bar_slots_def set_slots)
  then have B: "set ?B = {slot_counts (?G k) | k. \<exists>c \<in> set (shown_in cs target now bucket nb i). slot_of c = k \<and> is_measured c}"
    using slots_of_bar [OF ord in_plans] by simp
  then have B': "set ?B = (\<lambda>c. slot_counts (?G (slot_of c))) ` shown"
    by (auto simp: shown_def checks_in_def)
  have group: "d \<in> set (?G (slot_of c)) \<and> is_measured d \<longleftrightarrow> d \<in> shown \<and> slot_of d = slot_of c" if "c \<in> shown" for c d
  proof -
    have c: "c \<in> set (shown_in cs target now bucket nb i)" using that by (simp add: shown_def checks_in_def)
    have "in_bar now bucket nb i (ch_ts d) \<longleftrightarrow> in_bar now bucket nb i (ch_ts c)" if "slot_of d = slot_of c"
      using that in_bar_slot [OF plan_facts(1,2) [OF in_plans], of now nb i "ch_ts c"]
        in_bar_slot [OF plan_facts(1,2) [OF in_plans], of now nb i "ch_ts d"]
      by (simp flip: slot_time)
    with c show ?thesis unfolding group_of_rows [OF in_plans c] by (auto simp: shown_def checks_in_def shown_in_def)
  qed
  have rank: "bars ! i = rank_names ! bar_rank ?B" by (rule strip(3) [OF i])
  note names = rank_names_cases [OF bar_rank_facts(1), of ?B, folded rank]
  show "bars ! i = ''nodata'' \<longleftrightarrow> shown = {}"
    unfolding names(1) bar_rank_facts(2) set_empty [symmetric] B' by simp
  have "(\<forall>r \<in> set ?B. rank_of r = 1) \<longleftrightarrow> (\<forall>c \<in> shown. \<forall>d \<in> set (?G (slot_of c)). is_measured d \<longrightarrow> counts_ok d)"
    unfolding B' using rank_one [OF group_length [OF ord]] by simp
  also have "\<dots> \<longleftrightarrow> (\<forall>c \<in> shown. counts_ok c)"
    using group by blast
  finally show "bars ! i = ''ok'' \<longleftrightarrow> shown \<noteq> {} \<and> (\<forall>c \<in> shown. counts_ok c)"
    unfolding names(2) bar_rank_facts(3) using B' by (metis image_is_empty set_empty)
  have bad: "rank_of (slot_counts (?G (slot_of c))) = 3 \<longleftrightarrow> bad_quarter cs target (slot_of c)" if "c \<in> shown" for c
  proof -
    have c: "c \<in> set (shown_in cs target now bucket nb i)" using that by (simp add: shown_def checks_in_def)
    show ?thesis
      using group_length [OF ord, of "\<lambda>d. slot_of d = slot_of c" target "slots_from now"]
      unfolding group_of_rows [OF in_plans c] by (auto simp: rank_of_counts bad_quarter_def Let_def)
  qed
  show "bars ! i = ''down'' \<longleftrightarrow> (\<exists>c \<in> shown. bad_quarter cs target (slot_of c))"
    unfolding names(3) bar_rank_facts(4) B' using bad by auto
qed

text \<open>C25. The strip of a status page says of each span what its checks say, for every age of the target, every cadence and whatever order Go
  ranges over the slots in: a bar is \<open>nodata\<close> exactly when no check in it could be measured, \<open>ok\<close> exactly when
  every measured one was fine, so no failed check is painted green, and \<open>down\<close> exactly when some quarter of an hour in it
  was below 95 in a hundred.\<close>

theorem strip_shows_its_checks:
  assumes "ordinary cs now" and "mset slots = mset (read_slots cs target (slots_from now))"
    and "strip_plan slots now = (bucket, nb)" and "buildStrip slots now = (bars, b, up, all)" and "i < nb"
  shows "length bars = nb
    \<and> (bars ! i = ''nodata'' \<longleftrightarrow> checks_in cs target now bucket nb i = {})
    \<and> (bars ! i = ''ok'' \<longleftrightarrow> checks_in cs target now bucket nb i \<noteq> {} \<and> (\<forall>c \<in> checks_in cs target now bucket nb i. counts_ok c))
    \<and> (bars ! i = ''down'' \<longleftrightarrow> (\<exists>c \<in> checks_in cs target now bucket nb i. bad_quarter cs target (slot_of c)))"
  using strip_bar_facts [OF assms] by (intro conjI) assumption+

section \<open>The uptime\<close>

definition in_strip :: "time \<Rightarrow> duration \<Rightarrow> nat \<Rightarrow> time \<Rightarrow> bool" where
  "in_strip now bucket nb t \<longleftrightarrow> bar_start now bucket nb 0 \<le> t \<and> t < Truncate now bucket + bucket"

lemma in_strip_iff:
  assumes "0 < bucket"
  shows "in_strip now bucket nb t \<longleftrightarrow> (\<exists>i < nb. in_bar now bucket nb i t)"
proof -
  define p where "p = t div bucket"
  define q where "q = now div bucket"
  have bar: "in_bar now bucket nb i t \<longleftrightarrow> p = q - (int nb - 1 - int i)" for i
    using div_interval [OF assms, of "q - (int nb - 1 - int i)" t]
    by (simp add: in_bar_def bar_start_def Truncate_mult p_def q_def algebra_simps)
  have "in_strip now bucket nb t \<longleftrightarrow> q - (int nb - 1) \<le> p \<and> p \<le> q"
  proof -
    have "bar_start now bucket nb 0 = (q - (int nb - 1)) * bucket" "Truncate now bucket + bucket = (q + 1) * bucket"
      by (simp_all add: bar_start_def Truncate_mult q_def algebra_simps)
    moreover have "x * bucket \<le> t \<longleftrightarrow> x \<le> p" for x
      using Truncate_ge_iff [OF assms, of "x * bucket" t] assms by (simp add: Truncate_mult p_def mult.commute)
    ultimately show ?thesis by (auto simp: in_strip_def not_less [symmetric])
  qed
  also have "\<dots> \<longleftrightarrow> (\<exists>i < nb. p = q - (int nb - 1 - int i))"
  proof
    assume "q - (int nb - 1) \<le> p \<and> p \<le> q"
    then show "\<exists>i < nb. p = q - (int nb - 1 - int i)"
      by (intro exI [of _ "nat (p - q + int nb - 1)"]) auto
  qed auto
  finally show ?thesis by (simp add: bar)
qed

lemma sum_list_map_update:
  fixes f :: "'a \<Rightarrow> 'b::ab_group_add"
  shows "k < length xs \<Longrightarrow> sum_list (map f (xs[k := x])) = sum_list (map f xs) + (f x - f (xs ! k))"
proof (induction xs arbitrary: k)
  case (Cons y xs)
  then show ?case by (cases k) (simp_all add: algebra_simps)
qed simp

definition in_range :: "time \<Rightarrow> duration \<Rightarrow> nat \<Rightarrow> int \<Rightarrow> bool" where
  "in_range t bucket nb s \<longleftrightarrow> 0 \<le> bar_index t bucket nb s \<and> bar_index t bucket nb s < int nb"

lemma sums_add_slot:
  assumes "length bs = nb"
  shows "sum_list (map sb_total (add_slot t bucket nb (s, c) bs)) = sum_list (map sb_total bs) +
      (if sl_total c \<noteq> 0 \<and> in_range t bucket nb s then sl_total c else 0)"
    and "sum_list (map sb_ok (add_slot t bucket nb (s, c) bs)) = sum_list (map sb_ok bs) +
      (if sl_total c \<noteq> 0 \<and> in_range t bucket nb s then sl_ok c else 0)"
  using assms by (auto simp: add_slot_def in_range_def Let_def sum_list_map_update)

lemma sums_of_strip:
  assumes "length bs = nb"
    and "\<forall>(s, c) \<in> set slots. in_range t bucket nb s = P s"
    and "\<forall>(s, c) \<in> set slots. sl_total c = 0 \<longrightarrow> sl_ok c = 0"
  shows "sum_list (map sb_total (fold (add_slot t bucket nb) slots bs)) =
      sum_list (map sb_total bs) + sum_list (map (\<lambda>(s, c). if P s then sl_total c else 0) slots)"
    and "sum_list (map sb_ok (fold (add_slot t bucket nb) slots bs)) =
      sum_list (map sb_ok bs) + sum_list (map (\<lambda>(s, c). if P s then sl_ok c else 0) slots)"
  using assms by (induction slots arbitrary: bs) (auto simp: sums_add_slot add.assoc)

lemma sum_groups:
  "sum_list (map (\<lambda>k. length (filter (\<lambda>x. f x = k \<and> Q x) xs)) (remdups (map f xs))) = length (filter Q xs)"
proof -
  have "(\<Sum>k \<in> K. length (filter (\<lambda>x. f x = k \<and> Q x) xs)) = length (filter Q xs)" if "finite K" "f ` set xs \<subseteq> K" for K
    using that(2)
  proof (induction xs)
    case (Cons x xs)
    have "(\<Sum>k \<in> K. length (filter (\<lambda>y. f y = k \<and> Q y) (x # xs))) =
        (\<Sum>k \<in> K. (if k = f x \<and> Q x then 1 else 0) + length (filter (\<lambda>y. f y = k \<and> Q y) xs))"
      by (rule sum.cong) auto
    with Cons \<open>finite K\<close> show ?case by (simp add: sum.distrib sum.If_cases)
  qed simp
  from this [of "set (remdups (map f xs))"] show ?thesis
    by (simp add: sum_list_distinct_conv_sum_set)
qed

lemma sum_list_of_nat: "sum_list (map (\<lambda>x. of_nat (g x)) xs) = of_nat (sum_list (map g xs))"
  by (induction xs) simp_all

lemma sum_read_slots:
  assumes "\<And>cs. f (slot_counts cs) = of_nat (length (filter Q cs))"
  shows "sum_list (map (\<lambda>(s, c). if P s then f c else (0 :: 64 word)) (read_slots cs target t)) =
    of_nat (length (filter (\<lambda>c. Q c \<and> P (slot_of c)) (rows_since cs target t)))"
proof -
  let ?rows = "rows_since cs target t"
  have "(if P k then f (slot_counts (filter (\<lambda>c. slot_of c = k) ?rows)) else 0) =
      of_nat (length (filter (\<lambda>c. slot_of c = k \<and> Q c \<and> P (slot_of c)) ?rows))" for k
  proof (cases "P k")
    case True
    then have "filter (\<lambda>c. slot_of c = k \<and> Q c \<and> P (slot_of c)) ?rows = filter (\<lambda>c. slot_of c = k \<and> Q c) ?rows"
      by (intro filter_cong) auto
    with True show ?thesis by (simp add: assms conj_commute)
  qed (simp cong: conj_cong)
  then show ?thesis
    by (simp add: read_slots_def Let_def comp_def sum_list_of_nat sum_groups)
qed

text \<open>C27. The uptime of a strip is that of the checks it shows, each counted once: the two counts behind the percentage are the numbers of
  measured checks, and of fine ones, between the start of the first bar and the end of the last, whatever the
  bars are.\<close>

theorem uptime_counts_its_checks:
  assumes ord: "ordinary cs now" and slots: "mset slots = mset (read_slots cs target (slots_from now))"
    and plan: "strip_plan slots now = (bucket, nb)" and built: "buildStrip slots now = (bars, b, up, all)"
  shows "up = of_nat (length (filter (\<lambda>c. ch_target c = target \<and> counts_ok c \<and> in_strip now bucket nb (ch_ts c)) cs))
    \<and> all = of_nat (length (filter (\<lambda>c. ch_target c = target \<and> is_measured c \<and> in_strip now bucket nb (ch_ts c)) cs))"
proof -
  have in_plans: "(bucket, nb) \<in> set all_plans" using strip_plan_in [of slots now] plan by simp
  have b: "0 < bucket" "bucket \<le> 12 * hour" "0 < nb"
    using plan_facts(1,4) [OF in_plans] in_plans by (auto simp: all_plans_def duration_defs)
  let ?slots = "read_slots cs target (slots_from now)"
  let ?P = "\<lambda>s. in_strip now bucket nb (Unix s 0)"
  have set_slots: "set slots = set ?slots" using slots by (metis set_mset_mset)
  have range: "in_range (Truncate now bucket) bucket nb s = ?P s" if "in_reach now (Unix s 0)" for s
  proof -
    let ?x = "bar_index (Truncate now bucket) bucket nb s"
    have "0 \<le> ?x \<and> ?x < int nb \<longleftrightarrow> (\<exists>i < nb. ?x = int i)"
      using nat_less_iff zero_le_imp_eq_int by fastforce
    then show ?thesis
      by (simp add: in_range_def bar_index_iff [OF b(1,2) that] in_strip_iff [OF b(1)])
  qed
  have zero: "sl_total c = 0 \<longrightarrow> sl_ok c = 0" if sc: "(s, c) \<in> set slots" for s c
  proof -
    obtain k where "c = slot_counts (filter (\<lambda>c. slot_of c = k) (rows_since cs target (slots_from now)))"
      using sc by (auto simp: set_slots set_read_slots)
    with no_total_no_ok [OF group_length [OF ord]] show ?thesis by simp
  qed
  have sums: "sum_list (map f slots) = sum_list (map f ?slots)" for f :: "_ \<Rightarrow> 64 word"
    using slots by (metis mset_map sum_mset_sum_list)
  have strip: "in_strip now bucket nb (Unix (slot_of c) 0) = in_strip now bucket nb (ch_ts c)" for c
    by (simp add: in_strip_iff [OF b(1)] slot_time in_bar_slot [OF plan_facts(1,2) [OF in_plans]])
  have rows: "length (filter (\<lambda>c. Q c \<and> ?P (slot_of c)) (rows_since cs target (slots_from now))) =
      length (filter (\<lambda>c. ch_target c = target \<and> Q c \<and> in_strip now bucket nb (ch_ts c)) cs)" for Q
  proof -
    have "slots_from now \<le> ch_ts c" if "in_strip now bucket nb (ch_ts c)" for c
      using that plan_reaches_back [OF in_plans, of now 0] by (simp add: in_strip_def)
    then show ?thesis by (auto simp: rows_since_def strip intro!: arg_cong [of _ _ length] filter_cong)
  qed
  note sum = sums_of_strip [of "replicate nb no_bar" nb slots "Truncate now bucket" bucket ?P]
  have fold: "up = sum_list (map (\<lambda>(s, c). if ?P s then sl_ok c else 0) slots)"
    "all = sum_list (map (\<lambda>(s, c). if ?P s then sl_total c else 0) slots)"
    using built sum slots_in_reach [OF ord, of target "slots_from now"] range zero
    by (auto simp: buildStrip_def plan Let_def sum_list_replicate no_bar_def set_slots)
  show ?thesis
    unfolding fold sums by (simp add: sum_read_slots [of sl_ok counts_ok] sum_read_slots [of sl_total is_measured] slot_counts_def rows)
qed

section \<open>The latest checks\<close>

lemma less_Sub: "d < Sub t u \<Longrightarrow> 0 \<le> d \<Longrightarrow> d < t - u"
  by (auto simp: Sub_def int64_bounds max_def split: if_splits)

text \<open>The hole one lost lease can leave is never drawn as a stop.\<close>

lemma lost_lease_draws_nothing:
  assumes "until - rk_at c \<le> probeLeaseTTL + 2 * (rk_interval c * second)"
  shows "gap_bar c until = []"
proof (rule ccontr)
  assume "gap_bar c until \<noteq> []"
  then have iv: "0 < rk_interval c" and gap: "stopAfter (rk_interval c) < Sub until (rk_at c)"
    by (auto simp: gap_bar_def split: if_splits)
  have "probeLeaseTTL + 2 * (rk_interval c * second) \<le> stopAfter (rk_interval c)" "0 \<le> stopAfter (rk_interval c)"
    using iv by (auto simp: stopAfter_def Let_def duration_defs)
  with less_Sub [OF gap] assms show False by linarith
qed

lemma gap_bar_cases:
  assumes "rk_interval c < 2 ^ 31"
  shows "gap_bar c until = [] \<or> (\<exists>t. gap_bar c until = [(''nodata'', t)] \<and> UnixSeconds (rk_at c) \<le> t \<and> t \<le> UnixSeconds until)"
proof (cases "gap_bar c until = []")
  case False
  then have iv: "0 < rk_interval c" and gap: "Sub until (rk_at c) > stopAfter (rk_interval c)"
    and bar: "gap_bar c until = [(''nodata'', UnixSeconds (Add (rk_at c) (rk_interval c * second)))]"
    by (auto simp: gap_bar_def split: if_splits)
  have "0 < rk_interval c * second" using iv by (simp add: duration_defs)
  moreover have "3 * (rk_interval c * second) < until - rk_at c"
    using less_Sub [OF gap] iv by (auto simp: stopAfter_def Let_def duration_defs)
  ultimately have "rk_at c \<le> Add (rk_at c) (rk_interval c * second)" "Add (rk_at c) (rk_interval c * second) \<le> until"
    by (simp_all add: Add_def)
  then have "UnixSeconds (rk_at c) \<le> UnixSeconds (Add (rk_at c) (rk_interval c * second))"
    "UnixSeconds (Add (rk_at c) (rk_interval c * second)) \<le> UnixSeconds until"
    by (simp_all add: UnixSeconds_def zdiv_mono1 duration_defs)
  with bar show ?thesis by simp
qed simp

lemma UnixSeconds_mono: "t \<le> u \<Longrightarrow> UnixSeconds t \<le> UnixSeconds u"
  by (simp add: UnixSeconds_def zdiv_mono1 duration_defs)

definition all_bars :: "recentCheck \<Rightarrow> recentCheck list \<Rightarrow> time \<Rightarrow> (string \<times> int) list" where
  "all_bars c cs now = check_bar c # bars_after c cs @ gap_bar (last (c # cs)) now"

lemma all_bars_Cons: "all_bars c (d # cs) now = check_bar c # gap_bar c (rk_at d) @ all_bars d cs now"
  by (simp add: all_bars_def)

lemma recentBars_all:
  "recentBars (c # cs) now =
     (map fst (all_bars c cs now), map snd (all_bars c cs now),
      if fst (last (all_bars c cs now)) \<noteq> ''nodata'' then rk_interval (last (c # cs)) else 0)"
  by (simp add: recentBars_def all_bars_def Let_def)

lemma all_bars_subseq: "subseq (map check_bar (c # cs)) (all_bars c cs now)"
proof (induction cs arbitrary: c)
  case Nil
  show ?case by (simp add: all_bars_def)
next
  case (Cons d cs)
  have "subseq (map check_bar (d # cs)) (gap_bar c (rk_at d) @ all_bars d cs now)"
    using Cons.IH [of d] by (rule subseq_drop_many)
  then show ?case by (simp add: all_bars_Cons)
qed

lemma check_bar_time [simp]: "snd (check_bar c) = UnixSeconds (rk_at c)"
  by (simp add: check_bar_def)

lemma all_bars_sorted:
  assumes "sorted (map rk_at (c # cs))" and "rk_at (last (c # cs)) \<le> now" and "\<forall>d \<in> set (c # cs). rk_interval d < 2 ^ 31"
  shows "sorted (map snd (all_bars c cs now))"
  using assms
proof (induction cs arbitrary: c)
  case Nil
  then show ?case using gap_bar_cases [of c now] by (auto simp: all_bars_def)
next
  case (Cons d cs)
  have IH: "sorted (map snd (all_bars d cs now))" using Cons by simp
  have head: "\<exists>bs. all_bars d cs now = check_bar d # bs" by (simp add: all_bars_def)
  have "UnixSeconds (rk_at c) \<le> UnixSeconds (rk_at d)" using Cons.prems(1) by (simp add: UnixSeconds_mono)
  moreover have "gap_bar c (rk_at d) = [] \<or> (\<exists>t. gap_bar c (rk_at d) = [(''nodata'', t)] \<and> UnixSeconds (rk_at c) \<le> t \<and> t \<le> UnixSeconds (rk_at d))"
    using Cons.prems(3) by (intro gap_bar_cases) simp
  ultimately show ?case using IH head by (fastforce simp: all_bars_Cons)
qed

lemma last_all_bars:
  "fst (last (all_bars c cs now)) =
     (if gap_bar (last (c # cs)) now \<noteq> [] then ''nodata'' else fst (check_bar (last (c # cs))))"
proof (induction cs arbitrary: c)
  case Nil
  then show ?case by (auto simp: all_bars_def gap_bar_def)
next
  case (Cons d cs)
  have "all_bars d cs now \<noteq> []" by (simp add: all_bars_def)
  with Cons [of d] show ?case by (simp add: all_bars_Cons)
qed

definition stopped :: "recentCheck \<Rightarrow> time \<Rightarrow> bool" where
  "stopped c now \<longleftrightarrow> \<not> rk_measurable c \<or> 0 < rk_interval c \<and> Sub now (rk_at c) > stopAfter (rk_interval c)"

text \<open>C26. The strip of the latest checks has one bar per check, in order and in time order, and claims nothing for a check that stopped: its newest bar is
  \<open>nodata\<close> exactly when the newest check could not be measured or has been silent past its allowance, and
  only otherwise does it name a cadence.\<close>

theorem latest_checks_admit_silence:
  assumes "checks \<noteq> []" and "sorted (map rk_at checks)" and "rk_at (last checks) \<le> now"
    and "\<forall>c \<in> set checks. rk_interval c < 2 ^ 31" and "recentBars checks now = (bars, at, every)"
  shows "length bars = length at \<and> subseq (map check_bar checks) (zip bars at) \<and> sorted at
    \<and> (last bars = ''nodata'' \<longleftrightarrow> stopped (last checks) now)
    \<and> every = (if stopped (last checks) now then 0 else rk_interval (last checks))"
proof -
  obtain c cs where checks: "checks = c # cs" using assms(1) by (cases checks) auto
  have ne: "all_bars c cs now \<noteq> []" by (simp add: all_bars_def)
  have bars: "bars = map fst (all_bars c cs now)" "at = map snd (all_bars c cs now)"
    and every: "every = (if fst (last (all_bars c cs now)) \<noteq> ''nodata'' then rk_interval (last checks) else 0)"
    using assms(5) by (auto simp: checks recentBars_all)
  have "fst (last (all_bars c cs now)) = ''nodata'' \<longleftrightarrow> stopped (last checks) now"
    by (auto simp: last_all_bars checks stopped_def gap_bar_def check_bar_def)
  then show ?thesis
    using all_bars_subseq [of c cs now] all_bars_sorted [of c cs now] assms(2-4) ne
    by (auto simp: bars every last_map zip_map_fst_snd checks)
qed

section \<open>A failed check and a silence\<close>

definition demo_now :: time where "demo_now = Unix 1700000060 0"

definition failed_check :: stored_check where
  "failed_check = \<lparr>ch_target = 1, ch_ts = Unix 1700000000 0, ch_ok = Some False, ch_class = Some ''timeout'', ch_code = Some 0,
     ch_interval = Some 60\<rparr>"

definition demo_slots :: "(int \<times> slotCounts) list" where
  "demo_slots = read_slots [failed_check] 1 (slots_from demo_now)"

lemma demo_ordinary: "ordinary [failed_check] demo_now"
  by (simp add: ordinary_def failed_check_def demo_now_def Unix_def century_def duration_defs)

lemma demo_plan: "strip_plan demo_slots demo_now = (15 * minute, 96)"
  by code_simp

lemma demo_checks: "checks_in [failed_check] 1 demo_now (15 * minute) 96 95 = {failed_check}"
proof -
  have "filter is_measured (shown_in [failed_check] 1 demo_now (15 * minute) 96 95) = [failed_check]" by code_simp
  then show ?thesis by (simp add: checks_in_def)
qed

lemma strip_shows_its_checks_witness: "fst (buildStrip demo_slots demo_now) ! 95 = ''down''"
proof -
  obtain bars b up all where built: "buildStrip demo_slots demo_now = (bars, b, up, all)" by (metis prod_cases4)
  have "bad_quarter [failed_check] 1 (slot_of failed_check)" by code_simp
  with strip_shows_its_checks [OF demo_ordinary _ demo_plan built, of 1 95] show ?thesis
    by (simp add: built demo_checks) (simp add: demo_slots_def)
qed

lemma uptime_counts_its_checks_witness:
  "fst (snd (snd (buildStrip demo_slots demo_now))) = 0 \<and> snd (snd (snd (buildStrip demo_slots demo_now))) = 1"
proof -
  obtain bars b up all where built: "buildStrip demo_slots demo_now = (bars, b, up, all)" by (metis prod_cases4)
  have "mset demo_slots = mset (read_slots [failed_check] 1 (slots_from demo_now))" by (simp add: demo_slots_def)
  from uptime_counts_its_checks [OF demo_ordinary this demo_plan built]
  have "up = of_nat 0 \<and> all = of_nat 1"
    by (elim ssubst conjE) code_simp
  then show ?thesis by (simp add: built)
qed

lemma latest_checks_admit_silence_witness:
  "last (fst (recentBars [recent_of failed_check] (Unix 1700000600 0))) = ''nodata''"
proof -
  let ?checks = "[recent_of failed_check]" and ?now = "Unix 1700000600 0"
  obtain bars at every where bars: "recentBars ?checks ?now = (bars, at, every)" by (metis prod_cases3)
  have "stopped (last ?checks) ?now" by code_simp
  with latest_checks_admit_silence [OF _ _ _ _ bars] show ?thesis
    by (simp add: bars) (simp add: recent_of_def failed_check_def Unix_def duration_defs)
qed

end
