(* ===== verification/Spec2Isabelle.thy ===== *)
theory Spec2Isabelle
  imports Scrub Availability Suppression NotifySettings IncidentNotify WorkerLife HeartbeatLife
    Fingerprint Normalize CardLimit DecodeFacts IngestReplay Batcher Sequence Query ErrorLogFacts
    DetectFacts ProbeFacts ProductAlertFacts ExecutorFacts TargetKey Platform WebhookFacts SignInBack
    AnalyticsFacts StatusStripFacts
begin

text \<open>
  Verification of the UpControl backend (\<^verbatim>\<open>src/back/\<close>, Go).

  \<^bold>\<open>The program.\<close> UpControl takes log lines, events and metrics on \<^verbatim>\<open>POST /i\<close> and keeps them in a ring of
  Postgres partitions; it watches websites through a fleet of probes and cron jobs through heartbeats; and it
  turns what it sees into incidents and alerts on Telegram, mail, Slack and Discord. Its parts meet in
  the database: the ingest path writes rows that the scanners aggregate; the probe service, the heartbeat
  and the error-rate scanner feed the incident lifecycle; the lifecycle and the error-log scanner
  put deliveries on a queue, and a worker leases and sends them.

  \<^bold>\<open>Theories.\<close> Source paths are under \<^verbatim>\<open>src/back/internal/\<close>.

  \<^item> \<open>Prelude\<close>, \<open>GoBytes\<close>, \<open>GoTime\<close>, \<open>Utf8\<close>, \<open>Fnv\<close>, \<open>Json\<close>: Go strings as byte lists, the functions of
    \<^verbatim>\<open>strings\<close>, \<^verbatim>\<open>bytes\<close>, \<^verbatim>\<open>strconv\<close>, \<^verbatim>\<open>time\<close>, \<^verbatim>\<open>unicode/utf8\<close> and \<^verbatim>\<open>hash/fnv\<close> the program calls, and
    JSON values; the collections \<open>bounds\<close>, \<open>progress\<close>, \<open>inv_intros\<close>.
  \<^item> \<open>Scrub\<close>: \<^verbatim>\<open>ingest/scrub\<close>, the matchers, the dispatch table and the loop that replaces secrets.
  \<^item> \<open>Decode\<close>, \<open>DecodeFacts\<close>: \<^verbatim>\<open>ingest/decode\<close>, the NDJSON, Loki, OTLP and plain decoders.
  \<^item> \<open>Fingerprint\<close>: \<^verbatim>\<open>ingest/fingerprint\<close>, the message template and its hash. \<open>Normalize\<close>: \<^verbatim>\<open>ingest/normalize\<close>, event
    names. \<open>CardLimit\<close>: \<^verbatim>\<open>ingest/cardinality\<close>. \<open>Public\<close>: the rate limit of \<^verbatim>\<open>ingest/public.go\<close>.
  \<^item> \<open>Ingest\<close>, \<open>Marshal\<close>, \<open>IngestHandle\<close>, \<open>IngestFacts\<close>, \<open>IngestReplay\<close>: \<^verbatim>\<open>ingest/ingest.go\<close>, from a request to its receipt:
    one row (\<open>build_row\<close>), what its JSON keeps of it (\<open>marshal_row\<close>), the whole of \<open>Handle\<close>, what a stored row and a receipt promise, and
    replays up to and after the purge.
  \<^item> \<open>Batcher\<close>: \<^verbatim>\<open>ingest/batcher\<close>; \<open>Sequence\<close>: \<^verbatim>\<open>ring/seq\<close>; \<open>Query\<close>: \<^verbatim>\<open>ring/query\<close>.
  \<^item> \<open>Availability\<close>: \<^verbatim>\<open>detect/availability\<close>; \<open>Suppression\<close>: \<^verbatim>\<open>detect/suppression\<close> and \<^verbatim>\<open>incident/triage\<close>;
    \<open>Detect\<close>, \<open>DetectFacts\<close>: \<^verbatim>\<open>detect/detect.go\<close> and \<^verbatim>\<open>detect/detectors\<close>; \<open>ErrorLog\<close>, \<open>ErrorLogFacts\<close>:
    \<^verbatim>\<open>detect/errorlog\<close>.
  \<^item> \<open>Store\<close>, \<open>Faults\<close>: the tables, and one definition per query of \<^verbatim>\<open>storage/pg/queries/*.sql\<close>.
  \<^item> \<open>NotifySettings\<close>: \<^verbatim>\<open>channel/notify\<close>; \<open>Incident\<close>, \<open>IncidentLife\<close>, \<open>IncidentNotify\<close>: \<^verbatim>\<open>incident/incident.go\<close>.
  \<^item> \<open>Payload\<close>: \<^verbatim>\<open>deliver/channels.go\<close>; \<open>Deliver\<close>: \<^verbatim>\<open>deliver/deliver.go\<close>; \<open>Worker\<close>, \<open>WorkerLife\<close>: \<^verbatim>\<open>deliver/worker.go\<close>.
  \<^item> \<open>Heartbeat\<close>, \<open>HeartbeatLife\<close>: \<^verbatim>\<open>heartbeat\<close>; \<open>ProbeService\<close>, \<open>ProbeFacts\<close>: \<^verbatim>\<open>rpc/probeservice.go\<close>.
  \<^item> \<open>ProductAlert\<close>, \<open>ProductAlertFacts\<close>: \<^verbatim>\<open>productalert\<close>, the rules over a project's events.
  \<^item> \<open>GoUrl\<close>, \<open>Crawl\<close>, \<open>Discover\<close>, \<open>DiscoverRun\<close>, \<open>DiscoverFacts\<close>, \<open>DiscoverSite\<close>: \<^verbatim>\<open>discover\<close>, the bounded look at a site before it
    is watched. \<open>Guard\<close>, \<open>Executor\<close>, \<open>ExecutorFacts\<close>: \<^verbatim>\<open>probe/guard\<close>, \<^verbatim>\<open>probe/executor\<close> and the settings of \<^verbatim>\<open>cmd/ucprobe\<close>.
    \<open>TargetKey\<close>: \<^verbatim>\<open>targetkey\<close>. \<open>Platform\<close>: \<^verbatim>\<open>platform/health\<close>, \<^verbatim>\<open>platform/shutdown\<close> and the teardown of \<^verbatim>\<open>cmd/ucapi\<close>.
  \<^item> \<open>Webhook\<close>, \<open>WebhookFacts\<close>: \<^verbatim>\<open>source/webhook\<close>, the signed deliveries of other services.
  \<^item> \<open>Account\<close>, \<open>MagicLink\<close>, \<open>SignIn\<close>: \<^verbatim>\<open>account/auth\<close> and \<^verbatim>\<open>account/session\<close>, the tables, the code by mail and the other doors.
    \<open>AccountWf\<close>, \<open>SignInFacts\<close>, \<open>SignInGuess\<close>, \<open>SignInScope\<close>, \<open>SignInProof\<close>, \<open>SignInCheck\<close>, \<open>SignInBack\<close>: the invariant of
    the tables, the bound on guesses, what a session rests on, the demonstration account and the way back from a cookie.
  \<^item> \<open>Analytics\<close>, \<open>AnalyticsFacts\<close>: \<^verbatim>\<open>analytics\<close>, events, visitors and the recorder.
  \<^item> \<open>StatusStrip\<close>, \<open>StatusStripFacts\<close>: the strips of a status page in \<^verbatim>\<open>api/write_api.go\<close>, from the stored checks to the bars.

  \<^bold>\<open>State and effects.\<close> A struct is a record, an enum a datatype, a Go error a value of an error datatype
  in a sum or an option. Integers are \<open>int\<close>, wrapped (\<open>wrap64\<close>, \<open>int32\<close>) or words where the width can be seen;
  times and durations are nanoseconds. The database is the record \<open>db\<close> (and \<open>fleet\<close> around it), passed and returned; a query may fail when
  the environment's \<open>fl\<close> says so, so every error path is a branch of the model. Shared memory and
  concurrency are step relations over critical sections (\<open>section_step\<close>, \<open>seq_step\<close>, \<open>lifecycle_step\<close>). Mutable
  objects that are shared by address (the batches of \<open>Batcher\<close>) live in an explicit store.

  \<^bold>\<open>Interfaces.\<close> \<open>transition_system\<close> (a detector and its run), \<open>claim_store\<close> (the idempotency table), \<open>sequencer\<close>
  (the number a row draws) and the delivery queue's interface are locales; the client's lemmas are
  proved in them once, and each is interpreted on the model's own definitions in the theory that provides them.

  \<^bold>\<open>What is shown.\<close> Scrubbing: dispatch equals linear search, and no prefixed credential survives. Ingest: decoded and stored rows are
  well formed, every record is accounted for, a replayed body writes nothing until its claim is purged; the batcher refines a
  queue when calls do not overlap, and loses rows when they do on a full batch; issued sequence numbers are unique under any
  interleaving. Detection: the availability detector refines the history of outcomes; an
  unpaused subscriber has an open incident exactly when its target is down; open incidents are unique up to
  failed duplicate checks;
  the error-rate scanner follows its decision and the cooldown. Delivery: a page is queued exactly for
  the channels that want it, a delivery is sent at most five times, leases exclude each other.
  Discovery: it returns, within a bounded number of requests, none of which names a host outside the site; the guard
  lets a check connect to no blocked address. Sign-in: a code is guessed a bounded number of times,
  a session needs a proof of the address, and a cookie leads back to its session. Analytics: a flush keeps every event,
  the first touch wins, the recorder is a queue. Status pages: each bar says what the checks of its span say, the
  uptime counts each shown check once, and a stopped check is never shown as running.
  Where the code does not keep what it says, the theorem states what it does
  (two tenants sending one body, an overlapping lease, two repeat windows, a crashed lease,
  a failed open of a heartbeat) and the manifest lists it as a finding.

  \<^bold>\<open>Loops.\<close> Every loop is structural or has a measure; no fuel is used. A discovery waits on answers from outside: it
  is a tree of requests (\<open>crawl\<close>), finite by its type, whose budget is a bound on its depth. Each scanner proves that it moves
  forward (\<open>progress\<close>), which is its termination argument.

  \<^bold>\<open>Not modelled.\<close> The HTTP handlers of \<^verbatim>\<open>api/\<close> other than the strips of the status page: monitors, keys, projects, dashboards
  and page settings, which check a request against the plan and run a transaction or shape a read. The generated \<^verbatim>\<open>gen/\<close>.
  The Telegram bot, the mailer and the image renderer talk to services; \<^verbatim>\<open>worker\<close> is timers and locks around the modelled
  scanners. \<^verbatim>\<open>storage/pgstore\<close> is SQL: the inserts and reads a modelled part uses are in that part, or its parameters.
  Cryptographic hashes, the JSON decoders of external bodies, the GeoIP database and the network are parameters. Floating
  point is a parameter record of operations. Logging, metrics counters and process start-up are left out. White space and case
  folding are those of ASCII. A status page's percentage is a float and is left out.
  \<^verbatim>\<open>Handle\<close> ignores the errors of its sink, so a sink that refuses a row is not a branch of it.
\<close>

end
